(* ===== verification/Field_Hash.thy ===== *)
theory Field_Hash
  imports Prelude
begin

text \<open>
  Field encodings and digests: \<open>crates/opencsv-core/src/field.rs\<close>, \<open>digest.rs\<close> and the
  kernel's cryptographic boundary \<open>crates/opencsv-kernel/src/hash.rs\<close>, \<open>binding.rs\<close>.

  A BabyBear element is its canonical representative, a natural number below the prime.
  The Poseidon2 sponge (Plonky3's \<open>PaddingFreeSponge::hash_iter\<close>) is not part of the
  repository: it is the argument \<open>sp\<close> of every definition that hashes. What the sources rely
  on, that it returns eight field elements, is the predicate \<open>sponge_ok\<close>.
\<close>

unbundle bit_operations_syntax

section \<open>Field elements\<close>

type_synonym felt = nat
type_synonym sponge = "felt list \<Rightarrow> felt list"
type_synonym digest = bytes
type_synonym truncated_digest = bytes
type_synonym ctx = bytes

definition BABY_BEAR_P :: nat where
  "BABY_BEAR_P = 0x78000001"

definition DIGEST_BYTES :: nat where "DIGEST_BYTES = 32"
definition TRUNCATED_DIGEST_BYTES :: nat where "TRUNCATED_DIGEST_BYTES = 24"
definition DIGEST_ELEMS :: nat where "DIGEST_ELEMS = 8"

definition felt :: "u32 \<Rightarrow> felt" where
  "felt x = unat x mod BABY_BEAR_P"

text \<open>Bytes of an ASCII string literal.\<close>

definition str_bytes :: "string \<Rightarrow> bytes" where
  "str_bytes s = map of_char s"

definition bytes_to_felts :: "bytes \<Rightarrow> felt list" where
  "bytes_to_felts bs =
     map (\<lambda>chunk. felt (from_le_bytes (copy_at 0 chunk (replicate 4 0)))) (chunks 3 bs)"

definition u64_to_felts :: "u64 \<Rightarrow> felt list" where
  "u64_to_felts v =
     [felt (ucast (v AND 0xFFFFFF)),
      felt (ucast (drop_bit 24 v AND 0xFFFFFF)),
      felt (ucast (drop_bit 48 v))]"

definition elems_to_canonical_u32s :: "felt list \<Rightarrow> u32 list" where
  "elems_to_canonical_u32s elems = map word_of_nat elems"

section \<open>Digests\<close>

definition from_elems :: "felt list \<Rightarrow> digest" where
  "from_elems elems = concat (map to_le_bytes (elems_to_canonical_u32s elems))"

definition to_elems :: "digest \<Rightarrow> felt list" where
  "to_elems d = map (\<lambda>chunk. felt (from_le_bytes chunk)) (chunks 4 d)"

definition is_canonical :: "digest \<Rightarrow> bool" where
  "is_canonical d =
     list_all (\<lambda>chunk. unat (from_le_bytes chunk :: u32) < BABY_BEAR_P) (chunks 4 d)"

definition to_anchor :: "digest \<Rightarrow> truncated_digest" where
  "to_anchor d = take TRUNCATED_DIGEST_BYTES d"

datatype digest_error = NonCanonicalDigest

text \<open>\<open>Deserialize for Digest\<close>: the 32 wire bytes are taken only when every limb is canonical.\<close>

definition digest_deserialize :: "bytes \<Rightarrow> digest_error + digest" where
  "digest_deserialize bs = (if \<not> is_canonical bs then Inl NonCanonicalDigest else Inr bs)"

text \<open>
  \<open>Digest::random_canonical\<close> over the list of candidates the random generator yields.
  \<open>None\<close> is a list that ends before the rejection sampling does.
\<close>

fun draw_canonical_limb :: "u32 list \<Rightarrow> (u32 \<times> u32 list) option" where
  "draw_canonical_limb [] = None"
| "draw_canonical_limb (candidate # rng) =
     (if unat candidate < BABY_BEAR_P then Some (candidate, rng) else draw_canonical_limb rng)"

fun draw_canonical_limbs :: "nat \<Rightarrow> u32 list \<Rightarrow> bytes option" where
  "draw_canonical_limbs 0 rng = Some []"
| "draw_canonical_limbs (Suc n) rng =
     (case draw_canonical_limb rng of None \<Rightarrow> None
      | Some (canonical, rng') \<Rightarrow>
          map_option (\<lambda>rest. to_le_bytes canonical @ rest) (draw_canonical_limbs n rng'))"

definition random_canonical :: "u32 list \<Rightarrow> digest option" where
  "random_canonical rng = draw_canonical_limbs DIGEST_ELEMS rng"

section \<open>The domain-separated hash\<close>

text \<open>The element sequence the sponge absorbs: length prefix, domain, parts.\<close>

definition hash_input :: "string \<Rightarrow> felt list list \<Rightarrow> felt list" where
  "hash_input domain parts =
     (let domain_felts = bytes_to_felts (str_bytes domain);
          n = length domain_felts + sum_list (map length parts)
      in felt (word_of_nat n) # domain_felts @ concat parts)"

definition hash_felts :: "sponge \<Rightarrow> string \<Rightarrow> felt list list \<Rightarrow> digest" where
  "hash_felts sp domain parts = from_elems (sp (hash_input domain parts))"

definition sponge_ok :: "sponge \<Rightarrow> bool" where
  "sponge_ok sp \<longleftrightarrow> (\<forall>xs. length (sp xs) = DIGEST_ELEMS \<and> (\<forall>x \<in> set (sp xs). x < BABY_BEAR_P))"

section \<open>The kernel's copy of the hash\<close>

function k_bytes_to_felts_loop :: "bytes \<Rightarrow> nat \<Rightarrow> felt list \<Rightarrow> felt list" where
  "k_bytes_to_felts_loop bs offset result =
     (if offset < length bs then
        (let en = min (offset + 3) (length bs);
             word = copy_at 0 (slice offset en bs) (replicate 4 0)
         in k_bytes_to_felts_loop bs en (result @ [felt (from_le_bytes word)]))
      else result)"
  by pat_completeness auto
termination
  by (relation "measure (\<lambda>(bs, offset, result). length bs - offset)") auto

declare k_bytes_to_felts_loop.simps [simp del]

definition k_bytes_to_felts :: "bytes \<Rightarrow> felt list" where
  "k_bytes_to_felts bs = k_bytes_to_felts_loop bs 0 []"

function k_digest_to_felts_loop :: "bytes \<Rightarrow> nat \<Rightarrow> felt list \<Rightarrow> felt list" where
  "k_digest_to_felts_loop bs index result =
     (if index < DIGEST_ELEMS then
        k_digest_to_felts_loop bs (Suc index)
          (result[index := felt (from_le_bytes (slice (index * 4) (index * 4 + 4) bs))])
      else result)"
  by pat_completeness auto
termination
  by (relation "measure (\<lambda>(bs, index, result). DIGEST_ELEMS - index)") auto

declare k_digest_to_felts_loop.simps [simp del]

definition k_digest_to_felts :: "bytes \<Rightarrow> felt list" where
  "k_digest_to_felts bs = k_digest_to_felts_loop bs 0 (replicate DIGEST_ELEMS 0)"

function k_digest_bytes_loop :: "felt list \<Rightarrow> nat \<Rightarrow> bytes \<Rightarrow> bytes" where
  "k_digest_bytes_loop dg index bs =
     (if index < DIGEST_ELEMS then
        k_digest_bytes_loop dg (Suc index)
          (copy_at (index * 4) (to_le_bytes (word_of_nat (dg ! index) :: u32)) bs)
      else bs)"
  by pat_completeness auto
termination
  by (relation "measure (\<lambda>(dg, index, bs). DIGEST_ELEMS - index)") auto

declare k_digest_bytes_loop.simps [simp del]

definition k_hash_felts :: "sponge \<Rightarrow> string \<Rightarrow> felt list list \<Rightarrow> bytes" where
  "k_hash_felts sp domain parts =
     (let domain_felts = k_bytes_to_felts (str_bytes domain);
          part_len = sum_list (map length parts);
          input_len = length domain_felts + part_len;
          input = felt (word_of_nat input_len) # domain_felts @ concat parts
      in k_digest_bytes_loop (sp input) 0 (replicate 32 0))"

definition hash_bind :: "sponge \<Rightarrow> bytes \<Rightarrow> ctx \<Rightarrow> bytes" where
  "hash_bind sp raw_nf ctx =
     k_hash_felts sp ''bind'' [k_digest_to_felts raw_nf, k_bytes_to_felts ctx]"

definition hash_batch :: "sponge \<Rightarrow> bytes list \<Rightarrow> ctx \<Rightarrow> bytes" where
  "hash_batch sp payloads ctx =
     k_hash_felts sp ''batch'' [k_bytes_to_felts (concat payloads), k_bytes_to_felts ctx]"

function truncate24_loop :: "bytes \<Rightarrow> nat \<Rightarrow> bytes \<Rightarrow> bytes" where
  "truncate24_loop dg i out =
     (if i < 24 then truncate24_loop dg (Suc i) (out[i := dg ! i]) else out)"
  by pat_completeness auto
termination
  by (relation "measure (\<lambda>(dg, i, out). 24 - i)") auto

declare truncate24_loop.simps [simp del]

definition truncate24 :: "bytes \<Rightarrow> truncated_digest" where
  "truncate24 dg = truncate24_loop dg 0 (replicate 24 0)"

text \<open>The kernel's \<open>binding\<close>: the truncated payload of a raw nullifier under a context.\<close>

definition k_binding :: "sponge \<Rightarrow> bytes \<Rightarrow> ctx \<Rightarrow> truncated_digest" where
  "k_binding sp raw ctx = truncate24 (hash_bind sp raw ctx)"

section \<open>Lemmas on the field encodings\<close>

lemma felt_less [simp]: "felt x < BABY_BEAR_P"
  by (simp add: felt_def BABY_BEAR_P_def)

lemma felt_small: "unat x < BABY_BEAR_P \<Longrightarrow> felt x = unat x"
  by (simp add: felt_def)

lemma felt_of_nat: "n < BABY_BEAR_P \<Longrightarrow> felt (word_of_nat n) = n"
  by (simp add: felt_def unat_of_nat BABY_BEAR_P_def)

lemma le_val_append: "le_val (xs @ ys) = le_val xs + 256 ^ length xs * le_val ys"
  by (induction xs) (auto simp: algebra_simps)

lemma le_val_replicate_0 [simp]: "le_val (replicate n 0) = 0"
  by (induction n) auto

lemma unat_from_le_bytes_u32:
  "length bs \<le> 4 \<Longrightarrow> unat (from_le_bytes bs :: u32) = le_val bs"
proof -
  assume "length bs \<le> 4"
  then have "(256::nat) ^ length bs \<le> 256 ^ 4"
    by (intro power_increasing) auto
  with le_val_bound [of bs] show ?thesis
    by (simp add: from_le_bytes_def unat_of_nat)
qed

lemma felt_chunk3:
  assumes "length c \<le> 3"
  shows "felt (from_le_bytes (copy_at 0 c (replicate 4 0))) = le_val c"
proof -
  have "le_val (copy_at 0 c (replicate 4 0)) = le_val c"
    by (simp add: copy_at_def le_val_append)
  moreover have "length (copy_at 0 c (replicate 4 (0::byte))) \<le> 4"
    using assms by (simp add: copy_at_def)
  moreover have "(256::nat) ^ length c \<le> 256 ^ 3"
    using assms by (intro power_increasing) auto
  then have "le_val c < BABY_BEAR_P"
    using le_val_bound [of c] by (simp add: BABY_BEAR_P_def)
  ultimately show ?thesis
    by (simp add: felt_small unat_from_le_bytes_u32)
qed

lemma bytes_to_felts_eq: "bytes_to_felts bs = map le_val (chunks 3 bs)"
  unfolding bytes_to_felts_def
  by (rule map_cong [OF refl]) (use chunks_length_bounds [of 3] in \<open>auto intro: felt_chunk3\<close>)

lemma length_bytes_to_felts [simp]:
  "length (bytes_to_felts bs) = (length bs + 2) div 3"
  by (simp add: bytes_to_felts_eq length_chunks)

lemma map_le_val_chunks_inj:
  "0 < n \<Longrightarrow> length xs = length ys \<Longrightarrow>
     map le_val (chunks n xs) = map le_val (chunks n ys) \<Longrightarrow> xs = ys"
proof (induction n xs arbitrary: ys rule: chunks.induct)
  case (1 n xs)
  show ?case
  proof (cases "xs = []")
    case False
    with 1 have ne: "ys \<noteq> []" by auto
    with 1 False have hd: "le_val (take n xs) = le_val (take n ys)"
      and tl: "map le_val (chunks n (drop n xs)) = map le_val (chunks n (drop n ys))"
      by (simp_all add: chunks_step)
    have "take n xs = take n ys"
      using hd \<open>length xs = length ys\<close> by (intro le_val_inj) simp_all
    moreover have "drop n xs = drop n ys"
      by (rule "1.IH") (use 1 False tl in auto)
    ultimately show ?thesis
      by (metis append_take_drop_id)
  qed (use 1 in simp)
qed

lemma bytes_to_felts_inj:
  "length xs = length ys \<Longrightarrow> bytes_to_felts xs = bytes_to_felts ys \<Longrightarrow> xs = ys"
  by (rule map_le_val_chunks_inj [of 3]) (simp_all add: bytes_to_felts_eq)

lemma u64_to_felts_eq:
  "u64_to_felts v = [unat v mod 2 ^ 24, unat v div 2 ^ 24 mod 2 ^ 24, unat v div 2 ^ 48]"
proof -
  have lim: "unat (ucast x :: u32) = unat x \<and> felt (ucast x) = unat x" if "unat x < 2 ^ 24" for x :: u64
    using that by (simp add: felt_small BABY_BEAR_P_def unsigned_ucast_eq take_bit_nat_eq_self)
  have mask: "unat (x AND 0xFFFFFF) = unat x mod 2 ^ 24" for x :: u64
  proof -
    have "x AND 0xFFFFFF = take_bit 24 x"
      by (simp add: take_bit_eq_mask mask_eq_exp_minus_1)
    moreover have "unat (take_bit 24 x) = unat x mod 2 ^ 24"
      by (simp only: unsigned_take_bit_eq) (simp add: take_bit_eq_mod)
    ultimately show ?thesis by simp
  qed
  have drop: "unat (drop_bit n x) = unat x div 2 ^ n" for n and x :: u64
    by (simp only: unat_drop_bit_eq) (simp only: drop_bit_eq_div)
  have "unat v < 2 ^ 64" by (rule unat_bounds)
  then have hi: "unat (drop_bit 48 v) < 2 ^ 24"
    by (simp add: drop less_mult_imp_div_less)
  show ?thesis
    unfolding u64_to_felts_def
    using lim [of "v AND 0xFFFFFF"] lim [of "drop_bit 24 v AND 0xFFFFFF"] lim [OF hi]
    by (simp add: mask drop)
qed

lemma three_limbs: "x = x mod m + m * (x div m mod m) + m * m * (x div (m * m))" for x m :: nat
proof -
  have "m * (x div m mod m) + m * (m * (x div m div m)) = m * (x div m)"
    by (metis add_mult_distrib2 mod_mult_div_eq)
  then show ?thesis
    by (simp add: div_mult2_eq mult.assoc add.assoc)
qed

lemma u64_to_felts_inj: "u64_to_felts v = u64_to_felts w \<Longrightarrow> v = w"
proof -
  assume eq: "u64_to_felts v = u64_to_felts w"
  from eq have "unat v = unat w"
    using three_limbs [of "unat v" "2 ^ 24"] three_limbs [of "unat w" "2 ^ 24"]
    by (simp add: u64_to_felts_eq)
  then show ?thesis by (simp add: word_unat_eq_iff)
qed

lemma length_u64_to_felts [simp]: "length (u64_to_felts v) = 3"
  by (simp add: u64_to_felts_def)

section \<open>Lemmas on digests\<close>

lemma unat_from_le_bytes_chunk4:
  "c \<in> set (chunks 4 d) \<Longrightarrow> unat (from_le_bytes c :: u32) = le_val c"
  by (rule unat_from_le_bytes_u32) (use chunks_length_bounds [of 4 c d] in simp)

lemma to_elems_eq: "to_elems d = map (\<lambda>c. le_val c mod BABY_BEAR_P) (chunks 4 d)"
  unfolding to_elems_def felt_def
  by (rule map_cong [OF refl]) (simp add: unat_from_le_bytes_chunk4)

lemma length_to_elems [simp]: "length d = 32 \<Longrightarrow> length (to_elems d) = 8"
  by (simp add: to_elems_def length_chunks)

lemma is_canonical_iff:
  "is_canonical d \<longleftrightarrow> (\<forall>c \<in> set (chunks 4 d). le_val c < BABY_BEAR_P)"
  by (auto simp: is_canonical_def list_all_iff unat_from_le_bytes_chunk4)

lemma to_elems_canonical:
  "is_canonical d \<Longrightarrow> to_elems d = map le_val (chunks 4 d)"
  by (simp add: to_elems_eq is_canonical_iff)

lemma to_elems_inj:
  assumes "length d = 32" "length e = 32" "is_canonical d" "is_canonical e"
    and "to_elems d = to_elems e"
  shows "d = e"
  using assms by (intro map_le_val_chunks_inj [of 4]) (simp_all add: to_elems_canonical)

lemma length_from_elems [simp]: "length (from_elems es) = 4 * length es"
  by (simp add: from_elems_def elems_to_canonical_u32s_def length_concat o_def sum_list_triv)

lemma chunks_from_elems:
  "chunks 4 (from_elems es) = map (\<lambda>x. to_le_bytes (word_of_nat x :: u32)) es"
proof (induction es)
  case (Cons x es)
  have "from_elems (x # es) = to_le_bytes (word_of_nat x :: u32) @ from_elems es"
    by (simp add: from_elems_def elems_to_canonical_u32s_def)
  then show ?case
    by (simp add: Cons chunks_append chunks_step [of 4 "to_le_bytes (word_of_nat x :: u32)"]
        flip: length_0_conv)
qed (simp add: from_elems_def elems_to_canonical_u32s_def)

lemma to_from_elems:
  "(\<And>x. x \<in> set es \<Longrightarrow> x < BABY_BEAR_P) \<Longrightarrow> to_elems (from_elems es) = es"
  by (simp add: to_elems_def chunks_from_elems o_def felt_of_nat map_idI)

lemma is_canonical_from_elems:
  "(\<And>x. x \<in> set es \<Longrightarrow> x < BABY_BEAR_P) \<Longrightarrow> is_canonical (from_elems es)"
proof -
  assume "\<And>x. x \<in> set es \<Longrightarrow> x < BABY_BEAR_P"
  then have "unat (word_of_nat x :: u32) < BABY_BEAR_P" if "x \<in> set es" for x
    using that by (fastforce simp: unat_of_nat BABY_BEAR_P_def)
  then show ?thesis
    by (simp add: is_canonical_def chunks_from_elems list_all_iff)
qed

lemma from_to_elems:
  assumes "length d = 32" "is_canonical d"
  shows "from_elems (to_elems d) = d"
proof (rule to_elems_inj)
  have bd: "x < BABY_BEAR_P" if "x \<in> set (to_elems d)" for x
    using that by (auto simp: to_elems_def)
  show "is_canonical (from_elems (to_elems d))"
    using bd by (rule is_canonical_from_elems)
  show "to_elems (from_elems (to_elems d)) = to_elems d"
    using bd by (rule to_from_elems)
qed (use assms in simp_all)

lemma length_to_anchor [simp]: "length d = 32 \<Longrightarrow> length (to_anchor d) = 24"
  by (simp add: to_anchor_def TRUNCATED_DIGEST_BYTES_def)

lemma length_hash_felts [simp]: "sponge_ok sp \<Longrightarrow> length (hash_felts sp domain parts) = 32"
  by (simp add: hash_felts_def sponge_ok_def DIGEST_ELEMS_def)

lemma is_canonical_hash_felts [simp]: "sponge_ok sp \<Longrightarrow> is_canonical (hash_felts sp domain parts)"
  by (auto simp: hash_felts_def sponge_ok_def intro!: is_canonical_from_elems)

lemma hash_felts_inject:
  assumes "sponge_ok sp" "hash_felts sp d ps = hash_felts sp d' ps'"
  shows "sp (hash_input d ps) = sp (hash_input d' ps')"
  using assms to_from_elems unfolding hash_felts_def sponge_ok_def by metis

section \<open>The kernel loops compute the core encodings\<close>

lemma k_bytes_to_felts_loop_eq:
  "k_bytes_to_felts_loop bs off res = res @ bytes_to_felts (drop off bs)"
proof (induction bs off res rule: k_bytes_to_felts_loop.induct)
  case (1 bs off res)
  show ?case
  proof (cases "off < length bs")
    case True
    have sl: "slice off (min (off + 3) (length bs)) bs = take 3 (drop off bs)"
      by (simp add: slice_def min_def)
    have dr: "drop (min (off + 3) (length bs)) bs = drop 3 (drop off bs)"
      by (simp add: min_def add.commute)
    from True have "drop off bs \<noteq> []" by simp
    with True show ?thesis
      by (subst k_bytes_to_felts_loop.simps)
        (simp add: Let_def 1 sl dr bytes_to_felts_def chunks_step [of 3 "drop off bs"])
  next
    case False
    then show ?thesis
      by (subst k_bytes_to_felts_loop.simps) (simp add: bytes_to_felts_def)
  qed
qed

lemma k_bytes_to_felts_eq: "k_bytes_to_felts = bytes_to_felts"
  by (simp add: fun_eq_iff k_bytes_to_felts_def k_bytes_to_felts_loop_eq)

lemma nth_chunks:
  "0 < n \<Longrightarrow> length xs = n * m \<Longrightarrow> i < m \<Longrightarrow> chunks n xs ! i = slice (i * n) (i * n + n) xs"
proof (induction i arbitrary: m xs)
  case 0
  then have "xs \<noteq> []" by auto
  with 0 show ?case by (simp add: chunks_step slice_def)
next
  case (Suc i)
  then obtain k where m: "m = Suc k" by (cases m) auto
  with Suc.prems have "chunks n xs ! Suc i = chunks n (drop n xs) ! i"
    by (subst chunks_step) auto
  also have "\<dots> = slice (i * n) (i * n + n) (drop n xs)"
    by (rule Suc.IH [of _ k]) (use Suc.prems m in auto)
  also have "\<dots> = slice (Suc i * n) (Suc i * n + n) xs"
    by (simp add: slice_def add.commute)
  finally show ?case .
qed

lemma k_digest_to_felts_loop_eq:
  "length res = 8 \<Longrightarrow> i \<le> 8 \<Longrightarrow> k_digest_to_felts_loop bs i res =
     take i res @ map (\<lambda>j. felt (from_le_bytes (slice (j * 4) (j * 4 + 4) bs))) [i..<8]"
proof (induction bs i res rule: k_digest_to_felts_loop.induct)
  case (1 bs i res)
  show ?case
  proof (cases "i < 8")
    case True
    with 1 show ?thesis
      by (subst k_digest_to_felts_loop.simps)
        (simp add: DIGEST_ELEMS_def take_Suc_conv_app_nth upt_conv_Cons)
  next
    case False
    with 1 show ?thesis
      by (subst k_digest_to_felts_loop.simps) (simp add: DIGEST_ELEMS_def)
  qed
qed

lemma k_digest_to_felts_eq: "length d = 32 \<Longrightarrow> k_digest_to_felts d = to_elems d"
  by (rule nth_equalityI)
    (simp_all add: k_digest_to_felts_def k_digest_to_felts_loop_eq DIGEST_ELEMS_def to_elems_def
      length_chunks nth_chunks [of 4 _ 8])

lemma k_digest_bytes_loop_eq:
  "length bs = 32 \<Longrightarrow> i \<le> 8 \<Longrightarrow> length dg = 8 \<Longrightarrow>
     k_digest_bytes_loop dg i bs = take (i * 4) bs @ from_elems (drop i dg)"
proof (induction dg i bs rule: k_digest_bytes_loop.induct)
  case (1 dg i bs)
  let ?w = "to_le_bytes (word_of_nat (dg ! i) :: u32)"
  show ?case
  proof (cases "i < 8")
    case True
    then have "take (Suc i * 4) (copy_at (i * 4) ?w bs) = take (i * 4) bs @ ?w"
      using 1 by (simp add: copy_at_def)
    moreover have "from_elems (drop i dg) = ?w @ from_elems (drop (Suc i) dg)"
      using True 1 by (simp add: from_elems_def elems_to_canonical_u32s_def flip: Cons_nth_drop_Suc)
    ultimately show ?thesis
      using True 1 by (subst k_digest_bytes_loop.simps) (simp add: DIGEST_ELEMS_def)
  next
    case False
    with 1 show ?thesis
      by (subst k_digest_bytes_loop.simps)
        (simp add: DIGEST_ELEMS_def from_elems_def elems_to_canonical_u32s_def)
  qed
qed

lemma k_hash_felts_eq: "sponge_ok sp \<Longrightarrow> k_hash_felts sp domain parts = hash_felts sp domain parts"
  by (simp add: k_hash_felts_def hash_felts_def hash_input_def Let_def k_bytes_to_felts_eq
      k_digest_bytes_loop_eq sponge_ok_def DIGEST_ELEMS_def)

lemma hash_bind_eq:
  "sponge_ok sp \<Longrightarrow> length raw = 32 \<Longrightarrow>
     hash_bind sp raw ctx = hash_felts sp ''bind'' [to_elems raw, bytes_to_felts ctx]"
  by (simp add: hash_bind_def k_hash_felts_eq k_digest_to_felts_eq k_bytes_to_felts_eq)

lemma hash_batch_eq:
  "sponge_ok sp \<Longrightarrow>
     hash_batch sp payloads ctx =
       hash_felts sp ''batch'' [bytes_to_felts (concat payloads), bytes_to_felts ctx]"
  by (simp add: hash_batch_def k_hash_felts_eq k_bytes_to_felts_eq)

lemma truncate24_loop_eq:
  "length out = 24 \<Longrightarrow> i \<le> 24 \<Longrightarrow> 24 \<le> length dg \<Longrightarrow>
     truncate24_loop dg i out = take i out @ slice i 24 dg"
proof (induction dg i out rule: truncate24_loop.induct)
  case (1 dg i out)
  show ?case
  proof (cases "i < 24")
    case True
    then have "drop i dg = dg ! i # drop (Suc i) dg" and "24 - i = Suc (24 - Suc i)"
      using 1 by (simp_all add: Cons_nth_drop_Suc)
    then have "slice i 24 dg = dg ! i # slice (Suc i) 24 dg"
      by (simp only: slice_def take_Suc_Cons)
    with True 1 show ?thesis
      by (subst truncate24_loop.simps) (simp add: take_Suc_conv_app_nth)
  next
    case False
    with 1 show ?thesis
      by (subst truncate24_loop.simps) (simp add: slice_def)
  qed
qed

lemma truncate24_eq: "24 \<le> length dg \<Longrightarrow> truncate24 dg = to_anchor dg"
  by (simp add: truncate24_def truncate24_loop_eq to_anchor_def TRUNCATED_DIGEST_BYTES_def slice_def)

lemma length_hash_bind [simp]: "sponge_ok sp \<Longrightarrow> length (hash_bind sp raw ctx) = 32"
  by (simp add: hash_bind_def k_hash_felts_eq)

lemma length_hash_batch [simp]: "sponge_ok sp \<Longrightarrow> length (hash_batch sp payloads ctx) = 32"
  by (simp add: hash_batch_def k_hash_felts_eq)

lemma length_k_binding [simp]: "sponge_ok sp \<Longrightarrow> length (k_binding sp raw ctx) = 24"
  by (simp add: k_binding_def truncate24_eq)

section \<open>Injectivity of the absorbed input\<close>

lemma hash_input_parts_inj:
  assumes "hash_input d ps = hash_input d qs" and "map length ps = map length qs"
  shows "ps = qs"
proof -
  have len: "length ps = length qs" by (metis assms(2) length_map)
  have eq: "length (ps ! i) = length (qs ! i)" if "i < length ps" for i
    using arg_cong [OF assms(2), of "\<lambda>l. l ! i"] that len by simp
  then have "\<forall>(x, y) \<in> set (zip ps qs). length x = length y"
    using len by (auto simp: set_zip)
  moreover have "concat ps = concat qs"
    using assms(1) by (simp add: hash_input_def Let_def)
  ultimately show ?thesis
    using len by (intro concat_injective) auto
qed

lemma length_hash_input:
  "length (hash_input d ps) = Suc ((length d + 2) div 3 + sum_list (map length ps))"
  by (simp add: hash_input_def Let_def length_concat str_bytes_def)

lemma hash_input_length_neq:
  assumes "(length d + 2) div 3 + sum_list (map length ps) \<noteq>
      (length e + 2) div 3 + sum_list (map length qs)"
  shows "hash_input d ps \<noteq> hash_input e qs"
  using assms by (metis length_hash_input nat.inject)

text \<open>Two domains of the same encoded length separate whatever follows.\<close>

lemma hash_input_domain_neq:
  assumes "(length d + 2) div 3 = (length e + 2) div 3"
    and "bytes_to_felts (str_bytes d) \<noteq> bytes_to_felts (str_bytes e)"
  shows "hash_input d ps \<noteq> hash_input e qs"
  using assms by (auto simp: hash_input_def Let_def str_bytes_def append_eq_append_length)

section \<open>Rejection sampling\<close>

lemma draw_canonical_limb_Some:
  "draw_canonical_limb rng = Some (c, rng') \<Longrightarrow> unat c < BABY_BEAR_P"
  by (induction rng rule: draw_canonical_limb.induct) (auto split: if_splits)

lemma draw_canonical_limbs_Some:
  "draw_canonical_limbs n rng = Some bs \<Longrightarrow>
     length bs = 4 * n \<and> is_canonical bs"
proof (induction n arbitrary: rng bs)
  case (Suc n)
  then obtain c rng' rest where c: "draw_canonical_limb rng = Some (c, rng')"
    and rest: "draw_canonical_limbs n rng' = Some rest" and bs: "bs = to_le_bytes c @ rest"
    by (auto split: option.splits)
  from c have "unat c < BABY_BEAR_P" by (rule draw_canonical_limb_Some)
  with Suc.IH [OF rest] show ?case
    by (simp add: bs is_canonical_def chunks_append chunks_step [of 4 "to_le_bytes c"]
        flip: length_0_conv)
qed (simp add: is_canonical_def)

lemma draw_canonical_limb_count:
  "filter (\<lambda>x. unat x < BABY_BEAR_P) rng = c # cs \<Longrightarrow>
     \<exists>rng'. draw_canonical_limb rng = Some (c, rng') \<and>
       filter (\<lambda>x. unat x < BABY_BEAR_P) rng' = cs"
  by (induction rng rule: draw_canonical_limb.induct) (auto split: if_splits)

lemma draw_canonical_limbs_total:
  "n \<le> length (filter (\<lambda>x. unat x < BABY_BEAR_P) rng) \<Longrightarrow> \<exists>bs. draw_canonical_limbs n rng = Some bs"
proof (induction n arbitrary: rng)
  case (Suc n)
  then obtain c cs where "filter (\<lambda>x. unat x < BABY_BEAR_P) rng = c # cs"
    by (metis Suc_le_length_iff)
  from draw_canonical_limb_count [OF this] Suc obtain rng' where
    "draw_canonical_limb rng = Some (c, rng')" "n \<le> length (filter (\<lambda>x. unat x < BABY_BEAR_P) rng')"
    using \<open>filter _ rng = c # cs\<close> by auto
  with Suc.IH show ?case by fastforce
qed simp

section \<open>Properties\<close>

text \<open>
  The kernel's own copy of the hash agrees with the core one: its index loops over
  bytes, limbs and the 24-byte truncation compute the core encodings, so payload bindings and batch
  commitments mean the same on both sides of the kernel boundary.
\<close>
theorem kernel_hash_agrees:
  assumes "sponge_ok sp" "length raw = 32"
  shows "hash_bind sp raw ctx = hash_felts sp ''bind'' [to_elems raw, bytes_to_felts ctx] \<and>
    hash_batch sp ps ctx = hash_felts sp ''batch'' [bytes_to_felts (concat ps), bytes_to_felts ctx] \<and>
    k_binding sp raw ctx = to_anchor (hash_felts sp ''bind'' [to_elems raw, bytes_to_felts ctx])"
  using assms hash_bind_eq [OF assms] hash_batch_eq [OF assms(1), of ps ctx] by (simp add: k_binding_def truncate24_eq)

theorem kernel_hash_agrees_witness:
  "hash_bind (\<lambda>_. replicate 8 1) (replicate 32 0) [] =
     hash_felts (\<lambda>_. replicate 8 1) ''bind'' [to_elems (replicate 32 0), bytes_to_felts []]"
  using kernel_hash_agrees [of "\<lambda>_. replicate 8 1" "replicate 32 0" "[]"]
  by (simp add: sponge_ok_def DIGEST_ELEMS_def BABY_BEAR_P_def)

text \<open>
  Digests have one encoding: the strict deserializer refuses every non-canonical
  twin, so two digests it returns with the same field elements are the same bytes; and rejection
  sampling returns a canonical 32-byte digest as soon as the generator has yielded eight candidates
  below the field prime.
\<close>
theorem digest_encoding_unique:
  assumes "length bs = 32" "length bs' = 32"
    and "digest_deserialize bs = Inr d" "digest_deserialize bs' = Inr d'" "to_elems d = to_elems d'"
    and "8 \<le> length (filter (\<lambda>x. unat x < BABY_BEAR_P) rng)"
  shows "d = d' \<and> (\<exists>r. random_canonical rng = Some r \<and> length r = 32 \<and> digest_deserialize r = Inr r)"
proof
  show "d = d'"
    using assms(1-5) by (intro to_elems_inj) (auto simp: digest_deserialize_def split: if_splits)
  obtain r where r: "draw_canonical_limbs 8 rng = Some r"
    using draw_canonical_limbs_total [OF assms(6)] by blast
  then show "\<exists>r. random_canonical rng = Some r \<and> length r = 32 \<and> digest_deserialize r = Inr r"
    using draw_canonical_limbs_Some [OF r] by (simp add: random_canonical_def DIGEST_ELEMS_def digest_deserialize_def)
qed

theorem digest_encoding_unique_witness:
  "\<exists>r. random_canonical (replicate 8 5) = Some r \<and> length r = 32 \<and> digest_deserialize r = Inr r"
proof -
  have "draw_canonical_limbs 8 (replicate 8 5) \<noteq> None"
    using draw_canonical_limbs_total [of 8 "replicate 8 5"] by (simp add: BABY_BEAR_P_def)
  then obtain bs where bs: "draw_canonical_limbs 8 (replicate 8 5) = Some bs" by blast
  from draw_canonical_limbs_Some [OF bs] have "length bs = 32" "digest_deserialize bs = Inr bs"
    by (simp_all add: digest_deserialize_def)
  from digest_encoding_unique [OF this(1) this(1) this(2) this(2) refl, of "replicate 8 5"]
  show ?thesis by (simp add: BABY_BEAR_P_def)
qed

end
