(* ===== verification/Kernel.thy ===== *)
theory Kernel
  imports Field_Hash
begin

text \<open>
  The pure decision kernel, \<open>crates/opencsv-kernel/src\<close>: anchor records and their occurrence
  test (\<open>record.rs\<close>), the first-occurrence scan (\<open>scan.rs\<close>), the batch occurrence test
  (\<open>batch.rs\<close>), the public supply audit (\<open>audit.rs\<close>) and the accept decision
  (\<open>accept.rs\<close>). Constructors carry the prefix \<open>K\<close> where \<open>opencsv-core\<close> has a type with
  the same constructor names. A byte array is a byte list; the \<open>i128\<close> total of the audit is an
  integer, and \<open>supply_total_range\<close> shows that it stays far inside the machine range.
\<close>

section \<open>Types\<close>

type_synonym raw_nf = bytes
type_synonym payload = bytes
type_synonym asset_id24 = bytes
type_synonym mint_commit24 = bytes

record location =
  height :: u64
  position :: u32

datatype k_record =
    KMint asset_id24 u64 mint_commit24
  | KXfer payload payload
  | KXferCompressed payload
  | KBatchHeader u8 payload
  | KRedeem asset_id24 u64 payload

record entry =
  e_record :: k_record
  e_ctx :: ctx
  e_location :: location

section \<open>Occurrence tests\<close>

definition k_well_formed :: "sponge \<Rightarrow> k_record \<Rightarrow> ctx \<Rightarrow> raw_nf \<Rightarrow> bool" where
  "k_well_formed sp r ctx raw_nf =
     (let bound = k_binding sp raw_nf ctx in
      case r of
        KMint _ _ _ \<Rightarrow> False
      | KBatchHeader _ _ \<Rightarrow> False
      | KXfer p0 p1 \<Rightarrow> p0 = bound \<or> p1 = bound
      | KXferCompressed p \<Rightarrow> p = bound
      | KRedeem _ _ p \<Rightarrow> p = bound)"

function first_occurrence_loop :: "sponge \<Rightarrow> entry list \<Rightarrow> raw_nf \<Rightarrow> nat \<Rightarrow> nat option" where
  "first_occurrence_loop sp entries raw_nf i =
     (if i < length entries then
        (let entry = entries ! i in
         if k_well_formed sp (e_record entry) (e_ctx entry) raw_nf then Some i
         else first_occurrence_loop sp entries raw_nf (Suc i))
      else None)"
  by pat_completeness auto
termination
  by (relation "measure (\<lambda>(sp, entries, raw_nf, i). length entries - i)") auto

declare first_occurrence_loop.simps [simp del]

definition first_occurrence :: "sponge \<Rightarrow> entry list \<Rightarrow> raw_nf \<Rightarrow> nat option" where
  "first_occurrence sp entries raw_nf = first_occurrence_loop sp entries raw_nf 0"

function batch_scan_loop :: "payload list \<Rightarrow> payload \<Rightarrow> nat \<Rightarrow> u32 option" where
  "batch_scan_loop envelope bound i =
     (if i < length envelope then
        (if envelope ! i = bound then Some (word_of_nat i)
         else batch_scan_loop envelope bound (Suc i))
      else None)"
  by pat_completeness auto
termination
  by (relation "measure (\<lambda>(envelope, bound, i). length envelope - i)") auto

declare batch_scan_loop.simps [simp del]

definition batch_occurrence ::
  "sponge \<Rightarrow> u8 \<Rightarrow> payload \<Rightarrow> payload list \<Rightarrow> ctx \<Rightarrow> raw_nf \<Rightarrow> u32 option" where
  "batch_occurrence sp count batch_commit envelope ctx raw_nf =
     (if length envelope \<noteq> unat count then None
      else
        (let committed = truncate24 (hash_batch sp envelope ctx) in
         if committed \<noteq> batch_commit then None
         else batch_scan_loop envelope (k_binding sp raw_nf ctx) 0))"

section \<open>Supply audit\<close>

datatype supply_error = NegativeSupply

function seen_contains_loop :: "mint_commit24 list \<Rightarrow> mint_commit24 \<Rightarrow> nat \<Rightarrow> bool" where
  "seen_contains_loop seen commit i =
     (if i < length seen then
        (if seen ! i = commit then True else seen_contains_loop seen commit (Suc i))
      else False)"
  by pat_completeness auto
termination
  by (relation "measure (\<lambda>(seen, commit, i). length seen - i)") auto

declare seen_contains_loop.simps [simp del]

definition seen_contains :: "mint_commit24 list \<Rightarrow> mint_commit24 \<Rightarrow> bool" where
  "seen_contains seen commit = seen_contains_loop seen commit 0"

text \<open>One iteration of the audit loop on the pair \<open>(seen_mints, total)\<close>.\<close>

definition supply_step ::
  "asset_id24 \<Rightarrow> u64 \<Rightarrow> location \<times> k_record \<Rightarrow> mint_commit24 list \<times> int \<Rightarrow> mint_commit24 list \<times> int"
where
  "supply_step asset_id h a st =
     (case (a, st) of ((loc, r), (seen_mints, tot)) \<Rightarrow>
       if height loc \<le> h then
         (case r of
            KMint record_asset value mint_commit \<Rightarrow>
              if record_asset = asset_id \<and> \<not> seen_contains seen_mints mint_commit
              then (seen_mints @ [mint_commit], tot + uint value)
              else (seen_mints, tot)
          | KRedeem record_asset value _ \<Rightarrow>
              if record_asset = asset_id then (seen_mints, tot - uint value)
              else (seen_mints, tot)
          | _ \<Rightarrow> (seen_mints, tot))
       else (seen_mints, tot))"

fun supply_loop ::
  "asset_id24 \<Rightarrow> u64 \<Rightarrow> (location \<times> k_record) list \<Rightarrow> mint_commit24 list \<times> int \<Rightarrow> mint_commit24 list \<times> int"
where
  "supply_loop asset_id h [] st = st"
| "supply_loop asset_id h (a # as) st = supply_loop asset_id h as (supply_step asset_id h a st)"

definition k_supply :: "(location \<times> k_record) list \<Rightarrow> asset_id24 \<Rightarrow> u64 \<Rightarrow> supply_error + u64" where
  "k_supply anchors asset_id h =
     (let tot = snd (supply_loop asset_id h anchors ([], 0)) in
      if tot < 0 \<or> tot > 2 ^ 64 - 1 then Inl NegativeSupply
      else Inr (word_of_int tot))"

section \<open>The accept decision\<close>

datatype asset_observation = AssetValid | AssetGenesisMismatch | AssetUnknown

record occurrence_observation =
  oo_nullifier :: payload
  oo_first :: "location option"

datatype anchor_observation =
    AnchorMissing
  | AnchorPresent location u64 bool "occurrence_observation list"

record accept_input =
  has_openings :: bool
  asset :: asset_observation
  anchor :: anchor_observation
  has_distinct_nullifiers :: bool
  proof_valid :: bool
  required_confirmations :: u64
  has_owned_output :: bool

datatype k_reject_reason =
    KEmptyConsignment
  | KGenesisMismatch
  | KUnknownAsset
  | KAnchorNotFound
  | KDuplicateNullifier
  | KInsufficientConfirmations u64 u64
  | KNullifierConflict payload location
  | KIllFormedAnchor
  | KInvalidProof
  | KNoOwnedOutput

fun reject_code :: "k_reject_reason \<Rightarrow> string" where
  "reject_code KEmptyConsignment = ''empty_consignment''"
| "reject_code KGenesisMismatch = ''genesis_mismatch''"
| "reject_code KUnknownAsset = ''unknown_asset''"
| "reject_code KAnchorNotFound = ''anchor_not_found''"
| "reject_code KDuplicateNullifier = ''duplicate_nullifier''"
| "reject_code (KInsufficientConfirmations _ _) = ''insufficient_confirmations''"
| "reject_code (KNullifierConflict _ _) = ''nullifier_conflict''"
| "reject_code KIllFormedAnchor = ''ill_formed_anchor''"
| "reject_code KInvalidProof = ''invalid_proof''"
| "reject_code KNoOwnedOutput = ''no_owned_output''"

datatype accept_decision = Accept location | Reject k_reject_reason

definition preflight_rejection :: "bool \<Rightarrow> asset_observation \<Rightarrow> k_reject_reason option" where
  "preflight_rejection openings a =
     (if \<not> openings then Some KEmptyConsignment
      else case a of AssetValid \<Rightarrow> None
           | AssetGenesisMismatch \<Rightarrow> Some KGenesisMismatch
           | AssetUnknown \<Rightarrow> Some KUnknownAsset)"

definition anchor_rejection :: "bool \<Rightarrow> k_reject_reason option" where
  "anchor_rejection present = (if present then None else Some KAnchorNotFound)"

definition structure_rejection :: "bool \<Rightarrow> k_reject_reason option" where
  "structure_rejection distinct_nfs = (if distinct_nfs then None else Some KDuplicateNullifier)"

definition proof_rejection :: "bool \<Rightarrow> k_reject_reason option" where
  "proof_rejection valid = (if valid then None else Some KInvalidProof)"

definition chain_prefix_rejection :: "u64 \<Rightarrow> u64 \<Rightarrow> bool \<Rightarrow> k_reject_reason option" where
  "chain_prefix_rejection confirmations required binds =
     (if confirmations < required then Some (KInsufficientConfirmations confirmations required)
      else if binds then None else Some KIllFormedAnchor)"

function occurrence_rejection_loop ::
  "location \<Rightarrow> occurrence_observation list \<Rightarrow> nat \<Rightarrow> k_reject_reason option" where
  "occurrence_rejection_loop anch occs index =
     (if index < length occs then
        (case oo_first (occs ! index) of
           None \<Rightarrow> Some KAnchorNotFound
         | Some first \<Rightarrow>
             if first \<noteq> anch then Some (KNullifierConflict (oo_nullifier (occs ! index)) first)
             else occurrence_rejection_loop anch occs (Suc index))
      else None)"
  by pat_completeness auto
termination
  by (relation "measure (\<lambda>(anch, occs, index). length occs - index)") auto

declare occurrence_rejection_loop.simps [simp del]

definition occurrence_rejection ::
  "location \<Rightarrow> occurrence_observation list \<Rightarrow> k_reject_reason option" where
  "occurrence_rejection anch occs = occurrence_rejection_loop anch occs 0"

definition decide :: "accept_input \<Rightarrow> accept_decision" where
  "decide inp =
     (case preflight_rejection (has_openings inp) (asset inp) of
        Some reason \<Rightarrow> Reject reason
      | None \<Rightarrow>
     (case anchor inp of
        AnchorMissing \<Rightarrow> Reject KAnchorNotFound
      | AnchorPresent loc confirmations binds_nullifiers occurrences \<Rightarrow>
     (case structure_rejection (has_distinct_nullifiers inp) of
        Some reason \<Rightarrow> Reject reason
      | None \<Rightarrow>
     (case proof_rejection (proof_valid inp) of
        Some reason \<Rightarrow> Reject reason
      | None \<Rightarrow>
     (case chain_prefix_rejection confirmations (required_confirmations inp) binds_nullifiers of
        Some reason \<Rightarrow> Reject reason
      | None \<Rightarrow>
     (case occurrence_rejection loc occurrences of
        Some reason \<Rightarrow> Reject reason
      | None \<Rightarrow>
        if \<not> has_owned_output inp then Reject KNoOwnedOutput
        else Accept loc))))))"

section \<open>Abstract specifications\<close>

text \<open>
  What the audit promises (paper 4.9): the values of the first MINT record of every distinct
  mint commitment of the asset, less the values of the REDEEM records, at or below the height.
\<close>

fun mints_of :: "asset_id24 \<Rightarrow> u64 \<Rightarrow> (location \<times> k_record) list \<Rightarrow> (mint_commit24 \<times> u64) list" where
  "mints_of aid h [] = []"
| "mints_of aid h ((l, KMint a v c) # as) =
     (if height l \<le> h \<and> a = aid then (c, v) # mints_of aid h as else mints_of aid h as)"
| "mints_of aid h (_ # as) = mints_of aid h as"

fun redeems_of :: "asset_id24 \<Rightarrow> u64 \<Rightarrow> (location \<times> k_record) list \<Rightarrow> u64 list" where
  "redeems_of aid h [] = []"
| "redeems_of aid h ((l, KRedeem a v p) # as) =
     (if height l \<le> h \<and> a = aid then v # redeems_of aid h as else redeems_of aid h as)"
| "redeems_of aid h (_ # as) = redeems_of aid h as"

definition minted_value :: "(mint_commit24 \<times> u64) list \<Rightarrow> int" where
  "minted_value ms = (\<Sum>c \<in> fst ` set ms. uint (the (map_of ms c)))"

definition circulating :: "asset_id24 \<Rightarrow> u64 \<Rightarrow> (location \<times> k_record) list \<Rightarrow> int" where
  "circulating aid h as =
     minted_value (mints_of aid h as) - sum_list (map uint (redeems_of aid h as))"

section \<open>Lemmas: occurrence tests\<close>

lemma k_well_formed_simps [simp]:
  "k_well_formed sp (KMint a v c) ctx nf = False"
  "k_well_formed sp (KBatchHeader n c) ctx nf = False"
  "k_well_formed sp (KXfer p q) ctx nf = (k_binding sp nf ctx = p \<or> k_binding sp nf ctx = q)"
  "k_well_formed sp (KXferCompressed p) ctx nf = (k_binding sp nf ctx = p)"
  "k_well_formed sp (KRedeem a v p) ctx nf = (k_binding sp nf ctx = p)"
  by (auto simp: k_well_formed_def Let_def)

lemma first_occurrence_loop_eq:
  "first_occurrence_loop sp es nf i =
     map_option (\<lambda>k. k + i) (iter_position (\<lambda>e. k_well_formed sp (e_record e) (e_ctx e) nf) (drop i es))"
proof (induction sp es nf i rule: first_occurrence_loop.induct)
  case (1 sp es nf i)
  show ?case
  proof (cases "i < length es")
    case True
    then have "drop i es = es ! i # drop (Suc i) es" by (simp add: Cons_nth_drop_Suc)
    with True 1 show ?thesis
      by (subst first_occurrence_loop.simps) (simp add: Let_def option.map_comp o_def)
  qed (subst first_occurrence_loop.simps, simp)
qed

lemma first_occurrence_eq:
  "first_occurrence sp es nf = iter_position (\<lambda>e. k_well_formed sp (e_record e) (e_ctx e) nf) es"
  by (simp add: first_occurrence_def first_occurrence_loop_eq option.map_ident)

lemma batch_scan_loop_eq:
  "batch_scan_loop env b i = map_option (\<lambda>k. word_of_nat (k + i)) (iter_position (\<lambda>p. p = b) (drop i env))"
proof (induction env b i rule: batch_scan_loop.induct)
  case (1 env b i)
  show ?case
  proof (cases "i < length env")
    case True
    then have "drop i env = env ! i # drop (Suc i) env" by (simp add: Cons_nth_drop_Suc)
    with True 1 show ?thesis
      by (subst batch_scan_loop.simps) (simp add: option.map_comp o_def add.assoc)
  qed (subst batch_scan_loop.simps, simp)
qed

lemma batch_occurrence_eq:
  "batch_occurrence sp count commit env ctx nf =
     (if length env = unat count \<and> truncate24 (hash_batch sp env ctx) = commit
      then map_option word_of_nat (iter_position (\<lambda>p. p = k_binding sp nf ctx) env)
      else None)"
  by (simp add: batch_occurrence_def Let_def batch_scan_loop_eq)

section \<open>Lemmas: the audit\<close>

lemma seen_contains_loop_eq: "seen_contains_loop seen c i \<longleftrightarrow> c \<in> set (drop i seen)"
proof (induction seen c i rule: seen_contains_loop.induct)
  case (1 seen c i)
  show ?case
  proof (cases "i < length seen")
    case True
    then have "drop i seen = seen ! i # drop (Suc i) seen" by (simp add: Cons_nth_drop_Suc)
    with True 1 show ?thesis by (subst seen_contains_loop.simps) auto
  qed (subst seen_contains_loop.simps, simp)
qed

lemma seen_contains_iff [simp]: "seen_contains seen c \<longleftrightarrow> c \<in> set seen"
  by (simp add: seen_contains_def seen_contains_loop_eq)

definition fresh_minted :: "mint_commit24 list \<Rightarrow> (mint_commit24 \<times> u64) list \<Rightarrow> int" where
  "fresh_minted seen ms = (\<Sum>c \<in> fst ` set ms - set seen. uint (the (map_of ms c)))"

lemma fresh_minted_Nil [simp]: "fresh_minted seen [] = 0"
  by (simp add: fresh_minted_def)

lemma fresh_minted_Cons:
  "fresh_minted seen ((c, v) # ms) =
     (if c \<in> set seen then fresh_minted seen ms
      else uint v + fresh_minted (seen @ [c]) ms)"
proof (cases "c \<in> set seen")
  case True
  have "insert c (fst ` set ms) - set seen = fst ` set ms - set seen"
    using True by auto
  moreover have "uint (the (map_of ((c, v) # ms) x)) = uint (the (map_of ms x))"
    if "x \<in> fst ` set ms - set seen" for x
    using that True by auto
  ultimately have "fresh_minted seen ((c, v) # ms) = fresh_minted seen ms"
    unfolding fresh_minted_def by (intro sum.cong) auto
  with True show ?thesis by simp
next
  case False
  have "fst ` set ((c, v) # ms) - set seen = insert c (fst ` set ms - set (seen @ [c]))"
    using False by auto
  then have "fresh_minted seen ((c, v) # ms) =
      (\<Sum>x \<in> insert c (fst ` set ms - set (seen @ [c])). uint (the (map_of ((c, v) # ms) x)))"
    by (simp add: fresh_minted_def)
  also have "\<dots> = uint v +
      (\<Sum>x \<in> fst ` set ms - set (seen @ [c]). uint (the (map_of ((c, v) # ms) x)))"
    by (subst sum.insert) auto
  also have "(\<Sum>x \<in> fst ` set ms - set (seen @ [c]). uint (the (map_of ((c, v) # ms) x))) =
      fresh_minted (seen @ [c]) ms"
    unfolding fresh_minted_def by (rule sum.cong) auto
  finally show ?thesis using False by simp
qed

lemma supply_loop_eq:
  "snd (supply_loop aid h as (seen, t)) =
     t + fresh_minted seen (mints_of aid h as) - sum_list (map uint (redeems_of aid h as))"
proof (induction as arbitrary: seen t)
  case (Cons a as)
  obtain l r where a: "a = (l, r)" by force
  show ?case
    by (cases r) (auto simp: a supply_step_def Cons fresh_minted_Cons)
qed simp

lemma supply_loop_circulating:
  "snd (supply_loop aid h as ([], 0)) = circulating aid h as"
  by (simp add: supply_loop_eq circulating_def minted_value_def fresh_minted_def)

lemma circulating_append_copy:
  assumes "(c, v) \<in> set (mints_of aid h as)"
  shows "minted_value (mints_of aid h as @ [(c, w)]) = minted_value (mints_of aid h as)"
proof -
  let ?ms = "mints_of aid h as"
  have "fst ` set (?ms @ [(c, w)]) = fst ` set ?ms"
    using assms by force
  moreover have "map_of (?ms @ [(c, w)]) x = map_of ?ms x" if "x \<in> fst ` set ?ms" for x
    using that by (auto simp: map_add_def map_of_eq_None_iff split: option.splits)
  ultimately show ?thesis
    unfolding minted_value_def by (auto intro: sum.cong)
qed

lemma mints_of_append [simp]: "mints_of aid h (as @ bs) = mints_of aid h as @ mints_of aid h bs"
  by (induction aid h as rule: mints_of.induct) auto

lemma redeems_of_append [simp]:
  "redeems_of aid h (as @ bs) = redeems_of aid h as @ redeems_of aid h bs"
  by (induction aid h as rule: redeems_of.induct) auto

section \<open>Lemmas: the accept decision\<close>

lemma occurrence_rejection_loop_None:
  "occurrence_rejection_loop anch occs i = None \<longleftrightarrow> (\<forall>oc \<in> set (drop i occs). oo_first oc = Some anch)"
proof (induction anch occs i rule: occurrence_rejection_loop.induct)
  case (1 anch occs i)
  show ?case
  proof (cases "i < length occs")
    case True
    then have "drop i occs = occs ! i # drop (Suc i) occs" by (simp add: Cons_nth_drop_Suc)
    with True 1 show ?thesis
      by (subst occurrence_rejection_loop.simps) (auto split: option.splits)
  qed (subst occurrence_rejection_loop.simps, simp)
qed

lemma occurrence_rejection_None:
  "occurrence_rejection anch occs = None \<longleftrightarrow> (\<forall>oc \<in> set occs. oo_first oc = Some anch)"
  by (simp add: occurrence_rejection_def occurrence_rejection_loop_None)

lemma occurrence_rejection_singleton:
  "occurrence_rejection anch [oc] =
     (case oo_first oc of None \<Rightarrow> Some KAnchorNotFound
      | Some first \<Rightarrow> if first \<noteq> anch then Some (KNullifierConflict (oo_nullifier oc) first) else None)"
  by (simp add: occurrence_rejection_def occurrence_rejection_loop.simps split: option.splits)

lemma occurrence_rejection_Cons:
  "occurrence_rejection anch (oc # occs) =
     (case occurrence_rejection anch [oc] of Some r \<Rightarrow> Some r | None \<Rightarrow> occurrence_rejection anch occs)"
proof -
  have shift: "occurrence_rejection_loop anch (oc # xs) (Suc i) = occurrence_rejection_loop anch xs i"
    for xs i
  proof (induction anch xs i rule: occurrence_rejection_loop.induct)
    case (1 anch xs i)
    then show ?case
      by (subst (1 2) occurrence_rejection_loop.simps) (auto split: option.splits)
  qed
  have "occurrence_rejection_loop anch (oc # occs) 0 =
      (case oo_first oc of None \<Rightarrow> Some KAnchorNotFound
       | Some first \<Rightarrow> if first \<noteq> anch then Some (KNullifierConflict (oo_nullifier oc) first)
                       else occurrence_rejection_loop anch occs 0)"
    by (subst occurrence_rejection_loop.simps) (simp add: shift split: option.split)
  then show ?thesis
    unfolding occurrence_rejection_singleton
    by (simp add: occurrence_rejection_def split: option.splits)
qed

lemma preflight_rejection_None [simp]:
  "preflight_rejection b a = None \<longleftrightarrow> b \<and> a = AssetValid"
  by (cases a) (simp_all add: preflight_rejection_def)

lemma structure_rejection_None [simp]: "structure_rejection b = None \<longleftrightarrow> b"
  by (simp add: structure_rejection_def)

lemma proof_rejection_None [simp]: "proof_rejection b = None \<longleftrightarrow> b"
  by (simp add: proof_rejection_def)

lemma chain_prefix_rejection_None [simp]:
  "chain_prefix_rejection have req b = None \<longleftrightarrow> req \<le> have \<and> b"
  by (auto simp: chain_prefix_rejection_def not_less)

lemma case_reject_Accept:
  "(case m of Some r \<Rightarrow> Reject r | None \<Rightarrow> k) = Accept l \<longleftrightarrow> m = None \<and> k = Accept l"
  by (cases m) auto

lemma fresh_minted_bound: "0 \<le> fresh_minted seen ms \<and> fresh_minted seen ms \<le> int (length ms) * (2 ^ 64 - 1)"
proof (induction ms arbitrary: seen)
  case (Cons m ms)
  obtain c v where m: "m = (c, v)" by force
  have "uint v < 2 ^ 64" by (rule uint_u64_bound)
  with Cons [of seen] Cons [of "seen @ [c]"] show ?case
    by (auto simp: m fresh_minted_Cons algebra_simps)
qed simp

lemma redeemed_bound:
  "0 \<le> sum_list (map uint vs) \<and> sum_list (map uint vs) \<le> int (length vs) * (2 ^ 64 - 1)"
  for vs :: "u64 list"
proof (induction vs)
  case (Cons v vs)
  have "uint v < 2 ^ 64" by (rule uint_u64_bound)
  with Cons show ?case by (auto simp: algebra_simps)
qed simp

lemma length_mints_redeems: "length (mints_of aid h as) + length (redeems_of aid h as) \<le> length as"
proof (induction as)
  case (Cons a as)
  obtain l r where a: "a = (l, r)" by force
  from Cons show ?case by (cases r) (auto simp: a)
qed simp

lemma length_mints: "length (mints_of aid h as) \<le> length as"
  and length_redeems: "length (redeems_of aid h as) \<le> length as"
  using length_mints_redeems [of aid h as] by simp_all

lemma k_supply_cases:
  "(k_supply as aid h = Inr v \<longleftrightarrow> uint v = circulating aid h as) \<and>
   (k_supply as aid h = Inl NegativeSupply \<longleftrightarrow>
      circulating aid h as < 0 \<or> 2 ^ 64 \<le> circulating aid h as)"
proof -
  let ?t = "circulating aid h as"
  have eq: "k_supply as aid h =
      (if ?t < 0 \<or> 2 ^ 64 - 1 < ?t then Inl NegativeSupply else Inr (word_of_int ?t))"
    by (simp add: k_supply_def Let_def supply_loop_circulating)
  have v: "0 \<le> uint v \<and> uint v < 2 ^ 64" by (simp add: uint_u64_bound [simplified])
  show ?thesis
  proof (cases "?t < 0 \<or> 2 ^ 64 - 1 < ?t")
    case True
    with v have "uint v \<noteq> ?t" by linarith
    with True eq show ?thesis by auto
  next
    case False
    then have "uint (word_of_int ?t :: u64) = ?t"
      by (simp add: uint_word_of_int)
    with False eq show ?thesis
      by (auto simp: word_uint_eq_iff)
  qed
qed

lemma k_supply_Inr: "k_supply as aid h = Inr v \<longleftrightarrow> uint v = circulating aid h as"
  using k_supply_cases by blast

lemma decide_Accept:
  "decide inp = Accept l \<longleftrightarrow>
     has_openings inp \<and> asset inp = AssetValid \<and> has_distinct_nullifiers inp \<and> proof_valid inp \<and>
     has_owned_output inp \<and>
     (\<exists>confs occs. anchor inp = AnchorPresent l confs True occs \<and>
        required_confirmations inp \<le> confs \<and> list_all (\<lambda>oc. oo_first oc = Some l) occs)"
  by (cases "anchor inp")
    (auto simp: decide_def case_reject_Accept occurrence_rejection_None list_all_iff)

section \<open>Properties\<close>

text \<open>
  Claim C4. The accept decision accepts exactly when every check passes: there are openings,
  the asset is valid, the anchor is present and buried under the required confirmations, the
  nullifiers are distinct, the proof verified, the record binds exactly the nullifiers, every
  nullifier's first occurrence is the referenced anchor, and some output is owned. The accepted
  location is the anchor's.
\<close>

theorem decide_accept_iff:
  "decide inp = Accept l \<longleftrightarrow>
     has_openings inp \<and> asset inp = AssetValid \<and> has_distinct_nullifiers inp \<and> proof_valid inp \<and>
     has_owned_output inp \<and>
     (\<exists>confs occs. anchor inp = AnchorPresent l confs True occs \<and>
        required_confirmations inp \<le> confs \<and> list_all (\<lambda>oc. oo_first oc = Some l) occs)"
  by (rule decide_Accept)

text \<open>
  Claim C5. The public supply audit computes the circulating amount of the paper: the value of
  the first MINT record of every distinct mint commitment of the asset less every REDEEM value,
  at or below the height. It returns a value exactly when that amount fits in 64 bits, and the
  value returned is that amount.
\<close>

theorem supply_refines_circulating:
  "(k_supply as aid h = Inr v \<longleftrightarrow> uint v = circulating aid h as) \<and>
   (k_supply as aid h = Inl NegativeSupply \<longleftrightarrow>
      circulating aid h as < 0 \<or> 2 ^ 64 \<le> circulating aid h as)"
  by (rule k_supply_cases)

text \<open>
  A byte-copied MINT anchor cannot inflate the audited supply: appending another MINT
  record whose commitment was already minted for the asset at or below the height leaves the
  result of the audit unchanged, whatever value and location the copy claims.
\<close>

theorem supply_ignores_mint_copies:
  assumes "(l, KMint aid v c) \<in> set as" and "height l \<le> h"
  shows "k_supply (as @ [(l', KMint aid w c)]) aid h = k_supply as aid h"
proof -
  have "(c, v) \<in> set (mints_of aid h as)"
    using assms
  proof (induction as)
    case (Cons a as)
    obtain l0 r where "a = (l0, r)" by force
    with Cons show ?case by (cases r) auto
  qed simp
  then have "circulating aid h (as @ [(l', KMint aid w c)]) = circulating aid h as"
    by (simp add: circulating_def circulating_append_copy)
  then show ?thesis
    by (simp add: k_supply_def supply_loop_circulating)
qed

theorem supply_ignores_mint_copies_witness:
  "k_supply ([(\<lparr>height = 5, position = 0\<rparr>, KMint [7] 100 [9])]
       @ [(\<lparr>height = 6, position = 3\<rparr>, KMint [7] 100 [9])]) [7] 10 =
     k_supply [(\<lparr>height = 5, position = 0\<rparr>, KMint [7] 100 [9])] [7] 10 \<and>
   k_supply [(\<lparr>height = 5, position = 0\<rparr>, KMint [7] 100 [9])] [7] 10 = Inr 100"
proof
  show "k_supply ([(\<lparr>height = 5, position = 0\<rparr>, KMint [7] 100 [9])]
       @ [(\<lparr>height = 6, position = 3\<rparr>, KMint [7] 100 [9])]) [7] 10 =
     k_supply [(\<lparr>height = 5, position = 0\<rparr>, KMint [7] 100 [9])] [7] 10"
    by (rule supply_ignores_mint_copies [of "\<lparr>height = 5, position = 0\<rparr>" _ 100]) simp_all
qed code_simp

text \<open>
  The running total of the audit never leaves the range of the 128-bit integer that
  holds it: after any prefix of an anchor list shorter than \<open>2^63\<close> entries it lies strictly
  between \<open>-2^127\<close> and \<open>2^127\<close>.
\<close>

theorem supply_total_range:
  assumes "length as < 2 ^ 63"
  shows "\<bar>snd (supply_loop aid h (take n as) ([], 0))\<bar> < 2 ^ 127"
proof -
  let ?p = "take n as"
  have bound: "int k * (2 ^ 64 - 1) < 2 ^ 127" if "k \<le> length ?p" for k
  proof -
    from that assms have "int k < 2 ^ 63" by auto
    then have "int k * (2 ^ 64 - 1) \<le> (2 ^ 63 - 1) * (2 ^ 64 - 1)"
      by (intro mult_right_mono) auto
    also have "\<dots> < 2 ^ 127" by simp
    finally show ?thesis .
  qed
  have "0 \<le> minted_value (mints_of aid h ?p)" "minted_value (mints_of aid h ?p) < 2 ^ 127"
    using fresh_minted_bound [of "[]" "mints_of aid h ?p"] bound [OF length_mints [of aid h]]
    by (auto simp: minted_value_def fresh_minted_def)
  moreover have "0 \<le> sum_list (map uint (redeems_of aid h ?p))"
    "sum_list (map uint (redeems_of aid h ?p)) < 2 ^ 127"
    using redeemed_bound [of "redeems_of aid h ?p"] bound [OF length_redeems [of aid h]] by auto
  ultimately show ?thesis
    by (simp add: supply_loop_circulating circulating_def)
qed

theorem supply_total_range_witness:
  "\<bar>snd (supply_loop [7] 10 (take 1 [(\<lparr>height = 5, position = 0\<rparr>, KMint [7] 100 [9])]) ([], 0))\<bar>
     < 2 ^ 127"
  by (rule supply_total_range) simp

text \<open>
  The first-occurrence scan returns the least index whose record binds the raw
  nullifier under the entry's own context, and nothing exactly when no entry does.
\<close>

theorem first_occurrence_least:
  "(first_occurrence sp es nf = Some i \<longleftrightarrow>
      i < length es \<and> k_well_formed sp (e_record (es ! i)) (e_ctx (es ! i)) nf \<and>
      list_all (\<lambda>e. \<not> k_well_formed sp (e_record e) (e_ctx e) nf) (take i es)) \<and>
   (first_occurrence sp es nf = None \<longleftrightarrow>
      list_all (\<lambda>e. \<not> k_well_formed sp (e_record e) (e_ctx e) nf) es)"
proof
  show "first_occurrence sp es nf = Some i \<longleftrightarrow>
      i < length es \<and> k_well_formed sp (e_record (es ! i)) (e_ctx (es ! i)) nf \<and>
      list_all (\<lambda>e. \<not> k_well_formed sp (e_record e) (e_ctx e) nf) (take i es)"
    by (auto simp: first_occurrence_eq iter_position_Some list_all_length)
qed (simp add: first_occurrence_eq iter_position_None list_all_iff)

text \<open>
  The batch occurrence test answers index \<open>i\<close> exactly when the envelope has the
  header's count, the header commitment recomputes over it, and \<open>i\<close> is the least envelope slot
  holding the payload bound to the raw nullifier.
\<close>

theorem batch_occurrence_iff:
  "batch_occurrence sp count commit env ctx nf = Some i \<longleftrightarrow>
     length env = unat count \<and> truncate24 (hash_batch sp env ctx) = commit \<and>
     unat i < length env \<and> env ! unat i = k_binding sp nf ctx \<and>
     k_binding sp nf ctx \<notin> set (take (unat i) env)"
proof (cases "length env = unat count")
  case True
  with unat_bounds(1) [of count] have small: "length env < 2 ^ 32" by simp
  then have "map_option word_of_nat (iter_position P env) = Some i \<longleftrightarrow>
      iter_position P env = Some (unat i)" for P
    by (intro map_option_word_of_nat_Some) (auto simp: iter_position_Some)
  then have "batch_occurrence sp count commit env ctx nf = Some i \<longleftrightarrow>
      truncate24 (hash_batch sp env ctx) = commit \<and>
      iter_position (\<lambda>p. p = k_binding sp nf ctx) env = Some (unat i)"
    using True by (simp add: batch_occurrence_eq del: map_option_eq_Some)
  with True show ?thesis
    by (auto simp: iter_position_Some in_set_conv_nth)
qed (simp add: batch_occurrence_eq)

end
