(* ===== verification/Anchor.thy ===== *)
theory Anchor
  imports Kernel
begin

text \<open>
  On-chain anchor records and batch envelopes: \<open>crates/opencsv-core/src/anchor.rs\<close>,
  \<open>batch.rs\<close> and the kernel adapter of \<open>kernel.rs\<close>. A constructor guarded by \<open>assert!\<close>
  returns \<open>None\<close> where the source panics.
\<close>

section \<open>Records\<close>

definition ANCHOR_SIZE :: nat where "ANCHOR_SIZE = 64"
definition TAG_MINT :: u8 where "TAG_MINT = 0x01"
definition TAG_REDEEM :: u8 where "TAG_REDEEM = 0x04"
definition TAG_BATCH :: u8 where "TAG_BATCH = 0x05"

datatype anchor_record =
    Mint truncated_digest u64 truncated_digest
  | Xfer truncated_digest truncated_digest
  | XferCompressed truncated_digest
  | BatchHeader u8 truncated_digest
  | Redeem truncated_digest u64 truncated_digest

text \<open>The array sizes of the record's fields.\<close>

fun record_sized :: "anchor_record \<Rightarrow> bool" where
  "record_sized (Mint a v c) = (length a = 24 \<and> length c = 24)"
| "record_sized (Xfer p q) = (length p = 24 \<and> length q = 24)"
| "record_sized (XferCompressed p) = (length p = 24)"
| "record_sized (BatchHeader n c) = (length c = 24)"
| "record_sized (Redeem a v p) = (length a = 24 \<and> length p = 24)"

definition zero24 :: truncated_digest where
  "zero24 = replicate 24 0"

definition mint_commit :: "sponge \<Rightarrow> digest \<Rightarrow> u64 \<Rightarrow> digest \<Rightarrow> digest" where
  "mint_commit sp asset_id v mint_nonce =
     hash_felts sp ''mint'' [to_elems asset_id, u64_to_felts v, to_elems mint_nonce]"

definition nullifier_commit :: "sponge \<Rightarrow> digest list \<Rightarrow> digest" where
  "nullifier_commit sp nullifiers = hash_felts sp ''xfer'' [concat (map to_elems nullifiers)]"

definition binding :: "sponge \<Rightarrow> digest \<Rightarrow> ctx \<Rightarrow> digest" where
  "binding sp raw ctx = hash_bind sp raw ctx"

section \<open>Batch commitments and envelopes\<close>

definition WITNESS_MAGIC :: bytes where "WITNESS_MAGIC = [0x4F, 0x43, 0x53, 0x56]"
definition WITNESS_MAGIC_V2 :: bytes where "WITNESS_MAGIC_V2 = [0x4F, 0x43, 0x53, 0x32]"
definition MAX_BATCH_V2_PARTICIPANTS :: nat where "MAX_BATCH_V2_PARTICIPANTS = 64"
definition MAX_WITNESS_ITEM :: nat where "MAX_WITNESS_ITEM = 80"

datatype batch_version = V1 | V2

definition batch_commit :: "sponge \<Rightarrow> truncated_digest list \<Rightarrow> ctx \<Rightarrow> digest" where
  "batch_commit sp payloads ctx = hash_batch sp payloads ctx"

definition batch_commit_v2 :: "sponge \<Rightarrow> truncated_digest list \<Rightarrow> ctx \<Rightarrow> digest" where
  "batch_commit_v2 sp payloads ctx =
     hash_felts sp ''batch-v2'' [bytes_to_felts (concat payloads), bytes_to_felts ctx]"

fun versioned_batch_commit :: "sponge \<Rightarrow> batch_version \<Rightarrow> truncated_digest list \<Rightarrow> ctx \<Rightarrow> digest" where
  "versioned_batch_commit sp V1 payloads ctx = batch_commit sp payloads ctx"
| "versioned_batch_commit sp V2 payloads ctx = batch_commit_v2 sp payloads ctx"

definition envelope_encode :: "truncated_digest list \<Rightarrow> bytes list" where
  "envelope_encode payloads = WITNESS_MAGIC # payloads"

definition envelope_v2_encode :: "truncated_digest list \<Rightarrow> bytes list option" where
  "envelope_v2_encode payloads =
     (if payloads = [] \<or> MAX_BATCH_V2_PARTICIPANTS < length payloads then None
      else Some (WITNESS_MAGIC_V2 # payloads))"

fun envelope_decode :: "bytes list \<Rightarrow> truncated_digest list option" where
  "envelope_decode [] = None"
| "envelope_decode (magic # payloads) =
     (if magic \<noteq> WITNESS_MAGIC \<or> payloads = [] then None
      else if list_all (\<lambda>item. \<not> (length item \<noteq> TRUNCATED_DIGEST_BYTES \<or>
                MAX_WITNESS_ITEM < length item)) payloads
      then Some payloads else None)"

fun witness_envelope_decode :: "bytes list \<Rightarrow> (batch_version \<times> truncated_digest list) option" where
  "witness_envelope_decode [] = None"
| "witness_envelope_decode (magic # rest) =
     (let witness = magic # rest in
      if magic = WITNESS_MAGIC then
        map_option (\<lambda>payloads. (V1, payloads)) (envelope_decode (butlast witness))
      else if magic = WITNESS_MAGIC_V2 then
        (if length witness < 4 \<or> MAX_BATCH_V2_PARTICIPANTS + 3 < length witness then None
         else
           (let signature = witness ! (length witness - 2);
                script = last witness;
                items = slice 1 (length witness - 2) witness
            in if signature = [] \<or> MAX_WITNESS_ITEM < length signature \<or> script = [] \<or>
                  list_ex (\<lambda>item. length item \<noteq> TRUNCATED_DIGEST_BYTES) items
               then None else Some (V2, items)))
      else None)"

section \<open>Constructors\<close>

definition xfer :: "sponge \<Rightarrow> digest list \<Rightarrow> ctx \<Rightarrow> anchor_record option" where
  "xfer sp raw_nullifiers ctx =
     (let bound = (\<lambda>nf. to_anchor (binding sp nf ctx)) in
      case raw_nullifiers of
        [nf] \<Rightarrow> Some (Xfer (bound nf) zero24)
      | [nf, nf'] \<Rightarrow> Some (Xfer (bound nf) (bound nf'))
      | _ \<Rightarrow> None)"

definition xfer_compressed :: "sponge \<Rightarrow> digest \<Rightarrow> ctx \<Rightarrow> anchor_record" where
  "xfer_compressed sp raw_nf_commit ctx = XferCompressed (to_anchor (binding sp raw_nf_commit ctx))"

definition batch_header :: "sponge \<Rightarrow> truncated_digest list \<Rightarrow> ctx \<Rightarrow> anchor_record option" where
  "batch_header sp payloads ctx =
     (if payloads \<noteq> [] \<and> length payloads \<le> 255
      then Some (BatchHeader (word_of_nat (length payloads)) (to_anchor (batch_commit sp payloads ctx)))
      else None)"

definition batch_header_v2 :: "sponge \<Rightarrow> truncated_digest list \<Rightarrow> ctx \<Rightarrow> anchor_record option" where
  "batch_header_v2 sp payloads ctx =
     (if payloads \<noteq> [] \<and> length payloads \<le> MAX_BATCH_V2_PARTICIPANTS
      then Some (BatchHeader (word_of_nat (length payloads)) (to_anchor (batch_commit_v2 sp payloads ctx)))
      else None)"

definition redeem :: "sponge \<Rightarrow> truncated_digest \<Rightarrow> u64 \<Rightarrow> digest \<Rightarrow> ctx \<Rightarrow> anchor_record" where
  "redeem sp asset_id v raw_nf ctx = Redeem asset_id v (to_anchor (binding sp raw_nf ctx))"

fun payload_slots :: "anchor_record \<Rightarrow> truncated_digest list" where
  "payload_slots (Mint _ _ _) = []"
| "payload_slots (BatchHeader _ _) = []"
| "payload_slots (Xfer p q) = [p, q]"
| "payload_slots (XferCompressed p) = [p]"
| "payload_slots (Redeem _ _ p) = [p]"

text \<open>\<open>kernel::record\<close>, the conversion at the kernel boundary.\<close>

fun to_k_record :: "anchor_record \<Rightarrow> k_record" where
  "to_k_record (Mint a v c) = KMint a v c"
| "to_k_record (Xfer p q) = KXfer p q"
| "to_k_record (XferCompressed p) = KXferCompressed p"
| "to_k_record (BatchHeader n c) = KBatchHeader n c"
| "to_k_record (Redeem a v p) = KRedeem a v p"

definition well_formed :: "sponge \<Rightarrow> anchor_record \<Rightarrow> ctx \<Rightarrow> digest \<Rightarrow> bool" where
  "well_formed sp r ctx raw_nf = k_well_formed sp (to_k_record r) ctx raw_nf"

section \<open>Serialization\<close>

fun to_bytes :: "anchor_record \<Rightarrow> bytes" where
  "to_bytes (Mint asset_id v commit) =
     copy_at 33 commit (copy_at 25 (to_le_bytes v) (copy_at 1 asset_id
       ((replicate ANCHOR_SIZE 0)[0 := TAG_MINT])))"
| "to_bytes (BatchHeader count commit) =
     copy_at 2 commit (((replicate ANCHOR_SIZE 0)[0 := TAG_BATCH])[1 := count])"
| "to_bytes (Redeem asset_id v payload) =
     copy_at 33 payload (copy_at 25 (to_le_bytes v) (copy_at 1 asset_id
       ((replicate ANCHOR_SIZE 0)[0 := TAG_REDEEM])))"
| "to_bytes (Xfer p q) = copy_at 24 q (copy_at 0 p (replicate ANCHOR_SIZE 0))"
| "to_bytes (XferCompressed p) = copy_at 0 p (replicate ANCHOR_SIZE 0)"

definition padded :: "bytes \<Rightarrow> nat \<Rightarrow> bool" where
  "padded bs from = list_all (\<lambda>b. b = 0) (drop from bs)"

definition from_bytes :: "bytes \<Rightarrow> anchor_record" where
  "from_bytes bs =
     (if bs ! 0 = TAG_MINT \<and> padded bs 57 then
        Mint (slice 1 25 bs) (from_le_bytes (slice 25 33 bs)) (slice 33 57 bs)
      else if bs ! 0 = TAG_REDEEM \<and> padded bs 57 then
        Redeem (slice 1 25 bs) (from_le_bytes (slice 25 33 bs)) (slice 33 57 bs)
      else if bs ! 0 = TAG_BATCH \<and> padded bs 26 then
        BatchHeader (bs ! 1) (slice 2 26 bs)
      else Xfer (slice 0 24 bs) (slice 24 48 bs))"

definition parses_cleanly :: "anchor_record \<Rightarrow> bool" where
  "parses_cleanly r =
     (case (r, from_bytes (to_bytes r)) of
        (Mint _ _ _, Mint _ _ _) \<Rightarrow> True
      | (Redeem _ _ _, Redeem _ _ _) \<Rightarrow> True
      | (BatchHeader _ _, BatchHeader _ _) \<Rightarrow> True
      | (Xfer _ _, Xfer _ _) \<Rightarrow> True
      | (Xfer _ _, XferCompressed _) \<Rightarrow> True
      | (XferCompressed _, Xfer _ _) \<Rightarrow> True
      | (XferCompressed _, XferCompressed _) \<Rightarrow> True
      | _ \<Rightarrow> False)"

section \<open>Batch occurrences\<close>

fun envelope_occurrence ::
  "sponge \<Rightarrow> anchor_record \<Rightarrow> truncated_digest list \<Rightarrow> ctx \<Rightarrow> digest \<Rightarrow> u32 option" where
  "envelope_occurrence sp (BatchHeader count committed) envelope ctx raw_nf =
     batch_occurrence sp count committed envelope ctx raw_nf"
| "envelope_occurrence sp _ envelope ctx raw_nf = None"

fun versioned_envelope_occurrence ::
  "sponge \<Rightarrow> batch_version \<Rightarrow> anchor_record \<Rightarrow> truncated_digest list \<Rightarrow> ctx \<Rightarrow> digest \<Rightarrow> u32 option"
where
  "versioned_envelope_occurrence sp version (BatchHeader count committed) envelope ctx raw_nf =
     (if length envelope \<noteq> unat count \<or>
         to_anchor (versioned_batch_commit sp version envelope ctx) \<noteq> committed then None
      else map_option word_of_nat
             (iter_position (\<lambda>payload. payload = to_anchor (binding sp raw_nf ctx)) envelope))"
| "versioned_envelope_occurrence sp version _ envelope ctx raw_nf = None"

section \<open>Layout lemmas\<close>

lemma replicate_anchor: "replicate ANCHOR_SIZE (0::byte) = 0 # replicate 63 0"
  by (simp add: ANCHOR_SIZE_def numeral_eq_Suc)

lemma tag_head: "(replicate ANCHOR_SIZE (0::byte))[0 := t] = t # replicate 63 0"
  by (simp only: replicate_anchor list_update_code)

lemma list_all_replicate [simp]: "list_all P (replicate n x) \<longleftrightarrow> n = 0 \<or> P x"
  by (auto simp: list_all_iff)

lemma tagged_layout:
  assumes "length a = 24" "length b = 8" "length c = 24"
  shows "copy_at 33 c (copy_at 25 b (copy_at 1 a ((replicate ANCHOR_SIZE 0)[0 := t]))) =
     t # a @ b @ c @ replicate 7 (0::byte)"
  unfolding tag_head using assms by (simp add: copy_at_def)

lemma to_bytes_layout:
  "record_sized (Mint a v c) \<Longrightarrow> to_bytes (Mint a v c) = TAG_MINT # a @ to_le_bytes v @ c @ replicate 7 0"
  "record_sized (Redeem a v c) \<Longrightarrow> to_bytes (Redeem a v c) = TAG_REDEEM # a @ to_le_bytes v @ c @ replicate 7 0"
  "record_sized (BatchHeader n c) \<Longrightarrow> to_bytes (BatchHeader n c) = TAG_BATCH # n # c @ replicate 38 0"
  "record_sized (Xfer p q) \<Longrightarrow> to_bytes (Xfer p q) = p @ q @ replicate 16 0"
  "record_sized (XferCompressed p) \<Longrightarrow> to_bytes (XferCompressed p) = p @ zero24 @ replicate 16 0"
proof -
  have "(replicate ANCHOR_SIZE (0::byte))[0 := TAG_BATCH, 1 := n] = TAG_BATCH # n # replicate 62 0"
    unfolding tag_head by (simp add: numeral_eq_Suc)
  then show "record_sized (BatchHeader n c) \<Longrightarrow> to_bytes (BatchHeader n c) = TAG_BATCH # n # c @ replicate 38 0"
    by (simp del: One_nat_def add: copy_at_def)
  show "record_sized (XferCompressed p) \<Longrightarrow> to_bytes (XferCompressed p) = p @ zero24 @ replicate 16 0"
    by (simp add: copy_at_def ANCHOR_SIZE_def zero24_def flip: replicate_add)
  show "record_sized (Xfer p q) \<Longrightarrow> to_bytes (Xfer p q) = p @ q @ replicate 16 0"
    by (simp add: copy_at_def ANCHOR_SIZE_def)
qed (simp_all add: tagged_layout del: One_nat_def)

lemma length_to_bytes: "record_sized r \<Longrightarrow> length (to_bytes r) = ANCHOR_SIZE"
  by (cases r) (simp_all add: to_bytes_layout zero24_def ANCHOR_SIZE_def
      del: to_bytes.simps)

lemma padded_append: "length xs = n \<Longrightarrow> padded (xs @ ys) n \<longleftrightarrow> list_all (\<lambda>b. b = 0) ys"
  by (simp add: padded_def)

lemma from_bytes_sized: "length bs = ANCHOR_SIZE \<Longrightarrow> record_sized (from_bytes bs)"
  by (simp add: from_bytes_def ANCHOR_SIZE_def)

lemma from_to_bytes_tagged:
  "record_sized (Mint a v c) \<Longrightarrow> from_bytes (to_bytes (Mint a v c)) = Mint a v c"
  "record_sized (Redeem a v c) \<Longrightarrow> from_bytes (to_bytes (Redeem a v c)) = Redeem a v c"
  "record_sized (BatchHeader n c) \<Longrightarrow> from_bytes (to_bytes (BatchHeader n c)) = BatchHeader n c"
  by (simp_all add: to_bytes_layout from_bytes_def padded_def slice_def
      TAG_MINT_def TAG_REDEEM_def TAG_BATCH_def del: to_bytes.simps)

text \<open>When an untagged transfer is read back as a tagged record.\<close>

definition tag_collision :: "truncated_digest \<Rightarrow> truncated_digest \<Rightarrow> bool" where
  "tag_collision p q \<longleftrightarrow> p ! 0 = TAG_MINT \<or> p ! 0 = TAG_REDEEM \<or>
     p ! 0 = TAG_BATCH \<and> drop 2 q = replicate 22 0"

lemma from_bytes_untagged:
  assumes "length p = 24" "length q = 24"
  shows "(\<not> tag_collision p q \<longrightarrow> from_bytes (p @ q @ replicate 16 0) = Xfer p q) \<and>
     (tag_collision p q \<longrightarrow> (\<forall>x y. from_bytes (p @ q @ replicate 16 0) \<noteq> Xfer x y) \<and>
        (\<forall>x. from_bytes (p @ q @ replicate 16 0) \<noteq> XferCompressed x))"
proof -
  let ?bs = "p @ q @ replicate 16 (0::byte)"
  have hd: "?bs ! 0 = p ! 0" using assms by (simp add: nth_append)
  have p57: "padded ?bs 57" using assms by (simp add: padded_def)
  have "padded ?bs 26 \<longleftrightarrow> list_all (\<lambda>b. b = 0) (drop 2 q)"
    using assms by (simp add: padded_def list_all_iff)
  also have "\<dots> \<longleftrightarrow> drop 2 q = replicate 22 0"
    using assms by (auto simp: list_all_iff intro: replicate_eqI)
  finally have p26: "padded ?bs 26 \<longleftrightarrow> drop 2 q = replicate 22 0" .
  have sl: "slice 0 24 ?bs = p" "slice 24 48 ?bs = q"
    using assms by (simp_all add: slice_def)
  show ?thesis
    by (auto simp: from_bytes_def hd p57 p26 sl tag_collision_def)
qed

text \<open>The class-preserving parse of a record: XFER and XFERC share one layout.\<close>

fun parsed_form :: "anchor_record \<Rightarrow> anchor_record" where
  "parsed_form (XferCompressed p) = Xfer p zero24"
| "parsed_form r = r"

lemma drop_zero24: "drop 2 zero24 = replicate 22 0"
  by (simp add: zero24_def)

lemma parses_cleanly_simps:
  "record_sized (Xfer p q) \<Longrightarrow> parses_cleanly (Xfer p q) \<longleftrightarrow> \<not> tag_collision p q"
  "record_sized (XferCompressed p) \<Longrightarrow> parses_cleanly (XferCompressed p) \<longleftrightarrow> \<not> tag_collision p zero24"
  "record_sized (Mint a v c) \<Longrightarrow> parses_cleanly (Mint a v c)"
  "record_sized (Redeem a v c) \<Longrightarrow> parses_cleanly (Redeem a v c)"
  "record_sized (BatchHeader n c) \<Longrightarrow> parses_cleanly (BatchHeader n c)"
proof -
  show "record_sized (Xfer p q) \<Longrightarrow> parses_cleanly (Xfer p q) \<longleftrightarrow> \<not> tag_collision p q"
    using from_bytes_untagged [of p q]
    by (cases "from_bytes (p @ q @ replicate 16 0)")
      (auto simp: parses_cleanly_def to_bytes_layout simp del: to_bytes.simps)
  show "record_sized (XferCompressed p) \<Longrightarrow> parses_cleanly (XferCompressed p) \<longleftrightarrow> \<not> tag_collision p zero24"
    using from_bytes_untagged [of p zero24]
    by (cases "from_bytes (p @ zero24 @ replicate 16 0)")
      (auto simp: parses_cleanly_def to_bytes_layout zero24_def simp del: to_bytes.simps)
qed (simp_all only: parses_cleanly_def from_to_bytes_tagged prod.case anchor_record.case)

section \<open>Envelope lemmas\<close>

lemma magic_neq [simp]: "WITNESS_MAGIC \<noteq> WITNESS_MAGIC_V2" "WITNESS_MAGIC_V2 \<noteq> WITNESS_MAGIC"
  by (simp_all add: WITNESS_MAGIC_def WITNESS_MAGIC_V2_def)

lemma envelope_decode_Some:
  "envelope_decode items = Some ps \<longleftrightarrow>
     items = WITNESS_MAGIC # ps \<and> ps \<noteq> [] \<and> list_all (\<lambda>p. length p = 24) ps"
  by (cases items)
    (auto simp: TRUNCATED_DIGEST_BYTES_def MAX_WITNESS_ITEM_def list_all_iff split: if_splits)

lemma slice_middle: "slice 1 (length (m # ps @ [a, b]) - 2) (m # ps @ [a, b]) = ps"
  by (simp add: slice_def)

lemma nth_penultimate: "(m # ps @ [a, b]) ! (length (m # ps @ [a, b]) - 2) = a"
  by (simp add: nth_append)

lemma list_split_last2:
  assumes "4 \<le> length (m # rest)"
  obtains ps a b where "rest = ps @ [a, b]" and "ps \<noteq> []"
proof -
  from assms have "rest \<noteq> []" "butlast rest \<noteq> []" "butlast (butlast rest) \<noteq> []"
    by (auto simp flip: length_greater_0_conv)
  then have "rest = butlast (butlast rest) @ [last (butlast rest), last rest]"
    by (metis append.assoc append_Cons append_Nil append_butlast_last_id)
  with \<open>butlast (butlast rest) \<noteq> []\<close> show ?thesis by (rule that [rotated])
qed

lemma witness_decode_v2:
  "witness_envelope_decode (WITNESS_MAGIC_V2 # ps @ [sig, script]) = Some (v, qs) \<longleftrightarrow>
     v = V2 \<and> qs = ps \<and> 1 \<le> length ps \<and> length ps \<le> 64 \<and>
     sig \<noteq> [] \<and> length sig \<le> 80 \<and> script \<noteq> [] \<and> list_all (\<lambda>p. length p = 24) ps"
  unfolding witness_envelope_decode.simps Let_def slice_middle nth_penultimate
  by (auto simp: MAX_BATCH_V2_PARTICIPANTS_def MAX_WITNESS_ITEM_def TRUNCATED_DIGEST_BYTES_def
      list_all_iff list_ex_iff Suc_le_eq numeral_eq_Suc)

section \<open>Binding lemmas\<close>

text \<open>What the sponge absorbs for a payload binding.\<close>

definition bind_input :: "digest \<Rightarrow> ctx \<Rightarrow> felt list" where
  "bind_input raw ctx = hash_input ''bind'' [to_elems raw, bytes_to_felts ctx]"

lemma bind_input_inj:
  assumes "length nf = 32" "length nf' = 32" "is_canonical nf" "is_canonical nf'"
    and "length c = 32" "length c' = 32"
    and "bind_input nf c = bind_input nf' c'"
  shows "nf = nf' \<and> c = c'"
proof -
  have "[to_elems nf, bytes_to_felts c] = [to_elems nf', bytes_to_felts c']"
    by (rule hash_input_parts_inj [of "''bind''"]) (use assms in \<open>simp_all add: bind_input_def\<close>)
  with assms show ?thesis
    by (auto intro: to_elems_inj bytes_to_felts_inj)
qed

lemma to_anchor_binding:
  "sponge_ok sp \<Longrightarrow> to_anchor (binding sp nf ctx) = k_binding sp nf ctx"
  by (simp add: binding_def k_binding_def truncate24_eq)

lemma k_binding_input:
  "sponge_ok sp \<Longrightarrow> length nf = 32 \<Longrightarrow> k_binding sp nf ctx = to_anchor (from_elems (sp (bind_input nf ctx)))"
proof -
  assume ok: "sponge_ok sp" and len: "length nf = 32"
  from ok have "k_binding sp nf ctx = to_anchor (hash_bind sp nf ctx)"
    by (simp add: k_binding_def truncate24_eq)
  with ok len show ?thesis by (simp add: hash_bind_eq hash_felts_def bind_input_def)
qed

lemma well_formed_iff_slot:
  "well_formed sp r ctx nf \<longleftrightarrow> k_binding sp nf ctx \<in> set (payload_slots r)"
  by (cases r) (auto simp: well_formed_def)

lemma to_anchor_batch_commit:
  "sponge_ok sp \<Longrightarrow> to_anchor (batch_commit sp ps ctx) = truncate24 (hash_batch sp ps ctx)"
  by (simp add: batch_commit_def truncate24_eq)

lemma versioned_V1_eq:
  "sponge_ok sp \<Longrightarrow>
     versioned_envelope_occurrence sp V1 r env ctx nf = envelope_occurrence sp r env ctx nf"
  by (cases r) (simp_all add: batch_occurrence_eq to_anchor_batch_commit to_anchor_binding)

lemma zero_tail_Xfer:
  assumes "length bs = 64" "padded bs n" "n \<le> 64"
  shows "drop n bs = replicate (64 - n) 0"
  using assms by (auto simp: padded_def list_all_iff intro: replicate_eqI)

lemma split_tagged:
  assumes "length bs = 64"
  shows "bs = bs ! 0 # slice 1 25 bs @ slice 25 33 bs @ slice 33 57 bs @ drop 57 bs"
    and "bs = bs ! 0 # bs ! 1 # slice 2 26 bs @ drop 26 bs"
proof -
  have cat: "slice a b bs @ drop b bs = drop a bs" if "a \<le> b" for a b
    using that by (metis append_take_drop_id drop_drop le_add_diff_inverse2 slice_def)
  have "bs = bs ! 0 # drop 1 bs" using assms by (cases bs) auto
  then show "bs = bs ! 0 # slice 1 25 bs @ slice 25 33 bs @ slice 33 57 bs @ drop 57 bs"
    by (simp add: cat del: One_nat_def)
  have "bs = bs ! 0 # bs ! 1 # drop 2 bs" using assms by (cases bs; cases "tl bs") auto
  then show "bs = bs ! 0 # bs ! 1 # slice 2 26 bs @ drop 26 bs"
    by (simp add: cat del: One_nat_def)
qed

section \<open>Properties\<close>

text \<open>
  Claim C8. Every record serializes to exactly 64 bytes, and the parse class check
  \<open>parses_cleanly\<close> is exact: it holds if and only if parsing the bytes gives the record back
  (an XFERC reads as the XFER with a zero second slot, the shared layout).
\<close>
theorem anchor_roundtrip_iff:
  assumes "record_sized r"
  shows "length (to_bytes r) = 64 \<and> (parses_cleanly r \<longleftrightarrow> from_bytes (to_bytes r) = parsed_form r)"
proof -
  have "parses_cleanly r \<longleftrightarrow> from_bytes (to_bytes r) = parsed_form r"
  proof (cases r)
    case (Xfer p q)
    with assms from_bytes_untagged [of p q] show ?thesis
      by (auto simp: parses_cleanly_simps to_bytes_layout simp del: to_bytes.simps)
  next
    case (XferCompressed p)
    with assms from_bytes_untagged [of p zero24] show ?thesis
      by (auto simp: parses_cleanly_simps to_bytes_layout zero24_def simp del: to_bytes.simps)
  qed (use assms in \<open>simp_all only: parses_cleanly_simps from_to_bytes_tagged parsed_form.simps simp_thms\<close>)
  with length_to_bytes [OF assms] show ?thesis by (simp add: ANCHOR_SIZE_def)
qed

theorem anchor_roundtrip_iff_witness:
  "length (to_bytes (Xfer (replicate 24 9) zero24)) = 64 \<and>
   (parses_cleanly (Xfer (replicate 24 9) zero24) \<longleftrightarrow>
      from_bytes (to_bytes (Xfer (replicate 24 9) zero24)) = Xfer (replicate 24 9) zero24)"
  using anchor_roundtrip_iff [of "Xfer (replicate 24 9) zero24"] by (simp add: zero24_def)

text \<open>
  Which untagged transfers are ambiguous on the wire: exactly those whose first byte
  is the MINT or REDEEM tag, or is the BATCH tag with bytes 26..48 all zero.
\<close>
theorem untagged_collision:
  assumes "length p = 24" "length q = 24"
  shows "parses_cleanly (Xfer p q) \<longleftrightarrow>
     p ! 0 \<noteq> TAG_MINT \<and> p ! 0 \<noteq> TAG_REDEEM \<and> (p ! 0 = TAG_BATCH \<longrightarrow> drop 2 q \<noteq> replicate 22 0)"
  using assms by (auto simp: parses_cleanly_simps tag_collision_def)

theorem untagged_collision_witness:
  "parses_cleanly (Xfer (replicate 24 5) (replicate 24 5)) \<and> \<not> parses_cleanly (Xfer (replicate 24 5) zero24)"
  using untagged_collision [of "replicate 24 5" "replicate 24 5"] untagged_collision [of "replicate 24 5" zero24]
  by (simp add: TAG_MINT_def TAG_REDEEM_def TAG_BATCH_def zero24_def)

text \<open>
  Parsing is total on 64-byte payloads and printing the parsed record restores a
  tagged record byte for byte; an untagged record keeps its 48 payload bytes and loses only
  what the transfer layout does not define (bytes 48..64 become zero). It never yields an
  \<open>XferCompressed\<close>.
\<close>
theorem to_from_bytes:
  assumes "length bs = 64"
  shows "to_bytes (from_bytes bs) =
     (case from_bytes bs of Xfer _ _ \<Rightarrow> take 48 bs @ replicate 16 0 | _ \<Rightarrow> bs) \<and>
     (\<forall>p. from_bytes bs \<noteq> XferCompressed p)"
proof -
  have sz: "record_sized (from_bytes bs)" using from_bytes_sized [of bs] assms by (simp add: ANCHOR_SIZE_def)
  have le: "to_le_bytes (from_le_bytes (slice 25 33 bs) :: u64) = slice 25 33 bs" using assms by simp
  consider (mint) "bs ! 0 = TAG_MINT" "padded bs 57" "from_bytes bs = Mint (slice 1 25 bs) (from_le_bytes (slice 25 33 bs)) (slice 33 57 bs)"
    | (redeem) "bs ! 0 = TAG_REDEEM" "padded bs 57" "from_bytes bs = Redeem (slice 1 25 bs) (from_le_bytes (slice 25 33 bs)) (slice 33 57 bs)"
    | (batch) "bs ! 0 = TAG_BATCH" "padded bs 26" "from_bytes bs = BatchHeader (bs ! 1) (slice 2 26 bs)"
    | (xfer) "from_bytes bs = Xfer (slice 0 24 bs) (slice 24 48 bs)"
    unfolding from_bytes_def by presburger
  then show ?thesis
  proof cases
    case mint
    with sz le split_tagged(1) [OF assms] zero_tail_Xfer [of bs 57] assms show ?thesis
      by (simp add: to_bytes_layout del: to_bytes.simps One_nat_def)
  next
    case redeem
    with sz le split_tagged(1) [OF assms] zero_tail_Xfer [of bs 57] assms show ?thesis
      by (simp add: to_bytes_layout del: to_bytes.simps One_nat_def)
  next
    case batch
    with sz split_tagged(2) [OF assms] zero_tail_Xfer [of bs 26] assms show ?thesis
      by (simp add: to_bytes_layout del: to_bytes.simps One_nat_def)
  next
    case xfer
    have "take 48 bs = slice 0 24 bs @ slice 24 48 bs"
      using take_add [of 24 24 bs] by (simp add: slice_def)
    with sz xfer show ?thesis by (simp add: to_bytes_layout del: to_bytes.simps)
  qed
qed

theorem to_from_bytes_witness:
  "to_bytes (from_bytes (replicate 64 7)) = replicate 48 7 @ replicate 16 0"
  using to_from_bytes [of "replicate 64 7"]
  by (simp add: from_bytes_def TAG_MINT_def TAG_REDEEM_def TAG_BATCH_def)

text \<open>
  The witness decoder accepts exactly two shapes: the V1 magic, one or more 24-byte
  payloads and the trailing script; or the V2 magic, 1 to 64 payloads of 24 bytes, a non-empty
  signature of at most 80 bytes and a non-empty script.
\<close>
theorem witness_envelope_decode_iff:
  "witness_envelope_decode w = Some (v, ps) \<longleftrightarrow>
     list_all (\<lambda>p. length p = 24) ps \<and> ps \<noteq> [] \<and>
     (v = V1 \<and> (\<exists>script. w = WITNESS_MAGIC # ps @ [script]) \<or>
      v = V2 \<and> length ps \<le> 64 \<and>
        (\<exists>sig script. w = WITNESS_MAGIC_V2 # ps @ [sig, script] \<and>
           sig \<noteq> [] \<and> length sig \<le> 80 \<and> script \<noteq> []))" (is "?lhs \<longleftrightarrow> ?rhs")
proof
  assume ?lhs
  then obtain m rest where w: "w = m # rest" by (cases w) auto
  show ?rhs
  proof (cases "m = WITNESS_MAGIC")
    case True
    with \<open>?lhs\<close> w have "v = V1" "butlast w = WITNESS_MAGIC # ps" "ps \<noteq> []" "list_all (\<lambda>p. length p = 24) ps"
      by (auto simp: Let_def envelope_decode_Some simp del: envelope_decode.simps)
    moreover from this w have "w = WITNESS_MAGIC # ps @ [last w]"
      by (metis append_Cons append_butlast_last_id list.distinct(1))
    ultimately show ?thesis by blast
  next
    case False
    with \<open>?lhs\<close> w have m: "m = WITNESS_MAGIC_V2" and "4 \<le> length (m # rest)"
      by (auto simp: Let_def split: if_splits)
    then obtain qs a b where "rest = qs @ [a, b]" "qs \<noteq> []"
      using list_split_last2 [of m rest] by metis
    with \<open>?lhs\<close> w m show ?thesis by (auto simp: witness_decode_v2 simp del: witness_envelope_decode.simps)
  qed
next
  have v1: "witness_envelope_decode (WITNESS_MAGIC # ps @ [script]) = Some (V1, ps)"
    if "ps \<noteq> []" "list_all (\<lambda>p. length p = 24) ps" for script
  proof -
    have "envelope_decode (butlast (WITNESS_MAGIC # ps @ [script])) = Some ps"
      using that by (simp add: envelope_decode_Some butlast_append del: envelope_decode.simps)
    then show ?thesis by (simp add: Let_def)
  qed
  assume ?rhs
  then show ?lhs
    by (auto simp: v1 witness_decode_v2 Suc_le_eq simp del: witness_envelope_decode.simps)
qed

text \<open>
  A V2 batch header built over an envelope is found again by the versioned
  occurrence test: for every nullifier the test returns the least index holding its binding, and
  nothing when the envelope does not hold it. The V1 rule is the kernel's own occurrence test.
\<close>
theorem batch_header_v2_occurrence:
  assumes "batch_header_v2 sp ps ctx = Some r" and "sponge_ok sp"
  shows "versioned_envelope_occurrence sp V2 r ps ctx nf =
       map_option word_of_nat (iter_position (\<lambda>p. p = k_binding sp nf ctx) ps) \<and>
     versioned_envelope_occurrence sp V1 r ps ctx nf = envelope_occurrence sp r ps ctx nf"
  using assms versioned_V1_eq [of sp r ps ctx nf]
  by (auto simp: batch_header_v2_def MAX_BATCH_V2_PARTICIPANTS_def to_anchor_binding unat_of_nat
      split: if_splits)

definition zero_sponge :: sponge where
  "zero_sponge xs = replicate 8 0"

lemma zero_sponge_ok [simp]: "sponge_ok zero_sponge"
  by (simp add: sponge_ok_def zero_sponge_def DIGEST_ELEMS_def BABY_BEAR_P_def)

lemma from_elems_zero: "from_elems (replicate 8 0) = replicate 32 0"
  by code_simp

lemma canonical_zero: "is_canonical (replicate 32 0)"
  unfolding from_elems_zero [symmetric] by (rule is_canonical_from_elems) (simp add: BABY_BEAR_P_def)

lemma zero_sponge_binding: "length nf = 32 \<Longrightarrow> k_binding zero_sponge nf ctx = zero24"
  by (subst k_binding_input)
    (simp_all add: zero_sponge_def from_elems_zero to_anchor_def TRUNCATED_DIGEST_BYTES_def zero24_def)

theorem batch_header_v2_occurrence_witness:
  "versioned_envelope_occurrence zero_sponge V2 (BatchHeader 1 zero24) [zero24] (replicate 32 0) (replicate 32 0) = Some 0"
proof -
  have "batch_header_v2 zero_sponge [zero24] (replicate 32 0) = Some (BatchHeader 1 zero24)"
    by (simp add: batch_header_v2_def batch_commit_v2_def hash_felts_def MAX_BATCH_V2_PARTICIPANTS_def
        zero_sponge_def from_elems_zero to_anchor_def TRUNCATED_DIGEST_BYTES_def zero24_def)
  then show ?thesis
    using batch_header_v2_occurrence [of zero_sponge "[zero24]" "replicate 32 0" "BatchHeader 1 zero24" "replicate 32 0"]
    by (simp add: zero_sponge_binding)
qed

text \<open>
  Copy-grief immunity of a payload, reduced to the sponge: if a transfer record
  built for the nullifier \<open>nf\<close> under the context \<open>ctx\<close> is an occurrence of a nullifier \<open>nf'\<close>
  under a context \<open>ctx'\<close>, then either both are the same, or the 24-byte truncation of the sponge
  collides on the two distinct inputs, or a binding is the all-zero filler of the second slot.
\<close>
theorem copied_transfer_needs_collision:
  assumes "sponge_ok sp" "length nf = 32" "length nf' = 32" "is_canonical nf" "is_canonical nf'"
    and "length ctx = 32" "length ctx' = 32"
    and "xfer sp [nf] ctx = Some r" "well_formed sp r ctx' nf'"
  shows "nf = nf' \<and> ctx = ctx' \<or>
     bind_input nf ctx \<noteq> bind_input nf' ctx' \<and>
       to_anchor (from_elems (sp (bind_input nf ctx))) = to_anchor (from_elems (sp (bind_input nf' ctx'))) \<or>
     to_anchor (from_elems (sp (bind_input nf' ctx'))) = zero24"
proof -
  have "k_binding sp nf' ctx' \<in> {k_binding sp nf ctx, zero24}"
    using assms by (auto simp: xfer_def well_formed_iff_slot to_anchor_binding)
  then show ?thesis
    using assms bind_input_inj [of nf nf' ctx ctx'] by (auto simp: k_binding_input)
qed

theorem copied_transfer_needs_collision_witness:
  "bind_input (replicate 32 0) (replicate 32 0) \<noteq> bind_input (replicate 32 0) (replicate 32 1) \<and>
     to_anchor (from_elems (zero_sponge (bind_input (replicate 32 0) (replicate 32 0)))) =
       to_anchor (from_elems (zero_sponge (bind_input (replicate 32 0) (replicate 32 1)))) \<or>
   to_anchor (from_elems (zero_sponge (bind_input (replicate 32 0) (replicate 32 1)))) = zero24"
proof -
  have "xfer zero_sponge [replicate 32 0] (replicate 32 0) = Some (Xfer zero24 zero24)"
    and "well_formed zero_sponge (Xfer zero24 zero24) (replicate 32 1) (replicate 32 0)"
    by (simp_all add: xfer_def to_anchor_binding zero_sponge_binding well_formed_iff_slot)
  moreover have "replicate 32 (0::byte) \<noteq> replicate 32 1" by (simp add: numeral_eq_Suc)
  ultimately show ?thesis
    using canonical_zero copied_transfer_needs_collision [of zero_sponge "replicate 32 0" "replicate 32 0"
        "replicate 32 0" "replicate 32 1" "Xfer zero24 zero24"]
    by (metis zero_sponge_ok length_replicate)
qed

end
