(* ===== verification/Coin.thy ===== *)
theory Coin
  imports Anchor
begin

text \<open>
  Assets, coins and issuer keys: \<open>crates/opencsv-core/src/asset.rs\<close>, \<open>coin.rs\<close> and
  \<open>issuer.rs\<close>, and the coin openings of \<open>consignment.rs\<close>. The deprecated Ed25519 scheme of
  \<open>issuer.rs\<close> only forwards to a signature library and is left out.
\<close>

section \<open>Assets\<close>

record asset_genesis =
  issuer_pk :: bytes
  currency_code :: bytes
  terms_hash :: digest
  nonce :: u64

definition asset_id_parts :: "asset_genesis \<Rightarrow> felt list list" where
  "asset_id_parts g =
     [bytes_to_felts (issuer_pk g), bytes_to_felts (currency_code g), to_elems (terms_hash g),
      u64_to_felts (nonce g)]"

definition asset_id :: "sponge \<Rightarrow> asset_genesis \<Rightarrow> digest" where
  "asset_id sp g = hash_felts sp ''OpenCSV-asset'' (asset_id_parts g)"

section \<open>Coins\<close>

text \<open>\<open>OwnerSecret\<close> wraps 32 secret bytes, without the canonical-limb rule of a digest.\<close>

type_synonym owner_secret = bytes

definition owner_secret_from_bytes :: "bytes \<Rightarrow> owner_secret" where
  "owner_secret_from_bytes bs = bs"

definition owner :: "sponge \<Rightarrow> owner_secret \<Rightarrow> digest" where
  "owner sp osk = hash_felts sp '''' [bytes_to_felts osk]"

record coin =
  coin_asset_id :: digest
  coin_value :: u64
  coin_owner :: digest
  coin_randomness :: digest

definition coin_parts :: "coin \<Rightarrow> felt list list" where
  "coin_parts c =
     [to_elems (coin_asset_id c), u64_to_felts (coin_value c), to_elems (coin_owner c),
      to_elems (coin_randomness c)]"

definition commitment :: "sponge \<Rightarrow> coin \<Rightarrow> digest" where
  "commitment sp c = hash_felts sp ''coin'' (coin_parts c)"

definition nullifier :: "sponge \<Rightarrow> owner_secret \<Rightarrow> digest \<Rightarrow> digest" where
  "nullifier sp osk c = hash_felts sp ''null'' [bytes_to_felts osk, to_elems c]"

definition coin_nullifier :: "sponge \<Rightarrow> coin \<Rightarrow> owner_secret \<Rightarrow> digest" where
  "coin_nullifier sp c osk = nullifier sp osk (commitment sp c)"

section \<open>Openings\<close>

record coin_opening =
  op_asset_id :: digest
  op_value :: u64
  op_owner :: digest
  op_randomness :: digest

definition to_coin :: "coin_opening \<Rightarrow> coin" where
  "to_coin opn = \<lparr>coin_asset_id = op_asset_id opn, coin_value = op_value opn, coin_owner = op_owner opn,
     coin_randomness = op_randomness opn\<rparr>"

definition opening_commitment :: "sponge \<Rightarrow> coin_opening \<Rightarrow> digest" where
  "opening_commitment sp opn = commitment sp (to_coin opn)"

definition to_public_input_bytes :: "coin_opening \<Rightarrow> bytes" where
  "to_public_input_bytes opn =
     copy_at 72 (op_randomness opn) (copy_at 40 (op_owner opn)
       (copy_at 32 (to_le_bytes (op_value opn)) (copy_at 0 (op_asset_id opn) (replicate 104 0))))"

section \<open>Issuer keys\<close>

definition POSEIDON_ISSUER_KEY_DOMAIN :: string where
  "POSEIDON_ISSUER_KEY_DOMAIN = ''issuer-key-v1''"

definition public_key :: "sponge \<Rightarrow> bytes \<Rightarrow> bytes" where
  "public_key sp seed = hash_felts sp POSEIDON_ISSUER_KEY_DOMAIN [bytes_to_felts seed]"

definition keypair_from_seed :: "sponge \<Rightarrow> bytes \<Rightarrow> bytes \<times> bytes" where
  "keypair_from_seed sp seed = (seed, public_key sp seed)"

definition controls :: "sponge \<Rightarrow> bytes \<Rightarrow> bytes \<Rightarrow> bool" where
  "controls sp seed pk = (public_key sp seed = pk)"

definition mint_signing_message :: "digest \<Rightarrow> u64 \<Rightarrow> digest \<Rightarrow> bytes" where
  "mint_signing_message aid v mint_nonce =
     str_bytes ''OpenCSV-mint'' @ aid @ to_le_bytes v @ mint_nonce"

section \<open>Sizes\<close>

text \<open>A digest as the strict deserializer delivers it: 32 bytes, every limb canonical.\<close>

definition digest_ok :: "digest \<Rightarrow> bool" where
  "digest_ok d \<longleftrightarrow> length d = 32 \<and> is_canonical d"

definition genesis_ok :: "asset_genesis \<Rightarrow> bool" where
  "genesis_ok g \<longleftrightarrow> length (issuer_pk g) = 32 \<and> length (currency_code g) = 3 \<and> digest_ok (terms_hash g)"

definition coin_ok :: "coin \<Rightarrow> bool" where
  "coin_ok c \<longleftrightarrow> digest_ok (coin_asset_id c) \<and> digest_ok (coin_owner c) \<and> digest_ok (coin_randomness c)"

definition opening_sized :: "coin_opening \<Rightarrow> bool" where
  "opening_sized opn \<longleftrightarrow> length (op_asset_id opn) = 32 \<and> length (op_owner opn) = 32 \<and> length (op_randomness opn) = 32"

section \<open>Lemmas\<close>

lemma digest_okD [dest]: "digest_ok d \<Longrightarrow> length d = 32 \<and> is_canonical d"
  by (simp add: digest_ok_def)

lemma length_to_elems_ok [simp]: "digest_ok d \<Longrightarrow> length (to_elems d) = 8"
  by (auto dest: digest_okD)

lemma digest_ok_hash [simp]: "sponge_ok sp \<Longrightarrow> digest_ok (hash_felts sp d ps)"
  by (simp add: digest_ok_def)

lemma to_elems_eq_iff: "digest_ok d \<Longrightarrow> digest_ok e \<Longrightarrow> to_elems d = to_elems e \<longleftrightarrow> d = e"
  by (auto dest!: digest_okD intro: to_elems_inj)

lemma bytes_to_felts_eq_iff: "length x = length y \<Longrightarrow> bytes_to_felts x = bytes_to_felts y \<longleftrightarrow> x = y"
  by (auto intro: bytes_to_felts_inj)

lemma u64_to_felts_eq_iff: "u64_to_felts v = u64_to_felts w \<longleftrightarrow> v = w"
  by (auto intro: u64_to_felts_inj)

lemma asset_id_parts_inj:
  "genesis_ok g \<Longrightarrow> genesis_ok h \<Longrightarrow> asset_id_parts g = asset_id_parts h \<Longrightarrow> g = h"
  by (auto simp: asset_id_parts_def genesis_ok_def to_elems_eq_iff bytes_to_felts_eq_iff u64_to_felts_eq_iff
      intro: asset_genesis.equality)

lemma length_asset_id_parts: "genesis_ok g \<Longrightarrow> map length (asset_id_parts g) = [11, 1, 8, 3]"
  by (auto simp: asset_id_parts_def genesis_ok_def)

lemma coin_parts_inj: "coin_ok c \<Longrightarrow> coin_ok d \<Longrightarrow> coin_parts c = coin_parts d \<Longrightarrow> c = d"
  by (auto simp: coin_parts_def coin_ok_def to_elems_eq_iff u64_to_felts_eq_iff intro: coin.equality)

lemma length_coin_parts: "coin_ok c \<Longrightarrow> map length (coin_parts c) = [8, 3, 8, 8]"
  by (auto simp: coin_parts_def coin_ok_def)

lemma to_public_input_layout:
  "opening_sized opn \<Longrightarrow>
     to_public_input_bytes opn = op_asset_id opn @ to_le_bytes (op_value opn) @ op_owner opn @ op_randomness opn"
  by (simp add: to_public_input_bytes_def opening_sized_def copy_at_def)

lemma length_to_public_input [simp]: "opening_sized opn \<Longrightarrow> length (to_public_input_bytes opn) = 104"
  by (simp add: to_public_input_layout) (simp add: opening_sized_def)

lemma to_public_input_inj:
  "opening_sized opn \<Longrightarrow> opening_sized opn' \<Longrightarrow>
     to_public_input_bytes opn = to_public_input_bytes opn' \<longleftrightarrow> opn = opn'"
  by (auto simp: to_public_input_layout opening_sized_def append_eq_append_length to_le_bytes_inj
      intro: coin_opening.equality)

lemma mint_signing_message_inj:
  assumes "length a = 32" "length a' = 32"
  shows "mint_signing_message a v n = mint_signing_message a' v' n' \<longleftrightarrow> a = a' \<and> v = v' \<and> n = n'"
  using assms by (auto simp: mint_signing_message_def append_eq_append_length to_le_bytes_inj)

end
