(* ===== verification/Utf8.thy ===== *)
theory Utf8
  imports Prelude
begin

text \<open>
  Rust's \<open>String\<close>: a list of Unicode code points with its UTF-8 bytes, and the character tests
  of the standard library that the sources use.
\<close>

section \<open>Strings\<close>

type_synonym ustring = "nat list"

text \<open>A string literal of the source (ASCII).\<close>

definition lit :: "string \<Rightarrow> ustring" where
  "lit s = map of_char s"

fun utf8_char :: "nat \<Rightarrow> bytes" where
  "utf8_char c =
     (if c < 0x80 then [word_of_nat c]
      else if c < 0x800 then [word_of_nat (0xC0 + c div 64), word_of_nat (0x80 + c mod 64)]
      else if c < 0x10000 then
        [word_of_nat (0xE0 + c div 4096), word_of_nat (0x80 + c div 64 mod 64), word_of_nat (0x80 + c mod 64)]
      else
        [word_of_nat (0xF0 + c div 262144), word_of_nat (0x80 + c div 4096 mod 64),
         word_of_nat (0x80 + c div 64 mod 64), word_of_nat (0x80 + c mod 64)])"

declare utf8_char.simps [simp del]

definition as_bytes :: "ustring \<Rightarrow> bytes" where
  "as_bytes s = concat (map utf8_char s)"

definition valid_string :: "ustring \<Rightarrow> bool" where
  "valid_string s = list_all (\<lambda>c. c < 0x110000) s"

text \<open>\<open>char::is_whitespace\<close> (the White_Space property) and \<open>char::is_control\<close> (category Cc).\<close>

definition is_whitespace :: "nat \<Rightarrow> bool" where
  "is_whitespace c \<longleftrightarrow> 0x09 \<le> c \<and> c \<le> 0x0D \<or> c = 0x20 \<or> c = 0x85 \<or> c = 0xA0 \<or> c = 0x1680 \<or>
     0x2000 \<le> c \<and> c \<le> 0x200A \<or> c = 0x2028 \<or> c = 0x2029 \<or> c = 0x202F \<or> c = 0x205F \<or> c = 0x3000"

definition is_control :: "nat \<Rightarrow> bool" where
  "is_control c \<longleftrightarrow> c < 0x20 \<or> 0x7F \<le> c \<and> c < 0xA0"

definition trim :: "ustring \<Rightarrow> ustring" where
  "trim s = rev (dropWhile is_whitespace (rev (dropWhile is_whitespace s)))"

definition starts_with :: "'a list \<Rightarrow> 'a list \<Rightarrow> bool" where
  "starts_with p s = (take (length p) s = p)"

text \<open>The decimal rendering of an unsigned integer.\<close>

fun show_nat :: "nat \<Rightarrow> string" where
  "show_nat n =
     (if n < 10 then [char_of (48 + n)] else show_nat (n div 10) @ [char_of (48 + n mod 10)])"

declare show_nat.simps [simp del]

section \<open>Lemmas\<close>

lemma unat_byte: "x < 256 \<Longrightarrow> unat (word_of_nat x :: byte) = x"
  by (simp add: unat_of_nat)

lemma word_of_nat_byte_eq:
  "x < 256 \<Longrightarrow> y < 256 \<Longrightarrow> (word_of_nat x :: byte) = word_of_nat y \<longleftrightarrow> x = y"
  by (metis unat_byte)

text \<open>The lead byte tells the length of a sequence, and the bytes give the code point back.\<close>

lemma utf8_char_cases:
  assumes "c < 0x110000"
  obtains (one) "map unat (utf8_char c) = [c]" "c < 0x80"
  | (two) a b where "map unat (utf8_char c) = [0xC0 + a, 0x80 + b]"
      "a < 32" "b < 64" "c = a * 64 + b"
  | (three) a b d where "map unat (utf8_char c) = [0xE0 + a, 0x80 + b, 0x80 + d]"
      "a < 16" "b < 64" "d < 64" "c = (a * 64 + b) * 64 + d"
  | (four) a b d e where
      "map unat (utf8_char c) = [0xF0 + a, 0x80 + b, 0x80 + d, 0x80 + e]"
      "a < 8" "b < 64" "d < 64" "e < 64" "c = ((a * 64 + b) * 64 + d) * 64 + e"
proof -
  have d2: "c div 4096 = c div 64 div 64" "c div 262144 = c div 64 div 64 div 64"
    by (simp_all add: div_mult2_eq [symmetric])
  have r1: "c = c div 64 * 64 + c mod 64" by simp
  have r2: "c = (c div 4096 * 64 + c div 64 mod 64) * 64 + c mod 64"
    unfolding d2 by simp
  have r3: "c = ((c div 262144 * 64 + c div 4096 mod 64) * 64 + c div 64 mod 64) * 64 + c mod 64"
    unfolding d2 by simp
  consider "c < 0x80" | "\<not> c < 0x80" "c < 0x800" | "\<not> c < 0x80" "\<not> c < 0x800" "c < 0x10000"
    | "\<not> c < 0x80" "\<not> c < 0x800" "\<not> c < 0x10000" by blast
  then show thesis
  proof cases
    case 1
    then show ?thesis by (intro one) (simp_all add: utf8_char.simps unat_byte del: of_nat_add of_nat_numeral)
  next
    case 2
    then show ?thesis by (intro two [of "c div 64" "c mod 64", OF _ _ _ r1]) (simp_all add: utf8_char.simps unat_byte del: of_nat_add of_nat_numeral)
  next
    case 3
    then show ?thesis
      by (intro three [of "c div 4096" "c div 64 mod 64" "c mod 64", OF _ _ _ _ r2]) (simp_all add: utf8_char.simps unat_byte del: of_nat_add of_nat_numeral)
  next
    case 4
    with assms show ?thesis
      by (intro four [of "c div 262144" "c div 4096 mod 64" "c div 64 mod 64" "c mod 64", OF _ _ _ _ _ r3])
        (simp_all add: utf8_char.simps unat_byte del: of_nat_add of_nat_numeral)
  qed
qed

lemma utf8_char_prefix:
  assumes "c < 0x110000" "d < 0x110000" "utf8_char c @ xs = utf8_char d @ ys"
  shows "c = d \<and> xs = ys"
proof -
  have "map unat (utf8_char c) @ map unat xs = map unat (utf8_char d) @ map unat ys"
    using assms(3) by (metis map_append)
  then have "c = d"
    by (cases rule: utf8_char_cases [OF assms(1)]; cases rule: utf8_char_cases [OF assms(2)]) auto
  with assms(3) show ?thesis by simp
qed

lemma utf8_char_nonempty: "utf8_char c \<noteq> []"
  by (simp add: utf8_char.simps)

lemma as_bytes_inj:
  "valid_string s \<Longrightarrow> valid_string t \<Longrightarrow> as_bytes s = as_bytes t \<Longrightarrow> s = t"
proof (induction s arbitrary: t)
  case Nil
  then show ?case by (cases t) (auto simp: as_bytes_def utf8_char_nonempty)
next
  case (Cons c s)
  then obtain d t' where t: "t = d # t'"
    by (cases t) (auto simp: as_bytes_def utf8_char_nonempty)
  with Cons.prems have "c = d \<and> as_bytes s = as_bytes t'"
    by (intro utf8_char_prefix) (simp_all add: as_bytes_def valid_string_def)
  with Cons t show ?case by (simp add: valid_string_def)
qed

lemma as_bytes_ascii: "list_all (\<lambda>c. c < 0x80) s \<Longrightarrow> as_bytes s = map word_of_nat s"
  by (induction s) (auto simp: as_bytes_def utf8_char.simps)

section \<open>Decoding\<close>

text \<open>\<open>str::from_utf8\<close>: a character is the scalar value whose encoding the bytes start with.\<close>

definition is_scalar :: "nat \<Rightarrow> bool" where
  "is_scalar c \<longleftrightarrow> c < 0xD800 \<or> 0xE000 \<le> c \<and> c < 0x110000"

definition utf8_value :: "bytes \<Rightarrow> nat" where
  "utf8_value bs =
     (case map unat bs of
        [a] \<Rightarrow> a
      | [a, b] \<Rightarrow> a mod 32 * 64 + b mod 64
      | [a, b, c] \<Rightarrow> a mod 16 * 4096 + b mod 64 * 64 + c mod 64
      | [a, b, c, d] \<Rightarrow> a mod 8 * 262144 + b mod 64 * 4096 + c mod 64 * 64 + d mod 64
      | _ \<Rightarrow> 0)"

definition char_of_bytes :: "bytes \<Rightarrow> nat \<Rightarrow> (nat \<times> bytes) option" where
  "char_of_bytes bs n =
     (let c = utf8_value (take n bs) in if is_scalar c \<and> utf8_char c = take n bs then Some (c, drop n bs) else None)"

definition first_char :: "bytes \<Rightarrow> (nat \<times> bytes) option" where
  "first_char bs = find_map (char_of_bytes bs) [1, 2, 3, 4]"

lemma char_of_bytes_Some:
  assumes "char_of_bytes bs n = Some (c, rest)"
  shows "is_scalar c \<and> bs = utf8_char c @ rest"
proof -
  define d where "d = utf8_value (take n bs)"
  have "is_scalar d \<and> utf8_char d = take n bs \<and> (c, rest) = (d, drop n bs)"
    using assms unfolding char_of_bytes_def d_def [symmetric] Let_def by (simp split: if_splits)
  then have c: "is_scalar c" "utf8_char c = take n bs" "rest = drop n bs" by simp_all
  have "utf8_char c @ rest = bs" unfolding c(2,3) by (rule append_take_drop_id)
  with c(1) show ?thesis by simp
qed

lemma first_char_Some: "first_char bs = Some (c, rest) \<Longrightarrow> is_scalar c \<and> bs = utf8_char c @ rest"
  unfolding first_char_def by (drule find_map_Some) (auto simp only: dest: char_of_bytes_Some)

lemma first_char_shorter: "first_char bs = Some (c, rest) \<Longrightarrow> length rest < length bs"
  by (drule first_char_Some) (simp add: utf8_char_nonempty)

function from_utf8 :: "bytes \<Rightarrow> ustring option" where
  "from_utf8 bs =
     (if bs = [] then Some []
      else case first_char bs of None \<Rightarrow> None | Some (c, rest) \<Rightarrow> map_option (\<lambda>s. c # s) (from_utf8 rest))"
  by auto
termination by (relation "measure length") (auto simp: first_char_shorter)

declare from_utf8.simps [simp del]

lemma low_bits: "a < 2 ^ k \<Longrightarrow> (m * 2 ^ k + a) mod 2 ^ k = (a :: nat)"
  by simp

lemma utf8_value_char:
  assumes "c < 0x110000"
  shows "utf8_value (utf8_char c) = c"
  using assms
proof (cases rule: utf8_char_cases)
  case (two a b)
  moreover have "(0xC0 + a) mod 32 = a" "(0x80 + b) mod 64 = b" using two low_bits [of a 5 6] low_bits [of b 6 2] by simp_all
  ultimately show ?thesis by (simp add: utf8_value_def)
next
  case (three a b d)
  moreover have "(0xE0 + a) mod 16 = a" "(0x80 + b) mod 64 = b" "(0x80 + d) mod 64 = d"
    using three low_bits [of a 4 14] low_bits [of b 6 2] low_bits [of d 6 2] by simp_all
  ultimately show ?thesis by (simp add: utf8_value_def)
next
  case (four a b d e)
  moreover have "(0xF0 + a) mod 8 = a" "(0x80 + b) mod 64 = b" "(0x80 + d) mod 64 = d" "(0x80 + e) mod 64 = e"
    using four low_bits [of a 3 30] low_bits [of b 6 2] low_bits [of d 6 2] low_bits [of e 6 2] by simp_all
  ultimately show ?thesis by (simp add: utf8_value_def)
qed (simp add: utf8_value_def)

lemma first_char_append:
  assumes "is_scalar c"
  shows "first_char (utf8_char c @ xs) = Some (c, xs)"
proof -
  have c: "c < 0x110000" using assms by (auto simp: is_scalar_def)
  have only: "(d, rest) = (c, xs)" if "char_of_bytes (utf8_char c @ xs) n = Some (d, rest)" for n d rest
  proof -
    note s = char_of_bytes_Some [OF that]
    then have "d < 0x110000" by (auto simp: is_scalar_def)
    then show ?thesis using utf8_char_prefix [OF c, of d xs rest] s by auto
  qed
  have n: "length (utf8_char c) \<in> set [1, 2, 3, 4]" by (auto simp: utf8_char.simps)
  have "char_of_bytes (utf8_char c @ xs) (length (utf8_char c)) = Some (c, xs)"
    using assms c by (simp add: char_of_bytes_def utf8_value_char)
  then have "find_map (char_of_bytes (utf8_char c @ xs)) [1, 2, 3, 4] \<noteq> None"
    unfolding find_map_None using n by (metis option.distinct(1))
  then obtain p where p: "find_map (char_of_bytes (utf8_char c @ xs)) [1, 2, 3, 4] = Some p" by blast
  with only find_map_Some [OF p] show ?thesis unfolding first_char_def by (metis surj_pair)
qed

lemma from_utf8_as_bytes: "list_all is_scalar s \<Longrightarrow> from_utf8 (as_bytes s) = Some s"
proof (induction s)
  case Nil
  show ?case by (simp add: as_bytes_def from_utf8.simps)
next
  case (Cons c s)
  have "as_bytes (c # s) = utf8_char c @ as_bytes s" by (simp add: as_bytes_def)
  with Cons show ?case by (subst from_utf8.simps) (simp add: first_char_append utf8_char_nonempty)
qed

lemma is_scalar_ascii: "c < 128 \<Longrightarrow> is_scalar c"
  by (simp add: is_scalar_def)

end
