(* ===== verification/Instrument.thy ===== *)
theory Instrument
  imports Coin Utf8
begin

text \<open>
  Instrument terms and manifests, \<open>crates/opencsv-core/src/instrument.rs\<close>. An
  \<open>InstrumentError\<close> is its message.
\<close>

section \<open>Terms\<close>

type_synonym instrument_error = string

definition INSTRUMENT_TERMS_VERSION :: u32 where "INSTRUMENT_TERMS_VERSION = 1"
definition MAX_INSTRUMENT_DECIMALS :: u8 where "MAX_INSTRUMENT_DECIMALS = 18"
definition PREVIEW_USD_DECIMALS :: u8 where "PREVIEW_USD_DECIMALS = 6"

record instrument_terms =
  version :: u32
  network :: ustring
  display_name :: ustring
  unit_code :: ustring
  decimals :: u8
  issuer_name :: ustring
  terms_uri :: ustring
  redemption_summary :: ustring
  test_only :: bool

definition preview_usd_terms :: "ustring \<Rightarrow> instrument_error + instrument_terms" where
  "preview_usd_terms net =
     (if \<not> (net = lit ''signet'' \<or> net = lit ''regtest'') then
        Inl ''OpenCSV Test USD v2 is available only on signet or regtest''
      else Inr
       \<lparr>version = INSTRUMENT_TERMS_VERSION, network = net,
        display_name = lit ''OpenCSV Test USD v2'', unit_code = lit ''USD'',
        decimals = PREVIEW_USD_DECIMALS, issuer_name = lit ''OpenCSV Test Issuer v2'',
        terms_uri = lit ''https://opencsv.net/usd-preview/terms-v2'',
        redemption_summary =
          lit ''Test USD v2 has no monetary value and is not redeemable for dollars or USDT.'',
        test_only = True\<rparr>)"

definition validate_text :: "string \<Rightarrow> ustring \<Rightarrow> nat \<Rightarrow> nat \<Rightarrow> instrument_error + unit" where
  "validate_text field value minimum maximum =
     (if \<not> (minimum \<le> length (as_bytes value) \<and> length (as_bytes value) \<le> maximum) then
        Inl (field @ '' must be '' @ show_nat minimum @ ''..='' @ show_nat maximum @ '' UTF-8 bytes'')
      else if trim value \<noteq> value \<or> list_ex is_control value then
        Inl (field @ '' must not contain surrounding whitespace or control characters'')
      else Inr ())"

definition is_ascii_uppercase :: "byte \<Rightarrow> bool" where
  "is_ascii_uppercase b = (0x41 \<le> b \<and> b \<le> 0x5A)"

definition validate_terms :: "instrument_terms \<Rightarrow> instrument_error + unit" where
  "validate_terms t =
     and_then (ensure (version t = INSTRUMENT_TERMS_VERSION) ''unsupported instrument terms version'') (\<lambda>_.
     and_then (ensure (network t = lit ''mainnet'' \<or> network t = lit ''signet'' \<or> network t = lit ''regtest'')
                 ''network must be mainnet, signet, or regtest'') (\<lambda>_.
     and_then (validate_text ''display name'' (display_name t) 1 96) (\<lambda>_.
     and_then (validate_text ''issuer name'' (issuer_name t) 1 160) (\<lambda>_.
     and_then (validate_text ''redemption summary'' (redemption_summary t) 1 512) (\<lambda>_.
     and_then (ensure (\<not> (length (as_bytes (unit_code t)) \<noteq> 3 \<or>
                          \<not> list_all is_ascii_uppercase (as_bytes (unit_code t))))
                 ''unit code must be exactly three uppercase ASCII letters'') (\<lambda>_.
     and_then (ensure (\<not> decimals t > MAX_INSTRUMENT_DECIMALS) ''instrument decimals exceed 18'') (\<lambda>_.
     and_then (validate_text ''terms URI'' (terms_uri t) 1 512) (\<lambda>_.
     and_then (ensure (starts_with (lit ''https://'') (terms_uri t)) ''terms URI must use HTTPS'') (\<lambda>_.
     and_then (ensure (\<not> (network t = lit ''mainnet'' \<and> test_only t))
                 ''a mainnet instrument cannot be marked test-only'') (\<lambda>_.
     and_then (ensure (\<not> (network t \<noteq> lit ''mainnet'' \<and> \<not> test_only t))
                 ''signet and regtest instruments must be marked test-only'') (\<lambda>_.
     Inr ())))))))))))"

definition push_text :: "bytes \<Rightarrow> ustring \<Rightarrow> bytes" where
  "push_text output value =
     output @ to_be_bytes (word_of_nat (length (as_bytes value)) :: u32) @ as_bytes value"

definition canonical_bytes :: "instrument_terms \<Rightarrow> bytes" where
  "canonical_bytes t =
     (let bs = [] @ to_be_bytes (version t);
          bs = push_text bs (network t);
          bs = push_text bs (display_name t);
          bs = push_text bs (unit_code t);
          bs = bs @ [decimals t];
          bs = push_text bs (issuer_name t);
          bs = push_text bs (terms_uri t);
          bs = push_text bs (redemption_summary t)
      in bs @ [of_bool (test_only t)])"

definition instrument_terms_hash :: "sponge \<Rightarrow> instrument_terms \<Rightarrow> instrument_error + digest" where
  "instrument_terms_hash sp t =
     and_then (validate_terms t) (\<lambda>_.
       let encoded = canonical_bytes t in
       Inr (hash_felts sp ''OpenCSV-instrument-terms-v1'' [bytes_to_felts encoded]))"

section \<open>Manifests\<close>

record instrument_manifest =
  manifest_terms :: instrument_terms
  manifest_genesis :: asset_genesis

definition validate_manifest :: "sponge \<Rightarrow> instrument_manifest \<Rightarrow> instrument_error + unit" where
  "validate_manifest sp m =
     (let code = as_bytes (unit_code (manifest_terms m)) in
      if length code \<noteq> 3 then Inl ''unit code is not three bytes''
      else if currency_code (manifest_genesis m) \<noteq> code then
        Inl ''manifest unit code does not match asset genesis''
      else
        and_then (instrument_terms_hash sp (manifest_terms m)) (\<lambda>h.
          if terms_hash (manifest_genesis m) \<noteq> h then
            Inl ''manifest terms do not match the genesis terms hash''
          else Inr ()))"

section \<open>The canonical encoding is self-delimiting\<close>

definition framed :: "ustring \<Rightarrow> bytes" where
  "framed s = to_be_bytes (word_of_nat (length (as_bytes s)) :: u32) @ as_bytes s"

lemma push_text_framed: "push_text out s = out @ framed s"
  by (simp add: push_text_def framed_def)

definition text_ok :: "ustring \<Rightarrow> bool" where
  "text_ok s \<longleftrightarrow> valid_string s \<and> length (as_bytes s) < 2 ^ 32"

definition terms_sized :: "instrument_terms \<Rightarrow> bool" where
  "terms_sized t \<longleftrightarrow> list_all text_ok [network t, display_name t, unit_code t, issuer_name t, terms_uri t,
     redemption_summary t]"

lemma unat_u32: "n < 2 ^ 32 \<Longrightarrow> unat (word_of_nat n :: u32) = n"
  by (simp add: unat_of_nat)

lemma framed_prefix:
  assumes "text_ok s" "text_ok t" "framed s @ xs = framed t @ ys"
  shows "s = t \<and> xs = ys"
proof -
  have "(word_of_nat (length (as_bytes s)) :: u32) = word_of_nat (length (as_bytes t))"
    using assms(3) by (simp add: framed_def append_eq_append_length to_be_bytes_inj_u32)
  then have "length (as_bytes s) = length (as_bytes t)"
    using assms(1,2) unat_u32 by (metis text_ok_def)
  with assms show ?thesis
    by (auto simp: framed_def append_eq_append_length text_ok_def intro: as_bytes_inj)
qed

lemma canonical_bytes_eq:
  "canonical_bytes t = to_be_bytes (version t) @ framed (network t) @ framed (display_name t) @
     framed (unit_code t) @ [decimals t] @ framed (issuer_name t) @ framed (terms_uri t) @
     framed (redemption_summary t) @ [of_bool (test_only t)]"
  by (simp add: canonical_bytes_def push_text_framed Let_def)

lemma framed_step:
  "text_ok s \<Longrightarrow> text_ok t \<Longrightarrow> framed s @ xs = framed t @ ys \<longleftrightarrow> s = t \<and> xs = ys"
  using framed_prefix by blast

lemma canonical_bytes_prefix:
  assumes "terms_sized t" "terms_sized u" "canonical_bytes t @ xs = canonical_bytes u @ ys"
  shows "t = u \<and> xs = ys"
  using assms
  by (simp add: canonical_bytes_eq terms_sized_def append_eq_append_length to_be_bytes_inj_u32 framed_step
      instrument_terms.equality split: split_of_bool_asm)

text \<open>Three bytes per element, zero padded: the padding does not confuse a self-delimiting code.\<close>

lemma pad3: "n + (3 - n mod 3) mod 3 = 3 * ((n + 2) div 3)" for n :: nat
proof -
  define q r where "q = n div 3" and "r = n mod 3"
  then have "n = r + q * 3" "r = 0 \<or> r = 1 \<or> r = 2" by auto
  then show ?thesis by auto
qed

lemma map_le_val_chunks_pad:
  "k = (3 - length z mod 3) mod 3 \<Longrightarrow>
     map le_val (chunks 3 (z @ replicate k 0)) = map le_val (chunks 3 z)"
proof (induction "3::nat" z rule: chunks.induct)
  case (1 z)
  show ?case
  proof (cases "z = []")
    case False
    show ?thesis
    proof (cases "length z \<le> 3")
      case True
      then have "length (z @ replicate k (0::byte)) = 3"
      proof -
        have "(length z + 2) div 3 = 1" using True False by (cases z) auto
        with 1(2) pad3 [of "length z"] show ?thesis by simp
      qed
      then have "chunks 3 (z @ replicate k 0) = [z @ replicate k 0]"
        using False by (subst chunks_step) simp_all
      moreover have "chunks 3 z = [z]" using True False by (simp add: chunks_step)
      ultimately show ?thesis by (simp add: le_val_append)
    next
      case False
      moreover from this have "(3 - length (drop 3 z) mod 3) mod 3 = k"
        using 1(2) le_mod_geq [of 3 "length z"] by simp
      ultimately show ?thesis
        using 1(1) \<open>z \<noteq> []\<close> by (simp add: chunks_step)
    qed
  qed (use 1 in simp)
qed

lemma bytes_to_felts_padding:
  assumes "bytes_to_felts x = bytes_to_felts y"
  obtains p q where "x @ p = y @ q"
proof -
  define pad where "pad z = z @ replicate ((3 - length z mod 3) mod 3) (0::byte)" for z
  have felts: "bytes_to_felts (pad z) = bytes_to_felts z" for z
    unfolding pad_def bytes_to_felts_eq by (rule map_le_val_chunks_pad) simp
  have "length (pad z) = 3 * length (bytes_to_felts z)" for z
    using pad3 by (simp add: pad_def)
  with assms have "length (pad x) = length (pad y)" by metis
  with assms felts have "pad x = pad y" by (intro bytes_to_felts_inj) simp_all
  then show thesis unfolding pad_def by (rule that)
qed

end
