(* ===== verification/Hash_Roles.thy ===== *)
theory Hash_Roles
  imports Instrument
begin

text \<open>
  Every protocol hash of \<open>opencsv-core\<close> as one query type, and the proof that the element
  sequences the sponge absorbs are pairwise different across all roles and all field values:
  the domain labels, the length prefix and the fixed-width encodings leave no two statements
  of the protocol with the same input.
\<close>

section \<open>Queries\<close>

datatype hash_query =
    QCoin coin
  | QNull owner_secret digest
  | QOwner owner_secret
  | QAsset asset_genesis
  | QIssuer bytes
  | QMint digest u64 digest
  | QXfer "digest list"
  | QBind digest ctx
  | QBatch "truncated_digest list" ctx
  | QBatchV2 "truncated_digest list" ctx
  | QTerms instrument_terms

text \<open>The digest the code computes for a query.\<close>

fun query_hash :: "sponge \<Rightarrow> hash_query \<Rightarrow> digest" where
  "query_hash sp (QCoin c) = commitment sp c"
| "query_hash sp (QNull osk c) = nullifier sp osk c"
| "query_hash sp (QOwner osk) = owner sp osk"
| "query_hash sp (QAsset g) = asset_id sp g"
| "query_hash sp (QIssuer seed) = public_key sp seed"
| "query_hash sp (QMint a v n) = mint_commit sp a v n"
| "query_hash sp (QXfer nfs) = nullifier_commit sp nfs"
| "query_hash sp (QBind nf c) = binding sp nf c"
| "query_hash sp (QBatch ps c) = batch_commit sp ps c"
| "query_hash sp (QBatchV2 ps c) = batch_commit_v2 sp ps c"
| "query_hash sp (QTerms t) = (case instrument_terms_hash sp t of Inl _ \<Rightarrow> [] | Inr h \<Rightarrow> h)"

text \<open>The typing the Rust code gives the arguments: array sizes and canonical digests.\<close>

fun query_ok :: "hash_query \<Rightarrow> bool" where
  "query_ok (QCoin c) = coin_ok c"
| "query_ok (QNull osk c) = (length osk = 32 \<and> digest_ok c)"
| "query_ok (QOwner osk) = (length osk = 32)"
| "query_ok (QAsset g) = genesis_ok g"
| "query_ok (QIssuer seed) = (length seed = 32)"
| "query_ok (QMint a v n) = (digest_ok a \<and> digest_ok n)"
| "query_ok (QXfer nfs) = list_all digest_ok nfs"
| "query_ok (QBind nf c) = (digest_ok nf \<and> length c = 32)"
| "query_ok (QBatch ps c) = (list_all (\<lambda>p. length p = 24) ps \<and> length c = 32)"
| "query_ok (QBatchV2 ps c) = (list_all (\<lambda>p. length p = 24) ps \<and> length c = 32)"
| "query_ok (QTerms t) = (terms_sized t \<and> validate_terms t = Inr ())"

fun query_domain :: "hash_query \<Rightarrow> string" where
  "query_domain (QCoin c) = ''coin''"
| "query_domain (QNull osk c) = ''null''"
| "query_domain (QOwner osk) = ''''"
| "query_domain (QAsset g) = ''OpenCSV-asset''"
| "query_domain (QIssuer seed) = ''issuer-key-v1''"
| "query_domain (QMint a v n) = ''mint''"
| "query_domain (QXfer nfs) = ''xfer''"
| "query_domain (QBind nf c) = ''bind''"
| "query_domain (QBatch ps c) = ''batch''"
| "query_domain (QBatchV2 ps c) = ''batch-v2''"
| "query_domain (QTerms t) = ''OpenCSV-instrument-terms-v1''"

fun query_parts :: "hash_query \<Rightarrow> felt list list" where
  "query_parts (QCoin c) = coin_parts c"
| "query_parts (QNull osk c) = [bytes_to_felts osk, to_elems c]"
| "query_parts (QOwner osk) = [bytes_to_felts osk]"
| "query_parts (QAsset g) = asset_id_parts g"
| "query_parts (QIssuer seed) = [bytes_to_felts seed]"
| "query_parts (QMint a v n) = [to_elems a, u64_to_felts v, to_elems n]"
| "query_parts (QXfer nfs) = [concat (map to_elems nfs)]"
| "query_parts (QBind nf c) = [to_elems nf, bytes_to_felts c]"
| "query_parts (QBatch ps c) = [bytes_to_felts (concat ps), bytes_to_felts c]"
| "query_parts (QBatchV2 ps c) = [bytes_to_felts (concat ps), bytes_to_felts c]"
| "query_parts (QTerms t) = [bytes_to_felts (canonical_bytes t)]"

definition query_input :: "hash_query \<Rightarrow> felt list" where
  "query_input q = hash_input (query_domain q) (query_parts q)"

lemma query_hash_input:
  assumes "sponge_ok sp" "query_ok q"
  shows "query_hash sp q = from_elems (sp (query_input q))"
  using assms
  by (cases q)
    (auto simp: query_input_def hash_felts_def [symmetric] commitment_def nullifier_def owner_def
      asset_id_def public_key_def POSEIDON_ISSUER_KEY_DOMAIN_def mint_commit_def nullifier_commit_def
      binding_def hash_bind_eq batch_commit_def hash_batch_eq batch_commit_v2_def instrument_terms_hash_def
      Let_def)

section \<open>Shapes of the absorbed input\<close>

definition domain_mark :: "string \<Rightarrow> nat \<Rightarrow> felt" where
  "domain_mark d i = bytes_to_felts (str_bytes d) ! i"

lemma input_mark:
  "i < (length d + 2) div 3 \<Longrightarrow> hash_input d ps ! Suc i = domain_mark d i"
  by (simp add: hash_input_def Let_def domain_mark_def nth_append str_bytes_def)

lemma domain_marks:
  "domain_mark ''coin'' 0 = 0x696f63" "domain_mark ''null'' 0 = 0x6c756e" "domain_mark ''mint'' 0 = 0x6e696d"
  "domain_mark ''xfer'' 0 = 0x656678" "domain_mark ''bind'' 0 = 0x6e6962" "domain_mark ''batch'' 0 = 0x746162"
  "domain_mark ''batch-v2'' 0 = 0x746162" "domain_mark ''issuer-key-v1'' 0 = 0x737369"
  "domain_mark ''OpenCSV-asset'' 0 = 0x65704f" "domain_mark ''OpenCSV-instrument-terms-v1'' 0 = 0x65704f"
  "domain_mark ''OpenCSV-asset'' 2 = 0x612d56" "domain_mark ''OpenCSV-instrument-terms-v1'' 2 = 0x692d56"
  by (simp_all add: domain_mark_def bytes_to_felts_eq str_bytes_def chunks_step)

lemma sum_length_24: "list_all (\<lambda>p. length p = 24) ps \<Longrightarrow> length (concat ps) = 24 * length ps"
  by (induction ps) auto

lemma sum_length_elems: "list_all digest_ok nfs \<Longrightarrow> length (concat (map to_elems nfs)) = 8 * length nfs"
  by (induction nfs) auto

text \<open>A valid terms encoding has at least 51 bytes, so its input is longer than an owner's.\<close>

lemma validated_terms:
  assumes "validate_terms t = Inr ()"
  shows "1 \<le> length (as_bytes (display_name t))" "3 = length (as_bytes (unit_code t))"
    "1 \<le> length (as_bytes (issuer_name t))" "1 \<le> length (as_bytes (terms_uri t))"
    "1 \<le> length (as_bytes (redemption_summary t))"
  using assms by (auto simp: validate_terms_def and_then_Inr validate_text_def split: if_splits)

lemma length_canonical_bytes:
  "validate_terms t = Inr () \<Longrightarrow> 37 \<le> length (canonical_bytes t)"
  using validated_terms [of t] by (simp add: canonical_bytes_eq framed_def)

fun query_len :: "hash_query \<Rightarrow> nat" where
  "query_len (QCoin c) = 29"
| "query_len (QNull osk c) = 21"
| "query_len (QOwner osk) = 11"
| "query_len (QAsset g) = 28"
| "query_len (QIssuer seed) = 16"
| "query_len (QMint a v n) = 21"
| "query_len (QXfer nfs) = 2 + 8 * length nfs"
| "query_len (QBind nf c) = 21"
| "query_len (QBatch ps c) = 13 + 8 * length ps"
| "query_len (QBatchV2 ps c) = 14 + 8 * length ps"
| "query_len (QTerms t) = 9 + (length (canonical_bytes t) + 2) div 3"

lemma length_query_input: "query_ok q \<Longrightarrow> length (query_input q) = Suc (query_len q)"
  unfolding query_input_def
  by (cases q) (auto simp: length_hash_input length_coin_parts length_asset_id_parts
      sum_length_elems sum_length_24)

fun query_kind :: "hash_query \<Rightarrow> nat" where
  "query_kind (QCoin c) = 0"
| "query_kind (QNull osk c) = 1"
| "query_kind (QOwner osk) = 2"
| "query_kind (QAsset g) = 3"
| "query_kind (QIssuer seed) = 4"
| "query_kind (QMint a v n) = 5"
| "query_kind (QXfer nfs) = 6"
| "query_kind (QBind nf c) = 7"
| "query_kind (QBatch ps c) = 8"
| "query_kind (QBatchV2 ps c) = 9"
| "query_kind (QTerms t) = 10"

lemma query_owner_only:
  assumes "query_ok q" "query_len q = 11"
  shows "query_kind q = 2"
proof (cases q)
  case (QTerms t)
  with assms have "37 \<le> length (canonical_bytes t)" "(length (canonical_bytes t) + 2) div 3 = 2"
    by (auto dest: length_canonical_bytes)
  then show ?thesis by linarith
qed (use assms in \<open>auto; presburger\<close>)+

lemma query_first_mark:
  "query_kind q \<noteq> 2 \<Longrightarrow> query_input q ! 1 = domain_mark (query_domain q) 0"
  unfolding query_input_def One_nat_def by (rule input_mark) (cases q; simp)

lemma query_third_mark:
  "query_kind q = 3 \<or> query_kind q = 10 \<Longrightarrow> query_input q ! 3 = domain_mark (query_domain q) 2"
  unfolding query_input_def numeral_3_eq_3 by (subst input_mark) (cases q; simp add: numeral_2_eq_2)+

lemma query_kind_eq:
  assumes ok: "query_ok q" "query_ok q'" and eq: "query_input q = query_input q'"
  shows "query_kind q = query_kind q'"
proof -
  have len: "query_len q = query_len q'"
    using ok eq length_query_input by (metis nat.inject)
  show ?thesis
  proof (cases "query_kind q = 2 \<or> query_kind q' = 2")
    case True
    then have "query_len q = 11" using len by (cases q; cases q'; simp)
    with ok len show ?thesis using query_owner_only by metis
  next
    case False
    then have m: "domain_mark (query_domain q) 0 = domain_mark (query_domain q') 0"
      using eq query_first_mark by metis
    have "query_kind q = 3 \<or> query_kind q = 10 \<Longrightarrow> query_kind q' = 3 \<or> query_kind q' = 10 \<Longrightarrow>
        domain_mark (query_domain q) 2 = domain_mark (query_domain q') 2"
      using eq query_third_mark by metis
    with False m len show ?thesis
      by (cases q; cases q'; simp add: domain_marks; presburger)
  qed
qed

lemma concat_24_inj:
  assumes "list_all (\<lambda>p. length p = 24) ps" "list_all (\<lambda>p. length p = 24) qs" "concat ps = concat qs"
  shows "ps = qs"
proof (rule concat_injective [OF assms(3)])
  show "length ps = length qs" using assms sum_length_24 by (metis mult_cancel_left zero_neq_numeral)
  then show "\<forall>(x, y) \<in> set (zip ps qs). length x = length y"
    using assms(1,2) by (auto simp: list_all_length set_zip)
qed

lemma map_elems_inj:
  assumes "list_all digest_ok xs" "list_all digest_ok ys" "concat (map to_elems xs) = concat (map to_elems ys)"
  shows "xs = ys"
proof -
  have len: "length xs = length ys" using assms sum_length_elems by (metis mult_cancel_left zero_neq_numeral)
  have "map to_elems xs = map to_elems ys"
  proof (rule concat_injective [OF assms(3)])
    show "\<forall>(x, y) \<in> set (zip (map to_elems xs) (map to_elems ys)). length x = length y"
      using assms(1,2) len by (auto simp: list_all_length set_zip)
  qed (simp add: len)
  with len assms(1,2) show ?thesis
    by (induction xs ys rule: list_induct2) (auto simp: to_elems_eq_iff)
qed

lemma query_parts_inj:
  assumes "query_ok q" "query_ok q'" "query_kind q = query_kind q'" "query_input q = query_input q'"
  shows "q = q'"
proof -
  have dom: "query_domain q = query_domain q'" using assms(3) by (cases q; cases q'; simp)
  have cat: "concat (query_parts q) = concat (query_parts q')"
    using assms(4) dom by (simp add: query_input_def hash_input_def Let_def)
  have parts: "query_parts q = query_parts q'" if "map length (query_parts q) = map length (query_parts q')"
    using assms(4) dom that unfolding query_input_def by (metis hash_input_parts_inj)
  have len: "query_len q = query_len q'"
    using assms(1,2,4) length_query_input by (metis nat.inject)
  show ?thesis
  proof (cases q)
    case (QTerms t)
    with assms(3) obtain t' where q': "q' = QTerms t'" by (cases q') auto
    with QTerms cat have "bytes_to_felts (canonical_bytes t) = bytes_to_felts (canonical_bytes t')" by simp
    then obtain x y where "canonical_bytes t @ x = canonical_bytes t' @ y" by (rule bytes_to_felts_padding)
    with canonical_bytes_prefix assms QTerms q' show ?thesis by auto
  next
    case (QXfer nfs)
    with assms cat show ?thesis by (cases q') (auto intro: map_elems_inj)
  next
    case (QBatch ps c)
    with assms(3) obtain ps' c' where q': "q' = QBatch ps' c'" by (cases q') auto
    with QBatch parts len assms have "bytes_to_felts (concat ps) = bytes_to_felts (concat ps')"
      "bytes_to_felts c = bytes_to_felts c'" by (simp_all add: sum_length_24)
    with QBatch q' len assms show ?thesis
      by (simp add: bytes_to_felts_eq_iff sum_length_24) (blast intro: concat_24_inj)
  next
    case (QBatchV2 ps c)
    with assms(3) obtain ps' c' where q': "q' = QBatchV2 ps' c'" by (cases q') auto
    with QBatchV2 parts len assms have "bytes_to_felts (concat ps) = bytes_to_felts (concat ps')"
      "bytes_to_felts c = bytes_to_felts c'" by (simp_all add: sum_length_24)
    with QBatchV2 q' len assms show ?thesis
      by (simp add: bytes_to_felts_eq_iff sum_length_24) (blast intro: concat_24_inj)
  qed (use assms parts in \<open>cases q'; auto simp: length_coin_parts length_asset_id_parts digest_okD to_elems_eq_iff
        bytes_to_felts_eq_iff u64_to_felts_eq_iff intro: coin_parts_inj asset_id_parts_inj\<close>)+
qed

lemma query_hash_cases:
  assumes "sponge_ok sp" "query_ok q" "query_ok q'" "query_hash sp q = query_hash sp q'"
  shows "q = q' \<or> query_input q \<noteq> query_input q' \<and> sp (query_input q) = sp (query_input q')"
proof -
  have "sp (query_input q) = sp (query_input q')"
  proof -
    have "to_elems (from_elems (sp (query_input q))) = to_elems (from_elems (sp (query_input q')))"
      using assms query_hash_input by metis
    then show ?thesis using assms(1) by (simp add: to_from_elems sponge_ok_def)
  qed
  then show ?thesis using assms query_kind_eq query_parts_inj by blast
qed

section \<open>Properties\<close>

text \<open>
  Claim C3. One binding statement for every hash of the protocol (coin commitments,
  nullifiers, owner keys, asset ids, issuer keys, mint commitments, nullifier lists, payload
  bindings, both batch commitments and instrument terms): equal digests mean the same role and the
  same arguments, or an explicit collision of the sponge on two different absorbed inputs.
\<close>
theorem protocol_hash_binding:
  assumes "sponge_ok sp" "query_ok q" "query_ok q'" "query_hash sp q = query_hash sp q'"
  shows "q = q' \<or> query_input q \<noteq> query_input q' \<and> sp (query_input q) = sp (query_input q')"
  using assms by (rule query_hash_cases)

theorem protocol_hash_binding_witness:
  "query_input (QOwner (replicate 32 0)) \<noteq> query_input (QIssuer (replicate 32 0)) \<and>
   zero_sponge (query_input (QOwner (replicate 32 0))) = zero_sponge (query_input (QIssuer (replicate 32 0)))"
  using protocol_hash_binding [of zero_sponge "QOwner (replicate 32 0)" "QIssuer (replicate 32 0)"]
  by (simp add: owner_def public_key_def hash_felts_def zero_sponge_def)

text \<open>
  A genesis pins its human terms: two manifests that validate against the same
  asset id carry the same genesis and the same terms field for field (version, network, names,
  unit, decimals, URI, redemption text, test flag), or they exhibit a sponge collision.
\<close>
theorem manifest_pins_terms:
  assumes "sponge_ok sp"
    and "validate_manifest sp m = Inr ()" "validate_manifest sp m' = Inr ()"
    and "terms_sized (manifest_terms m)" "terms_sized (manifest_terms m')"
    and "length (issuer_pk (manifest_genesis m)) = 32" "length (issuer_pk (manifest_genesis m')) = 32"
    and "asset_id sp (manifest_genesis m) = asset_id sp (manifest_genesis m')"
  shows "m = m' \<or> (\<exists>x y. x \<noteq> y \<and> sp x = sp y)"
proof (cases "\<exists>x y. x \<noteq> y \<and> sp x = sp y")
  case False
  have h: "instrument_terms_hash sp (manifest_terms k) = Inr (terms_hash (manifest_genesis k))"
    "length (currency_code (manifest_genesis k)) = 3"
    if "validate_manifest sp k = Inr ()" for k
    using that by (auto simp: validate_manifest_def Let_def and_then_Inr split: if_splits)
  have v: "validate_terms (manifest_terms k) = Inr ()" "digest_ok (terms_hash (manifest_genesis k))"
    if "validate_manifest sp k = Inr ()" for k
    using h(1) [OF that] assms(1) digest_ok_hash
    by (auto simp: instrument_terms_hash_def and_then_Inr Let_def simp del: digest_ok_hash) metis
  have "QAsset (manifest_genesis m) = QAsset (manifest_genesis m')"
    using query_hash_cases [of sp "QAsset (manifest_genesis m)" "QAsset (manifest_genesis m')"]
      assms h(2) v(2) False by (auto simp: genesis_ok_def)
  then have g: "manifest_genesis m = manifest_genesis m'" by simp
  have "QTerms (manifest_terms m) = QTerms (manifest_terms m')"
    using query_hash_cases [of sp "QTerms (manifest_terms m)" "QTerms (manifest_terms m')"]
      assms h(1) v(1) g False by auto
  with g show ?thesis by (auto intro: instrument_manifest.equality)
qed simp

definition usd_manifest :: "u64 \<Rightarrow> instrument_manifest" where
  "usd_manifest n =
     \<lparr>manifest_terms = projr (preview_usd_terms (lit ''signet'')),
      manifest_genesis =
        \<lparr>issuer_pk = replicate 32 7, currency_code = [0x55, 0x53, 0x44], terms_hash = replicate 32 0, nonce = n\<rparr>\<rparr>"

lemma preview_terms_valid:
  "net \<in> {lit ''signet'', lit ''regtest''} \<Longrightarrow> validate_terms (projr (preview_usd_terms net)) = Inr ()"
  by (auto simp: preview_usd_terms_def validate_terms_def validate_text_def as_bytes_ascii lit_def trim_def
      is_whitespace_def is_control_def starts_with_def INSTRUMENT_TERMS_VERSION_def PREVIEW_USD_DECIMALS_def
      MAX_INSTRUMENT_DECIMALS_def is_ascii_uppercase_def)

lemma usd_manifest_valid: "validate_manifest zero_sponge (usd_manifest n) = Inr ()"
proof -
  have code: "as_bytes (unit_code (manifest_terms (usd_manifest n))) = [0x55, 0x53, 0x44]"
    by (simp add: usd_manifest_def preview_usd_terms_def lit_def as_bytes_ascii)
  have "instrument_terms_hash zero_sponge (manifest_terms (usd_manifest n)) = Inr (replicate 32 0)"
    using preview_terms_valid [of "lit ''signet''"]
    by (simp add: instrument_terms_hash_def usd_manifest_def hash_felts_def zero_sponge_def from_elems_zero)
  with code show ?thesis by (simp add: validate_manifest_def usd_manifest_def)
qed

theorem manifest_pins_terms_witness:
  "\<exists>x y. x \<noteq> y \<and> zero_sponge x = zero_sponge y"
proof -
  have "terms_sized (manifest_terms (usd_manifest n))" for n
    by (simp add: usd_manifest_def preview_usd_terms_def lit_def as_bytes_ascii terms_sized_def text_ok_def
        valid_string_def)
  moreover have "asset_id zero_sponge (manifest_genesis (usd_manifest 1)) =
      asset_id zero_sponge (manifest_genesis (usd_manifest 2))"
    by (simp add: asset_id_def hash_felts_def zero_sponge_def)
  moreover have "usd_manifest 1 \<noteq> usd_manifest 2" by (simp add: usd_manifest_def)
  ultimately show ?thesis
    using manifest_pins_terms [of zero_sponge "usd_manifest 1" "usd_manifest 2"] usd_manifest_valid
    by (simp add: usd_manifest_def)
qed

text \<open>
  The built-in preview instrument is offered on signet and regtest only, and the
  terms it returns always pass the validator, are marked test-only and name that network.
\<close>
theorem preview_usd_terms_valid:
  "preview_usd_terms net = Inr t \<longleftrightarrow>
     net \<in> {lit ''signet'', lit ''regtest''} \<and> t = projr (preview_usd_terms net) \<and>
     validate_terms t = Inr () \<and> test_only t \<and> network t = net"
  using preview_terms_valid [of net] by (auto simp: preview_usd_terms_def)

end
