(* ===== verification/Chain.thy ===== *)
theory Chain
  imports Coin
begin

text \<open>
  The anchor chain seam, \<open>crates/opencsv-core/src/chain.rs\<close>, the supply audit over it
  (\<open>audit.rs\<close>) and the kernel adapters of \<open>kernel.rs\<close>. The trait \<open>AnchorChain\<close> is a record
  of its query functions; a value of the trait type is one snapshot of a backend. The random
  transaction context of \<open>MockAnchorChain::append\<close> is an argument.
\<close>

section \<open>Locations\<close>

record anchor_location =
  al_height :: u64
  al_position :: u32

record anchor_ref =
  ar_txid :: bytes
  ar_location :: anchor_location

text \<open>The derived \<open>Ord\<close>: height first, then position.\<close>

instantiation anchor_location_ext :: (linorder) linorder
begin

definition less_eq_anchor_location_ext :: "'a anchor_location_scheme \<Rightarrow> 'a anchor_location_scheme \<Rightarrow> bool" where
  "less_eq_anchor_location_ext a b \<longleftrightarrow> al_height a < al_height b \<or>
     al_height a = al_height b \<and> (al_position a < al_position b \<or>
       al_position a = al_position b \<and> anchor_location.more a \<le> anchor_location.more b)"

definition less_anchor_location_ext :: "'a anchor_location_scheme \<Rightarrow> 'a anchor_location_scheme \<Rightarrow> bool" where
  "less_anchor_location_ext a b \<longleftrightarrow> al_height a < al_height b \<or>
     al_height a = al_height b \<and> (al_position a < al_position b \<or>
       al_position a = al_position b \<and> anchor_location.more a < anchor_location.more b)"

instance
  by intro_classes
    (auto simp: less_eq_anchor_location_ext_def less_anchor_location_ext_def intro: anchor_location.equality)

end

lemma location_less_iff:
  "(a :: anchor_location) < b \<longleftrightarrow> al_height a < al_height b \<or>
     al_height a = al_height b \<and> al_position a < al_position b"
  by (auto simp: less_anchor_location_ext_def)

text \<open>\<open>kernel::location\<close> and \<open>kernel::anchors\<close>.\<close>

definition k_location :: "anchor_location \<Rightarrow> location" where
  "k_location l = \<lparr>height = al_height l, position = al_position l\<rparr>"

definition k_anchors :: "(anchor_location \<times> anchor_record) list \<Rightarrow> (location \<times> k_record) list" where
  "k_anchors anchors = map (\<lambda>(l, r). (k_location l, to_k_record r)) anchors"

section \<open>The chain interface\<close>

record anchor_chain =
  tip_height :: u64
  anchor_at :: "anchor_ref \<Rightarrow> anchor_record option"
  proof_record_at :: "anchor_ref \<Rightarrow> digest list \<Rightarrow> anchor_record option"
  ctx_at :: "anchor_ref \<Rightarrow> ctx option"
  locate :: "anchor_ref \<Rightarrow> anchor_location option"
  first_nullifier_occurrence :: "digest \<Rightarrow> anchor_location option"
  nullifier_occurrences :: "digest \<Rightarrow> anchor_location list"
  anchors_up_to :: "u64 \<Rightarrow> (anchor_location \<times> anchor_record) list"
  confirmations_at :: "u64 \<Rightarrow> u64"

text \<open>The provided methods of the trait.\<close>

definition default_proof_record_at ::
  "(anchor_ref \<Rightarrow> anchor_record option) \<Rightarrow> anchor_ref \<Rightarrow> digest list \<Rightarrow> anchor_record option" where
  "default_proof_record_at at ref raw_nullifiers =
     (case at ref of None \<Rightarrow> None
      | Some (BatchHeader _ _) \<Rightarrow> None
      | Some record \<Rightarrow> Some record)"

definition default_locate ::
  "(anchor_ref \<Rightarrow> anchor_record option) \<Rightarrow> anchor_ref \<Rightarrow> anchor_location option" where
  "default_locate at ref = map_option (\<lambda>_. ar_location ref) (at ref)"

definition default_confirmations_at :: "u64 \<Rightarrow> u64 \<Rightarrow> u64" where
  "default_confirmations_at tip h = (if h > tip then 0 else tip - h + 1)"

section \<open>The in-memory chain\<close>

record mock_entry =
  me_txid :: bytes
  me_location :: anchor_location
  me_record :: anchor_record
  me_ctx :: ctx

record mock_chain =
  mc_tip_height :: u64
  mc_entries :: "mock_entry list"

definition mock_new :: mock_chain where
  "mock_new = \<lparr>mc_tip_height = 0, mc_entries = []\<rparr>"

definition advance_blocks :: "u64 \<Rightarrow> mock_chain \<Rightarrow> mock_chain" where
  "advance_blocks n c = c\<lparr>mc_tip_height := saturating_add (mc_tip_height c) n\<rparr>"

definition append_with_ctx ::
  "sponge \<Rightarrow> anchor_record \<Rightarrow> ctx \<Rightarrow> mock_chain \<Rightarrow> anchor_ref \<times> mock_chain" where
  "append_with_ctx sp record ctx c =
     (let pos = word_of_nat (length (filter (\<lambda>e. al_height (me_location e) = mc_tip_height c) (mc_entries c)));
          loc = \<lparr>al_height = mc_tip_height c, al_position = pos\<rparr>;
          txid = hash_felts sp ''mock-txid'' [[felt (word_of_nat (length (mc_entries c)))]]
      in (\<lparr>ar_txid = txid, ar_location = loc\<rparr>,
          c\<lparr>mc_entries := mc_entries c @
             [\<lparr>me_txid = txid, me_location = loc, me_record = record, me_ctx = ctx\<rparr>]\<rparr>))"

definition append_record ::
  "sponge \<Rightarrow> anchor_record \<Rightarrow> ctx \<Rightarrow> mock_chain \<Rightarrow> anchor_ref \<times> mock_chain" where
  "append_record sp record fresh_ctx c = append_with_ctx sp record fresh_ctx c"

definition mock_find :: "mock_chain \<Rightarrow> anchor_ref \<Rightarrow> mock_entry option" where
  "mock_find c ref =
     find (\<lambda>e. me_location e = ar_location ref \<and> me_txid e = ar_txid ref) (mc_entries c)"

definition mock_anchor_at :: "mock_chain \<Rightarrow> anchor_ref \<Rightarrow> anchor_record option" where
  "mock_anchor_at c ref = map_option me_record (mock_find c ref)"

definition mock_ctx_at :: "mock_chain \<Rightarrow> anchor_ref \<Rightarrow> ctx option" where
  "mock_ctx_at c ref = map_option me_ctx (mock_find c ref)"

definition mock_first_nullifier_occurrence :: "sponge \<Rightarrow> mock_chain \<Rightarrow> digest \<Rightarrow> anchor_location option" where
  "mock_first_nullifier_occurrence sp c raw_nf =
     (let entries = map (\<lambda>e. \<lparr>e_record = to_k_record (me_record e), e_ctx = me_ctx e,
                               e_location = k_location (me_location e)\<rparr>) (mc_entries c)
      in map_option (\<lambda>index. me_location (mc_entries c ! index)) (first_occurrence sp entries raw_nf))"

definition mock_nullifier_occurrences :: "sponge \<Rightarrow> mock_chain \<Rightarrow> digest \<Rightarrow> anchor_location list" where
  "mock_nullifier_occurrences sp c raw_nf =
     sort (map me_location (filter (\<lambda>e. well_formed sp (me_record e) (me_ctx e) raw_nf) (mc_entries c)))"

definition mock_anchors_up_to :: "mock_chain \<Rightarrow> u64 \<Rightarrow> (anchor_location \<times> anchor_record) list" where
  "mock_anchors_up_to c h =
     sort_key fst (map (\<lambda>e. (me_location e, me_record e))
       (filter (\<lambda>e. al_height (me_location e) \<le> h) (mc_entries c)))"

definition mock_view :: "sponge \<Rightarrow> mock_chain \<Rightarrow> anchor_chain" where
  "mock_view sp c =
     \<lparr>tip_height = mc_tip_height c,
      anchor_at = mock_anchor_at c,
      proof_record_at = default_proof_record_at (mock_anchor_at c),
      ctx_at = mock_ctx_at c,
      locate = default_locate (mock_anchor_at c),
      first_nullifier_occurrence = mock_first_nullifier_occurrence sp c,
      nullifier_occurrences = mock_nullifier_occurrences sp c,
      anchors_up_to = mock_anchors_up_to c,
      confirmations_at = default_confirmations_at (mc_tip_height c)\<rparr>"

section \<open>Supply audit over a chain\<close>

definition chain_supply :: "anchor_chain \<Rightarrow> digest \<Rightarrow> u64 \<Rightarrow> supply_error + u64" where
  "chain_supply chain aid h =
     (let anchors = anchors_up_to chain h;
          kernel_anchors = k_anchors anchors
      in map_err (\<lambda>NegativeSupply \<Rightarrow> NegativeSupply) (k_supply kernel_anchors (to_anchor aid) h))"

section \<open>The occurrence contract\<close>

text \<open>
  What a client relies on: the occurrences of a nullifier are a finite set of locations, the
  list query enumerates it in order, and the first query is its least element.
\<close>

locale occurrence_view =
  fixes view :: "'c \<Rightarrow> anchor_chain"
    and inv :: "'c \<Rightarrow> bool"
    and occ :: "'c \<Rightarrow> digest \<Rightarrow> anchor_location set"
  assumes occ_finite: "inv c \<Longrightarrow> finite (occ c nf)"
    and occ_list: "inv c \<Longrightarrow> nullifier_occurrences (view c) nf = sorted_list_of_set (occ c nf)"
    and occ_first: "inv c \<Longrightarrow> first_nullifier_occurrence (view c) nf =
          (if occ c nf = {} then None else Some (Min (occ c nf)))"
begin

lemma first_None_iff: "inv c \<Longrightarrow> first_nullifier_occurrence (view c) nf = None \<longleftrightarrow> occ c nf = {}"
  by (simp add: occ_first)

lemma first_Some_iff:
  "inv c \<Longrightarrow> first_nullifier_occurrence (view c) nf = Some l \<longleftrightarrow>
     l \<in> occ c nf \<and> (\<forall>l' \<in> occ c nf. l \<le> l')"
  by (auto simp: occ_first occ_finite Min_eq_iff intro!: Min_eqI)

lemma first_is_head:
  "inv c \<Longrightarrow> first_nullifier_occurrence (view c) nf =
     (case nullifier_occurrences (view c) nf of [] \<Rightarrow> None | l # _ \<Rightarrow> Some l)"
  using occ_finite [of c nf]
  by (cases "occ c nf = {}") (auto simp: occ_first occ_list sorted_list_of_set_nonempty)

text \<open>Growing the set of occurrences at later locations only keeps the first one.\<close>

lemma first_stable:
  assumes "inv c" "inv c'" "first_nullifier_occurrence (view c) nf = Some l"
    and "occ c nf \<subseteq> occ c' nf" "\<And>l'. l' \<in> occ c' nf - occ c nf \<Longrightarrow> l < l'"
  shows "first_nullifier_occurrence (view c') nf = Some l"
  using assms by (force simp: first_Some_iff)

end

section \<open>The in-memory chain keeps the order\<close>

definition at_tip :: "mock_chain \<Rightarrow> nat" where
  "at_tip c = length (filter (\<lambda>e. al_height (me_location e) = mc_tip_height c) (mc_entries c))"

definition mock_inv :: "mock_chain \<Rightarrow> bool" where
  "mock_inv c \<longleftrightarrow> sorted_wrt (<) (map me_location (mc_entries c)) \<and>
     list_all (\<lambda>e. al_height (me_location e) \<le> mc_tip_height c \<and>
       (al_height (me_location e) = mc_tip_height c \<longrightarrow> unat (al_position (me_location e)) < at_tip c))
       (mc_entries c)"

definition mock_occ :: "sponge \<Rightarrow> mock_chain \<Rightarrow> digest \<Rightarrow> anchor_location set" where
  "mock_occ sp c nf =
     me_location ` {e \<in> set (mc_entries c). well_formed sp (me_record e) (me_ctx e) nf}"

text \<open>The transitions of the chain; a block holds fewer than \<open>2 ^ 32\<close> anchors.\<close>

inductive mock_step :: "sponge \<Rightarrow> mock_chain \<Rightarrow> mock_chain \<Rightarrow> bool" for sp where
  advance: "mock_step sp c (advance_blocks n c)"
| append: "at_tip c < 2 ^ 32 \<Longrightarrow> mock_step sp c (snd (append_with_ctx sp r ctx c))"

inductive_cases mock_stepE: "mock_step sp c c'"

lemma mock_inv_new: "mock_inv mock_new"
  by (simp add: mock_inv_def mock_new_def)

lemma mock_inv_advance:
  assumes "mock_inv c"
  shows "mock_inv (advance_blocks n c)"
proof -
  have ge: "mc_tip_height c \<le> mc_tip_height (advance_blocks n c)"
    by (simp add: advance_blocks_def saturating_add_ge)
  show ?thesis
  proof (cases "mc_tip_height (advance_blocks n c) = mc_tip_height c")
    case True
    then have "advance_blocks n c = c" by (simp add: advance_blocks_def)
    with assms show ?thesis by simp
  next
    case False
    with ge assms show ?thesis
      by (fastforce simp: mock_inv_def list_all_iff advance_blocks_def)
  qed
qed

lemma append_location:
  "ar_location (fst (append_with_ctx sp r ctx c)) =
     \<lparr>al_height = mc_tip_height c, al_position = word_of_nat (at_tip c)\<rparr>"
  by (simp add: append_with_ctx_def Let_def at_tip_def)

lemma append_entries:
  "mc_entries (snd (append_with_ctx sp r ctx c)) =
     mc_entries c @ [\<lparr>me_txid = ar_txid (fst (append_with_ctx sp r ctx c)),
       me_location = ar_location (fst (append_with_ctx sp r ctx c)), me_record = r, me_ctx = ctx\<rparr>]"
  "mc_tip_height (snd (append_with_ctx sp r ctx c)) = mc_tip_height c"
  by (simp_all add: append_with_ctx_def Let_def)

lemma append_location_greater:
  assumes "mock_inv c" "at_tip c < 2 ^ 32" "e \<in> set (mc_entries c)"
  shows "me_location e < ar_location (fst (append_with_ctx sp r ctx c))"
proof -
  from assms have le: "al_height (me_location e) \<le> mc_tip_height c"
    and pos: "al_height (me_location e) = mc_tip_height c \<Longrightarrow> unat (al_position (me_location e)) < at_tip c"
    by (auto simp: mock_inv_def list_all_iff)
  have "unat (word_of_nat (at_tip c) :: u32) = at_tip c" using assms(2) by (simp add: unat_of_nat)
  then have "al_height (me_location e) = mc_tip_height c \<Longrightarrow> al_position (me_location e) < word_of_nat (at_tip c)"
    using pos by (simp add: word_less_nat_alt)
  with le show ?thesis by (auto simp: append_location location_less_iff order_le_less)
qed

lemma at_tip_append: "at_tip (snd (append_with_ctx sp r ctx c)) = Suc (at_tip c)"
  by (simp add: at_tip_def append_entries append_location)

lemma mock_inv_append:
  assumes "mock_inv c" "at_tip c < 2 ^ 32"
  shows "mock_inv (snd (append_with_ctx sp r ctx c))"
proof -
  have "sorted_wrt (<) (map me_location (mc_entries (snd (append_with_ctx sp r ctx c))))"
    using assms append_location_greater [OF assms]
    by (auto simp: append_entries sorted_wrt_append mock_inv_def)
  moreover have "unat (word_of_nat (at_tip c) :: u32) < Suc (at_tip c)"
    using assms(2) by (simp add: unat_of_nat)
  ultimately show ?thesis
    using assms(1) by (auto simp: mock_inv_def list_all_iff at_tip_append append_entries append_location)
qed

lemma mock_inv_step: "mock_step sp c c' \<Longrightarrow> mock_inv c \<Longrightarrow> mock_inv c'"
  by (erule mock_stepE) (auto intro: mock_inv_advance mock_inv_append)

lemma mock_inv_reachable: "(mock_step sp)\<^sup>*\<^sup>* mock_new c \<Longrightarrow> mock_inv c"
  by (induction rule: rtranclp_induct) (blast intro: mock_inv_new mock_inv_step)+

lemma strictly_sorted_locations:
  "mock_inv c \<Longrightarrow> sorted_wrt (<) (map me_location (filter P (mc_entries c)))"
  by (auto simp: mock_inv_def sorted_wrt_map intro: sorted_wrt_filter)

lemma mock_first_eq:
  "mock_first_nullifier_occurrence sp c nf =
     map_option me_location (find (\<lambda>e. well_formed sp (me_record e) (me_ctx e) nf) (mc_entries c))"
proof -
  have pos: "map_option (\<lambda>i. me_location (xs ! i)) (iter_position P xs) = map_option me_location (find P xs)"
    for P and xs :: "mock_entry list"
    by (induction xs) (auto simp: option.map_comp o_def)
  have pm: "iter_position Q (map f xs) = iter_position (\<lambda>x. Q (f x)) xs" for Q :: "entry \<Rightarrow> bool" and f and xs :: "mock_entry list"
    by (induction xs) auto
  show ?thesis
    by (simp add: mock_first_nullifier_occurrence_def first_occurrence_eq Let_def pm well_formed_def pos)
qed

lemma find_filter: "find P xs = (case filter P xs of [] \<Rightarrow> None | x # _ \<Rightarrow> Some x)"
  by (induction xs) auto

lemma Min_sorted_head: "sorted_wrt (<) (x # xs) \<Longrightarrow> Min (set (x # xs)) = x" for x :: "'a::linorder"
  by (intro Min_eqI) (auto simp: less_imp_le)

interpretation mock: occurrence_view "mock_view sp" mock_inv "mock_occ sp" for sp
proof
  fix c nf
  let ?P = "\<lambda>e. well_formed sp (me_record e) (me_ctx e) nf"
  assume inv: "mock_inv c"
  have occ: "mock_occ sp c nf = set (map me_location (filter ?P (mc_entries c)))"
    by (auto simp: mock_occ_def)
  note strict = strictly_sorted_locations [OF inv, of ?P]
  show "finite (mock_occ sp c nf)" by (simp add: mock_occ_def)
  from strict show "nullifier_occurrences (mock_view sp c) nf = sorted_list_of_set (mock_occ sp c nf)"
    unfolding occ mock_view_def mock_nullifier_occurrences_def
    by (simp add: strict_sorted_iff sorted_list_of_set_sort_remdups distinct_remdups_id del: set_map set_filter)
  show "first_nullifier_occurrence (mock_view sp c) nf =
      (if mock_occ sp c nf = {} then None else Some (Min (mock_occ sp c nf)))"
  proof (cases "filter ?P (mc_entries c)")
    case (Cons e es)
    with strict Min_sorted_head [of "me_location e" "map me_location es"] show ?thesis
      unfolding occ Cons by (simp add: mock_view_def mock_first_eq find_filter Cons)
  qed (simp add: occ mock_view_def mock_first_eq find_filter)
qed

lemma sorted_anchors:
  assumes "mock_inv c"
  shows "mock_anchors_up_to c h =
    map (\<lambda>e. (me_location e, me_record e)) (filter (\<lambda>e. al_height (me_location e) \<le> h) (mc_entries c))"
proof -
  have "sorted (map me_location (filter (\<lambda>e. al_height (me_location e) \<le> h) (mc_entries c)))"
    using strictly_sorted_locations [OF assms] strict_sorted_iff by blast
  then show ?thesis unfolding mock_anchors_up_to_def
    by (simp add: o_def sort_key_id_if_sorted)
qed

lemma circulating_filter:
  "circulating aid h (filter (\<lambda>(l, r). height l \<le> h) as) = circulating aid h as"
proof -
  have "mints_of aid h (filter (\<lambda>(l, r). height l \<le> h) as) = mints_of aid h as \<and>
      redeems_of aid h (filter (\<lambda>(l, r). height l \<le> h) as) = redeems_of aid h as"
  proof (induction as)
    case (Cons a as)
    obtain l r where a: "a = (l, r)" by force
    from Cons show ?case by (cases r) (auto simp: a)
  qed simp
  then show ?thesis by (simp add: circulating_def)
qed

lemma mock_find_append:
  "mock_find (snd (append_with_ctx sp r ctx c)) ref =
     (case mock_find c ref of Some e \<Rightarrow> Some e
      | None \<Rightarrow> if ref = fst (append_with_ctx sp r ctx c)
          then Some \<lparr>me_txid = ar_txid ref, me_location = ar_location ref, me_record = r, me_ctx = ctx\<rparr>
          else None)"
proof -
  have app: "find P (xs @ ys) = (case find P xs of Some x \<Rightarrow> Some x | None \<Rightarrow> find P ys)"
    for P and xs ys :: "mock_entry list"
    by (induction xs) auto
  show ?thesis
    by (auto simp: mock_find_def append_entries app split: option.split intro: anchor_ref.equality)
qed

lemma first_occurrence_stays:
  assumes "(mock_step sp)\<^sup>*\<^sup>* mock_new c" "(mock_step sp)\<^sup>*\<^sup>* c c'"
    and "first_nullifier_occurrence (mock_view sp c) nf = Some l"
  shows "first_nullifier_occurrence (mock_view sp c') nf = Some l \<and>
    (\<exists>ls. nullifier_occurrences (mock_view sp c') nf = l # ls)"
proof -
  have inv: "mock_inv c'" using assms(1,2) mock_inv_reachable by (meson rtranclp_trans)
  have "first_nullifier_occurrence (mock_view sp c') nf = Some l"
    using assms(2)
  proof (induction rule: rtranclp_induct)
    case base
    show ?case by (rule assms(3))
  next
    case (step d d')
    then have d: "mock_inv d" using assms(1) mock_inv_reachable by (meson rtranclp_trans)
    from \<open>mock_step sp d d'\<close> show ?case
    proof (cases rule: mock_step.cases)
      case (advance n)
      with step.IH show ?thesis by (simp add: mock_view_def mock_first_eq advance_blocks_def)
    next
      case (append r ctx)
      have "l \<in> mock_occ sp d nf" using step.IH mock.first_Some_iff [OF d] by blast
      then obtain e where "e \<in> set (mc_entries d)" "l = me_location e" by (auto simp: mock_occ_def)
      then have less: "l < ar_location (fst (append_with_ctx sp r ctx d))"
        using append_location_greater [OF d] append by blast
      have "mock_inv d'" using append d mock_inv_append by blast
      then show ?thesis
        by (rule mock.first_stable [OF d _ step.IH])
          (use less append in \<open>auto simp: mock_occ_def append_entries\<close>)
    qed
  qed
  with mock.first_is_head [OF inv, of sp nf] show ?thesis
    by (auto split: list.splits)
qed

section \<open>Properties\<close>

text \<open>
  Reading back after an append on any reachable chain: the returned reference
  resolves to the appended record, context and location, and every other reference resolves as it did
  before (the log is append-only).
\<close>
theorem append_then_lookup:
  assumes "(mock_step sp)\<^sup>*\<^sup>* mock_new c" "at_tip c < 2 ^ 32" "append_with_ctx sp r ctx c = (ref, c')"
  shows "anchor_at (mock_view sp c') ref = Some r \<and> ctx_at (mock_view sp c') ref = Some ctx \<and>
    locate (mock_view sp c') ref = Some (ar_location ref) \<and>
    (ref' \<noteq> ref \<longrightarrow> anchor_at (mock_view sp c') ref' = anchor_at (mock_view sp c) ref' \<and>
       ctx_at (mock_view sp c') ref' = ctx_at (mock_view sp c) ref')"
proof -
  have c': "c' = snd (append_with_ctx sp r ctx c)" and ref: "ref = fst (append_with_ctx sp r ctx c)"
    using assms(3) by auto
  have "mock_find c ref = None"
    using append_location_greater [OF mock_inv_reachable [OF assms(1)] assms(2), of _ sp r ctx]
    by (fastforce simp: mock_find_def find_None_iff ref)
  then show ?thesis
    by (auto simp: mock_view_def mock_anchor_at_def mock_ctx_at_def default_locate_def c' mock_find_append
        ref split: option.split)
qed

theorem append_then_lookup_witness:
  "anchor_at (mock_view zero_sponge (snd (append_with_ctx zero_sponge (XferCompressed zero24) zero24 mock_new)))
     (fst (append_with_ctx zero_sponge (XferCompressed zero24) zero24 mock_new)) = Some (XferCompressed zero24)"
  using append_then_lookup [of zero_sponge mock_new "XferCompressed zero24" zero24]
  by (simp add: at_tip_def mock_new_def prod_eq_iff)

text \<open>
  Claim C6. First occurrence wins, on every reachable chain: once a nullifier has a first
  occurrence, no later step of the chain (new blocks, or any record anchored under any context)
  changes it; and it is the least location of the ordered occurrence list.
\<close>
theorem first_occurrence_is_final:
  assumes "(mock_step sp)\<^sup>*\<^sup>* mock_new c" "(mock_step sp)\<^sup>*\<^sup>* c c'"
    and "first_nullifier_occurrence (mock_view sp c) nf = Some l"
  shows "first_nullifier_occurrence (mock_view sp c') nf = Some l \<and>
    (\<exists>ls. nullifier_occurrences (mock_view sp c') nf = l # ls)"
  using assms by (rule first_occurrence_stays)

theorem first_occurrence_is_final_witness:
  "first_nullifier_occurrence (mock_view zero_sponge
     (snd (append_with_ctx zero_sponge (XferCompressed zero24) (replicate 32 0) mock_new))) (replicate 32 0) =
   Some \<lparr>al_height = 0, al_position = 0\<rparr>"
proof -
  let ?c = "snd (append_with_ctx zero_sponge (XferCompressed zero24) (replicate 32 0) mock_new)"
  have "mock_step zero_sponge mock_new ?c" by (rule mock_step.append) (simp add: at_tip_def mock_new_def)
  moreover have "first_nullifier_occurrence (mock_view zero_sponge ?c) (replicate 32 0) =
      Some \<lparr>al_height = 0, al_position = 0\<rparr>"
    by (simp add: mock_view_def mock_first_eq append_entries append_location well_formed_iff_slot
        zero_sponge_binding at_tip_def) (simp add: mock_new_def well_formed_iff_slot zero_sponge_binding)
  ultimately show ?thesis
    using first_occurrence_is_final [of zero_sponge ?c ?c "replicate 32 0" "\<lparr>al_height = 0, al_position = 0\<rparr>"]
    by blast
qed

text \<open>
  The audit over a reachable chain is the circulating amount of the whole log at
  that height: neither the height cut nor the sort of \<open>anchors_up_to\<close> changes it.
\<close>
theorem mock_supply_refines:
  assumes "(mock_step sp)\<^sup>*\<^sup>* mock_new c"
  shows "chain_supply (mock_view sp c) aid h = Inr v \<longleftrightarrow>
    uint v = circulating (to_anchor aid) h
      (k_anchors (map (\<lambda>e. (me_location e, me_record e)) (mc_entries c)))"
proof -
  let ?all = "k_anchors (map (\<lambda>e. (me_location e, me_record e)) (mc_entries c))"
  have "k_anchors (mock_anchors_up_to c h) = filter (\<lambda>(l, r). height l \<le> h) ?all"
    using mock_inv_reachable [OF assms]
    by (simp add: sorted_anchors k_anchors_def filter_map o_def k_location_def)
  moreover have "k_supply as (to_anchor aid) h = Inr v \<longleftrightarrow> uint v = circulating (to_anchor aid) h as" for as
    by (rule k_supply_Inr)
  ultimately show ?thesis
    by (simp add: chain_supply_def mock_view_def Let_def circulating_filter)
qed

theorem mock_supply_refines_witness:
  "chain_supply (mock_view zero_sponge mock_new) zero24 7 = Inr 0"
proof -
  have "circulating (to_anchor zero24) 7 [] = 0" by (simp add: circulating_def minted_value_def)
  then show ?thesis
    using mock_supply_refines [of zero_sponge mock_new zero24 7 0] by (simp add: mock_new_def k_anchors_def)
qed

end
