(* ===== verification/Crosscheck.thy ===== *)
theory Crosscheck
  imports Chain
begin

text \<open>
  N-of-M cross-checked exclusion, \<open>crates/opencsv-core/src/crosscheck.rs\<close>. A member
  (\<open>Box<dyn AnchorChain>\<close>) is an \<open>anchor_chain\<close> value; nothing is assumed of it unless a
  lemma says so.
\<close>

section \<open>The cross-checked chain\<close>

datatype cross_check_error = NoMembers | TipDisagreement "u64 list"

record cross_checked =
  members :: "anchor_chain list"
  agreed_tip :: u64

definition check_tips :: "anchor_chain list \<Rightarrow> cross_check_error + u64" where
  "check_tips ms =
     (let tips = map tip_height ms in
      case tips of
        [] \<Rightarrow> Inl (TipDisagreement tips)
      | tip # _ \<Rightarrow> if list_all (\<lambda>t. t = tip) tips then Inr tip else Inl (TipDisagreement tips))"

definition cross_new :: "anchor_chain list \<Rightarrow> cross_check_error + cross_checked" where
  "cross_new ms =
     (if ms = [] then Inl NoMembers
      else and_then (check_tips ms) (\<lambda>tip. Inr \<lparr>members = ms, agreed_tip = tip\<rparr>))"

text \<open>\<open>refresh\<close> mutates in place: the result is paired with the chain it leaves behind.\<close>

definition refresh :: "cross_checked \<Rightarrow> (cross_check_error + unit) \<times> cross_checked" where
  "refresh c =
     (case check_tips (members c) of
        Inl e \<Rightarrow> (Inl e, c)
      | Inr tip \<Rightarrow> (Inr (), c\<lparr>agreed_tip := tip\<rparr>))"

definition member_count :: "cross_checked \<Rightarrow> nat" where
  "member_count c = length (members c)"

text \<open>\<open>Iterator::min\<close>.\<close>

fun iter_min :: "'a::linorder list \<Rightarrow> 'a option" where
  "iter_min [] = None"
| "iter_min (x # xs) = Some (fold min xs x)"

definition cross_first_nullifier_occurrence :: "cross_checked \<Rightarrow> digest \<Rightarrow> anchor_location option" where
  "cross_first_nullifier_occurrence c raw_nf =
     iter_min (List.map_filter (\<lambda>m. first_nullifier_occurrence m raw_nf) (members c))"

definition cross_nullifier_occurrences :: "cross_checked \<Rightarrow> digest \<Rightarrow> anchor_location list" where
  "cross_nullifier_occurrences c raw_nf =
     remdups_adj (sort (concat (map (\<lambda>m. nullifier_occurrences m raw_nf) (members c))))"

definition cross_anchors_up_to :: "cross_checked \<Rightarrow> u64 \<Rightarrow> (anchor_location \<times> anchor_record) list" where
  "cross_anchors_up_to c h = (case members c of [] \<Rightarrow> [] | m # _ \<Rightarrow> anchors_up_to m h)"

definition cross_view :: "cross_checked \<Rightarrow> anchor_chain" where
  "cross_view c =
     \<lparr>tip_height = agreed_tip c,
      anchor_at = (\<lambda>ref. find_map (\<lambda>m. anchor_at m ref) (members c)),
      proof_record_at = (\<lambda>ref nfs. find_map (\<lambda>m. proof_record_at m ref nfs) (members c)),
      ctx_at = (\<lambda>ref. find_map (\<lambda>m. ctx_at m ref) (members c)),
      locate = (\<lambda>ref. find_map (\<lambda>m. locate m ref) (members c)),
      first_nullifier_occurrence = cross_first_nullifier_occurrence c,
      nullifier_occurrences = cross_nullifier_occurrences c,
      anchors_up_to = cross_anchors_up_to c,
      confirmations_at = default_confirmations_at (agreed_tip c)\<rparr>"

section \<open>Lemmas\<close>

lemma iter_min_eq: "iter_min xs = (if set xs = {} then None else Some (Min (set xs)))"
proof (cases xs)
  case (Cons x ys)
  have "fold min ys x = Min (set (x # ys))" by (rule Min.set_eq_fold [symmetric])
  with Cons show ?thesis by simp
qed simp

lemma set_map_filter: "set (List.map_filter f xs) = {y. \<exists>x \<in> set xs. f x = Some y}"
  by (force simp: List.map_filter_def)

lemma check_tips_Inr:
  "check_tips ms = Inr tip \<longleftrightarrow> ms \<noteq> [] \<and> list_all (\<lambda>m. tip_height m = tip) ms"
  by (cases ms) (auto simp: check_tips_def list_all_iff Let_def)

lemma check_tips_Inl:
  "check_tips ms = Inl e \<longleftrightarrow> e = TipDisagreement (map tip_height ms) \<and>
     (ms = [] \<or> (\<exists>m \<in> set ms. tip_height m \<noteq> tip_height (hd ms)))"
  by (cases ms) (auto simp: check_tips_def list_all_iff list_ex_iff Let_def)

text \<open>A member whose two occurrence queries agree with each other.\<close>

definition member_consistent :: "anchor_chain \<Rightarrow> bool" where
  "member_consistent m \<longleftrightarrow> (\<forall>nf. first_nullifier_occurrence m nf = iter_min (nullifier_occurrences m nf))"

definition cross_inv :: "cross_checked \<Rightarrow> bool" where
  "cross_inv c \<longleftrightarrow> list_all member_consistent (members c)"

definition cross_occ :: "cross_checked \<Rightarrow> digest \<Rightarrow> anchor_location set" where
  "cross_occ c nf = (\<Union>m \<in> set (members c). set (nullifier_occurrences m nf))"

lemma cross_first_None:
  "cross_first_nullifier_occurrence c nf = None \<longleftrightarrow>
     (\<forall>m \<in> set (members c). first_nullifier_occurrence m nf = None)"
  by (auto simp: cross_first_nullifier_occurrence_def iter_min_eq set_map_filter)
    (metis option.exhaust)

lemma finite_reports: "finite {y. \<exists>m \<in> set ms. f m = Some y}"
  by (rule finite_subset [of _ "the ` f ` set ms"]) force+

lemma Min_iff_least: "finite R \<Longrightarrow> R \<noteq> {} \<and> Min R = l \<longleftrightarrow> l \<in> R \<and> (\<forall>y \<in> R. l \<le> y)"
  using Min_eq_iff by blast

lemma distinct_remdups_adj_sorted: "sorted xs \<Longrightarrow> distinct (remdups_adj xs)"
proof (induction xs rule: remdups_adj.induct)
  case (3 x y xs)
  show ?case
  proof (cases "x = y")
    case False
    with "3.prems" have "x < y" by (simp add: order_less_le)
    moreover from "3.prems" have "z \<in> set (y # xs) \<Longrightarrow> y \<le> z" for z by auto
    ultimately have "x \<notin> set (y # xs)" by fastforce
    with False 3 show ?thesis by simp
  qed (use 3 in simp)
qed simp_all

lemma sort_dedup: "remdups_adj (sort xs) = sorted_list_of_set (set xs)"
  by (rule sorted_distinct_set_unique) (simp_all add: distinct_remdups_adj_sorted)

lemma cross_first_Some:
  "cross_first_nullifier_occurrence c nf = Some l \<longleftrightarrow>
     (\<exists>m \<in> set (members c). first_nullifier_occurrence m nf = Some l) \<and>
     (\<forall>m \<in> set (members c). \<forall>l'. first_nullifier_occurrence m nf = Some l' \<longrightarrow> l \<le> l')"
  (is "?lhs \<longleftrightarrow> ?rhs")
proof -
  let ?R = "{y. \<exists>m \<in> set (members c). first_nullifier_occurrence m nf = Some y}"
  have "?lhs \<longleftrightarrow> ?R \<noteq> {} \<and> Min ?R = l"
    by (auto simp: cross_first_nullifier_occurrence_def iter_min_eq set_map_filter simp del: not_None_eq)
  also have "\<dots> \<longleftrightarrow> l \<in> ?R \<and> (\<forall>y \<in> ?R. l \<le> y)"
    using finite_reports [of "members c" "\<lambda>m. first_nullifier_occurrence m nf"]
    by (rule Min_iff_least)
  also have "\<dots> \<longleftrightarrow> ?rhs" by auto
  finally show ?thesis .
qed

interpretation cross: occurrence_view cross_view cross_inv cross_occ
proof
  fix c nf
  assume inv: "cross_inv c"
  have member: "first_nullifier_occurrence m nf = iter_min (nullifier_occurrences m nf)"
    if "m \<in> set (members c)" for m
    using inv that by (auto simp: cross_inv_def list_all_iff member_consistent_def)
  show fin: "finite (cross_occ c nf)" by (simp add: cross_occ_def)
  show "nullifier_occurrences (cross_view c) nf = sorted_list_of_set (cross_occ c nf)"
    by (simp add: cross_view_def cross_nullifier_occurrences_def cross_occ_def sort_dedup)
  show "first_nullifier_occurrence (cross_view c) nf =
      (if cross_occ c nf = {} then None else Some (Min (cross_occ c nf)))"
  proof (cases "cross_occ c nf = {}")
    case True
    then have "cross_first_nullifier_occurrence c nf = None"
      using member by (auto simp: cross_first_None cross_occ_def iter_min_eq)
    with True show ?thesis by (simp add: cross_view_def)
  next
    case False
    have "Min (cross_occ c nf) \<in> cross_occ c nf" using fin False by (rule Min_in)
    then obtain m where m: "m \<in> set (members c)" "Min (cross_occ c nf) \<in> set (nullifier_occurrences m nf)"
      by (auto simp: cross_occ_def)
    have sub: "set (nullifier_occurrences m' nf) \<subseteq> cross_occ c nf" if "m' \<in> set (members c)" for m'
      using that by (auto simp: cross_occ_def)
    have "Min (set (nullifier_occurrences m nf)) = Min (cross_occ c nf)"
      using m(2) sub [OF m(1)] fin by (intro Min_eqI) auto
    then have "cross_first_nullifier_occurrence c nf = Some (Min (cross_occ c nf))"
      unfolding cross_first_Some using m member Min_le [OF fin] subsetD [OF sub]
      by (auto simp: iter_min_eq split: if_splits intro!: bexI [of _ m])
    with False show ?thesis by (simp add: cross_view_def)
  qed
qed

section \<open>Properties\<close>

text \<open>
  Hiding an occurrence takes every member: whatever the other members answer, one
  member that reports an occurrence at \<open>l\<close> forces the cross-checked first occurrence to exist and to
  be no later than \<open>l\<close>. The chain invents nothing: what it reports is some member's report, and
  it reports nothing only when all members do.
\<close>
theorem hiding_needs_every_member:
  "(cross_first_nullifier_occurrence c nf = None \<longleftrightarrow>
      list_all (\<lambda>m. first_nullifier_occurrence m nf = None) (members c)) \<and>
   (cross_first_nullifier_occurrence c nf = Some l \<longleftrightarrow>
      list_ex (\<lambda>m. first_nullifier_occurrence m nf = Some l) (members c) \<and>
      list_all (\<lambda>m. case first_nullifier_occurrence m nf of None \<Rightarrow> True | Some l' \<Rightarrow> l \<le> l') (members c))"
  by (auto simp: cross_first_None cross_first_Some list_all_iff list_ex_iff split: option.splits)

text \<open>
  Tip agreement: assembling succeeds exactly on a non-empty set of members with one
  tip height, which is latched; a refresh latches a new tip only when the members agree, and leaves
  the chain as it was, with an error that lists the tips, when they do not.
\<close>
theorem tips_agree:
  "(cross_new ms = Inr c \<longleftrightarrow> ms \<noteq> [] \<and> members c = ms \<and> c = \<lparr>members = ms, agreed_tip = agreed_tip c\<rparr> \<and>
      list_all (\<lambda>m. tip_height m = agreed_tip c) ms) \<and>
   (ms \<noteq> [] \<and> list_ex (\<lambda>m. tip_height m \<noteq> tip_height (hd ms)) ms \<longleftrightarrow>
      cross_new ms = Inl (TipDisagreement (map tip_height ms))) \<and>
   (case refresh c of
      (Inr _, c') \<Rightarrow> members c' = members c \<and> list_all (\<lambda>m. tip_height m = agreed_tip c') (members c')
    | (Inl e, c') \<Rightarrow> c' = c \<and> e = TipDisagreement (map tip_height (members c)))"
proof (intro conjI)
  show "cross_new ms = Inr c \<longleftrightarrow> ms \<noteq> [] \<and> members c = ms \<and> c = \<lparr>members = ms, agreed_tip = agreed_tip c\<rparr> \<and>
      list_all (\<lambda>m. tip_height m = agreed_tip c) ms"
    by (cases c) (auto simp: cross_new_def and_then_Inr check_tips_Inr)
  show "ms \<noteq> [] \<and> list_ex (\<lambda>m. tip_height m \<noteq> tip_height (hd ms)) ms \<longleftrightarrow>
      cross_new ms = Inl (TipDisagreement (map tip_height ms))"
    by (auto simp: cross_new_def and_then_Inl check_tips_Inl list_ex_iff)
  show "case refresh c of
      (Inr _, c') \<Rightarrow> members c' = members c \<and> list_all (\<lambda>m. tip_height m = agreed_tip c') (members c')
    | (Inl e, c') \<Rightarrow> c' = c \<and> e = TipDisagreement (map tip_height (members c))"
  proof (cases "check_tips (members c)")
    case (Inl e)
    then show ?thesis using check_tips_Inl [of "members c" e] by (simp add: refresh_def)
  next
    case (Inr tip)
    then show ?thesis using check_tips_Inr [of "members c" tip] by (simp add: refresh_def)
  qed
qed

text \<open>
  The cross-checked chain keeps the occurrence contract of its members: if each
  member's two occurrence queries are consistent, its first occurrence is the head of its own
  ordered list, which holds exactly the union of the members' occurrences.
\<close>
theorem cross_keeps_contract:
  assumes "list_all member_consistent (members c)"
  shows "cross_first_nullifier_occurrence c nf =
      (case cross_nullifier_occurrences c nf of [] \<Rightarrow> None | l # _ \<Rightarrow> Some l) \<and>
    set (cross_nullifier_occurrences c nf) = (\<Union>m \<in> set (members c). set (nullifier_occurrences m nf)) \<and>
    sorted (cross_nullifier_occurrences c nf) \<and> distinct (cross_nullifier_occurrences c nf)"
proof -
  have inv: "cross_inv c" using assms by (simp add: cross_inv_def)
  have list: "cross_nullifier_occurrences c nf = sorted_list_of_set (cross_occ c nf)"
    using cross.occ_list [OF inv, of nf] by (simp add: cross_view_def)
  have "finite (cross_occ c nf)" by (rule cross.occ_finite [OF inv])
  with list cross.first_is_head [OF inv, of nf] show ?thesis
    by (simp add: cross_view_def) (simp add: cross_occ_def)
qed

theorem cross_keeps_contract_witness:
  "cross_first_nullifier_occurrence \<lparr>members = [mock_view zero_sponge mock_new], agreed_tip = 0\<rparr> (replicate 32 0) = None"
proof -
  have "member_consistent (mock_view zero_sponge mock_new)"
    using mock.occ_first [OF mock_inv_new] mock.occ_list [OF mock_inv_new] mock.occ_finite [OF mock_inv_new]
    by (simp add: member_consistent_def iter_min_eq)
  then show ?thesis
    using cross_keeps_contract [of "\<lparr>members = [mock_view zero_sponge mock_new], agreed_tip = 0\<rparr>" "replicate 32 0"]
    by (simp add: cross_nullifier_occurrences_def mock_view_def mock_nullifier_occurrences_def mock_new_def)
qed

end
