(* ===== verification/Accept.thy ===== *)
theory Accept
  imports Crosscheck "HOL-Library.List_Lexorder" "HOL-Library.Multiset"
begin

text \<open>
  The receiver driver, \<open>crates/opencsv-core/src/accept.rs\<close>, and the consignment of
  \<open>consignment.rs\<close>. The proof verifier is an argument (\<open>verify\<close>), as the trait is in the
  source; so is the codec library of \<open>Consignment::from_bytes\<close>. A \<open>HashSet\<close> is a set, a byte
  array compares lexicographically.
\<close>

section \<open>Consignments\<close>

record consignment =
  coin_openings :: "coin_opening list"
  nullifiers :: "digest list"
  proof_bytes :: bytes
  cons_anchor_ref :: anchor_ref
  aux :: "asset_genesis option"

datatype consignment_error = DecodeError string | TrailingBytes

definition consignment_to_bytes :: "(consignment \<Rightarrow> bytes) \<Rightarrow> consignment \<Rightarrow> bytes" where
  "consignment_to_bytes encode_to_vec c = encode_to_vec c"

definition consignment_from_bytes ::
  "(bytes \<Rightarrow> string + consignment \<times> nat) \<Rightarrow> bytes \<Rightarrow> consignment_error + consignment" where
  "consignment_from_bytes decode_from_slice bs =
     and_then (map_err DecodeError (decode_from_slice bs)) (\<lambda>(c, read).
       if read \<noteq> length bs then Inl TrailingBytes else Inr c)"

section \<open>Verifiers\<close>

type_synonym proof_verifier = "bytes \<Rightarrow> bytes \<Rightarrow> bytes \<Rightarrow> bool"

fun checksum_loop :: "u32 \<Rightarrow> bytes \<Rightarrow> u32" where
  "checksum_loop h [] = h"
| "checksum_loop h (b # bs) = checksum_loop ((h XOR ucast b) * 0x01000193) bs"

definition checksum :: "bytes \<Rightarrow> bytes \<Rightarrow> u32" where
  "checksum vk x = checksum_loop 0x811c9dc5 (vk @ x)"

definition mock_prove :: "bytes \<Rightarrow> bytes \<Rightarrow> bytes" where
  "mock_prove vk x = x @ to_le_bytes (checksum vk x)"

definition mock_verify :: proof_verifier where
  "mock_verify vk x pf =
     (if length x \<le> length pf then
        take (length x) pf = x \<and> drop (length x) pf = to_le_bytes (checksum vk x)
      else False)"

section \<open>Parameters and results\<close>

record accept_params =
  ap_vk :: bytes
  ap_required_confirmations :: u64
  ap_recipient_secrets :: "owner_secret list"
  ap_known_assets :: "digest list"

record public_owner_accept_params =
  pp_vk :: bytes
  pp_required_confirmations :: u64
  pp_recipient_owners :: "digest list"
  pp_known_assets :: "digest list"

record accepted_coins =
  ac_coins :: "coin list"
  ac_anchor :: anchor_location

datatype reject_reason =
    EmptyConsignment
  | GenesisMismatch
  | UnknownAsset
  | AnchorNotFound
  | DuplicateNullifier
  | InsufficientConfirmations u64 u64
  | NullifierConflict truncated_digest anchor_location
  | IllFormedAnchor
  | InvalidProof
  | NoOwnedOutput

fun code :: "reject_reason \<Rightarrow> string" where
  "code EmptyConsignment = ''empty_consignment''"
| "code GenesisMismatch = ''genesis_mismatch''"
| "code UnknownAsset = ''unknown_asset''"
| "code AnchorNotFound = ''anchor_not_found''"
| "code DuplicateNullifier = ''duplicate_nullifier''"
| "code (InsufficientConfirmations _ _) = ''insufficient_confirmations''"
| "code (NullifierConflict _ _) = ''nullifier_conflict''"
| "code IllFormedAnchor = ''ill_formed_anchor''"
| "code InvalidProof = ''invalid_proof''"
| "code NoOwnedOutput = ''no_owned_output''"

fun from_kernel_rejection :: "k_reject_reason \<Rightarrow> reject_reason" where
  "from_kernel_rejection KEmptyConsignment = EmptyConsignment"
| "from_kernel_rejection KGenesisMismatch = GenesisMismatch"
| "from_kernel_rejection KUnknownAsset = UnknownAsset"
| "from_kernel_rejection KAnchorNotFound = AnchorNotFound"
| "from_kernel_rejection KDuplicateNullifier = DuplicateNullifier"
| "from_kernel_rejection (KInsufficientConfirmations have required) = InsufficientConfirmations have required"
| "from_kernel_rejection (KNullifierConflict nf first) =
     NullifierConflict nf \<lparr>al_height = height first, al_position = position first\<rparr>"
| "from_kernel_rejection KIllFormedAnchor = IllFormedAnchor"
| "from_kernel_rejection KInvalidProof = InvalidProof"
| "from_kernel_rejection KNoOwnedOutput = NoOwnedOutput"

fun reject_if :: "k_reject_reason option \<Rightarrow> reject_reason + unit" where
  "reject_if (Some reason) = Inl (from_kernel_rejection reason)"
| "reject_if None = Inr ()"

section \<open>Checks\<close>

definition public_input :: "anchor_record \<Rightarrow> ctx \<Rightarrow> coin_opening list \<Rightarrow> bytes" where
  "public_input record ctx openings =
     ctx @ to_bytes record @ concat (map to_public_input_bytes openings)"

definition nullifiers_are_distinct :: "digest list \<Rightarrow> bool" where
  "nullifiers_are_distinct raw_nullifiers =
     (card (set (map to_elems raw_nullifiers)) = length raw_nullifiers)"

definition record_binds_nullifiers :: "sponge \<Rightarrow> anchor_record \<Rightarrow> ctx \<Rightarrow> digest list \<Rightarrow> bool" where
  "record_binds_nullifiers sp record ctx raw_nullifiers =
     (if \<not> nullifiers_are_distinct raw_nullifiers then False
      else
        (let bound = (\<lambda>nf. to_anchor (binding sp nf ctx)) in
         case record of
           Mint _ _ _ \<Rightarrow> raw_nullifiers = []
         | BatchHeader _ _ \<Rightarrow> False
         | Redeem _ _ payload \<Rightarrow> length raw_nullifiers = 1 \<and> bound (raw_nullifiers ! 0) = payload
         | XferCompressed slot \<Rightarrow>
             raw_nullifiers \<noteq> [] \<and> bound (nullifier_commit sp raw_nullifiers) = slot
         | Xfer p q \<Rightarrow>
             (let slots = sort (filter (\<lambda>s. s \<noteq> zero24) [p, q]);
                  nfs = sort (map bound raw_nullifiers)
              in nfs \<noteq> [] \<and> slots = nfs)))"

definition occurrence_keys :: "sponge \<Rightarrow> anchor_record \<Rightarrow> digest list \<Rightarrow> digest list" where
  "occurrence_keys sp record nfs =
     (case record of
        Mint _ _ _ \<Rightarrow> []
      | BatchHeader _ _ \<Rightarrow> nfs
      | Xfer _ _ \<Rightarrow> nfs
      | Redeem _ _ _ \<Rightarrow> nfs
      | XferCompressed _ \<Rightarrow> [nullifier_commit sp nfs])"

definition observe_occurrence :: "anchor_chain \<Rightarrow> digest \<Rightarrow> occurrence_observation" where
  "observe_occurrence chain key =
     \<lparr>oo_nullifier = to_anchor key,
      oo_first = map_option k_location (first_nullifier_occurrence chain key)\<rparr>"

fun occurrence_loop ::
  "anchor_chain \<Rightarrow> location \<Rightarrow> digest list \<Rightarrow> occurrence_observation list \<Rightarrow>
     reject_reason + occurrence_observation list" where
  "occurrence_loop chain loc [] occurrences = Inr occurrences"
| "occurrence_loop chain loc (key # keys) occurrences =
     (let observation = observe_occurrence chain key in
      and_then (reject_if (occurrence_rejection loc [observation])) (\<lambda>_.
        occurrence_loop chain loc keys (occurrences @ [observation])))"

definition observe_asset :: "sponge \<Rightarrow> consignment \<Rightarrow> digest list \<Rightarrow> asset_observation" where
  "observe_asset sp c known_assets =
     (let asset_ids = op_asset_id ` set (coin_openings c) in
      case aux c of
        Some genesis \<Rightarrow>
          (let i = asset_id sp genesis in
           if \<exists>a \<in> asset_ids. a \<noteq> i then AssetGenesisMismatch else AssetValid)
      | None \<Rightarrow>
          if \<exists>a \<in> asset_ids. a \<notin> set known_assets then AssetUnknown else AssetValid)"

definition owned_coins :: "coin_opening list \<Rightarrow> digest list \<Rightarrow> coin list" where
  "owned_coins openings owners = map to_coin (filter (\<lambda>opn. op_owner opn \<in> set owners) openings)"

section \<open>The driver\<close>

definition accept_for_public_owners ::
  "sponge \<Rightarrow> consignment \<Rightarrow> anchor_chain \<Rightarrow> proof_verifier \<Rightarrow> public_owner_accept_params \<Rightarrow>
     reject_reason + accepted_coins" where
  "accept_for_public_owners sp c chain verify params =
     (let openings = coin_openings c in
      and_then (reject_if (preflight_rejection (openings \<noteq> []) AssetValid)) (\<lambda>_.
      let ast = observe_asset sp c (pp_known_assets params) in
      and_then (reject_if (preflight_rejection True ast)) (\<lambda>_.
      and_then (ok_or (from_kernel_rejection KAnchorNotFound) (anchor_at chain (cons_anchor_ref c))) (\<lambda>record.
      and_then (ok_or (from_kernel_rejection KAnchorNotFound) (ctx_at chain (cons_anchor_ref c))) (\<lambda>ctx.
      and_then (ok_or (from_kernel_rejection KAnchorNotFound) (locate chain (cons_anchor_ref c))) (\<lambda>loc.
      let has_distinct = nullifiers_are_distinct (nullifiers c) in
      and_then (reject_if (structure_rejection has_distinct)) (\<lambda>_.
      and_then (ok_or (from_kernel_rejection KIllFormedAnchor)
                  (proof_record_at chain (cons_anchor_ref c) (nullifiers c))) (\<lambda>proof_record.
      let x = public_input proof_record ctx openings;
          valid = verify (pp_vk params) x (proof_bytes c) in
      and_then (reject_if (proof_rejection valid)) (\<lambda>_.
      let confs = confirmations_at chain (al_height loc) in
      and_then (reject_if (chain_prefix_rejection confs (pp_required_confirmations params) True)) (\<lambda>_.
      let binds = record_binds_nullifiers sp proof_record ctx (nullifiers c) in
      and_then (reject_if (chain_prefix_rejection confs (pp_required_confirmations params) binds)) (\<lambda>_.
      let keys = occurrence_keys sp record (nullifiers c);
          kernel_location = k_location loc in
      and_then (occurrence_loop chain kernel_location keys []) (\<lambda>occurrences.
      let cs = owned_coins openings (pp_recipient_owners params);
          inp = \<lparr>has_openings = True, asset = ast,
                 anchor = AnchorPresent kernel_location confs binds occurrences,
                 has_distinct_nullifiers = has_distinct, proof_valid = valid,
                 required_confirmations = pp_required_confirmations params,
                 has_owned_output = cs \<noteq> []\<rparr>
      in case decide inp of
           Accept _ \<Rightarrow> Inr \<lparr>ac_coins = cs, ac_anchor = loc\<rparr>
         | Reject reason \<Rightarrow> Inl (from_kernel_rejection reason)))))))))))))"

definition accept ::
  "sponge \<Rightarrow> consignment \<Rightarrow> anchor_chain \<Rightarrow> proof_verifier \<Rightarrow> accept_params \<Rightarrow>
     reject_reason + accepted_coins" where
  "accept sp c chain verify params =
     accept_for_public_owners sp c chain verify
       \<lparr>pp_vk = ap_vk params, pp_required_confirmations = ap_required_confirmations params,
        pp_recipient_owners = map (owner sp) (ap_recipient_secrets params),
        pp_known_assets = ap_known_assets params\<rparr>"

section \<open>Lemmas\<close>

lemma passing_checks [simp]:
  "preflight_rejection True AssetValid = None" "structure_rejection True = None" "proof_rejection True = None"
  "req \<le> confs \<Longrightarrow> chain_prefix_rejection confs req True = None"
  by simp_all

lemma reject_if_Inr [simp]: "reject_if r = Inr u \<longleftrightarrow> r = None"
  by (cases r) auto

lemma k_location_eq [simp]: "k_location a = k_location b \<longleftrightarrow> a = b"
  by (auto simp: k_location_def intro: anchor_location.equality)

lemma occurrence_loop_Inr:
  "occurrence_loop chain (k_location loc) keys occs = Inr out \<longleftrightarrow>
     out = occs @ map (observe_occurrence chain) keys \<and>
     list_all (\<lambda>key. first_nullifier_occurrence chain key = Some loc) keys"
proof (induction keys arbitrary: occs)
  case (Cons key keys)
  then show ?case
    by (auto simp: Let_def and_then_Inr occurrence_rejection_singleton observe_occurrence_def split: option.splits)
qed auto

lemma occurrence_loop_Inl:
  "occurrence_loop chain loc keys occs = Inl e \<longleftrightarrow>
     (\<exists>r. occurrence_rejection loc (map (observe_occurrence chain) keys) = Some r \<and> e = from_kernel_rejection r)"
proof (induction keys arbitrary: occs)
  case Nil
  then show ?case by (simp add: occurrence_rejection_def occurrence_rejection_loop.simps)
next
  case (Cons key keys)
  then show ?case
    by (cases "occurrence_rejection loc [observe_occurrence chain key]")
      (auto simp: Let_def occurrence_rejection_Cons [of loc _ "map (observe_occurrence chain) keys"])
qed

text \<open>The observations of the driver, gathered without any early return.\<close>

definition proof_checks ::
  "sponge \<Rightarrow> consignment \<Rightarrow> anchor_chain \<Rightarrow> proof_verifier \<Rightarrow> public_owner_accept_params \<Rightarrow> ctx \<Rightarrow> bool" where
  "proof_checks sp c chain verify params ctx =
     (case proof_record_at chain (cons_anchor_ref c) (nullifiers c) of None \<Rightarrow> False
      | Some pr \<Rightarrow> verify (pp_vk params) (public_input pr ctx (coin_openings c)) (proof_bytes c))"

definition binding_checks :: "sponge \<Rightarrow> consignment \<Rightarrow> anchor_chain \<Rightarrow> ctx \<Rightarrow> bool" where
  "binding_checks sp c chain ctx =
     (case proof_record_at chain (cons_anchor_ref c) (nullifiers c) of None \<Rightarrow> False
      | Some pr \<Rightarrow> record_binds_nullifiers sp pr ctx (nullifiers c))"

definition observe ::
  "sponge \<Rightarrow> consignment \<Rightarrow> anchor_chain \<Rightarrow> proof_verifier \<Rightarrow> public_owner_accept_params \<Rightarrow> accept_input" where
  "observe sp c chain verify params =
     (let base = \<lparr>has_openings = coin_openings c \<noteq> [], asset = observe_asset sp c (pp_known_assets params),
            anchor = AnchorMissing, has_distinct_nullifiers = nullifiers_are_distinct (nullifiers c),
            proof_valid = False, required_confirmations = pp_required_confirmations params,
            has_owned_output = owned_coins (coin_openings c) (pp_recipient_owners params) \<noteq> []\<rparr>
      in case (anchor_at chain (cons_anchor_ref c), ctx_at chain (cons_anchor_ref c), locate chain (cons_anchor_ref c)) of
           (Some record, Some ctx, Some loc) \<Rightarrow>
             base\<lparr>anchor := AnchorPresent (k_location loc) (confirmations_at chain (al_height loc))
                    (binding_checks sp c chain ctx)
                    (map (observe_occurrence chain) (occurrence_keys sp record (nullifiers c))),
                  proof_valid := proof_checks sp c chain verify params ctx\<rparr>
         | _ \<Rightarrow> base)"

definition driver_outcome ::
  "consignment \<Rightarrow> anchor_chain \<Rightarrow> public_owner_accept_params \<Rightarrow> accept_decision \<Rightarrow> reject_reason + accepted_coins" where
  "driver_outcome c chain params d =
     (case d of
        Accept _ \<Rightarrow> Inr \<lparr>ac_coins = owned_coins (coin_openings c) (pp_recipient_owners params),
                         ac_anchor = the (locate chain (cons_anchor_ref c))\<rparr>
      | Reject KInvalidProof \<Rightarrow>
          Inl (if proof_record_at chain (cons_anchor_ref c) (nullifiers c) = None then IllFormedAnchor
               else InvalidProof)
      | Reject r \<Rightarrow> Inl (from_kernel_rejection r))"

lemma preflight_Some:
  "preflight_rejection b a = Some r \<Longrightarrow> r \<noteq> KInvalidProof"
  by (cases a) (auto simp: preflight_rejection_def split: if_splits)

lemma chain_prefix_Some: "chain_prefix_rejection h q b = Some r \<Longrightarrow> r \<noteq> KInvalidProof"
  by (auto simp: chain_prefix_rejection_def split: if_splits)

lemma occurrence_rejection_Some: "occurrence_rejection l os = Some r \<Longrightarrow> r \<noteq> KInvalidProof"
proof (induction os)
  case Nil
  then show ?case by (simp add: occurrence_rejection_def occurrence_rejection_loop.simps)
next
  case (Cons oc os)
  from Cons.prems Cons.IH show ?case
    by (auto simp: occurrence_rejection_Cons [of l oc os] occurrence_rejection_singleton split: option.splits if_splits)
qed

lemma driver_reject:
  "r \<noteq> KInvalidProof \<Longrightarrow> driver_outcome c chain params (Reject r) = Inl (from_kernel_rejection r)"
  by (cases r) (simp_all add: driver_outcome_def)

lemma accept_present:
  assumes "anchor_at chain (cons_anchor_ref c) = Some record" "ctx_at chain (cons_anchor_ref c) = Some ctx"
    and "locate chain (cons_anchor_ref c) = Some loc"
    and "coin_openings c \<noteq> []" "observe_asset sp c (pp_known_assets params) = AssetValid"
    and "nullifiers_are_distinct (nullifiers c)" "proof_record_at chain (cons_anchor_ref c) (nullifiers c) = Some pr"
    and "verify (pp_vk params) (public_input pr ctx (coin_openings c)) (proof_bytes c)"
  shows "accept_for_public_owners sp c chain verify params =
     driver_outcome c chain params (decide (observe sp c chain verify params))"
proof -
  let ?confs = "confirmations_at chain (al_height loc)" and ?req = "pp_required_confirmations params"
  let ?binds = "record_binds_nullifiers sp pr ctx (nullifiers c)"
  let ?keys = "occurrence_keys sp record (nullifiers c)"
  let ?occs = "map (observe_occurrence chain) ?keys"
  have pre: "chain_prefix_rejection ?confs ?req ?binds =
      (case chain_prefix_rejection ?confs ?req True of Some r \<Rightarrow> Some r | None \<Rightarrow> chain_prefix_rejection ?confs ?req ?binds)"
    by (simp add: chain_prefix_rejection_def)
  have obs: "observe sp c chain verify params =
      \<lparr>has_openings = True, asset = AssetValid, anchor = AnchorPresent (k_location loc) ?confs ?binds ?occs,
       has_distinct_nullifiers = True, proof_valid = True, required_confirmations = ?req,
       has_owned_output = owned_coins (coin_openings c) (pp_recipient_owners params) \<noteq> []\<rparr>"
    using assms by (simp add: observe_def binding_checks_def proof_checks_def Let_def)
  show ?thesis
  proof (cases "chain_prefix_rejection ?confs ?req ?binds")
    case (Some r)
    then have "driver_outcome c chain params (decide (observe sp c chain verify params)) = Inl (from_kernel_rejection r)"
      using chain_prefix_Some [OF Some] by (simp add: obs decide_def driver_reject)
    then show ?thesis using assms Some pre
      by (cases "chain_prefix_rejection ?confs ?req True")
        (simp_all add: accept_for_public_owners_def Let_def del: chain_prefix_rejection_None)
  next
    case None
    show ?thesis
    proof (cases "occurrence_rejection (k_location loc) ?occs")
      case (Some r)
      then have "driver_outcome c chain params (decide (observe sp c chain verify params)) = Inl (from_kernel_rejection r)"
        using None occurrence_rejection_Some [OF Some] by (simp add: obs decide_def driver_reject)
      moreover have "occurrence_loop chain (k_location loc) ?keys [] = Inl (from_kernel_rejection r)"
        using Some by (simp add: occurrence_loop_Inl)
      ultimately show ?thesis using assms None by (simp add: accept_for_public_owners_def Let_def)
    next
      case no_conflict: None
      then have "occurrence_loop chain (k_location loc) ?keys [] = Inr ?occs"
        by (auto simp: occurrence_loop_Inr occurrence_rejection_None observe_occurrence_def list_all_iff)
      with assms None no_conflict show ?thesis
        by (simp add: accept_for_public_owners_def Let_def obs decide_def driver_outcome_def)
    qed
  qed
qed

lemma accept_decides:
  "accept_for_public_owners sp c chain verify params =
     driver_outcome c chain params (decide (observe sp c chain verify params))"
proof -
  let ?A = "accept_for_public_owners sp c chain verify params"
  let ?D = "driver_outcome c chain params (decide (observe sp c chain verify params))"
  have has: "has_openings (observe sp c chain verify params) = (coin_openings c \<noteq> [])"
    "asset (observe sp c chain verify params) = observe_asset sp c (pp_known_assets params)"
    "has_distinct_nullifiers (observe sp c chain verify params) = nullifiers_are_distinct (nullifiers c)"
    by (simp_all add: observe_def Let_def split: option.split)
  have fail: "?A = ?D" if "preflight_rejection (coin_openings c \<noteq> []) (observe_asset sp c (pp_known_assets params)) = Some r" for r
  proof -
    have "?A = Inl (from_kernel_rejection r)"
      using that by (cases "coin_openings c = []")
        (simp_all add: accept_for_public_owners_def Let_def preflight_rejection_def split: asset_observation.splits)
    with that show ?thesis using preflight_Some [OF that] by (simp add: decide_def has driver_reject)
  qed
  show ?thesis
  proof (cases "coin_openings c \<noteq> [] \<and> observe_asset sp c (pp_known_assets params) = AssetValid")
    case False
    then show ?thesis using fail
      by (cases "preflight_rejection (coin_openings c \<noteq> []) (observe_asset sp c (pp_known_assets params))") auto
  next
    case ok: True
    show ?thesis
    proof (cases "\<exists>record ctx loc. anchor_at chain (cons_anchor_ref c) = Some record \<and>
        ctx_at chain (cons_anchor_ref c) = Some ctx \<and> locate chain (cons_anchor_ref c) = Some loc")
      case False
      then have "anchor (observe sp c chain verify params) = AnchorMissing"
        by (auto simp: observe_def Let_def split: option.split)
      then have "?D = Inl AnchorNotFound" using ok by (simp add: decide_def has driver_reject)
      moreover have "?A = Inl AnchorNotFound"
        using ok False by (auto simp: accept_for_public_owners_def Let_def ok_or_def split: option.split)
      ultimately show ?thesis by simp
    next
      case True
      then obtain rcd ctx loc where at: "anchor_at chain (cons_anchor_ref c) = Some rcd"
        "ctx_at chain (cons_anchor_ref c) = Some ctx" "locate chain (cons_anchor_ref c) = Some loc" by blast
      show ?thesis
      proof (cases "nullifiers_are_distinct (nullifiers c) \<and> proof_checks sp c chain verify params ctx")
        case True
        then obtain pr where "proof_record_at chain (cons_anchor_ref c) (nullifiers c) = Some pr"
          "verify (pp_vk params) (public_input pr ctx (coin_openings c)) (proof_bytes c)"
          by (auto simp: proof_checks_def split: option.splits)
        with at ok True show ?thesis by (intro accept_present) auto
      next
        case False
        with at ok show ?thesis
          by (cases "proof_record_at chain (cons_anchor_ref c) (nullifiers c)")
            (auto simp: accept_for_public_owners_def Let_def observe_def decide_def driver_outcome_def proof_checks_def
              structure_rejection_def proof_rejection_def)
      qed
    qed
  qed
qed

lemma accept_Inr:
  "accept_for_public_owners sp c chain verify params = Inr out \<longleftrightarrow>
     (\<exists>rcd ctx pr. anchor_at chain (cons_anchor_ref c) = Some rcd \<and> ctx_at chain (cons_anchor_ref c) = Some ctx \<and>
        locate chain (cons_anchor_ref c) = Some (ac_anchor out) \<and>
        proof_record_at chain (cons_anchor_ref c) (nullifiers c) = Some pr \<and>
        coin_openings c \<noteq> [] \<and> observe_asset sp c (pp_known_assets params) = AssetValid \<and>
        nullifiers_are_distinct (nullifiers c) \<and>
        verify (pp_vk params) (public_input pr ctx (coin_openings c)) (proof_bytes c) \<and>
        pp_required_confirmations params \<le> confirmations_at chain (al_height (ac_anchor out)) \<and>
        record_binds_nullifiers sp pr ctx (nullifiers c) \<and>
        list_all (\<lambda>key. first_nullifier_occurrence chain key = Some (ac_anchor out))
          (occurrence_keys sp rcd (nullifiers c)) \<and>
        owned_coins (coin_openings c) (pp_recipient_owners params) \<noteq> [] \<and>
        out = \<lparr>ac_coins = owned_coins (coin_openings c) (pp_recipient_owners params), ac_anchor = ac_anchor out\<rparr>)"
  (is "?lhs \<longleftrightarrow> ?rhs")
proof -
  have outcome: "driver_outcome c chain params d = Inr out \<longleftrightarrow> (\<exists>l. d = Accept l) \<and>
      out = \<lparr>ac_coins = owned_coins (coin_openings c) (pp_recipient_owners params),
             ac_anchor = the (locate chain (cons_anchor_ref c))\<rparr>" for d
    by (cases d) (auto simp: driver_outcome_def split: k_reject_reason.splits)
  have keys: "list_all (\<lambda>oc. oo_first oc = Some (k_location l)) (map (observe_occurrence chain) ks) \<longleftrightarrow>
      list_all (\<lambda>key. first_nullifier_occurrence chain key = Some l) ks" for l ks
    by (auto simp: list_all_iff observe_occurrence_def)
  show ?thesis
    unfolding accept_decides outcome decide_Accept
    by (auto simp: observe_def Let_def binding_checks_def proof_checks_def keys split: option.splits)
qed

lemma accepted_first:
  assumes "accept_for_public_owners sp c chain verify params = Inr out" "nf \<in> set (nullifiers c)"
    and "anchor_at chain (cons_anchor_ref c) = Some rcd" "\<And>s. rcd \<noteq> XferCompressed s" "\<And>a v m. rcd \<noteq> Mint a v m"
  shows "first_nullifier_occurrence chain nf = Some (ac_anchor out)"
  using assms by (cases rcd) (auto simp: accept_Inr occurrence_keys_def list_all_iff)

lemma sort_eq_iff: "sort xs = sort ys \<longleftrightarrow> mset xs = mset ys"
  by (metis mset_sort properties_for_sort sorted_sort)

lemma xfer_binds_iff:
  "record_binds_nullifiers sp (Xfer p q) ctx nfs \<longleftrightarrow>
     distinct (map to_elems nfs) \<and> nfs \<noteq> [] \<and>
     mset (filter (\<lambda>s. s \<noteq> zero24) [p, q]) = mset (map (\<lambda>nf. to_anchor (binding sp nf ctx)) nfs)"
proof -
  have dist: "nullifiers_are_distinct nfs \<longleftrightarrow> distinct (map to_elems nfs)"
    by (metis card_distinct distinct_card length_map nullifiers_are_distinct_def)
  have ne: "sort (map f nfs) \<noteq> [] \<longleftrightarrow> nfs \<noteq> []" for f :: "digest \<Rightarrow> truncated_digest"
    by (metis length_0_conv length_map length_sort)
  show ?thesis
    unfolding record_binds_nullifiers_def Let_def dist anchor_record.case ne sort_eq_iff by simp
qed

lemma xfer_binds_length:
  "record_binds_nullifiers sp (Xfer p q) ctx nfs \<Longrightarrow> length nfs \<le> 2"
proof -
  assume "record_binds_nullifiers sp (Xfer p q) ctx nfs"
  then have "length nfs = length (filter (\<lambda>s. s \<noteq> zero24) [p, q])"
    by (metis xfer_binds_iff length_map size_mset)
  also have "\<dots> \<le> 2" using length_filter_le [of _ "[p, q]"] by simp
  finally show ?thesis .
qed

lemma mock_accepted_first:
  assumes "accept_for_public_owners sp c (mock_view sp ch) verify params = Inr out" "nf \<in> set (nullifiers c)"
    and "\<And>s. anchor_at (mock_view sp ch) (cons_anchor_ref c) \<noteq> Some (XferCompressed s)"
  shows "first_nullifier_occurrence (mock_view sp ch) nf = Some (ac_anchor out)"
proof -
  obtain rcd where rcd: "anchor_at (mock_view sp ch) (cons_anchor_ref c) = Some rcd"
    using assms(1) by (auto simp: accept_Inr)
  then have pr: "proof_record_at (mock_view sp ch) (cons_anchor_ref c) (nullifiers c) = Some (Mint a v m)" if "rcd = Mint a v m" for a v m
    using that by (simp add: mock_view_def default_proof_record_at_def)
  show ?thesis
  proof (rule accepted_first [OF assms(1,2) rcd])
    show "rcd \<noteq> XferCompressed s" for s using assms(3) rcd by auto
    show "rcd \<noteq> Mint a v m" for a v m
      using assms(1,2) pr by (auto simp: accept_Inr record_binds_nullifiers_def split: if_splits)
  qed
qed

lemma concat_104_inj:
  assumes "concat (map to_public_input_bytes os) = concat (map to_public_input_bytes os')"
    and "list_all opening_sized os" "list_all opening_sized os'"
  shows "os = os'"
  using assms
proof (induction os arbitrary: os')
  case Nil
  then show ?case by (cases os') (auto dest!: arg_cong [of _ _ length])
next
  case (Cons x os)
  then obtain y ys where "os' = y # ys"
    by (cases os') (auto dest!: arg_cong [of _ _ length])
  with Cons show ?case
    by (auto simp: append_eq_append_length to_public_input_inj)
qed

section \<open>Properties\<close>

text \<open>
  Claim C1. The driver implements the pure kernel decision on every branch: with all
  observations gathered up front, its result is the kernel's verdict on them (accepted coins and
  location, or the same rejection), although it returns early and queries lazily. The one
  refinement is that a missing proof record is reported as an ill-formed anchor, not as an
  invalid proof.
\<close>
theorem accept_refines_decide:
  "accept_for_public_owners sp c chain verify params =
     driver_outcome c chain params (decide (observe sp c chain verify params))"
  by (rule accept_decides)

text \<open>
  What acceptance means: the anchor, its context and location resolve, the proof
  verifies on the reconstructed public input, the depth suffices, the record binds exactly the
  nullifiers, the first occurrence of every occurrence key is this anchor, and the credited coins
  are the non-empty list of openings owned by the recipient's keys.
\<close>
theorem accept_iff:
  "accept sp c chain verify params = Inr out \<longleftrightarrow>
     (\<exists>rcd ctx pr. anchor_at chain (cons_anchor_ref c) = Some rcd \<and> ctx_at chain (cons_anchor_ref c) = Some ctx \<and>
        locate chain (cons_anchor_ref c) = Some (ac_anchor out) \<and>
        proof_record_at chain (cons_anchor_ref c) (nullifiers c) = Some pr \<and>
        coin_openings c \<noteq> [] \<and> observe_asset sp c (ap_known_assets params) = AssetValid \<and>
        nullifiers_are_distinct (nullifiers c) \<and>
        verify (ap_vk params) (public_input pr ctx (coin_openings c)) (proof_bytes c) \<and>
        ap_required_confirmations params \<le> confirmations_at chain (al_height (ac_anchor out)) \<and>
        record_binds_nullifiers sp pr ctx (nullifiers c) \<and>
        list_all (\<lambda>key. first_nullifier_occurrence chain key = Some (ac_anchor out))
          (occurrence_keys sp rcd (nullifiers c)) \<and>
        owned_coins (coin_openings c) (map (owner sp) (ap_recipient_secrets params)) \<noteq> [] \<and>
        out = \<lparr>ac_coins = owned_coins (coin_openings c) (map (owner sp) (ap_recipient_secrets params)),
               ac_anchor = ac_anchor out\<rparr>)"
  unfolding accept_def accept_Inr by simp

text \<open>
  Claim C2. No double spend through the driver: on a growing chain, two consignments that
  share a raw nullifier and are both accepted, possibly at different times, by different
  verifiers and under different policies, are anchored at the same location, provided neither
  anchor is a compressed transfer.
\<close>
theorem no_double_spend:
  assumes "(mock_step sp)\<^sup>*\<^sup>* mock_new ch" "(mock_step sp)\<^sup>*\<^sup>* ch ch'"
    and "accept_for_public_owners sp c (mock_view sp ch) verify params = Inr out"
    and "accept_for_public_owners sp c' (mock_view sp ch') verify' params' = Inr out'"
    and "nf \<in> set (nullifiers c)" "nf \<in> set (nullifiers c')"
    and "\<And>s. anchor_at (mock_view sp ch) (cons_anchor_ref c) \<noteq> Some (XferCompressed s)"
    and "\<And>s. anchor_at (mock_view sp ch') (cons_anchor_ref c') \<noteq> Some (XferCompressed s)"
  shows "ac_anchor out = ac_anchor out'"
proof -
  have "first_nullifier_occurrence (mock_view sp ch) nf = Some (ac_anchor out)"
    by (rule mock_accepted_first [OF assms(3,5,7)])
  then have "first_nullifier_occurrence (mock_view sp ch') nf = Some (ac_anchor out)"
    using first_occurrence_stays [OF assms(1,2)] by blast
  moreover have "first_nullifier_occurrence (mock_view sp ch') nf = Some (ac_anchor out')"
    by (rule mock_accepted_first [OF assms(4,6,8)])
  ultimately show ?thesis by simp
qed

text \<open>
  An untagged transfer record binds a consignment exactly when the nullifiers are
  pairwise distinct field elements and their bound payloads are, as a multiset, the non-zero
  slots of the record: nothing is smuggled in and no slot is left unexplained. In particular a
  record parsed from anchor bytes never binds three or more nullifiers.
\<close>
theorem transfer_binding_exact:
  "(record_binds_nullifiers sp (Xfer p q) ctx nfs \<longleftrightarrow>
      distinct (map to_elems nfs) \<and> nfs \<noteq> [] \<and>
      mset (filter (\<lambda>s. s \<noteq> zero24) [p, q]) = mset (map (\<lambda>nf. to_anchor (binding sp nf ctx)) nfs)) \<and>
   \<not> (record_binds_nullifiers sp (from_bytes bs) ctx nfs \<and> 3 \<le> length nfs)"
proof
  show "\<not> (record_binds_nullifiers sp (from_bytes bs) ctx nfs \<and> 3 \<le> length nfs)"
  proof (cases "from_bytes bs")
    case (Xfer a b)
    then show ?thesis using xfer_binds_length [of sp a b ctx nfs] by auto
  qed (auto simp: record_binds_nullifiers_def Let_def from_bytes_def split: if_splits)
qed (rule xfer_binds_iff)

text \<open>
  The proof public input is unambiguous: two statements with the same bytes have the
  same context, the same 64 anchor bytes and the same openings in the same order.
\<close>
theorem public_input_inj:
  assumes "public_input r ctx os = public_input r' ctx' os'"
    and "length ctx = 32" "length ctx' = 32" "record_sized r" "record_sized r'"
    and "list_all opening_sized os" "list_all opening_sized os'"
  shows "ctx = ctx' \<and> to_bytes r = to_bytes r' \<and> os = os'"
proof -
  have "ctx = ctx' \<and> to_bytes r = to_bytes r' \<and>
      concat (map to_public_input_bytes os) = concat (map to_public_input_bytes os')"
    using assms length_to_bytes by (simp add: public_input_def append_eq_append_length)
  with assms(6,7) show ?thesis using concat_104_inj by blast
qed

theorem public_input_inj_witness:
  "to_bytes (Xfer zero24 zero24) = to_bytes (XferCompressed zero24)"
proof -
  have "public_input (Xfer zero24 zero24) (replicate 32 0) [] = public_input (XferCompressed zero24) (replicate 32 0) []"
    by (simp add: public_input_def to_bytes_layout zero24_def del: to_bytes.simps)
  from public_input_inj [OF this] show ?thesis by (simp add: zero24_def)
qed

text \<open>
  The mock verifier accepts exactly the proof the mock prover makes for the same key
  and statement.
\<close>
theorem mock_verify_iff: "mock_verify vk x pf \<longleftrightarrow> pf = mock_prove vk x"
proof
  assume "mock_verify vk x pf"
  then show "pf = mock_prove vk x"
    unfolding mock_verify_def mock_prove_def by (metis append_take_drop_id)
qed (simp add: mock_verify_def mock_prove_def)

section \<open>A concrete chain\<close>

text \<open>A toy sponge that adds up what it absorbs, and two spends of one coin under it.\<close>

definition sum_sponge :: sponge where
  "sum_sponge xs = sum_list xs mod BABY_BEAR_P # replicate 7 0"

definition tag_digest :: "nat \<Rightarrow> digest" where
  "tag_digest n = from_elems (n mod BABY_BEAR_P # replicate 7 0)"

lemma sum_sponge_ok [simp]: "sponge_ok sum_sponge"
  by (auto simp: sponge_ok_def sum_sponge_def DIGEST_ELEMS_def BABY_BEAR_P_def)

lemma sum_sponge_digest: "from_elems (sum_sponge xs) = tag_digest (sum_list xs)"
  by (simp add: sum_sponge_def tag_digest_def)

lemma elems_tag: "n < BABY_BEAR_P \<Longrightarrow> to_elems (tag_digest n) = n # replicate 7 0"
  by (auto simp: tag_digest_def BABY_BEAR_P_def intro!: to_from_elems)

lemma length_tag [simp]: "length (tag_digest n) = 32"
  by (simp add: tag_digest_def)

lemma anchor_tag_inj:
  assumes "to_anchor (tag_digest m) = to_anchor (tag_digest n)" "m < BABY_BEAR_P" "n < BABY_BEAR_P"
  shows "m = n"
proof -
  have tag: "take 4 (to_anchor (tag_digest k)) = to_le_bytes (word_of_nat k :: u32)" if "k < BABY_BEAR_P" for k
    using that by (simp add: tag_digest_def to_anchor_def from_elems_def elems_to_canonical_u32s_def
        TRUNCATED_DIGEST_BYTES_def)
  have "(word_of_nat m :: u32) = word_of_nat n"
    using tag [OF assms(2)] tag [OF assms(3)] assms(1) by (simp add: to_le_bytes_inj)
  moreover have "unat (word_of_nat k :: u32) = k" if "k < BABY_BEAR_P" for k
    using that by (simp add: unat_of_nat BABY_BEAR_P_def)
  ultimately show ?thesis using assms(2,3) by metis
qed

definition bind_offset :: nat where "bind_offset = 21 + 0x6e6962 + 0x64"

lemma sum_binding:
  assumes "n < BABY_BEAR_P" "sum_list (bytes_to_felts ctx) = k" "length ctx = 32"
  shows "k_binding sum_sponge (tag_digest n) ctx = to_anchor (tag_digest (bind_offset + n + k))"
proof -
  have "bytes_to_felts (str_bytes ''bind'') = [0x6e6962, 0x64]"
    by (simp add: bytes_to_felts_eq str_bytes_def chunks_step)
  with assms have "sum_list (bind_input (tag_digest n) ctx) = bind_offset + n + k"
    by (simp add: bind_input_def hash_input_def Let_def elems_tag felt_def BABY_BEAR_P_def bind_offset_def
        sum_list_replicate)
  then show ?thesis by (simp add: k_binding_input sum_sponge_digest)
qed

lemma sum_nullifier_commit:
  assumes "n < BABY_BEAR_P"
  shows "nullifier_commit sum_sponge [tag_digest n] = tag_digest (10 + 0x656678 + 0x72 + n)"
proof -
  have "bytes_to_felts (str_bytes ''xfer'') = [0x656678, 0x72]"
    by (simp add: bytes_to_felts_eq str_bytes_def chunks_step)
  with assms show ?thesis
    by (simp add: nullifier_commit_def hash_felts_def hash_input_def Let_def sum_sponge_digest elems_tag
        felt_def BABY_BEAR_P_def sum_list_replicate)
qed

definition ctx_a :: ctx where "ctx_a = replicate 32 0"
definition ctx_b :: ctx where "ctx_b = 1 # replicate 31 0"

lemma ctx_sums:
  "sum_list (bytes_to_felts ctx_a) = 0" "sum_list (bytes_to_felts ctx_b) = 1"
  "length ctx_a = 32" "length ctx_b = 32"
  by (simp_all add: ctx_a_def ctx_b_def bytes_to_felts_eq chunks_step numeral_eq_Suc)

definition demo_commit :: nat where "demo_commit = 10 + 0x656678 + 0x72 + 5"

definition slot_a :: truncated_digest where "slot_a = to_anchor (tag_digest (bind_offset + 5))"
definition slot_b :: truncated_digest where "slot_b = to_anchor (tag_digest (bind_offset + demo_commit + 1))"

definition demo_chain :: mock_chain where
  "demo_chain =
     snd (append_with_ctx sum_sponge (XferCompressed slot_b) ctx_b
       (snd (append_with_ctx sum_sponge (Xfer slot_a zero24) ctx_a mock_new)))"

definition demo_ref_a :: anchor_ref where
  "demo_ref_a = fst (append_with_ctx sum_sponge (Xfer slot_a zero24) ctx_a mock_new)"

definition demo_ref_b :: anchor_ref where
  "demo_ref_b = fst (append_with_ctx sum_sponge (XferCompressed slot_b) ctx_b
       (snd (append_with_ctx sum_sponge (Xfer slot_a zero24) ctx_a mock_new)))"

lemma demo_slots:
  "k_binding sum_sponge (tag_digest 5) ctx_a = slot_a"
  "nullifier_commit sum_sponge [tag_digest 5] = tag_digest demo_commit"
  "k_binding sum_sponge (tag_digest demo_commit) ctx_b = slot_b"
  by (simp_all add: sum_binding ctx_sums slot_a_def slot_b_def sum_nullifier_commit demo_commit_def BABY_BEAR_P_def)

lemma tag_zero24: "to_anchor (tag_digest 0) = zero24"
  by (simp add: tag_digest_def from_elems_zero to_anchor_def TRUNCATED_DIGEST_BYTES_def zero24_def
      flip: replicate_Suc)

lemma demo_apart:
  "k_binding sum_sponge (tag_digest demo_commit) ctx_a \<noteq> slot_a"
  "k_binding sum_sponge (tag_digest demo_commit) ctx_a \<noteq> zero24"
  "slot_a \<noteq> zero24"
  unfolding tag_zero24 [symmetric] slot_a_def
  by (auto simp: sum_binding ctx_sums demo_commit_def bind_offset_def BABY_BEAR_P_def dest!: anchor_tag_inj)

lemma demo_reachable: "(mock_step sum_sponge)\<^sup>*\<^sup>* mock_new demo_chain"
proof -
  let ?c = "snd (append_with_ctx sum_sponge (Xfer slot_a zero24) ctx_a mock_new)"
  have tips: "at_tip mock_new = 0" "at_tip ?c = 1"
    by (simp_all add: at_tip_append) (simp_all add: at_tip_def mock_new_def)
  have "mock_step sum_sponge mock_new ?c" "mock_step sum_sponge ?c demo_chain"
    unfolding demo_chain_def by (rule mock_step.append, simp add: tips)+
  then show ?thesis by (meson rtranclp.simps)
qed

lemma demo_locations:
  "ar_location demo_ref_a = \<lparr>al_height = 0, al_position = 0\<rparr>"
  "ar_location demo_ref_b = \<lparr>al_height = 0, al_position = 1\<rparr>"
  by (simp_all add: demo_ref_a_def demo_ref_b_def append_location at_tip_append at_tip_def [of mock_new] append_entries)
    (simp_all add: mock_new_def)

definition demo_opening :: "u64 \<Rightarrow> coin_opening" where
  "demo_opening v = \<lparr>op_asset_id = ctx_a, op_value = v, op_owner = ctx_a, op_randomness = ctx_a\<rparr>"

definition demo_params :: public_owner_accept_params where
  "demo_params = \<lparr>pp_vk = [], pp_required_confirmations = 1, pp_recipient_owners = [ctx_a], pp_known_assets = [ctx_a]\<rparr>"

definition demo_consignment :: "u64 \<Rightarrow> anchor_ref \<Rightarrow> anchor_record \<Rightarrow> ctx \<Rightarrow> consignment" where
  "demo_consignment v ref r ctx =
     \<lparr>coin_openings = [demo_opening v], nullifiers = [tag_digest 5],
      proof_bytes = mock_prove [] (public_input r ctx [demo_opening v]), cons_anchor_ref = ref, aux = None\<rparr>"

lemma mock_find_new: "mock_find mock_new ref = None"
  by (simp add: mock_find_def mock_new_def)

lemma demo_refs_neq: "demo_ref_a \<noteq> demo_ref_b"
  using demo_locations by auto

lemma demo_find:
  "mock_find demo_chain demo_ref_a =
     Some \<lparr>me_txid = ar_txid demo_ref_a, me_location = ar_location demo_ref_a, me_record = Xfer slot_a zero24, me_ctx = ctx_a\<rparr>"
  "mock_find demo_chain demo_ref_b =
     Some \<lparr>me_txid = ar_txid demo_ref_b, me_location = ar_location demo_ref_b, me_record = XferCompressed slot_b, me_ctx = ctx_b\<rparr>"
  using demo_refs_neq
  by (simp_all add: demo_chain_def mock_find_append mock_find_new flip: demo_ref_a_def demo_ref_b_def)

lemma demo_entries:
  "mc_entries demo_chain =
     [\<lparr>me_txid = ar_txid demo_ref_a, me_location = ar_location demo_ref_a, me_record = Xfer slot_a zero24, me_ctx = ctx_a\<rparr>,
      \<lparr>me_txid = ar_txid demo_ref_b, me_location = ar_location demo_ref_b, me_record = XferCompressed slot_b, me_ctx = ctx_b\<rparr>]"
  unfolding demo_chain_def append_entries demo_ref_a_def [symmetric] demo_ref_b_def [symmetric] by (simp add: mock_new_def)

lemma demo_first:
  "mock_first_nullifier_occurrence sum_sponge demo_chain (tag_digest 5) = Some (ar_location demo_ref_a)"
  "mock_first_nullifier_occurrence sum_sponge demo_chain (tag_digest demo_commit) = Some (ar_location demo_ref_b)"
  using demo_apart by (simp_all add: mock_first_eq demo_entries well_formed_iff_slot demo_slots)

lemma demo_view:
  "anchor_at (mock_view sum_sponge demo_chain) demo_ref_a = Some (Xfer slot_a zero24)"
  "anchor_at (mock_view sum_sponge demo_chain) demo_ref_b = Some (XferCompressed slot_b)"
  "ctx_at (mock_view sum_sponge demo_chain) demo_ref_a = Some ctx_a"
  "ctx_at (mock_view sum_sponge demo_chain) demo_ref_b = Some ctx_b"
  "locate (mock_view sum_sponge demo_chain) demo_ref_a = Some (ar_location demo_ref_a)"
  "locate (mock_view sum_sponge demo_chain) demo_ref_b = Some (ar_location demo_ref_b)"
  "proof_record_at (mock_view sum_sponge demo_chain) demo_ref_a nfs = Some (Xfer slot_a zero24)"
  "proof_record_at (mock_view sum_sponge demo_chain) demo_ref_b nfs = Some (XferCompressed slot_b)"
  by (simp_all add: mock_view_def mock_anchor_at_def mock_ctx_at_def default_locate_def default_proof_record_at_def demo_find)

lemma demo_distinct: "nullifiers_are_distinct [tag_digest 5]"
  by (simp add: nullifiers_are_distinct_def)

lemma demo_binds:
  "record_binds_nullifiers sum_sponge (Xfer slot_a zero24) ctx_a [tag_digest 5]"
  "record_binds_nullifiers sum_sponge (XferCompressed slot_b) ctx_b [tag_digest 5]"
  using demo_apart(3)
  by (simp_all add: record_binds_nullifiers_def demo_distinct Let_def to_anchor_binding demo_slots)

lemma demo_accept:
  "accept_for_public_owners sum_sponge (demo_consignment v demo_ref_a (Xfer slot_a zero24) ctx_a)
     (mock_view sum_sponge demo_chain) mock_verify demo_params =
     Inr \<lparr>ac_coins = [to_coin (demo_opening v)], ac_anchor = ar_location demo_ref_a\<rparr>"
  "accept_for_public_owners sum_sponge (demo_consignment v demo_ref_b (XferCompressed slot_b) ctx_b)
     (mock_view sum_sponge demo_chain) mock_verify demo_params =
     Inr \<lparr>ac_coins = [to_coin (demo_opening v)], ac_anchor = ar_location demo_ref_b\<rparr>"
proof -
  have verify: "mock_verify vk x (mock_prove vk x)" for vk x by (simp add: mock_verify_def mock_prove_def)
  have tip: "confirmations_at (mock_view sum_sponge demo_chain) = default_confirmations_at 0"
    by (simp add: mock_view_def demo_chain_def append_entries) (simp add: mock_new_def)
  have first: "first_nullifier_occurrence (mock_view sum_sponge demo_chain) = mock_first_nullifier_occurrence sum_sponge demo_chain"
    by (simp add: mock_view_def)
  note facts = accept_Inr demo_consignment_def demo_view demo_params_def observe_asset_def demo_opening_def owned_coins_def
    demo_distinct verify demo_binds occurrence_keys_def demo_first demo_slots first default_confirmations_at_def tip demo_locations
  show "accept_for_public_owners sum_sponge (demo_consignment v demo_ref_a (Xfer slot_a zero24) ctx_a)
     (mock_view sum_sponge demo_chain) mock_verify demo_params =
     Inr \<lparr>ac_coins = [to_coin (demo_opening v)], ac_anchor = ar_location demo_ref_a\<rparr>"
    by (simp add: facts)
  show "accept_for_public_owners sum_sponge (demo_consignment v demo_ref_b (XferCompressed slot_b) ctx_b)
     (mock_view sum_sponge demo_chain) mock_verify demo_params =
     Inr \<lparr>ac_coins = [to_coin (demo_opening v)], ac_anchor = ar_location demo_ref_b\<rparr>"
    by (simp add: facts)
qed

theorem no_double_spend_witness:
  "ac_anchor \<lparr>ac_coins = [to_coin (demo_opening 7)], ac_anchor = ar_location demo_ref_a\<rparr> =
   ac_anchor \<lparr>ac_coins = [to_coin (demo_opening 8)], ac_anchor = ar_location demo_ref_a\<rparr>"
  by (rule no_double_spend [OF demo_reachable rtranclp.rtrancl_refl demo_accept(1) [of 7] demo_accept(1) [of 8],
        of "tag_digest 5"])
    (simp_all add: demo_consignment_def demo_view)

text \<open>
  Claim C7. A compressed transfer escapes the exclusion rule: it is looked up under the
  commitment to its whole nullifier list only, so on the concrete chain below one raw nullifier
  is spent by an ordinary transfer and again by a later compressed transfer, and the driver accepts
  both consignments, at two different anchors.
\<close>
theorem compressed_transfer_double_spend:
  "\<exists>ch c c' out out'. (mock_step sum_sponge)\<^sup>*\<^sup>* mock_new ch \<and>
     accept_for_public_owners sum_sponge c (mock_view sum_sponge ch) mock_verify demo_params = Inr out \<and>
     accept_for_public_owners sum_sponge c' (mock_view sum_sponge ch) mock_verify demo_params = Inr out' \<and>
     nullifiers c = nullifiers c' \<and> nullifiers c \<noteq> [] \<and> ac_anchor out \<noteq> ac_anchor out'"
proof (intro exI conjI)
  show "(mock_step sum_sponge)\<^sup>*\<^sup>* mock_new demo_chain" by (rule demo_reachable)
  show "accept_for_public_owners sum_sponge (demo_consignment 7 demo_ref_a (Xfer slot_a zero24) ctx_a)
     (mock_view sum_sponge demo_chain) mock_verify demo_params = Inr \<lparr>ac_coins = [to_coin (demo_opening 7)], ac_anchor = ar_location demo_ref_a\<rparr>"
    by (rule demo_accept)
  show "accept_for_public_owners sum_sponge (demo_consignment 7 demo_ref_b (XferCompressed slot_b) ctx_b)
     (mock_view sum_sponge demo_chain) mock_verify demo_params = Inr \<lparr>ac_coins = [to_coin (demo_opening 7)], ac_anchor = ar_location demo_ref_b\<rparr>"
    by (rule demo_accept)
qed (simp_all add: demo_consignment_def demo_locations)

end
