(* ===== verification/Batch_Wire.thy ===== *)
theory Batch_Wire
  imports Anchor Utf8
begin

text \<open>
  The canonical wire layer of \<open>crates/opencsv-bitcoin/src/batch_v2.rs\<close>: transaction values, the
  cursor \<open>Reader\<close> and message framing, and the contract of a field codec as a locale. The
  \<open>bitcoin\<close>, \<open>secp256k1\<close> and \<open>sha2\<close> crates are fields of one environment record, with what
  the code relies on in \<open>env_ok\<close>. A \<open>ProtocolError\<close> is its stable category; the free-text
  detail is left out. A compressed public key is its 33 bytes.
\<close>

section \<open>Transactions\<close>

record outpoint =
  op_txid :: bytes
  op_vout :: u32

record tx_in =
  previous_output :: outpoint
  script_sig :: bytes
  sequence :: u32
  witness :: "bytes list"

record tx_out =
  out_value :: u64
  script_pubkey :: bytes

record transaction =
  tx_version :: u32
  lock_time :: u32
  tx_input :: "tx_in list"
  tx_output :: "tx_out list"

text \<open>An ECDSA signature with its sighash byte; \<open>sig_core\<close> is the compact signature.\<close>

record ecdsa_signature =
  sig_core :: bytes
  sighash_type :: u32

record btc_env =
  sha256 :: "bytes \<Rightarrow> bytes"
  ser_outpoint :: "outpoint \<Rightarrow> bytes"
  de_outpoint :: "bytes \<Rightarrow> outpoint option"
  is_null :: "outpoint \<Rightarrow> bool"
  pubkey_from_slice :: "bytes \<Rightarrow> bytes option"
  ser_tx :: "transaction \<Rightarrow> bytes"
  de_tx :: "bytes \<Rightarrow> transaction option"
  tx_weight :: "transaction \<Rightarrow> nat"
  to_p2wpkh :: "bytes \<Rightarrow> bytes"
  to_p2wsh :: "bytes \<Rightarrow> bytes"
  new_op_return :: "bytes \<Rightarrow> bytes"
  push_key :: "bytes \<Rightarrow> bytes"
  p2wsh_sighash :: "transaction \<Rightarrow> nat \<Rightarrow> bytes \<Rightarrow> u64 \<Rightarrow> bytes option"
  p2wpkh_sighash :: "transaction \<Rightarrow> nat \<Rightarrow> bytes \<Rightarrow> u64 \<Rightarrow> bytes option"
  verify_ecdsa :: "bytes \<Rightarrow> bytes \<Rightarrow> bytes \<Rightarrow> bool"
  sign_ecdsa :: "bytes \<Rightarrow> bytes \<Rightarrow> bytes"
  pubkey_of :: "bytes \<Rightarrow> bytes"
  normalize_s :: "bytes \<Rightarrow> bytes"
  ser_sig :: "ecdsa_signature \<Rightarrow> bytes"
  sig_from_slice :: "bytes \<Rightarrow> ecdsa_signature option"
  is_op_return :: "bytes \<Rightarrow> bool"
  minimal_non_dust :: "bytes \<Rightarrow> u64"

definition outpoint_ok :: "outpoint \<Rightarrow> bool" where
  "outpoint_ok p \<longleftrightarrow> length (op_txid p) = 32"

text \<open>
  Documented behaviour of the libraries: an outpoint is encoded in 36 bytes, decoding inverts
  encoding, a parsed key is the slice itself, and a SHA-256 digest has 32 bytes. What the decoders of
  transactions and signatures do with their own encoding is a hypothesis of the lemmas that need it.
\<close>

definition env_ok :: "btc_env \<Rightarrow> bool" where
  "env_ok env \<longleftrightarrow>
     (\<forall>p. outpoint_ok p \<longrightarrow> length (ser_outpoint env p) = 36 \<and> de_outpoint env (ser_outpoint env p) = Some p) \<and>
     (\<forall>bs p. de_outpoint env bs = Some p \<longrightarrow> outpoint_ok p) \<and>
     (\<forall>bs k. pubkey_from_slice env bs = Some k \<longrightarrow> k = bs) \<and>
     (\<forall>m. length (sha256 env m) = 32)"

section \<open>Errors and constants\<close>

datatype rejection_reason =
    InvalidVersion | WrongChain | InvalidSerialization | InvalidStock | StaleChainState
  | ExpiredProposal | InvalidCommitment | DuplicateCommitment | ConflictingOperation
  | UnavailableFeeInput | NoncanonicalOrder | PayloadContextMismatch | HeaderMismatch
  | ProtocolLayoutViolation | FeePolicyViolation | InsufficientChange | ArithmeticOverflow
  | SignaturePolicyViolation | InvalidSignature | ReplacementViolation | StorageFailure

definition LEGACY_VERSION :: u16 where "LEGACY_VERSION = 2"
definition VERSION :: u16 where "VERSION = 3"
definition MESSAGE_MAGIC :: bytes where "MESSAGE_MAGIC = [0x4F, 0x43, 0x53, 0x56, 0x42, 0x32, 0, 0]"
definition TX_VERSION :: u32 where "TX_VERSION = 2"
definition INPUT_SEQUENCE :: u32 where "INPUT_SEQUENCE = 0xFFFFFFFD"
definition MIN_OUTPUT_SATS :: u64 where "MIN_OUTPUT_SATS = 546"
definition PROPOSAL_KIND :: u8 where "PROPOSAL_KIND = 0x01"
definition COMMITMENT_KIND :: u8 where "COMMITMENT_KIND = 0x02"
definition MANIFEST_KIND :: u8 where "MANIFEST_KIND = 0x03"
definition SIGNATURE_KIND :: u8 where "SIGNATURE_KIND = 0x04"

definition MARKER_SPK :: bytes where
  "MARKER_SPK =
    [0x00, 0x20, 0x18, 0x9f, 0x40, 0x03, 0x4b, 0xe7, 0xa1, 0x99, 0xf1, 0xfa, 0x98, 0x91, 0x66, 0x8e,
     0xe3, 0xab, 0x60, 0x49, 0xf8, 0x2d, 0x38, 0xc6, 0x8b, 0xe7, 0x0f, 0x59, 0x6e, 0xab, 0x2e, 0x18,
     0x57, 0xb7]"

definition LEGACY_MARKER_SPK :: bytes where
  "LEGACY_MARKER_SPK =
    [0x00, 0x20, 0x4a, 0xe8, 0x15, 0x72, 0xf0, 0x6e, 0x1b, 0x88, 0xfd, 0x5c, 0xed, 0x7a, 0x1a, 0x00,
     0x09, 0x45, 0x43, 0x2e, 0x83, 0xe1, 0x55, 0x1e, 0x6f, 0x72, 0x1e, 0xe9, 0xc0, 0x0b, 0x8c, 0xc3,
     0x32, 0x60]"

definition is_marker_spk :: "bytes \<Rightarrow> bool" where
  "is_marker_spk spk = (spk = MARKER_SPK \<or> spk = LEGACY_MARKER_SPK)"

definition MARKER_DUST_SATS :: u64 where "MARKER_DUST_SATS = 546"

definition funding_ctx :: "btc_env \<Rightarrow> bytes \<Rightarrow> u32 \<Rightarrow> bytes" where
  "funding_ctx env txid vout = sha256 env (txid @ to_le_bytes vout)"

section \<open>Framing\<close>

definition domain_hash :: "btc_env \<Rightarrow> string \<Rightarrow> bytes \<Rightarrow> bytes" where
  "domain_hash env domain body = sha256 env (str_bytes domain @ [0] @ body)"

definition wire_message :: "u8 \<Rightarrow> bytes \<Rightarrow> bytes" where
  "wire_message kind body =
     MESSAGE_MAGIC @ [kind] @ to_le_bytes (word_of_nat (length body) :: u32) @ body"

definition wire_body :: "bytes \<Rightarrow> u8 \<Rightarrow> rejection_reason + bytes" where
  "wire_body wire expected_kind =
     (if length wire < 13 \<or> take 8 wire \<noteq> MESSAGE_MAGIC then Inl InvalidSerialization
      else if wire ! 8 \<noteq> expected_kind then Inl InvalidSerialization
      else
        (let declared = unat (from_le_bytes (slice 9 13 wire) :: u32) in
         if declared \<noteq> length wire - 13 then Inl InvalidSerialization
         else Inr (drop 13 wire)))"

definition require_canonical_wire :: "bytes \<Rightarrow> bytes \<Rightarrow> rejection_reason + unit" where
  "require_canonical_wire actual canonical =
     (if actual \<noteq> canonical then Inl InvalidSerialization else Inr ())"

definition encode_script :: "bytes \<Rightarrow> bytes" where
  "encode_script script = to_le_bytes (word_of_nat (length script) :: u16) @ script"

section \<open>The cursor\<close>

record reader =
  r_bytes :: bytes
  r_position :: nat

definition reader_new :: "bytes \<Rightarrow> reader" where
  "reader_new bs = \<lparr>r_bytes = bs, r_position = 0\<rparr>"

text \<open>\<open>usize\<close> has 64 bits.\<close>

definition read_bytes :: "nat \<Rightarrow> reader \<Rightarrow> rejection_reason + bytes \<times> reader" where
  "read_bytes len r =
     (let e = r_position r + len in
      if \<not> e < 2 ^ 64 then Inl ArithmeticOverflow
      else if \<not> e \<le> length (r_bytes r) then Inl InvalidSerialization
      else Inr (slice (r_position r) e (r_bytes r), r\<lparr>r_position := e\<rparr>))"

definition read_array :: "nat \<Rightarrow> reader \<Rightarrow> rejection_reason + bytes \<times> reader" where
  "read_array n r = read_bytes n r"

definition read_u8 :: "reader \<Rightarrow> rejection_reason + u8 \<times> reader" where
  "read_u8 r = and_then (read_bytes 1 r) (\<lambda>(bs, r'). Inr (bs ! 0, r'))"

definition read_u16 :: "reader \<Rightarrow> rejection_reason + u16 \<times> reader" where
  "read_u16 r = and_then (read_array 2 r) (\<lambda>(bs, r'). Inr (from_le_bytes bs, r'))"

definition read_u32 :: "reader \<Rightarrow> rejection_reason + u32 \<times> reader" where
  "read_u32 r = and_then (read_array 4 r) (\<lambda>(bs, r'). Inr (from_le_bytes bs, r'))"

definition read_u64 :: "reader \<Rightarrow> rejection_reason + u64 \<times> reader" where
  "read_u64 r = and_then (read_array 8 r) (\<lambda>(bs, r'). Inr (from_le_bytes bs, r'))"

definition read_outpoint :: "btc_env \<Rightarrow> reader \<Rightarrow> rejection_reason + outpoint \<times> reader" where
  "read_outpoint env r = and_then (read_bytes 36 r) (\<lambda>(bs, r').
     case de_outpoint env bs of None \<Rightarrow> Inl InvalidSerialization | Some p \<Rightarrow> Inr (p, r'))"

definition read_public_key :: "btc_env \<Rightarrow> reader \<Rightarrow> rejection_reason + bytes \<times> reader" where
  "read_public_key env r = and_then (read_bytes 33 r) (\<lambda>(bs, r').
     case pubkey_from_slice env bs of None \<Rightarrow> Inl InvalidSerialization | Some k \<Rightarrow> Inr (k, r'))"

definition read_script :: "reader \<Rightarrow> rejection_reason + bytes \<times> reader" where
  "read_script r = and_then (read_u16 r) (\<lambda>(len, r'). read_bytes (unat len) r')"

definition reader_finish :: "reader \<Rightarrow> rejection_reason + unit" where
  "reader_finish r = (if r_position r \<noteq> length (r_bytes r) then Inl InvalidSerialization else Inr ())"

text \<open>A \<open>for _ in 0..n\<close> loop that pushes what it reads.\<close>

fun read_times :: "(reader \<Rightarrow> rejection_reason + 'a \<times> reader) \<Rightarrow> nat \<Rightarrow> reader \<Rightarrow> rejection_reason + 'a list \<times> reader" where
  "read_times rd 0 r = Inr ([], r)"
| "read_times rd (Suc n) r =
     and_then (rd r) (\<lambda>(x, r'). and_then (read_times rd n r') (\<lambda>(xs, r''). Inr (x # xs, r'')))"

section \<open>The codec contract\<close>

text \<open>A reader between what it has consumed and what is left, on a message a machine can hold.\<close>

definition cursor :: "bytes \<Rightarrow> bytes \<Rightarrow> reader" where
  "cursor pre suf = \<lparr>r_bytes = pre @ suf, r_position = length pre\<rparr>"

definition fits :: "bytes \<Rightarrow> bool" where
  "fits bs \<longleftrightarrow> length bs < 2 ^ 64"

text \<open>
  Every field codec reads back what was encoded and leaves the rest, and only yields values
  of its type. \<open>ok\<close> is the assumption on the environment that the codec needs.
\<close>

locale field_codec =
  fixes enc :: "'a \<Rightarrow> bytes"
    and rd :: "reader \<Rightarrow> rejection_reason + 'a \<times> reader"
    and valid :: "'a \<Rightarrow> bool"
    and ok :: bool
  assumes read_back: "ok \<Longrightarrow> valid x \<Longrightarrow> fits (pre @ enc x @ bs) \<Longrightarrow>
      rd (cursor pre (enc x @ bs)) = Inr (x, cursor (pre @ enc x) bs)"
    and read_valid: "ok \<Longrightarrow> rd r = Inr (x, r') \<Longrightarrow> valid x"
begin

lemma read_end: "ok \<Longrightarrow> valid x \<Longrightarrow> fits (pre @ enc x) \<Longrightarrow>
    rd (cursor pre (enc x)) = Inr (x, cursor (pre @ enc x) [])"
  using read_back [of x pre "[]"] by simp

lemma read_list:
  "ok \<Longrightarrow> list_all valid xs \<Longrightarrow> n = length xs \<Longrightarrow> fits (pre @ concat (map enc xs) @ bs) \<Longrightarrow>
     read_times rd n (cursor pre (concat (map enc xs) @ bs)) =
       Inr (xs, cursor (pre @ concat (map enc xs)) bs)"
proof (induction xs arbitrary: pre n)
  case (Cons x xs)
  then show ?case
    using read_back [of x pre "concat (map enc xs) @ bs"] Cons.IH [of "length xs" "pre @ enc x"] by simp
qed simp

lemma read_list_valid:
  "ok \<Longrightarrow> read_times rd n r = Inr (xs, r') \<Longrightarrow> length xs = n \<and> list_all valid xs"
  by (induction n arbitrary: r xs) (auto simp: and_then_Inr intro: read_valid split: prod.splits)

end

lemma read_bytes_cursor:
  "length x = n \<Longrightarrow> fits (pre @ x @ bs) \<Longrightarrow> read_bytes n (cursor pre (x @ bs)) = Inr (x, cursor (pre @ x) bs)"
  by (simp add: read_bytes_def cursor_def fits_def slice_def)

lemma read_bytes_Inr: "read_bytes n r = Inr (x, r') \<Longrightarrow> length x = n"
  by (auto simp: read_bytes_def Let_def split: if_splits)

interpretation array: field_codec "\<lambda>x. x" "read_array n" "\<lambda>x. length x = n" True for n
  by unfold_locales (simp_all add: read_array_def read_bytes_cursor read_bytes_Inr)

interpretation u8: field_codec "\<lambda>x. [x]" read_u8 "\<lambda>_. True" True
proof
  fix x pre bs
  assume "fits (pre @ [x] @ bs)"
  then have "read_bytes 1 (cursor pre ([x] @ bs)) = Inr ([x], cursor (pre @ [x]) bs)"
    by (intro read_bytes_cursor) simp_all
  then show "read_u8 (cursor pre ([x] @ bs)) = Inr (x, cursor (pre @ [x]) bs)"
    by (simp add: read_u8_def del: append_Cons)
qed simp

interpretation u16: field_codec to_le_bytes read_u16 "\<lambda>_. True" True
  by unfold_locales (simp_all add: read_u16_def read_array_def read_bytes_cursor)

interpretation u32: field_codec to_le_bytes read_u32 "\<lambda>_. True" True
  by unfold_locales (simp_all add: read_u32_def read_array_def read_bytes_cursor)

interpretation u64: field_codec to_le_bytes read_u64 "\<lambda>_. True" True
  by unfold_locales (simp_all add: read_u64_def read_array_def read_bytes_cursor)

interpretation outpoint: field_codec "ser_outpoint env" "read_outpoint env" outpoint_ok "env_ok env" for env
proof
  fix p pre bs
  assume "env_ok env" "outpoint_ok p" "fits (pre @ ser_outpoint env p @ bs)"
  then show "read_outpoint env (cursor pre (ser_outpoint env p @ bs)) = Inr (p, cursor (pre @ ser_outpoint env p) bs)"
    by (simp add: read_outpoint_def env_ok_def read_bytes_cursor)
next
  fix r p r'
  assume "env_ok env" "read_outpoint env r = Inr (p, r')"
  then show "outpoint_ok p"
    by (auto simp: read_outpoint_def env_ok_def and_then_Inr split: option.splits)
qed

definition pubkey_ok :: "btc_env \<Rightarrow> bytes \<Rightarrow> bool" where
  "pubkey_ok env k \<longleftrightarrow> length k = 33 \<and> pubkey_from_slice env k = Some k"

interpretation pubkey: field_codec "\<lambda>k. k" "read_public_key env" "pubkey_ok env" "env_ok env" for env
proof
  fix k pre bs
  assume "env_ok env" "pubkey_ok env k" "fits (pre @ k @ bs)"
  then show "read_public_key env (cursor pre (k @ bs)) = Inr (k, cursor (pre @ k) bs)"
    by (simp add: read_public_key_def pubkey_ok_def read_bytes_cursor)
next
  fix r k r'
  assume "env_ok env" "read_public_key env r = Inr (k, r')"
  then show "pubkey_ok env k"
    unfolding read_public_key_def env_ok_def pubkey_ok_def
    by (auto simp: and_then_Inr split: option.splits) (metis read_bytes_Inr, metis)
qed

lemma unat_u16: "n < 2 ^ 16 \<Longrightarrow> unat (word_of_nat n :: u16) = n"
  by (simp add: unat_of_nat)

interpretation script: field_codec encode_script read_script "\<lambda>s. length s < 2 ^ 16" True
proof
  fix x :: bytes and pre bs
  assume "length x < 2 ^ 16" "fits (pre @ encode_script x @ bs)"
  then show "read_script (cursor pre (encode_script x @ bs)) = Inr (x, cursor (pre @ encode_script x) bs)"
    using u16.read_back [where x = "word_of_nat (length x)" and pre = pre and bs = "x @ bs"]
    by (simp add: read_script_def encode_script_def unat_u16 read_bytes_cursor)
next
  fix r x r'
  assume "read_script r = Inr (x, r')"
  then obtain len where "length x = unat (len :: u16)"
    by (auto simp: read_script_def and_then_Inr dest: read_bytes_Inr)
  then show "length x < 2 ^ 16" using unat_bounds(2) [of len] by simp
qed

lemmas codec_reads =
  array.read_back [simplified] array.read_end [simplified] u8.read_back [simplified] u8.read_end [simplified]
  u16.read_back [simplified] u16.read_end [simplified] u32.read_back [simplified] u32.read_end [simplified]
  u64.read_back [simplified] u64.read_end [simplified] outpoint.read_back outpoint.read_end
  pubkey.read_back pubkey.read_end script.read_back [simplified] script.read_end [simplified]

section \<open>Framing lemmas\<close>

lemma reader_new_cursor: "reader_new bs = cursor [] bs"
  by (simp add: reader_new_def cursor_def)

lemma reader_finish_cursor [simp]: "reader_finish (cursor pre []) = Inr ()"
  by (simp add: reader_finish_def cursor_def)

lemma require_canonical_Inr [simp]: "require_canonical_wire a c = Inr u \<longleftrightarrow> a = c"
  by (simp add: require_canonical_wire_def)

lemma require_canonical_refl [simp]: "require_canonical_wire w w = Inr ()"
  by simp

lemma length_magic [simp]: "length MESSAGE_MAGIC = 8"
  by (simp add: MESSAGE_MAGIC_def)

lemma wire_body_message:
  assumes "length body < 2 ^ 32"
  shows "wire_body (wire_message kind body) kind = Inr body"
proof -
  let ?len = "word_of_nat (length body) :: u32"
  have len: "unat ?len = length body" using assms by (simp add: unat_of_nat)
  have "slice 9 13 (wire_message kind body) = to_le_bytes ?len"
    by (simp add: wire_message_def slice_def)
  with len show ?thesis
    by (simp add: wire_body_def wire_message_def nth_append)
qed

lemma wire_body_kind:
  "wire_body (wire_message kind body) kind' = Inr b \<Longrightarrow> kind = kind'"
  by (auto simp: wire_body_def wire_message_def nth_append split: if_splits)

lemma wire_message_inj:
  assumes "wire_message k b = wire_message k' b'"
  shows "k = k' \<and> b = b'"
  using assms by (auto simp: wire_message_def append_eq_append_length)

end
