(* ===== verification/Batch_V2.thy ===== *)
theory Batch_V2
  imports Batch_Wire "HOL-Library.List_Lexorder"
begin

text \<open>
  Signed, co-funded batching, \<open>crates/opencsv-bitcoin/src/batch_v2.rs\<close>: proposals, participant
  commitments, the canonical manifest with its fee allocation, signature shares, finalization and
  fee replacement.
\<close>

section \<open>Proposals\<close>

record proposal =
  pr_version :: u16
  pr_chain_id :: bytes
  stock_outpoint :: outpoint
  stock_value :: u64
  stock_owner_pubkey :: bytes
  participant_count :: u8
  proposal_nonce :: bytes
  observed_tip_height :: u32
  expiry_height :: u32
  target_feerate_sat_vb :: u32
  max_feerate_sat_vb :: u32

definition proposal_body :: "btc_env \<Rightarrow> proposal \<Rightarrow> bytes" where
  "proposal_body env p =
     to_le_bytes (pr_version p) @ pr_chain_id p @ ser_outpoint env (stock_outpoint p) @
     to_le_bytes (stock_value p) @ stock_owner_pubkey p @ [participant_count p] @ proposal_nonce p @
     to_le_bytes (observed_tip_height p) @ to_le_bytes (expiry_height p) @
     to_le_bytes (target_feerate_sat_vb p) @ to_le_bytes (max_feerate_sat_vb p)"

definition batch_id :: "btc_env \<Rightarrow> proposal \<Rightarrow> bytes" where
  "batch_id env p = domain_hash env ''OpenCSV/batch-v2/proposal'' (proposal_body env p)"

definition proposal_wire_bytes :: "btc_env \<Rightarrow> proposal \<Rightarrow> bytes" where
  "proposal_wire_bytes env p = wire_message PROPOSAL_KIND (proposal_body env p)"

definition proposal_validate :: "btc_env \<Rightarrow> proposal \<Rightarrow> rejection_reason + unit" where
  "proposal_validate env p =
     (if \<not> (pr_version p = LEGACY_VERSION \<or> pr_version p = VERSION) then Inl InvalidVersion
      else
        (let count = unat (participant_count p) in
         if \<not> (1 \<le> count \<and> count \<le> MAX_BATCH_V2_PARTICIPANTS) then Inl InvalidStock
         else if pr_chain_id p = replicate 32 0 then Inl WrongChain
         else if is_null env (stock_outpoint p) \<or> stock_value p < MIN_OUTPUT_SATS then Inl InvalidStock
         else if expiry_height p \<le> observed_tip_height p then Inl ExpiredProposal
         else if target_feerate_sat_vb p = 0 \<or> max_feerate_sat_vb p < target_feerate_sat_vb p then
           Inl FeePolicyViolation
         else Inr ()))"

definition new_for_version ::
  "btc_env \<Rightarrow> u16 \<Rightarrow> bytes \<Rightarrow> outpoint \<Rightarrow> u64 \<Rightarrow> bytes \<Rightarrow> u8 \<Rightarrow> bytes \<Rightarrow> u32 \<Rightarrow> u32 \<Rightarrow> u32 \<Rightarrow> u32 \<Rightarrow>
     rejection_reason + proposal" where
  "new_for_version env ver cid stock val owner count nonce tip expiry target mx =
     (let p = \<lparr>pr_version = ver, pr_chain_id = cid, stock_outpoint = stock, stock_value = val,
               stock_owner_pubkey = owner, participant_count = count, proposal_nonce = nonce,
               observed_tip_height = tip, expiry_height = expiry, target_feerate_sat_vb = target,
               max_feerate_sat_vb = mx\<rparr>
      in and_then (proposal_validate env p) (\<lambda>_. Inr p))"

definition proposal_new ::
  "btc_env \<Rightarrow> bytes \<Rightarrow> outpoint \<Rightarrow> u64 \<Rightarrow> bytes \<Rightarrow> u8 \<Rightarrow> bytes \<Rightarrow> u32 \<Rightarrow> u32 \<Rightarrow> u32 \<Rightarrow> u32 \<Rightarrow>
     rejection_reason + proposal" where
  "proposal_new env = new_for_version env VERSION"

definition proposal_from_wire :: "btc_env \<Rightarrow> bytes \<Rightarrow> rejection_reason + proposal" where
  "proposal_from_wire env wire =
     and_then (wire_body wire PROPOSAL_KIND) (\<lambda>body.
     and_then (read_u16 (reader_new body)) (\<lambda>(ver, r).
     if \<not> (ver = LEGACY_VERSION \<or> ver = VERSION) then Inl InvalidVersion else
     and_then (read_array 32 r) (\<lambda>(cid, r).
     and_then (read_outpoint env r) (\<lambda>(stock, r).
     and_then (read_u64 r) (\<lambda>(val, r).
     and_then (read_public_key env r) (\<lambda>(owner, r).
     and_then (read_u8 r) (\<lambda>(count, r).
     and_then (read_array 32 r) (\<lambda>(nonce, r).
     and_then (read_u32 r) (\<lambda>(tip, r).
     and_then (read_u32 r) (\<lambda>(expiry, r).
     and_then (read_u32 r) (\<lambda>(target, r).
     and_then (read_u32 r) (\<lambda>(mx, r).
     and_then (reader_finish r) (\<lambda>_.
     and_then (new_for_version env ver cid stock val owner count nonce tip expiry target mx) (\<lambda>p.
     and_then (require_canonical_wire wire (proposal_wire_bytes env p)) (\<lambda>_. Inr p)))))))))))))))"

definition proposal_context :: "btc_env \<Rightarrow> proposal \<Rightarrow> bytes" where
  "proposal_context env p = funding_ctx env (op_txid (stock_outpoint p)) (op_vout (stock_outpoint p))"

definition validate_at :: "btc_env \<Rightarrow> proposal \<Rightarrow> bytes \<Rightarrow> u32 \<Rightarrow> rejection_reason + unit" where
  "validate_at env p expected_chain_id current_height =
     and_then (proposal_validate env p) (\<lambda>_.
       if pr_chain_id p \<noteq> expected_chain_id then Inl WrongChain
       else if current_height \<ge> expiry_height p then Inl ExpiredProposal
       else Inr ())"

text \<open>The opcodes \<open>OP_CHECKSIGVERIFY\<close>, \<open>OP_DROP\<close> and \<open>OP_TRUE\<close>.\<close>

definition stock_witness_script :: "btc_env \<Rightarrow> bytes \<Rightarrow> nat \<Rightarrow> bytes" where
  "stock_witness_script env pk count =
     push_key env pk @ [0xad] @ replicate (count + 1) 0x75 @ [0x51]"

definition proposal_witness_script :: "btc_env \<Rightarrow> proposal \<Rightarrow> bytes" where
  "proposal_witness_script env p = stock_witness_script env (stock_owner_pubkey p) (unat (participant_count p))"

definition stock_script_pubkey :: "btc_env \<Rightarrow> proposal \<Rightarrow> bytes" where
  "stock_script_pubkey env p = to_p2wsh env (proposal_witness_script env p)"

section \<open>Participant commitments\<close>

record participant_commitment =
  pc_batch_id :: bytes
  operation_id :: bytes
  commit_nonce :: bytes
  pc_payload :: truncated_digest
  fee_outpoint :: outpoint
  fee_prevout :: tx_out
  fee_pubkey :: bytes
  change_spk :: bytes
  max_charge :: u64

definition commitment_body :: "btc_env \<Rightarrow> participant_commitment \<Rightarrow> bytes" where
  "commitment_body env c =
     pc_batch_id c @ operation_id c @ commit_nonce c @ pc_payload c @ ser_outpoint env (fee_outpoint c) @
     to_le_bytes (out_value (fee_prevout c)) @ fee_pubkey c @ encode_script (script_pubkey (fee_prevout c)) @
     encode_script (change_spk c) @ to_le_bytes (max_charge c)"

definition commitment_id :: "btc_env \<Rightarrow> participant_commitment \<Rightarrow> bytes" where
  "commitment_id env c = domain_hash env ''OpenCSV/batch-v2/commitment'' (commitment_body env c)"

definition commitment_wire_bytes :: "btc_env \<Rightarrow> participant_commitment \<Rightarrow> bytes" where
  "commitment_wire_bytes env c = wire_message COMMITMENT_KIND (commitment_body env c)"

definition p2wpkh_script :: "btc_env \<Rightarrow> bytes \<Rightarrow> bytes" where
  "p2wpkh_script env pk = to_p2wpkh env pk"

definition is_canonical_p2wpkh :: "bytes \<Rightarrow> bool" where
  "is_canonical_p2wpkh bs \<longleftrightarrow> length bs = 22 \<and> bs ! 0 = 0x00 \<and> bs ! 1 = 0x14"

definition commitment_validate :: "btc_env \<Rightarrow> participant_commitment \<Rightarrow> proposal \<Rightarrow> rejection_reason + unit" where
  "commitment_validate env c p =
     (if pc_batch_id c \<noteq> batch_id env p \<or> is_null env (fee_outpoint c) \<or> max_charge c = 0 then Inl InvalidCommitment
      else if fee_outpoint c = stock_outpoint p then Inl ConflictingOperation
      else if script_pubkey (fee_prevout c) \<noteq> p2wpkh_script env (fee_pubkey c) then Inl InvalidCommitment
      else if \<not> is_canonical_p2wpkh (change_spk c) then Inl InvalidCommitment
      else Inr ())"

definition commitment_new ::
  "btc_env \<Rightarrow> proposal \<Rightarrow> bytes \<Rightarrow> bytes \<Rightarrow> truncated_digest \<Rightarrow> outpoint \<Rightarrow> tx_out \<Rightarrow> bytes \<Rightarrow> bytes \<Rightarrow> u64 \<Rightarrow>
     rejection_reason + participant_commitment" where
  "commitment_new env p oid nonce pay fo fp fk chg mx =
     (let c = \<lparr>pc_batch_id = batch_id env p, operation_id = oid, commit_nonce = nonce, pc_payload = pay,
               fee_outpoint = fo, fee_prevout = fp, fee_pubkey = fk, change_spk = chg, max_charge = mx\<rparr>
      in and_then (commitment_validate env c p) (\<lambda>_. Inr c))"

definition commitment_from_wire :: "btc_env \<Rightarrow> proposal \<Rightarrow> bytes \<Rightarrow> rejection_reason + participant_commitment" where
  "commitment_from_wire env p wire =
     and_then (wire_body wire COMMITMENT_KIND) (\<lambda>body.
     and_then (read_array 32 (reader_new body)) (\<lambda>(bid, r).
     and_then (read_array 32 r) (\<lambda>(oid, r).
     and_then (read_array 32 r) (\<lambda>(nonce, r).
     and_then (read_array 24 r) (\<lambda>(pay, r).
     and_then (read_outpoint env r) (\<lambda>(fo, r).
     and_then (read_u64 r) (\<lambda>(val, r).
     and_then (read_public_key env r) (\<lambda>(fk, r).
     and_then (read_script r) (\<lambda>(spk, r).
     and_then (read_script r) (\<lambda>(chg, r).
     and_then (read_u64 r) (\<lambda>(mx, r).
     and_then (reader_finish r) (\<lambda>_.
     let c = \<lparr>pc_batch_id = bid, operation_id = oid, commit_nonce = nonce, pc_payload = pay,
              fee_outpoint = fo, fee_prevout = \<lparr>out_value = val, script_pubkey = spk\<rparr>, fee_pubkey = fk,
              change_spk = chg, max_charge = mx\<rparr> in
     and_then (commitment_validate env c p) (\<lambda>_.
     and_then (require_canonical_wire wire (commitment_wire_bytes env c)) (\<lambda>_. Inr c))))))))))))))"

section \<open>Manifests\<close>

record manifest =
  mf_batch_id :: bytes
  replacement_epoch :: u32
  feerate_sat_vb :: u32
  max_weight :: u32
  miner_fee :: u64
  total_charge :: u64
  charges :: "u64 list"
  mf_commitments :: "participant_commitment list"
  unsigned_tx :: transaction

definition marker_spk_for_version :: "u16 \<Rightarrow> rejection_reason + bytes" where
  "marker_spk_for_version ver =
     (if ver = LEGACY_VERSION then Inr LEGACY_MARKER_SPK
      else if ver = VERSION then Inr MARKER_SPK else Inl InvalidVersion)"

definition max_signed_weight :: "nat \<Rightarrow> rejection_reason + u64" where
  "max_signed_weight count =
     (if \<not> (1 \<le> count \<and> count \<le> MAX_BATCH_V2_PARTICIPANTS) then Inl InvalidCommitment
      else ok_or ArithmeticOverflow
        (Option.bind (checked_mul 423 (word_of_nat count :: u64)) (\<lambda>value. checked_add value 968)))"

fun reject_duplicates_loop ::
  "btc_env \<Rightarrow> bytes list \<Rightarrow> bytes list \<Rightarrow> outpoint list \<Rightarrow> truncated_digest list \<Rightarrow> bytes list \<Rightarrow>
     participant_commitment list \<Rightarrow> rejection_reason + unit" where
  "reject_duplicates_loop env ids operations outpoints payloads changes [] = Inr ()"
| "reject_duplicates_loop env ids operations outpoints payloads changes (c # cs) =
     (if commitment_id env c \<in> set ids \<or> operation_id c \<in> set operations \<or> fee_outpoint c \<in> set outpoints \<or>
         pc_payload c \<in> set payloads \<or> change_spk c \<in> set changes
      then Inl DuplicateCommitment
      else reject_duplicates_loop env (commitment_id env c # ids) (operation_id c # operations)
             (fee_outpoint c # outpoints) (pc_payload c # payloads) (change_spk c # changes) cs)"

definition reject_duplicates :: "btc_env \<Rightarrow> participant_commitment list \<Rightarrow> rejection_reason + unit" where
  "reject_duplicates env cs = reject_duplicates_loop env [] [] [] [] [] cs"

definition div_ceil :: "'a::len word \<Rightarrow> 'a word \<Rightarrow> 'a word" where
  "div_ceil a b = (if a mod b > 0 then a div b + 1 else a div b)"

text \<open>The allocation loop: the charge and the change of every participant, in order.\<close>

fun charge_loop ::
  "u64 \<Rightarrow> u64 \<Rightarrow> nat \<Rightarrow> participant_commitment list \<Rightarrow> rejection_reason + (u64 \<times> u64) list" where
  "charge_loop base remainder index [] = Inr []"
| "charge_loop base remainder index (c # cs) =
     (let charge = base + (if word_of_nat index < remainder then 1 else 0) in
      if charge > max_charge c then Inl FeePolicyViolation
      else and_then (ok_or InsufficientChange (checked_sub (out_value (fee_prevout c)) charge)) (\<lambda>change.
        if change < MIN_OUTPUT_SATS then Inl InsufficientChange
        else and_then (charge_loop base remainder (Suc index) cs) (\<lambda>rest. Inr ((charge, change) # rest))))"

definition unsigned_input :: "outpoint \<Rightarrow> tx_in" where
  "unsigned_input p = \<lparr>previous_output = p, script_sig = [], sequence = INPUT_SEQUENCE, witness = []\<rparr>"

text \<open>
  The unsigned transaction. The header constructor panics outside 1 to 64 payloads, a case the
  count check excludes (\<open>build_header\<close> below).
\<close>

definition manifest_tx ::
  "btc_env \<Rightarrow> sponge \<Rightarrow> proposal \<Rightarrow> bytes \<Rightarrow> participant_commitment list \<Rightarrow> u64 list \<Rightarrow> transaction" where
  "manifest_tx env sp p marker_spk cs changes =
     (let payloads = map pc_payload cs;
          record = the (batch_header_v2 sp payloads (proposal_context env p))
      in \<lparr>tx_version = TX_VERSION, lock_time = 0,
          tx_input = unsigned_input (stock_outpoint p) # map (\<lambda>c. unsigned_input (fee_outpoint c)) cs,
          tx_output =
            [\<lparr>out_value = 0, script_pubkey = new_op_return env (to_bytes record)\<rparr>,
             \<lparr>out_value = MARKER_DUST_SATS, script_pubkey = marker_spk\<rparr>,
             \<lparr>out_value = stock_value p, script_pubkey = stock_script_pubkey env p\<rparr>] @
            map (\<lambda>(c, v). \<lparr>out_value = v, script_pubkey = change_spk c\<rparr>) (zip cs changes)\<rparr>)"

definition check_layout :: "btc_env \<Rightarrow> manifest \<Rightarrow> proposal \<Rightarrow> rejection_reason + unit" where
  "check_layout env m p =
     (let tx = unsigned_tx m in
      if mf_batch_id m \<noteq> batch_id env p \<or> tx_version tx \<noteq> TX_VERSION \<or> lock_time tx \<noteq> 0 \<or>
         length (tx_input tx) \<noteq> length (mf_commitments m) + 1 \<or>
         length (tx_output tx) \<noteq> length (mf_commitments m) + 3 \<or>
         list_ex (\<lambda>i. sequence i \<noteq> INPUT_SEQUENCE \<or> script_sig i \<noteq> []) (tx_input tx)
      then Inl ProtocolLayoutViolation else Inr ())"

definition sort_commitments :: "btc_env \<Rightarrow> participant_commitment list \<Rightarrow> participant_commitment list" where
  "sort_commitments env cs = sort_key (\<lambda>c. ser_outpoint env (fee_outpoint c)) cs"

definition build_at_with_marker ::
  "btc_env \<Rightarrow> sponge \<Rightarrow> proposal \<Rightarrow> participant_commitment list \<Rightarrow> u32 \<Rightarrow> u32 \<Rightarrow> bytes \<Rightarrow> rejection_reason + manifest" where
  "build_at_with_marker env sp p cs0 epoch rate marker_spk =
     and_then (proposal_validate env p) (\<lambda>_.
     if length cs0 \<noteq> unat (participant_count p) then Inl InvalidCommitment
     else if rate < target_feerate_sat_vb p \<or> rate > max_feerate_sat_vb p then Inl FeePolicyViolation
     else and_then (try_each (\<lambda>c. commitment_validate env c p) cs0) (\<lambda>_.
     let cs = sort_commitments env cs0 in
     and_then (reject_duplicates env cs) (\<lambda>_.
     let count = length cs in
     and_then (max_signed_weight count) (\<lambda>weight.
     if \<not> unat weight < 2 ^ 32 then Inl ArithmeticOverflow else
     let vbytes = div_ceil weight 4 in
     and_then (ok_or ArithmeticOverflow (checked_mul (ucast rate) vbytes)) (\<lambda>fee.
     and_then (ok_or ArithmeticOverflow (checked_add fee MARKER_DUST_SATS)) (\<lambda>total.
     let base = total div word_of_nat count;
         remainder = total mod word_of_nat count in
     and_then (charge_loop base remainder 0 cs) (\<lambda>allocation.
     let m = \<lparr>mf_batch_id = batch_id env p, replacement_epoch = epoch, feerate_sat_vb = rate,
              max_weight = ucast weight, miner_fee = fee, total_charge = total,
              charges = map fst allocation, mf_commitments = cs,
              unsigned_tx = manifest_tx env sp p marker_spk cs (map snd allocation)\<rparr> in
     and_then (check_layout env m p) (\<lambda>_. Inr m))))))))"

definition build_at ::
  "btc_env \<Rightarrow> sponge \<Rightarrow> proposal \<Rightarrow> participant_commitment list \<Rightarrow> u32 \<Rightarrow> u32 \<Rightarrow> rejection_reason + manifest" where
  "build_at env sp p cs epoch rate =
     and_then (marker_spk_for_version (pr_version p)) (\<lambda>marker_spk.
       build_at_with_marker env sp p cs epoch rate marker_spk)"

definition build :: "btc_env \<Rightarrow> sponge \<Rightarrow> proposal \<Rightarrow> participant_commitment list \<Rightarrow> rejection_reason + manifest" where
  "build env sp p cs = build_at env sp p cs 0 (target_feerate_sat_vb p)"

definition manifest_validate :: "btc_env \<Rightarrow> sponge \<Rightarrow> manifest \<Rightarrow> proposal \<Rightarrow> rejection_reason + unit" where
  "manifest_validate env sp m p =
     and_then (build_at env sp p (mf_commitments m) (replacement_epoch m) (feerate_sat_vb m)) (\<lambda>expected.
       if m \<noteq> expected then Inl ProtocolLayoutViolation else Inr ())"

definition manifest_body :: "btc_env \<Rightarrow> manifest \<Rightarrow> bytes" where
  "manifest_body env m =
     (let tx = ser_tx env (unsigned_tx m) in
      mf_batch_id m @ to_le_bytes (replacement_epoch m) @ [word_of_nat (length (mf_commitments m))] @
      concat (map (commitment_id env) (mf_commitments m)) @ to_le_bytes (max_weight m) @
      to_le_bytes (feerate_sat_vb m) @ to_le_bytes (miner_fee m) @ to_le_bytes (total_charge m) @
      concat (map to_le_bytes (charges m)) @ to_le_bytes (word_of_nat (length tx) :: u32) @ tx)"

definition manifest_id :: "btc_env \<Rightarrow> manifest \<Rightarrow> bytes" where
  "manifest_id env m = domain_hash env ''OpenCSV/batch-v2/manifest'' (manifest_body env m)"

definition manifest_wire_bytes :: "btc_env \<Rightarrow> manifest \<Rightarrow> bytes" where
  "manifest_wire_bytes env m = wire_message MANIFEST_KIND (manifest_body env m)"

definition manifest_from_wire ::
  "btc_env \<Rightarrow> sponge \<Rightarrow> proposal \<Rightarrow> participant_commitment list \<Rightarrow> bytes \<Rightarrow> rejection_reason + manifest" where
  "manifest_from_wire env sp p cs0 wire =
     and_then (wire_body wire MANIFEST_KIND) (\<lambda>body.
     and_then (read_array 32 (reader_new body)) (\<lambda>(bid, r).
     and_then (read_u32 r) (\<lambda>(epoch, r).
     and_then (read_u8 r) (\<lambda>(n, r).
     let count = unat n in
     if count \<noteq> unat (participant_count p) \<or> length cs0 \<noteq> count then Inl InvalidCommitment else
     and_then (read_times (read_array 32) count r) (\<lambda>(ids, r).
     and_then (read_u32 r) (\<lambda>(weight, r).
     and_then (read_u32 r) (\<lambda>(rate, r).
     and_then (read_u64 r) (\<lambda>(fee, r).
     and_then (read_u64 r) (\<lambda>(tot, r).
     and_then (read_times read_u64 count r) (\<lambda>(chs, r).
     and_then (read_u32 r) (\<lambda>(tx_len, r).
     and_then (read_bytes (unat tx_len) r) (\<lambda>(tx_bytes, r).
     and_then (ok_or InvalidSerialization (de_tx env tx_bytes)) (\<lambda>tx.
     if ser_tx env tx \<noteq> tx_bytes then Inl InvalidSerialization else
     and_then (reader_finish r) (\<lambda>_.
     let cs = sort_commitments env cs0 in
     and_then (reject_duplicates env cs) (\<lambda>_.
     if map (commitment_id env) cs \<noteq> ids then Inl NoncanonicalOrder else
     let m = \<lparr>mf_batch_id = bid, replacement_epoch = epoch, feerate_sat_vb = rate, max_weight = weight,
              miner_fee = fee, total_charge = tot, charges = chs, mf_commitments = cs, unsigned_tx = tx\<rparr> in
     and_then (manifest_validate env sp m p) (\<lambda>_.
     and_then (require_canonical_wire wire (manifest_wire_bytes env m)) (\<lambda>_. Inr m)))))))))))))))))"

text \<open>The selection loop of \<open>from_wire_pool\<close>.\<close>

fun select_commitments ::
  "btc_env \<Rightarrow> participant_commitment list \<Rightarrow> nat \<Rightarrow> bytes list \<Rightarrow> reader \<Rightarrow>
     rejection_reason + participant_commitment list \<times> reader" where
  "select_commitments env pool 0 seen r = Inr ([], r)"
| "select_commitments env pool (Suc n) seen r =
     and_then (read_array 32 r) (\<lambda>(cid, r).
     if cid \<in> set seen then Inl DuplicateCommitment else
     and_then (ok_or InvalidCommitment (find (\<lambda>c. commitment_id env c = cid) pool)) (\<lambda>c.
     and_then (select_commitments env pool n (cid # seen) r) (\<lambda>(cs, r). Inr (c # cs, r))))"

definition manifest_from_wire_pool ::
  "btc_env \<Rightarrow> sponge \<Rightarrow> proposal \<Rightarrow> participant_commitment list \<Rightarrow> bytes \<Rightarrow> rejection_reason + manifest" where
  "manifest_from_wire_pool env sp p pool wire =
     and_then (wire_body wire MANIFEST_KIND) (\<lambda>body.
     and_then (read_array 32 (reader_new body)) (\<lambda>(bid, r).
     and_then (read_u32 r) (\<lambda>(_, r).
     and_then (read_u8 r) (\<lambda>(n, r).
     if bid \<noteq> batch_id env p \<or> unat n \<noteq> unat (participant_count p) then Inl InvalidCommitment else
     and_then (select_commitments env pool (unat n) [] r) (\<lambda>(selected, _).
     manifest_from_wire env sp p selected wire)))))"

section \<open>Signatures\<close>

text \<open>\<open>EcdsaSighashType::All\<close>.\<close>

definition SIGHASH_ALL :: u32 where "SIGHASH_ALL = 1"

record signature_share =
  ss_manifest_id :: bytes
  input_index :: u16
  signer_pubkey :: bytes
  ss_signature :: ecdsa_signature

definition require_key :: "btc_env \<Rightarrow> bytes \<Rightarrow> bytes \<Rightarrow> rejection_reason + unit" where
  "require_key env secret_key expected =
     (if pubkey_of env secret_key \<noteq> expected then Inl InvalidSignature else Inr ())"

definition require_all :: "btc_env \<Rightarrow> ecdsa_signature \<Rightarrow> rejection_reason + unit" where
  "require_all env sig =
     (if sighash_type sig \<noteq> SIGHASH_ALL then Inl SignaturePolicyViolation
      else if normalize_s env (sig_core sig) \<noteq> sig_core sig then Inl InvalidSignature
      else Inr ())"

definition sign_digest :: "btc_env \<Rightarrow> bytes \<Rightarrow> bytes \<Rightarrow> ecdsa_signature" where
  "sign_digest env secret_key dg = \<lparr>sig_core = sign_ecdsa env secret_key dg, sighash_type = SIGHASH_ALL\<rparr>"

definition verify_digest :: "btc_env \<Rightarrow> ecdsa_signature \<Rightarrow> bytes \<Rightarrow> bytes \<Rightarrow> rejection_reason + unit" where
  "verify_digest env sig pk dg =
     (if verify_ecdsa env dg (sig_core sig) pk then Inr () else Inl InvalidSignature)"

definition verify_stock_signature ::
  "btc_env \<Rightarrow> manifest \<Rightarrow> proposal \<Rightarrow> ecdsa_signature \<Rightarrow> rejection_reason + unit" where
  "verify_stock_signature env m p sig =
     and_then (require_all env sig) (\<lambda>_.
     and_then (ok_or InvalidSignature
       (p2wsh_sighash env (unsigned_tx m) 0 (proposal_witness_script env p) (stock_value p))) (\<lambda>sighash.
     verify_digest env sig (stock_owner_pubkey p) sighash))"

definition verify_participant_signature ::
  "btc_env \<Rightarrow> manifest \<Rightarrow> nat \<Rightarrow> ecdsa_signature \<Rightarrow> rejection_reason + unit" where
  "verify_participant_signature env m index sig =
     and_then (require_all env sig) (\<lambda>_.
     let c = mf_commitments m ! index in
     and_then (ok_or InvalidSignature
       (p2wpkh_sighash env (unsigned_tx m) (index + 1) (script_pubkey (fee_prevout c)) (out_value (fee_prevout c)))) (\<lambda>sighash.
     verify_digest env sig (fee_pubkey c) sighash))"

definition sign_stock :: "btc_env \<Rightarrow> sponge \<Rightarrow> manifest \<Rightarrow> proposal \<Rightarrow> bytes \<Rightarrow> rejection_reason + ecdsa_signature" where
  "sign_stock env sp m p secret_key =
     and_then (manifest_validate env sp m p) (\<lambda>_.
     and_then (require_key env secret_key (stock_owner_pubkey p)) (\<lambda>_.
     and_then (ok_or SignaturePolicyViolation
       (p2wsh_sighash env (unsigned_tx m) 0 (proposal_witness_script env p) (stock_value p))) (\<lambda>sighash.
     Inr (sign_digest env secret_key sighash))))"

definition sign_participant ::
  "btc_env \<Rightarrow> sponge \<Rightarrow> manifest \<Rightarrow> proposal \<Rightarrow> nat \<Rightarrow> bytes \<Rightarrow> rejection_reason + ecdsa_signature" where
  "sign_participant env sp m p participant_index secret_key =
     and_then (manifest_validate env sp m p) (\<lambda>_.
     if \<not> participant_index < length (mf_commitments m) then Inl InvalidCommitment else
     let c = mf_commitments m ! participant_index in
     and_then (require_key env secret_key (fee_pubkey c)) (\<lambda>_.
     and_then (ok_or SignaturePolicyViolation
       (p2wpkh_sighash env (unsigned_tx m) (participant_index + 1) (script_pubkey (fee_prevout c))
          (out_value (fee_prevout c)))) (\<lambda>sighash.
     Inr (sign_digest env secret_key sighash))))"

text \<open>\<open>enumerate\<close> over the participant signatures.\<close>

fun verify_participants_loop :: "btc_env \<Rightarrow> manifest \<Rightarrow> nat \<Rightarrow> ecdsa_signature list \<Rightarrow> rejection_reason + unit" where
  "verify_participants_loop env m index [] = Inr ()"
| "verify_participants_loop env m index (sig # sigs) =
     and_then (verify_participant_signature env m index sig) (\<lambda>_. verify_participants_loop env m (Suc index) sigs)"

text \<open>
  The witnesses of \<open>finalize\<close>. The mutable zip leaves inputs beyond the shortest list alone; a
  validated manifest with the checked signature count has none (\<open>build_inputs\<close>).
\<close>

definition signed_tx ::
  "btc_env \<Rightarrow> manifest \<Rightarrow> proposal \<Rightarrow> ecdsa_signature \<Rightarrow> ecdsa_signature list \<Rightarrow> transaction" where
  "signed_tx env m p stock_signature sigs =
     (let tx = unsigned_tx m;
          payloads = map pc_payload (mf_commitments m);
          stock_items = the (envelope_v2_encode payloads) @ [ser_sig env stock_signature, proposal_witness_script env p]
      in tx\<lparr>tx_input :=
           (hd (tx_input tx))\<lparr>witness := stock_items\<rparr> #
           map (\<lambda>((i, sig), c). i\<lparr>witness := [ser_sig env sig, fee_pubkey c]\<rparr>)
             (zip (zip (tl (tx_input tx)) sigs) (mf_commitments m))\<rparr>)"

definition finalize ::
  "btc_env \<Rightarrow> sponge \<Rightarrow> manifest \<Rightarrow> proposal \<Rightarrow> ecdsa_signature \<Rightarrow> ecdsa_signature list \<Rightarrow> rejection_reason + transaction" where
  "finalize env sp m p stock_signature sigs =
     and_then (manifest_validate env sp m p) (\<lambda>_.
     if length sigs \<noteq> length (mf_commitments m) then Inl InvalidSignature else
     and_then (verify_stock_signature env m p stock_signature) (\<lambda>_.
     and_then (verify_participants_loop env m 0 sigs) (\<lambda>_.
     let tx = signed_tx env m p stock_signature sigs in
     if tx_weight env tx > unat (max_weight m) then Inl ProtocolLayoutViolation else Inr tx)))"

definition verify_signature_share ::
  "btc_env \<Rightarrow> sponge \<Rightarrow> manifest \<Rightarrow> proposal \<Rightarrow> signature_share \<Rightarrow> rejection_reason + unit" where
  "verify_signature_share env sp m p share =
     and_then (manifest_validate env sp m p) (\<lambda>_.
     if ss_manifest_id share \<noteq> manifest_id env m then Inl InvalidSignature else
     let i = unat (input_index share) in
     if i = 0 then
       (if signer_pubkey share \<noteq> stock_owner_pubkey p then Inl InvalidSignature
        else verify_stock_signature env m p (ss_signature share))
     else
       (let participant_index = i - 1 in
        if \<not> participant_index < length (mf_commitments m) then Inl InvalidSignature
        else if signer_pubkey share \<noteq> fee_pubkey (mf_commitments m ! participant_index) then Inl InvalidSignature
        else verify_participant_signature env m participant_index (ss_signature share)))"

fun collect_shares ::
  "btc_env \<Rightarrow> sponge \<Rightarrow> manifest \<Rightarrow> proposal \<Rightarrow> signature_share list \<Rightarrow> ecdsa_signature option list \<Rightarrow>
     rejection_reason + ecdsa_signature option list" where
  "collect_shares env sp m p [] ordered = Inr ordered"
| "collect_shares env sp m p (share # shares) ordered =
     and_then (verify_signature_share env sp m p share) (\<lambda>_.
     let index = unat (input_index share) in
     case ordered ! index of
       Some existing \<Rightarrow>
         if existing = ss_signature share then collect_shares env sp m p shares ordered
         else Inl ConflictingOperation
     | None \<Rightarrow> collect_shares env sp m p shares (ordered[index := Some (ss_signature share)]))"

definition finalize_shares ::
  "btc_env \<Rightarrow> sponge \<Rightarrow> manifest \<Rightarrow> proposal \<Rightarrow> signature_share list \<Rightarrow> rejection_reason + transaction" where
  "finalize_shares env sp m p shares =
     and_then (collect_shares env sp m p shares (replicate (length (mf_commitments m) + 1) None)) (\<lambda>ordered.
     and_then (ok_or InvalidSignature (hd ordered)) (\<lambda>stock.
     and_then (try_map (ok_or InvalidSignature) (tl ordered)) (\<lambda>participants.
     finalize env sp m p stock participants)))"

definition share_new ::
  "btc_env \<Rightarrow> bytes \<Rightarrow> u16 \<Rightarrow> bytes \<Rightarrow> ecdsa_signature \<Rightarrow> rejection_reason + signature_share" where
  "share_new env mid i pk sig =
     and_then (require_all env sig) (\<lambda>_.
       Inr \<lparr>ss_manifest_id = mid, input_index = i, signer_pubkey = pk, ss_signature = sig\<rparr>)"

definition share_body :: "btc_env \<Rightarrow> signature_share \<Rightarrow> bytes" where
  "share_body env s =
     (let sig = ser_sig env (ss_signature s) in
      ss_manifest_id s @ to_le_bytes (input_index s) @ signer_pubkey s @
      to_le_bytes (word_of_nat (length sig) :: u16) @ sig)"

definition share_wire_bytes :: "btc_env \<Rightarrow> signature_share \<Rightarrow> bytes" where
  "share_wire_bytes env s = wire_message SIGNATURE_KIND (share_body env s)"

definition share_from_wire :: "btc_env \<Rightarrow> bytes \<Rightarrow> rejection_reason + signature_share" where
  "share_from_wire env wire =
     and_then (wire_body wire SIGNATURE_KIND) (\<lambda>body.
     and_then (read_array 32 (reader_new body)) (\<lambda>(mid, r).
     and_then (read_u16 r) (\<lambda>(i, r).
     and_then (read_public_key env r) (\<lambda>(pk, r).
     and_then (read_u16 r) (\<lambda>(sig_len, r).
     if unat sig_len > 73 then Inl InvalidSerialization else
     and_then (read_bytes (unat sig_len) r) (\<lambda>(sig_bytes, r).
     and_then (ok_or InvalidSerialization (sig_from_slice env sig_bytes)) (\<lambda>sig.
     and_then (reader_finish r) (\<lambda>_.
     and_then (share_new env mid i pk sig) (\<lambda>share.
     and_then (require_canonical_wire wire (share_wire_bytes env share)) (\<lambda>_. Inr share))))))))))"

section \<open>Replacement\<close>

definition replacement ::
  "btc_env \<Rightarrow> sponge \<Rightarrow> manifest \<Rightarrow> proposal \<Rightarrow> u32 \<Rightarrow> rejection_reason + manifest" where
  "replacement env sp m p new_rate =
     (if new_rate \<le> feerate_sat_vb m then Inl ReplacementViolation
      else if pr_version p \<noteq> VERSION then Inl ReplacementViolation
      else
        and_then (ok_or ArithmeticOverflow (checked_add (replacement_epoch m) 1)) (\<lambda>epoch.
        and_then (build_at env sp p (mf_commitments m) epoch new_rate) (\<lambda>new.
        let old_tx = unsigned_tx m; new_tx = unsigned_tx new in
        if tx_input old_tx \<noteq> tx_input new_tx \<or> take 3 (tx_output old_tx) \<noteq> take 3 (tx_output new_tx) \<or>
           map script_pubkey (drop 3 (tx_output old_tx)) \<noteq> map script_pubkey (drop 3 (tx_output new_tx))
        then Inl ReplacementViolation else Inr new)))"

section \<open>Fee-input reservations\<close>

datatype reservation_phase =
    CommittedUnsigned | SignatureReleased | Confirmed | InvalidatedOnChain | ReleasedBeforeSignature

fun phase_to_byte :: "reservation_phase \<Rightarrow> u8" where
  "phase_to_byte CommittedUnsigned = 0"
| "phase_to_byte SignatureReleased = 1"
| "phase_to_byte Confirmed = 2"
| "phase_to_byte InvalidatedOnChain = 3"
| "phase_to_byte ReleasedBeforeSignature = 4"

definition phase_from_byte :: "u8 \<Rightarrow> rejection_reason + reservation_phase" where
  "phase_from_byte b =
     (if b = 0 then Inr CommittedUnsigned else if b = 1 then Inr SignatureReleased
      else if b = 2 then Inr Confirmed else if b = 3 then Inr InvalidatedOnChain
      else if b = 4 then Inr ReleasedBeforeSignature else Inl InvalidSerialization)"

fun signature_released :: "reservation_phase \<Rightarrow> rejection_reason + reservation_phase" where
  "signature_released CommittedUnsigned = Inr SignatureReleased"
| "signature_released SignatureReleased = Inr SignatureReleased"
| "signature_released _ = Inl ConflictingOperation"

fun timeout_abort :: "reservation_phase \<Rightarrow> rejection_reason + reservation_phase" where
  "timeout_abort CommittedUnsigned = Inr ReleasedBeforeSignature"
| "timeout_abort SignatureReleased = Inl ConflictingOperation"
| "timeout_abort state = Inr state"

definition confirmed :: "reservation_phase \<Rightarrow> reservation_phase" where
  "confirmed _ = Confirmed"

definition invalidated_on_chain :: "reservation_phase \<Rightarrow> reservation_phase" where
  "invalidated_on_chain _ = InvalidatedOnChain"

fun is_releasable :: "reservation_phase \<Rightarrow> bool" where
  "is_releasable Confirmed = True"
| "is_releasable InvalidatedOnChain = True"
| "is_releasable ReleasedBeforeSignature = True"
| "is_releasable _ = False"

end
