(* ===== verification/Batch_Roundtrip.thy ===== *)
theory Batch_Roundtrip
  imports Batch_V2
begin

text \<open>
  Canonical wire forms of batching: for proposals, participant commitments and signature
  shares the parser accepts exactly the encodings of valid values, and the reservation phase machine.
\<close>

section \<open>Typing of wire values\<close>

definition proposal_typed :: "btc_env \<Rightarrow> proposal \<Rightarrow> bool" where
  "proposal_typed env p \<longleftrightarrow> length (pr_chain_id p) = 32 \<and> outpoint_ok (stock_outpoint p) \<and>
     pubkey_ok env (stock_owner_pubkey p) \<and> length (proposal_nonce p) = 32"

definition commitment_typed :: "btc_env \<Rightarrow> participant_commitment \<Rightarrow> bool" where
  "commitment_typed env c \<longleftrightarrow> length (pc_batch_id c) = 32 \<and> length (operation_id c) = 32 \<and>
     length (commit_nonce c) = 32 \<and> length (pc_payload c) = 24 \<and> outpoint_ok (fee_outpoint c) \<and>
     pubkey_ok env (fee_pubkey c) \<and> length (script_pubkey (fee_prevout c)) < 2 ^ 16 \<and> length (change_spk c) < 2 ^ 16"

definition share_typed :: "btc_env \<Rightarrow> signature_share \<Rightarrow> bool" where
  "share_typed env s \<longleftrightarrow> length (ss_manifest_id s) = 32 \<and> pubkey_ok env (signer_pubkey s) \<and>
     length (ser_sig env (ss_signature s)) \<le> 73 \<and>
     sig_from_slice env (ser_sig env (ss_signature s)) = Some (ss_signature s)"

section \<open>Proposals\<close>

lemma length_proposal_body:
  "env_ok env \<Longrightarrow> proposal_typed env p \<Longrightarrow> length (proposal_body env p) = 160"
  by (simp add: proposal_body_def proposal_typed_def env_ok_def pubkey_ok_def)

lemma proposal_eta:
  "\<lparr>pr_version = pr_version p, pr_chain_id = pr_chain_id p, stock_outpoint = stock_outpoint p,
    stock_value = stock_value p, stock_owner_pubkey = stock_owner_pubkey p,
    participant_count = participant_count p, proposal_nonce = proposal_nonce p,
    observed_tip_height = observed_tip_height p, expiry_height = expiry_height p,
    target_feerate_sat_vb = target_feerate_sat_vb p, max_feerate_sat_vb = max_feerate_sat_vb p\<rparr> = p"
  by simp

lemma proposal_read_back:
  assumes env: "env_ok env" and typed: "proposal_typed env p" and valid: "proposal_validate env p = Inr ()"
  shows "proposal_from_wire env (proposal_wire_bytes env p) = Inr p"
proof -
  have len: "length (proposal_body env p) = 160" using env typed by (rule length_proposal_body)
  then have body: "wire_body (proposal_wire_bytes env p) PROPOSAL_KIND = Inr (proposal_body env p)"
    by (simp add: proposal_wire_bytes_def wire_body_message)
  from len have fits: "fits (proposal_body env p)" by (simp add: fits_def)
  have ver: "pr_version p = LEGACY_VERSION \<or> pr_version p = VERSION"
    using valid by (auto simp: proposal_validate_def split: if_splits)
  show ?thesis
    unfolding proposal_from_wire_def body
    using typed env ver valid fits
    by (simp add: proposal_typed_def proposal_body_def reader_new_cursor codec_reads new_for_version_def Let_def
        proposal_eta)
qed

lemma proposal_from_wire_Inr:
  assumes env: "env_ok env" and "proposal_from_wire env w = Inr p"
  shows "proposal_typed env p \<and> proposal_validate env p = Inr () \<and> w = proposal_wire_bytes env p"
  using assms
  by (auto simp: proposal_from_wire_def and_then_Inr new_for_version_def proposal_typed_def Let_def
      dest!: array.read_valid [simplified] outpoint.read_valid [OF env] pubkey.read_valid [OF env] split: if_splits)

section \<open>Commitments\<close>

lemma commitment_eta:
  "\<lparr>pc_batch_id = pc_batch_id c, operation_id = operation_id c, commit_nonce = commit_nonce c,
    pc_payload = pc_payload c, fee_outpoint = fee_outpoint c,
    fee_prevout = \<lparr>out_value = out_value (fee_prevout c), script_pubkey = script_pubkey (fee_prevout c)\<rparr>,
    fee_pubkey = fee_pubkey c, change_spk = change_spk c, max_charge = max_charge c\<rparr> = c"
  by simp

lemma length_encode_script: "length (encode_script s) = 2 + length s"
  by (simp add: encode_script_def)

lemma length_commitment_body:
  "env_ok env \<Longrightarrow> commitment_typed env c \<Longrightarrow> length (commitment_body env c) < 2 ^ 18"
  by (simp add: commitment_body_def commitment_typed_def env_ok_def pubkey_ok_def length_encode_script)

lemma commitment_read_back:
  assumes env: "env_ok env" and typed: "commitment_typed env c" and valid: "commitment_validate env c p = Inr ()"
  shows "commitment_from_wire env p (commitment_wire_bytes env c) = Inr c"
proof -
  have len: "length (commitment_body env c) < 2 ^ 18" using env typed by (rule length_commitment_body)
  then have body: "wire_body (commitment_wire_bytes env c) COMMITMENT_KIND = Inr (commitment_body env c)"
    by (simp add: commitment_wire_bytes_def wire_body_message)
  from len have fits: "fits (commitment_body env c)" by (simp add: fits_def)
  show ?thesis
    unfolding commitment_from_wire_def body
    using typed env valid fits
    by (simp add: commitment_typed_def commitment_body_def reader_new_cursor codec_reads Let_def commitment_eta)
qed

lemma commitment_from_wire_Inr:
  assumes env: "env_ok env" and "commitment_from_wire env p w = Inr c"
  shows "commitment_typed env c \<and> commitment_validate env c p = Inr () \<and> w = commitment_wire_bytes env c"
  using assms
  by (auto simp: commitment_from_wire_def and_then_Inr commitment_typed_def Let_def
      dest!: array.read_valid [simplified] outpoint.read_valid [OF env] pubkey.read_valid [OF env]
        script.read_valid [simplified])

section \<open>Signature shares\<close>

lemma share_eta:
  "\<lparr>ss_manifest_id = ss_manifest_id s, input_index = input_index s, signer_pubkey = signer_pubkey s,
    ss_signature = ss_signature s\<rparr> = s"
  by simp

lemma share_read_back:
  assumes env: "env_ok env" and typed: "share_typed env s" and all: "require_all env (ss_signature s) = Inr ()"
  shows "share_from_wire env (share_wire_bytes env s) = Inr s"
proof -
  let ?sig = "ser_sig env (ss_signature s)"
  have len: "length (share_body env s) < 2 ^ 18"
    using env typed by (simp add: share_body_def share_typed_def pubkey_ok_def Let_def)
  then have body: "wire_body (share_wire_bytes env s) SIGNATURE_KIND = Inr (share_body env s)"
    by (simp add: share_wire_bytes_def wire_body_message)
  from len have fits: "fits (share_body env s)" by (simp add: fits_def)
  have sl: "unat (word_of_nat (length ?sig) :: u16) = length ?sig"
    using typed by (intro unat_u16) (simp add: share_typed_def)
  have last: "read_bytes (length ?sig) (cursor pre ?sig) = Inr (?sig, cursor (pre @ ?sig) [])" if "fits (pre @ ?sig)" for pre
    using read_bytes_cursor [of ?sig "length ?sig" pre "[]"] that by simp
  show ?thesis
    unfolding share_from_wire_def body
    using typed env all fits
    by (simp add: share_typed_def share_body_def reader_new_cursor codec_reads Let_def sl last share_new_def share_eta)
qed

lemma share_from_wire_Inr:
  assumes env: "env_ok env" and "share_from_wire env w = Inr s"
  shows "w = share_wire_bytes env s \<and> require_all env (ss_signature s) = Inr () \<and>
    length (ss_manifest_id s) = 32 \<and> pubkey_ok env (signer_pubkey s)"
  using assms
  by (auto simp: share_from_wire_def and_then_Inr share_new_def
      dest!: array.read_valid [simplified] pubkey.read_valid [OF env] split: if_splits)

lemma require_all_Inr:
  "require_all env sig = Inr u \<longleftrightarrow> sighash_type sig = SIGHASH_ALL \<and> normalize_s env (sig_core sig) = sig_core sig"
  by (simp add: require_all_def)

section \<open>Reservations\<close>

text \<open>The transitions a wallet can apply; a refused operation leaves the phase as it was.\<close>

inductive phase_step :: "reservation_phase \<Rightarrow> reservation_phase \<Rightarrow> bool" where
  release: "signature_released s = Inr s' \<Longrightarrow> phase_step s s'"
| abort: "timeout_abort s = Inr s' \<Longrightarrow> phase_step s s'"
| confirm: "phase_step s (confirmed s)"
| invalidate: "phase_step s (invalidated_on_chain s)"

inductive_cases phase_stepE: "phase_step s s'"

lemma phase_step_released:
  "phase_step s s' \<Longrightarrow> s \<in> {SignatureReleased, Confirmed, InvalidatedOnChain} \<Longrightarrow>
     s' \<in> {SignatureReleased, Confirmed, InvalidatedOnChain}"
  by (erule phase_stepE; cases s) (auto simp: confirmed_def invalidated_on_chain_def)

lemma phase_steps_released:
  "phase_step\<^sup>*\<^sup>* s s' \<Longrightarrow> s \<in> {SignatureReleased, Confirmed, InvalidatedOnChain} \<Longrightarrow>
     s' \<in> {SignatureReleased, Confirmed, InvalidatedOnChain}"
  by (induction rule: rtranclp_induct) (auto dest: phase_step_released)

section \<open>A concrete environment\<close>

text \<open>A toy instance of the library environment, and one batch in it, for the examples.\<close>

definition demo_env :: btc_env where
  "demo_env =
     \<lparr>sha256 = (\<lambda>m. take 32 (m @ replicate 32 0)),
      ser_outpoint = (\<lambda>p. op_txid p @ to_le_bytes (op_vout p)),
      de_outpoint = (\<lambda>bs. if length bs = 36 then Some \<lparr>op_txid = take 32 bs, op_vout = from_le_bytes (drop 32 bs)\<rparr> else None),
      is_null = (\<lambda>_. False),
      pubkey_from_slice = (\<lambda>bs. if length bs = 33 then Some bs else None),
      ser_tx = (\<lambda>_. []), de_tx = (\<lambda>_. None), tx_weight = (\<lambda>_. 0),
      to_p2wpkh = (\<lambda>k. [0x00, 0x14] @ take 20 k), to_p2wsh = (\<lambda>_. [0x00, 0x20]),
      new_op_return = (\<lambda>d. [0x6a, 0x40] @ d), push_key = (\<lambda>k. 0x21 # k),
      p2wsh_sighash = (\<lambda>_ _ _ _. Some []), p2wpkh_sighash = (\<lambda>_ _ _ _. Some []),
      verify_ecdsa = (\<lambda>_ _ _. True), sign_ecdsa = (\<lambda>_ _. []), pubkey_of = (\<lambda>k. take 33 (k @ [2])), normalize_s = (\<lambda>s. s),
      ser_sig = (\<lambda>s. 0x30 # take 64 (sig_core s)), sig_from_slice = (\<lambda>bs. Some \<lparr>sig_core = tl bs, sighash_type = 1\<rparr>),
      is_op_return = (\<lambda>s. s \<noteq> [] \<and> hd s = 0x6a), minimal_non_dust = (\<lambda>_. 294)\<rparr>"

lemma demo_env_ok: "env_ok demo_env"
  by (auto simp: env_ok_def demo_env_def outpoint_ok_def split: if_splits)

definition demo_proposal :: proposal where
  "demo_proposal =
     \<lparr>pr_version = VERSION, pr_chain_id = replicate 32 1, stock_outpoint = \<lparr>op_txid = replicate 32 1, op_vout = 0\<rparr>,
      stock_value = 1000, stock_owner_pubkey = replicate 33 2, participant_count = 1, proposal_nonce = replicate 32 3,
      observed_tip_height = 10, expiry_height = 20, target_feerate_sat_vb = 1, max_feerate_sat_vb = 5\<rparr>"

lemma demo_proposal_ok:
  "proposal_typed demo_env demo_proposal" "proposal_validate demo_env demo_proposal = Inr ()"
  by (simp_all add: proposal_typed_def demo_proposal_def outpoint_ok_def pubkey_ok_def demo_env_def
      proposal_validate_def VERSION_def LEGACY_VERSION_def MAX_BATCH_V2_PARTICIPANTS_def MIN_OUTPUT_SATS_def)

definition demo_commitment :: participant_commitment where
  "demo_commitment =
     \<lparr>pc_batch_id = batch_id demo_env demo_proposal, operation_id = replicate 32 4, commit_nonce = replicate 32 5,
      pc_payload = replicate 24 6, fee_outpoint = \<lparr>op_txid = replicate 32 7, op_vout = 1\<rparr>,
      fee_prevout = \<lparr>out_value = 5000, script_pubkey = [0x00, 0x14] @ replicate 20 8\<rparr>, fee_pubkey = replicate 33 8,
      change_spk = [0x00, 0x14] @ replicate 20 9, max_charge = 2000\<rparr>"

lemma length_batch_id: "env_ok env \<Longrightarrow> length (batch_id env p) = 32"
  by (simp add: batch_id_def domain_hash_def env_ok_def)

lemma demo_commitment_ok:
  "commitment_typed demo_env demo_commitment" "commitment_validate demo_env demo_commitment demo_proposal = Inr ()"
proof -
  show "commitment_typed demo_env demo_commitment"
    using length_batch_id [OF demo_env_ok, of demo_proposal]
    by (simp add: commitment_typed_def demo_commitment_def outpoint_ok_def pubkey_ok_def) (simp add: demo_env_def)
  show "commitment_validate demo_env demo_commitment demo_proposal = Inr ()"
    by (simp add: commitment_validate_def demo_commitment_def p2wpkh_script_def is_canonical_p2wpkh_def)
      (simp add: demo_env_def demo_proposal_def)
qed

definition demo_share :: signature_share where
  "demo_share = \<lparr>ss_manifest_id = replicate 32 1, input_index = 0, signer_pubkey = replicate 33 2,
     ss_signature = \<lparr>sig_core = replicate 64 7, sighash_type = 1\<rparr>\<rparr>"

lemma demo_share_ok: "share_typed demo_env demo_share" "require_all demo_env (ss_signature demo_share) = Inr ()"
  by (simp_all add: share_typed_def demo_share_def demo_env_def pubkey_ok_def require_all_def SIGHASH_ALL_def)

section \<open>Properties\<close>

text \<open>
  A proposal message parses exactly when it is the canonical encoding of a well
  typed, valid proposal, and then to that proposal: no two byte strings denote one proposal, and
  truncation, trailing bytes, another message kind or a wrong length field are refused.
\<close>
theorem proposal_wire_iff:
  assumes "env_ok env"
  shows "proposal_from_wire env w = Inr p \<longleftrightarrow>
    proposal_typed env p \<and> proposal_validate env p = Inr () \<and> w = proposal_wire_bytes env p"
  using proposal_from_wire_Inr [OF assms] proposal_read_back [OF assms] by blast

theorem proposal_wire_iff_witness:
  "proposal_from_wire demo_env (proposal_wire_bytes demo_env demo_proposal) = Inr demo_proposal"
  using proposal_wire_iff [OF demo_env_ok] demo_proposal_ok by blast

text \<open>
  A participant commitment parses exactly when its message is the canonical
  encoding of a well typed commitment that validates against the proposal (same batch, non-null and
  foreign fee outpoint, matching P2WPKH prevout, canonical change, non-zero maximum charge).
\<close>
theorem commitment_wire_iff:
  assumes "env_ok env"
  shows "commitment_from_wire env p w = Inr c \<longleftrightarrow>
    commitment_typed env c \<and> commitment_validate env c p = Inr () \<and> w = commitment_wire_bytes env c"
  using commitment_from_wire_Inr [OF assms] commitment_read_back [OF assms] by blast

theorem commitment_wire_iff_witness:
  "commitment_from_wire demo_env demo_proposal (commitment_wire_bytes demo_env demo_commitment) = Inr demo_commitment"
  using commitment_wire_iff [OF demo_env_ok] demo_commitment_ok by blast

text \<open>
  Signature shares round trip: the parser returns a share exactly from its canonical
  message, and every share it returns is SIGHASH_ALL and low-S.
\<close>
theorem share_wire_roundtrip:
  assumes "env_ok env"
  shows "(share_typed env s \<and> require_all env (ss_signature s) = Inr () \<longrightarrow>
      share_from_wire env (share_wire_bytes env s) = Inr s) \<and>
    (share_from_wire env w = Inr s \<longrightarrow> w = share_wire_bytes env s \<and>
      sighash_type (ss_signature s) = SIGHASH_ALL \<and>
      normalize_s env (sig_core (ss_signature s)) = sig_core (ss_signature s))"
  using share_read_back [OF assms] share_from_wire_Inr [OF assms]
  by (auto simp: require_all_Inr)

theorem share_wire_roundtrip_witness:
  "share_from_wire demo_env (share_wire_bytes demo_env demo_share) = Inr demo_share"
  using share_wire_roundtrip [OF demo_env_ok] demo_share_ok by blast

text \<open>
  Withholding safety of a reserved fee input: once a signature has been released, no
  sequence of operations returns the reservation to the pre-signature released phase; the input
  becomes releasable only through a confirmation or an on-chain invalidation. The journal byte of
  every phase decodes to that phase.
\<close>
theorem released_signature_is_never_unlocked:
  assumes "phase_step\<^sup>*\<^sup>* SignatureReleased s"
  shows "s \<noteq> ReleasedBeforeSignature \<and> s \<noteq> CommittedUnsigned \<and>
    (is_releasable s \<longrightarrow> s = Confirmed \<or> s = InvalidatedOnChain) \<and>
    phase_from_byte (phase_to_byte s) = Inr s"
  using phase_steps_released [OF assms] by (cases s) (auto simp: phase_from_byte_def)

theorem released_signature_is_never_unlocked_witness:
  "SignatureReleased \<noteq> ReleasedBeforeSignature \<and> phase_from_byte (phase_to_byte SignatureReleased) = Inr SignatureReleased"
  using released_signature_is_never_unlocked [of SignatureReleased] by simp

end
