(* ===== verification/Batch_Manifest.thy ===== *)
theory Batch_Manifest
  imports Batch_Roundtrip "HOL-Library.Multiset"
begin

text \<open>
  Correctness of the batching manifest: exact fee allocation and value conservation, canonical
  reconstruction, replacement, the envelope a finalized transaction carries, and the order
  independence of share collection.
\<close>

section \<open>Weights and charges\<close>

lemma max_signed_weight_Inr:
  "max_signed_weight n = Inr w \<longleftrightarrow> 1 \<le> n \<and> n \<le> 64 \<and> unat w = 968 + 423 * n"
proof (cases "1 \<le> n \<and> n \<le> 64")
  case True
  then have n: "unat (word_of_nat n :: u64) = n" by (simp add: unat_of_nat)
  have m: "checked_mul 423 (word_of_nat n :: u64) = Some (423 * word_of_nat n)"
    and um: "unat (423 * word_of_nat n :: u64) = 423 * n"
    using True n by (simp_all add: checked_mul_def unat_word_ariths)
  have "max_signed_weight n = Inr w \<longleftrightarrow> checked_add (423 * word_of_nat n :: u64) 968 = Some w"
    using True by (simp add: max_signed_weight_def MAX_BATCH_V2_PARTICIPANTS_def m)
  then show ?thesis using True um by (auto simp: checked_add_Some)
qed (auto simp: max_signed_weight_def MAX_BATCH_V2_PARTICIPANTS_def)

text \<open>What the allocation loop guarantees of each participant.\<close>

definition allocation_ok :: "u64 \<Rightarrow> u64 \<Rightarrow> nat \<Rightarrow> participant_commitment list \<Rightarrow> (u64 \<times> u64) list \<Rightarrow> bool" where
  "allocation_ok base rem i cs al \<longleftrightarrow> length al = length cs \<and>
     (\<forall>j < length cs. fst (al ! j) = base + (if word_of_nat (i + j) < rem then 1 else 0) \<and>
        fst (al ! j) \<le> max_charge (cs ! j) \<and> MIN_OUTPUT_SATS \<le> snd (al ! j) \<and>
        unat (out_value (fee_prevout (cs ! j))) = unat (fst (al ! j)) + unat (snd (al ! j)))"

lemma charge_loop_Inr:
  "charge_loop base rem i cs = Inr al \<Longrightarrow> allocation_ok base rem i cs al"
proof (induction cs arbitrary: i al)
  case (Cons c cs)
  let ?ch = "base + (if word_of_nat i < rem then 1 else 0)"
  from Cons.prems obtain chg rest where le: "\<not> ?ch > max_charge c"
    and chg: "checked_sub (out_value (fee_prevout c)) ?ch = Some chg" and ge: "\<not> chg < MIN_OUTPUT_SATS"
    and rest: "charge_loop base rem (Suc i) cs = Inr rest" and al: "al = (?ch, chg) # rest"
    by (auto simp: Let_def and_then_Inr split: if_splits)
  from Cons.IH [OF rest] have IH: "allocation_ok base rem (Suc i) cs rest" .
  show ?case unfolding allocation_ok_def
  proof (intro conjI allI impI)
    show "length al = length (c # cs)" using IH al by (simp add: allocation_ok_def)
    fix j assume j: "j < length (c # cs)"
    show "fst (al ! j) = base + (if word_of_nat (i + j) < rem then 1 else 0)"
      using IH al j by (cases j) (auto simp: allocation_ok_def)
    show "fst (al ! j) \<le> max_charge ((c # cs) ! j)"
      using IH al j le by (cases j) (auto simp: allocation_ok_def)
    show "MIN_OUTPUT_SATS \<le> snd (al ! j)"
      using IH al j ge by (cases j) (auto simp: allocation_ok_def)
    show "unat (out_value (fee_prevout ((c # cs) ! j))) = unat (fst (al ! j)) + unat (snd (al ! j))"
      using IH al j unat_checked_sub [OF chg] by (cases j) (auto simp: allocation_ok_def)
  qed
qed (simp add: allocation_ok_def)

lemma sum_remainder: "(\<Sum>j<n. b + (if j < k then 1 else 0)) = n * b + min n k" for n k b :: nat
  by (induction n) auto

lemma sum_charges:
  assumes ok: "allocation_ok (t div word_of_nat n) (t mod word_of_nat n) 0 cs al"
    and n: "n = length cs" "1 \<le> n" "n \<le> 64"
  shows "sum_list (map (unat \<circ> fst) al) = unat t"
    and "\<And>j. j < n \<Longrightarrow> unat (fst (al ! j)) = unat t div n + (if j < unat t mod n then 1 else 0)"
proof -
  have un: "unat (word_of_nat n :: u64) = n" using n by (simp add: unat_of_nat)
  have len: "length al = n" using ok n by (simp add: allocation_ok_def)
  show each: "unat (fst (al ! j)) = unat t div n + (if j < unat t mod n then 1 else 0)" if j: "j < n" for j
  proof -
    have uj: "unat (word_of_nat j :: u64) = j" using j n by (simp add: unat_of_nat)
    have cmp: "(word_of_nat j :: u64) < t mod word_of_nat n \<longleftrightarrow> j < unat t mod n"
      by (simp add: word_less_nat_alt unat_mod un uj)
    have base: "unat (t div word_of_nat n :: u64) = unat t div n" by (simp add: unat_div un)
    have f: "fst (al ! j) = t div word_of_nat n + (if j < unat t mod n then 1 else 0)"
      using ok j n cmp by (auto simp: allocation_ok_def)
    show ?thesis
    proof (cases "j < unat t mod n")
      case True
      then have "unat t div n < unat t"
        using n by (metis div_less_dividend mod_less_divisor mod_by_1 less_nat_zero_code
            less_one linorder_neqE_nat mod_0 not_less zero_less_iff_neq_zero)
      then have "unat t div n + 1 < 2 ^ 64" using unat_bounds(4) [of t] by simp
      with True f base show ?thesis by (simp add: unat_word_ariths)
    qed (use f base in simp)
  qed
  have "sum_list (map (unat \<circ> fst) al) = (\<Sum>j<n. unat (fst (al ! j)))"
    using len by (simp add: sum_list_sum_nth atLeast0LessThan)
  also have "\<dots> = (\<Sum>j<n. unat t div n + (if j < unat t mod n then 1 else 0))"
    using each by simp
  also have "\<dots> = n * (unat t div n) + unat t mod n"
  proof -
    have "0 < n" using n by linarith
    then have "unat t mod n < n" by simp
    then show ?thesis by (simp add: sum_remainder min_def)
  qed
  also have "\<dots> = unat t" by simp
  finally show "sum_list (map (unat \<circ> fst) al) = unat t" .
qed

section \<open>What building guarantees\<close>

text \<open>The decomposition of a successful build.\<close>

lemma build_at_Inr:
  assumes "build_at env sp p cs0 epoch rate = Inr m"
  obtains marker w fee tot al where
    "marker_spk_for_version (pr_version p) = Inr marker" "proposal_validate env p = Inr ()"
    "length cs0 = unat (participant_count p)" "target_feerate_sat_vb p \<le> rate" "rate \<le> max_feerate_sat_vb p"
    "try_each (\<lambda>c. commitment_validate env c p) cs0 = Inr ()"
    "reject_duplicates env (sort_commitments env cs0) = Inr ()"
    "max_signed_weight (length cs0) = Inr w"
    "checked_mul (ucast rate) (div_ceil w 4) = Some fee" "checked_add fee MARKER_DUST_SATS = Some tot"
    "charge_loop (tot div word_of_nat (length cs0)) (tot mod word_of_nat (length cs0)) 0 (sort_commitments env cs0) = Inr al"
    "m = \<lparr>mf_batch_id = batch_id env p, replacement_epoch = epoch, feerate_sat_vb = rate,
          max_weight = ucast w, miner_fee = fee, total_charge = tot, charges = map fst al,
          mf_commitments = sort_commitments env cs0,
          unsigned_tx = manifest_tx env sp p marker (sort_commitments env cs0) (map snd al)\<rparr>"
proof -
  have len: "length (sort_commitments env cs0) = length cs0" by (simp add: sort_commitments_def)
  show thesis
    using assms unfolding build_at_def build_at_with_marker_def
    by (auto simp: and_then_Inr Let_def len not_less split: if_splits intro!: that)
qed

lemma length_sort_commitments [simp]: "length (sort_commitments env cs) = length cs"
  by (simp add: sort_commitments_def)

lemma set_sort_commitments [simp]: "set (sort_commitments env cs) = set cs"
  by (simp add: sort_commitments_def)

lemma sort_commitments_idem [simp]: "sort_commitments env (sort_commitments env cs) = sort_commitments env cs"
  by (simp add: sort_commitments_def sort_key_id_if_sorted)

lemma try_each_set: "set xs = set ys \<Longrightarrow> try_each f xs = Inr () \<longleftrightarrow> try_each f ys = Inr ()"
  by (simp add: try_each_Inr)

lemma layout_ok:
  "mf_batch_id m = batch_id env p \<Longrightarrow> mf_commitments m = cs \<Longrightarrow> length chs = length cs \<Longrightarrow>
     unsigned_tx m = manifest_tx env sp p marker cs chs \<Longrightarrow> check_layout env m p = Inr ()"
  by (auto simp: check_layout_def manifest_tx_def Let_def unsigned_input_def list_ex_iff)

text \<open>A build is a fixed point: rebuilding from its own commitments gives it back.\<close>

lemma build_at_canonical:
  assumes "build_at env sp p cs0 epoch rate = Inr m"
  shows "build_at env sp p (mf_commitments m) epoch rate = Inr m"
  using assms
proof (rule build_at_Inr)
  fix marker w fee tot al
  let ?cs = "sort_commitments env cs0"
  assume f: "marker_spk_for_version (pr_version p) = Inr marker" "proposal_validate env p = Inr ()"
    "length cs0 = unat (participant_count p)" "target_feerate_sat_vb p \<le> rate" "rate \<le> max_feerate_sat_vb p"
    "try_each (\<lambda>c. commitment_validate env c p) cs0 = Inr ()"
    "reject_duplicates env ?cs = Inr ()"
    "max_signed_weight (length cs0) = Inr w"
    "checked_mul (ucast rate) (div_ceil w 4) = Some fee" "checked_add fee MARKER_DUST_SATS = Some tot"
    "charge_loop (tot div word_of_nat (length cs0)) (tot mod word_of_nat (length cs0)) 0 ?cs = Inr al"
    and m: "m = \<lparr>mf_batch_id = batch_id env p, replacement_epoch = epoch, feerate_sat_vb = rate,
          max_weight = ucast w, miner_fee = fee, total_charge = tot, charges = map fst al,
          mf_commitments = ?cs, unsigned_tx = manifest_tx env sp p marker ?cs (map snd al)\<rparr>"
  have "length al = length ?cs" using charge_loop_Inr [OF f(11)] by (simp add: allocation_ok_def)
  then have "check_layout env m p = Inr ()" by (intro layout_ok) (simp_all add: m)
  moreover have "unat w < 2 ^ 32" using f(8) by (simp add: max_signed_weight_Inr)
  moreover have "try_each (\<lambda>c. commitment_validate env c p) ?cs = Inr ()"
    using f(6) by (simp add: try_each_Inr)
  ultimately show ?thesis using f
    by (simp add: build_at_def build_at_with_marker_def Let_def m not_less [symmetric])
qed

lemma manifest_validate_iff:
  "manifest_validate env sp m p = Inr () \<longleftrightarrow>
     build_at env sp p (mf_commitments m) (replacement_epoch m) (feerate_sat_vb m) = Inr m"
  by (auto simp: manifest_validate_def and_then_Inr split: if_splits)

lemma build_at_fields:
  assumes "build_at env sp p cs0 epoch rate = Inr m"
  shows "replacement_epoch m = epoch" "feerate_sat_vb m = rate" "mf_commitments m = sort_commitments env cs0"
    "mf_batch_id m = batch_id env p"
  using assms by (auto elim!: build_at_Inr)

lemma build_at_validates: "build_at env sp p cs0 epoch rate = Inr m \<Longrightarrow> manifest_validate env sp m p = Inr ()"
  using build_at_canonical build_at_fields by (simp add: manifest_validate_iff)

section \<open>Duplicates\<close>

lemma reject_duplicates_loop_Inr:
  "reject_duplicates_loop env is os ps qs rs cs = Inr () \<longleftrightarrow>
     distinct (map (commitment_id env) cs) \<and> commitment_id env ` set cs \<inter> set is = {} \<and>
     distinct (map operation_id cs) \<and> operation_id ` set cs \<inter> set os = {} \<and>
     distinct (map fee_outpoint cs) \<and> fee_outpoint ` set cs \<inter> set ps = {} \<and>
     distinct (map pc_payload cs) \<and> pc_payload ` set cs \<inter> set qs = {} \<and>
     distinct (map change_spk cs) \<and> change_spk ` set cs \<inter> set rs = {}"
  by (induction cs arbitrary: "is" os ps qs rs) auto

lemma reject_duplicates_Inr:
  "reject_duplicates env cs = Inr () \<longleftrightarrow>
     distinct (map (commitment_id env) cs) \<and> distinct (map operation_id cs) \<and> distinct (map fee_outpoint cs) \<and>
     distinct (map pc_payload cs) \<and> distinct (map change_spk cs)"
  by (simp add: reject_duplicates_def reject_duplicates_loop_Inr)

section \<open>Values\<close>

definition inputs_value :: "proposal \<Rightarrow> manifest \<Rightarrow> nat" where
  "inputs_value p m = unat (stock_value p) + sum_list (map (\<lambda>c. unat (out_value (fee_prevout c))) (mf_commitments m))"

definition outputs_value :: "manifest \<Rightarrow> nat" where
  "outputs_value m = sum_list (map (\<lambda>out. unat (out_value out)) (tx_output (unsigned_tx m)))"

lemma sum_prevouts:
  assumes "allocation_ok base rem i cs al"
  shows "sum_list (map (\<lambda>c. unat (out_value (fee_prevout c))) cs) =
    sum_list (map (unat \<circ> fst) al) + sum_list (map (unat \<circ> snd) al)"
proof -
  have len: "length al = length cs" using assms by (simp add: allocation_ok_def)
  have "map (\<lambda>c. unat (out_value (fee_prevout c))) cs = map (\<lambda>a. unat (fst a) + unat (snd a)) al"
    using assms len by (intro nth_equalityI) (simp_all add: allocation_ok_def)
  then show ?thesis by (simp add: sum_list_addf o_def)
qed

lemma sum_changes:
  "length al = length cs \<Longrightarrow>
     sum_list (map (\<lambda>out. unat (out_value out)) (map (\<lambda>(c, v). \<lparr>out_value = v, script_pubkey = change_spk c\<rparr>) (zip cs (map snd al)))) =
     sum_list (map (unat \<circ> snd) al)"
proof -
  assume "length al = length cs"
  then have "map (\<lambda>out. unat (out_value out)) (map (\<lambda>(c, v). \<lparr>out_value = v, script_pubkey = change_spk c\<rparr>) (zip cs (map snd al))) =
      map (unat \<circ> snd) al"
    by (intro nth_equalityI) simp_all
  then show ?thesis by (rule arg_cong)
qed


section \<open>Conservation and order independence\<close>

lemma outputs_value_build:
  assumes "unsigned_tx m = manifest_tx env sp p marker cs (map snd al)" and "length al = length cs"
  shows "outputs_value m = 546 + unat (stock_value p) + sum_list (map (unat \<circ> snd) al)"
  using assms sum_changes [OF assms(2)]
  by (simp add: outputs_value_def manifest_tx_def Let_def MARKER_DUST_SATS_def)

lemma build_at_values:
  assumes "build_at env sp p cs0 epoch rate = Inr m"
  shows "inputs_value p m = outputs_value m + unat (miner_fee m) \<and>
    unat (total_charge m) = unat (miner_fee m) + 546 \<and> sum_list (map unat (charges m)) = unat (total_charge m) \<and>
    length (charges m) = length (mf_commitments m) \<and>
    (\<forall>i < length (charges m). unat (charges m ! i) =
        unat (total_charge m) div length (charges m) + (if i < unat (total_charge m) mod length (charges m) then 1 else 0)) \<and>
    (\<forall>i < length (charges m). charges m ! i \<le> max_charge (mf_commitments m ! i))"
  using assms
proof (rule build_at_Inr)
  fix marker w fee tot al
  let ?cs = "sort_commitments env cs0"
  assume w: "max_signed_weight (length cs0) = Inr w" and tot: "checked_add fee MARKER_DUST_SATS = Some tot"
    and loop: "charge_loop (tot div word_of_nat (length cs0)) (tot mod word_of_nat (length cs0)) 0 ?cs = Inr al"
    and m: "m = \<lparr>mf_batch_id = batch_id env p, replacement_epoch = epoch, feerate_sat_vb = rate,
          max_weight = ucast w, miner_fee = fee, total_charge = tot, charges = map fst al,
          mf_commitments = ?cs, unsigned_tx = manifest_tx env sp p marker ?cs (map snd al)\<rparr>"
  have ok: "allocation_ok (tot div word_of_nat (length cs0)) (tot mod word_of_nat (length cs0)) 0 ?cs al"
    using loop by (rule charge_loop_Inr)
  then have len: "length al = length cs0" by (simp add: allocation_ok_def)
  have t: "unat tot = unat fee + 546" using tot by (auto simp: checked_add_Some MARKER_DUST_SATS_def)
  have n: "length cs0 = length ?cs" "1 \<le> length cs0" "length cs0 \<le> 64"
    using w by (simp_all add: max_signed_weight_Inr)
  have outs: "outputs_value m = 546 + unat (stock_value p) + sum_list (map (unat \<circ> snd) al)"
    by (rule outputs_value_build [where env = env and sp = sp and marker = marker and cs = ?cs])
      (simp_all add: m len)
  show ?thesis
  proof (intro conjI allI impI)
    show "inputs_value p m = outputs_value m + unat (miner_fee m)"
      unfolding outs using sum_prevouts [OF ok] sum_charges(1) [OF ok n] t by (simp add: inputs_value_def m)
    show "sum_list (map unat (charges m)) = unat (total_charge m)"
      using sum_charges(1) [OF ok n] by (simp add: m)
    fix i assume "i < length (charges m)"
    then have i: "i < length cs0" by (simp add: m len)
    show "unat (charges m ! i) =
        unat (total_charge m) div length (charges m) + (if i < unat (total_charge m) mod length (charges m) then 1 else 0)"
      using sum_charges(2) [OF ok n i] i len by (simp add: m)
    show "charges m ! i \<le> max_charge (mf_commitments m ! i)"
      using ok i len unfolding m allocation_ok_def by (metis length_sort_commitments manifest.select_convs(7,8) nth_map)
  qed (simp_all add: m t len)
qed

lemma build_at_changes:
  assumes "build_at env sp p cs0 epoch rate = Inr m" and "i < length (mf_commitments m)"
  shows "script_pubkey (tx_output (unsigned_tx m) ! (i + 3)) = change_spk (mf_commitments m ! i)"
    and "unat (out_value (tx_output (unsigned_tx m) ! (i + 3))) + unat (charges m ! i) =
       unat (out_value (fee_prevout (mf_commitments m ! i)))"
    and "546 \<le> unat (out_value (tx_output (unsigned_tx m) ! (i + 3)))"
  using assms
  by (atomize (full), elim build_at_Inr)
    (use charge_loop_Inr in \<open>fastforce simp: manifest_tx_def Let_def allocation_ok_def MIN_OUTPUT_SATS_def
       word_le_nat_alt\<close>)

lemma build_at_distinct:
  assumes "build_at env sp p cs0 epoch rate = Inr m"
  shows "distinct (map fee_outpoint (mf_commitments m))" "distinct (map pc_payload (mf_commitments m))"
    "distinct (map operation_id (mf_commitments m))" "distinct (map change_spk (mf_commitments m))"
    "sorted (map (\<lambda>c. ser_outpoint env (fee_outpoint c)) (mf_commitments m))"
  using assms by (auto elim!: build_at_Inr simp: reject_duplicates_Inr sort_commitments_def)

lemma sort_commitments_perm:
  assumes "mset cs = mset cs'" and "inj_on (\<lambda>c. ser_outpoint env (fee_outpoint c)) (set cs)"
  shows "sort_commitments env cs = sort_commitments env cs'"
  unfolding sort_commitments_def using assms by (intro sort_key_inj_key_eq) simp_all

lemma inj_on_outpoints:
  assumes env: "env_ok env" and "\<forall>c\<in>set cs. outpoint_ok (fee_outpoint c)" and "distinct (map fee_outpoint cs)"
  shows "inj_on (\<lambda>c. ser_outpoint env (fee_outpoint c)) (set cs)"
proof (rule inj_onI)
  fix c d assume cd: "c \<in> set cs" "d \<in> set cs" "ser_outpoint env (fee_outpoint c) = ser_outpoint env (fee_outpoint d)"
  then have "Some (fee_outpoint c) = Some (fee_outpoint d)"
    using assms(2) env unfolding env_ok_def by metis
  with cd assms(3) show "c = d" by (auto simp: distinct_map dest: inj_onD)
qed

lemma build_at_perm:
  assumes build: "build_at env sp p cs epoch rate = Inr m" and perm: "mset cs = mset cs'"
    and inj: "inj_on (\<lambda>c. ser_outpoint env (fee_outpoint c)) (set cs)"
  shows "build_at env sp p cs' epoch rate = Inr m"
proof -
  have eq: "sort_commitments env cs' = sort_commitments env cs" using sort_commitments_perm [OF perm inj] by simp
  have "length cs' = length cs" "set cs' = set cs" using perm mset_eq_length mset_eq_setD by metis+
  then have "try_each (\<lambda>c. commitment_validate env c p) cs' = Inr () \<longleftrightarrow> try_each (\<lambda>c. commitment_validate env c p) cs = Inr ()"
    by (simp add: try_each_Inr)
  with build \<open>length cs' = length cs\<close> show ?thesis
    by (auto simp: build_at_def build_at_with_marker_def and_then_Inr Let_def eq split: if_splits)
qed

end
