(* ===== verification/Batch_Safety.thy ===== *)
theory Batch_Safety
  imports Batch_Manifest
begin

text \<open>
  Replacement, finalization and share collection of a manifest, and the properties of building.
\<close>

section \<open>Replacement\<close>

lemma replacement_Inr:
  "replacement env sp m p rate = Inr m' \<longleftrightarrow>
     feerate_sat_vb m < rate \<and> pr_version p = VERSION \<and>
     (\<exists>epoch. checked_add (replacement_epoch m) 1 = Some epoch \<and>
        build_at env sp p (mf_commitments m) epoch rate = Inr m') \<and>
     tx_input (unsigned_tx m) = tx_input (unsigned_tx m') \<and>
     take 3 (tx_output (unsigned_tx m)) = take 3 (tx_output (unsigned_tx m')) \<and>
     map script_pubkey (drop 3 (tx_output (unsigned_tx m))) = map script_pubkey (drop 3 (tx_output (unsigned_tx m')))"
  by (auto simp: replacement_def and_then_Inr Let_def not_le)

lemma ceil_quarter: "(if 0 < n mod 4 then Suc (n div 4) else n div 4) = (n + 3) div 4" for n :: nat
  by presburger

lemma fee_of_build:
  assumes "build_at env sp p cs epoch rate = Inr m"
  shows "unat (miner_fee m) = unat rate * ((971 + 423 * length (mf_commitments m)) div 4)"
  using assms
proof (rule build_at_Inr)
  fix marker w fee tot al
  assume w: "max_signed_weight (length cs) = Inr w" and fee: "checked_mul (ucast rate) (div_ceil w 4) = Some fee"
    and m: "m = \<lparr>mf_batch_id = batch_id env p, replacement_epoch = epoch, feerate_sat_vb = rate,
          max_weight = ucast w, miner_fee = fee, total_charge = tot, charges = map fst al,
          mf_commitments = sort_commitments env cs,
          unsigned_tx = manifest_tx env sp p marker (sort_commitments env cs) (map snd al)\<rparr>"
  have uw: "unat w = 968 + 423 * length cs" and n: "length cs \<le> 64" using w by (simp_all add: max_signed_weight_Inr)
  have "unat (div_ceil w 4 :: u64) = (unat w + 3) div 4"
  proof -
    have "unat w < 2 ^ 32" using uw n by simp
    then show ?thesis using ceil_quarter [of "unat w"]
      by (simp add: div_ceil_def word_less_nat_alt unat_mod unat_div unat_word_ariths split: if_splits)
  qed
  moreover have "unat (ucast rate :: u64) = unat rate" using unat_bounds(3) [of rate] by (simp add: unsigned_ucast_eq take_bit_nat_eq_self)
  ultimately show ?thesis using fee uw by (auto simp: checked_mul_Some m)
qed


lemma replacement_fee:
  assumes old: "manifest_validate env sp m p = Inr ()" and new: "replacement env sp m p rate = Inr m'"
  shows "unat (miner_fee m) < unat (miner_fee m') \<and> mf_commitments m' = mf_commitments m \<and>
    unat (replacement_epoch m') = Suc (unat (replacement_epoch m)) \<and> feerate_sat_vb m' = rate \<and>
    manifest_validate env sp m' p = Inr ()"
proof -
  from old have b: "build_at env sp p (mf_commitments m) (replacement_epoch m) (feerate_sat_vb m) = Inr m"
    by (simp add: manifest_validate_iff)
  from new obtain epoch where e: "checked_add (replacement_epoch m) 1 = Some epoch"
    and b': "build_at env sp p (mf_commitments m) epoch rate = Inr m'" and lt: "feerate_sat_vb m < rate"
    by (auto simp: replacement_Inr)
  have cs: "mf_commitments m' = mf_commitments m"
    using build_at_fields(3) [OF b] build_at_fields(3) [OF b'] by simp
  have "unat (feerate_sat_vb m) < unat rate" using lt by (simp add: word_less_nat_alt)
  then show ?thesis
    using fee_of_build [OF b] fee_of_build [OF b'] cs build_at_fields [OF b'] build_at_validates [OF b'] e
    by (auto simp: checked_add_Some)
qed

section \<open>Finalization\<close>

lemma verify_participants_Inr:
  "verify_participants_loop env m k sigs = Inr () \<longleftrightarrow>
     (\<forall>i < length sigs. verify_participant_signature env m (k + i) (sigs ! i) = Inr ())"
proof (induction sigs arbitrary: k)
  case (Cons sig sigs)
  have "(\<forall>i < length (sig # sigs). verify_participant_signature env m (k + i) ((sig # sigs) ! i) = Inr ()) \<longleftrightarrow>
      verify_participant_signature env m k sig = Inr () \<and>
      (\<forall>i < length sigs. verify_participant_signature env m (Suc k + i) (sigs ! i) = Inr ())"
    by (simp add: All_less_Suc2)
  then show ?case using Cons.IH [of "Suc k"] by (simp add: and_then_Inr)
qed simp

lemma finalize_Inr:
  "finalize env sp m p stock sigs = Inr tx \<longleftrightarrow>
     manifest_validate env sp m p = Inr () \<and> length sigs = length (mf_commitments m) \<and>
     verify_stock_signature env m p stock = Inr () \<and>
     (\<forall>i < length sigs. verify_participant_signature env m i (sigs ! i) = Inr ()) \<and>
     tx = signed_tx env m p stock sigs \<and> tx_weight env tx \<le> unat (max_weight m)"
  by (auto simp: finalize_def and_then_Inr Let_def verify_participants_Inr)

section \<open>Share collection\<close>

lemma verify_share_index:
  "verify_signature_share env sp m p s = Inr () \<Longrightarrow> unat (input_index s) < Suc (length (mf_commitments m))"
  by (auto simp: verify_signature_share_def and_then_Inr Let_def split: if_splits)

text \<open>The slots after collection: what was there, and the signature of every share.\<close>

lemma collect_shares_Inr:
  assumes "length ordered = Suc (length (mf_commitments m))"
  shows "collect_shares env sp m p shares ordered = Inr slots \<longleftrightarrow>
     (\<forall>s\<in>set shares. verify_signature_share env sp m p s = Inr ()) \<and> length slots = length ordered \<and>
     (\<forall>i < length ordered. \<forall>sig. slots ! i = Some sig \<longleftrightarrow>
        ordered ! i = Some sig \<or> (\<exists>s\<in>set shares. unat (input_index s) = i \<and> ss_signature s = sig))"
  using assms
proof (induction shares arbitrary: ordered)
  case Nil
  have "(\<forall>i < length ordered. \<forall>sig. slots ! i = Some sig \<longleftrightarrow> ordered ! i = Some sig) \<longleftrightarrow>
      (\<forall>i < length ordered. slots ! i = ordered ! i)"
    by (metis option.exhaust)
  then show ?case by (auto intro: nth_equalityI)
next
  case (Cons s shares)
  show ?case
  proof (cases "verify_signature_share env sp m p s")
    case (Inr u)
    let ?i = "unat (input_index s)"
    have i: "?i < length ordered" using verify_share_index [of env sp m p s] Inr Cons.prems by simp
    show ?thesis
    proof (cases "ordered ! ?i")
      case None
      have "length (ordered[?i := Some (ss_signature s)]) = Suc (length (mf_commitments m))" using Cons.prems by simp
      from Cons.IH [OF this] show ?thesis using Inr None i by (auto simp: nth_list_update)
    next
      case (Some sig)
      show ?thesis
      proof (cases "sig = ss_signature s")
        case True
        with Cons.IH [OF Cons.prems] show ?thesis using Inr Some i by auto
      next
        case False
        then show ?thesis using Inr Some i by (auto dest!: spec [where x = ?i]) (metis option.inject)
      qed
    qed
  qed (auto)
qed


section \<open>What a finalized transaction carries\<close>

lemma build_counts:
  assumes "build_at env sp p cs0 epoch rate = Inr m"
  shows "1 \<le> length (mf_commitments m)" "length (mf_commitments m) \<le> 64"
    "length (mf_commitments m) = unat (participant_count p)"
  using assms by (auto elim!: build_at_Inr simp: max_signed_weight_Inr)

lemma build_header:
  assumes "build_at env sp p cs0 epoch rate = Inr m"
  obtains r where "batch_header_v2 sp (map pc_payload (mf_commitments m)) (proposal_context env p) = Some r"
    "tx_output (unsigned_tx m) ! 0 = \<lparr>out_value = 0, script_pubkey = new_op_return env (to_bytes r)\<rparr>"
proof -
  let ?h = "batch_header_v2 sp (map pc_payload (mf_commitments m)) (proposal_context env p)"
  have "?h \<noteq> None"
    using build_counts [OF assms] by (auto simp: batch_header_v2_def MAX_BATCH_V2_PARTICIPANTS_def)
  moreover have "tx_output (unsigned_tx m) ! 0 = \<lparr>out_value = 0, script_pubkey = new_op_return env (to_bytes (the ?h))\<rparr>"
    using assms by (auto elim!: build_at_Inr simp: manifest_tx_def Let_def)
  ultimately show thesis using that by auto
qed

lemma header_v2_positions:
  assumes "batch_header_v2 sp ps ctx = Some r" and "sponge_ok sp" and "distinct ps"
    and "i < length ps" and "ps ! i = k_binding sp nf ctx"
  shows "versioned_envelope_occurrence sp V2 r ps ctx nf = Some (word_of_nat i)"
proof -
  have "iter_position (\<lambda>p. p = k_binding sp nf ctx) ps = Some i"
    using assms(3-5) nth_eq_iff_index_eq [of ps _ i] by (fastforce simp: iter_position_Some)
  with assms(1,2) show ?thesis
    by (auto simp: batch_header_v2_def MAX_BATCH_V2_PARTICIPANTS_def to_anchor_binding unat_of_nat split: if_splits)
qed

lemma build_inputs:
  assumes "build_at env sp p cs0 epoch rate = Inr m"
  shows "tx_input (unsigned_tx m) = unsigned_input (stock_outpoint p) # map (\<lambda>c. unsigned_input (fee_outpoint c)) (mf_commitments m)"
  using assms by (auto elim!: build_at_Inr simp: manifest_tx_def Let_def)

lemma signed_envelope:
  assumes build: "build_at env sp p cs0 epoch rate = Inr m"
    and sizes: "\<forall>c\<in>set (mf_commitments m). length (pc_payload c) = 24"
    and sig: "ser_sig env stock \<noteq> []" "length (ser_sig env stock) \<le> 80"
  shows "witness_envelope_decode (witness (tx_input (signed_tx env m p stock sigs) ! 0)) =
    Some (V2, map pc_payload (mf_commitments m))"
proof -
  let ?ps = "map pc_payload (mf_commitments m)"
  have "envelope_v2_encode ?ps = Some (WITNESS_MAGIC_V2 # ?ps)"
    using build_counts [OF build] by (auto simp: envelope_v2_encode_def MAX_BATCH_V2_PARTICIPANTS_def)
  then have "witness (tx_input (signed_tx env m p stock sigs) ! 0) =
      WITNESS_MAGIC_V2 # ?ps @ [ser_sig env stock, proposal_witness_script env p]"
    by (simp add: signed_tx_def Let_def)
  moreover have "proposal_witness_script env p \<noteq> []"
    by (simp add: proposal_witness_script_def stock_witness_script_def)
  ultimately show ?thesis
    using build_counts [OF build] sizes sig by (auto simp: witness_decode_v2 list_all_iff simp del: witness_envelope_decode.simps)
qed

lemma signed_prevouts:
  assumes "build_at env sp p cs0 epoch rate = Inr m" and "length sigs = length (mf_commitments m)"
  shows "map previous_output (tx_input (signed_tx env m p stock sigs)) = map previous_output (tx_input (unsigned_tx m))"
    and "tx_output (signed_tx env m p stock sigs) = tx_output (unsigned_tx m)"
proof -
  show "map previous_output (tx_input (signed_tx env m p stock sigs)) = map previous_output (tx_input (unsigned_tx m))"
    using assms(2) by (intro nth_equalityI)
      (auto simp: signed_tx_def Let_def build_inputs [OF assms(1)] nth_Cons split: nat.splits)
qed (simp add: signed_tx_def Let_def)


section \<open>A concrete manifest\<close>

definition demo_manifest :: "u32 \<Rightarrow> u32 \<Rightarrow> u64 \<Rightarrow> manifest" where
  "demo_manifest epoch rate fee =
     \<lparr>mf_batch_id = batch_id demo_env demo_proposal, replacement_epoch = epoch, feerate_sat_vb = rate, max_weight = 1391,
      miner_fee = fee, total_charge = fee + 546, charges = [fee + 546], mf_commitments = [demo_commitment],
      unsigned_tx = manifest_tx demo_env zero_sponge demo_proposal MARKER_SPK [demo_commitment] [5000 - (fee + 546)]\<rparr>"

lemma demo_weight: "max_signed_weight (Suc 0) = Inr 1391"
  by (simp add: max_signed_weight_def MAX_BATCH_V2_PARTICIPANTS_def checked_mul_def checked_add_def)

lemma demo_build:
  assumes rate: "rate = 1 \<and> fee = 348 \<or> rate = 2 \<and> fee = 696"
  shows "build_at demo_env zero_sponge demo_proposal [demo_commitment] epoch rate = Inr (demo_manifest epoch rate fee)"
proof -
  have fields: "pr_version demo_proposal = VERSION" "participant_count demo_proposal = 1"
    "target_feerate_sat_vb demo_proposal = 1" "max_feerate_sat_vb demo_proposal = 5"
    "max_charge demo_commitment = 2000" "out_value (fee_prevout demo_commitment) = 5000"
    by (simp_all add: demo_proposal_def demo_commitment_def)
  have sort: "sort_commitments demo_env [demo_commitment] = [demo_commitment]" by (simp add: sort_commitments_def)
  have marker: "marker_spk_for_version VERSION = Inr MARKER_SPK"
    by (simp add: marker_spk_for_version_def VERSION_def LEGACY_VERSION_def)
  have loop: "charge_loop 894 0 0 [demo_commitment] = Inr [(894, 4106)]"
    "charge_loop 1242 0 0 [demo_commitment] = Inr [(1242, 3758)]"
    by (simp_all add: fields checked_sub_def MIN_OUTPUT_SATS_def)
  have layout: "check_layout demo_env (demo_manifest e r f) demo_proposal = Inr ()" for e r f
    by (rule layout_ok [where cs = "[demo_commitment]" and chs = "[5000 - (f + 546)]" and sp = zero_sponge and marker = MARKER_SPK])
      (simp_all add: demo_manifest_def)
  have dup: "reject_duplicates demo_env [demo_commitment] = Inr ()" by (simp add: reject_duplicates_def)
  show ?thesis
    using rate demo_proposal_ok(2) demo_commitment_ok(2) layout [of epoch rate fee]
    by (auto simp add: build_at_def build_at_with_marker_def Let_def fields demo_weight sort marker dup checked_mul_def
        checked_add_def div_ceil_def MARKER_DUST_SATS_def loop demo_manifest_def simp del: charge_loop.simps)
qed

lemma demo_valid: "manifest_validate demo_env zero_sponge (demo_manifest 0 1 348) demo_proposal = Inr ()"
  using demo_build [of 1 348 0] by (intro build_at_validates) simp_all

lemma demo_replacement:
  "replacement demo_env zero_sponge (demo_manifest 0 1 348) demo_proposal 2 = Inr (demo_manifest 1 2 696)"
proof -
  have old: "mf_commitments (demo_manifest 0 1 348) = [demo_commitment]" "feerate_sat_vb (demo_manifest 0 1 348) = 1"
    "replacement_epoch (demo_manifest 0 1 348) = 0" "pr_version demo_proposal = VERSION"
    by (simp_all add: demo_manifest_def demo_proposal_def)
  show ?thesis using demo_build [of 2 696 1]
    by (simp add: replacement_Inr old checked_add_def) (simp add: demo_manifest_def manifest_tx_def Let_def)
qed

definition demo_sig :: ecdsa_signature where
  "demo_sig = \<lparr>sig_core = replicate 64 7, sighash_type = 1\<rparr>"

lemma demo_sig_ok: "require_all demo_env demo_sig = Inr ()" "length (ser_sig demo_env demo_sig) = 65"
  by (simp_all add: demo_sig_def demo_env_def require_all_def SIGHASH_ALL_def)

lemma demo_verifies:
  "verify_stock_signature demo_env m p demo_sig = Inr ()" "verify_participant_signature demo_env m i demo_sig = Inr ()"
  unfolding verify_stock_signature_def verify_participant_signature_def demo_sig_ok Let_def
  by (simp_all add: demo_env_def verify_digest_def)

lemma demo_finalize:
  "finalize demo_env zero_sponge (demo_manifest 0 1 348) demo_proposal demo_sig [demo_sig] =
     Inr (signed_tx demo_env (demo_manifest 0 1 348) demo_proposal demo_sig [demo_sig])"
proof -
  have "length (mf_commitments (demo_manifest 0 1 348)) = 1" "tx_weight demo_env tx = 0" for tx
    by (simp_all add: demo_manifest_def demo_env_def)
  then show ?thesis by (simp add: finalize_Inr demo_valid demo_verifies)
qed

definition demo_signature_share :: "u16 \<Rightarrow> bytes \<Rightarrow> signature_share" where
  "demo_signature_share i pk =
     \<lparr>ss_manifest_id = manifest_id demo_env (demo_manifest 0 1 348), input_index = i, signer_pubkey = pk, ss_signature = demo_sig\<rparr>"

lemma demo_share_fields:
  "input_index (demo_signature_share i pk) = i" "ss_signature (demo_signature_share i pk) = demo_sig"
  by (simp_all add: demo_signature_share_def)

lemma demo_shares_verify:
  "verify_signature_share demo_env zero_sponge (demo_manifest 0 1 348) demo_proposal (demo_signature_share 0 (replicate 33 2)) = Inr ()"
  "verify_signature_share demo_env zero_sponge (demo_manifest 0 1 348) demo_proposal (demo_signature_share 1 (replicate 33 8)) = Inr ()"
proof -
  have fields: "mf_commitments (demo_manifest 0 1 348) = [demo_commitment]" "stock_owner_pubkey demo_proposal = replicate 33 2"
    "fee_pubkey demo_commitment = replicate 33 8"
    by (simp_all add: demo_manifest_def demo_proposal_def demo_commitment_def)
  show "verify_signature_share demo_env zero_sponge (demo_manifest 0 1 348) demo_proposal (demo_signature_share 0 (replicate 33 2)) = Inr ()"
    "verify_signature_share demo_env zero_sponge (demo_manifest 0 1 348) demo_proposal (demo_signature_share 1 (replicate 33 8)) = Inr ()"
    by (simp_all add: verify_signature_share_def demo_valid demo_signature_share_def Let_def demo_verifies fields)
qed

section \<open>Properties\<close>

text \<open>
  Claim C9. Value conservation and exact fee allocation of a batch. In every manifest that
  builds, the inputs are worth the outputs plus the miner fee; the total charge is the miner fee plus
  the marker dust, the charges add up to it exactly, differ by at most one satoshi (the first ones by
  index pay the remainder) and never exceed a participant's maximum; every change output pays the
  participant's own script the prevout less the charge and is at least 546 satoshis.
\<close>
theorem manifest_conserves_value:
  assumes "build_at env sp p cs epoch rate = Inr m"
  shows "inputs_value p m = outputs_value m + unat (miner_fee m) \<and>
    unat (total_charge m) = unat (miner_fee m) + 546 \<and>
    sum_list (map unat (charges m)) = unat (total_charge m) \<and>
    (\<forall>i < length (mf_commitments m).
       unat (charges m ! i) = unat (total_charge m) div length (charges m) +
         (if i < unat (total_charge m) mod length (charges m) then 1 else 0) \<and>
       charges m ! i \<le> max_charge (mf_commitments m ! i) \<and>
       script_pubkey (tx_output (unsigned_tx m) ! (i + 3)) = change_spk (mf_commitments m ! i) \<and>
       unat (out_value (tx_output (unsigned_tx m) ! (i + 3))) + unat (charges m ! i) =
         unat (out_value (fee_prevout (mf_commitments m ! i))) \<and>
       546 \<le> unat (out_value (tx_output (unsigned_tx m) ! (i + 3))))"
  using build_at_values [OF assms] build_at_changes [OF assms] by simp

theorem manifest_conserves_value_witness:
  "inputs_value demo_proposal (demo_manifest 0 1 348) = outputs_value (demo_manifest 0 1 348) + 348"
  using manifest_conserves_value [OF demo_build [of 1 348 0]] by (simp add: demo_manifest_def)

text \<open>
  Claim C11. A manifest is canonical: what is built from any order of the commitments is the
  same manifest, it validates against its proposal, its commitments are sorted by serialized fee
  outpoint, and no two of them share an outpoint, operation, payload or change script.
\<close>
theorem manifest_is_canonical:
  assumes "env_ok env" and "\<forall>c\<in>set cs. outpoint_ok (fee_outpoint c)"
    and "build_at env sp p cs epoch rate = Inr m" and "mset cs = mset cs'"
  shows "build_at env sp p cs' epoch rate = Inr m \<and> manifest_validate env sp m p = Inr () \<and>
    mset (mf_commitments m) = mset cs' \<and>
    sorted (map (\<lambda>c. ser_outpoint env (fee_outpoint c)) (mf_commitments m)) \<and>
    distinct (map fee_outpoint (mf_commitments m)) \<and> distinct (map operation_id (mf_commitments m)) \<and>
    distinct (map pc_payload (mf_commitments m)) \<and> distinct (map change_spk (mf_commitments m))"
proof -
  have ms: "mset (mf_commitments m) = mset cs"
    using build_at_fields(3) [OF assms(3)] by (simp add: sort_commitments_def)
  then have "distinct (map fee_outpoint cs)"
    using build_at_distinct(1) [OF assms(3)] by (metis mset_eq_imp_distinct_iff mset_map)
  then have "inj_on (\<lambda>c. ser_outpoint env (fee_outpoint c)) (set cs)"
    by (rule inj_on_outpoints [OF assms(1,2)])
  then show ?thesis
    using build_at_perm [OF assms(3,4)] build_at_validates [OF assms(3)] build_at_distinct [OF assms(3)] ms assms(4)
    by simp
qed

theorem manifest_is_canonical_witness:
  "manifest_validate demo_env zero_sponge (demo_manifest 0 1 348) demo_proposal = Inr ()"
  using manifest_is_canonical [OF demo_env_ok _ demo_build [of 1 348 0], of "[demo_commitment]"]
  by (simp add: demo_commitment_def outpoint_ok_def)

text \<open>
  Claim C12. A fee replacement of a valid manifest is again a valid manifest over the same
  commitments, spends exactly the same inputs, keeps the header, marker and stock outputs and every
  change script, advances the epoch by one, and pays a strictly larger miner fee.
\<close>
theorem replacement_raises_fee:
  assumes "manifest_validate env sp m p = Inr ()" and "replacement env sp m p rate = Inr m'"
  shows "manifest_validate env sp m' p = Inr () \<and> mf_commitments m' = mf_commitments m \<and>
    tx_input (unsigned_tx m') = tx_input (unsigned_tx m) \<and>
    take 3 (tx_output (unsigned_tx m')) = take 3 (tx_output (unsigned_tx m)) \<and>
    map script_pubkey (tx_output (unsigned_tx m')) = map script_pubkey (tx_output (unsigned_tx m)) \<and>
    unat (replacement_epoch m') = Suc (unat (replacement_epoch m)) \<and>
    unat (miner_fee m) < unat (miner_fee m')"
proof -
  have "map script_pubkey (tx_output (unsigned_tx m')) = map script_pubkey (tx_output (unsigned_tx m))"
    using assms(2) by (metis append_take_drop_id map_append replacement_Inr)
  then show ?thesis using replacement_fee [OF assms] assms(2) by (auto simp: replacement_Inr)
qed

theorem replacement_raises_fee_witness:
  "unat (miner_fee (demo_manifest 0 1 348)) < unat (miner_fee (demo_manifest 1 2 696))"
  using replacement_raises_fee [OF demo_valid demo_replacement] by blast

text \<open>
  Claim C10. A finalized batch verifies. Every signature in it verifies against its input; the
  transaction keeps the manifest's outputs and spent outpoints and stays within the agreed weight; the
  witness of its first input decodes to the V2 envelope of the payloads in manifest order; the first
  output carries the header of that envelope; and the participant whose payload binds a nullifier
  under the proposal's funding context is found at its own position in the envelope.
\<close>
theorem finalized_batch_is_verifiable:
  assumes "finalize env sp m p stock sigs = Inr tx" and "sponge_ok sp"
    and "\<forall>c\<in>set (mf_commitments m). length (pc_payload c) = 24"
    and "ser_sig env stock \<noteq> []" and "length (ser_sig env stock) \<le> 80"
  shows "verify_stock_signature env m p stock = Inr () \<and>
    (\<forall>i < length (mf_commitments m). verify_participant_signature env m i (sigs ! i) = Inr ()) \<and>
    tx_output tx = tx_output (unsigned_tx m) \<and>
    map previous_output (tx_input tx) = map previous_output (tx_input (unsigned_tx m)) \<and>
    tx_weight env tx \<le> unat (max_weight m) \<and>
    witness_envelope_decode (witness (tx_input tx ! 0)) = Some (V2, map pc_payload (mf_commitments m)) \<and>
    (\<exists>r. batch_header_v2 sp (map pc_payload (mf_commitments m)) (proposal_context env p) = Some r \<and>
       script_pubkey (tx_output tx ! 0) = new_op_return env (to_bytes r) \<and>
       (\<forall>i nf. i < length (mf_commitments m) \<longrightarrow>
          pc_payload (mf_commitments m ! i) = k_binding sp nf (proposal_context env p) \<longrightarrow>
          versioned_envelope_occurrence sp V2 r (map pc_payload (mf_commitments m)) (proposal_context env p) nf =
            Some (word_of_nat i)))"
proof -
  have f: "manifest_validate env sp m p = Inr ()" "length sigs = length (mf_commitments m)"
    "verify_stock_signature env m p stock = Inr ()"
    "\<forall>i < length sigs. verify_participant_signature env m i (sigs ! i) = Inr ()"
    "tx = signed_tx env m p stock sigs" "tx_weight env tx \<le> unat (max_weight m)"
    using assms(1) by (auto simp: finalize_Inr)
  from f(1) have b: "build_at env sp p (mf_commitments m) (replacement_epoch m) (feerate_sat_vb m) = Inr m"
    by (simp add: manifest_validate_iff)
  obtain r where r: "batch_header_v2 sp (map pc_payload (mf_commitments m)) (proposal_context env p) = Some r"
    "tx_output (unsigned_tx m) ! 0 = \<lparr>out_value = 0, script_pubkey = new_op_return env (to_bytes r)\<rparr>"
    using build_header [OF b] by blast
  have "versioned_envelope_occurrence sp V2 r (map pc_payload (mf_commitments m)) (proposal_context env p) nf = Some (word_of_nat i)"
    if "i < length (mf_commitments m)" "pc_payload (mf_commitments m ! i) = k_binding sp nf (proposal_context env p)" for i nf
    using that by (intro header_v2_positions [OF r(1) assms(2) build_at_distinct(2) [OF b]]) simp_all
  then show ?thesis
    using f r signed_prevouts [OF b f(2), of stock] signed_envelope [OF b assms(3-5), of sigs] by auto
qed

theorem finalized_batch_is_verifiable_witness:
  "witness_envelope_decode
     (witness (tx_input (signed_tx demo_env (demo_manifest 0 1 348) demo_proposal demo_sig [demo_sig]) ! 0)) =
   Some (V2, [replicate 24 6])"
proof -
  have cs: "mf_commitments (demo_manifest 0 1 348) = [demo_commitment]" "pc_payload demo_commitment = replicate 24 6"
    by (simp_all add: demo_manifest_def demo_commitment_def)
  have "ser_sig demo_env demo_sig \<noteq> []" using demo_sig_ok(2) by force
  with finalized_batch_is_verifiable [OF demo_finalize] show ?thesis
    by (simp add: cs demo_sig_ok(2) del: witness_envelope_decode.simps)
qed

text \<open>
  Share collection does not depend on the order in which shares arrive or on exact
  duplicates: two lists with the same set of shares finalize to the same transaction, or neither does.
\<close>
theorem finalize_shares_order_independent:
  assumes "set shares = set shares'"
  shows "finalize_shares env sp m p shares = Inr tx \<longleftrightarrow> finalize_shares env sp m p shares' = Inr tx"
proof -
  have "collect_shares env sp m p shares (replicate (length (mf_commitments m) + 1) None) = Inr slots \<longleftrightarrow>
      collect_shares env sp m p shares' (replicate (length (mf_commitments m) + 1) None) = Inr slots" for slots
    using assms by (simp add: collect_shares_Inr)
  then show ?thesis by (simp only: finalize_shares_def and_then_Inr)
qed

theorem finalize_shares_order_independent_witness:
  "finalize_shares demo_env zero_sponge (demo_manifest 0 1 348) demo_proposal
     [demo_signature_share 1 (replicate 33 8), demo_signature_share 0 (replicate 33 2), demo_signature_share 1 (replicate 33 8)] =
   Inr (signed_tx demo_env (demo_manifest 0 1 348) demo_proposal demo_sig [demo_sig])"
proof -
  have cs: "length (mf_commitments (demo_manifest 0 1 348)) = 1" by (simp add: demo_manifest_def)
  have "collect_shares demo_env zero_sponge (demo_manifest 0 1 348) demo_proposal
      [demo_signature_share 0 (replicate 33 2), demo_signature_share 1 (replicate 33 8)] [None, None] =
      Inr [Some demo_sig, Some demo_sig]"
    by (simp add: demo_shares_verify Let_def demo_share_fields)
  then have "finalize_shares demo_env zero_sponge (demo_manifest 0 1 348) demo_proposal
      [demo_signature_share 0 (replicate 33 2), demo_signature_share 1 (replicate 33 8)] =
      Inr (signed_tx demo_env (demo_manifest 0 1 348) demo_proposal demo_sig [demo_sig])"
    by (simp add: finalize_shares_def cs numeral_2_eq_2 demo_finalize del: collect_shares.simps)
  then show ?thesis
    by (subst finalize_shares_order_independent) auto
qed

end
