(* ===== verification/Batch_Gossip.thy ===== *)
theory Batch_Gossip
  imports Batch_Safety
begin

text \<open>
  The manifest on the wire: parsing against a commitment pool returns exactly the valid manifest
  that was encoded.
\<close>

section \<open>Reading a manifest back\<close>

lemma manifest_from_wire_Inr:
  assumes "manifest_from_wire env sp p cs w = Inr m"
  shows "manifest_validate env sp m p = Inr () \<and> w = manifest_wire_bytes env m \<and> mset (mf_commitments m) = mset cs"
  using assms
  by (auto simp: manifest_from_wire_def and_then_Inr Let_def sort_commitments_def split: if_splits)

lemma length_commitment_id: "env_ok env \<Longrightarrow> length (commitment_id env c) = 32"
  by (simp add: commitment_id_def domain_hash_def env_ok_def)

definition manifest_typed :: "btc_env \<Rightarrow> manifest \<Rightarrow> bool" where
  "manifest_typed env m \<longleftrightarrow> length (ser_tx env (unsigned_tx m)) < 2 ^ 31 \<and>
     de_tx env (ser_tx env (unsigned_tx m)) = Some (unsigned_tx m)"

lemma length_concat_const: "\<forall>x\<in>set xs. length (f x) = k \<Longrightarrow> length (concat (map f xs)) = k * length xs"
  by (induction xs) auto

lemma valid_manifest_shape:
  assumes "manifest_validate env sp m p = Inr ()"
  shows "length (mf_commitments m) = unat (participant_count p)" "length (charges m) = unat (participant_count p)"
    "length (mf_commitments m) \<le> 64" "reject_duplicates env (mf_commitments m) = Inr ()"
    "sort_commitments env (mf_commitments m) = mf_commitments m" "mf_batch_id m = batch_id env p"
proof -
  from assms have b: "build_at env sp p (mf_commitments m) (replacement_epoch m) (feerate_sat_vb m) = Inr m"
    by (simp add: manifest_validate_iff)
  show "length (mf_commitments m) = unat (participant_count p)" "length (mf_commitments m) \<le> 64"
    using build_counts [OF b] by simp_all
  then show "length (charges m) = unat (participant_count p)" using build_at_values [OF b] by simp
  show s: "sort_commitments env (mf_commitments m) = mf_commitments m" using build_at_fields(3) [OF b] by simp
  show "reject_duplicates env (mf_commitments m) = Inr ()" using b by (auto elim!: build_at_Inr simp: s)
  show "mf_batch_id m = batch_id env p" using build_at_fields(4) [OF b] .
qed

lemma manifest_eta:
  "\<lparr>mf_batch_id = mf_batch_id m, replacement_epoch = replacement_epoch m, feerate_sat_vb = feerate_sat_vb m,
    max_weight = max_weight m, miner_fee = miner_fee m, total_charge = total_charge m, charges = charges m,
    mf_commitments = mf_commitments m, unsigned_tx = unsigned_tx m\<rparr> = m"
  by simp

lemma length_manifest_body:
  assumes "env_ok env" and "manifest_typed env m" and "manifest_validate env sp m p = Inr ()"
  shows "length (manifest_body env m) < 2 ^ 32"
proof -
  have ids: "length (concat (map (commitment_id env) (mf_commitments m))) = 32 * length (mf_commitments m)"
    using length_commitment_id [OF assms(1)] by (intro length_concat_const) simp
  have chs: "length (concat (map to_le_bytes (charges m))) = 8 * length (charges m)"
    by (intro length_concat_const) simp
  show ?thesis
    using assms(2) valid_manifest_shape [OF assms(3)] length_batch_id [OF assms(1), of p] ids chs
    by (simp add: manifest_body_def manifest_typed_def Let_def)
qed

lemma manifest_read_back:
  assumes env: "env_ok env" and typed: "manifest_typed env m" and valid: "manifest_validate env sp m p = Inr ()"
    and cs: "sort_commitments env cs = mf_commitments m"
  shows "manifest_from_wire env sp p cs (manifest_wire_bytes env m) = Inr m"
proof -
  note shape = valid_manifest_shape [OF valid]
  let ?tx = "ser_tx env (unsigned_tx m)"
  have len: "length (manifest_body env m) < 2 ^ 32" using env typed valid by (rule length_manifest_body)
  then have body: "wire_body (manifest_wire_bytes env m) MANIFEST_KIND = Inr (manifest_body env m)"
    by (simp add: manifest_wire_bytes_def wire_body_message)
  from len have fits: "fits (manifest_body env m)" by (simp add: fits_def)
  have n: "unat (word_of_nat (length (mf_commitments m)) :: u8) = length (mf_commitments m)"
    using shape(3) by (simp add: unat_of_nat)
  have txl: "unat (word_of_nat (length ?tx) :: u32) = length ?tx" using typed by (simp add: manifest_typed_def unat_of_nat)
  have lencs: "length cs = length (mf_commitments m)" by (metis cs length_sort_commitments)
  have ids: "read_times (read_array 32) (length (mf_commitments m))
      (cursor pre (concat (map (commitment_id env) (mf_commitments m)) @ bs)) =
      Inr (map (commitment_id env) (mf_commitments m), cursor (pre @ concat (map (commitment_id env) (mf_commitments m))) bs)"
    if "fits (pre @ concat (map (commitment_id env) (mf_commitments m)) @ bs)" for pre bs
    using that array.read_list [where xs = "map (commitment_id env) (mf_commitments m)" and pre = pre and bs = bs] length_commitment_id [OF env]
    by (simp add: list_all_iff)
  have chs: "read_times read_u64 (length (mf_commitments m)) (cursor pre (concat (map to_le_bytes (charges m)) @ bs)) =
      Inr (charges m, cursor (pre @ concat (map to_le_bytes (charges m))) bs)"
    if "fits (pre @ concat (map to_le_bytes (charges m)) @ bs)" for pre bs
    using that shape(1,2) by (intro u64.read_list) (simp_all add: list_all_iff)
  have last: "read_bytes (length ?tx) (cursor pre ?tx) = Inr (?tx, cursor (pre @ ?tx) [])" if "fits (pre @ ?tx)" for pre
    using read_bytes_cursor [of ?tx "length ?tx" pre "[]"] that by simp
  show ?thesis
    unfolding manifest_from_wire_def body
    using fits length_batch_id [OF env, of p] typed valid shape(4) shape(1,6) [symmetric]
    by (simp add: manifest_body_def reader_new_cursor codec_reads Let_def n ids chs lencs txl last cs manifest_typed_def
        manifest_eta)
qed


section \<open>Selection from a pool\<close>

lemma select_commitments_Inr:
  "select_commitments env pool n seen r = Inr (cs, r') \<Longrightarrow>
     set cs \<subseteq> set pool \<and> length cs = n \<and> distinct (map (commitment_id env) cs) \<and>
     commitment_id env ` set cs \<inter> set seen = {}"
proof (induction n arbitrary: seen r cs)
  case (Suc n)
  then obtain cid c rest s where cid: "cid \<notin> set seen" and c: "find (\<lambda>c. commitment_id env c = cid) pool = Some c"
    and rest: "select_commitments env pool n (cid # seen) s = Inr (rest, r')" and cs: "cs = c # rest"
    by (auto simp: and_then_Inr ok_or_def split: prod.splits if_splits option.splits)
  from c have "c \<in> set pool" "commitment_id env c = cid" by (auto simp: find_Some_iff)
  with Suc.IH [OF rest] cid cs show ?case by auto
qed simp

lemma manifest_from_wire_pool_Inr:
  assumes "manifest_from_wire_pool env sp p pool w = Inr m"
  shows "manifest_validate env sp m p = Inr () \<and> w = manifest_wire_bytes env m \<and> set (mf_commitments m) \<subseteq> set pool"
proof -
  from assms obtain cs r r' n where "manifest_from_wire env sp p cs w = Inr m" and "select_commitments env pool n [] r = Inr (cs, r')"
    by (auto simp: manifest_from_wire_pool_def and_then_Inr split: prod.splits if_splits)
  with manifest_from_wire_Inr [of env sp p cs w m] select_commitments_Inr show ?thesis
    by (metis set_mset_mset)
qed


section \<open>A decoder for the example\<close>

text \<open>Building does not depend on how transactions are decoded.\<close>

lemma decoder_irrelevant:
  "env_ok (env\<lparr>de_tx := f\<rparr>) \<longleftrightarrow> env_ok env" "batch_id (env\<lparr>de_tx := f\<rparr>) p = batch_id env p"
  "proposal_validate (env\<lparr>de_tx := f\<rparr>) p = proposal_validate env p"
  "commitment_id (env\<lparr>de_tx := f\<rparr>) = commitment_id env"
  "sort_commitments (env\<lparr>de_tx := f\<rparr>) cs = sort_commitments env cs"
  "manifest_tx (env\<lparr>de_tx := f\<rparr>) sp p marker cs chs = manifest_tx env sp p marker cs chs"
  by (simp_all add: env_ok_def batch_id_def domain_hash_def proposal_body_def proposal_validate_def commitment_id_def
      commitment_body_def sort_commitments_def manifest_tx_def proposal_context_def funding_ctx_def stock_script_pubkey_def
      proposal_witness_script_def stock_witness_script_def fun_eq_iff)

lemma decoder_irrelevant_checks:
  "commitment_validate (env\<lparr>de_tx := f\<rparr>) c p = commitment_validate env c p"
  "check_layout (env\<lparr>de_tx := f\<rparr>) m p = check_layout env m p"
  "reject_duplicates_loop (env\<lparr>de_tx := f\<rparr>) a b d e g cs = reject_duplicates_loop env a b d e g cs"
proof -
  show "reject_duplicates_loop (env\<lparr>de_tx := f\<rparr>) a b d e g cs = reject_duplicates_loop env a b d e g cs"
    by (induction cs arbitrary: a b d e g) (simp_all add: decoder_irrelevant)
qed (simp_all add: commitment_validate_def check_layout_def decoder_irrelevant p2wpkh_script_def)

lemma build_decoder: "build_at (env\<lparr>de_tx := f\<rparr>) sp p cs epoch rate = build_at env sp p cs epoch rate"
  unfolding build_at_def build_at_with_marker_def decoder_irrelevant decoder_irrelevant_checks reject_duplicates_def ..

definition gossip_env :: btc_env where
  "gossip_env = demo_env\<lparr>de_tx := \<lambda>_. Some (unsigned_tx (demo_manifest 0 1 348))\<rparr>"

section \<open>Properties\<close>

text \<open>
  Manifests on the wire. Whatever manifest the parser returns is the canonical
  rebuild from the proposal and commitments the node already holds, its bytes are the message, and from
  a pool it selects only pooled commitments; and a valid manifest, sent as its message, is
  returned unchanged to a node that holds its commitments in any order.
\<close>
theorem manifest_wire_roundtrip:
  assumes "env_ok env"
  shows "(manifest_from_wire env sp p cs w = Inr m \<longrightarrow>
      manifest_validate env sp m p = Inr () \<and> w = manifest_wire_bytes env m \<and> mset (mf_commitments m) = mset cs) \<and>
    (manifest_from_wire_pool env sp p pool w = Inr m \<longrightarrow>
      manifest_validate env sp m p = Inr () \<and> w = manifest_wire_bytes env m \<and> set (mf_commitments m) \<subseteq> set pool) \<and>
    (manifest_typed env m \<and> manifest_validate env sp m p = Inr () \<and> mset cs = mset (mf_commitments m) \<and>
       (\<forall>c\<in>set cs. outpoint_ok (fee_outpoint c)) \<longrightarrow>
      manifest_from_wire env sp p cs (manifest_wire_bytes env m) = Inr m)"
proof -
  have "manifest_from_wire env sp p cs (manifest_wire_bytes env m) = Inr m"
    if typed: "manifest_typed env m" and valid: "manifest_validate env sp m p = Inr ()"
      and ms: "mset cs = mset (mf_commitments m)" and ok: "\<forall>c\<in>set cs. outpoint_ok (fee_outpoint c)"
  proof (rule manifest_read_back [OF assms typed valid])
    from valid have b: "build_at env sp p (mf_commitments m) (replacement_epoch m) (feerate_sat_vb m) = Inr m"
      by (simp add: manifest_validate_iff)
    have "distinct (map fee_outpoint cs)"
      using build_at_distinct(1) [OF b] ms by (metis mset_eq_imp_distinct_iff mset_map)
    then have "sort_commitments env cs = sort_commitments env (mf_commitments m)"
      using ms ok by (intro sort_commitments_perm inj_on_outpoints [OF assms])
    then show "sort_commitments env cs = mf_commitments m" using valid_manifest_shape(5) [OF valid] by simp
  qed
  then show ?thesis using manifest_from_wire_Inr manifest_from_wire_pool_Inr by blast
qed

theorem manifest_wire_roundtrip_witness:
  "manifest_from_wire gossip_env zero_sponge demo_proposal [demo_commitment]
     (manifest_wire_bytes gossip_env (demo_manifest 0 1 348)) = Inr (demo_manifest 0 1 348)"
proof -
  have ok: "env_ok gossip_env" using demo_env_ok by (simp add: gossip_env_def decoder_irrelevant)
  have "manifest_typed gossip_env (demo_manifest 0 1 348)"
    by (simp add: manifest_typed_def gossip_env_def) (simp add: demo_env_def)
  moreover have "manifest_validate gossip_env zero_sponge (demo_manifest 0 1 348) demo_proposal = Inr ()"
    using demo_valid by (simp add: manifest_validate_iff gossip_env_def build_decoder)
  moreover have "mset [demo_commitment] = mset (mf_commitments (demo_manifest 0 1 348))" by (simp add: demo_manifest_def)
  moreover have "outpoint_ok (fee_outpoint demo_commitment)" by (simp add: demo_commitment_def outpoint_ok_def)
  ultimately show ?thesis using manifest_wire_roundtrip [OF ok] by (metis list.set_intros(1) list.simps(15) empty_set singletonD)
qed

end
