(* ===== verification/Solo_Anchor.thy ===== *)
theory Solo_Anchor
  imports Batch_Safety
begin

text \<open>
  Fee replacement of a solo anchor, \<open>crates/opencsv-bitcoin/src/replacement.rs\<close>, and the comparison of solo
  and batched costs, \<open>fee_model.rs\<close>. Dust limits, the \<open>OP_RETURN\<close> test and transaction weights belong to the
  \<open>bitcoin\<close> crate and are fields of the environment. A chain of replacements is an inductive relation.
\<close>

section \<open>Replacement\<close>

datatype solo_replacement_rejection =
    OriginalLayout | ReplacementLayout | FundingInputsChanged | NotReplaceable | RecordChanged | MarkerChanged
  | ChangeScriptChanged | ChangeRemovedOrDust | FeeNotIncreased

fun solo_code :: "solo_replacement_rejection \<Rightarrow> string" where
  "solo_code OriginalLayout = ''original_layout''"
| "solo_code ReplacementLayout = ''replacement_layout''"
| "solo_code FundingInputsChanged = ''funding_inputs_changed''"
| "solo_code NotReplaceable = ''not_replaceable''"
| "solo_code RecordChanged = ''record_changed''"
| "solo_code MarkerChanged = ''marker_changed''"
| "solo_code ChangeScriptChanged = ''change_script_changed''"
| "solo_code ChangeRemovedOrDust = ''change_removed_or_dust''"
| "solo_code FeeNotIncreased = ''fee_not_increased''"

record solo_replacement_receipt =
  fee_increment_sats :: u64
  replacement_change_sats :: u64

definition validate_layout :: "btc_env \<Rightarrow> transaction \<Rightarrow> unit + unit" where
  "validate_layout env t =
     (if tx_input t = [] \<or> length (tx_output t) \<noteq> 3 then Inl ()
      else
        (let found = tx_output t ! 0; record_script = script_pubkey found; marker = tx_output t ! 1 in
         if out_value found \<noteq> 0 \<or> length record_script \<noteq> 66 \<or> record_script ! 0 \<noteq> 0x6a \<or> record_script ! 1 \<noteq> 0x40 then Inl ()
         else if out_value marker \<noteq> MARKER_DUST_SATS \<or> script_pubkey marker \<noteq> MARKER_SPK then Inl ()
         else if is_op_return env (script_pubkey (tx_output t ! 2)) then Inl ()
         else Inr ()))"

definition inputs_differ :: "tx_in \<times> tx_in \<Rightarrow> bool" where
  "inputs_differ = (\<lambda>(old, new). previous_output old \<noteq> previous_output new \<or> sequence old \<noteq> sequence new \<or> script_sig old \<noteq> script_sig new)"

definition validate_solo_anchor_replacement ::
  "btc_env \<Rightarrow> transaction \<Rightarrow> transaction \<Rightarrow> solo_replacement_rejection + solo_replacement_receipt" where
  "validate_solo_anchor_replacement env original new =
     and_then (map_err (\<lambda>_. OriginalLayout) (validate_layout env original)) (\<lambda>_.
     and_then (map_err (\<lambda>_. ReplacementLayout) (validate_layout env new)) (\<lambda>_.
     if tx_version original \<noteq> tx_version new \<or> lock_time original \<noteq> lock_time new \<or>
        length (tx_input new) < length (tx_input original) \<or> list_ex inputs_differ (zip (tx_input original) (tx_input new))
     then Inl FundingInputsChanged
     else if \<not> all_inserted [] (map previous_output (tx_input new)) then Inl FundingInputsChanged
     else if list_ex (\<lambda>i. sequence i \<noteq> INPUT_SEQUENCE) (tx_input original @ tx_input new) then Inl NotReplaceable
     else if tx_output original ! 0 \<noteq> tx_output new ! 0 then Inl RecordChanged
     else if tx_output original ! 1 \<noteq> tx_output new ! 1 then Inl MarkerChanged
     else if script_pubkey (tx_output original ! 2) \<noteq> script_pubkey (tx_output new ! 2) then Inl ChangeScriptChanged
     else
       (let old_change = out_value (tx_output original ! 2); new_change = out_value (tx_output new ! 2) in
        if new_change < minimal_non_dust env (script_pubkey (tx_output new ! 2)) then Inl ChangeRemovedOrDust
        else and_then (ok_or FeeNotIncreased (case checked_sub old_change new_change of
                None \<Rightarrow> None | Some increment \<Rightarrow> if increment > 0 then Some increment else None)) (\<lambda>increment.
          Inr \<lparr>fee_increment_sats = increment, replacement_change_sats = new_change\<rparr>))))"

section \<open>Fee model\<close>

datatype fee_model_error = InvalidParticipantCount | ZeroFeerate | FeeOverflow

record fee_estimate =
  fe_participants :: nat
  fe_feerate_sat_vb :: u32
  solo_max_vbytes :: u64
  batch_max_vbytes :: u64
  marker_sats_per_transaction :: u64
  solo_miner_fee_total :: u64
  batch_miner_fee :: u64
  solo_total_charge :: u64
  batch_total_charge :: u64
  solo_minus_batch_sats :: int
  batch_charge_floor :: u64
  batch_charge_ceiling :: u64

text \<open>The transaction whose weight is taken: one maximum-size P2WPKH input and the three outputs.\<close>

definition solo_max_tx :: "btc_env \<Rightarrow> transaction" where
  "solo_max_tx env =
     \<lparr>tx_version = 2, lock_time = 0,
      tx_input = [\<lparr>previous_output = \<lparr>op_txid = replicate 32 0, op_vout = - 1\<rparr>, script_sig = [], sequence = INPUT_SEQUENCE,
                   witness = [replicate 73 0, replicate 33 0]\<rparr>],
      tx_output = [\<lparr>out_value = 0, script_pubkey = new_op_return env (replicate 64 0)\<rparr>,
                   \<lparr>out_value = MARKER_DUST_SATS, script_pubkey = MARKER_SPK\<rparr>,
                   \<lparr>out_value = 0, script_pubkey = [0, 0x14] @ replicate 20 0\<rparr>]\<rparr>"

definition solo_max_signed_weight :: "btc_env \<Rightarrow> u64" where
  "solo_max_signed_weight env = word_of_nat (tx_weight env (solo_max_tx env))"

definition estimate :: "btc_env \<Rightarrow> nat \<Rightarrow> u32 \<Rightarrow> fee_model_error + fee_estimate" where
  "estimate env participants feerate =
     (if feerate = 0 then Inl ZeroFeerate
      else and_then (map_err (\<lambda>_. InvalidParticipantCount) (max_signed_weight participants)) (\<lambda>batch_weight.
        let solo_vbytes = div_ceil (solo_max_signed_weight env) 4; batch_vbytes = div_ceil batch_weight 4;
            rate = ucast feerate :: u64; count = word_of_nat participants :: u64 in
        and_then (ok_or FeeOverflow (checked_mul solo_vbytes rate)) (\<lambda>solo_fee_each.
        and_then (ok_or FeeOverflow (checked_mul solo_fee_each count)) (\<lambda>solo_fee_total.
        and_then (ok_or FeeOverflow (checked_mul batch_vbytes rate)) (\<lambda>batch_fee.
        and_then (ok_or FeeOverflow (checked_add solo_fee_each MARKER_DUST_SATS)) (\<lambda>solo_total_each.
        and_then (ok_or FeeOverflow (checked_mul solo_total_each count)) (\<lambda>solo_total.
        and_then (ok_or FeeOverflow (checked_add batch_fee MARKER_DUST_SATS)) (\<lambda>batch_total.
        Inr \<lparr>fe_participants = participants, fe_feerate_sat_vb = feerate, solo_max_vbytes = solo_vbytes, batch_max_vbytes = batch_vbytes,
             marker_sats_per_transaction = MARKER_DUST_SATS, solo_miner_fee_total = solo_fee_total, batch_miner_fee = batch_fee,
             solo_total_charge = solo_total, batch_total_charge = batch_total,
             solo_minus_batch_sats = uint solo_total - uint batch_total,
             batch_charge_floor = batch_total div count, batch_charge_ceiling = div_ceil batch_total count\<rparr>)))))))) "

section \<open>Sequences of replacements\<close>

definition tx_fee :: "(outpoint \<Rightarrow> nat) \<Rightarrow> transaction \<Rightarrow> int" where
  "tx_fee value t = (\<Sum>i \<leftarrow> tx_input t. int (value (previous_output i))) - (\<Sum>out \<leftarrow> tx_output t. int (unat (out_value out)))"

inductive bump_chain :: "btc_env \<Rightarrow> transaction \<Rightarrow> nat \<Rightarrow> nat \<Rightarrow> transaction \<Rightarrow> bool" for env where
  start: "validate_layout env t = Inr () \<Longrightarrow> bump_chain env t 0 0 t"
| bump: "bump_chain env t k bumped t' \<Longrightarrow> validate_solo_anchor_replacement env t' t'' = Inr r \<Longrightarrow>
     bump_chain env t (Suc k) (bumped + unat (fee_increment_sats r)) t''"

lemma layout_three: "validate_layout env t = Inr () \<Longrightarrow> tx_input t \<noteq> [] \<and> (\<exists>a b c. tx_output t = [a, b, c])"
  by (auto simp: validate_layout_def Let_def length_Suc_conv numeral_3_eq_3 split: if_splits)

lemma same_inputs:
  "\<not> list_ex inputs_differ (zip xs ys) \<Longrightarrow> length xs \<le> length ys \<Longrightarrow>
   map previous_output ys = map previous_output xs @ map previous_output (drop (length xs) ys)"
proof (induction xs arbitrary: ys)
  case (Cons x xs)
  then show ?case by (cases ys) (auto simp: inputs_differ_def)
qed simp

text \<open>What one accepted replacement guarantees.\<close>

lemma solo_replacement_step:
  assumes "validate_solo_anchor_replacement env t t' = Inr r"
  shows "validate_layout env t' = Inr ()" and "take 2 (tx_output t') = take 2 (tx_output t)"
    and "\<exists>extra. map previous_output (tx_input t') = map previous_output (tx_input t) @ extra"
    and "distinct (map previous_output (tx_input t'))"
    and "script_pubkey (tx_output t' ! 2) = script_pubkey (tx_output t ! 2)"
    and "unat (out_value (tx_output t ! 2)) = unat (out_value (tx_output t' ! 2)) + unat (fee_increment_sats r)"
    and "0 < unat (fee_increment_sats r)"
    and "minimal_non_dust env (script_pubkey (tx_output t' ! 2)) \<le> out_value (tx_output t' ! 2)"
    and "list_all (\<lambda>i. sequence i = INPUT_SEQUENCE) (tx_input t')"
    and "tx_version t' = tx_version t" and "lock_time t' = lock_time t"
proof -
  note d = assms [unfolded validate_solo_anchor_replacement_def Let_def]
  from d have lay: "validate_layout env t = Inr ()" "validate_layout env t' = Inr ()" by (auto simp: and_then_Inr)
  then obtain a b c a' b' c' where t: "tx_output t = [a, b, c]" "tx_output t' = [a', b', c']" by (meson layout_three)
  show "validate_layout env t' = Inr ()" by (rule lay)
  show "take 2 (tx_output t') = take 2 (tx_output t)" using d t by (auto simp: and_then_Inr split: if_splits)
  have "\<not> list_ex inputs_differ (zip (tx_input t) (tx_input t'))" "length (tx_input t) \<le> length (tx_input t')"
    using d by (auto simp: and_then_Inr split: if_splits)
  then show "\<exists>extra. map previous_output (tx_input t') = map previous_output (tx_input t) @ extra" using same_inputs by blast
  show "distinct (map previous_output (tx_input t'))" "script_pubkey (tx_output t' ! 2) = script_pubkey (tx_output t ! 2)"
    "minimal_non_dust env (script_pubkey (tx_output t' ! 2)) \<le> out_value (tx_output t' ! 2)"
    "tx_version t' = tx_version t" "lock_time t' = lock_time t"
    using d t by (auto simp: and_then_Inr not_less split: if_splits)
  show "list_all (\<lambda>i. sequence i = INPUT_SEQUENCE) (tx_input t')"
    using d by (auto simp: and_then_Inr list_all_iff list_ex_iff split: if_splits)
  have inc: "checked_sub (out_value (tx_output t ! 2)) (out_value (tx_output t' ! 2)) = Some (fee_increment_sats r)"
    and pos: "fee_increment_sats r > 0"
    using d by (auto simp: and_then_Inr split: if_splits option.splits)
  show "unat (out_value (tx_output t ! 2)) = unat (out_value (tx_output t' ! 2)) + unat (fee_increment_sats r)"
    using unat_checked_sub [OF inc] .
  show "0 < unat (fee_increment_sats r)" using pos by (simp add: word_less_nat_alt)
qed

lemma solo_replacement_fee:
  assumes r: "validate_solo_anchor_replacement env t t' = Inr r" and lay: "validate_layout env t = Inr ()"
    and extra: "map previous_output (tx_input t') = map previous_output (tx_input t) @ extra"
  shows "tx_fee value t' = tx_fee value t + int (unat (fee_increment_sats r)) + (\<Sum>p \<leftarrow> extra. int (value p))"
proof -
  note s = solo_replacement_step [OF r]
  obtain a b c a' b' c' where t: "tx_output t = [a, b, c]" "tx_output t' = [a', b', c']" by (meson layout_three lay s(1))
  have in': "(\<Sum>i \<leftarrow> tx_input u. int (value (previous_output i))) = (\<Sum>p \<leftarrow> map previous_output (tx_input u). int (value p))" for u
    by (simp add: comp_def)
  show ?thesis using s(2) arg_cong [OF s(6), of int] unfolding tx_fee_def in' extra by (simp add: t)
qed

lemma bump_chain_layout: "bump_chain env t k bumped t' \<Longrightarrow> validate_layout env t = Inr () \<and> validate_layout env t' = Inr ()"
  by (induction rule: bump_chain.induct) (auto dest: solo_replacement_step(1))

lemma funding_of_prefix: "map previous_output xs = map previous_output ys @ extra \<Longrightarrow> ys \<noteq> [] \<Longrightarrow> previous_output (hd xs) = previous_output (hd ys)"
  by (cases xs; cases ys) auto

text \<open>
  Claim C32. Bumping the fee of a solo anchor, however often, never changes what the anchor says: every
  transaction accepted along the way has the record and the marker of the first one, its funding outpoints as a prefix of its
  own inputs, so that the context stays the same, and distinct inputs. The bumps come out of the change alone: what the
  receipts report sums up to the decrease of the change, the fee grows by that amount and by whatever the appended inputs bring,
  the change never falls under the dust limit, and there are at most as many bumps as satoshis in the change.
\<close>

theorem solo_bumps_preserve_anchor:
  assumes "bump_chain env t k bumped t'"
  shows "take 2 (tx_output t') = take 2 (tx_output t) \<and>
    funding_ctx env (op_txid (previous_output (hd (tx_input t')))) (op_vout (previous_output (hd (tx_input t')))) =
      funding_ctx env (op_txid (previous_output (hd (tx_input t)))) (op_vout (previous_output (hd (tx_input t)))) \<and>
    (\<exists>extra. map previous_output (tx_input t') = map previous_output (tx_input t) @ extra \<and>
       tx_fee value t' = tx_fee value t + int bumped + (\<Sum>p \<leftarrow> extra. int (value p))) \<and>
    unat (out_value (tx_output t ! 2)) = unat (out_value (tx_output t' ! 2)) + bumped \<and>
    k \<le> bumped \<and> k \<le> unat (out_value (tx_output t ! 2)) \<and>
    (0 < k \<longrightarrow> minimal_non_dust env (script_pubkey (tx_output t' ! 2)) \<le> out_value (tx_output t' ! 2) \<and>
       distinct (map previous_output (tx_input t')) \<and> list_all (\<lambda>i. sequence i = INPUT_SEQUENCE) (tx_input t'))"
  using assms
proof induction
  case (bump t k bumped t' t'' r)
  note s = solo_replacement_step [OF bump(2)] and lay = bump_chain_layout [OF bump(1)]
  from bump.IH obtain extra where extra: "map previous_output (tx_input t') = map previous_output (tx_input t) @ extra"
    and fee: "tx_fee value t' = tx_fee value t + int bumped + (\<Sum>p \<leftarrow> extra. int (value p))" by blast
  from s(3) obtain extra2 where more: "map previous_output (tx_input t'') = map previous_output (tx_input t') @ extra2" by blast
  have fee': "tx_fee value t'' = tx_fee value t' + int (unat (fee_increment_sats r)) + (\<Sum>p \<leftarrow> extra2. int (value p))"
    by (rule solo_replacement_fee [OF bump(2) _ more]) (use lay in simp)
  have hd: "previous_output (hd (tx_input t'')) = previous_output (hd (tx_input t'))"
    using funding_of_prefix [OF more] lay layout_three by blast
  have "\<exists>extra. map previous_output (tx_input t'') = map previous_output (tx_input t) @ extra \<and>
      tx_fee value t'' = tx_fee value t + int (bumped + unat (fee_increment_sats r)) + (\<Sum>p \<leftarrow> extra. int (value p))"
    by (rule exI [of _ "extra @ extra2"]) (simp add: more extra fee fee')
  with bump.IH s hd show ?case by simp
qed simp

definition demo_solo :: "u64 \<Rightarrow> outpoint list \<Rightarrow> transaction" where
  "demo_solo change appended =
     \<lparr>tx_version = 2, lock_time = 0,
      tx_input = map unsigned_input (\<lparr>op_txid = replicate 32 1, op_vout = 0\<rparr> # appended),
      tx_output = [\<lparr>out_value = 0, script_pubkey = [0x6a, 0x40] @ replicate 64 7\<rparr>,
                   \<lparr>out_value = MARKER_DUST_SATS, script_pubkey = MARKER_SPK\<rparr>,
                   \<lparr>out_value = change, script_pubkey = [0, 0x14] @ replicate 20 9\<rparr>]\<rparr>"

definition solo_env :: btc_env where
  "solo_env = demo_env\<lparr>is_op_return := (\<lambda>s. s \<noteq> [] \<and> hd s = 0x6a), minimal_non_dust := (\<lambda>_. 294)\<rparr>"

lemma demo_solo_chain:
  "bump_chain solo_env (demo_solo 5000 []) 2 1500 (demo_solo 3500 [\<lparr>op_txid = replicate 32 2, op_vout = 1\<rparr>])"
proof -
  have lay: "validate_layout solo_env (demo_solo v ps) = Inr ()" for v ps
    by (simp add: validate_layout_def demo_solo_def Let_def solo_env_def)
  have o: "tx_output (demo_solo v ps) ! 2 = \<lparr>out_value = v, script_pubkey = [0, 0x14] @ replicate 20 9\<rparr>" for v ps
    by (simp add: demo_solo_def)
  have step: "validate_solo_anchor_replacement solo_env (demo_solo v ps) (demo_solo v' (ps @ qs)) =
      Inr \<lparr>fee_increment_sats = v - v', replacement_change_sats = v'\<rparr>"
    if "v' < v" "294 \<le> v'" "distinct (map previous_output (tx_input (demo_solo v' (ps @ qs))))" for v v' ps qs
  proof -
    have zip: "\<not> list_ex inputs_differ (zip (map f xs) (map f xs))" for f :: "outpoint \<Rightarrow> tx_in" and xs
      by (auto simp: list_ex_iff inputs_differ_def zip_map_fst_snd set_zip)
    have "\<not> list_ex inputs_differ (zip (tx_input (demo_solo v ps)) (tx_input (demo_solo v' (ps @ qs))))"
      using zip [of unsigned_input "\<lparr>op_txid = replicate 32 1, op_vout = 0\<rparr> # ps"] by (simp add: demo_solo_def zip_append2)
    moreover have "list_all (\<lambda>i. sequence i = INPUT_SEQUENCE) (tx_input (demo_solo v ps))" for v ps
      by (simp add: demo_solo_def unsigned_input_def list_all_iff)
    moreover have "0 < v - v'" using that(1) by (simp add: word_less_nat_alt unat_sub word_le_nat_alt)
    moreover have "tx_output (demo_solo v ps) ! 0 = tx_output (demo_solo v' (ps @ qs)) ! 0" "tx_output (demo_solo v ps) ! 1 = tx_output (demo_solo v' (ps @ qs)) ! 1"
      "tx_version (demo_solo v ps) = tx_version (demo_solo v' (ps @ qs))" "lock_time (demo_solo v ps) = lock_time (demo_solo v' (ps @ qs))"
      "\<not> length (tx_input (demo_solo v' (ps @ qs))) < length (tx_input (demo_solo v ps))"
      by (simp_all add: demo_solo_def)
    moreover have "minimal_non_dust solo_env x = 294" for x by (simp add: solo_env_def)
    moreover have "v' \<le> v" using that(1) by simp
    ultimately show ?thesis using that unfolding validate_solo_anchor_replacement_def lay o
      by (simp add: checked_sub_def not_less list_ex_iff list_all_iff ball_Un del: One_nat_def)
  qed
  have "bump_chain solo_env (demo_solo 5000 []) (Suc 0) (0 + unat (fee_increment_sats \<lparr>fee_increment_sats = 5000 - 4000, replacement_change_sats = 4000\<rparr>)) (demo_solo 4000 ([] @ []))"
    by (rule bump_chain.bump [OF bump_chain.start [OF lay] step]) (simp_all add: demo_solo_def)
  then have one: "bump_chain solo_env (demo_solo 5000 []) (Suc 0) 1000 (demo_solo 4000 [])" by simp
  have "bump_chain solo_env (demo_solo 5000 []) (Suc (Suc 0)) (1000 + unat (fee_increment_sats \<lparr>fee_increment_sats = 4000 - 3500, replacement_change_sats = 3500\<rparr>))
     (demo_solo 3500 ([] @ [\<lparr>op_txid = replicate 32 2, op_vout = 1\<rparr>]))"
    by (rule bump_chain.bump [OF one step]) (simp_all add: demo_solo_def unsigned_input_def)
  then have "bump_chain solo_env (demo_solo 5000 []) (Suc (Suc 0)) 1500 (demo_solo 3500 [\<lparr>op_txid = replicate 32 2, op_vout = 1\<rparr>])" by simp
  then show ?thesis by (simp only: numeral_2_eq_2)
qed

theorem solo_bumps_preserve_anchor_witness:
  "take 2 (tx_output (demo_solo 3500 [\<lparr>op_txid = replicate 32 2, op_vout = 1\<rparr>])) = take 2 (tx_output (demo_solo 5000 [])) \<and>
   294 \<le> out_value (tx_output (demo_solo 3500 [\<lparr>op_txid = replicate 32 2, op_vout = 1\<rparr>]) ! 2)"
  using solo_bumps_preserve_anchor [OF demo_solo_chain] by (simp add: solo_env_def)

section \<open>The estimate and the batch\<close>

lemma estimate_Inr:
  assumes "estimate env n rate = Inr e"
  obtains w fee tot where "max_signed_weight n = Inr w" "checked_mul (ucast rate) (div_ceil w 4) = Some fee"
    "checked_add fee MARKER_DUST_SATS = Some tot" "batch_miner_fee e = fee" "batch_total_charge e = tot"
    "batch_charge_floor e = tot div word_of_nat n" "batch_charge_ceiling e = div_ceil tot (word_of_nat n)"
proof -
  have comm: "checked_mul a b = checked_mul b a" for a b :: u64 by (simp add: checked_mul_def mult.commute)
  show thesis using assms that unfolding estimate_def by (auto simp: and_then_Inr Let_def comm split: if_splits)
qed

lemma charge_bounds:
  assumes n: "1 \<le> n" "n \<le> 64" and c: "unat c = unat t div n + (if j < unat t mod n then 1 else 0)"
  shows "t div word_of_nat n \<le> c \<and> c \<le> (div_ceil t (word_of_nat n) :: u64)"
proof -
  have un: "unat (word_of_nat n :: u64) = n" using n by (simp add: unat_of_nat)
  have d: "unat (t div word_of_nat n) = unat t div n" "unat (t mod word_of_nat n) = unat t mod n"
    by (simp_all add: unat_div unat_mod un)
  show ?thesis
  proof (cases "unat t mod n = 0")
    case True
    then show ?thesis using c d by (simp add: div_ceil_def word_le_nat_alt word_less_nat_alt)
  next
    case False
    then have "n \<noteq> 1" by auto
    then have "unat t div n < 2 ^ 64 - 1" using n unat_bounds(4) [of t] div_le_mono2 [of 2 n "unat t"] by simp
    then have "unat (t div word_of_nat n + 1) = unat t div n + 1" using d by (simp add: unat_word_ariths)
    then show ?thesis using c d False by (auto simp: div_ceil_def word_le_nat_alt word_less_nat_alt)
  qed
qed

text \<open>
  The fee model prices exactly the transaction the protocol builds: for a manifest of the same size and fee rate
  the estimate has its miner fee and total charge, and every participant's share lies between the estimated floor and ceiling.
\<close>

theorem estimate_prices_the_batch:
  assumes e: "estimate env (length cs) rate = Inr e" and b: "build_at env' sp p cs epoch rate = Inr m"
  shows "batch_miner_fee e = miner_fee m \<and> batch_total_charge e = total_charge m \<and>
    (\<forall>c \<in> set (charges m). batch_charge_floor e \<le> c \<and> c \<le> batch_charge_ceiling e)"
proof (rule build_at_Inr [OF b], rule estimate_Inr [OF e])
  fix marker w fee tot al w' fee' tot'
  assume w: "max_signed_weight (length cs) = Inr w" "max_signed_weight (length cs) = Inr w'"
    and fee: "checked_mul (ucast rate) (div_ceil w 4) = Some fee" "checked_mul (ucast rate) (div_ceil w' 4) = Some fee'"
    and tot: "checked_add fee MARKER_DUST_SATS = Some tot" "checked_add fee' MARKER_DUST_SATS = Some tot'"
    and al: "charge_loop (tot div word_of_nat (length cs)) (tot mod word_of_nat (length cs)) 0 (sort_commitments env' cs) = Inr al"
    and m: "m = \<lparr>mf_batch_id = batch_id env' p, replacement_epoch = epoch, feerate_sat_vb = rate,
          max_weight = ucast w, miner_fee = fee, total_charge = tot, charges = map fst al,
          mf_commitments = sort_commitments env' cs,
          unsigned_tx = manifest_tx env' sp p marker (sort_commitments env' cs) (map snd al)\<rparr>"
    and es: "batch_miner_fee e = fee'" "batch_total_charge e = tot'" "batch_charge_floor e = tot' div word_of_nat (length cs)"
      "batch_charge_ceiling e = div_ceil tot' (word_of_nat (length cs))"
  have same: "fee' = fee" "tot' = tot" using w fee tot by simp_all
  have n: "1 \<le> length cs" "length cs \<le> 64" using w by (auto simp: max_signed_weight_Inr)
  have ok: "allocation_ok (tot div word_of_nat (length cs)) (tot mod word_of_nat (length cs)) 0 (sort_commitments env' cs) al"
    by (rule charge_loop_Inr [OF al])
  have len: "length al = length cs" using ok by (simp add: allocation_ok_def)
  have "batch_charge_floor e \<le> c \<and> c \<le> batch_charge_ceiling e" if "c \<in> set (charges m)" for c
  proof -
    from that obtain j where j: "j < length cs" "c = fst (al ! j)" by (auto simp: m in_set_conv_nth len)
    have "unat c = unat tot div length cs + (if j < unat tot mod length cs then 1 else 0)"
      using sum_charges(2) [OF ok] n j by simp
    then show ?thesis using charge_bounds [OF n] by (simp add: es same)
  qed
  then show ?thesis by (simp add: es same m)
qed

end
