(* ===== verification/Cbf_Wire.thy ===== *)
theory Cbf_Wire
  imports Prelude
begin

text \<open>
  Wire primitives of the light client, \<open>crates/opencsv-cbf/src/wire.rs\<close>: the byte cursor and
  CompactSize integers, with the contract of a self-delimiting codec as a locale. An \<open>Error\<close> is its
  variant; the free text it carries is left out.
\<close>

section \<open>Errors\<close>

datatype cbf_error =
    Io | Protocol | Consensus | Filter | NoPeers | DivergentPeers | InvalidInput | Decode

section \<open>The cursor\<close>

record wire_cursor =
  cur_data :: bytes
  cur_pos :: nat

type_synonym 'a wire_read = "wire_cursor \<Rightarrow> cbf_error + 'a \<times> wire_cursor"

definition cursor_new :: "bytes \<Rightarrow> wire_cursor" where
  "cursor_new data = \<lparr>cur_data = data, cur_pos = 0\<rparr>"

definition cursor_remaining :: "wire_cursor \<Rightarrow> nat" where
  "cursor_remaining c = length (cur_data c) - cur_pos c"

definition cursor_is_empty :: "wire_cursor \<Rightarrow> bool" where
  "cursor_is_empty c \<longleftrightarrow> cursor_remaining c = 0"

definition cursor_read_bytes :: "nat \<Rightarrow> bytes wire_read" where
  "cursor_read_bytes n c =
     (if cursor_remaining c < n then Inl Protocol
      else Inr (slice (cur_pos c) (cur_pos c + n) (cur_data c), c\<lparr>cur_pos := cur_pos c + n\<rparr>))"

definition cursor_read_hash :: "bytes wire_read" where
  "cursor_read_hash = cursor_read_bytes 32"

definition cursor_read_u8 :: "u8 wire_read" where
  "cursor_read_u8 c = and_then (cursor_read_bytes 1 c) (\<lambda>(bs, c). Inr (bs ! 0, c))"

definition cursor_read_u16 :: "u16 wire_read" where
  "cursor_read_u16 c = and_then (cursor_read_bytes 2 c) (\<lambda>(bs, c). Inr (from_le_bytes bs, c))"

definition cursor_read_u32 :: "u32 wire_read" where
  "cursor_read_u32 c = and_then (cursor_read_bytes 4 c) (\<lambda>(bs, c). Inr (from_le_bytes bs, c))"

definition cursor_read_u64 :: "u64 wire_read" where
  "cursor_read_u64 c = and_then (cursor_read_bytes 8 c) (\<lambda>(bs, c). Inr (from_le_bytes bs, c))"

text \<open>An \<open>i32\<close> is its two's complement word.\<close>

definition cursor_read_i32 :: "u32 wire_read" where
  "cursor_read_i32 c = and_then (cursor_read_bytes 4 c) (\<lambda>(bs, c). Inr (from_le_bytes bs, c))"

definition cursor_read_i64 :: "u64 wire_read" where
  "cursor_read_i64 c = and_then (cursor_read_bytes 8 c) (\<lambda>(bs, c). Inr (from_le_bytes bs, c))"

definition cursor_read_varint :: "u64 wire_read" where
  "cursor_read_varint c =
     and_then (cursor_read_u8 c) (\<lambda>(first, c).
       if first = 0xff then
         and_then (cursor_read_u64 c) (\<lambda>(n, c). if n < 0x100000000 then Inl Protocol else Inr (n, c))
       else if first = 0xfe then
         and_then (cursor_read_u32 c) (\<lambda>(m, c).
           let n = ucast m in if n < 0x10000 then Inl Protocol else Inr (n, c))
       else if first = 0xfd then
         and_then (cursor_read_u16 c) (\<lambda>(m, c).
           let n = ucast m in if n < 0xfd then Inl Protocol else Inr (n, c))
       else Inr (ucast first, c))"

definition cursor_read_varbytes :: "bytes wire_read" where
  "cursor_read_varbytes c = and_then (cursor_read_varint c) (\<lambda>(n, c). cursor_read_bytes (unat n) c)"

definition write_varint :: "u64 \<Rightarrow> bytes" where
  "write_varint n =
     (if n < 0xfd then [ucast n]
      else if n \<le> 0xffff then 0xfd # to_le_bytes (ucast n :: u16)
      else if n \<le> 0xffffffff then 0xfe # to_le_bytes (ucast n :: u32)
      else 0xff # to_le_bytes n)"

definition write_varbytes :: "bytes \<Rightarrow> bytes" where
  "write_varbytes bs = write_varint (word_of_nat (length bs)) @ bs"

text \<open>A \<open>for _ in 0..n\<close> loop that pushes what it reads.\<close>

fun read_count :: "'a wire_read \<Rightarrow> nat \<Rightarrow> 'a list wire_read" where
  "read_count rd 0 c = Inr ([], c)"
| "read_count rd (Suc n) c =
     and_then (rd c) (\<lambda>(x, c). and_then (read_count rd n c) (\<lambda>(xs, c). Inr (x # xs, c)))"

section \<open>Self-delimiting codecs\<close>

text \<open>A cursor between what it has consumed and what is left.\<close>

definition wire_at :: "bytes \<Rightarrow> bytes \<Rightarrow> wire_cursor" where
  "wire_at pre suf = \<lparr>cur_data = pre @ suf, cur_pos = length pre\<rparr>"

text \<open>
  A codec is exact when its reader returns a value precisely on the encoding of a
  valid value, wherever that encoding stands, and leaves the rest.
\<close>

locale wire_codec =
  fixes enc :: "'a \<Rightarrow> bytes"
    and rd :: "'a wire_read"
    and valid :: "'a \<Rightarrow> bool"
  assumes read_back: "valid x \<Longrightarrow> rd (wire_at pre (enc x @ bs)) = Inr (x, wire_at (pre @ enc x) bs)"
    and read_enc: "rd (wire_at pre suf) = Inr (x, c) \<Longrightarrow>
      valid x \<and> (\<exists>bs. suf = enc x @ bs \<and> c = wire_at (pre @ enc x) bs)"
begin

lemma read_iff:
  "rd (wire_at pre suf) = Inr (x, c) \<longleftrightarrow> valid x \<and> (\<exists>bs. suf = enc x @ bs \<and> c = wire_at (pre @ enc x) bs)"
  using read_back read_enc by blast

lemma read_end: "valid x \<Longrightarrow> rd (wire_at pre (enc x)) = Inr (x, wire_at (pre @ enc x) [])"
  using read_back [of x pre "[]"] by simp

lemma read_list_iff:
  "read_count rd n (wire_at pre suf) = Inr (xs, c) \<longleftrightarrow>
     list_all valid xs \<and> length xs = n \<and>
     (\<exists>bs. suf = concat (map enc xs) @ bs \<and> c = wire_at (pre @ concat (map enc xs)) bs)"
proof (induction n arbitrary: pre suf xs)
  case (Suc n)
  have "read_count rd (Suc n) (wire_at pre suf) = Inr (xs, c) \<longleftrightarrow>
      (\<exists>x ys bs. xs = x # ys \<and> valid x \<and> suf = enc x @ bs \<and> read_count rd n (wire_at (pre @ enc x) bs) = Inr (ys, c))"
    by (auto simp: and_then_Inr read_iff split: prod.splits)
  then show ?case unfolding Suc.IH by (auto simp: length_Suc_conv)
qed auto

end

lemma cursor_new_at: "cursor_new bs = wire_at [] bs"
  by (simp add: cursor_new_def wire_at_def)

lemma remaining_at [simp]: "cursor_remaining (wire_at pre suf) = length suf"
  by (simp add: cursor_remaining_def wire_at_def)

lemma is_empty_at [simp]: "cursor_is_empty (wire_at pre suf) \<longleftrightarrow> suf = []"
  by (simp add: cursor_is_empty_def)

lemma read_bytes_at:
  "cursor_read_bytes n (wire_at pre suf) =
     (if length suf < n then Inl Protocol else Inr (take n suf, wire_at (pre @ take n suf) (drop n suf)))"
  by (simp add: cursor_read_bytes_def wire_at_def cursor_remaining_def slice_def)

lemma read_bytes_iff:
  "cursor_read_bytes n (wire_at pre suf) = Inr (x, c) \<longleftrightarrow>
     length x = n \<and> (\<exists>bs. suf = x @ bs \<and> c = wire_at (pre @ x) bs)"
  by (auto simp: read_bytes_at) (metis append_take_drop_id)

interpretation w_bytes: wire_codec "\<lambda>x. x" "cursor_read_bytes n" "\<lambda>x. length x = n" for n
  by unfold_locales (simp_all add: read_bytes_iff)

interpretation w_hash: wire_codec "\<lambda>x. x" cursor_read_hash "\<lambda>x. length x = 32"
  by unfold_locales (simp_all add: cursor_read_hash_def read_bytes_iff)

interpretation w_u8: wire_codec "\<lambda>x. [x]" cursor_read_u8 "\<lambda>_. True"
proof
  fix pre suf x c
  show "cursor_read_u8 (wire_at pre ([x] @ suf)) = Inr (x, wire_at (pre @ [x]) suf)"
    by (simp add: cursor_read_u8_def read_bytes_at)
  assume "cursor_read_u8 (wire_at pre suf) = Inr (x, c)"
  then show "True \<and> (\<exists>bs. suf = [x] @ bs \<and> c = wire_at (pre @ [x]) bs)"
    by (cases suf) (auto simp: cursor_read_u8_def read_bytes_at and_then_Inr)
qed

lemma le_word_codec:
  assumes "8 * n = LENGTH('a)" and "\<And>c. rd c = and_then (cursor_read_bytes n c) (\<lambda>(bs, c). Inr (from_le_bytes bs :: 'a::len word, c))"
  shows "wire_codec to_le_bytes rd (\<lambda>_. True)"
proof
  have n: "LENGTH('a) div 8 = n" using assms(1) by simp
  fix pre suf x c
  show "rd (wire_at pre (to_le_bytes x @ suf)) = Inr (x, wire_at (pre @ to_le_bytes x) suf)"
    using assms(1) n by (simp add: assms(2) read_bytes_at from_to_le_bytes)
  assume "rd (wire_at pre suf) = Inr (x, c)"
  then show "True \<and> (\<exists>bs. suf = to_le_bytes x @ bs \<and> c = wire_at (pre @ to_le_bytes x) bs)"
    using assms(1) by (auto simp: assms(2) and_then_Inr read_bytes_iff to_from_le_bytes)
qed

interpretation w_u16: wire_codec to_le_bytes cursor_read_u16 "\<lambda>_. True"
  by (rule le_word_codec [where n = 2]) (simp_all add: cursor_read_u16_def)

interpretation w_u32: wire_codec to_le_bytes cursor_read_u32 "\<lambda>_. True"
  by (rule le_word_codec [where n = 4]) (simp_all add: cursor_read_u32_def)

interpretation w_i32: wire_codec to_le_bytes cursor_read_i32 "\<lambda>_. True"
  by (rule le_word_codec [where n = 4]) (simp_all add: cursor_read_i32_def)

interpretation w_u64: wire_codec to_le_bytes cursor_read_u64 "\<lambda>_. True"
  by (rule le_word_codec [where n = 8]) (simp_all add: cursor_read_u64_def)


section \<open>CompactSize\<close>

lemma unat_less_wider: "LENGTH('a) \<le> LENGTH('b) \<Longrightarrow> unat (w :: 'a::len word) < 2 ^ LENGTH('b::len)"
proof -
  assume "LENGTH('a) \<le> LENGTH('b)"
  then have "(2::nat) ^ LENGTH('a) \<le> 2 ^ LENGTH('b)" by (intro power_increasing) simp_all
  moreover have "unat w < 2 ^ LENGTH('a)" by (rule unsigned_less)
  ultimately show ?thesis by linarith
qed

lemma unat_ucast: "unat (ucast (w :: 'a::len word) :: 'b::len word) = unat w mod 2 ^ LENGTH('b)"
  by (simp add: unsigned_ucast_eq take_bit_eq_mod)

lemma unat_ucast_up:
  "LENGTH('a) \<le> LENGTH('b) \<Longrightarrow> unat (ucast (w :: 'a::len word) :: 'b::len word) = unat w"
  by (simp add: unat_ucast unat_less_wider)

lemma ucast_down_up:
  "LENGTH('a) \<le> LENGTH('b) \<Longrightarrow> (ucast (ucast (w :: 'a::len word) :: 'b::len word) :: 'a word) = w"
  unfolding word_unat_eq_iff unat_ucast by (simp add: unat_less_wider)

lemma ucast_up_down:
  "unat w < 2 ^ LENGTH('a) \<Longrightarrow> (ucast (ucast (w :: 'b::len word) :: 'a::len word) :: 'b word) = w"
  unfolding word_unat_eq_iff unat_ucast by simp

lemma unat_drop_bit: "unat (drop_bit n w) = unat w div 2 ^ n" for w :: "'a::len word"
  unfolding unsigned_drop_bit_eq by (simp add: drop_bit_eq_div take_bit_nat_eq_self unsigned_less)

lemma varint_shape:
  "write_varint (ucast (b :: u8)) = [b]" if "b \<noteq> 0xff" "b \<noteq> 0xfe" "b \<noteq> 0xfd"
proof -
  have "unat b < 253"
  proof -
    have "unat b \<noteq> 255" "unat b \<noteq> 254" "unat b \<noteq> 253" using that by (auto simp: word_unat_eq_iff)
    then show ?thesis using unat_bounds(1) [of b] by simp
  qed
  then show ?thesis by (simp add: write_varint_def word_less_nat_alt unat_ucast_up ucast_down_up)
qed


interpretation w_varint: wire_codec write_varint cursor_read_varint "\<lambda>_. True"
proof
  fix pre suf :: bytes and n :: u64 and c
  have b: "unat n < 2 ^ 64" by (rule unat_bounds)
  show "cursor_read_varint (wire_at pre (write_varint n @ suf)) = Inr (n, wire_at (pre @ write_varint n) suf)"
  proof -
    consider "n < 0xfd" | "\<not> n < 0xfd" "n \<le> 0xffff" | "\<not> n \<le> 0xffff" "n \<le> 0xffffffff" | "\<not> n \<le> 0xffffffff"
      by blast
    then show ?thesis
    proof cases
      case 1
      then have w: "write_varint n = [ucast n]" and u: "unat n < 253" by (simp_all add: write_varint_def word_less_nat_alt)
      then have "unat (ucast n :: u8) = unat n" by (simp add: unsigned_ucast_eq take_bit_nat_eq_self)
      with u have "(ucast n :: u8) \<noteq> 0xff" "(ucast n :: u8) \<noteq> 0xfe" "(ucast n :: u8) \<noteq> 0xfd"
        by (auto simp: word_unat_eq_iff)
      with w u w_u8.read_back [where x = "ucast n" and pre = pre] show ?thesis
        by (simp add: cursor_read_varint_def ucast_up_down)
    next
      case 2
      then have w: "write_varint n = [0xfd] @ to_le_bytes (ucast n :: u16)" and u: "unat n < 2 ^ 16"
        by (simp_all add: write_varint_def word_le_nat_alt)
      with 2 w_u8.read_back [where x = "0xfd" and pre = pre] show ?thesis
        by (simp add: cursor_read_varint_def w_u16.read_back ucast_up_down)
    next
      case 3
      then have w: "write_varint n = [0xfe] @ to_le_bytes (ucast n :: u32)" and u: "unat n < 2 ^ 32" and ge: "\<not> n < 0x10000"
        by (auto simp: write_varint_def word_le_nat_alt word_less_nat_alt)
      with w_u8.read_back [where x = "0xfe" and pre = pre] show ?thesis
        by (simp add: cursor_read_varint_def w_u32.read_back ucast_up_down)
    next
      case 4
      then have w: "write_varint n = [0xff] @ to_le_bytes n" and ge: "\<not> n < 0x100000000"
        by (auto simp: write_varint_def word_le_nat_alt word_less_nat_alt)
      with w_u8.read_back [where x = "0xff" and pre = pre] show ?thesis
        by (simp add: cursor_read_varint_def w_u64.read_back)
    qed
  qed
  assume rd: "cursor_read_varint (wire_at pre suf) = Inr (n, c)"
  then obtain b bs where suf: "suf = [b] @ bs" and "cursor_read_u8 (wire_at pre suf) = Inr (b, wire_at (pre @ [b]) bs)"
    by (auto simp: cursor_read_varint_def and_then_Inr w_u8.read_iff)
  note rd' = rd [unfolded cursor_read_varint_def this(2) and_then.simps prod.case]
  consider "b = 0xff" | "b = 0xfe" | "b = 0xfd" | "b \<noteq> 0xff" "b \<noteq> 0xfe" "b \<noteq> 0xfd" by blast
  then show "True \<and> (\<exists>bs. suf = write_varint n @ bs \<and> c = wire_at (pre @ write_varint n) bs)"
  proof cases
    case 1
    with rd' have "\<not> n < 0x100000000" "\<exists>t. bs = to_le_bytes n @ t \<and> c = wire_at ((pre @ [b]) @ to_le_bytes n) t"
      by (auto simp: and_then_Inr w_u64.read_iff split: if_splits)
    moreover from this(1) have "write_varint n = [b] @ to_le_bytes n"
      using 1 by (auto simp: write_varint_def word_le_nat_alt word_less_nat_alt)
    ultimately show ?thesis using suf by auto
  next
    case 2
    with rd' obtain m t where m: "n = ucast (m :: u32)" "\<not> n < 0x10000" and t: "bs = to_le_bytes m @ t" "c = wire_at ((pre @ [b]) @ to_le_bytes m) t"
      by (auto simp: and_then_Inr w_u32.read_iff Let_def split: if_splits)
    moreover from m have "write_varint n = [b] @ to_le_bytes m"
      using 2 unat_bounds(3) [of m] by (auto simp: write_varint_def word_le_nat_alt word_less_nat_alt unat_ucast_up ucast_down_up)
    ultimately show ?thesis using suf by auto
  next
    case 3
    with rd' obtain m t where m: "n = ucast (m :: u16)" "\<not> n < 0xfd" and t: "bs = to_le_bytes m @ t" "c = wire_at ((pre @ [b]) @ to_le_bytes m) t"
      by (auto simp: and_then_Inr w_u16.read_iff Let_def split: if_splits)
    moreover from m have "write_varint n = [b] @ to_le_bytes m"
      using 3 unat_bounds(2) [of m] by (auto simp: write_varint_def word_le_nat_alt word_less_nat_alt unat_ucast_up ucast_down_up)
    ultimately show ?thesis using suf by auto
  next
    case 4
    with rd' suf varint_shape [of b] show ?thesis by auto
  qed
qed

lemma unat_length: "length bs < 2 ^ 64 \<Longrightarrow> unat (word_of_nat (length bs) :: u64) = length bs"
  by (simp add: unat_of_nat)

interpretation w_varbytes: wire_codec write_varbytes cursor_read_varbytes "\<lambda>bs. length bs < 2 ^ 64"
proof
  fix x pre suf :: bytes and c
  show "length x < 2 ^ 64 \<Longrightarrow> cursor_read_varbytes (wire_at pre (write_varbytes x @ suf)) = Inr (x, wire_at (pre @ write_varbytes x) suf)"
    by (simp add: cursor_read_varbytes_def write_varbytes_def w_varint.read_back unat_length read_bytes_at)
  assume "cursor_read_varbytes (wire_at pre suf) = Inr (x, c)"
  then obtain n t u where n: "suf = write_varint n @ t" "t = x @ u" "length x = unat n" "c = wire_at ((pre @ write_varint n) @ x) u"
    by (auto simp: cursor_read_varbytes_def and_then_Inr w_varint.read_iff read_bytes_iff)
  then have "word_of_nat (length x) = n" "length x < 2 ^ 64" using unat_bounds(4) [of n] by simp_all
  then show "length x < 2 ^ 64 \<and> (\<exists>bs. suf = write_varbytes x @ bs \<and> c = wire_at (pre @ write_varbytes x) bs)"
    using n by (auto simp: write_varbytes_def)
qed

end
