(* ===== verification/Cbf_Block.thy ===== *)
theory Cbf_Block
  imports Cbf_Wire
begin

text \<open>
  Blocks and transactions of the light client, \<open>crates/opencsv-cbf/src/block.rs\<close> and
  \<open>hash.rs\<close>: header and transaction parsing, transaction ids, merkle roots, filter elements and
  anchor scripts. SHA-256 (the \<open>sha2\<close> crate) is a parameter.
\<close>

section \<open>Data\<close>

type_synonym sha256_fn = "bytes \<Rightarrow> bytes"

definition sha256d :: "sha256_fn \<Rightarrow> bytes \<Rightarrow> bytes" where
  "sha256d sha data = sha (sha data)"

record block_header =
  bh_version :: u32
  bh_prev_block :: bytes
  bh_merkle_root :: bytes
  bh_time :: u32
  bh_bits :: u32
  bh_nonce :: u32

record cbf_outpoint =
  co_txid :: bytes
  co_vout :: u32

record cbf_tx_in =
  ci_prev :: cbf_outpoint
  ci_script_sig :: bytes
  ci_sequence :: u32

record cbf_tx_out =
  cx_value :: u64
  cx_script_pubkey :: bytes

record cbf_tx =
  ct_version :: u32
  ct_inputs :: "cbf_tx_in list"
  ct_outputs :: "cbf_tx_out list"
  ct_lock_time :: u32
  ct_witnesses :: "bytes list list"

record cbf_block =
  cb_header :: block_header
  cb_txs :: "cbf_tx list"

section \<open>Headers\<close>

definition header_parse :: "bytes \<Rightarrow> cbf_error + block_header" where
  "header_parse bs =
     and_then (cursor_read_i32 (cursor_new bs)) (\<lambda>(ver, c).
     and_then (cursor_read_hash c) (\<lambda>(prev, c).
     and_then (cursor_read_hash c) (\<lambda>(root, c).
     and_then (cursor_read_u32 c) (\<lambda>(time, c).
     and_then (cursor_read_u32 c) (\<lambda>(bits, c).
     and_then (cursor_read_u32 c) (\<lambda>(nonce, c).
     if \<not> cursor_is_empty c then Inl Protocol
     else Inr \<lparr>bh_version = ver, bh_prev_block = prev, bh_merkle_root = root, bh_time = time,
               bh_bits = bits, bh_nonce = nonce\<rparr>))))))"

definition header_serialize :: "block_header \<Rightarrow> bytes" where
  "header_serialize h =
     to_le_bytes (bh_version h) @ bh_prev_block h @ bh_merkle_root h @ to_le_bytes (bh_time h) @
     to_le_bytes (bh_bits h) @ to_le_bytes (bh_nonce h)"

definition header_hash :: "sha256_fn \<Rightarrow> block_header \<Rightarrow> bytes" where
  "header_hash sha h = sha256d sha (header_serialize h)"

section \<open>Transactions\<close>

text \<open>The bodies of the three parse loops.\<close>

definition read_tx_in :: "cbf_tx_in wire_read" where
  "read_tx_in c =
     and_then (cursor_read_hash c) (\<lambda>(txid, c).
     and_then (cursor_read_u32 c) (\<lambda>(vout, c).
     and_then (cursor_read_varbytes c) (\<lambda>(script, c).
     and_then (cursor_read_u32 c) (\<lambda>(sq, c).
     Inr (\<lparr>ci_prev = \<lparr>co_txid = txid, co_vout = vout\<rparr>, ci_script_sig = script, ci_sequence = sq\<rparr>, c)))))"

definition read_tx_out :: "cbf_tx_out wire_read" where
  "read_tx_out c =
     and_then (cursor_read_u64 c) (\<lambda>(v, c).
     and_then (cursor_read_varbytes c) (\<lambda>(script, c).
     Inr (\<lparr>cx_value = v, cx_script_pubkey = script\<rparr>, c)))"

definition read_witness_stack :: "bytes list wire_read" where
  "read_witness_stack c =
     and_then (cursor_read_varint c) (\<lambda>(item_count, c).
     if item_count > 1000 then Inl Protocol else read_count cursor_read_varbytes (unat item_count) c)"

text \<open>The first byte after the version: the segwit marker, or the legacy input count.\<close>

definition read_input_count :: "(bool \<times> u64) wire_read" where
  "read_input_count c =
     and_then (cursor_read_u8 c) (\<lambda>(first, c).
     if first = 0 then
       and_then (cursor_read_u8 c) (\<lambda>(flag, c).
         if flag \<noteq> 1 then Inl Protocol
         else and_then (cursor_read_varint c) (\<lambda>(n, c). Inr ((True, n), c)))
     else Inr ((False, ucast first), c))"

definition tx_parse :: "cbf_tx wire_read" where
  "tx_parse c =
     and_then (cursor_read_i32 c) (\<lambda>(ver, c).
     and_then (read_input_count c) (\<lambda>((segwit, input_count), c).
     if input_count > 1000000 then Inl Protocol else
     and_then (read_count read_tx_in (unat input_count) c) (\<lambda>(ins, c).
     and_then (cursor_read_varint c) (\<lambda>(output_count, c).
     if output_count > 1000000 then Inl Protocol else
     and_then (read_count read_tx_out (unat output_count) c) (\<lambda>(outs, c).
     and_then (if segwit then read_count read_witness_stack (unat input_count) c else Inr ([], c)) (\<lambda>(wits, c).
     and_then (cursor_read_u32 c) (\<lambda>(lock, c).
     Inr (\<lparr>ct_version = ver, ct_inputs = ins, ct_outputs = outs, ct_lock_time = lock,
           ct_witnesses = wits\<rparr>, c))))))))"

definition tx_in_bytes :: "cbf_tx_in \<Rightarrow> bytes" where
  "tx_in_bytes i =
     co_txid (ci_prev i) @ to_le_bytes (co_vout (ci_prev i)) @ write_varbytes (ci_script_sig i) @
     to_le_bytes (ci_sequence i)"

definition tx_out_bytes :: "cbf_tx_out \<Rightarrow> bytes" where
  "tx_out_bytes out = to_le_bytes (cx_value out) @ write_varbytes (cx_script_pubkey out)"

definition serialize_legacy :: "cbf_tx \<Rightarrow> bytes" where
  "serialize_legacy t =
     to_le_bytes (ct_version t) @ write_varint (word_of_nat (length (ct_inputs t))) @
     concat (map tx_in_bytes (ct_inputs t)) @ write_varint (word_of_nat (length (ct_outputs t))) @
     concat (map tx_out_bytes (ct_outputs t)) @ to_le_bytes (ct_lock_time t)"

definition tx_txid :: "sha256_fn \<Rightarrow> cbf_tx \<Rightarrow> bytes" where
  "tx_txid sha t = sha256d sha (serialize_legacy t)"

definition is_coinbase :: "cbf_tx \<Rightarrow> bool" where
  "is_coinbase t \<longleftrightarrow>
     length (ct_inputs t) = 1 \<and> co_txid (ci_prev (ct_inputs t ! 0)) = replicate 32 0 \<and>
     co_vout (ci_prev (ct_inputs t ! 0)) = 0xffffffff"

section \<open>Blocks\<close>

definition block_parse :: "bytes \<Rightarrow> cbf_error + cbf_block" where
  "block_parse bs =
     and_then (cursor_read_bytes 80 (cursor_new bs)) (\<lambda>(header_bytes, c).
     and_then (header_parse header_bytes) (\<lambda>header.
     and_then (cursor_read_varint c) (\<lambda>(tx_count, c).
     if tx_count > 1000000 then Inl Protocol else
     and_then (read_count tx_parse (unat tx_count) c) (\<lambda>(txs, c).
     if \<not> cursor_is_empty c then Inl Protocol else Inr \<lparr>cb_header = header, cb_txs = txs\<rparr>))))"

definition merkle_pair :: "sha256_fn \<Rightarrow> bytes list \<Rightarrow> bytes" where
  "merkle_pair sha pair =
     sha256d sha (copy_at 32 (last pair) (copy_at 0 (hd pair) (replicate 64 0)))"

function merkle_loop :: "sha256_fn \<Rightarrow> bytes list \<Rightarrow> bytes" where
  "merkle_loop sha level =
     (if length level > 1 then merkle_loop sha (map (merkle_pair sha) (chunks 2 level)) else level ! 0)"
  by pat_completeness auto
termination
  by (relation "measure (\<lambda>(sha, level). length level)") (auto simp: length_chunks)

declare merkle_loop.simps [simp del]

text \<open>\<open>None\<close> is the panic of the assertion on an empty list of leaves.\<close>

definition merkle_root :: "sha256_fn \<Rightarrow> bytes list \<Rightarrow> bytes option" where
  "merkle_root sha leaves = (if leaves = [] then None else Some (merkle_loop sha leaves))"

definition compute_merkle_root :: "sha256_fn \<Rightarrow> cbf_block \<Rightarrow> bytes option" where
  "compute_merkle_root sha b = merkle_root sha (map (tx_txid sha) (cb_txs b))"

definition output_elements :: "cbf_tx \<Rightarrow> bytes list" where
  "output_elements t =
     map cx_script_pubkey (filter (\<lambda>out. cx_script_pubkey out \<noteq> [] \<and> hd (cx_script_pubkey out) \<noteq> 0x6a) (ct_outputs t))"

text \<open>The iterator over the prevout scripts is the list that is left.\<close>

fun prevout_elements :: "nat \<Rightarrow> bytes list \<Rightarrow> cbf_error + bytes list \<times> bytes list" where
  "prevout_elements 0 prevouts = Inr ([], prevouts)"
| "prevout_elements (Suc n) [] = Inl Protocol"
| "prevout_elements (Suc n) (script # prevouts) =
     and_then (prevout_elements n prevouts) (\<lambda>(es, rest).
       Inr (if script \<noteq> [] then script # es else es, rest))"

fun filter_elements_loop :: "nat \<Rightarrow> cbf_tx list \<Rightarrow> bytes list \<Rightarrow> cbf_error + bytes list \<times> bytes list" where
  "filter_elements_loop index [] prevouts = Inr ([], prevouts)"
| "filter_elements_loop index (t # ts) prevouts =
     and_then (if index > 0 then prevout_elements (length (ct_inputs t)) prevouts else Inr ([], prevouts)) (\<lambda>(es, rest).
     and_then (filter_elements_loop (Suc index) ts rest) (\<lambda>(es', rest').
     Inr (output_elements t @ es @ es', rest')))"

definition basic_filter_elements :: "cbf_block \<Rightarrow> bytes list \<Rightarrow> cbf_error + bytes list" where
  "basic_filter_elements b prevout_scripts =
     and_then (filter_elements_loop 0 (cb_txs b) prevout_scripts) (\<lambda>(elements, rest).
       if rest \<noteq> [] then Inl Protocol else Inr elements)"

section \<open>Anchor scripts\<close>

definition anchor_script :: "bytes \<Rightarrow> bytes" where
  "anchor_script record_bytes = [0x6a, 0x40] @ record_bytes"

fun op_return_payload :: "bytes \<Rightarrow> bytes option" where
  "op_return_payload (op # rest) =
     (if op \<noteq> 0x6a then None
      else
        (case (case rest of
             a # b # c # data \<Rightarrow>
               if a = 0x40 then Some (b # c # data)
               else if a = 0x4c \<and> b = 0x40 then Some (c # data)
               else if a = 0x4d \<and> b = 0x40 \<and> c = 0x00 then Some data else None
           | [a, b] \<Rightarrow> if a = 0x40 then Some [b] else if a = 0x4c \<and> b = 0x40 then Some [] else None
           | [a] \<Rightarrow> if a = 0x40 then Some [] else None
           | [] \<Rightarrow> None) of
           None \<Rightarrow> None
         | Some data \<Rightarrow> if length data = 64 then Some data else None))"
| "op_return_payload [] = None"

end
