(* ===== verification/Cbf_Hash.thy ===== *)
theory Cbf_Hash
  imports Utf8 Cbf_Wire
begin

text \<open>
  Hexadecimal hashes of the light client, \<open>crates/opencsv-cbf/src/hash.rs\<close>. The decoder slices a
  string at byte offsets, so \<open>None\<close> is its panic inside a multi-byte character.
\<close>

section \<open>Operations\<close>

definition hex_char :: "nat \<Rightarrow> nat" where
  "hex_char d = (if d < 10 then 48 + d else 87 + d)"

definition to_hex :: "bytes \<Rightarrow> ustring" where
  "to_hex bs = concat (map (\<lambda>b. [hex_char (unat b div 16), hex_char (unat b mod 16)]) bs)"

definition hex_digit :: "byte \<Rightarrow> nat option" where
  "hex_digit b =
     (let n = unat b in
      if 48 \<le> n \<and> n \<le> 57 then Some (n - 48)
      else if 97 \<le> n \<and> n \<le> 102 then Some (n - 87)
      else if 65 \<le> n \<and> n \<le> 70 then Some (n - 55)
      else None)"

text \<open>\<open>u8::from_str_radix\<close> on two bytes, which takes a leading plus sign.\<close>

definition from_str_radix_16 :: "byte \<Rightarrow> byte \<Rightarrow> byte option" where
  "from_str_radix_16 a b =
     (if a = 43 then map_option word_of_nat (hex_digit b)
      else case hex_digit a of None \<Rightarrow> None
        | Some x \<Rightarrow> map_option (\<lambda>y. word_of_nat (16 * x + y)) (hex_digit b))"

definition is_continuation :: "byte \<Rightarrow> bool" where
  "is_continuation b \<longleftrightarrow> 0x80 \<le> b \<and> b < 0xC0"

fun hex_loop :: "bytes \<Rightarrow> (cbf_error + bytes) option" where
  "hex_loop [] = Some (Inr [])"
| "hex_loop [a] = Some (Inl Protocol)"
| "hex_loop (a # b # rest) =
     (if is_continuation a \<or> rest \<noteq> [] \<and> is_continuation (hd rest) then None
      else case from_str_radix_16 a b of
        None \<Rightarrow> Some (Inl Protocol)
      | Some v \<Rightarrow> map_option (map_sum id (\<lambda>vs. v # vs)) (hex_loop rest))"

definition from_hex :: "ustring \<Rightarrow> (cbf_error + bytes) option" where
  "from_hex s =
     (let bs = as_bytes (trim s) in if length bs mod 2 \<noteq> 0 then Some (Inl Protocol) else hex_loop bs)"

definition hash_from_display :: "ustring \<Rightarrow> (cbf_error + bytes) option" where
  "hash_from_display hex =
     map_option (\<lambda>r. and_then r (\<lambda>bs. if length bs \<noteq> 32 then Inl Protocol else Inr (rev bs))) (from_hex hex)"

definition hash_to_display :: "bytes \<Rightarrow> ustring" where
  "hash_to_display bs = to_hex (rev bs)"

section \<open>Round trip\<close>

lemma hex_char_range: "d < 16 \<Longrightarrow> hex_char d < 128 \<and> \<not> is_whitespace (hex_char d)"
  by (auto simp: hex_char_def is_whitespace_def)

lemma hex_digit_char: "d < 16 \<Longrightarrow> hex_digit (word_of_nat (hex_char d)) = Some d \<and> (word_of_nat (hex_char d) :: byte) \<noteq> 43"
  by (auto simp: hex_digit_def hex_char_def unat_of_nat word_unat_eq_iff)

lemma ascii_no_continuation: "n < 128 \<Longrightarrow> \<not> is_continuation (word_of_nat n)"
  by (simp add: is_continuation_def word_le_nat_alt unat_of_nat)

lemma hex_pair:
  fixes b :: byte
  shows "from_str_radix_16 (word_of_nat (hex_char (unat b div 16))) (word_of_nat (hex_char (unat b mod 16))) = Some b"
proof -
  have "unat b < 256" using unat_bounds(1) [of b] by simp
  then have "unat b div 16 < 16" "unat b mod 16 < 16" by simp_all
  moreover have "(word_of_nat (16 * (unat b div 16) + unat b mod 16) :: byte) = b" by (simp only: mult_div_mod_eq) simp
  ultimately show ?thesis by (simp add: from_str_radix_16_def hex_digit_char del: of_nat_add of_nat_mult)
qed

lemma to_hex_ascii: "list_all (\<lambda>c. c < 128 \<and> \<not> is_whitespace c) (to_hex bs)"
proof -
  have "unat b div 16 < 16" for b :: byte using unat_bounds(1) [of b] by simp
  then have "hex_char (unat b div 16) < 128 \<and> \<not> is_whitespace (hex_char (unat b div 16))" for b :: byte by (rule hex_char_range)
  moreover have "hex_char (unat b mod 16) < 128 \<and> \<not> is_whitespace (hex_char (unat b mod 16))" for b :: byte by (rule hex_char_range) simp
  ultimately show ?thesis by (auto simp: to_hex_def list_all_iff)
qed

lemma trim_no_space: "list_all (\<lambda>c. \<not> is_whitespace c) s \<Longrightarrow> trim s = s"
proof -
  assume a: "list_all (\<lambda>c. \<not> is_whitespace c) s"
  have "dropWhile is_whitespace t = t" if "set t \<subseteq> set s" for t
    using a that by (cases t) (auto simp: list_all_iff)
  then show "trim s = s" by (simp add: trim_def)
qed

lemma hex_loop_to_hex: "hex_loop (map word_of_nat (to_hex bs)) = Some (Inr bs)"
proof (induction bs)
  case (Cons b bs)
  have "\<not> is_continuation (word_of_nat c)" if "c \<in> set (to_hex (b # bs))" for c
    using to_hex_ascii [of "b # bs"] that by (simp add: list_all_iff ascii_no_continuation)
  moreover have "to_hex (b # bs) = hex_char (unat b div 16) # hex_char (unat b mod 16) # to_hex bs" by (simp add: to_hex_def)
  ultimately show ?case using Cons hex_pair [of b] by (cases "to_hex bs") auto
qed (simp add: to_hex_def)

lemma length_to_hex: "length (to_hex bs) = 2 * length bs"
  by (induction bs) (simp_all add: to_hex_def)

lemma from_to_hex: "from_hex (to_hex bs) = Some (Inr bs)"
proof -
  have "trim (to_hex bs) = to_hex bs" using to_hex_ascii [of bs] by (intro trim_no_space) (auto simp: list_all_iff)
  moreover have "as_bytes (to_hex bs) = map word_of_nat (to_hex bs)" using to_hex_ascii [of bs] by (intro as_bytes_ascii) (auto simp: list_all_iff)
  ultimately show ?thesis by (simp add: from_hex_def Let_def length_to_hex hex_loop_to_hex)
qed

lemma hash_display_roundtrip: "length h = 32 \<Longrightarrow> hash_from_display (hash_to_display h) = Some (Inr h)"
  by (simp add: hash_from_display_def hash_to_display_def from_to_hex)

end
