(* ===== verification/Cbf_Network.thy ===== *)
theory Cbf_Network
  imports Cbf_Block Cbf_Hash
begin

text \<open>
  Consensus parameters and proof-of-work validation of the light client,
  \<open>crates/opencsv-cbf/src/network.rs\<close>: compact targets, 256-bit arithmetic on limbs, work, the
  difficulty rules and header validation.
\<close>

unbundle bit_operations_syntax

section \<open>Parameters\<close>

text \<open>A 256-bit integer is the list of its four limbs, least significant first.\<close>

type_synonym u128 = "128 word"
type_synonym U256 = "u64 list"

datatype network = Mainnet | Signet | Regtest

definition RETARGET_INTERVAL :: nat where "RETARGET_INTERVAL = 2016"

record params =
  pa_network :: network
  pa_magic :: u32
  pa_default_port :: u16
  pa_genesis_hash :: bytes
  pa_pow_limit :: U256
  pa_pow_limit_bits :: u32
  pa_pow_target_spacing :: u64
  pa_pow_target_timespan :: u64
  pa_allow_min_difficulty :: bool
  pa_no_retargeting :: bool

section \<open>Compact targets\<close>

text \<open>One pass of the byte-placing loop: \<open>out[pos / 8] |= byte << (8 * (pos % 8))\<close>.\<close>

definition place_byte :: "nat \<Rightarrow> u64 \<Rightarrow> U256 \<Rightarrow> U256" where
  "place_byte pos byte out =
     (if pos < 32 then out[pos div 8 := out ! (pos div 8) OR push_bit (8 * (pos mod 8)) byte] else out)"

definition from_compact :: "u32 \<Rightarrow> U256 option" where
  "from_compact bits =
     (let size = unat (drop_bit 24 bits);
          mantissa = bits AND 0x007fffff;
          zero = [0, 0, 0, 0];
          out =
            (if size \<le> 3 then zero[0 := ucast (drop_bit (8 * (3 - size)) mantissa)]
             else fold (\<lambda>i. place_byte (size - 3 + i) (ucast (drop_bit (8 * i) mantissa AND 0xff))) [0, 1, 2] zero)
      in if mantissa \<noteq> 0 \<and> (size > 34 \<or> mantissa > 0xff \<and> size > 33 \<or> mantissa > 0xffff \<and> size > 32) then None
         else if bits AND 0x00800000 \<noteq> 0 then None
         else Some out)"

fun significant_size :: "bytes \<Rightarrow> nat \<Rightarrow> nat" where
  "significant_size bs 0 = 0"
| "significant_size bs (Suc n) = (if Suc n > 1 \<and> bs ! n = 0 then significant_size bs n else Suc n)"

definition to_compact :: "U256 \<Rightarrow> u32" where
  "to_compact target =
     (let bs = concat (map to_le_bytes target);
          size = significant_size bs 32;
          compact =
            (if size \<le> 3 then
               push_bit (8 * (3 - size))
                 (fold (\<lambda>(i, byte) w. w OR push_bit (8 * i) (ucast byte)) (zip [0..<size] (take size bs)) (0 :: u32))
             else push_bit 16 (ucast (bs ! (size - 1))) OR push_bit 8 (ucast (bs ! (size - 2))) OR ucast (bs ! (size - 3)));
          (compact, size) = (if compact AND 0x00800000 \<noteq> 0 then (drop_bit 8 compact, size + 1) else (compact, size))
      in push_bit 24 (word_of_nat size) OR compact)"

text \<open>\<open>expect("constant")\<close>: the constants decode, so the default is never taken.\<close>

definition expect_constant :: "(cbf_error + bytes) option \<Rightarrow> bytes" where
  "expect_constant r = (case r of Some (Inr bs) \<Rightarrow> bs | _ \<Rightarrow> [])"

definition network_params :: "network \<Rightarrow> params" where
  "network_params network =
     (case network of
        Mainnet \<Rightarrow>
          \<lparr>pa_network = network, pa_magic = 0xd9b4bef9, pa_default_port = 8333,
           pa_genesis_hash = expect_constant (hash_from_display (lit ''000000000019d6689c085ae165831e934ff763ae46a2a6c172b3f1b60a8ce26f'')),
           pa_pow_limit = the (from_compact 0x1d00ffff), pa_pow_limit_bits = 0x1d00ffff,
           pa_pow_target_spacing = 600, pa_pow_target_timespan = 14 * 24 * 60 * 60,
           pa_allow_min_difficulty = False, pa_no_retargeting = False\<rparr>
      | Signet \<Rightarrow>
          \<lparr>pa_network = network, pa_magic = 0x40cf030a, pa_default_port = 38333,
           pa_genesis_hash = expect_constant (hash_from_display (lit ''00000008819873e925422c1ff0f99f7cc9bbb232af63a077a480a3633bee1ef6'')),
           pa_pow_limit = the (from_compact 0x1e0377ae), pa_pow_limit_bits = 0x1e0377ae,
           pa_pow_target_spacing = 600, pa_pow_target_timespan = 14 * 24 * 60 * 60,
           pa_allow_min_difficulty = False, pa_no_retargeting = False\<rparr>
      | Regtest \<Rightarrow>
          \<lparr>pa_network = network, pa_magic = 0xdab5bffa, pa_default_port = 18444,
           pa_genesis_hash = expect_constant (hash_from_display (lit ''0f9188f13cb7b2c71f2a335e3a4fc328bf5beb436012afca590b1a11466e2206'')),
           pa_pow_limit = the (from_compact 0x207fffff), pa_pow_limit_bits = 0x207fffff,
           pa_pow_target_spacing = 600, pa_pow_target_timespan = 14 * 24 * 60 * 60,
           pa_allow_min_difficulty = True, pa_no_retargeting = True\<rparr>)"

section \<open>Limb arithmetic\<close>

text \<open>Comparison from the most significant limb down.\<close>

fun u256_ge_loop :: "nat \<Rightarrow> U256 \<Rightarrow> U256 \<Rightarrow> bool" where
  "u256_ge_loop 0 a b = True"
| "u256_ge_loop (Suc i) a b = (if a ! i \<noteq> b ! i then a ! i > b ! i else u256_ge_loop i a b)"

definition u256_ge :: "U256 \<Rightarrow> U256 \<Rightarrow> bool" where
  "u256_ge a b = u256_ge_loop 4 a b"

definition u256_is_zero :: "U256 \<Rightarrow> bool" where
  "u256_is_zero a = list_all (\<lambda>l. l = 0) a"

definition u256_from_hash :: "bytes \<Rightarrow> U256" where
  "u256_from_hash hash = map (\<lambda>i. from_le_bytes (slice (i * 8) (i * 8 + 8) hash)) [0..<4]"

text \<open>The full product as eight limbs; the loop carries 128-bit accumulators.\<close>

fun mul_loop :: "u128 \<Rightarrow> u64 \<Rightarrow> u64 list \<Rightarrow> u64 list" where
  "mul_loop carry b [] = [ucast carry]"
| "mul_loop carry b (x # xs) =
     (let acc = ucast x * ucast b + carry in ucast acc # mul_loop (drop_bit 64 acc) b xs)"

definition u256_mul_u64 :: "U256 \<Rightarrow> u64 \<Rightarrow> u64 list" where
  "u256_mul_u64 a b = mul_loop 0 b a @ [0, 0, 0]"

text \<open>Long division from the top limb; the quotient limbs come out most significant first.\<close>

fun div_loop :: "u128 \<Rightarrow> u64 \<Rightarrow> u64 list \<Rightarrow> u64 list" where
  "div_loop rem b [] = []"
| "div_loop rem b (x # xs) =
     (let cur = push_bit 64 rem OR ucast x in ucast (cur div ucast b) # div_loop (cur mod ucast b) b xs)"

definition u512_div_u64 :: "u64 list \<Rightarrow> u64 \<Rightarrow> U256" where
  "u512_div_u64 a b = take 4 (rev (div_loop 0 b (rev a)))"

fun u256_add_one :: "U256 \<Rightarrow> U256" where
  "u256_add_one [] = []"
| "u256_add_one (x # xs) = (x + 1) # (if x + 1 = 0 then u256_add_one xs else xs)"

fun sub_loop :: "bool \<Rightarrow> u64 list \<Rightarrow> u64 list \<Rightarrow> u64 list" where
  "sub_loop borrow (x # xs) (y # ys) =
     (let v1 = x - y; b1 = x < y;
          c = (if borrow then 1 else 0);
          v2 = v1 - c; b2 = v1 < c
      in v2 # sub_loop (b1 \<or> b2) xs ys)"
| "sub_loop borrow _ _ = []"

definition u256_sub :: "U256 \<Rightarrow> U256 \<Rightarrow> U256" where
  "u256_sub a b = sub_loop False a b"

text \<open>
  \<open>rem = rem << 1\<close> over the limbs. The loop runs from the top limb down and reads limbs it has
  not yet changed, so every carry is the old neighbour's top bit.
\<close>

fun shl_loop :: "u64 \<Rightarrow> u64 list \<Rightarrow> u64 list" where
  "shl_loop carry [] = []"
| "shl_loop carry (x # xs) = (push_bit 1 x OR carry) # shl_loop (drop_bit 63 x) xs"

section \<open>Work\<close>

definition work_step :: "U256 \<Rightarrow> U256 \<Rightarrow> nat \<Rightarrow> u128 \<times> U256 \<Rightarrow> u128 \<times> U256" where
  "work_step numerator denominator i st =
     (let (quotient, rem) = st;
          top = drop_bit 63 (rem ! 3);
          rem = shl_loop 0 rem;
          rem = rem[0 := rem ! 0 OR (drop_bit (i mod 64) (numerator ! (i div 64)) AND 1)]
      in if top = 1 \<or> u256_ge rem denominator then
           (if i < 128 then quotient OR push_bit i 1 else quotient, u256_sub rem denominator)
         else (quotient, rem))"

fun work_loop :: "U256 \<Rightarrow> U256 \<Rightarrow> nat \<Rightarrow> u128 \<times> U256 \<Rightarrow> u128 \<times> U256" where
  "work_loop numerator denominator 0 st = st"
| "work_loop numerator denominator (Suc i) st =
     work_loop numerator denominator i (work_step numerator denominator i st)"

definition work_from_target :: "U256 \<Rightarrow> u128" where
  "work_from_target target =
     (let denominator = u256_add_one target;
          numerator = map (\<lambda>l. NOT l) target
      in fst (work_loop numerator denominator 256 (0, [0, 0, 0, 0])) + 1)"

section \<open>Difficulty rules\<close>

definition median_time_past :: "block_header list \<Rightarrow> nat \<Rightarrow> u32" where
  "median_time_past headers height =
     (let start = height - 11;
          times = sort (map bh_time (slice start height headers))
      in times ! (length times div 2))"

text \<open>
  \<open>None\<close> is a panic: the unreachable minimum-difficulty branch, or bits without a target in a
  header that validation has not seen. Times are widened to signed integers.
\<close>

definition next_work_required :: "params \<Rightarrow> block_header list \<Rightarrow> nat \<Rightarrow> u32 option" where
  "next_work_required pa headers height =
     (let prev = headers ! (height - 1) in
      if pa_no_retargeting pa then Some (bh_bits prev)
      else if height mod RETARGET_INTERVAL \<noteq> 0 then
        (if pa_allow_min_difficulty pa then None else Some (bh_bits prev))
      else
        (let first = headers ! (height - RETARGET_INTERVAL);
             timespan = int (unat (pa_pow_target_timespan pa));
             actual = int (unat (bh_time prev)) - int (unat (bh_time first));
             actual = max (timespan div 4) (min (timespan * 4) actual)
         in case from_compact (bh_bits prev) of
              None \<Rightarrow> None
            | Some prev_target \<Rightarrow>
                (let product = u256_mul_u64 prev_target (word_of_int actual);
                     new_target = u512_div_u64 product (pa_pow_target_timespan pa);
                     clamped = (if u256_ge new_target (pa_pow_limit pa) then pa_pow_limit pa else new_target)
                 in Some (to_compact clamped))))"

fun last_real_bits :: "params \<Rightarrow> block_header list \<Rightarrow> nat \<Rightarrow> u32" where
  "last_real_bits pa headers 0 = bh_bits (headers ! 0)"
| "last_real_bits pa headers (Suc h) =
     (if Suc h mod RETARGET_INTERVAL \<noteq> 0 \<and> bh_bits (headers ! Suc h) = pa_pow_limit_bits pa
      then last_real_bits pa headers h else bh_bits (headers ! Suc h))"

definition required_bits :: "params \<Rightarrow> block_header list \<Rightarrow> nat \<Rightarrow> block_header \<Rightarrow> u32 option" where
  "required_bits pa headers height header =
     (let prev = headers ! (height - 1) in
      if pa_no_retargeting pa then Some (bh_bits prev)
      else if height mod RETARGET_INTERVAL \<noteq> 0 then
        (if pa_allow_min_difficulty pa then
           (if bh_time header > bh_time prev + 2 * ucast (pa_pow_target_spacing pa) then Some (pa_pow_limit_bits pa)
            else Some (last_real_bits pa headers (height - 1)))
         else Some (bh_bits prev))
      else next_work_required pa headers height)"

text \<open>The outer \<open>None\<close> is the panic of \<open>required_bits\<close>.\<close>

definition validate_header ::
  "sha256_fn \<Rightarrow> params \<Rightarrow> block_header list \<Rightarrow> nat \<Rightarrow> block_header \<Rightarrow> (cbf_error + u128) option" where
  "validate_header sha pa headers height header =
     (if bh_prev_block header \<noteq> header_hash sha (headers ! (height - 1)) then Some (Inl Consensus)
      else case required_bits pa headers height header of
        None \<Rightarrow> None
      | Some required \<Rightarrow> Some
          (if bh_bits header \<noteq> required then Inl Consensus
           else and_then (ok_or Consensus (from_compact (bh_bits header))) (\<lambda>target.
             if u256_is_zero target \<or> u256_ge target (pa_pow_limit pa) \<and> target \<noteq> pa_pow_limit pa then Inl Consensus
             else if \<not> u256_ge target (u256_from_hash (header_hash sha header)) then Inl Consensus
             else if bh_time header \<le> median_time_past headers height then Inl Consensus
             else Inr (work_from_target target))))"

end
