(* ===== verification/Index_Text.thy ===== *)
theory Index_Text
  imports Cbf_Network
begin

text \<open>
  The text format of the index files: the string functions of the standard library the parsers use, decimal numbers,
  network names (\<open>crates/opencsv-bitcoin/src/chain.rs\<close>), and the lemmas that lines of tokens read back as they were written.
\<close>

section \<open>Text\<close>

text \<open>\<open>str::lines\<close>, \<open>str::split_whitespace\<close>, \<open>strip_prefix\<close>, \<open>rsplit_once\<close> and \<open>parse\<close> of the standard library.\<close>

fun split_newlines :: "ustring \<Rightarrow> ustring list" where
  "split_newlines [] = [[]]"
| "split_newlines (c # cs) =
     (if c = 10 then [] # split_newlines cs
      else (case split_newlines cs of l # ls \<Rightarrow> (c # l) # ls | [] \<Rightarrow> [[c]]))"

definition strip_cr :: "ustring \<Rightarrow> ustring" where
  "strip_cr l = (if l \<noteq> [] \<and> last l = 13 then butlast l else l)"

definition str_lines :: "ustring \<Rightarrow> ustring list" where
  "str_lines s =
     (let ls = split_newlines s; ended = (if last ls = [] then butlast ls else ls) in
      map (\<lambda>(i, l). if i = length ls - 1 then l else strip_cr l) (enumerate 0 ended))"

fun split_whitespace :: "ustring \<Rightarrow> ustring list" where
  "split_whitespace [] = []"
| "split_whitespace (c # cs) =
     (if is_whitespace c then split_whitespace cs
      else (case cs of
         [] \<Rightarrow> [[c]]
       | d # _ \<Rightarrow> if is_whitespace d then [c] # split_whitespace cs
                 else (case split_whitespace cs of w # ws \<Rightarrow> (c # w) # ws | [] \<Rightarrow> [[c]])))"

definition strip_prefix :: "ustring \<Rightarrow> ustring \<Rightarrow> ustring option" where
  "strip_prefix p s = (if starts_with p s then Some (drop (length p) s) else None)"

definition rsplit_newline :: "ustring \<Rightarrow> (ustring \<times> ustring) option" where
  "rsplit_newline s =
     (if 10 \<notin> set s then None
      else (let tail = rev (takeWhile (\<lambda>c. c \<noteq> 10) (rev s)) in Some (take (length s - length tail - 1) s, tail)))"

fun parse_digits :: "nat \<Rightarrow> nat \<Rightarrow> ustring \<Rightarrow> nat option" where
  "parse_digits bound acc [] = Some acc"
| "parse_digits bound acc (c # cs) =
     (if 48 \<le> c \<and> c \<le> 57 \<and> 10 * acc + (c - 48) \<le> bound then parse_digits bound (10 * acc + (c - 48)) cs else None)"

definition parse_uint :: "nat \<Rightarrow> ustring \<Rightarrow> nat option" where
  "parse_uint bound s =
     (case s of
        [] \<Rightarrow> None
      | c # cs \<Rightarrow> if c = 43 then (if cs = [] then None else parse_digits bound 0 cs) else parse_digits bound 0 s)"

definition decimal :: "nat \<Rightarrow> ustring" where "decimal n = lit (show_nat n)"

section \<open>Networks\<close>

definition network_name :: "network \<Rightarrow> ustring" where
  "network_name n = (case n of Mainnet \<Rightarrow> lit ''mainnet'' | Signet \<Rightarrow> lit ''signet'' | Regtest \<Rightarrow> lit ''regtest'')"

definition network_parse :: "ustring \<Rightarrow> network option" where
  "network_parse s =
     (if s = lit ''mainnet'' \<or> s = lit ''main'' then Some Mainnet
      else if s = lit ''signet'' then Some Signet
      else if s = lit ''regtest'' then Some Regtest else None)"

section \<open>Tokens and lines\<close>

definition token :: "ustring \<Rightarrow> bool" where
  "token t \<longleftrightarrow> t \<noteq> [] \<and> list_all (\<lambda>c. c < 128 \<and> \<not> is_whitespace c) t"

fun join :: "ustring list \<Rightarrow> ustring" where
  "join [] = []"
| "join [t] = t"
| "join (t # u # ts) = t @ [32] @ join (u # ts)"

lemma space [simp]: "is_whitespace 32" "is_whitespace 10" "is_whitespace 13" by (simp_all add: is_whitespace_def)

lemma split_token: "token t \<Longrightarrow> split_whitespace t = [t]"
proof (induction t)
  case (Cons c t)
  then show ?case by (cases t) (auto simp: token_def)
qed (simp add: token_def)

lemma split_token_space: "token t \<Longrightarrow> split_whitespace (t @ 32 # s) = t # split_whitespace s"
proof (induction t)
  case (Cons c t)
  then show ?case by (cases t) (auto simp: token_def)
qed (simp add: token_def)

lemma split_join: "list_all token ts \<Longrightarrow> split_whitespace (join ts) = ts"
  by (induction ts rule: join.induct) (auto simp: split_token split_token_space)

lemma token_chars: "token t \<Longrightarrow> c \<in> set t \<Longrightarrow> c < 128 \<and> c \<noteq> 10 \<and> c \<noteq> 13"
  unfolding token_def list_all_iff by (metis space(2,3))

lemma join_chars: "list_all token ts \<Longrightarrow> c \<in> set (join ts) \<Longrightarrow> c < 128 \<and> c \<noteq> 10 \<and> c \<noteq> 13"
proof -
  assume ts: "list_all token ts" and c: "c \<in> set (join ts)"
  have "set (join ts) \<subseteq> insert 32 (\<Union> (set ` set ts))" by (induction ts rule: join.induct) auto
  with c consider "c = 32" | t where "t \<in> set ts" "c \<in> set t" by blast
  then show ?thesis using ts token_chars by cases (auto simp: list_all_iff)
qed

definition unlines :: "ustring list \<Rightarrow> ustring" where
  "unlines ls = concat (map (\<lambda>l. l @ [10]) ls)"

definition plain_line :: "ustring \<Rightarrow> bool" where
  "plain_line l \<longleftrightarrow> 10 \<notin> set l \<and> 13 \<notin> set l"

lemma split_newlines_line: "10 \<notin> set l \<Longrightarrow> split_newlines (l @ 10 # s) = l # split_newlines s"
  by (induction l) auto

lemma split_unlines: "list_all plain_line ls \<Longrightarrow> split_newlines (unlines ls) = ls @ [[]]"
  by (induction ls) (simp_all add: unlines_def plain_line_def split_newlines_line)

lemma lines_unlines: "list_all plain_line ls \<Longrightarrow> str_lines (unlines ls) = ls"
proof -
  assume p: "list_all plain_line ls"
  have "map (\<lambda>(i, l). if i = k then l else strip_cr l) (enumerate n ls) = ls" if "list_all plain_line ls" for k n
    using that by (induction ls arbitrary: n) (auto simp: plain_line_def strip_cr_def dest: last_in_set)
  then show ?thesis using p by (simp add: str_lines_def split_unlines Let_def)
qed

lemma rsplit_line: "10 \<notin> set tail \<Longrightarrow> rsplit_newline (xs @ 10 # tail) = Some (xs, tail)"
  by (simp add: rsplit_newline_def takeWhile_append Let_def)

lemma plain_join: "list_all token ts \<Longrightarrow> plain_line (join ts)"
  unfolding plain_line_def using join_chars by blast

section \<open>Numbers\<close>

lemma decimal_rec: "decimal n = (if n < 10 then [48 + n] else decimal (n div 10) @ [48 + n mod 10])"
  by (simp add: decimal_def lit_def show_nat.simps [of n])

lemma decimal_chars: "c \<in> set (decimal n) \<Longrightarrow> 48 \<le> c \<and> c \<le> 57"
proof (induction n rule: less_induct)
  case (less n)
  have "c = 48 + n \<and> n < 10 \<or> c = 48 + n mod 10 \<or> 10 \<le> n \<and> c \<in> set (decimal (n div 10))"
    using less.prems decimal_rec [of n] by (auto split: if_splits)
  moreover have "n mod 10 < 10" by simp
  ultimately show ?case using less.IH [of "n div 10"] by auto
qed

lemma decimal_nonempty: "decimal n \<noteq> []"
  by (subst decimal_rec) simp

lemma token_decimal [simp]: "token (decimal n)"
  by (auto simp: token_def decimal_nonempty list_all_iff is_whitespace_def dest!: decimal_chars)

lemma parse_digits_append:
  "parse_digits bound acc (xs @ [c]) = (case parse_digits bound acc xs of None \<Rightarrow> None
     | Some v \<Rightarrow> if 48 \<le> c \<and> c \<le> 57 \<and> 10 * v + (c - 48) \<le> bound then Some (10 * v + (c - 48)) else None)"
  by (induction xs arbitrary: acc) auto

lemma parse_digits_decimal: "n \<le> bound \<Longrightarrow> parse_digits bound 0 (decimal n) = Some n"
proof (induction n rule: less_induct)
  case (less n)
  show ?case
  proof (cases "n < 10")
    case True
    with less.prems show ?thesis by (subst decimal_rec) simp
  next
    case False
    then have "parse_digits bound 0 (decimal (n div 10)) = Some (n div 10)" using less by simp
    then show ?thesis using False less.prems by (subst decimal_rec) (simp add: parse_digits_append)
  qed
qed

lemma parse_decimal [simp]: "n \<le> bound \<Longrightarrow> parse_uint bound (decimal n) = Some n"
proof -
  assume "n \<le> bound"
  moreover have "hd (decimal n) \<noteq> 43" using decimal_chars [of "hd (decimal n)" n] decimal_nonempty by auto
  ultimately show ?thesis using parse_digits_decimal [of n bound] decimal_nonempty [of n]
    by (cases "decimal n") (simp_all add: parse_uint_def del: parse_digits.simps)
qed

section \<open>Words of a line\<close>

lemma token_lit: "t \<noteq> [] \<Longrightarrow> list_all (\<lambda>c. of_char c < (128 :: nat) \<and> \<not> is_whitespace (of_char c)) t \<Longrightarrow> token (lit t)"
  by (simp add: token_def lit_def list_all_iff)

lemma token_hex [simp]: "bs \<noteq> [] \<Longrightarrow> token (to_hex bs)"
  using to_hex_ascii [of bs] length_to_hex [of bs] by (auto simp: token_def)

lemma token_display [simp]: "length h = 32 \<Longrightarrow> token (hash_to_display h)"
  unfolding hash_to_display_def by (rule token_hex) auto

lemma token_network [simp]: "token (network_name n)"
  by (simp add: token_lit is_whitespace_def network_name_def split: network.split)

lemma lit_append: "lit (a @ b) = lit a @ lit b"
  by (simp add: lit_def)

lemma lit_eq [simp]: "lit a = lit b \<longleftrightarrow> a = b"
  by (auto simp: lit_def inj_map_eq_map inj_def of_char_eq_iff)

lemma unat_le_max [simp]: "unat (w :: u32) \<le> U32_MAX" "unat (v :: u64) \<le> U64_MAX"
proof -
  have "unat w < 2 ^ 32" "unat v < 2 ^ 64" using unsigned_less [of w] unsigned_less [of v] by simp_all
  then show "unat w \<le> U32_MAX" "unat v \<le> U64_MAX" by (simp_all add: U32_MAX_def U64_MAX_def)
qed

lemma network_name_parse: "network_parse (network_name n) = Some n"
  by (cases n) (simp_all add: network_parse_def network_name_def)

end
