(* ===== verification/Bech32.thy ===== *)
theory Bech32
  imports Batch_Wire Index_Text
begin

text \<open>
  The BIP173 encoder, \<open>crates/opencsv-bitcoin/src/bech32.rs\<close>, and the marker address of \<open>chain.rs\<close>. The decoder
  at the end is the reference the encoder is checked against: it is written from the format and shares only the checksum
  polynomial with the code.
\<close>

unbundle bit_operations_syntax

section \<open>The encoder\<close>

definition CHARSET :: ustring where "CHARSET = lit ''qpzry9x8gf2tvdw0s3jn54khce6mua7l''"

definition GEN :: "u32 list" where "GEN = [0x3b6a57b2, 0x26508e6d, 0x1ea119fa, 0x3d4233dd, 0x2a1462b3]"

definition polymod_step :: "u32 \<Rightarrow> u8 \<Rightarrow> u32" where
  "polymod_step chk v =
     (let high = drop_bit 25 chk in
      foldl (\<lambda>c (i, g). if drop_bit i high AND 1 = 1 then c XOR g else c) (push_bit 5 (chk AND 0x1ffffff) XOR ucast v) (enumerate 0 GEN))"

definition polymod :: "u8 list \<Rightarrow> u32" where
  "polymod vs = foldl polymod_step 1 vs"

definition hrp_expand :: "ustring \<Rightarrow> u8 list" where
  "hrp_expand hrp = map (\<lambda>b. drop_bit 5 b) (as_bytes hrp) @ [0] @ map (\<lambda>b. b AND 31) (as_bytes hrp)"

function drain_groups :: "u16 \<Rightarrow> nat \<Rightarrow> u8 list \<Rightarrow> u8 list \<times> nat" where
  "drain_groups acc bits out =
     (if bits \<ge> 5 then drain_groups acc (bits - 5) (out @ [ucast (drop_bit (bits - 5) acc AND 31)]) else (out, bits))"
  by pat_completeness auto
termination
  by (relation "measure (\<lambda>(acc, bits, out). bits)") auto

declare drain_groups.simps [simp del]

fun group_loop :: "u16 \<Rightarrow> nat \<Rightarrow> u8 list \<Rightarrow> bytes \<Rightarrow> u16 \<times> nat \<times> u8 list" where
  "group_loop acc bits out [] = (acc, bits, out)"
| "group_loop acc bits out (b # bs) =
     (let acc = push_bit 8 acc OR ucast b; (out, bits) = drain_groups acc (bits + 8) out in group_loop acc bits out bs)"

definition to_5_bit_groups :: "bytes \<Rightarrow> u8 list" where
  "to_5_bit_groups bs =
     (case group_loop 0 0 [] bs of
        (acc, bits, out) \<Rightarrow> if bits > 0 then out @ [ucast (push_bit (5 - bits) acc AND 31)] else out)"

text \<open>\<open>None\<close> is the failed assertion on the length of the program.\<close>

definition encode_v0 :: "ustring \<Rightarrow> bytes \<Rightarrow> ustring option" where
  "encode_v0 hrp program =
     (if \<not> (2 \<le> length program \<and> length program \<le> 40) then None
      else
        (let data = 0 # to_5_bit_groups program;
             checksum = polymod (hrp_expand hrp @ data @ replicate 6 0) XOR 1
         in Some (hrp @ lit ''1'' @ map (\<lambda>v. CHARSET ! unat v) data @
              map (\<lambda>i. CHARSET ! unat (drop_bit (5 * (5 - i)) checksum AND 31)) [0..<6])))"

definition network_hrp :: "network \<Rightarrow> ustring" where
  "network_hrp network = (case network of Mainnet \<Rightarrow> lit ''bc'' | Signet \<Rightarrow> lit ''tb'' | Regtest \<Rightarrow> lit ''bcrt'')"

definition marker_address :: "network \<Rightarrow> ustring option" where
  "marker_address network = encode_v0 (network_hrp network) (drop 2 MARKER_SPK)"

section \<open>The reference decoder\<close>

definition be_bits :: "nat \<Rightarrow> 'a::len word \<Rightarrow> bool list" where
  "be_bits n w = rev (map (bit w) [0..<n])"

definition of_be_bits :: "bool list \<Rightarrow> u8" where
  "of_be_bits bs = horner_sum of_bool 2 (rev bs)"

text \<open>Bits regrouped into bytes; fewer than five padding bits, all zero.\<close>

definition regroup :: "u8 list \<Rightarrow> bytes option" where
  "regroup vs =
     (let bits = concat (map (be_bits 5) vs); n = length bits div 8 * 8 in
      if length bits - n < 5 \<and> \<not> list_ex id (drop n bits) then Some (map of_be_bits (chunks 8 (take n bits))) else None)"

definition charset_value :: "nat \<Rightarrow> u8 option" where
  "charset_value c = map_option word_of_nat (iter_position (\<lambda>x. x = c) CHARSET)"

definition bech32_decode :: "ustring \<Rightarrow> (ustring \<times> nat \<times> bytes) option" where
  "bech32_decode s =
     (let tail = rev (takeWhile (\<lambda>c. c \<noteq> 49) (rev s)); hrp = take (length s - length tail - 1) s;
          vs = map charset_value tail; vals = map the vs; data = take (length vals - 6) vals
      in if 49 \<notin> set s \<or> None \<in> set vs \<or> length vals < 7 \<or> polymod (hrp_expand hrp @ vals) \<noteq> 1 then None
         else map_option (\<lambda>program. (hrp, unat (hd data), program)) (regroup (tl data)))"

section \<open>The checksum\<close>

definition gen_xor :: "u32 \<Rightarrow> u32" where
  "gen_xor high = foldl (\<lambda>c (i, g). if drop_bit i high AND 1 = 1 then c XOR g else c) 0 (enumerate 0 GEN)"

lemma foldl_xor:
  fixes a :: "'a::len word"
  shows "foldl (\<lambda>c (i, g). if P i then c XOR g else c) a xs = a XOR foldl (\<lambda>c (i, g). if P i then c XOR g else c) 0 xs"
proof (induction xs rule: rev_induct)
  case (snoc x xs)
  then show ?case by (cases x) (simp add: xor.assoc)
qed simp

lemma polymod_step_alt: "polymod_step c v = push_bit 5 (c AND 0x1ffffff) XOR ucast v XOR gen_xor (drop_bit 25 c)"
  unfolding polymod_step_def gen_xor_def Let_def by (subst foldl_xor) (simp only: xor.assoc)

text \<open>A word of at most \<open>k\<close> bits.\<close>

definition bits_fit :: "nat \<Rightarrow> 'a::len word \<Rightarrow> bool" where
  "bits_fit k w \<longleftrightarrow> (\<forall>i. bit w i \<longrightarrow> i < k)"

lemma bits_fit_not_bit: "bits_fit k w \<Longrightarrow> k \<le> i \<Longrightarrow> \<not> bit w i"
  by (auto simp: bits_fit_def)

lemma bits_fit_mono: "bits_fit k w \<Longrightarrow> k \<le> n \<Longrightarrow> bits_fit n w"
  by (auto simp: bits_fit_def)

lemma bits_fit_and_31 [simp]: "bits_fit 5 (w AND 31)"
proof -
  have "(31 :: 'a word) = mask 5" by (simp add: mask_eq_exp_minus_1)
  then show ?thesis by (simp only: bits_fit_def bit_and_iff bit_mask_iff) simp
qed

lemma bits_fit_ucast: "bits_fit k w \<Longrightarrow> bits_fit k (ucast w)"
  by (auto simp: bits_fit_def bit_simps)

lemma bits_fit_unat: "bits_fit k w \<Longrightarrow> unat w < 2 ^ k"
proof -
  assume "bits_fit k w"
  then have "take_bit k w = w" by (intro bit_eqI) (auto simp: bit_simps bits_fit_def)
  then have "take_bit k (unat w) = unat w" by (metis unsigned_take_bit_eq)
  then show ?thesis by (simp add: take_bit_nat_eq_self_iff)
qed

lemma bits_fit_iff: "bits_fit k w \<longleftrightarrow> unat w < 2 ^ k"
proof
  assume "unat w < 2 ^ k"
  then have "take_bit k (unat w) = unat w" by (simp add: take_bit_nat_eq_self_iff)
  then have "take_bit k w = w" by (metis unsigned_take_bit_eq word_unat_eq_iff)
  then show "bits_fit k w" by (metis bit_take_bit_iff bits_fit_def)
qed (rule bits_fit_unat)

lemma mask_25: "(0x1ffffff :: u32) = mask 25"
  by (simp add: mask_eq_exp_minus_1)

lemma polymod_step_xor:
  assumes d: "bits_fit 25 d"
  shows "polymod_step (c XOR d) v = polymod_step c 0 XOR (push_bit 5 d XOR ucast v)"
proof -
  note nb = bits_fit_not_bit [OF d]
  have "drop_bit 25 (c XOR d) = drop_bit 25 c" by (rule bit_eqI) (simp add: bit_simps nb)
  moreover have "push_bit 5 ((c XOR d) AND 0x1ffffff) = push_bit 5 (c AND 0x1ffffff) XOR push_bit 5 d"
    using d by (intro bit_eqI) (auto simp: mask_25 bit_simps bits_fit_def)
  ultimately show ?thesis by (simp add: polymod_step_alt ac_simps)
qed

fun group_sum :: "u32 \<Rightarrow> u8 list \<Rightarrow> u32" where
  "group_sum d [] = d"
| "group_sum d (v # vs) = group_sum (push_bit 5 d XOR ucast v) vs"

text \<open>Feeding small values instead of zeros changes the register by their concatenation, while nothing is shifted out.\<close>

lemma group_step_fits:
  fixes d :: u32
  assumes "bits_fit (5 * k) d" "bits_fit 5 v"
  shows "bits_fit (5 * Suc k) (push_bit 5 d XOR ucast v)"
  using assms unfolding bits_fit_def by (fastforce simp: bit_simps)

lemma feed_xor:
  assumes "bits_fit (5 * k) d" "k + length vs \<le> 6" "list_all (bits_fit 5) vs"
  shows "foldl polymod_step (c XOR d) vs = foldl polymod_step c (replicate (length vs) 0) XOR group_sum d vs"
  using assms
proof (induction vs arbitrary: c d k)
  case (Cons v vs)
  then have "bits_fit 25 d" by (auto elim!: bits_fit_mono)
  moreover have "bits_fit (5 * Suc k) (push_bit 5 d XOR ucast v)" using Cons.prems by (intro group_step_fits) auto
  ultimately show ?case using Cons.IH [of "Suc k" "push_bit 5 d XOR ucast v" "polymod_step c 0"] Cons.prems
    by (simp add: polymod_step_xor)
qed simp

lemma polymod_fits: "vs \<noteq> [] \<Longrightarrow> bits_fit 30 (polymod vs)"
proof (induction vs rule: rev_induct)
  case (snoc v vs)
  have v: "bits_fit 30 (ucast v :: u32)" using unat_bounds(1) [of v] by (intro bits_fit_ucast) (simp add: bits_fit_iff)
  have g: "bits_fit 30 (gen_xor t)" for t
  proof -
    have x: "bits_fit 30 (a XOR b)" if "bits_fit 30 a" "bits_fit 30 b" for a b :: u32 using that by (auto simp: bits_fit_def bit_simps)
    have "list_all (bits_fit 30) GEN" by (simp add: GEN_def bits_fit_iff)
    moreover have "list_all (bits_fit 30) gs \<Longrightarrow> bits_fit 30 a \<Longrightarrow> bits_fit 30 (foldl (\<lambda>c (i, g). if P i then c XOR g else c) a (enumerate n gs))" for gs and a :: u32 and P n
    proof (induction gs arbitrary: a n)
      case (Cons g gs)
      then show ?case using Cons.IH [of a "Suc n"] Cons.IH [of "a XOR g" "Suc n"] x [of a g] by simp
    qed simp
    ultimately show ?thesis unfolding gen_xor_def by (simp add: bits_fit_iff)
  qed
  have x: "bits_fit 30 (a XOR b)" if "bits_fit 30 a" "bits_fit 30 b" for a b :: u32 using that by (auto simp: bits_fit_def bit_simps)
  have "bits_fit 30 (push_bit 5 (c AND 0x1ffffff))" for c :: u32 by (auto simp: mask_25 bits_fit_def bit_simps)
  then have "bits_fit 30 (polymod_step c v)" for c by (simp add: polymod_step_alt x v g)
  then show ?case by (simp add: polymod_def)
qed simp

definition digit :: "u32 \<Rightarrow> nat \<Rightarrow> u8" where
  "digit m k = ucast (drop_bit (5 * k) m AND 31)"

lemma digit_step: "push_bit 5 (drop_bit (5 * Suc k) m) XOR ucast (digit m k) = drop_bit (5 * k) (m :: u32)"
proof -
  have m5: "(31 :: u32) = mask 5" by (simp add: mask_eq_exp_minus_1)
  have "ucast (digit m k) = drop_bit (5 * k) m AND mask 5" unfolding digit_def m5 by (intro bit_eqI) (auto simp: bit_simps)
  then show ?thesis by (intro bit_eqI) (auto simp: bit_simps dest: bit_imp_le_length)
qed

lemma group_sum_digits: "group_sum (drop_bit (5 * k) m) (map (digit m) (rev [0..<k])) = m"
  by (induction k) (simp_all add: digit_step del: mult_Suc_right)

lemma digits_six: "map (\<lambda>i. ucast (drop_bit (5 * (5 - i)) m AND 31)) [0..<6] = map (digit m) (rev [0..<6])"
  by (simp add: digit_def upt_rec)

text \<open>The six checksum values complete the polynomial to one.\<close>

lemma checksum_closes:
  assumes "xs \<noteq> []"
  defines "m \<equiv> polymod (xs @ replicate 6 0) XOR 1"
  shows "polymod (xs @ map (\<lambda>i. ucast (drop_bit (5 * (5 - i)) m AND 31)) [0..<6]) = 1"
proof -
  let ?cs = "map (\<lambda>i. ucast (drop_bit (5 * (5 - i)) m AND 31) :: u8) [0..<6]"
  have m: "bits_fit 30 m" using polymod_fits [of "xs @ replicate 6 0"] by (auto simp: m_def bits_fit_def bit_simps)
  then have m0: "drop_bit 30 m = 0" by (intro bit_eqI) (auto simp: bits_fit_def bit_simps)
  have cs: "list_all (bits_fit 5) ?cs" by (simp add: list_all_iff bits_fit_ucast)
  have "foldl polymod_step (polymod xs XOR 0) ?cs = foldl polymod_step (polymod xs) (replicate (length ?cs) 0) XOR group_sum 0 ?cs"
    by (rule feed_xor [of 0]) (use cs in \<open>simp_all add: bits_fit_def\<close>)
  then have "polymod (xs @ ?cs) = polymod (xs @ replicate 6 0) XOR m"
    using group_sum_digits [of 6 m] m0 by (simp add: polymod_def digits_six)
  then show ?thesis by (simp add: m_def flip: xor.assoc)
qed

section \<open>The groups\<close>

lemma length_be_bits [simp]: "length (be_bits n w) = n"
  by (simp add: be_bits_def)

lemma be_bits_append: "be_bits (a + b) w = be_bits a (drop_bit b w) @ be_bits b w"
proof -
  have "[0..<a + b] = [0..<b] @ map (\<lambda>i. i + b) [0..<a]"
    using upt_add_eq_append [of 0 b a] by (simp add: add.commute map_add_upt)
  then have "map (bit w) [0..<a + b] = map (bit w) [0..<b] @ map (bit (drop_bit b w)) [0..<a]"
    by (simp add: bit_drop_bit_eq comp_def add.commute)
  then show ?thesis by (simp add: be_bits_def)
qed

lemma be_bits_cong: "(\<And>i. i < n \<Longrightarrow> bit v i = bit w i) \<Longrightarrow> be_bits n v = be_bits n w"
  by (simp add: be_bits_def)

lemma be_bits_group: "be_bits 5 (ucast (w AND 31) :: u8) = be_bits 5 (w :: u16)"
proof (rule be_bits_cong)
  fix i :: nat
  have m5: "(31 :: u16) = mask 5" by (simp add: mask_eq_exp_minus_1)
  assume "i < 5"
  then show "bit (ucast (w AND 31) :: u8) i = bit w i" unfolding m5 by (simp add: bit_simps)
qed

lemma be_bits_byte: "b + 8 \<le> 16 \<Longrightarrow> be_bits (b + 8) (push_bit 8 acc OR ucast v :: u16) = be_bits b acc @ be_bits 8 (v :: u8)"
proof -
  assume b: "b + 8 \<le> 16"
  have "be_bits b (drop_bit 8 (push_bit 8 acc OR ucast v :: u16)) = be_bits b acc"
    using b by (intro be_bits_cong) (auto simp: bit_simps dest: bit_imp_le_length)
  moreover have "be_bits 8 (push_bit 8 acc OR ucast v :: u16) = be_bits 8 v"
    by (rule be_bits_cong) (auto simp: bit_simps)
  ultimately show ?thesis by (simp add: be_bits_append)
qed

lemma be_bits_pad: "b \<le> 5 \<Longrightarrow> be_bits 5 (push_bit (5 - b) acc :: u16) = be_bits b acc @ replicate (5 - b) False"
proof -
  assume b: "b \<le> 5"
  have "be_bits (b + (5 - b)) (push_bit (5 - b) acc) = be_bits b (drop_bit (5 - b) (push_bit (5 - b) acc)) @ be_bits (5 - b) (push_bit (5 - b) acc)"
    by (rule be_bits_append)
  moreover have "be_bits b (drop_bit (5 - b) (push_bit (5 - b) acc)) = be_bits b acc"
    using b by (intro be_bits_cong) (auto simp: bit_simps)
  moreover have "be_bits (5 - b) (push_bit (5 - b) acc) = replicate (5 - b) False"
    by (auto simp: be_bits_def bit_simps list_eq_iff_nth_eq rev_nth)
  ultimately show ?thesis using b by simp
qed

lemma drain_groups_spec:
  assumes "drain_groups acc bits out = (out', bits')" "list_all (bits_fit 5) out"
  shows "concat (map (be_bits 5) out') @ be_bits bits' acc = concat (map (be_bits 5) out) @ be_bits bits acc \<and> bits' < 5 \<and>
    list_all (bits_fit 5) out'"
  using assms
proof (induction acc bits out rule: drain_groups.induct)
  case (1 acc bits out)
  show ?case
  proof (cases "bits \<ge> 5")
    case True
    then have "drain_groups acc (bits - 5) (out @ [ucast (drop_bit (bits - 5) acc AND 31)]) = (out', bits')"
      using 1(2) by (simp add: drain_groups.simps [of acc bits])
    from 1(1) [OF True this] show ?thesis using 1(3) True be_bits_append [of 5 "bits - 5" acc]
      by (simp add: be_bits_group bits_fit_ucast)
  next
    case False
    then show ?thesis using 1(2,3) by (simp add: drain_groups.simps)
  qed
qed

lemma group_loop_spec:
  assumes "group_loop acc bits out bs = (acc', bits', out')" "bits < 5" "list_all (bits_fit 5) out"
  shows "concat (map (be_bits 5) out') @ be_bits bits' acc' = concat (map (be_bits 5) out) @ be_bits bits acc @ concat (map (be_bits 8) bs) \<and>
    bits' < 5 \<and> list_all (bits_fit 5) out'"
  using assms
proof (induction bs arbitrary: acc bits out)
  case (Cons b bs)
  let ?acc = "push_bit 8 acc OR ucast b :: u16"
  obtain out1 bits1 where d: "drain_groups ?acc (bits + 8) out = (out1, bits1)" by (cases "drain_groups ?acc (bits + 8) out")
  from drain_groups_spec [OF d Cons.prems(3)] have s:
    "concat (map (be_bits 5) out1) @ be_bits bits1 ?acc = concat (map (be_bits 5) out) @ be_bits (bits + 8) ?acc"
    "bits1 < 5" "list_all (bits_fit 5) out1" by simp_all
  have "group_loop ?acc bits1 out1 bs = (acc', bits', out')" using Cons.prems(1) by (simp add: Let_def d)
  from Cons.IH [OF this s(2,3)] show ?case using s(1) Cons.prems(2) be_bits_byte [of bits acc b] by simp
qed simp

lemma groups_spec:
  "\<exists>pad < 5. concat (map (be_bits 5) (to_5_bit_groups bs)) = concat (map (be_bits 8) bs) @ replicate pad False \<and>
     list_all (bits_fit 5) (to_5_bit_groups bs)"
proof -
  obtain acc bits out where g: "group_loop 0 0 [] bs = (acc, bits, out)" by (metis prod_cases3)
  from group_loop_spec [OF this] have s: "concat (map (be_bits 5) out) @ be_bits bits acc = concat (map (be_bits 8) bs)"
    "bits < 5" "list_all (bits_fit 5) out" by (simp_all add: be_bits_def)
  show ?thesis
  proof (cases "bits = 0")
    case True
    then show ?thesis using s by (intro exI [of _ 0]) (simp add: to_5_bit_groups_def g be_bits_def)
  next
    case False
    then show ?thesis using s by (intro exI [of _ "5 - bits"])
      (simp add: to_5_bit_groups_def g be_bits_group be_bits_pad bits_fit_ucast flip: s(1))
  qed
qed

lemma of_be_bits_be_bits [simp]: "of_be_bits (be_bits 8 w) = w"
proof -
  have "of_be_bits (be_bits 8 w) = take_bit 8 w" by (simp only: of_be_bits_def be_bits_def rev_rev_ident horner_sum_bit_eq_take_bit)
  also have "\<dots> = w" by (intro bit_eqI) (auto simp: bit_simps)
  finally show ?thesis .
qed

lemma regroup_groups: "regroup (to_5_bit_groups bs) = Some bs"
proof -
  obtain pad where p: "pad < 5" "concat (map (be_bits 5) (to_5_bit_groups bs)) = concat (map (be_bits 8) bs) @ replicate pad False"
    using groups_spec [of bs] by blast
  have len: "length (concat (map (be_bits 8) bs)) = 8 * length bs" by (induction bs) auto
  have "(8 * length bs + pad) div 8 * 8 = 8 * length bs" using p(1) by simp
  moreover have "chunks 8 (concat (map (be_bits 8) bs)) = map (be_bits 8) bs"
    using chunks_concat [of 8 "map (be_bits 8) bs"] by (simp add: list_all_iff)
  ultimately show ?thesis using p(1) by (simp add: regroup_def Let_def p(2) len comp_def list_ex_iff)
qed

section \<open>The address\<close>

lemma charset_distinct: "distinct CHARSET" "length CHARSET = 32" "49 \<notin> set CHARSET"
  by code_simp+

lemma charset_value_nth: "k < 32 \<Longrightarrow> charset_value (CHARSET ! k) = Some (word_of_nat k)"
proof -
  assume k: "k < 32"
  have "iter_position (\<lambda>x. x = CHARSET ! k) CHARSET = Some k"
    using k charset_distinct by (auto simp: iter_position_Some nth_eq_iff_index_eq)
  then show ?thesis by (simp add: charset_value_def)
qed

lemma charset_values:
  "list_all (bits_fit 5) vs \<Longrightarrow> map charset_value (map (\<lambda>v. CHARSET ! unat v) vs) = map Some vs"
proof (induction vs)
  case (Cons v vs)
  then have "unat v < 32" using bits_fit_unat [of 5 v] by simp
  with Cons show ?case by (simp add: charset_value_nth)
qed simp

lemma charset_no_separator: "list_all (bits_fit 5) vs \<Longrightarrow> 49 \<notin> set (map (\<lambda>v. CHARSET ! unat v) vs)"
proof (induction vs)
  case (Cons v vs)
  then have "unat v < 32" using bits_fit_unat [of 5 v] by simp
  with Cons charset_distinct show ?case by (auto simp: in_set_conv_nth)
qed simp

lemma takeWhile_tail: "49 \<notin> set tail \<Longrightarrow> rev (takeWhile (\<lambda>c. c \<noteq> 49) (rev (hrp @ 49 # tail))) = tail" for hrp tail :: "nat list"
  by (subst rev_append, simp, subst takeWhile_append2) auto

text \<open>
  An address is a valid BIP173 encoding of exactly the program it was made from: for every prefix
  and every program of 2 to 40 bytes the encoder returns a string whose checksum closes to one and which the
  reference decoder reads back as that prefix, witness version 0 and that program.
\<close>

theorem bech32_roundtrip:
  assumes "2 \<le> length program" "length program \<le> 40"
  shows "\<exists>address. encode_v0 hrp program = Some address \<and> bech32_decode address = Some (hrp, 0, program)"
proof -
  let ?data = "0 # to_5_bit_groups program"
  define m where "m = polymod (hrp_expand hrp @ ?data @ replicate 6 0) XOR 1"
  define cs where "cs = map (\<lambda>i. ucast (drop_bit (5 * (5 - i)) m AND 31) :: u8) [0..<6]"
  have "list_all (bits_fit 5) cs" by (simp add: cs_def list_all_iff bits_fit_ucast)
  then have fit: "list_all (bits_fit 5) (?data @ cs)" using groups_spec [of program] by (auto simp: bits_fit_def [of 5 0])
  have sum: "polymod (hrp_expand hrp @ ?data @ cs) = 1"
    using checksum_closes [of "hrp_expand hrp @ ?data"] unfolding cs_def m_def by simp
  let ?tail = "map (\<lambda>v. CHARSET ! unat v) (?data @ cs)"
  have u: "unat (ucast (x AND 31) :: u8) = unat (x AND 31)" for x :: u32
    using bits_fit_unat [of 5 "x AND 31"] by (simp add: unsigned_ucast_eq take_bit_nat_eq_self)
  have enc: "encode_v0 hrp program = Some (hrp @ 49 # ?tail)"
    using assms by (simp add: encode_v0_def Let_def cs_def m_def u lit_def comp_def)
  have len: "length cs = 6" by (simp add: cs_def)
  have vals: "map charset_value ?tail = map Some (?data @ cs)" by (rule charset_values [OF fit])
  have tail: "rev (takeWhile (\<lambda>c. c \<noteq> 49) (rev (hrp @ 49 # ?tail))) = ?tail" by (rule takeWhile_tail [OF charset_no_separator [OF fit]])
  have "bech32_decode (hrp @ 49 # ?tail) = Some (hrp, 0, program)"
    unfolding bech32_decode_def Let_def tail vals using sum len by (simp add: comp_def regroup_groups)
  with enc show ?thesis by blast
qed

theorem bech32_roundtrip_witness:
  "\<exists>address. marker_address Mainnet = Some address \<and> bech32_decode address = Some (lit ''bc'', 0, drop 2 MARKER_SPK)"
  using bech32_roundtrip [of "drop 2 MARKER_SPK" "lit ''bc''"] by (simp add: marker_address_def network_hrp_def MARKER_SPK_def)

end
