(* ===== verification/Cbf_Work.thy ===== *)
theory Cbf_Work
  imports Cbf_Network
begin

text \<open>
  The limb arithmetic of header validation computes on 256-bit numbers: comparison, increment,
  subtraction, shifting, multiplication and division agree with the natural numbers, and the work of a
  target is two to the 256 divided by the target plus one.
\<close>

unbundle bit_operations_syntax

section \<open>The value of limbs\<close>

fun lval :: "u64 list \<Rightarrow> nat" where
  "lval [] = 0"
| "lval (x # xs) = unat x + 2 ^ 64 * lval xs"

lemma lval_append: "lval (xs @ ys) = lval xs + 2 ^ (64 * length xs) * lval ys"
  by (induction xs) (simp_all add: power_add algebra_simps)

lemma lval_bound: "lval xs < 2 ^ (64 * length xs)"
proof (induction xs)
  case (Cons x xs)
  have "unat x < 2 ^ 64" by (rule unat_bounds)
  moreover have "lval xs + 1 \<le> 2 ^ (64 * length xs)" using Cons by simp
  then have "2 ^ 64 * (lval xs + 1) \<le> 2 ^ 64 * 2 ^ (64 * length xs)" by (rule mult_le_mono2)
  ultimately show ?case by (simp add: power_add)
qed simp

lemma lval_take_Suc: "i < length a \<Longrightarrow> lval (take (Suc i) a) = lval (take i a) + 2 ^ (64 * i) * unat (a ! i)"
  by (simp add: take_Suc_conv_app_nth lval_append)

lemma lval_inj: "length a = length b \<Longrightarrow> lval a = lval b \<Longrightarrow> a = b"
proof (induction a b rule: list_induct2)
  case (Cons x xs y ys)
  have b: "unat x < 2 ^ 64" "unat y < 2 ^ 64" by (rule unat_bounds)+
  from Cons.prems have "(unat x + 2 ^ 64 * lval xs) mod 2 ^ 64 = (unat y + 2 ^ 64 * lval ys) mod 2 ^ 64" by simp
  then have "unat x = unat y" using b by simp
  with Cons show ?case by (simp add: word_unat_eq_iff)
qed simp

section \<open>Comparison, increment, subtraction, shift\<close>

lemma high_limb_decides:
  fixes x y p q B :: nat
  assumes "p < B" "q < B" "x < y"
  shows "p + B * x < q + B * y"
proof -
  have "B * x + B \<le> B * y" using assms(3) mult_le_mono2 [of "Suc x" y B] by simp
  then show ?thesis using assms(1) by linarith
qed

lemma u256_ge_loop_iff:
  "n \<le> length a \<Longrightarrow> n \<le> length b \<Longrightarrow> u256_ge_loop n a b \<longleftrightarrow> lval (take n b) \<le> lval (take n a)"
proof (induction n)
  case (Suc i)
  have pa: "lval (take i a) < 2 ^ (64 * i)" and pb: "lval (take i b) < 2 ^ (64 * i)"
    using lval_bound [of "take i a"] lval_bound [of "take i b"] Suc.prems by simp_all
  consider "a ! i = b ! i" | "unat (a ! i) < unat (b ! i)" | "unat (b ! i) < unat (a ! i)"
    by (meson linorder_neqE_nat word_unat_eq_iff)
  then show ?case
  proof cases
    case 1
    then show ?thesis using Suc by (simp add: lval_take_Suc)
  next
    case 2
    then have "lval (take (Suc i) a) < lval (take (Suc i) b)"
      using high_limb_decides [OF pa pb 2] Suc.prems by (simp add: lval_take_Suc)
    with 2 show ?thesis by (auto simp: word_less_nat_alt)
  next
    case 3
    then have "lval (take (Suc i) b) < lval (take (Suc i) a)"
      using high_limb_decides [OF pb pa 3] Suc.prems by (simp add: lval_take_Suc)
    with 3 show ?thesis by (auto simp: word_less_nat_alt)
  qed
qed simp

lemma u256_ge_iff: "length a = 4 \<Longrightarrow> length b = 4 \<Longrightarrow> u256_ge a b \<longleftrightarrow> lval b \<le> lval a"
  using u256_ge_loop_iff [of 4 a b] by (simp add: u256_ge_def)

lemma unat_plus_one: "x + 1 = 0 \<Longrightarrow> unat x + 1 = 2 ^ 64" "x + 1 \<noteq> 0 \<Longrightarrow> unat (x + 1) = unat x + 1" for x :: u64
proof -
  have xb: "unat x < 2 ^ 64" by (rule unat_bounds)
  have u: "unat (x + 1) = (unat x + 1) mod 2 ^ 64" by (simp add: unat_word_ariths)
  show "x + 1 = 0 \<Longrightarrow> unat x + 1 = 2 ^ 64" using u xb by (cases "unat x + 1 = 2 ^ 64") simp_all
  show "x + 1 \<noteq> 0 \<Longrightarrow> unat (x + 1) = unat x + 1"
    using u xb by (cases "unat x + 1 = 2 ^ 64") (auto simp: word_unat_eq_iff)
qed

lemma u256_add_one_val: "lval (u256_add_one a) = (lval a + 1) mod 2 ^ (64 * length a) \<and> length (u256_add_one a) = length a"
proof (induction a)
  case (Cons x xs)
  let ?M = "2 ^ (64 * length xs) :: nat"
  have len: "(2::nat) ^ (64 * length (x # xs)) = 2 ^ 64 * ?M" by (simp add: power_add)
  show ?case
  proof (cases "x + 1 = 0")
    case True
    have "lval (x # xs) + 1 = 2 ^ 64 * (lval xs + 1)" using unat_plus_one(1) [OF True] by simp
    moreover have "(2 ^ 64 * (lval xs + 1)) mod (2 ^ 64 * ?M) = 2 ^ 64 * ((lval xs + 1) mod ?M)" by (rule mult_mod_right [symmetric])
    ultimately show ?thesis unfolding len using Cons True by simp
  next
    case False
    have "lval (u256_add_one (x # xs)) = lval (x # xs) + 1" using unat_plus_one(2) [OF False] False by simp
    moreover have "lval (u256_add_one (x # xs)) < 2 ^ (64 * length (x # xs))"
      using lval_bound [of "u256_add_one (x # xs)"] False by simp
    ultimately show ?thesis using False by simp
  qed
qed simp

text \<open>Subtraction with a borrow, as an equation without truncation.\<close>

lemma limb_sub:
  fixes x y :: u64 and borrow :: bool
  defines "c \<equiv> (if borrow then 1 else 0 :: u64)"
  shows "int (unat (x - y - c)) = int (unat x) - int (unat y) - of_bool borrow + 2 ^ 64 * of_bool (x < y \<or> x - y < c)"
proof -
  have b: "unat x < 2 ^ 64" "unat y < 2 ^ 64" by (rule unat_bounds)+
  have s: "int (unat (u - v)) = int (unat u) - int (unat v) + 2 ^ 64 * of_bool (u < v)" for u v :: u64
  proof (cases "u < v")
    case True
    then have "unat (u - v) = unat u + 2 ^ 64 - unat v"
      using unat_bounds(4) [of v] by (simp add: unat_sub_if' word_less_nat_alt word_le_nat_alt)
    then show ?thesis using True unat_bounds(4) [of v] by simp
  next
    case False
    then have "v \<le> u" by simp
    then have "unat (u - v) = unat u - unat v" "unat v \<le> unat u" by (simp_all only: unat_sub word_le_nat_alt)
    then show ?thesis using False by simp
  qed
  have excl: "\<not> (x < y \<and> x - y < c)"
  proof
    assume a: "x < y \<and> x - y < c"
    then have "x - y = 0" by (auto simp: c_def word_less_nat_alt word_unat_eq_iff split: if_splits)
    with a show False by simp
  qed
  have "int (unat c) = of_bool borrow" by (simp add: c_def)
  with s [of x y] s [of "x - y" c] excl show ?thesis by auto
qed

fun sub_borrow :: "bool \<Rightarrow> u64 list \<Rightarrow> u64 list \<Rightarrow> bool" where
  "sub_borrow borrow (x # xs) (y # ys) = sub_borrow (x < y \<or> x - y < (if borrow then 1 else 0)) xs ys"
| "sub_borrow borrow _ _ = borrow"

lemma sub_loop_val:
  "length a = length b \<Longrightarrow>
     int (lval (sub_loop borrow a b)) = int (lval a) - int (lval b) - of_bool borrow + 2 ^ (64 * length a) * of_bool (sub_borrow borrow a b) \<and>
     length (sub_loop borrow a b) = length a"
proof (induction a b arbitrary: borrow rule: list_induct2)
  case (Cons x xs y ys)
  show ?case
    using Cons.IH [of "x < y \<or> x - y < (if borrow then 1 else 0)"] limb_sub [of x y borrow]
    by (simp add: Let_def power_add algebra_simps)
qed simp

lemma u256_sub_val:
  assumes "length a = length b" "0 \<le> int (lval a) + k * 2 ^ (64 * length a) - int (lval b)"
    "int (lval a) + k * 2 ^ (64 * length a) - int (lval b) < 2 ^ (64 * length a)"
  shows "int (lval (u256_sub a b)) = int (lval a) + k * 2 ^ (64 * length a) - int (lval b)" and "length (u256_sub a b) = length a"
proof -
  let ?M = "2 ^ (64 * length a) :: int" and ?s = "sub_loop False a b"
  have v: "int (lval ?s) = int (lval a) - int (lval b) + ?M * of_bool (sub_borrow False a b)" and len: "length ?s = length a"
    using sub_loop_val [OF assms(1), of False] by simp_all
  have "int (lval ?s) < ?M" using lval_bound [of ?s] len by (metis of_nat_less_iff of_nat_numeral of_nat_power)
  then have "int (lval ?s) = int (lval ?s) mod ?M" by simp
  also have "\<dots> = (int (lval a) - int (lval b)) mod ?M" unfolding v by simp
  also have "\<dots> = ((int (lval a) - int (lval b)) + k * ?M) mod ?M" by simp
  also have "(int (lval a) - int (lval b)) + k * ?M = int (lval a) + k * ?M - int (lval b)" by simp
  also have "(int (lval a) + k * ?M - int (lval b)) mod ?M = int (lval a) + k * ?M - int (lval b)"
    using assms(2,3) by (rule mod_pos_pos_trivial)
  finally show "int (lval (u256_sub a b)) = int (lval a) + k * ?M - int (lval b)" by (simp add: u256_sub_def)
  show "length (u256_sub a b) = length a" using len by (simp add: u256_sub_def)
qed


lemma top_bit: "unat (drop_bit 63 (x :: u64)) \<le> 1"
proof -
  have "unat x < 2 ^ 64" by (rule unat_bounds)
  then show ?thesis unfolding unat_drop_bit by simp
qed

lemma shl_limb:
  fixes x c :: u64
  assumes "unat c \<le> 1"
  shows "unat (push_bit 1 x OR c) + 2 ^ 64 * unat (drop_bit 63 x) = 2 * unat x + unat c"
proof -
  have x: "unat x < 2 ^ 64" by (rule unat_bounds)
  have c: "c = 0 \<or> c = 1" using assms by (auto simp: word_unat_eq_iff le_Suc_eq)
  then have "\<not> bit (push_bit 1 x) n \<or> \<not> bit c n" for n
    by (cases n) (auto simp: bit_1_iff bit_0)
  then have "push_bit 1 x OR c = push_bit 1 x + c"
    by (intro disjunctive_add [symmetric])
  moreover have "push_bit 1 x = 2 * x" by simp
  ultimately have "unat (push_bit 1 x OR c) = (2 * unat x + unat c) mod 2 ^ 64"
    by (simp add: unat_word_ariths mod_simps mult.commute)
  moreover have "(2 * unat x + unat c) div 2 ^ 64 = unat x div 2 ^ 63" using c by auto
  ultimately show ?thesis unfolding unat_drop_bit by (metis mod_mult_div_eq)
qed

fun shl_out :: "u64 \<Rightarrow> u64 list \<Rightarrow> u64" where
  "shl_out c [] = c"
| "shl_out c (x # xs) = shl_out (drop_bit 63 x) xs"

lemma shl_loop_val:
  "unat c \<le> 1 \<Longrightarrow> lval (shl_loop c xs) + 2 ^ (64 * length xs) * unat (shl_out c xs) = 2 * lval xs + unat c \<and>
     length (shl_loop c xs) = length xs"
proof (induction xs arbitrary: c)
  case (Cons x xs)
  show ?case using Cons.IH [OF top_bit, of x] shl_limb [OF Cons.prems, of x]
    by (simp add: power_add algebra_simps)
qed simp

section \<open>Work\<close>

lemma length4: "length a = 4 \<Longrightarrow> \<exists>x y z w. a = [x, y, z, w]"
  by (auto simp: numeral_eq_Suc length_Suc_conv)

text \<open>Bit \<open>i\<close> of a number is bit \<open>i mod 64\<close> of limb \<open>i div 64\<close>.\<close>

lemma lval_bit: "i < 64 * length a \<Longrightarrow> (lval a div 2 ^ i) mod 2 = unat (drop_bit (i mod 64) (a ! (i div 64)) AND 1)"
proof (induction a arbitrary: i)
  case (Cons x xs)
  have xb: "unat x < 2 ^ 64" by (rule unat_bounds)
  show ?case
  proof (cases "i < 64")
    case True
    then have "(2 :: nat) ^ 64 = 2 ^ (i + (1 + (63 - i)))" by simp
    then have "(2 :: nat) ^ 64 = 2 ^ i * (2 * 2 ^ (63 - i))" by (simp only: power_add power_one_right)
    then have "(unat x + 2 ^ 64 * lval xs) div 2 ^ i = (unat x + 2 ^ i * (2 * 2 ^ (63 - i) * lval xs)) div 2 ^ i"
      by (simp only: mult.assoc)
    also have "\<dots> = 2 * 2 ^ (63 - i) * lval xs + unat x div 2 ^ i" by (rule div_mult_self2) simp
    finally have "(unat x + 2 ^ 64 * lval xs) div 2 ^ i = 2 * (2 ^ (63 - i) * lval xs) + unat x div 2 ^ i"
      by (simp only: mult.assoc)
    then have "(lval (x # xs) div 2 ^ i) mod 2 = (unat x div 2 ^ i) mod 2" by simp
    with True show ?thesis by (simp add: and_one_eq unsigned_and_eq unat_drop_bit unat_mod)
  next
    case False
    then obtain j where i: "i = j + 64" by (metis add.commute le_Suc_ex not_less)
    have "lval (x # xs) div 2 ^ i = lval (x # xs) div 2 ^ 64 div 2 ^ j" 
      unfolding i add.commute [of j] power_add by (rule div_mult2_eq)
    also have "lval (x # xs) div 2 ^ 64 = lval xs" using xb by simp
    finally have "lval (x # xs) div 2 ^ i = lval xs div 2 ^ j" .
    moreover have "(x # xs) ! (i div 64) = xs ! (j div 64)" "i mod 64 = j mod 64"
      by (simp_all add: i div_add_self2)
    moreover have "j < 64 * length xs" using Cons.prems i by simp
    ultimately show ?thesis using Cons.IH [of j] by (simp only:)
  qed
qed simp

text \<open>One step of the restoring division: shift in a bit, subtract when the divisor fits.\<close>

lemma work_step_val:
  assumes "length n = 4" "length d = 4" "length r = 4" "lval r < lval d" "i < 256"
  defines "t \<equiv> 2 * lval r + (lval n div 2 ^ i) mod 2"
  shows "\<exists>r'. work_step n d i (q, r) = (if lval d \<le> t \<and> i < 128 then q OR push_bit i 1 else q, r') \<and> length r' = 4 \<and> lval r' = t mod lval d"
proof -
  let ?b = "drop_bit (i mod 64) (n ! (i div 64)) AND 1"
  obtain r0 r1 r2 r3 where r: "r = [r0, r1, r2, r3]" using length4 [OF assms(3)] by blast
  define s where "s = shl_loop ?b r"
  have bit: "(lval n div 2 ^ i) mod 2 = unat ?b" using lval_bit [of i n] assms(1,5) by simp
  then have b1: "unat ?b \<le> 1" 
    using mod_less_divisor [of 2 "lval n div 2 ^ i"] by linarith
  have sv: "lval s + 2 ^ 256 * unat (drop_bit 63 r3) = t" and sl: "length s = 4"
    using shl_loop_val [OF b1, of r] by (simp_all add: s_def r t_def bit del: shl_loop.simps)
  have upd: "(shl_loop 0 r)[0 := shl_loop 0 r ! 0 OR ?b] = s" by (simp add: s_def r)
  have t2: "t < 2 * lval d" using assms(4) b1 bit by (simp add: t_def)
  have db: "lval d < 2 ^ 256" and sb: "lval s < 2 ^ 256" using lval_bound [of d] lval_bound [of s] assms(2) sl by simp_all
  have ge: "drop_bit 63 (r ! 3) = 1 \<or> u256_ge s d \<longleftrightarrow> lval d \<le> t"
  proof (cases "drop_bit 63 r3 = 1")
    case True
    then show ?thesis using sv db by (simp add: r)
  next
    case False
    then have "unat (drop_bit 63 r3) = 0" using top_bit [of r3] by (auto simp: le_Suc_eq word_unat_eq_iff)
    then show ?thesis using False sv u256_ge_iff [OF sl assms(2)] by (simp add: r)
  qed
  have step: "work_step n d i (q, r) = (if lval d \<le> t then (if i < 128 then q OR push_bit i 1 else q, u256_sub s d) else (q, s))"
    unfolding work_step_def prod.case Let_def upd ge by (rule refl)
  show ?thesis
  proof (cases "lval d \<le> t")
    case True
    have k: "int (lval s) + int (unat (drop_bit 63 r3)) * 2 ^ (64 * length s) - int (lval d) = int t - int (lval d)"
      using sv sl by (simp flip: sv)
    have "int (lval (u256_sub s d)) = int t - int (lval d)" and "length (u256_sub s d) = 4"
      using u256_sub_val [of s d "int (unat (drop_bit 63 r3))", unfolded k] True t2 db sl assms(2) by simp_all
    moreover have "t mod lval d = t - lval d" using True t2 by (simp add: mod_if)
    ultimately have "lval (u256_sub s d) = t mod lval d" "length (u256_sub s d) = 4" using True by linarith+
    with True step show ?thesis by simp
  next
    case False
    then have "drop_bit 63 r3 \<noteq> 1" using sv db by auto
    then have "unat (drop_bit 63 r3) = 0" using top_bit [of r3] by (auto simp: le_Suc_eq word_unat_eq_iff)
    then show ?thesis using False sv sl step by simp
  qed
qed

lemma quot_bit:
  fixes N D i :: nat
  assumes "0 < D"
  defines "R \<equiv> N div 2 ^ Suc i mod D" and "b \<equiv> (N div 2 ^ i) mod 2"
  shows "N div 2 ^ i mod D = (2 * R + b) mod D" and "N div 2 ^ i div D = 2 * (N div 2 ^ Suc i div D) + of_bool (D \<le> 2 * R + b)"
proof -
  let ?Q = "N div 2 ^ Suc i div D"
  have half: "N div 2 ^ Suc i = (N div 2 ^ i) div 2" unfolding power_Suc2 by (rule div_mult2_eq)
  have "N div 2 ^ i = 2 * (N div 2 ^ Suc i) + b" unfolding half b_def by simp
  moreover have "N div 2 ^ Suc i = ?Q * D + R" unfolding R_def by simp
  ultimately have e: "N div 2 ^ i = (2 * ?Q) * D + (2 * R + b)" by (simp add: algebra_simps)
  show "N div 2 ^ i mod D = (2 * R + b) mod D" unfolding e by simp
  have "R < D" "b \<le> 1" using assms(1) by (simp_all add: R_def b_def)
  then have "(2 * R + b) div D = of_bool (D \<le> 2 * R + b)" by (auto simp: div_if)
  then show "N div 2 ^ i div D = 2 * ?Q + of_bool (D \<le> 2 * R + b)" unfolding e using assms(1) by simp
qed

lemma push_bit_beyond: "128 \<le> i \<Longrightarrow> push_bit i w = 0" for w :: u128
  by (rule bit_word_eqI) (simp add: bit_push_bit_iff)

lemma push_bit_or_one: "push_bit (Suc i) w OR push_bit i 1 = push_bit i (2 * w + 1)" for w :: u128
proof -
  have "\<not> bit (push_bit 1 w) n \<or> \<not> bit (1 :: u128) n" for n by (cases n) (auto simp: bit_1_iff bit_0)
  then have "push_bit 1 w OR 1 = push_bit 1 w + 1" by (intro disjunctive_add [symmetric])
  then have "2 * w + 1 = push_bit 1 w OR 1" by simp
  moreover have "push_bit (Suc i) w = push_bit i (push_bit 1 w)" by (simp only: push_bit_push_bit) simp
  ultimately show ?thesis by (simp only: push_bit_or)
qed

lemma work_loop_val:
  assumes "length n = 4" "length d = 4" "0 < lval d"
  shows "i \<le> 256 \<Longrightarrow> length r = 4 \<Longrightarrow> lval r = lval n div 2 ^ i mod lval d \<Longrightarrow>
     q = push_bit i (word_of_nat (lval n div 2 ^ i div lval d)) \<Longrightarrow>
     fst (work_loop n d i (q, r)) = word_of_nat (lval n div lval d)"
proof (induction i arbitrary: q r)
  case (Suc i)
  let ?t = "2 * lval r + (lval n div 2 ^ i) mod 2"
  have lt: "lval r < lval d" using Suc.prems(3) assms(3) by simp
  obtain r' where step: "work_step n d i (q, r) = (if lval d \<le> ?t \<and> i < 128 then q OR push_bit i 1 else q, r')"
    and r': "length r' = 4" "lval r' = ?t mod lval d"
    using work_step_val [OF assms(1,2) Suc.prems(2) lt, of i q] Suc.prems(1) by auto
  let ?Q = "word_of_nat (lval n div 2 ^ Suc i div lval d) :: u128"
  have "(if lval d \<le> ?t \<and> i < 128 then q OR push_bit i 1 else q) = push_bit i (word_of_nat (lval n div 2 ^ i div lval d))"
  proof (cases "i < 128")
    case True
    have two: "push_bit (Suc i) ?Q = push_bit i (2 * ?Q)" by (simp add: push_bit_double mult.commute)
    have qb: "lval n div 2 ^ i div lval d = 2 * (lval n div 2 ^ Suc i div lval d) + of_bool (lval d \<le> ?t)"
      using quot_bit(2) [OF assms(3), of "lval n" i] Suc.prems(3) by (simp only:)
    have w: "word_of_nat (lval n div 2 ^ i div lval d) = 2 * ?Q + of_bool (lval d \<le> ?t)" unfolding qb by simp
    show ?thesis unfolding w Suc.prems(4) using True by (cases "lval d \<le> ?t") (simp_all only: push_bit_or_one two [symmetric] of_bool_eq simp_thms if_True if_False add_0_right)
  next
    case False
    then show ?thesis by (simp add: Suc.prems(4) push_bit_beyond del: power_Suc)
  qed
  with Suc.IH [of r'] Suc.prems(1) r' quot_bit(1) [OF assms(3), of "lval n" i] show ?case
    by (simp add: step Suc.prems(3) del: power_Suc)
qed simp

lemma lval_NOT: "int (lval (map (\<lambda>l. NOT l) a)) = 2 ^ (64 * length a) - 1 - int (lval a)"
proof (induction a)
  case (Cons x xs)
  have "int (unat (NOT x)) = 2 ^ 64 - 1 - int (unat x)"
    using take_bit_int_eq_self [OF unsigned_greater_eq unsigned_less, of x]
    by (simp add: unsigned_not_eq take_bit_not_eq_mask_diff mask_eq_exp_minus_1)
  with Cons show ?case by (simp add: power_add algebra_simps)
qed simp

text \<open>
  Chain selection weighs headers exactly: the bitwise restoring division of
  \<open>work_from_target\<close>, which divides the complement of the target by the target plus one, truncates the
  quotient to 128 bits and adds one, computes two to the 256 divided by the target plus one, modulo two
  to the 128.
\<close>

theorem work_from_target_exact:
  assumes "length t = 4" and "lval t + 1 < 2 ^ 256"
  shows "work_from_target t = word_of_nat (2 ^ 256 div (lval t + 1))"
proof -
  let ?n = "map (\<lambda>l. NOT l) t" and ?d = "u256_add_one t"
  have d: "length ?d = 4" "lval ?d = lval t + 1" using u256_add_one_val [of t] assms by simp_all
  have "int (lval ?n) = 2 ^ 256 - 1 - int (lval t)" using lval_NOT [of t] assms(1) by simp
  then have "int (2 ^ 256) = int (lval ?n + (lval t + 1))" by simp
  then have n: "2 ^ 256 = lval ?n + (lval t + 1)" by (simp only: of_nat_eq_iff)
  have "lval ?n < 2 ^ 256" using lval_bound [of ?n] assms(1) by simp
  then have "fst (work_loop ?n ?d 256 (0, [0, 0, 0, 0])) = word_of_nat (lval ?n div lval ?d)"
    using assms(1) d by (intro work_loop_val) simp_all
  moreover have "2 ^ 256 div (lval t + 1) = lval ?n div (lval t + 1) + 1" unfolding n by (rule div_add_self2) simp
  ultimately show ?thesis by (simp add: work_from_target_def Let_def d)
qed

theorem work_from_target_exact_witness: "work_from_target [0, 0, 0, 0xffff0000] = word_of_nat (2 ^ 256 div (lval [0, 0, 0, 0xffff0000] + 1))"
  by (rule work_from_target_exact) simp_all

section \<open>Retargeting\<close>

lemma unat_128: "unat (x :: u128) < 2 ^ 128"
  using unsigned_less [of x] by simp

lemma mul_bound: "a < 2 ^ 64 \<Longrightarrow> b < 2 ^ 64 \<Longrightarrow> c < 2 ^ 64 \<Longrightarrow> a * b + c < 2 ^ 128" for a b c :: nat
proof -
  assume "a < 2 ^ 64" "b < 2 ^ 64" "c < 2 ^ 64"
  then have "a * b \<le> (2 ^ 64 - 1) * (2 ^ 64 - 1)" by (intro mult_le_mono) simp_all
  moreover have "c \<le> 2 ^ 64 - 1" using \<open>c < 2 ^ 64\<close> by simp
  ultimately show "a * b + c < 2 ^ 128" by simp
qed

lemma mul_step:
  fixes x b :: u64 and carry :: u128
  assumes "unat carry < 2 ^ 64"
  shows "unat (ucast x * ucast b + carry :: u128) = unat x * unat b + unat carry"
proof -
  have "unat x * unat b + unat carry < 2 ^ 128" using unat_bounds(4) [of x] unat_bounds(4) [of b] assms by (rule mul_bound)
  moreover have "unat (ucast x :: u128) = unat x" "unat (ucast b :: u128) = unat b" by (simp_all add: unat_ucast_up)
  ultimately show ?thesis by (simp add: unat_word_ariths mod_simps)
qed

lemma low_high: "unat (ucast (acc :: u128) :: u64) + 2 ^ 64 * unat (drop_bit 64 acc) = unat acc \<and> unat (drop_bit 64 acc) < 2 ^ 64"
proof -
  have "unat acc < 2 ^ 128" by (rule unat_128)
  then have "unat acc div 2 ^ 64 < 2 ^ 64" by (simp add: less_mult_imp_div_less)
  moreover have "unat (ucast acc :: u64) = unat acc mod 2 ^ 64" by (simp add: unat_ucast)
  ultimately show ?thesis by (simp add: unat_drop_bit)
qed

lemma mul_loop_val:
  "unat carry < 2 ^ 64 \<Longrightarrow> lval (mul_loop carry b xs) = lval xs * unat b + unat carry \<and> length (mul_loop carry b xs) = Suc (length xs)"
proof (induction xs arbitrary: carry)
  case Nil
  then show ?case by (simp add: unat_ucast)
next
  case (Cons x xs)
  let ?acc = "ucast x * ucast b + carry :: u128"
  have acc: "unat ?acc = unat x * unat b + unat carry" by (rule mul_step [OF Cons.prems])
  have lh: "unat (ucast ?acc :: u64) + 2 ^ 64 * unat (drop_bit 64 ?acc) = unat ?acc" "unat (drop_bit 64 ?acc) < 2 ^ 64"
    using low_high [of ?acc] by auto
  have "lval (mul_loop carry b (x # xs)) = unat (ucast ?acc :: u64) + 2 ^ 64 * (lval xs * unat b + unat (drop_bit 64 ?acc))"
    using Cons.IH [OF lh(2)] by (simp only: mul_loop.simps Let_def lval.simps)
  also have "\<dots> = unat ?acc + 2 ^ 64 * (lval xs * unat b)" using lh(1) by (simp only: distrib_left)
  finally show ?case using Cons.IH [OF lh(2)] acc by (simp add: algebra_simps Let_def)
qed

lemma u256_mul_u64_val: "lval (u256_mul_u64 a b) = lval a * unat b"
  using mul_loop_val [of 0 b a] by (simp add: u256_mul_u64_def lval_append)

lemma div_step:
  fixes rem :: u128 and x b :: u64
  assumes "unat rem < unat b"
  defines "cur \<equiv> push_bit 64 rem OR ucast x"
  shows "unat (ucast (cur div ucast b) :: u64) = (unat rem * 2 ^ 64 + unat x) div unat b"
    and "unat (cur mod ucast b) = (unat rem * 2 ^ 64 + unat x) mod unat b"
proof -
  have b: "unat b < 2 ^ 64" "unat x < 2 ^ 64" by (rule unat_bounds)+
  have "\<not> bit (push_bit 64 rem) n \<or> \<not> bit (ucast x :: u128) n" for n
    by (auto simp: bit_push_bit_iff bit_ucast_iff dest: bit_imp_le_length)
  then have "cur = push_bit 64 rem + ucast x" unfolding cur_def by (intro disjunctive_add [symmetric])
  then have "cur = rem * 2 ^ 64 + ucast x" by (simp add: push_bit_eq_mult)
  moreover have "unat rem * 2 ^ 64 + unat x < 2 ^ 128" using mul_bound [of "unat rem" "2 ^ 64 - 1" 0] assms(1) b by simp
  ultimately have cur: "unat cur = unat rem * 2 ^ 64 + unat x"
    by (simp add: unat_word_ariths unat_ucast_up mod_simps)
  have ub: "unat (ucast b :: u128) = unat b" by (simp add: unat_ucast_up)
  have "(unat rem * 2 ^ 64 + unat x) div unat b < 2 ^ 64"
  proof (rule less_mult_imp_div_less)
    have "(unat rem + 1) * 2 ^ 64 \<le> unat b * 2 ^ 64" using assms(1) by (intro mult_le_mono1) simp
    then show "unat rem * 2 ^ 64 + unat x < 2 ^ 64 * unat b" using b(2) by (simp add: mult.commute)
  qed
  then show "unat (ucast (cur div ucast b) :: u64) = (unat rem * 2 ^ 64 + unat x) div unat b"
    unfolding unat_ucast [of "cur div ucast b"] unat_div cur ub by simp
  show "unat (cur mod ucast b) = (unat rem * 2 ^ 64 + unat x) mod unat b" by (simp add: unat_mod cur ub)
qed

lemma limb_regroup: "m * M + l + b * (M * q) = (m + b * q) * M + l" for m M l b q :: nat
  by (simp add: algebra_simps)

lemma div_loop_val:
  "unat rem < unat b \<Longrightarrow> lval (rev (div_loop rem b xs)) = (unat rem * 2 ^ (64 * length xs) + lval (rev xs)) div unat b \<and>
     length (div_loop rem b xs) = length xs"
proof (induction xs arbitrary: rem)
  case (Cons x xs)
  let ?cur = "push_bit 64 rem OR ucast x :: u128" and ?N = "unat rem * 2 ^ 64 + unat x" and ?M = "2 ^ (64 * length xs) :: nat"
  have m: "unat (?cur mod ucast b) = ?N mod unat b" and q: "unat (ucast (?cur div ucast b) :: u64) = ?N div unat b"
    using div_step [OF Cons.prems, of x] by auto
  have lt: "unat (?cur mod ucast b) < unat b" using m Cons.prems by simp
  note IH = Cons.IH [OF lt, unfolded m]
  have "lval (rev (div_loop rem b (x # xs))) = (?N mod unat b * ?M + lval (rev xs)) div unat b + ?M * (?N div unat b)"
    using IH q by (simp add: lval_append Let_def)
  also have "\<dots> = (?N mod unat b * ?M + lval (rev xs) + unat b * (?M * (?N div unat b))) div unat b"
    using Cons.prems by simp
  also have "?N mod unat b * ?M + lval (rev xs) + unat b * (?M * (?N div unat b)) = (?N mod unat b + unat b * (?N div unat b)) * ?M + lval (rev xs)"
    by (rule limb_regroup)
  also have "\<dots> = ?N * ?M + lval (rev xs)" by simp
  also have "\<dots> = unat rem * 2 ^ (64 * length (x # xs)) + lval (rev (x # xs))"
    by (simp add: lval_append power_add algebra_simps)
  finally show ?case using IH by (simp add: Let_def)
qed simp

lemma lval_take: "lval (take n xs) = lval xs mod 2 ^ (64 * n)"
proof (cases "n \<le> length xs")
  case True
  have "lval xs = lval (take n xs) + 2 ^ (64 * n) * lval (drop n xs)"
    using lval_append [of "take n xs" "drop n xs"] True by simp
  moreover have "lval (take n xs) < 2 ^ (64 * n)" using lval_bound [of "take n xs"] True by simp
  ultimately show ?thesis by simp
next
  case False
  then have "lval xs < 2 ^ (64 * n)" using lval_bound [of xs] by (meson less_le_trans mult_le_mono2 nat_le_linear one_le_numeral power_increasing)
  then show ?thesis using False by simp
qed

lemma u512_div_u64_val: "b \<noteq> 0 \<Longrightarrow> lval (u512_div_u64 a b) = (lval a div unat b) mod 2 ^ 256"
  using div_loop_val [of 0 b "rev a"] by (simp add: u512_div_u64_def lval_take unat_gt_0)

lemma length_place_byte [simp]: "length (place_byte pos b out) = length out"
  by (simp add: place_byte_def)

lemma from_compact_length:
  assumes "from_compact bits = Some t"
  shows "length t = 4"
proof -
  have "\<exists>v f. (t = [0, 0, 0, 0][0 := v] \<or> t = fold f [0, 1, 2 :: nat] [0, 0, 0, 0]) \<and> (\<forall>i out. length (f i out) = length out)"
    using assms unfolding from_compact_def Let_def
    by (intro exI [of _ "ucast (drop_bit (8 * (3 - unat (drop_bit 24 bits))) (bits AND 0x007fffff))"]
        exI [of _ "\<lambda>i. place_byte (unat (drop_bit 24 bits) - 3 + i) (ucast (drop_bit (8 * i) (bits AND 0x007fffff) AND 0xff))"] conjI allI length_place_byte)
      (simp only: option.inject option.distinct split: if_split_asm, blast+)
  then show ?thesis by (auto simp: list.size)
qed

text \<open>
  Difficulty retargeting is exact: at a retarget height the required bits encode the
  previous target times the elapsed time of the interval, clamped to between a quarter and four times
  the nominal timespan, divided by the nominal timespan and capped at the proof-of-work limit. The limb
  arithmetic loses nothing as long as the quotient fits 256 bits.
\<close>

theorem retarget_exact:
  assumes "\<not> pa_no_retargeting pa" and "at_height mod RETARGET_INTERVAL = 0"
    and "from_compact (bh_bits (headers ! (at_height - 1))) = Some t" and "length (pa_pow_limit pa) = 4"
    and "0 < unat (pa_pow_target_timespan pa)" and "unat (pa_pow_target_timespan pa) < 2 ^ 62"
  defines "T \<equiv> int (unat (pa_pow_target_timespan pa))"
  defines "actual \<equiv> max (T div 4) (min (T * 4) (int (unat (bh_time (headers ! (at_height - 1)))) - int (unat (bh_time (headers ! (at_height - RETARGET_INTERVAL))))))"
  assumes "lval t * nat actual div unat (pa_pow_target_timespan pa) < 2 ^ 256"
  shows "\<exists>new. next_work_required pa headers at_height = Some (to_compact new) \<and> length new = 4 \<and>
    lval new = min (lval (pa_pow_limit pa)) (lval t * nat actual div unat (pa_pow_target_timespan pa))"
proof -
  let ?T = "pa_pow_target_timespan pa"
  let ?new = "u512_div_u64 (u256_mul_u64 t (word_of_int actual)) ?T"
  have "T < 2 ^ 62" unfolding T_def using assms(6) by (metis of_nat_less_iff of_nat_numeral of_nat_power)
  moreover have "0 \<le> T" by (simp add: T_def)
  ultimately have "0 \<le> T div 4" "T div 4 \<le> T" "T * 4 < 2 ^ 64" by simp_all
  then have "0 \<le> actual" "actual < 2 ^ 64" unfolding actual_def by linarith+
  then have "unat (word_of_int actual :: u64) = nat actual" by (simp add: unsigned_of_int take_bit_int_eq_self)
  moreover have "?T \<noteq> 0" using assms(5) by auto
  ultimately have val: "lval ?new = lval t * nat actual div unat ?T" using assms(9) by (simp add: u512_div_u64_val u256_mul_u64_val)
  have "length (u256_mul_u64 t (word_of_int actual)) = 8"
    using mul_loop_val [of 0 "word_of_int actual" t] from_compact_length [OF assms(3)] by (simp add: u256_mul_u64_def)
  then have len: "length ?new = 4" using div_loop_val [of 0 ?T "rev (u256_mul_u64 t (word_of_int actual))"] assms(5)
    by (simp add: u512_div_u64_def)
  let ?clamped = "if u256_ge ?new (pa_pow_limit pa) then pa_pow_limit pa else ?new"
  have "next_work_required pa headers at_height = Some (to_compact ?clamped)"
    unfolding next_work_required_def Let_def using assms(1-3) by (simp add: actual_def T_def)
  moreover have "lval ?clamped = min (lval (pa_pow_limit pa)) (lval ?new)"
    using u256_ge_iff [OF len assms(4)] by (simp add: min_def)
  ultimately show ?thesis using val len assms(4) by (intro exI [of _ ?clamped]) auto
qed

definition demo_retarget_params :: params where
  "demo_retarget_params = (network_params Mainnet)\<lparr>pa_pow_limit := [0, 0, 0, 0xffff0000]\<rparr>"

theorem retarget_exact_witness:
  "\<exists>new. next_work_required demo_retarget_params (replicate 2016 \<lparr>bh_version = 1, bh_prev_block = [], bh_merkle_root = [], bh_time = 5, bh_bits = 0x0300ffff, bh_nonce = 0\<rparr>) 2016 = Some (to_compact new) \<and>
     length new = 4 \<and> lval new = 0xffff div 4"
proof -
  have t: "from_compact 0x0300ffff = Some [0xffff, 0, 0, 0]" by (simp add: from_compact_def Let_def)
  show ?thesis
    using retarget_exact [of demo_retarget_params 2016 "replicate 2016 \<lparr>bh_version = 1, bh_prev_block = [], bh_merkle_root = [], bh_time = 5, bh_bits = 0x0300ffff, bh_nonce = 0\<rparr>" "[0xffff, 0, 0, 0]"] t
    by (simp add: demo_retarget_params_def network_params_def RETARGET_INTERVAL_def)
qed

end
