(* ===== verification/Cbf_Gcs.thy ===== *)
theory Cbf_Gcs
  imports Cbf_Block "HOL-Library.List_Lexorder"
begin

text \<open>
  Golomb-coded sets of BIP158, \<open>crates/opencsv-cbf/src/siphash.rs\<close> and \<open>gcs.rs\<close>:
  SipHash-2-4, the bit writer and reader, construction, parsing and membership queries, filter
  hashes and headers.
\<close>

unbundle bit_operations_syntax

section \<open>SipHash-2-4\<close>

type_synonym sip_state = "u64 \<times> u64 \<times> u64 \<times> u64"

definition sip_round :: "sip_state \<Rightarrow> sip_state" where
  "sip_round v =
     (let (v0, v1, v2, v3) = v;
          v0 = v0 + v1; v1 = word_rotl 13 v1; v1 = v1 XOR v0; v0 = word_rotl 32 v0;
          v2 = v2 + v3; v3 = word_rotl 16 v3; v3 = v3 XOR v2;
          v0 = v0 + v3; v3 = word_rotl 21 v3; v3 = v3 XOR v0;
          v2 = v2 + v1; v1 = word_rotl 17 v1; v1 = v1 XOR v2; v2 = word_rotl 32 v2
      in (v0, v1, v2, v3))"

text \<open>Absorbing one word: \<open>v[3] ^= m\<close>, two rounds, \<open>v[0] ^= m\<close>.\<close>

definition sip_absorb :: "u64 \<Rightarrow> sip_state \<Rightarrow> sip_state" where
  "sip_absorb m v =
     (let (v0, v1, v2, v3) = v;
          (v0, v1, v2, v3) = sip_round (sip_round (v0, v1, v2, v3 XOR m))
      in (v0 XOR m, v1, v2, v3))"

text \<open>\<open>chunks_exact(8)\<close> and its remainder.\<close>

fun sip_remainder :: "nat \<Rightarrow> bytes \<Rightarrow> u64 \<Rightarrow> u64" where
  "sip_remainder i [] b = b"
| "sip_remainder i (byte # rest) b = sip_remainder (Suc i) rest (b OR push_bit (8 * i) (ucast byte))"

definition siphash24 :: "u64 \<Rightarrow> u64 \<Rightarrow> bytes \<Rightarrow> u64" where
  "siphash24 k0 k1 msg =
     (let full = length msg div 8 * 8;
          v = (0x736f6d6570736575 XOR k0, 0x646f72616e646f6d XOR k1, 0x6c7967656e657261 XOR k0, 0x7465646279746573 XOR k1);
          v = fold (\<lambda>chunk. sip_absorb (from_le_bytes chunk)) (chunks 8 (take full msg)) v;
          b = sip_remainder 0 (drop full msg) (push_bit 56 (word_of_nat (length msg) AND 0xff));
          (v0, v1, v2, v3) = sip_absorb b v;
          (v0, v1, v2, v3) = sip_round (sip_round (sip_round (sip_round (v0, v1, v2 XOR 0xff, v3))))
      in v0 XOR v1 XOR v2 XOR v3)"

section \<open>Parameters and hashing into the range\<close>

definition BASIC_FILTER_P :: nat where "BASIC_FILTER_P = 19"
definition BASIC_FILTER_M :: u64 where "BASIC_FILTER_M = 784931"
definition BASIC_FILTER_TYPE :: u8 where "BASIC_FILTER_TYPE = 0x00"

definition filter_key :: "bytes \<Rightarrow> bytes" where
  "filter_key block_hash = take 16 block_hash"

text \<open>The product is taken at 128 bits.\<close>

definition map_into_range :: "u64 \<Rightarrow> u64 \<Rightarrow> u64" where
  "map_into_range h f = ucast (drop_bit 64 ((ucast h :: 128 word) * ucast f))"

definition hash_to_range :: "bytes \<Rightarrow> bytes \<Rightarrow> u64 \<Rightarrow> u64 \<Rightarrow> u64" where
  "hash_to_range key item n m =
     map_into_range (siphash24 (from_le_bytes (take 8 key)) (from_le_bytes (drop 8 key)) item) (n * m)"

section \<open>The bit writer\<close>

record bit_writer =
  bw_bytes :: bytes
  bw_used :: nat

definition bit_writer_new :: bit_writer where
  "bit_writer_new = \<lparr>bw_bytes = [], bw_used = 0\<rparr>"

definition write_bit :: "bool \<Rightarrow> bit_writer \<Rightarrow> bit_writer" where
  "write_bit b w =
     (let bs = (if bw_used w = 0 then bw_bytes w @ [0] else bw_bytes w);
          bs = (if b then butlast bs @ [last bs OR push_bit (7 - bw_used w) 1] else bs)
      in \<lparr>bw_bytes = bs, bw_used = (bw_used w + 1) mod 8\<rparr>)"

text \<open>\<open>BitWriter::write\<close>: bits \<open>nbits - 1\<close> down to 0 of \<open>data\<close>.\<close>

fun write_bits :: "u64 \<Rightarrow> nat \<Rightarrow> bit_writer \<Rightarrow> bit_writer" where
  "write_bits data 0 w = w"
| "write_bits data (Suc i) w = write_bits data i (write_bit (drop_bit i data AND 1 = 1) w)"

definition golomb_rice_encode :: "nat \<Rightarrow> u64 \<Rightarrow> bit_writer \<Rightarrow> bit_writer" where
  "golomb_rice_encode p x w =
     (let q = drop_bit p x;
          w = (write_bits 1 1 ^^ unat q) w;
          w = write_bits 0 1 w
      in write_bits x p w)"

section \<open>The bit reader\<close>

record bit_reader =
  br_data :: bytes
  br_pos :: nat

definition bit_reader_new :: "bytes \<Rightarrow> bit_reader" where
  "bit_reader_new data = \<lparr>br_data = data, br_pos = 0\<rparr>"

definition read_bit :: "bit_reader \<Rightarrow> cbf_error + bool \<times> bit_reader" where
  "read_bit r =
     (if br_pos r \<ge> length (br_data r) * 8 then Inl Filter
      else Inr (drop_bit (7 - br_pos r mod 8) (br_data r ! (br_pos r div 8)) AND 1 = 1, r\<lparr>br_pos := br_pos r + 1\<rparr>))"

fun read_bits_loop :: "nat \<Rightarrow> u64 \<Rightarrow> bit_reader \<Rightarrow> cbf_error + u64 \<times> bit_reader" where
  "read_bits_loop 0 v r = Inr (v, r)"
| "read_bits_loop (Suc n) v r =
     and_then (read_bit r) (\<lambda>(b, r). read_bits_loop n (push_bit 1 v OR (if b then 1 else 0)) r)"

definition read_bits :: "nat \<Rightarrow> bit_reader \<Rightarrow> cbf_error + u64 \<times> bit_reader" where
  "read_bits nbits r = read_bits_loop nbits 0 r"

function read_quotient :: "u64 \<Rightarrow> bit_reader \<Rightarrow> cbf_error + u64 \<times> bit_reader" where
  "read_quotient q r =
     (if br_pos r \<ge> length (br_data r) * 8 then Inl Filter
      else and_then (read_bit r) (\<lambda>(b, r').
        if b then (if q + 1 > 0x100000000 then Inl Filter else read_quotient (q + 1) (r\<lparr>br_pos := br_pos r + 1\<rparr>))
        else Inr (q, r')))"
  by pat_completeness auto
termination
  by (relation "measure (\<lambda>(q, r). length (br_data r) * 8 - br_pos r)") auto

declare read_quotient.simps [simp del]

definition golomb_rice_decode :: "nat \<Rightarrow> bit_reader \<Rightarrow> cbf_error + u64 \<times> bit_reader" where
  "golomb_rice_decode p r =
     and_then (read_quotient 0 r) (\<lambda>(q, r).
     and_then (read_bits p r) (\<lambda>(rem, r).
     Inr (push_bit p q + rem, r)))"

section \<open>Filters\<close>

fun encode_deltas :: "nat \<Rightarrow> u64 \<Rightarrow> u64 list \<Rightarrow> bit_writer \<Rightarrow> bit_writer" where
  "encode_deltas p prev [] w = w"
| "encode_deltas p prev (x # xs) w = encode_deltas p x xs (golomb_rice_encode p (x - prev) w)"

text \<open>The ordered set of distinct elements, then their sorted hashes.\<close>

definition gcs_encode :: "bytes list \<Rightarrow> bytes \<Rightarrow> nat \<Rightarrow> u64 \<Rightarrow> bytes" where
  "gcs_encode elements key p m =
     (let items = sort (remdups elements);
          n = word_of_nat (length items) :: u64
      in if n = 0 then write_varint n
         else write_varint n @
           bw_bytes (encode_deltas p 0 (sort (map (\<lambda>item. hash_to_range key item n m) items)) bit_writer_new))"

record gcs_filter =
  gf_n :: u64
  gf_compressed :: bytes

definition gcs_parse :: "bytes \<Rightarrow> cbf_error + gcs_filter" where
  "gcs_parse serialized =
     and_then (cursor_read_varint (cursor_new serialized)) (\<lambda>(n, c).
     if n \<ge> 0x100000000 then Inl Filter
     else if n = 0 \<and> \<not> cursor_is_empty c then Inl Filter
     else Inr \<lparr>gf_n = n, gf_compressed = drop (length serialized - cursor_remaining c) serialized\<rparr>)"

fun matches_loop :: "nat \<Rightarrow> nat \<Rightarrow> u64 \<Rightarrow> u64 \<Rightarrow> bit_reader \<Rightarrow> cbf_error + bool" where
  "matches_loop p 0 target prev r = Inr False"
| "matches_loop p (Suc k) target prev r =
     and_then (golomb_rice_decode p r) (\<lambda>(delta, r).
     and_then (ok_or Filter (checked_add prev delta)) (\<lambda>value.
     if value = target then Inr True
     else if value > target then Inr False
     else matches_loop p k target value r))"

definition gcs_matches :: "gcs_filter \<Rightarrow> bytes \<Rightarrow> bytes \<Rightarrow> nat \<Rightarrow> u64 \<Rightarrow> cbf_error + bool" where
  "gcs_matches f key item p m =
     (if gf_n f = 0 then Inr False
      else matches_loop p (unat (gf_n f)) (hash_to_range key item (gf_n f) m) 0 (bit_reader_new (gf_compressed f)))"

definition filter_hash :: "sha256_fn \<Rightarrow> bytes \<Rightarrow> bytes" where
  "filter_hash sha serialized_filter = sha256d sha serialized_filter"

definition filter_header :: "sha256_fn \<Rightarrow> bytes \<Rightarrow> bytes \<Rightarrow> bytes" where
  "filter_header sha fh previous = sha256d sha (copy_at 32 previous (copy_at 0 fh (replicate 64 0)))"

end
