(* ===== verification/Cbf_Codec.thy ===== *)
theory Cbf_Codec
  imports Cbf_Block
begin

text \<open>
  Exactness of block and transaction parsing: which byte strings the parsers accept, and what
  they denote.
\<close>

section \<open>Headers\<close>

definition header_ok :: "block_header \<Rightarrow> bool" where
  "header_ok h \<longleftrightarrow> length (bh_prev_block h) = 32 \<and> length (bh_merkle_root h) = 32"

lemmas wire_iffs = w_hash.read_iff w_u8.read_iff w_u16.read_iff w_u32.read_iff w_i32.read_iff w_u64.read_iff
  w_varint.read_iff w_varbytes.read_iff read_bytes_iff

lemma header_parse_iff: "header_parse bs = Inr h \<longleftrightarrow> header_ok h \<and> bs = header_serialize h"
proof
  assume "header_parse bs = Inr h"
  then show "header_ok h \<and> bs = header_serialize h"
    by (auto simp: header_parse_def cursor_new_at and_then_Inr wire_iffs header_ok_def header_serialize_def
        split: if_splits)
next
  assume "header_ok h \<and> bs = header_serialize h"
  then show "header_parse bs = Inr h"
    by (simp add: header_parse_def cursor_new_at header_ok_def header_serialize_def w_i32.read_back w_hash.read_back
        w_u32.read_back w_u32.read_end)
qed

lemma length_header_serialize: "header_ok h \<Longrightarrow> length (header_serialize h) = 80"
  by (simp add: header_serialize_def header_ok_def)

section \<open>Transactions\<close>

definition tx_in_ok :: "cbf_tx_in \<Rightarrow> bool" where
  "tx_in_ok i \<longleftrightarrow> length (co_txid (ci_prev i)) = 32 \<and> length (ci_script_sig i) < 2 ^ 64"

definition tx_out_ok :: "cbf_tx_out \<Rightarrow> bool" where
  "tx_out_ok out \<longleftrightarrow> length (cx_script_pubkey out) < 2 ^ 64"

definition stack_ok :: "bytes list \<Rightarrow> bool" where
  "stack_ok st \<longleftrightarrow> length st \<le> 1000 \<and> list_all (\<lambda>bs. length bs < 2 ^ 64) st"

definition stack_bytes :: "bytes list \<Rightarrow> bytes" where
  "stack_bytes st = write_varint (word_of_nat (length st)) @ concat (map write_varbytes st)"

interpretation w_tx_in: wire_codec tx_in_bytes read_tx_in tx_in_ok
proof
  fix i :: cbf_tx_in and pre suf c
  show "tx_in_ok i \<Longrightarrow> read_tx_in (wire_at pre (tx_in_bytes i @ suf)) = Inr (i, wire_at (pre @ tx_in_bytes i) suf)"
    by (simp add: read_tx_in_def tx_in_bytes_def tx_in_ok_def w_hash.read_back w_u32.read_back w_varbytes.read_back)
  assume "read_tx_in (wire_at pre suf) = Inr (i, c)"
  then show "tx_in_ok i \<and> (\<exists>bs. suf = tx_in_bytes i @ bs \<and> c = wire_at (pre @ tx_in_bytes i) bs)"
    by (auto simp: read_tx_in_def and_then_Inr wire_iffs tx_in_bytes_def tx_in_ok_def)
qed

interpretation w_tx_out: wire_codec tx_out_bytes read_tx_out tx_out_ok
proof
  fix out :: cbf_tx_out and pre suf c
  show "tx_out_ok out \<Longrightarrow> read_tx_out (wire_at pre (tx_out_bytes out @ suf)) = Inr (out, wire_at (pre @ tx_out_bytes out) suf)"
    by (simp add: read_tx_out_def tx_out_bytes_def tx_out_ok_def w_u64.read_back w_varbytes.read_back)
  assume "read_tx_out (wire_at pre suf) = Inr (out, c)"
  then show "tx_out_ok out \<and> (\<exists>bs. suf = tx_out_bytes out @ bs \<and> c = wire_at (pre @ tx_out_bytes out) bs)"
    by (auto simp: read_tx_out_def and_then_Inr wire_iffs tx_out_bytes_def tx_out_ok_def)
qed

text \<open>A counted vector: its length as a CompactSize at most \<open>limit\<close>, then its elements.\<close>

lemma counted_iff:
  assumes "wire_codec enc rd valid" and "limit < 2 ^ 64"
  shows "and_then (cursor_read_varint (wire_at pre suf)) (\<lambda>(n, c). if n > word_of_nat limit then Inl Protocol else read_count rd (unat n) c) = Inr (xs, c)
    \<longleftrightarrow> list_all valid xs \<and> length xs \<le> limit \<and>
      (\<exists>bs. suf = write_varint (word_of_nat (length xs)) @ concat (map enc xs) @ bs \<and>
        c = wire_at (pre @ write_varint (word_of_nat (length xs)) @ concat (map enc xs)) bs)"
    (is "?lhs \<longleftrightarrow> ?rhs")
proof
  have ul: "unat (word_of_nat limit :: u64) = limit" using assms(2) by (simp add: unat_of_nat)
  {
    assume ?lhs
    then obtain n t where n: "suf = write_varint n @ t" "\<not> n > word_of_nat limit"
      and rd: "read_count rd (unat n) (wire_at (pre @ write_varint n) t) = Inr (xs, c)"
      by (auto simp: and_then_Inr w_varint.read_iff split: if_splits)
    then have "length xs = unat n" "list_all valid xs"
      "\<exists>bs. t = concat (map enc xs) @ bs \<and> c = wire_at ((pre @ write_varint n) @ concat (map enc xs)) bs"
      using wire_codec.read_list_iff [OF assms(1)] by blast+
    moreover from this(1) have "word_of_nat (length xs) = n" by simp
    ultimately show ?rhs using n ul by (auto simp: word_less_nat_alt)
  }
  assume r: ?rhs
  then obtain bs where bs: "suf = write_varint (word_of_nat (length xs)) @ concat (map enc xs) @ bs"
    "c = wire_at (pre @ write_varint (word_of_nat (length xs)) @ concat (map enc xs)) bs" by blast
  have ux: "unat (word_of_nat (length xs) :: u64) = length xs" using r assms(2) by (simp add: unat_of_nat)
  then have "\<not> (word_of_nat (length xs) :: u64) > word_of_nat limit" using r ul by (simp add: word_less_nat_alt)
  moreover have "read_count rd (length xs) (wire_at (pre @ write_varint (word_of_nat (length xs))) (concat (map enc xs) @ bs)) = Inr (xs, c)"
    using r bs by (simp add: wire_codec.read_list_iff [OF assms(1)])
  ultimately show ?lhs using bs(1) ux by (simp add: w_varint.read_back)
qed

interpretation w_stack: wire_codec stack_bytes read_witness_stack stack_ok
proof -
  have "read_witness_stack (wire_at pre suf) = Inr (st, c) \<longleftrightarrow> stack_ok st \<and> (\<exists>bs. suf = stack_bytes st @ bs \<and> c = wire_at (pre @ stack_bytes st) bs)"
    for pre suf st c
    using counted_iff [OF w_varbytes.wire_codec_axioms, of 1000 pre suf st c]
    by (auto simp: read_witness_stack_def stack_ok_def stack_bytes_def)
  then show "wire_codec stack_bytes read_witness_stack stack_ok"
    by unfold_locales blast+
qed


text \<open>
  What the parser reads as one transaction. A legacy transaction's input count is a single
  byte here: the code never reads it as a CompactSize.
\<close>

definition input_count_bytes :: "bool \<Rightarrow> u64 \<Rightarrow> bytes" where
  "input_count_bytes segwit n = (if segwit then [0, 1] @ write_varint n else [ucast n])"

definition tx_bytes :: "bool \<Rightarrow> cbf_tx \<Rightarrow> bytes" where
  "tx_bytes segwit t =
     to_le_bytes (ct_version t) @ input_count_bytes segwit (word_of_nat (length (ct_inputs t))) @
     concat (map tx_in_bytes (ct_inputs t)) @ write_varint (word_of_nat (length (ct_outputs t))) @
     concat (map tx_out_bytes (ct_outputs t)) @ concat (map stack_bytes (ct_witnesses t)) @ to_le_bytes (ct_lock_time t)"

definition tx_ok :: "bool \<Rightarrow> cbf_tx \<Rightarrow> bool" where
  "tx_ok segwit t \<longleftrightarrow>
     list_all tx_in_ok (ct_inputs t) \<and> list_all tx_out_ok (ct_outputs t) \<and> list_all stack_ok (ct_witnesses t) \<and>
     length (ct_outputs t) \<le> 1000000 \<and>
     (if segwit then length (ct_inputs t) \<le> 1000000 \<and> length (ct_witnesses t) = length (ct_inputs t)
      else 1 \<le> length (ct_inputs t) \<and> length (ct_inputs t) \<le> 255 \<and> ct_witnesses t = [])"

lemma read_input_count_iff:
  "read_input_count (wire_at pre suf) = Inr ((sw, n), c) \<longleftrightarrow>
     (\<not> sw \<longrightarrow> n \<noteq> 0 \<and> unat n \<le> 255) \<and>
     (\<exists>bs. suf = input_count_bytes sw n @ bs \<and> c = wire_at (pre @ input_count_bytes sw n) bs)" (is "?lhs \<longleftrightarrow> ?rhs")
proof
  assume ?lhs
  then consider (segwit) "sw" "\<exists>bs. suf = ([0] @ [1]) @ write_varint n @ bs \<and> c = wire_at (((pre @ [0]) @ [1]) @ write_varint n) bs"
    | (legacy) b bs where "\<not> sw" "b \<noteq> 0" "n = ucast (b :: u8)" "suf = [b] @ bs" "c = wire_at (pre @ [b]) bs"
    by (auto simp: read_input_count_def and_then_Inr wire_iffs split: if_splits)
  then show ?rhs
  proof cases
    case segwit
    then show ?thesis by (auto simp: input_count_bytes_def)
  next
    case legacy
    then have "unat n \<le> 255" "ucast n = b" using unat_bounds(1) [of b] by (simp_all add: unat_ucast_up ucast_down_up)
    moreover have "n \<noteq> 0" using legacy by (metis ucast_0 ucast_down_up calculation(2))
    ultimately show ?thesis using legacy by (simp add: input_count_bytes_def)
  qed
next
  assume r: ?rhs
  show ?lhs
  proof (cases sw)
    case True
    with r obtain bs where "suf = [0] @ [1] @ write_varint n @ bs" "c = wire_at (((pre @ [0]) @ [1]) @ write_varint n) bs"
      by (auto simp: input_count_bytes_def)
    then show ?thesis
      using True w_u8.read_back [where x = 0 and pre = pre] w_u8.read_back [where x = 1 and pre = "pre @ [0]"]
      by (simp add: read_input_count_def w_varint.read_back)
  next
    case False
    with r obtain bs where bs: "suf = [ucast n] @ bs" "c = wire_at (pre @ [ucast n]) bs" and n: "n \<noteq> 0" "unat n \<le> 255"
      by (auto simp: input_count_bytes_def)
    have up: "ucast (ucast n :: u8) = n" using n by (intro ucast_up_down) simp
    then have "(ucast n :: u8) \<noteq> 0" using n by auto
    then show ?thesis
      using False bs up w_u8.read_back [where x = "ucast n" and pre = pre] by (simp add: read_input_count_def)
  qed
qed


definition read_counted :: "nat \<Rightarrow> 'a wire_read \<Rightarrow> 'a list wire_read" where
  "read_counted limit rd c =
     and_then (cursor_read_varint c) (\<lambda>(n, c). if n > word_of_nat limit then Inl Protocol else read_count rd (unat n) c)"

lemma counted_bind:
  "and_then (cursor_read_varint c) (\<lambda>(n, c). if n > word_of_nat limit then Inl Protocol else and_then (read_count rd (unat n) c) k) =
     and_then (read_counted limit rd c) k"
  by (cases "cursor_read_varint c") (auto simp: read_counted_def split: prod.splits)

lemma tx_parse_steps:
  "tx_parse c =
     and_then (cursor_read_i32 c) (\<lambda>(ver, c).
     and_then (read_input_count c) (\<lambda>((segwit, input_count), c).
     if input_count > 1000000 then Inl Protocol else
     and_then (read_count read_tx_in (unat input_count) c) (\<lambda>(ins, c).
     and_then (read_counted 1000000 read_tx_out c) (\<lambda>(outs, c).
     and_then (if segwit then read_count read_witness_stack (unat input_count) c else Inr ([], c)) (\<lambda>(wits, c).
     and_then (cursor_read_u32 c) (\<lambda>(lock, c).
     Inr (\<lparr>ct_version = ver, ct_inputs = ins, ct_outputs = outs, ct_lock_time = lock,
           ct_witnesses = wits\<rparr>, c)))))))"
  unfolding tx_parse_def counted_bind [where limit = 1000000, simplified] ..

lemma counted_outs: "read_counted 1000000 read_tx_out (wire_at pre suf) = Inr (xs, c) \<longleftrightarrow>
    list_all tx_out_ok xs \<and> length xs \<le> 1000000 \<and>
    (\<exists>bs. suf = write_varint (word_of_nat (length xs)) @ concat (map tx_out_bytes xs) @ bs \<and>
       c = wire_at (pre @ write_varint (word_of_nat (length xs)) @ concat (map tx_out_bytes xs)) bs)"
  unfolding read_counted_def by (rule counted_iff [OF w_tx_out.wire_codec_axioms]) simp

lemma unat_small: "n \<le> 1000000 \<Longrightarrow> unat (word_of_nat n :: u64) = n" for n :: nat
  by (simp add: unat_of_nat)

lemma tx_parse_enc:
  assumes "tx_parse (wire_at pre suf) = Inr (t, c)"
  shows "\<exists>segwit. tx_ok segwit t \<and> (\<exists>bs. suf = tx_bytes segwit t @ bs \<and> c = wire_at (pre @ tx_bytes segwit t) bs)"
proof -
  from assms obtain ver s1 sw n s2 ins s3 outs s4 wits s5 lock s6 where
    s1: "suf = to_le_bytes ver @ s1"
    and n: "\<not> sw \<longrightarrow> n \<noteq> 0 \<and> unat n \<le> 255" "\<not> n > 1000000" and s2: "s1 = input_count_bytes sw n @ s2"
    and ins: "list_all tx_in_ok ins" "length ins = unat n" and s3: "s2 = concat (map tx_in_bytes ins) @ s3"
    and outs: "list_all tx_out_ok outs" "length outs \<le> 1000000"
    and s4: "s3 = write_varint (word_of_nat (length outs)) @ concat (map tx_out_bytes outs) @ s4"
    and wits: "list_all stack_ok wits" "if sw then length wits = unat n else wits = []" and s5: "s4 = concat (map stack_bytes wits) @ s5"
    and s6: "s5 = to_le_bytes lock @ s6"
    and c: "c = wire_at (((((( pre @ to_le_bytes ver) @ input_count_bytes sw n) @ concat (map tx_in_bytes ins)) @
        (write_varint (word_of_nat (length outs)) @ concat (map tx_out_bytes outs))) @ concat (map stack_bytes wits)) @ to_le_bytes lock) s6"
    and t: "t = \<lparr>ct_version = ver, ct_inputs = ins, ct_outputs = outs, ct_lock_time = lock, ct_witnesses = wits\<rparr>"
    unfolding tx_parse_steps
    by (auto simp: and_then_Inr wire_iffs read_input_count_iff w_tx_in.read_list_iff counted_outs w_stack.read_list_iff
        split: if_splits)
  have wn: "word_of_nat (length ins) = n" using ins(2) by simp
  have "tx_ok sw t"
    using n ins outs wits by (auto simp: tx_ok_def t word_less_nat_alt Suc_le_eq unat_gt_0 split: if_splits)
  moreover have "suf = tx_bytes sw t @ s6" "c = wire_at (pre @ tx_bytes sw t) s6"
    using s1 s2 s3 s4 s5 s6 c wn by (simp_all add: tx_bytes_def t)
  ultimately show ?thesis by blast
qed

lemma tx_parse_back:
  assumes "tx_ok segwit t"
  shows "tx_parse (wire_at pre (tx_bytes segwit t @ bs)) = Inr (t, wire_at (pre @ tx_bytes segwit t) bs)"
proof -
  let ?n = "word_of_nat (length (ct_inputs t)) :: u64"
  have len: "length (ct_inputs t) \<le> 1000000" using assms by (auto simp: tx_ok_def split: if_splits)
  have n: "unat ?n = length (ct_inputs t)" using len by (rule unat_small)
  have cnt: "read_input_count (wire_at p (input_count_bytes segwit ?n @ q)) = Inr ((segwit, ?n), wire_at (p @ input_count_bytes segwit ?n) q)" for p q
    using assms n by (auto simp: read_input_count_iff tx_ok_def word_unat_eq_iff split: if_splits)
  have le: "\<not> ?n > 1000000" using len n by (simp add: word_less_nat_alt)
  have ins: "read_count read_tx_in (length (ct_inputs t)) (wire_at p (concat (map tx_in_bytes (ct_inputs t)) @ q)) =
      Inr (ct_inputs t, wire_at (p @ concat (map tx_in_bytes (ct_inputs t))) q)" for p q
    using assms by (simp add: w_tx_in.read_list_iff tx_ok_def)
  have outs: "read_counted 1000000 read_tx_out (wire_at p (write_varint (word_of_nat (length (ct_outputs t))) @ concat (map tx_out_bytes (ct_outputs t)) @ q)) =
      Inr (ct_outputs t, wire_at (p @ write_varint (word_of_nat (length (ct_outputs t))) @ concat (map tx_out_bytes (ct_outputs t))) q)" for p q
    using assms by (simp add: counted_outs tx_ok_def)
  have wits: "read_count read_witness_stack (length (ct_inputs t)) (wire_at p (concat (map stack_bytes (ct_witnesses t)) @ q)) =
      Inr (ct_witnesses t, wire_at (p @ concat (map stack_bytes (ct_witnesses t))) q)" if segwit for p q
    using assms that by (simp add: w_stack.read_list_iff tx_ok_def)
  have none: "ct_witnesses t = []" if "\<not> segwit" using assms that by (simp add: tx_ok_def)
  have eta: "\<lparr>ct_version = ct_version t, ct_inputs = ct_inputs t, ct_outputs = ct_outputs t, ct_lock_time = ct_lock_time t,
      ct_witnesses = ct_witnesses t\<rparr> = t" by simp
  show ?thesis
  proof (cases segwit)
    case True
    with cnt wits show ?thesis unfolding tx_parse_steps tx_bytes_def
      by (simp add: w_i32.read_back le n ins outs w_u32.read_back)
  next
    case False
    with cnt none eta show ?thesis unfolding tx_parse_steps tx_bytes_def
      by (simp add: w_i32.read_back le n ins outs w_u32.read_back)
  qed
qed

lemma tx_parse_iff:
  "tx_parse (wire_at pre suf) = Inr (t, c) \<longleftrightarrow>
     (\<exists>segwit. tx_ok segwit t \<and> (\<exists>bs. suf = tx_bytes segwit t @ bs \<and> c = wire_at (pre @ tx_bytes segwit t) bs))"
  using tx_parse_enc tx_parse_back by blast


section \<open>Blocks\<close>

definition txs_bytes :: "bool list \<Rightarrow> cbf_tx list \<Rightarrow> bytes" where
  "txs_bytes flags ts = concat (map2 tx_bytes flags ts)"

lemma read_txs_iff:
  "read_count tx_parse n (wire_at pre suf) = Inr (ts, c) \<longleftrightarrow>
     length ts = n \<and> (\<exists>flags. list_all2 tx_ok flags ts \<and>
       (\<exists>bs. suf = txs_bytes flags ts @ bs \<and> c = wire_at (pre @ txs_bytes flags ts) bs))"
proof (induction n arbitrary: pre suf ts)
  case 0
  show ?case by (auto simp: txs_bytes_def)
next
  case (Suc n)
  have "read_count tx_parse (Suc n) (wire_at pre suf) = Inr (ts, c) \<longleftrightarrow>
      (\<exists>t us f bs. ts = t # us \<and> tx_ok f t \<and> suf = tx_bytes f t @ bs \<and>
        read_count tx_parse n (wire_at (pre @ tx_bytes f t) bs) = Inr (us, c))"
    by (auto simp: and_then_Inr tx_parse_iff split: prod.splits)
  also have "\<dots> \<longleftrightarrow> (\<exists>t us f fs bs. ts = t # us \<and> length us = n \<and> tx_ok f t \<and> list_all2 tx_ok fs us \<and>
      suf = tx_bytes f t @ txs_bytes fs us @ bs \<and> c = wire_at ((pre @ tx_bytes f t) @ txs_bytes fs us) bs)"
    unfolding Suc.IH by blast
  also have "\<dots> \<longleftrightarrow> (\<exists>t us f fs bs. ts = t # us \<and> length us = n \<and> list_all2 tx_ok (f # fs) ts \<and>
      suf = txs_bytes (f # fs) ts @ bs \<and> c = wire_at (pre @ txs_bytes (f # fs) ts) bs)"
    by (intro ex_cong1) (auto simp: txs_bytes_def)
  also have "\<dots> \<longleftrightarrow> length ts = Suc n \<and> (\<exists>flags. list_all2 tx_ok flags ts \<and>
       (\<exists>bs. suf = txs_bytes flags ts @ bs \<and> c = wire_at (pre @ txs_bytes flags ts) bs))"
    by (cases ts) (auto simp: list_all2_Cons2)
  finally show ?case .
qed

definition block_ok :: "bool list \<Rightarrow> cbf_block \<Rightarrow> bool" where
  "block_ok flags b \<longleftrightarrow> header_ok (cb_header b) \<and> length (cb_txs b) \<le> 1000000 \<and> list_all2 tx_ok flags (cb_txs b)"

definition block_bytes :: "bool list \<Rightarrow> cbf_block \<Rightarrow> bytes" where
  "block_bytes flags b =
     header_serialize (cb_header b) @ write_varint (word_of_nat (length (cb_txs b))) @ txs_bytes flags (cb_txs b)"

lemma block_parse_enc:
  assumes "block_parse bs = Inr b"
  shows "\<exists>flags. block_ok flags b \<and> bs = block_bytes flags b"
proof -
  from assms obtain hb s1 n ts c where hb: "length hb = 80" "bs = hb @ s1" and h: "header_parse hb = Inr (cb_header b)"
    and n: "\<not> n > 1000000" and ts: "ts = cb_txs b"
    and rd: "cursor_read_varint (wire_at ([] @ hb) s1) = Inr (n, c)"
    and rest: "\<exists>c'. read_count tx_parse (unat n) c = Inr (ts, c') \<and> cursor_is_empty c'"
    by (auto simp: block_parse_def cursor_new_at and_then_Inr read_bytes_iff split: if_splits)
  from rd obtain s2 where s2: "s1 = write_varint n @ s2" "c = wire_at (([] @ hb) @ write_varint n) s2"
    by (auto simp: w_varint.read_iff)
  with rest obtain flags where f: "length ts = unat n" "list_all2 tx_ok flags ts" "s2 = txs_bytes flags ts"
    by (auto simp: read_txs_iff)
  moreover from this(1) have "word_of_nat (length ts) = n" by simp
  ultimately show ?thesis
    using hb h n s2 ts by (auto simp: block_ok_def block_bytes_def header_parse_iff word_less_nat_alt)
qed

lemma block_parse_back: "block_ok flags b \<Longrightarrow> block_parse (block_bytes flags b) = Inr b"
proof -
  assume ok: "block_ok flags b"
  let ?h = "header_serialize (cb_header b)" and ?n = "word_of_nat (length (cb_txs b)) :: u64"
  have h: "length ?h = 80" "header_parse ?h = Inr (cb_header b)"
    using ok by (simp_all add: block_ok_def length_header_serialize header_parse_iff)
  have n: "unat ?n = length (cb_txs b)" "\<not> ?n > 1000000"
    using ok by (simp_all add: block_ok_def unat_small word_less_nat_alt)
  have "read_count tx_parse (length (cb_txs b)) (wire_at p (txs_bytes flags (cb_txs b))) =
      Inr (cb_txs b, wire_at (p @ txs_bytes flags (cb_txs b)) [])" for p
    using ok by (auto simp: read_txs_iff block_ok_def)
  then show "block_parse (block_bytes flags b) = Inr b"
    using h n by (simp add: block_parse_def block_bytes_def cursor_new_at w_bytes.read_back w_varint.read_back)
qed

lemma legacy_count: "1 \<le> n \<Longrightarrow> n \<le> 252 \<Longrightarrow> input_count_bytes False (word_of_nat n) = write_varint (word_of_nat n)" for n :: nat
  by (simp add: input_count_bytes_def write_varint_def word_less_nat_alt unat_of_nat)

lemma tx_bytes_legacy:
  "tx_ok False t \<Longrightarrow> length (ct_inputs t) \<le> 252 \<Longrightarrow> tx_bytes False t = serialize_legacy t"
  by (simp add: tx_bytes_def serialize_legacy_def tx_ok_def legacy_count)

lemma big_count: "253 \<le> n \<Longrightarrow> n < 2 ^ 16 \<Longrightarrow> \<exists>r. write_varint (word_of_nat n) = 0xfd # r" for n :: nat
  by (simp add: write_varint_def word_less_nat_alt word_le_nat_alt unat_of_nat)


section \<open>Properties\<close>

text \<open>
  Block parsing is exact. A byte string parses to a block if and only if it is the
  header, the CompactSize transaction count and the encodings of its transactions, each in legacy or
  segwit form, within the limits of the code and with nothing left over; every CompactSize in it is in
  shortest form. For a legacy transaction of 1 to 252 inputs that encoding is the one its id commits to.
\<close>
theorem block_parse_exact:
  "(block_parse bs = Inr b \<longleftrightarrow> (\<exists>flags. block_ok flags b \<and> bs = block_bytes flags b)) \<and>
   (tx_ok False t \<and> length (ct_inputs t) \<le> 252 \<longrightarrow> tx_bytes False t = serialize_legacy t)"
  using block_parse_enc block_parse_back tx_bytes_legacy by blast

definition demo_tx :: cbf_tx where
  "demo_tx =
     \<lparr>ct_version = 2, ct_inputs = [\<lparr>ci_prev = \<lparr>co_txid = replicate 32 9, co_vout = 1\<rparr>, ci_script_sig = [], ci_sequence = 0xfffffffd\<rparr>],
      ct_outputs = [\<lparr>cx_value = 0, cx_script_pubkey = []\<rparr>], ct_lock_time = 0, ct_witnesses = []\<rparr>"

lemma demo_tx_ok: "tx_ok False demo_tx"
  by (simp add: tx_ok_def demo_tx_def tx_in_ok_def tx_out_ok_def)

theorem block_parse_exact_witness: "tx_bytes False demo_tx = serialize_legacy demo_tx"
  using block_parse_exact [of undefined undefined demo_tx] demo_tx_ok by (simp add: demo_tx_def)

text \<open>
  A legacy transaction of more than 253 (and fewer than 65536) inputs is never
  read back from its own serialization: the parser takes the CompactSize prefix 0xfd of the input
  count for a count of 253.
\<close>
theorem legacy_many_inputs_misparsed:
  assumes "253 < length (ct_inputs t)" and "length (ct_inputs t) < 2 ^ 16"
  shows "tx_parse (cursor_new (serialize_legacy t @ bs)) \<noteq> Inr (t, c)"
proof
  assume parsed: "tx_parse (cursor_new (serialize_legacy t @ bs)) = Inr (t, c)"
  obtain r where r: "write_varint (word_of_nat (length (ct_inputs t))) = 0xfd # r"
    using big_count [of "length (ct_inputs t)"] assms by auto
  from parsed obtain sw us where ok: "tx_ok sw t" and eq: "serialize_legacy t @ bs = tx_bytes sw t @ us"
    by (auto simp: cursor_new_at tx_parse_iff)
  have hd: "hd (drop 4 (serialize_legacy t @ bs)) = 0xfd" by (simp add: serialize_legacy_def r)
  then have "\<not> sw" unfolding eq by (auto simp: tx_bytes_def input_count_bytes_def)
  with ok have "length (ct_inputs t) \<le> 255" by (simp add: tx_ok_def)
  then have "unat (word_of_nat (length (ct_inputs t)) :: u64) = length (ct_inputs t)" by (simp add: unat_of_nat)
  moreover from hd \<open>\<not> sw\<close> have "(ucast (word_of_nat (length (ct_inputs t)) :: u64) :: u8) = 0xfd"
    unfolding eq by (simp add: tx_bytes_def input_count_bytes_def)
  ultimately show False
    using \<open>length (ct_inputs t) \<le> 255\<close> assms(1) by (simp add: word_unat_eq_iff unat_ucast)
qed

definition many_inputs_tx :: cbf_tx where
  "many_inputs_tx = demo_tx\<lparr>ct_inputs := replicate 300 (hd (ct_inputs demo_tx))\<rparr>"

theorem legacy_many_inputs_misparsed_witness:
  "tx_parse (cursor_new (serialize_legacy many_inputs_tx @ [])) \<noteq> Inr (many_inputs_tx, wire_at [] [])"
  by (rule legacy_many_inputs_misparsed) (simp_all add: many_inputs_tx_def)

end
