(* ===== verification/Cbf_Merkle.thy ===== *)
theory Cbf_Merkle
  imports Cbf_Codec
begin

text \<open>
  What a merkle root commits to: the list of transaction ids up to a hash collision when its length
  is known, and not its length.
\<close>

section \<open>Levels\<close>

definition sha_ok :: "sha256_fn \<Rightarrow> bool" where
  "sha_ok sha \<longleftrightarrow> (\<forall>m. length (sha m) = 32)"

definition leaves_ok :: "bytes list \<Rightarrow> bool" where
  "leaves_ok xs \<longleftrightarrow> list_all (\<lambda>x. length x = 32) xs"

text \<open>The 64 bytes a pair is hashed from.\<close>

definition pair_data :: "bytes list \<Rightarrow> bytes" where
  "pair_data pair = hd pair @ last pair"

lemma merkle_pair_data:
  "length (hd pair) = 32 \<Longrightarrow> length (last pair) = 32 \<Longrightarrow> merkle_pair sha pair = sha256d sha (pair_data pair)"
  by (simp add: merkle_pair_def pair_data_def copy_at_def)

lemma length_sha256d [simp]: "sha_ok sha \<Longrightarrow> length (sha256d sha m) = 32"
  by (simp add: sha256d_def sha_ok_def)

lemma chunks2_members:
  "c \<in> set (chunks 2 xs) \<Longrightarrow> c \<noteq> [] \<and> length c \<le> 2 \<and> set c \<subseteq> set xs"
proof -
  assume c: "c \<in> set (chunks 2 xs)"
  then have "set c \<subseteq> set (concat (chunks 2 xs))" by auto
  then show ?thesis using c chunks_length_bounds [of 2 c xs] by (simp add: concat_chunks)
qed

lemma chunk_leaves:
  assumes "leaves_ok xs" "c \<in> set (chunks 2 xs)"
  shows "length (hd c) = 32" "length (last c) = 32"
proof -
  have "hd c \<in> set xs" "last c \<in> set xs"
    using chunks2_members [OF assms(2)] hd_in_set last_in_set by blast+
  then show "length (hd c) = 32" "length (last c) = 32" using assms(1) by (simp_all add: leaves_ok_def list_all_iff)
qed

lemma level_ok: "sha_ok sha \<Longrightarrow> leaves_ok xs \<Longrightarrow> leaves_ok (map (merkle_pair sha) (chunks 2 xs))"
  using chunk_leaves by (auto simp: leaves_ok_def list_all_iff merkle_pair_data)

lemma pair_data_inj:
  assumes "length c = length d" "c \<noteq> []" "length c \<le> 2"
    and "length (hd c) = 32" "length (hd d) = 32" and "pair_data c = pair_data d"
  shows "c = d"
proof -
  have "hd c = hd d \<and> last c = last d" using assms by (auto simp: pair_data_def)
  moreover obtain a r where "c = a # r" using assms(2) by (cases c) auto
  moreover obtain b q where "d = b # q" using assms(1,2) by (cases d) auto
  ultimately show ?thesis using assms(1,3) by (cases r; cases q) auto
qed

text \<open>The lengths of the chunks depend on the length of the list alone.\<close>

lemma chunks_same_lengths: "length xs = length ys \<Longrightarrow> map length (chunks n xs) = map length (chunks n ys)"
proof (induction n xs arbitrary: ys rule: chunks.induct)
  case (1 n xs)
  then show ?case by (subst (1 2) chunks.simps) auto
qed

definition sha256d_collision :: "sha256_fn \<Rightarrow> bool" where
  "sha256d_collision sha \<longleftrightarrow> (\<exists>u v. u \<noteq> v \<and> length u = 64 \<and> length v = 64 \<and> sha256d sha u = sha256d sha v)"

lemma level_binding:
  assumes "sha_ok sha" "leaves_ok xs" "leaves_ok ys" "length xs = length ys"
    and eq: "map (merkle_pair sha) (chunks 2 xs) = map (merkle_pair sha) (chunks 2 ys)"
  shows "xs = ys \<or> sha256d_collision sha"
proof (cases "map pair_data (chunks 2 xs) = map pair_data (chunks 2 ys)")
  case True
  have lens: "map length (chunks 2 xs) = map length (chunks 2 ys)" using assms(4) by (rule chunks_same_lengths)
  have "chunks 2 xs = chunks 2 ys"
  proof (rule nth_equalityI)
    show n: "length (chunks 2 xs) = length (chunks 2 ys)" using lens by (metis length_map)
    fix i assume i: "i < length (chunks 2 xs)"
    let ?c = "chunks 2 xs ! i" and ?d = "chunks 2 ys ! i"
    have mem: "?c \<in> set (chunks 2 xs)" "?d \<in> set (chunks 2 ys)" using i n by auto
    have "length ?c = length ?d" "pair_data ?c = pair_data ?d"
      using i n arg_cong [OF lens, of "\<lambda>l. l ! i"] arg_cong [OF True, of "\<lambda>l. l ! i"] by simp_all
    moreover have "?c \<noteq> []" "length ?c \<le> 2" using chunks2_members [OF mem(1)] by simp_all
    ultimately show "?c = ?d"
      using chunk_leaves(1) [OF assms(2) mem(1)] chunk_leaves(1) [OF assms(3) mem(2)] by (intro pair_data_inj)
  qed
  then have "concat (chunks 2 xs) = concat (chunks 2 ys)" by (rule arg_cong)
  then show ?thesis by (simp add: concat_chunks)
next
  case False
  have n: "length (chunks 2 xs) = length (chunks 2 ys)" using eq by (metis length_map)
  with False obtain i where i: "i < length (chunks 2 xs)" and ne: "pair_data (chunks 2 xs ! i) \<noteq> pair_data (chunks 2 ys ! i)"
    by (auto simp: list_eq_iff_nth_eq)
  let ?c = "chunks 2 xs ! i" and ?d = "chunks 2 ys ! i"
  have mem: "?c \<in> set (chunks 2 xs)" "?d \<in> set (chunks 2 ys)" using i n by auto
  note l = chunk_leaves [OF assms(2) mem(1)] chunk_leaves [OF assms(3) mem(2)]
  have "sha256d sha (pair_data ?c) = sha256d sha (pair_data ?d)"
    using arg_cong [OF eq, of "\<lambda>l. l ! i"] i n l by (simp add: merkle_pair_data)
  moreover have "length (pair_data ?c) = 64" "length (pair_data ?d) = 64" using l by (simp_all add: pair_data_def)
  ultimately show ?thesis using ne by (auto simp: sha256d_collision_def)
qed

lemma merkle_binding:
  assumes "sha_ok sha" "leaves_ok xs" "leaves_ok ys" "length xs = length ys" "xs \<noteq> []"
    and "merkle_loop sha xs = merkle_loop sha ys"
  shows "xs = ys \<or> sha256d_collision sha"
  using assms
proof (induction sha xs arbitrary: ys rule: merkle_loop.induct)
  case (1 sha xs)
  show ?case
  proof (cases "length xs > 1")
    case True
    let ?f = "\<lambda>zs. map (merkle_pair sha) (chunks 2 zs)"
    have "merkle_loop sha (?f xs) = merkle_loop sha (?f ys)"
      using 1(7) True 1(5) by (metis merkle_loop.simps)
    moreover have "length (?f xs) = length (?f ys)" using 1(5) by (simp add: length_chunks)
    moreover have "?f xs \<noteq> []" using 1(6) by (simp add: chunks_step)
    ultimately have "?f xs = ?f ys \<or> sha256d_collision sha"
      using 1(1) [OF True 1(2) level_ok [OF 1(2,3)] level_ok [OF 1(2,4)]] by blast
    then show ?thesis using level_binding [OF 1(2-5)] by blast
  next
    case False
    with 1(5,6) obtain x y where "xs = [x]" "ys = [y]" by (cases xs; cases ys) auto
    with 1(7) show ?thesis by (simp add: merkle_loop.simps)
  qed
qed

text \<open>An odd level hashes its last element with itself, so repeating it changes nothing.\<close>

lemma merkle_duplicate_last:
  assumes "even (length xs)" "xs \<noteq> []"
  shows "merkle_loop sha (xs @ [x, x]) = merkle_loop sha (xs @ [x])"
proof -
  have "chunks 2 (xs @ [x, x]) = chunks 2 xs @ [[x, x]]" "chunks 2 (xs @ [x]) = chunks 2 xs @ [[x]]"
    using assms(1) chunks_append [of 2 xs] by (simp_all add: chunks_step [of 2 "[x, x]"] chunks_step [of 2 "[x]"])
  moreover have "merkle_pair sha [x, x] = merkle_pair sha [x]" by (simp add: merkle_pair_def)
  moreover have "length (xs @ [x, x]) > 1" "length (xs @ [x]) > 1" using assms by (cases xs; simp)+
  ultimately show ?thesis by (subst (1 2) merkle_loop.simps) simp
qed


section \<open>Properties\<close>

lemma txids_ok: "sha_ok sha \<Longrightarrow> leaves_ok (map (tx_txid sha) txs)"
  by (simp add: leaves_ok_def list_all_iff tx_txid_def)


definition demo_sha :: sha256_fn where
  "demo_sha m = take 32 (m @ replicate 32 0)"

lemma demo_sha_ok: "sha_ok demo_sha"
  by (auto simp: sha_ok_def demo_sha_def min_def)

definition demo_header :: block_header where
  "demo_header = \<lparr>bh_version = 1, bh_prev_block = replicate 32 0, bh_merkle_root = replicate 32 0, bh_time = 0, bh_bits = 0, bh_nonce = 0\<rparr>"


text \<open>
  The root does not commit to the number of transactions: a block with an odd
  number of at least three transactions has the same recomputed root when its last transaction is
  listed twice, so a peer can serve one transaction at two positions of a block that passes the check.
\<close>
theorem merkle_root_ignores_repeated_last:
  assumes "odd (length txs)" and "3 \<le> length txs"
  shows "compute_merkle_root sha \<lparr>cb_header = h, cb_txs = txs @ [last txs]\<rparr> =
    compute_merkle_root sha \<lparr>cb_header = h, cb_txs = txs\<rparr>"
proof -
  obtain us t where txs: "txs = us @ [t]" using assms by (cases txs rule: rev_cases) auto
  then have "even (length us)" "us \<noteq> []" using assms by auto
  then show ?thesis
    using merkle_duplicate_last [of "map (tx_txid sha) us" sha "tx_txid sha t"]
    by (simp add: compute_merkle_root_def merkle_root_def txs)
qed

theorem merkle_root_ignores_repeated_last_witness:
  "compute_merkle_root demo_sha \<lparr>cb_header = demo_header, cb_txs = [demo_tx, demo_tx, demo_tx] @ [last [demo_tx, demo_tx, demo_tx]]\<rparr> =
    compute_merkle_root demo_sha \<lparr>cb_header = demo_header, cb_txs = [demo_tx, demo_tx, demo_tx]\<rparr>"
  by (rule merkle_root_ignores_repeated_last) simp_all

end
