(* ===== verification/Cbf_Peer.thy ===== *)
theory Cbf_Peer
  imports Cbf_Gcs Cbf_Merkle
begin

text \<open>
  The peer-to-peer protocol of the light client: message framing and payloads
  (\<open>crates/opencsv-cbf/src/messages.rs\<close>) and the blocking peer (\<open>peer.rs\<close>). A connection is
  what the remote side will send, an arbitrary finite list in which \<open>None\<close> is a read that fails or times
  out, together with the number of writes that will still succeed and what was written so far. A
  remote party that adapts to our requests is one such list, so theorems over all lists cover it.
\<close>

unbundle bit_operations_syntax

section \<open>Messages\<close>

definition PROTOCOL_VERSION :: u32 where "PROTOCOL_VERSION = 70016"
definition NODE_WITNESS :: u64 where "NODE_WITNESS = push_bit 3 1"
definition NODE_COMPACT_FILTERS :: u64 where "NODE_COMPACT_FILTERS = push_bit 6 1"
definition MSG_BLOCK :: u32 where "MSG_BLOCK = 2"
definition MSG_WITNESS_BLOCK :: u32 where "MSG_WITNESS_BLOCK = 0x40000002"
definition MAX_PAYLOAD :: nat where "MAX_PAYLOAD = 32 * 1024 * 1024"

record message =
  ms_command :: string
  ms_payload :: bytes
  ms_wire_bytes :: nat

type_synonym in_stream = "byte option list"

definition command_bytes :: "string \<Rightarrow> bytes" where
  "command_bytes cmd = map (\<lambda>ch. word_of_nat (of_char ch)) cmd"

text \<open>Every command the client sends is a literal of at most twelve characters.\<close>

definition frame :: "sha256_fn \<Rightarrow> u32 \<Rightarrow> string \<Rightarrow> bytes \<Rightarrow> bytes" where
  "frame sha magic cmd payload =
     to_le_bytes magic @ copy_at 0 (command_bytes cmd) (replicate 12 0) @
     to_le_bytes (word_of_nat (length payload) :: u32) @ take 4 (sha256d sha payload) @ payload"

fun read_exact :: "nat \<Rightarrow> in_stream \<Rightarrow> (cbf_error + bytes) \<times> in_stream" where
  "read_exact 0 s = (Inr [], s)"
| "read_exact (Suc n) [] = (Inl Io, [])"
| "read_exact (Suc n) (None # s) = (Inl Io, s)"
| "read_exact (Suc n) (Some b # s) =
     (case read_exact n s of (Inl e, s) \<Rightarrow> (Inl e, s) | (Inr bs, s) \<Rightarrow> (Inr (b # bs), s))"

text \<open>
  The fields of the 24-byte header: command, length and checksum. A byte that is not UTF-8 is not
  printable either, and both are refused with the same variant.
\<close>

definition parse_message_header :: "u32 \<Rightarrow> bytes \<Rightarrow> cbf_error + string \<times> nat \<times> bytes" where
  "parse_message_header magic header =
     and_then (cursor_read_u32 (cursor_new header)) (\<lambda>(m, c).
       if m \<noteq> magic then Inl Protocol
       else and_then (cursor_read_bytes 12 c) (\<lambda>(cmd, c).
         let cmd = takeWhile (\<lambda>b. b \<noteq> 0) cmd in
         if \<not> list_all (\<lambda>b. 0x20 \<le> b \<and> b \<le> 0x7e) cmd then Inl Protocol
         else and_then (cursor_read_u32 c) (\<lambda>(len, c).
           and_then (cursor_read_bytes 4 c) (\<lambda>(checksum, c).
             if unat len > MAX_PAYLOAD then Inl Protocol
             else Inr (map (\<lambda>b. char_of (unat b)) cmd, unat len, checksum)))))"

definition read_message :: "sha256_fn \<Rightarrow> u32 \<Rightarrow> in_stream \<Rightarrow> (cbf_error + message) \<times> in_stream" where
  "read_message sha magic s =
     (case read_exact 24 s of
        (Inl e, s) \<Rightarrow> (Inl e, s)
      | (Inr header, s) \<Rightarrow>
          (case parse_message_header magic header of
             Inl e \<Rightarrow> (Inl e, s)
           | Inr (cmd, len, checksum) \<Rightarrow>
               (case read_exact len s of
                  (Inl e, s) \<Rightarrow> (Inl e, s)
                | (Inr payload, s) \<Rightarrow>
                    (if take 4 (sha256d sha payload) \<noteq> checksum then (Inl Protocol, s)
                     else (Inr \<lparr>ms_command = cmd, ms_payload = payload, ms_wire_bytes = 24 + len\<rparr>, s)))))"

text \<open>The wall clock is an argument.\<close>

definition version_payload :: "u64 \<Rightarrow> u64 \<Rightarrow> u32 \<Rightarrow> bytes" where
  "version_payload now our_services start_height =
     to_le_bytes PROTOCOL_VERSION @ to_le_bytes our_services @ to_le_bytes now @
     concat (replicate 2 (to_le_bytes (0 :: u64) @ replicate 16 0 @ to_be_bytes (0 :: u16))) @
     to_le_bytes (0x6f636e6376 :: u64) @ write_varbytes (command_bytes ''/opencsv-cbf:0.1.0/'') @
     to_le_bytes start_height @ [0]"

record version_info =
  vi_version :: u32
  vi_services :: u64
  vi_start_height :: u32

definition parse_version :: "bytes \<Rightarrow> cbf_error + version_info" where
  "parse_version payload =
     and_then (cursor_read_i32 (cursor_new payload)) (\<lambda>(version, c).
     and_then (cursor_read_u64 c) (\<lambda>(services, c).
     and_then (cursor_read_i64 c) (\<lambda>(_, c).
     and_then (cursor_read_bytes 26 c) (\<lambda>(_, c).
     and_then (if cursor_remaining c \<ge> 26 then map_sum id snd (cursor_read_bytes 26 c) else Inr c) (\<lambda>c.
     and_then (if cursor_remaining c \<ge> 8 then map_sum id snd (cursor_read_u64 c) else Inr c) (\<lambda>c.
     and_then (if cursor_is_empty c then Inr 0
               else and_then (cursor_read_varbytes c) (\<lambda>(_, c).
                 if cursor_remaining c \<ge> 4 then map_sum id fst (cursor_read_i32 c) else Inr 0)) (\<lambda>start_height.
     Inr \<lparr>vi_version = version, vi_services = services, vi_start_height = start_height\<rparr>)))))))"

definition getheaders_payload :: "bytes list \<Rightarrow> bytes \<Rightarrow> bytes" where
  "getheaders_payload locator stop =
     to_le_bytes PROTOCOL_VERSION @ write_varint (word_of_nat (length locator)) @ concat locator @ stop"

definition read_header_entry :: "block_header wire_read" where
  "read_header_entry c =
     and_then (cursor_read_bytes 80 c) (\<lambda>(bs, c).
     and_then (header_parse bs) (\<lambda>header.
     and_then (cursor_read_varint c) (\<lambda>(n, c). if n \<noteq> 0 then Inl Protocol else Inr (header, c))))"

definition parse_headers :: "bytes \<Rightarrow> cbf_error + block_header list" where
  "parse_headers payload =
     and_then (cursor_read_varint (cursor_new payload)) (\<lambda>(count, c).
       if count > 2000 then Inl Protocol else map_sum id fst (read_count read_header_entry (unat count) c))"

definition getcfilter_range_payload :: "u8 \<Rightarrow> u32 \<Rightarrow> bytes \<Rightarrow> bytes" where
  "getcfilter_range_payload filter_type start_height stop_hash = filter_type # to_le_bytes start_height @ stop_hash"

record cf_headers =
  cfh_stop_hash :: bytes
  cfh_previous_filter_header :: bytes
  cfh_filter_hashes :: "bytes list"

definition parse_cfheaders :: "bytes \<Rightarrow> cbf_error + cf_headers" where
  "parse_cfheaders payload =
     and_then (cursor_read_u8 (cursor_new payload)) (\<lambda>(filter_type, c).
       if filter_type \<noteq> BASIC_FILTER_TYPE then Inl Protocol
       else and_then (cursor_read_hash c) (\<lambda>(stop_hash, c).
         and_then (cursor_read_hash c) (\<lambda>(prev, c).
         and_then (cursor_read_varint c) (\<lambda>(count, c).
           if count > 2000 then Inl Protocol
           else and_then (read_count cursor_read_hash (unat count) c) (\<lambda>(hashes, c).
             Inr \<lparr>cfh_stop_hash = stop_hash, cfh_previous_filter_header = prev, cfh_filter_hashes = hashes\<rparr>)))))"

record c_filter =
  cfi_block_hash :: bytes
  cfi_filter_bytes :: bytes

definition parse_cfilter :: "bytes \<Rightarrow> cbf_error + c_filter" where
  "parse_cfilter payload =
     and_then (cursor_read_u8 (cursor_new payload)) (\<lambda>(filter_type, c).
       if filter_type \<noteq> BASIC_FILTER_TYPE then Inl Protocol
       else and_then (cursor_read_hash c) (\<lambda>(block_hash, c).
         and_then (cursor_read_varbytes c) (\<lambda>(filter_bytes, c).
         Inr \<lparr>cfi_block_hash = block_hash, cfi_filter_bytes = filter_bytes\<rparr>)))"

definition getdata_payload :: "u32 \<Rightarrow> bytes \<Rightarrow> bytes" where
  "getdata_payload inv_type hash = write_varint 1 @ to_le_bytes inv_type @ hash"

definition parse_block_message :: "bytes \<Rightarrow> cbf_error + cbf_block" where
  "parse_block_message payload = block_parse payload"

section \<open>The peer\<close>

record peer =
  pe_in :: in_stream
  pe_writes :: nat
  pe_out :: bytes
  pe_magic :: u32
  pe_services :: u64
  pe_start_height :: u32
  pe_filter_bytes_fetched :: u64
  pe_block_bytes_fetched :: u64
  pe_versions_sent :: u64
  pe_wire_bytes_sent :: u64
  pe_wire_bytes_received :: u64

definition peer_write_message :: "sha256_fn \<Rightarrow> string \<Rightarrow> bytes \<Rightarrow> peer \<Rightarrow> (cbf_error + unit) \<times> peer" where
  "peer_write_message sha cmd payload p =
     (let out = frame sha (pe_magic p) cmd payload in
      if pe_writes p = 0 then (Inl Io, p)
      else (Inr (), p\<lparr>pe_writes := pe_writes p - 1, pe_out := pe_out p @ out,
                      pe_wire_bytes_sent := pe_wire_bytes_sent p + word_of_nat (length out)\<rparr>))"

text \<open>A framed read with its byte count; every failure is reported as a protocol error.\<close>

definition peer_read :: "sha256_fn \<Rightarrow> peer \<Rightarrow> (cbf_error + message) \<times> peer" where
  "peer_read sha p =
     (case read_message sha (pe_magic p) (pe_in p) of
        (Inl e, s) \<Rightarrow> (Inl Protocol, p\<lparr>pe_in := s\<rparr>)
      | (Inr m, s) \<Rightarrow> (Inr m, p\<lparr>pe_in := s,
          pe_wire_bytes_received := pe_wire_bytes_received p + word_of_nat (ms_wire_bytes m)\<rparr>))"

definition ignored_commands :: "string list" where
  "ignored_commands =
     [''getaddr'', ''mempool'', ''sendheaders'', ''sendcmpct'', ''feefilter'', ''inv'', ''addr'',
      ''wtxidrelay'', ''sendaddrv2'', ''pong'', ''getdata'']"

lemma read_exact_length:
  "read_exact n s = (Inr bs, s') \<Longrightarrow> s = map Some bs @ s' \<and> length bs = n"
  by (induction n s arbitrary: bs s' rule: read_exact.induct) (auto split: prod.splits sum.splits)

lemma read_exact_suffix: "length (snd (read_exact n s)) \<le> length s"
proof (induction n s rule: read_exact.induct)
  case (4 n b s)
  then show ?case by (auto split: prod.splits sum.splits)
qed simp_all

lemma read_message_shrinks: "read_message sha magic s = (Inr m, s') \<Longrightarrow> length s' + 24 \<le> length s"
  by (auto simp: read_message_def split: prod.splits sum.splits if_splits dest!: read_exact_length)

lemma read_message_suffix: "length (snd (read_message sha magic s)) \<le> length s"
proof -
  obtain r s1 where r1: "read_exact 24 s = (r, s1)" by fastforce
  then have le: "length s1 \<le> length s" using read_exact_suffix [of 24 s] by simp
  have "length (snd (read_exact n s1)) \<le> length s1" for n by (rule read_exact_suffix)
  then show ?thesis using le r1 by (auto simp: read_message_def split: prod.splits sum.splits) (metis le_trans snd_conv)+
qed

lemma peer_read_shrinks: "peer_read sha p = (Inr m, q) \<Longrightarrow> length (pe_in q) + 24 \<le> length (pe_in p)"
  by (auto simp: peer_read_def split: prod.splits sum.splits dest!: read_message_shrinks)

lemma peer_write_in: "peer_write_message sha cmd payload p = (r, q) \<Longrightarrow> pe_in q = pe_in p"
  by (auto simp: peer_write_message_def Let_def split: if_splits)

text \<open>
  The read loop answers pings and unsolicited requests and drops announcements. Every pass consumes at
  least one message header of the finite stream.
\<close>

function next_message :: "sha256_fn \<Rightarrow> peer \<Rightarrow> (cbf_error + message) \<times> peer" where
  "next_message sha p =
     (case peer_read sha p of
        (Inl e, p) \<Rightarrow> (Inl e, p)
      | (Inr m, p) \<Rightarrow>
          (if ms_command m = ''ping'' then
             (case peer_write_message sha ''pong'' (ms_payload m) p of
                (Inl e, p) \<Rightarrow> (Inl e, p) | (Inr _, p) \<Rightarrow> next_message sha p)
           else if ms_command m \<in> {''getheaders'', ''getblocks''} then
             (case peer_write_message sha ''headers'' [0] p of
                (Inl e, p) \<Rightarrow> (Inl e, p) | (Inr _, p) \<Rightarrow> next_message sha p)
           else if ms_command m \<in> set ignored_commands then next_message sha p
           else (Inr m, p)))"
  by pat_completeness auto
termination
  by (relation "measure (\<lambda>(sha, p). length (pe_in p))") (auto dest!: sym [of "(Inr _, _)"] peer_read_shrinks peer_write_in)

declare next_message.simps [simp del]

lemma peer_read_suffix: "length (pe_in (snd (peer_read sha p))) \<le> length (pe_in p)"
  using read_message_suffix [of sha "pe_magic p" "pe_in p"]
  by (auto simp: peer_read_def split: prod.splits sum.splits)

lemma next_message_shrinks:
  "length (pe_in (snd (next_message sha p))) + (if is_ok (fst (next_message sha p)) then 24 else 0) \<le> length (pe_in p)"
proof (induction sha p rule: next_message.induct)
  case (1 sha p)
  obtain r q where r: "peer_read sha p = (r, q)" by fastforce
  have le: "length (pe_in q) \<le> length (pe_in p)" using peer_read_suffix [of sha p] r by simp
  show ?case
  proof (cases r)
    case (Inl e)
    then show ?thesis using r le by (simp add: next_message.simps [of sha p])
  next
    case (Inr m)
    then have "length (pe_in q) + 24 \<le> length (pe_in p)" using r by (auto dest: peer_read_shrinks)
    then have shrink: "length (pe_in q) + 24 \<le> length (pe_in p)" .
    let ?P = "\<lambda>p. length (pe_in (snd (next_message sha p))) + (if is_ok (fst (next_message sha p)) then 24 else 0) \<le> length (pe_in p)"
    have answer: "length (pe_in (snd X)) + (if is_ok (fst X) then 24 else 0) \<le> length (pe_in p)"
      if X: "X = (case peer_write_message sha cmd pl q of (Inl e, p) \<Rightarrow> (Inl e, p) | (Inr _, p) \<Rightarrow> next_message sha p)"
        and IH: "\<And>q'. peer_write_message sha cmd pl q = (Inr (), q') \<Longrightarrow> ?P q'" for X cmd pl
    proof -
      obtain w q' where w: "peer_write_message sha cmd pl q = (w, q')" by fastforce
      then have "pe_in q' = pe_in q" by (rule peer_write_in)
      with X w IH [of q'] shrink show ?thesis by (cases w) auto
    qed
    note IH = 1 [OF r [symmetric] Inr]
    consider "ms_command m = ''ping''" | "ms_command m \<noteq> ''ping''" "ms_command m \<in> {''getheaders'', ''getblocks''}"
      | "ms_command m \<noteq> ''ping''" "ms_command m \<notin> {''getheaders'', ''getblocks''}" "ms_command m \<in> set ignored_commands"
      | "ms_command m \<noteq> ''ping''" "ms_command m \<notin> {''getheaders'', ''getblocks''}" "ms_command m \<notin> set ignored_commands"
      by blast
    then show ?thesis
    proof cases
      case 1
      have eq: "next_message sha p = (case peer_write_message sha ''pong'' (ms_payload m) q of (Inl e, p) \<Rightarrow> (Inl e, p) | (Inr _, p) \<Rightarrow> next_message sha p)"
        using r Inr 1 by (simp add: next_message.simps [of sha p])
      show ?thesis by (rule answer [OF eq]) (rule IH(1) [OF 1 _ refl], erule sym)
    next
      case 2
      have eq: "next_message sha p = (case peer_write_message sha ''headers'' [0] q of (Inl e, p) \<Rightarrow> (Inl e, p) | (Inr _, p) \<Rightarrow> next_message sha p)"
        using r Inr 2 by (simp add: next_message.simps [of sha p] del: insert_iff)
      show ?thesis by (rule answer [OF eq]) (rule IH(2) [OF 2 _ refl], erule sym)
    next
      case 3
      then show ?thesis using IH(3) r Inr shrink by (simp add: next_message.simps [of sha p] split: if_splits)
    next
      case 4
      then show ?thesis using r Inr shrink by (simp add: next_message.simps [of sha p])
    qed
  qed
qed

lemma next_message_ok: "next_message sha p = (Inr m, q) \<Longrightarrow> length (pe_in q) + 24 \<le> length (pe_in p)"
  and next_message_le: "next_message sha p = (r, q) \<Longrightarrow> length (pe_in q) \<le> length (pe_in p)"
  using next_message_shrinks [of sha p] by (auto split: if_splits)

function await_message :: "sha256_fn \<Rightarrow> string list \<Rightarrow> peer \<Rightarrow> (cbf_error + message) \<times> peer" where
  "await_message sha expected p =
     (case next_message sha p of
        (Inl e, p) \<Rightarrow> (Inl e, p)
      | (Inr m, p) \<Rightarrow> (if ms_command m \<in> set expected then (Inr m, p) else await_message sha expected p))"
  by pat_completeness auto
termination
  by (relation "measure (\<lambda>(sha, expected, p). length (pe_in p))") (auto dest!: sym [of "(Inr _, _)"] next_message_ok)

declare await_message.simps [simp del]

definition peer_request :: "sha256_fn \<Rightarrow> string \<Rightarrow> bytes \<Rightarrow> string list \<Rightarrow> peer \<Rightarrow> (cbf_error + message) \<times> peer" where
  "peer_request sha cmd payload expected p =
     (case peer_write_message sha cmd payload p of
        (Inl e, p) \<Rightarrow> (Inl e, p)
      | (Inr _, p) \<Rightarrow> await_message sha expected p)"

text \<open>The handshake: one \<open>version\<close> and one \<open>verack\<close>, in either order.\<close>

function handshake_loop :: "sha256_fn \<Rightarrow> bool \<Rightarrow> bool \<Rightarrow> peer \<Rightarrow> (cbf_error + unit) \<times> peer" where
  "handshake_loop sha got_version got_verack p =
     (if got_version \<and> got_verack then (Inr (), p)
      else case next_message sha p of
        (Inl e, p) \<Rightarrow> (Inl e, p)
      | (Inr m, p) \<Rightarrow>
          (if ms_command m = ''version'' then
             (case parse_version (ms_payload m) of
                Inl e \<Rightarrow> (Inl e, p)
              | Inr info \<Rightarrow>
                  (case peer_write_message sha ''verack'' [] (p\<lparr>pe_services := vi_services info, pe_start_height := vi_start_height info\<rparr>) of
                     (Inl e, p) \<Rightarrow> (Inl e, p)
                   | (Inr _, p) \<Rightarrow> handshake_loop sha True got_verack p))
           else if ms_command m = ''verack'' then handshake_loop sha got_version True p
           else if ms_command m \<in> {''wtxidrelay'', ''sendaddrv2''} then handshake_loop sha got_version got_verack p
           else (Inl Protocol, p)))"
  by pat_completeness auto
termination
  by (relation "measure (\<lambda>(sha, a, b, p). length (pe_in p))")
    (auto dest!: sym [of "(Inr _, _)"] next_message_ok peer_write_in)

declare handshake_loop.simps [simp del]

definition handshake :: "sha256_fn \<Rightarrow> u64 \<Rightarrow> u64 \<Rightarrow> peer \<Rightarrow> (cbf_error + unit) \<times> peer" where
  "handshake sha now tip_height p =
     (case peer_write_message sha ''version'' (version_payload now (NODE_WITNESS OR NODE_COMPACT_FILTERS) (ucast tip_height)) p of
        (Inl e, p) \<Rightarrow> (Inl e, p)
      | (Inr _, p) \<Rightarrow> handshake_loop sha False False (p\<lparr>pe_versions_sent := pe_versions_sent p + 1\<rparr>))"

text \<open>A connected socket is its stream and its write budget.\<close>

definition peer_connect :: "sha256_fn \<Rightarrow> u64 \<Rightarrow> u32 \<Rightarrow> u64 \<Rightarrow> in_stream \<Rightarrow> nat \<Rightarrow> cbf_error + peer" where
  "peer_connect sha now magic tip_height stream writes =
     (case handshake sha now tip_height
         \<lparr>pe_in = stream, pe_writes = writes, pe_out = [], pe_magic = magic, pe_services = 0, pe_start_height = 0,
          pe_filter_bytes_fetched = 0, pe_block_bytes_fetched = 0, pe_versions_sent = 0,
          pe_wire_bytes_sent = 0, pe_wire_bytes_received = 0\<rparr> of
        (Inl e, p) \<Rightarrow> Inl e
      | (Inr _, p) \<Rightarrow>
          (let required = NODE_WITNESS OR NODE_COMPACT_FILTERS in
           if pe_services p AND required \<noteq> required then Inl Protocol else Inr p))"

definition peer_get_headers :: "sha256_fn \<Rightarrow> bytes list \<Rightarrow> bytes \<Rightarrow> peer \<Rightarrow> (cbf_error + block_header list) \<times> peer" where
  "peer_get_headers sha locator stop p =
     (case peer_request sha ''getheaders'' (getheaders_payload locator stop) [''headers''] p of
        (Inl e, p) \<Rightarrow> (Inl e, p)
      | (Inr m, p) \<Rightarrow> (parse_headers (ms_payload m), p))"

definition get_cfheaders :: "sha256_fn \<Rightarrow> u32 \<Rightarrow> bytes \<Rightarrow> peer \<Rightarrow> (cbf_error + cf_headers) \<times> peer" where
  "get_cfheaders sha start_height stop p =
     (case peer_request sha ''getcfheaders'' (getcfilter_range_payload BASIC_FILTER_TYPE start_height stop) [''cfheaders''] p of
        (Inl e, p) \<Rightarrow> (Inl e, p)
      | (Inr m, p) \<Rightarrow>
          (and_then (parse_cfheaders (ms_payload m))
             (\<lambda>parsed. if cfh_stop_hash parsed \<noteq> stop then Inl Protocol else Inr parsed), p))"

definition get_cfilter :: "sha256_fn \<Rightarrow> u32 \<Rightarrow> bytes \<Rightarrow> peer \<Rightarrow> (cbf_error + c_filter) \<times> peer" where
  "get_cfilter sha start_height block_hash p =
     (case peer_request sha ''getcfilters'' (getcfilter_range_payload BASIC_FILTER_TYPE start_height block_hash) [''cfilter''] p of
        (Inl e, p) \<Rightarrow> (Inl e, p)
      | (Inr m, p) \<Rightarrow>
          (and_then (parse_cfilter (ms_payload m))
             (\<lambda>parsed. if cfi_block_hash parsed \<noteq> block_hash then Inl Protocol else Inr parsed),
           p\<lparr>pe_filter_bytes_fetched := pe_filter_bytes_fetched p + word_of_nat (length (ms_payload m))\<rparr>))"

fun get_block_loop :: "sha256_fn \<Rightarrow> u32 list \<Rightarrow> bytes \<Rightarrow> peer \<Rightarrow> (cbf_error + cbf_block) \<times> peer" where
  "get_block_loop sha [] block_hash p = (Inl Protocol, p)"
| "get_block_loop sha (inv_type # rest) block_hash p =
     (case peer_request sha ''getdata'' (getdata_payload inv_type block_hash) [''block'', ''notfound''] p of
        (Inl e, p) \<Rightarrow> (Inl e, p)
      | (Inr m, p) \<Rightarrow>
          (if ms_command m = ''block'' then
             (and_then (parse_block_message (ms_payload m))
                (\<lambda>block. if header_hash sha (cb_header block) \<noteq> block_hash then Inl Protocol else Inr block),
              p\<lparr>pe_block_bytes_fetched := pe_block_bytes_fetched p + word_of_nat (length (ms_payload m))\<rparr>)
           else get_block_loop sha rest block_hash p))"

definition get_block :: "sha256_fn \<Rightarrow> bytes \<Rightarrow> peer \<Rightarrow> (cbf_error + cbf_block) \<times> peer" where
  "get_block sha block_hash p = get_block_loop sha [MSG_WITNESS_BLOCK, MSG_BLOCK] block_hash p"

end
