(* ===== verification/Cbf_Peer_Proofs.thy ===== *)
theory Cbf_Peer_Proofs
  imports Cbf_Peer Cbf_Codec
begin

text \<open>
  What the peer layer promises its clients: framing round trips, the exact set of payloads the
  parsers take, the checks a response has passed, and that every request consumes input.
\<close>

section \<open>Framing\<close>

definition command_ok :: "string \<Rightarrow> bool" where
  "command_ok cmd \<longleftrightarrow> length cmd \<le> 12 \<and> list_all (\<lambda>ch. 0x20 \<le> (of_char ch :: nat) \<and> of_char ch \<le> (0x7e :: nat)) cmd"

lemma read_exact_map: "length bs = n \<Longrightarrow> read_exact n (map Some bs @ s) = (Inr bs, s)"
  by (induction bs arbitrary: n) auto

lemma unat_command_byte: "unat (word_of_nat (of_char ch) :: byte) = of_char ch"
  by (simp add: unat_of_nat)

lemma command_roundtrip:
  assumes "command_ok cmd"
  defines "bs \<equiv> copy_at 0 (command_bytes cmd) (replicate 12 0)"
  shows "length bs = 12" and "takeWhile (\<lambda>b. b \<noteq> 0) bs = command_bytes cmd"
    and "list_all (\<lambda>b. 0x20 \<le> b \<and> b \<le> 0x7e) (command_bytes cmd)"
    and "map (\<lambda>b. char_of (unat b)) (command_bytes cmd) = cmd"
proof -
  have len: "length (command_bytes cmd) \<le> 12" using assms(1) by (simp add: command_ok_def command_bytes_def)
  then have bs: "bs = command_bytes cmd @ replicate (12 - length (command_bytes cmd)) 0"
    by (simp add: bs_def copy_at_def)
  show "length bs = 12" using len by (simp add: bs)
  show ok: "list_all (\<lambda>b. 0x20 \<le> b \<and> b \<le> 0x7e) (command_bytes cmd)"
    using assms(1) by (auto simp: command_ok_def command_bytes_def list_all_iff word_le_nat_alt unat_command_byte)
  then have "\<forall>b \<in> set (command_bytes cmd). b \<noteq> 0" by (auto simp: list_all_iff)
  then show "takeWhile (\<lambda>b. b \<noteq> 0) bs = command_bytes cmd"
    unfolding bs by (subst takeWhile_append2) (auto simp: takeWhile_eq_Nil_iff hd_replicate)
  show "map (\<lambda>b. char_of (unat b)) (command_bytes cmd) = cmd"
    by (simp add: command_bytes_def unat_command_byte map_idI)
qed

lemma header_fields:
  fixes len :: u32
  assumes "length cmd = 12" "length checksum = 4"
  shows "parse_message_header magic (to_le_bytes magic @ cmd @ to_le_bytes len @ checksum) =
    (if \<not> list_all (\<lambda>b. 0x20 \<le> b \<and> b \<le> 0x7e) (takeWhile (\<lambda>b. b \<noteq> 0) cmd) \<or> unat len > MAX_PAYLOAD then Inl Protocol
     else Inr (map (\<lambda>b. char_of (unat b)) (takeWhile (\<lambda>b. b \<noteq> 0) cmd), unat len, checksum))"
  using assms w_u32.read_back [where x = magic and pre = "[]"] w_u32.read_back [where x = len and pre = "to_le_bytes magic @ cmd"]
  by (simp add: parse_message_header_def cursor_new_at read_bytes_at Let_def)

lemma read_message_frame:
  assumes "sha_ok sha" "command_ok cmd" "length payload \<le> MAX_PAYLOAD"
  shows "read_message sha magic (map Some (frame sha magic cmd payload) @ s) =
    (Inr \<lparr>ms_command = cmd, ms_payload = payload, ms_wire_bytes = length (frame sha magic cmd payload)\<rparr>, s)"
proof -
  let ?cmd = "copy_at 0 (command_bytes cmd) (replicate 12 0)" and ?len = "word_of_nat (length payload) :: u32"
  let ?sum = "take 4 (sha256d sha payload)"
  let ?head = "to_le_bytes magic @ ?cmd @ to_le_bytes ?len @ ?sum"
  note cr = command_roundtrip [OF assms(2)]
  have sum: "length ?sum = 4" using assms(1) by simp
  have len: "unat ?len = length payload" using assms(3) by (simp add: unat_of_nat MAX_PAYLOAD_def)
  have split: "map Some (frame sha magic cmd payload) @ s = map Some ?head @ map Some payload @ s"
    by (simp add: frame_def)
  have "read_exact 24 (map Some ?head @ map Some payload @ s) = (Inr ?head, map Some payload @ s)"
    using cr(1) sum by (intro read_exact_map) simp
  moreover have "parse_message_header magic ?head = Inr (cmd, length payload, ?sum)"
    using header_fields [OF cr(1) sum, of magic ?len] cr(2-4) len assms(3) by simp
  ultimately show ?thesis using cr(1) sum unfolding split read_message_def
    by (simp add: read_exact_map frame_def)
qed

text \<open>
  Framing round trip: whatever message this side frames (a printable command of
  at most twelve characters, a payload within the size limit), the reader takes it back with its
  exact wire size and leaves the rest of the stream untouched.
\<close>

theorem framing_roundtrip:
  assumes "sha_ok sha" "command_ok cmd" "length payload \<le> MAX_PAYLOAD"
  shows "read_message sha magic (map Some (frame sha magic cmd payload) @ s) =
    (Inr \<lparr>ms_command = cmd, ms_payload = payload, ms_wire_bytes = length (frame sha magic cmd payload)\<rparr>, s)"
  using assms by (rule read_message_frame)

theorem framing_roundtrip_witness:
  "read_message demo_sha 0xdab5bffa (map Some (frame demo_sha 0xdab5bffa ''version'' [104, 105]) @ [None]) =
    (Inr \<lparr>ms_command = ''version'', ms_payload = [104, 105], ms_wire_bytes = length (frame demo_sha 0xdab5bffa ''version'' [104, 105])\<rparr>, [None])"
  by (rule framing_roundtrip) (simp_all add: demo_sha_ok command_ok_def MAX_PAYLOAD_def of_char_def)

section \<open>Header batches\<close>

definition headers_payload :: "block_header list \<Rightarrow> bytes" where
  "headers_payload hs = write_varint (word_of_nat (length hs)) @ concat (map (\<lambda>h. header_serialize h @ [0]) hs)"

interpretation w_header_entry: wire_codec "\<lambda>h. header_serialize h @ [0]" read_header_entry header_ok
proof
  fix pre suf h c
  have zero: "write_varint 0 = [0]" by (simp add: write_varint_def)
  show "header_ok h \<Longrightarrow> read_header_entry (wire_at pre ((header_serialize h @ [0]) @ suf)) = Inr (h, wire_at (pre @ header_serialize h @ [0]) suf)"
    using w_varint.read_back [where x = 0 and pre = "pre @ header_serialize h" and bs = suf]
      header_parse_iff [of "header_serialize h" h]
    by (simp add: read_header_entry_def read_bytes_at length_header_serialize zero)
  assume "read_header_entry (wire_at pre suf) = Inr (h, c)"
  then show "header_ok h \<and> (\<exists>bs. suf = (header_serialize h @ [0]) @ bs \<and> c = wire_at (pre @ header_serialize h @ [0]) bs)"
    by (auto simp: read_header_entry_def and_then_Inr wire_iffs header_parse_iff zero split: if_splits)
qed

lemma map_sum_Inr: "map_sum id f m = Inr y \<longleftrightarrow> (\<exists>x. m = Inr x \<and> y = f x)"
  by (cases m) auto

lemma parse_headers_back:
  assumes "length hs \<le> 2000" "list_all header_ok hs"
  shows "parse_headers (headers_payload hs) = Inr hs"
proof -
  let ?n = "word_of_nat (length hs) :: u64"
  have n: "unat ?n = length hs" using assms(1) by (simp add: unat_of_nat)
  then have "\<not> ?n > 2000" using assms(1) by (simp add: word_less_nat_alt)
  moreover have "read_count read_header_entry (length hs) (wire_at (write_varint ?n) (concat (map (\<lambda>h. header_serialize h @ [0]) hs))) =
      Inr (hs, wire_at (headers_payload hs) [])"
    using assms(2) by (simp add: w_header_entry.read_list_iff headers_payload_def)
  ultimately show ?thesis
    using w_varint.read_back [where x = ?n and pre = "[]"] n
    by (simp add: parse_headers_def cursor_new_at headers_payload_def)
qed

lemma parse_headers_ok: "parse_headers payload = Inr hs \<Longrightarrow> list_all header_ok hs \<and> length hs \<le> 2000"
  by (auto simp: parse_headers_def cursor_new_at and_then_Inr map_sum_Inr w_varint.read_iff w_header_entry.read_list_iff
      word_less_nat_alt split: if_splits)

section \<open>Requests\<close>

lemma await_message_ok:
  "await_message sha expected p = (Inr m, q) \<Longrightarrow> length (pe_in q) + 24 \<le> length (pe_in p) \<and> ms_command m \<in> set expected"
proof (induction sha expected p rule: await_message.induct)
  case (1 sha expected p)
  obtain m' p' where n: "next_message sha p = (Inr m', p')"
    using "1.prems" by (auto simp: await_message.simps [of sha expected p] split: prod.splits sum.splits)
  then show ?case
    using 1 next_message_ok [OF n] by (fastforce simp: await_message.simps [of sha expected p] split: if_splits)
qed

lemma await_message_le: "length (pe_in (snd (await_message sha expected p))) \<le> length (pe_in p)"
proof (induction sha expected p rule: await_message.induct)
  case (1 sha expected p)
  obtain r q where n: "next_message sha p = (r, q)" by fastforce
  then have "length (pe_in q) \<le> length (pe_in p)" by (rule next_message_le)
  with 1 [OF n [symmetric]] n show ?case
    by (cases r) (fastforce simp: await_message.simps [of sha expected p])+
qed

lemma peer_request_ok:
  assumes "peer_request sha cmd payload expected p = (Inr m, q)"
  shows "length (pe_in q) + 24 \<le> length (pe_in p)" and "ms_command m \<in> set expected"
proof -
  obtain p' where w: "peer_write_message sha cmd payload p = (Inr (), p')" and a: "await_message sha expected p' = (Inr m, q)"
    using assms by (auto simp: peer_request_def split: prod.splits sum.splits)
  show "length (pe_in q) + 24 \<le> length (pe_in p)" "ms_command m \<in> set expected"
    using await_message_ok [OF a] peer_write_in [OF w] by simp_all
qed

lemma get_headers_shrinks:
  "peer_get_headers sha locator stop p = (Inr hs, q) \<Longrightarrow> length (pe_in q) + 24 \<le> length (pe_in p)"
  by (auto simp: peer_get_headers_def split: prod.splits sum.splits dest!: peer_request_ok(1))

lemma get_headers_ok: "peer_get_headers sha locator stop p = (Inr hs, q) \<Longrightarrow> list_all header_ok hs \<and> length hs \<le> 2000"
  by (auto simp: peer_get_headers_def split: prod.splits sum.splits dest!: parse_headers_ok)

lemma get_cfheaders_ok:
  "get_cfheaders sha start stop p = (Inr r, q) \<Longrightarrow> cfh_stop_hash r = stop \<and> list_all (\<lambda>h. length h = 32) (cfh_filter_hashes r)"
  by (auto simp: get_cfheaders_def parse_cfheaders_def cursor_new_at and_then_Inr wire_iffs w_hash.read_list_iff
      split: prod.splits sum.splits if_splits)

lemma get_cfilter_ok: "get_cfilter sha start h p = (Inr r, q) \<Longrightarrow> cfi_block_hash r = h"
  by (auto simp: get_cfilter_def and_then_Inr split: prod.splits sum.splits if_splits)

lemma get_block_loop_ok:
  "get_block_loop sha ts h p = (Inr b, q) \<Longrightarrow> header_hash sha (cb_header b) = h \<and> (\<exists>flags. block_ok flags b)"
  by (induction sha ts h p rule: get_block_loop.induct)
    (auto simp: parse_block_message_def and_then_Inr dest: block_parse_enc split: prod.splits sum.splits if_splits)

text \<open>A served block has the requested header hash and is a well-formed block.\<close>

lemma get_block_ok:
  "get_block sha h p = (Inr b, q) \<Longrightarrow> header_hash sha (cb_header b) = h \<and> (\<exists>flags. block_ok flags b)"
  unfolding get_block_def by (rule get_block_loop_ok)

section \<open>A peer that answers\<close>

lemma next_message_frame:
  assumes "sha_ok sha" "command_ok cmd" "length payload \<le> MAX_PAYLOAD" "pe_in p = map Some (frame sha (pe_magic p) cmd payload) @ s"
    "cmd \<notin> {''ping'', ''getheaders'', ''getblocks''} \<union> set ignored_commands"
  shows "\<exists>m q. next_message sha p = (Inr m, q) \<and> ms_command m = cmd \<and> ms_payload m = payload \<and>
    pe_in q = s \<and> pe_writes q = pe_writes p \<and> pe_magic q = pe_magic p"
  using read_message_frame [OF assms(1-3), of "pe_magic p" s] assms(4,5)
  by (auto simp: next_message.simps [of sha p] peer_read_def)

lemma request_served:
  assumes "sha_ok sha" "command_ok resp" "length payload \<le> MAX_PAYLOAD" "resp \<in> set expected" "0 < pe_writes p"
    "resp \<notin> {''ping'', ''getheaders'', ''getblocks''} \<union> set ignored_commands"
    "pe_in p = map Some (frame sha (pe_magic p) resp payload) @ s"
  shows "\<exists>m q. peer_request sha cmd request expected p = (Inr m, q) \<and> ms_command m = resp \<and> ms_payload m = payload \<and>
    pe_in q = s \<and> pe_writes q = pe_writes p - 1 \<and> pe_magic q = pe_magic p"
proof -
  obtain r p' where w: "peer_write_message sha cmd request p = (r, p')" by fastforce
  then have p': "r = Inr ()" "pe_in p' = pe_in p" "pe_writes p' = pe_writes p - 1" "pe_magic p' = pe_magic p"
    using assms(5) by (auto simp: peer_write_message_def Let_def)
  have "pe_in p' = map Some (frame sha (pe_magic p') resp payload) @ s" using assms(7) p' by simp
  from next_message_frame [OF assms(1-3) this assms(6)] obtain m q
    where "next_message sha p' = (Inr m, q)" "ms_command m = resp" "ms_payload m = payload"
      "pe_in q = s" "pe_writes q = pe_writes p'" "pe_magic q = pe_magic p'" by blast
  then show ?thesis using w p' assms(4) by (simp add: peer_request_def await_message.simps [of sha _ p'])
qed

lemma response_commands:
  "command_ok ''headers''" "command_ok ''cfheaders''" "command_ok ''cfilter''" "command_ok ''block''"
  by (simp_all add: command_ok_def of_char_def)

lemma get_headers_served:
  assumes "sha_ok sha" "length hs \<le> 2000" "list_all header_ok hs" "0 < pe_writes p"
    "pe_in p = map Some (frame sha (pe_magic p) ''headers'' (headers_payload hs)) @ s"
  shows "\<exists>q. peer_get_headers sha locator stop p = (Inr hs, q) \<and> pe_in q = s \<and> pe_writes q = pe_writes p - 1 \<and> pe_magic q = pe_magic p"
proof -
  have "length (write_varint n) \<le> 9" for n by (simp add: write_varint_def)
  moreover have "length (concat (map (\<lambda>h. header_serialize h @ [0]) hs)) = 81 * length hs"
    using assms(3) by (induction hs) (simp_all add: length_header_serialize)
  ultimately have "length (headers_payload hs) \<le> MAX_PAYLOAD" using assms(2)
    by (simp add: headers_payload_def MAX_PAYLOAD_def le_trans [OF add_le_mono, of _ 9 _ "81 * 2000"])
  from request_served [OF assms(1) response_commands(1) this _ assms(4) _ assms(5), of "[''headers'']" "''getheaders''" "getheaders_payload locator stop"]
  show ?thesis using parse_headers_back [OF assms(2,3)] by (auto simp: peer_get_headers_def ignored_commands_def)
qed

definition cfheaders_payload :: "cf_headers \<Rightarrow> bytes" where
  "cfheaders_payload r = [BASIC_FILTER_TYPE] @ cfh_stop_hash r @ cfh_previous_filter_header r @
     write_varint (word_of_nat (length (cfh_filter_hashes r))) @ concat (cfh_filter_hashes r)"

definition cfheaders_ok :: "cf_headers \<Rightarrow> bool" where
  "cfheaders_ok r \<longleftrightarrow> length (cfh_stop_hash r) = 32 \<and> length (cfh_previous_filter_header r) = 32 \<and>
     length (cfh_filter_hashes r) \<le> 2000 \<and> list_all (\<lambda>h. length h = 32) (cfh_filter_hashes r)"

lemma parse_cfheaders_back:
  assumes "cfheaders_ok r"
  shows "parse_cfheaders (cfheaders_payload r) = Inr r"
proof -
  let ?hs = "cfh_filter_hashes r" and ?n = "word_of_nat (length (cfh_filter_hashes r)) :: u64"
  let ?stop = "cfh_stop_hash r" and ?prev = "cfh_previous_filter_header r"
  have n: "unat ?n = length ?hs" "\<not> ?n > 2000" using assms by (simp_all add: cfheaders_ok_def unat_of_nat word_less_nat_alt)
  have ok: "length ?stop = 32" "length ?prev = 32" "list_all (\<lambda>h. length h = 32) ?hs" using assms by (simp_all add: cfheaders_ok_def)
  have "read_count cursor_read_hash (length ?hs) (wire_at ([BASIC_FILTER_TYPE] @ ?stop @ ?prev @ write_varint ?n) (concat ?hs)) =
      Inr (?hs, wire_at (cfheaders_payload r) [])"
    using ok(3) by (simp add: w_hash.read_list_iff cfheaders_payload_def)
  then show ?thesis
    using n ok w_u8.read_back [where x = BASIC_FILTER_TYPE and pre = "[]"] w_hash.read_back [where x = ?stop and pre = "[BASIC_FILTER_TYPE]"]
      w_hash.read_back [where x = ?prev and pre = "[BASIC_FILTER_TYPE] @ ?stop"] w_varint.read_back [where x = ?n and pre = "[BASIC_FILTER_TYPE] @ ?stop @ ?prev"]
    by (simp add: parse_cfheaders_def cursor_new_at cfheaders_payload_def)
qed

lemma get_cfheaders_served:
  assumes "sha_ok sha" "cfheaders_ok r" "0 < pe_writes p"
    "pe_in p = map Some (frame sha (pe_magic p) ''cfheaders'' (cfheaders_payload r)) @ s"
  shows "\<exists>q. get_cfheaders sha start (cfh_stop_hash r) p = (Inr r, q) \<and> pe_in q = s \<and> pe_writes q = pe_writes p - 1 \<and> pe_magic q = pe_magic p"
proof -
  have "length (write_varint n) \<le> 9" for n by (simp add: write_varint_def)
  moreover have "length (concat hs) = 32 * length hs" if "list_all (\<lambda>h. length h = 32) hs" for hs :: "bytes list"
    using that by (induction hs) simp_all
  ultimately have "length (cfheaders_payload r) \<le> MAX_PAYLOAD" using assms(2)
    by (simp add: cfheaders_payload_def cfheaders_ok_def MAX_PAYLOAD_def le_trans [OF add_le_mono, of _ 9 _ "32 * 2000"])
  from request_served [OF assms(1) response_commands(2) this _ assms(3) _ assms(4), of "[''cfheaders'']" "''getcfheaders''"
      "getcfilter_range_payload BASIC_FILTER_TYPE start (cfh_stop_hash r)"]
  show ?thesis using parse_cfheaders_back [OF assms(2)] by (auto simp: get_cfheaders_def ignored_commands_def)
qed

lemma get_block_served:
  assumes "sha_ok sha" "block_ok flags b" "length (block_bytes flags b) \<le> MAX_PAYLOAD" "0 < pe_writes p"
    "pe_in p = map Some (frame sha (pe_magic p) ''block'' (block_bytes flags b)) @ s"
  shows "\<exists>q. get_block sha (header_hash sha (cb_header b)) p = (Inr b, q) \<and> pe_in q = s \<and> pe_writes q = pe_writes p - 1 \<and> pe_magic q = pe_magic p"
proof -
  from request_served [OF assms(1) response_commands(4) assms(3) _ assms(4) _ assms(5), of "[''block'', ''notfound'']" "''getdata''"
      "getdata_payload MSG_WITNESS_BLOCK (header_hash sha (cb_header b))"]
  obtain m q where "peer_request sha ''getdata'' (getdata_payload MSG_WITNESS_BLOCK (header_hash sha (cb_header b))) [''block'', ''notfound''] p = (Inr m, q)"
    "ms_command m = ''block''" "ms_payload m = block_bytes flags b" "pe_in q = s" "pe_writes q = pe_writes p - 1" "pe_magic q = pe_magic p"
    by (auto simp: ignored_commands_def)
  then show ?thesis using block_parse_back [OF assms(2)] by (simp add: get_block_def parse_block_message_def)
qed

end
