(* ===== verification/Cbf_Chain.thy ===== *)
theory Cbf_Chain
  imports Cbf_Network Cbf_Peer_Proofs
begin

text \<open>
  The header chain and the filter-header chain of the light client, \<open>crates/opencsv-cbf/src/chain.rs\<close>.
  An outer \<open>None\<close> is a panic of the worker thread that runs the operation. Heights are indices into
  vectors and so natural numbers here. A cache file is what reading it returned.
\<close>

section \<open>The header chain\<close>

record header_chain =
  hc_params :: params
  hc_headers :: "block_header list"
  hc_hashes :: "bytes list"
  hc_chainwork :: "u128 list"

definition header_chain_new :: "params \<Rightarrow> header_chain" where
  "header_chain_new pa = \<lparr>hc_params = pa, hc_headers = [], hc_hashes = [], hc_chainwork = []\<rparr>"

definition tip_work :: "header_chain \<Rightarrow> u128" where
  "tip_work c = (if hc_chainwork c = [] then 0 else last (hc_chainwork c))"

definition append_validated :: "sha256_fn \<Rightarrow> block_header \<Rightarrow> header_chain \<Rightarrow> (cbf_error + header_chain) option" where
  "append_validated sha header c =
     (let height = length (hc_headers c);
          work =
            (if height = 0 then
               Some (if header_hash sha header \<noteq> pa_genesis_hash (hc_params c) then Inl Consensus
                     else and_then (ok_or Consensus (from_compact (bh_bits header))) (\<lambda>target. Inr (work_from_target target)))
             else validate_header sha (hc_params c) (hc_headers c) height header)
      in map_option (\<lambda>w. and_then w (\<lambda>work.
           Inr (c\<lparr>hc_headers := hc_headers c @ [header],
                  hc_hashes := hc_hashes c @ [header_hash sha header],
                  hc_chainwork := hc_chainwork c @ [tip_work c + work]\<rparr>))) work)"

fun load_loop :: "sha256_fn \<Rightarrow> bytes list \<Rightarrow> header_chain \<Rightarrow> (cbf_error + header_chain) option" where
  "load_loop sha [] c = Some (Inr c)"
| "load_loop sha (chunk # rest) c =
     (case header_parse chunk of
        Inl e \<Rightarrow> Some (Inl e)
      | Inr header \<Rightarrow>
          (case append_validated sha header c of
             None \<Rightarrow> None
           | Some (Inl e) \<Rightarrow> Some (Inr (header_chain_new (hc_params c)))
           | Some (Inr c) \<Rightarrow> load_loop sha rest c))"

definition header_chain_load :: "sha256_fn \<Rightarrow> params \<Rightarrow> bytes file_read \<Rightarrow> (cbf_error + header_chain) option" where
  "header_chain_load sha pa file =
     (case file of
        Absent \<Rightarrow> Some (Inr (header_chain_new pa))
      | Unreadable \<Rightarrow> Some (Inl Io)
      | Contents bs \<Rightarrow>
          (if length bs mod 80 \<noteq> 0 then Some (Inr (header_chain_new pa))
           else load_loop sha (chunks 80 bs) (header_chain_new pa)))"

definition header_chain_persist :: "header_chain \<Rightarrow> bytes" where
  "header_chain_persist c = concat (map header_serialize (hc_headers c))"

definition chain_tip_height :: "header_chain \<Rightarrow> nat option" where
  "chain_tip_height c = (if hc_headers c = [] then None else Some (length (hc_headers c) - 1))"

definition hash_at :: "header_chain \<Rightarrow> nat \<Rightarrow> bytes option" where
  "hash_at c height = (if height < length (hc_hashes c) then Some (hc_hashes c ! height) else None)"

definition header_at :: "header_chain \<Rightarrow> nat \<Rightarrow> block_header option" where
  "header_at c height = (if height < length (hc_headers c) then Some (hc_headers c ! height) else None)"

definition common_prefix_len :: "header_chain \<Rightarrow> header_chain \<Rightarrow> nat" where
  "common_prefix_len c other =
     length (takeWhile (\<lambda>(left, right). left = right) (zip (hc_hashes c) (hc_hashes other)))"

text \<open>
  The block locator. The step starts at one and doubles after the tenth entry, so it is kept as the
  number of doublings.
\<close>

function locator_loop :: "bytes list \<Rightarrow> int \<Rightarrow> nat \<Rightarrow> nat \<Rightarrow> bytes list" where
  "locator_loop hashes height doublings entries =
     (if height > 0 then
        hashes ! nat height #
          (if entries + 1 > 10 then locator_loop hashes (height - 2 ^ (doublings + 1)) (doublings + 1) (entries + 1)
           else locator_loop hashes (height - 1) doublings (entries + 1))
      else [])"
  by pat_completeness auto
termination
  by (relation "measure (\<lambda>(hashes, height, d, n). nat height)") auto

declare locator_loop.simps [simp del]

definition locator :: "header_chain \<Rightarrow> bytes list" where
  "locator c =
     locator_loop (hc_hashes c) (int (length (hc_headers c)) - 1) 0 0 @
     (if hc_hashes c = [] then [] else [hc_hashes c ! 0])"

definition truncate_chain :: "nat \<Rightarrow> header_chain \<Rightarrow> header_chain" where
  "truncate_chain n c =
     c\<lparr>hc_headers := take n (hc_headers c), hc_hashes := take n (hc_hashes c), hc_chainwork := take n (hc_chainwork c)\<rparr>"

text \<open>
  One batch of headers: a header on our tip is appended, one on an ancestor cuts the chain back to that
  ancestor first, any other is skipped. On an error the chain keeps what the loop has done.
\<close>

fun attach_headers :: "sha256_fn \<Rightarrow> block_header list \<Rightarrow> header_chain \<Rightarrow> u64 \<Rightarrow> ((cbf_error + u64) \<times> header_chain) option" where
  "attach_headers sha [] c appended = Some (Inr appended, c)"
| "attach_headers sha (header # rest) c appended =
     (if hc_hashes c \<noteq> [] \<and> last (hc_hashes c) = bh_prev_block header then
        (case append_validated sha header c of
           None \<Rightarrow> None
         | Some (Inl e) \<Rightarrow> Some (Inl e, c)
         | Some (Inr c) \<Rightarrow> attach_headers sha rest c (appended + 1))
      else case iter_position (\<lambda>h. h = bh_prev_block header) (hc_hashes c) of
        Some fork \<Rightarrow>
          (let c = truncate_chain (fork + 1) c in
           case append_validated sha header c of
             None \<Rightarrow> None
           | Some (Inl e) \<Rightarrow> Some (Inl e, c)
           | Some (Inr c) \<Rightarrow> attach_headers sha rest c (appended + 1))
      | None \<Rightarrow> attach_headers sha rest c appended)"

function sync_loop :: "sha256_fn \<Rightarrow> header_chain \<Rightarrow> peer \<Rightarrow> u64 \<Rightarrow> ((cbf_error + u64) \<times> header_chain \<times> peer) option" where
  "sync_loop sha c p appended =
     (case peer_get_headers sha (locator c) (replicate 32 0) p of
        (Inl e, p) \<Rightarrow> Some (Inl e, c, p)
      | (Inr headers, p) \<Rightarrow>
          (if headers = [] then Some (Inr appended, c, p)
           else case attach_headers sha headers c appended of
             None \<Rightarrow> None
           | Some (Inl e, c) \<Rightarrow> Some (Inl e, c, p)
           | Some (Inr appended, c) \<Rightarrow> sync_loop sha c p appended))"
  by pat_completeness auto
termination
  by (relation "measure (\<lambda>(sha, c, p, n). length (pe_in p))") (auto dest!: sym [of "(Inr _, _)"] get_headers_shrinks)

declare sync_loop.simps [simp del]

definition header_chain_sync :: "sha256_fn \<Rightarrow> header_chain \<Rightarrow> peer \<Rightarrow> ((cbf_error + u64) \<times> header_chain \<times> peer) option" where
  "header_chain_sync sha c p =
     (if hc_headers c = [] then
        (case peer_get_headers sha [] (pa_genesis_hash (hc_params c)) p of
           (Inl e, p) \<Rightarrow> Some (Inl e, c, p)
         | (Inr headers, p) \<Rightarrow>
             (if length headers \<noteq> 1 then Some (Inl Protocol, c, p)
              else case append_validated sha (headers ! 0) c of
                None \<Rightarrow> None
              | Some (Inl e) \<Rightarrow> Some (Inl e, c, p)
              | Some (Inr c) \<Rightarrow> sync_loop sha c p 1))
      else sync_loop sha c p 0)"

section \<open>The filter-header chain\<close>

record filter_header_chain =
  fc_filter_hashes :: "bytes list"

definition filter_chain_empty :: filter_header_chain where
  "filter_chain_empty = \<lparr>fc_filter_hashes = []\<rparr>"

definition from_verified :: "bytes list \<Rightarrow> filter_header_chain" where
  "from_verified filter_hashes = \<lparr>fc_filter_hashes = filter_hashes\<rparr>"

definition filter_chain_load :: "bytes file_read \<Rightarrow> cbf_error + filter_header_chain" where
  "filter_chain_load file =
     (case file of
        Absent \<Rightarrow> Inr \<lparr>fc_filter_hashes = []\<rparr>
      | Unreadable \<Rightarrow> Inl Io
      | Contents bs \<Rightarrow> Inr \<lparr>fc_filter_hashes = (if length bs mod 32 \<noteq> 0 then [] else chunks 32 bs)\<rparr>)"

definition filter_chain_persist :: "filter_header_chain \<Rightarrow> bytes" where
  "filter_chain_persist f = concat (fc_filter_hashes f)"

definition filter_chain_len :: "filter_header_chain \<Rightarrow> nat" where
  "filter_chain_len f = length (fc_filter_hashes f)"

definition filter_hash_at :: "filter_header_chain \<Rightarrow> nat \<Rightarrow> bytes option" where
  "filter_hash_at f height = (if height < length (fc_filter_hashes f) then Some (fc_filter_hashes f ! height) else None)"

fun advance_filter_header :: "sha256_fn \<Rightarrow> bytes \<Rightarrow> bytes list \<Rightarrow> bytes" where
  "advance_filter_header sha header [] = header"
| "advance_filter_header sha header (fh # rest) = advance_filter_header sha (filter_header sha fh header) rest"

definition filter_header_at :: "sha256_fn \<Rightarrow> filter_header_chain \<Rightarrow> nat \<Rightarrow> bytes option" where
  "filter_header_at sha f height =
     (if height \<ge> filter_chain_len f then None
      else Some (advance_filter_header sha (replicate 32 0) (take (height + 1) (fc_filter_hashes f))))"

definition verify_filter :: "sha256_fn \<Rightarrow> filter_header_chain \<Rightarrow> nat \<Rightarrow> bytes \<Rightarrow> cbf_error + unit" where
  "verify_filter sha f height filter_bytes =
     and_then (ok_or Filter (filter_hash_at f height)) (\<lambda>committed.
       if filter_hash sha filter_bytes \<noteq> committed then Inl Filter else Inr ())"

text \<open>The page loop of \<open>fetch_range\<close>: at most 2000 heights per request, a rolling expected header.\<close>

function fetch_loop ::
  "sha256_fn \<Rightarrow> header_chain \<Rightarrow> nat \<Rightarrow> nat \<Rightarrow> bytes \<Rightarrow> bytes list \<Rightarrow> peer \<Rightarrow> (cbf_error + bytes list) \<times> peer" where
  "fetch_loop sha chain stop_height start expected_prev out p =
     (if start \<le> stop_height then
        (let stop = min (start + 1999) stop_height in
         case hash_at chain stop of
           None \<Rightarrow> (Inl Filter, p)
         | Some stop_hash \<Rightarrow>
             (case get_cfheaders sha (word_of_nat start) stop_hash p of
                (Inl e, p) \<Rightarrow> (Inl e, p)
              | (Inr response, p) \<Rightarrow>
                  (if cfh_previous_filter_header response \<noteq> expected_prev then (Inl Filter, p)
                   else if length (cfh_filter_hashes response) \<noteq> stop - start + 1 then (Inl Filter, p)
                   else fetch_loop sha chain stop_height (stop + 1)
                          (advance_filter_header sha expected_prev (cfh_filter_hashes response))
                          (out @ cfh_filter_hashes response) p)))
      else (Inr out, p))"
  by pat_completeness auto
termination
  by (relation "measure (\<lambda>(sha, chain, stop_height, start, prev, out, p). Suc stop_height - start)") auto

declare fetch_loop.simps [simp del]

definition fetch_range ::
  "sha256_fn \<Rightarrow> filter_header_chain \<Rightarrow> header_chain \<Rightarrow> nat \<Rightarrow> peer \<Rightarrow> (cbf_error + bytes list) \<times> peer" where
  "fetch_range sha f chain stop_height p =
     (let start = filter_chain_len f in
      case (if start = 0 then Inr (replicate 32 0) else ok_or Filter (filter_header_at sha f (start - 1))) of
        Inl e \<Rightarrow> (Inl e, p)
      | Inr expected_prev \<Rightarrow> fetch_loop sha chain stop_height start expected_prev [] p)"

definition reattest_tail ::
  "sha256_fn \<Rightarrow> filter_header_chain \<Rightarrow> header_chain \<Rightarrow> nat \<Rightarrow> peer \<Rightarrow> (cbf_error + unit) \<times> peer" where
  "reattest_tail sha f chain max_blocks p =
     (if fc_filter_hashes f = [] then (Inr (), p)
      else if max_blocks = 0 then (Inl InvalidInput, p)
      else
        (let stop = filter_chain_len f - 1;
             start = stop + 1 - max_blocks;
             pre = from_verified (take start (fc_filter_hashes f))
         in case fetch_range sha pre chain stop p of
              (Inl e, p) \<Rightarrow> (Inl e, p)
            | (Inr fetched, p) \<Rightarrow>
                (if fetched \<noteq> slice start (stop + 1) (fc_filter_hashes f) then (Inl Filter, p) else (Inr (), p))))"

definition filter_chain_extend :: "bytes list \<Rightarrow> filter_header_chain \<Rightarrow> filter_header_chain" where
  "filter_chain_extend hashes f = f\<lparr>fc_filter_hashes := fc_filter_hashes f @ hashes\<rparr>"

definition filter_chain_truncate :: "nat \<Rightarrow> filter_header_chain \<Rightarrow> filter_header_chain" where
  "filter_chain_truncate n f = f\<lparr>fc_filter_hashes := take n (fc_filter_hashes f)\<rparr>"

end
