(* ===== verification/Cbf_Client.thy ===== *)
theory Cbf_Client
  imports Cbf_Chain Batch_Wire
begin

text \<open>
  The client of \<open>crates/opencsv-cbf/src/client.rs\<close>: multi-peer synchronisation with agreement, verified
  compact filters, and the point verification of anchors and outputs. Worker threads share nothing and
  are joined in peer order, so each is a call in that order; \<open>None\<close> is a panic. The cache directory is
  the filter files it holds, the two chain files last written, and whether writes succeed.
\<close>

section \<open>State and verdicts\<close>

definition FILTER_CACHE_REATTEST_BLOCKS :: nat where "FILTER_CACHE_REATTEST_BLOCKS = 144"

record cbf_client =
  cc_peers :: "peer list"
  cc_chain :: header_chain
  cc_filter_chain :: filter_header_chain
  cc_filter_files :: "nat \<Rightarrow> bytes file_read"
  cc_headers_file :: "bytes file_read"
  cc_filter_hashes_file :: "bytes file_read"
  cc_disk_ok :: bool

datatype not_present_reason =
    AboveTip nat nat
  | PositionOutOfRange u32 nat
  | TxidMismatch bytes bytes
  | RecordNotInTx

datatype anchor_verdict =
    Confirmed (av_block_hash: bytes) (av_ctx: bytes) (av_confirmations: nat) (av_filter_matched: bool)
  | NotPresent not_present_reason
  | InsufficientConfirmations nat nat

datatype outpoint_verdict =
    Unspent (ov_creation_height: nat) (ov_checked_through: nat) (ov_matched_blocks: nat)
  | Spent nat nat bytes
  | NotFound nat nat
  | OutputMismatch nat

section \<open>Synchronisation\<close>

text \<open>
  The header phase: every peer advances its own copy of the base chain. Peers that fail or whose worker
  panics drop out.
\<close>

definition header_candidates :: "sha256_fn \<Rightarrow> header_chain \<Rightarrow> peer list \<Rightarrow> (peer \<times> header_chain) list" where
  "header_candidates sha base peers =
     List.map_filter (\<lambda>p. case header_chain_sync sha base p of
         Some (Inr n, c, q) \<Rightarrow> Some (q, c) | _ \<Rightarrow> None) peers"

definition chain_tip :: "header_chain \<Rightarrow> nat option \<times> bytes option \<times> u128" where
  "chain_tip c = (chain_tip_height c, Option.bind (chain_tip_height c) (hash_at c), tip_work c)"

text \<open>One peer's filter phase: re-attest the cache on a new connection, then fetch what is missing.\<close>

definition filter_task ::
  "sha256_fn \<Rightarrow> bool \<Rightarrow> filter_header_chain \<Rightarrow> header_chain \<Rightarrow> nat \<Rightarrow> peer \<Rightarrow> (cbf_error + bytes list) \<times> peer" where
  "filter_task sha revalidate filters chain stop p =
     (case (if revalidate \<and> fc_filter_hashes filters \<noteq> []
            then reattest_tail sha filters chain FILTER_CACHE_REATTEST_BLOCKS p else (Inr (), p)) of
        (Inl e, p) \<Rightarrow> (Inl e, p)
      | (Inr _, p) \<Rightarrow> fetch_range sha filters chain stop p)"

fun filter_join :: "((cbf_error + bytes list) \<times> peer) list \<Rightarrow> bytes list option \<Rightarrow> peer list \<Rightarrow> cbf_error + bytes list option \<times> peer list" where
  "filter_join [] reference filter_peers = Inr (reference, filter_peers)"
| "filter_join ((result, p) # rest) reference filter_peers =
     (case result of
        Inl e \<Rightarrow> filter_join rest reference filter_peers
      | Inr fetched \<Rightarrow>
          (case reference of
             None \<Rightarrow> filter_join rest (Some fetched) (filter_peers @ [p])
           | Some expected \<Rightarrow>
               (if expected \<noteq> fetched then Inl DivergentPeers
                else filter_join rest reference (filter_peers @ [p]))))"

text \<open>
  The chains are adopted before the filter phase, and the peers are taken out while it runs, so a failure
  there leaves the client on the new header chain without peers.
\<close>

definition sync_inner :: "sha256_fn \<Rightarrow> bool \<Rightarrow> cbf_client \<Rightarrow> ((cbf_error + unit) \<times> cbf_client) option" where
  "sync_inner sha revalidate cl =
     (let candidates = header_candidates sha (cc_chain cl) (cc_peers cl) in
      if candidates = [] then Some (Inl NoPeers, cl\<lparr>cc_peers := []\<rparr>)
      else if list_ex (\<lambda>(_, c). chain_tip c \<noteq> chain_tip (snd (candidates ! 0))) candidates then
        Some (Inl DivergentPeers, cl\<lparr>cc_peers := []\<rparr>)
      else
        (let agreed = snd (candidates ! 0);
             filters = filter_chain_truncate (common_prefix_len (cc_chain cl) agreed) (cc_filter_chain cl);
             cl = cl\<lparr>cc_peers := [], cc_chain := agreed, cc_filter_chain := filters\<rparr>
         in case chain_tip_height agreed of
              None \<Rightarrow> None
            | Some stop \<Rightarrow>
                (case filter_join (map (\<lambda>(p, _). filter_task sha revalidate filters agreed stop p) candidates) None [] of
                   Inl e \<Rightarrow> Some (Inl e, cl)
                 | Inr (reference, filter_peers) \<Rightarrow>
                     (if filter_peers = [] then Some (Inl NoPeers, cl)
                      else
                        (let cl = cl\<lparr>cc_peers := filter_peers,
                               cc_filter_chain := (case reference of Some hs \<Rightarrow> filter_chain_extend hs filters | None \<Rightarrow> filters)\<rparr>
                         in if \<not> cc_disk_ok cl then Some (Inl Io, cl)
                            else Some (Inr (), cl\<lparr>cc_headers_file := Contents (header_chain_persist (cc_chain cl)),
                                   cc_filter_hashes_file := Contents (filter_chain_persist (cc_filter_chain cl))\<rparr>))))))"

definition cbf_sync :: "sha256_fn \<Rightarrow> cbf_client \<Rightarrow> ((cbf_error + unit) \<times> cbf_client) option" where
  "cbf_sync sha cl = sync_inner sha False cl"

text \<open>
  Connecting: the caches are loaded, each distinct peer address is one connection attempt, given as what
  the attempt returned, and the first synchronisation re-attests the filter cache.
\<close>

definition cbf_connect ::
  "sha256_fn \<Rightarrow> network \<Rightarrow> (cbf_error + peer) list \<Rightarrow> bytes file_read \<Rightarrow> bytes file_read \<Rightarrow> (nat \<Rightarrow> bytes file_read) \<Rightarrow> bool \<Rightarrow> (cbf_error + cbf_client) option" where
  "cbf_connect sha network attempts headers_file hashes_file filter_files disk_ok =
     (case header_chain_load sha (network_params network) headers_file of
        None \<Rightarrow> None
      | Some (Inl e) \<Rightarrow> Some (Inl e)
      | Some (Inr chain) \<Rightarrow>
          (case filter_chain_load hashes_file of
             Inl e \<Rightarrow> Some (Inl e)
           | Inr filters \<Rightarrow>
               (let peers = List.map_filter (\<lambda>a. case a of Inl e \<Rightarrow> None | Inr p \<Rightarrow> Some p) attempts in
                if peers = [] then Some (Inl NoPeers)
                else map_option (\<lambda>(r, cl). map_sum id (\<lambda>_. cl) r)
                  (sync_inner sha True
                     \<lparr>cc_peers = peers, cc_chain = chain, cc_filter_chain = filters, cc_filter_files = filter_files,
                      cc_headers_file = headers_file, cc_filter_hashes_file = hashes_file, cc_disk_ok = disk_ok\<rparr>))))"

section \<open>Filters and blocks\<close>

definition client_tip_height :: "cbf_client \<Rightarrow> nat option" where
  "client_tip_height cl = chain_tip_height (cc_chain cl)"

definition block_hash_at :: "cbf_client \<Rightarrow> nat \<Rightarrow> bytes option" where
  "block_hash_at cl ht = hash_at (cc_chain cl) ht"

fun cfilter_loop :: "sha256_fn \<Rightarrow> filter_header_chain \<Rightarrow> nat \<Rightarrow> bytes \<Rightarrow> cbf_error option \<Rightarrow> peer list \<Rightarrow> (cbf_error + bytes) \<times> peer list" where
  "cfilter_loop sha filters ht block_hash last_err [] = (Inl (case last_err of Some e \<Rightarrow> e | None \<Rightarrow> NoPeers), [])"
| "cfilter_loop sha filters ht block_hash last_err (p # rest) =
     (case get_cfilter sha (word_of_nat ht) block_hash p of
        (Inl e, p) \<Rightarrow> apsnd (\<lambda>ps. p # ps) (cfilter_loop sha filters ht block_hash (Some e) rest)
      | (Inr cfilter, p) \<Rightarrow>
          (case verify_filter sha filters ht (cfi_filter_bytes cfilter) of
             Inl e \<Rightarrow> apsnd (\<lambda>ps. p # ps) (cfilter_loop sha filters ht block_hash (Some e) rest)
           | Inr _ \<Rightarrow> (Inr (cfi_filter_bytes cfilter), p # rest)))"

definition filter_at :: "sha256_fn \<Rightarrow> nat \<Rightarrow> cbf_client \<Rightarrow> (cbf_error + bytes) \<times> cbf_client" where
  "filter_at sha ht cl =
     (let fetch = (\<lambda>last_err cl.
        case hash_at (cc_chain cl) ht of
          None \<Rightarrow> (Inl Filter, cl)
        | Some block_hash \<Rightarrow>
            (case cfilter_loop sha (cc_filter_chain cl) ht block_hash last_err (cc_peers cl) of
               (Inl e, ps) \<Rightarrow> (Inl e, cl\<lparr>cc_peers := ps\<rparr>)
             | (Inr bs, ps) \<Rightarrow>
                 (if \<not> cc_disk_ok cl then (Inl Io, cl\<lparr>cc_peers := ps\<rparr>)
                  else (Inr bs, cl\<lparr>cc_peers := ps, cc_filter_files := (cc_filter_files cl)(ht := Contents bs)\<rparr>))))
      in case cc_filter_files cl ht of
           Absent \<Rightarrow> fetch None cl
         | Unreadable \<Rightarrow> fetch (Some Io) cl
         | Contents bs \<Rightarrow>
             (case verify_filter sha (cc_filter_chain cl) ht bs of
                Inr _ \<Rightarrow> (Inr bs, cl)
              | Inl e \<Rightarrow> fetch (Some e)
                  (if cc_disk_ok cl then cl\<lparr>cc_filter_files := (cc_filter_files cl)(ht := Absent)\<rparr> else cl)))"

text \<open>A filter in hand at a height without a block is the unwrapping that cannot fail.\<close>

definition filter_matches :: "sha256_fn \<Rightarrow> nat \<Rightarrow> bytes \<Rightarrow> cbf_client \<Rightarrow> ((cbf_error + bool) \<times> cbf_client) option" where
  "filter_matches sha ht item cl =
     (case filter_at sha ht cl of
        (Inl e, cl) \<Rightarrow> Some (Inl e, cl)
      | (Inr bs, cl) \<Rightarrow>
          (case hash_at (cc_chain cl) ht of
             None \<Rightarrow> None
           | Some block_hash \<Rightarrow>
               Some (and_then (gcs_parse bs) (\<lambda>gf. gcs_matches gf (filter_key block_hash) item BASIC_FILTER_P BASIC_FILTER_M), cl)))"

fun fetch_block_loop :: "sha256_fn \<Rightarrow> bytes \<Rightarrow> cbf_error option \<Rightarrow> peer list \<Rightarrow> ((cbf_error + cbf_block) \<times> peer list) option" where
  "fetch_block_loop sha block_hash last_err [] = map_option (\<lambda>e. (Inl e, [])) last_err"
| "fetch_block_loop sha block_hash last_err (p # rest) =
     (case get_block sha block_hash p of
        (Inr block, p) \<Rightarrow> Some (Inr block, p # rest)
      | (Inl e, p) \<Rightarrow> map_option (apsnd (\<lambda>ps. p # ps)) (fetch_block_loop sha block_hash (Some e) rest))"

definition fetch_block :: "sha256_fn \<Rightarrow> bytes \<Rightarrow> cbf_client \<Rightarrow> ((cbf_error + cbf_block) \<times> cbf_client) option" where
  "fetch_block sha block_hash cl =
     map_option (apsnd (\<lambda>ps. cl\<lparr>cc_peers := ps\<rparr>)) (fetch_block_loop sha block_hash None (cc_peers cl))"

text \<open>A block and its merkle check, which the callers write out the same way.\<close>

definition fetch_checked_block :: "sha256_fn \<Rightarrow> bytes \<Rightarrow> cbf_client \<Rightarrow> ((cbf_error + cbf_block) \<times> cbf_client) option" where
  "fetch_checked_block sha block_hash cl =
     (case fetch_block sha block_hash cl of
        None \<Rightarrow> None
      | Some (Inl e, cl) \<Rightarrow> Some (Inl e, cl)
      | Some (Inr block, cl) \<Rightarrow>
          (case compute_merkle_root sha block of
             None \<Rightarrow> None
           | Some root \<Rightarrow>
               (if root \<noteq> bh_merkle_root (cb_header block) then Some (Inl Consensus, cl) else Some (Inr block, cl))))"

section \<open>Point verification of anchors\<close>

text \<open>\<open>funding_ctx\<close> of the bitcoin crate over the hash at hand.\<close>

definition cbf_funding_ctx :: "sha256_fn \<Rightarrow> bytes \<Rightarrow> u32 \<Rightarrow> bytes" where
  "cbf_funding_ctx sha txid vout = sha (txid @ to_le_bytes vout)"

text \<open>Steps 4 and 5: position, transaction id, record, context and depth, on the verified block.\<close>

definition anchor_in_block ::
  "sha256_fn \<Rightarrow> cbf_block \<Rightarrow> bytes \<Rightarrow> u32 \<Rightarrow> bytes \<Rightarrow> bytes \<Rightarrow> nat \<Rightarrow> nat \<Rightarrow> bool \<Rightarrow> cbf_error + anchor_verdict" where
  "anchor_in_block sha block record_bytes pos txid block_hash confirmations required filter_matched =
     (if unat pos \<ge> length (cb_txs block) then Inr (NotPresent (PositionOutOfRange pos (length (cb_txs block))))
      else
        (let tx = cb_txs block ! unat pos; actual = tx_txid sha tx in
         if actual \<noteq> txid then Inr (NotPresent (TxidMismatch txid actual))
         else if \<not> list_ex (\<lambda>out. op_return_payload (cx_script_pubkey out) = Some record_bytes) (ct_outputs tx)
         then Inr (NotPresent RecordNotInTx)
         else if ct_inputs tx = [] then Inl Protocol
         else if is_coinbase tx then Inr (NotPresent RecordNotInTx)
         else
           (let prev = ci_prev (ct_inputs tx ! 0); ctx = cbf_funding_ctx sha (co_txid prev) (co_vout prev) in
            if confirmations < required then Inr (InsufficientConfirmations confirmations required)
            else Inr (Confirmed block_hash ctx confirmations filter_matched))))"

definition verify_anchor ::
  "sha256_fn \<Rightarrow> anchor_record \<Rightarrow> nat \<Rightarrow> u32 \<Rightarrow> bytes \<Rightarrow> nat \<Rightarrow> cbf_client \<Rightarrow> ((cbf_error + anchor_verdict) \<times> cbf_client) option" where
  "verify_anchor sha claimed ht pos txid required cl =
     (if ht = 0 then Some (Inl InvalidInput, cl)
      else case client_tip_height cl of
        None \<Rightarrow> None
      | Some tip \<Rightarrow>
          (if ht > tip then Some (Inr (NotPresent (AboveTip ht tip)), cl)
           else case hash_at (cc_chain cl) ht of
             None \<Rightarrow> None
           | Some block_hash \<Rightarrow>
               (let record_bytes = to_bytes claimed in
                case filter_matches sha ht (anchor_script record_bytes) cl of
                  None \<Rightarrow> None
                | Some (Inl e, cl) \<Rightarrow> Some (Inl e, cl)
                | Some (Inr filter_matched, cl) \<Rightarrow>
                    map_option (\<lambda>(r, cl). (and_then r (\<lambda>block.
                        anchor_in_block sha block record_bytes pos txid block_hash (tip - ht + 1) required filter_matched), cl))
                      (fetch_checked_block sha block_hash cl))))"

section \<open>Outputs\<close>

datatype outpoint_block_observation =
    ObsContinue
  | ObsSpent nat bytes
  | ObsOutputMismatch
  | ObsSpendBeforeCreation

fun inspect_txs ::
  "sha256_fn \<Rightarrow> cbf_tx list \<Rightarrow> nat \<Rightarrow> cbf_outpoint \<Rightarrow> u64 \<Rightarrow> bytes \<Rightarrow> nat option \<Rightarrow> outpoint_block_observation \<times> nat option" where
  "inspect_txs sha [] ht outpoint expected_value expected_script creation = (ObsContinue, creation)"
| "inspect_txs sha (tx # rest) ht outpoint expected_value expected_script creation =
     (let txid = tx_txid sha tx;
          here = txid = co_txid outpoint;
          vout = unat (co_vout outpoint);
          ok = vout < length (ct_outputs tx) \<and> cx_value (ct_outputs tx ! vout) = expected_value \<and>
               cx_script_pubkey (ct_outputs tx ! vout) = expected_script
      in if here \<and> \<not> ok then (ObsOutputMismatch, creation)
         else
           (let creation = (if here then Some ht else creation) in
            if list_ex (\<lambda>i. ci_prev i = outpoint) (ct_inputs tx) then
              (case creation of Some h \<Rightarrow> ObsSpent h txid | None \<Rightarrow> ObsSpendBeforeCreation, creation)
            else inspect_txs sha rest ht outpoint expected_value expected_script creation))"

definition inspect_outpoint_block ::
  "sha256_fn \<Rightarrow> cbf_block \<Rightarrow> nat \<Rightarrow> cbf_outpoint \<Rightarrow> u64 \<Rightarrow> bytes \<Rightarrow> nat option \<Rightarrow> outpoint_block_observation \<times> nat option" where
  "inspect_outpoint_block sha block ht outpoint expected_value expected_script creation =
     inspect_txs sha (cb_txs block) ht outpoint expected_value expected_script creation"

fun outpoint_loop ::
  "sha256_fn \<Rightarrow> nat list \<Rightarrow> nat \<Rightarrow> nat \<Rightarrow> cbf_outpoint \<Rightarrow> u64 \<Rightarrow> bytes \<Rightarrow> nat option \<Rightarrow> nat \<Rightarrow> cbf_client \<Rightarrow> ((cbf_error + outpoint_verdict) \<times> cbf_client) option" where
  "outpoint_loop sha [] birth tip outpoint val script creation matched cl =
     Some (Inr (case creation of Some h \<Rightarrow> Unspent h tip matched | None \<Rightarrow> NotFound birth tip), cl)"
| "outpoint_loop sha (ht # heights) birth tip outpoint val script creation matched cl =
     (case filter_matches sha ht script cl of
        None \<Rightarrow> None
      | Some (Inl e, cl) \<Rightarrow> Some (Inl e, cl)
      | Some (Inr False, cl) \<Rightarrow> outpoint_loop sha heights birth tip outpoint val script creation matched cl
      | Some (Inr True, cl) \<Rightarrow>
          (case hash_at (cc_chain cl) ht of
             None \<Rightarrow> None
           | Some block_hash \<Rightarrow>
               (case fetch_checked_block sha block_hash cl of
                  None \<Rightarrow> None
                | Some (Inl e, cl) \<Rightarrow> Some (Inl e, cl)
                | Some (Inr block, cl) \<Rightarrow>
                    (case inspect_outpoint_block sha block ht outpoint val script creation of
                       (ObsContinue, creation) \<Rightarrow> outpoint_loop sha heights birth tip outpoint val script creation (matched + 1) cl
                     | (ObsOutputMismatch, creation) \<Rightarrow> Some (Inr (OutputMismatch ht), cl)
                     | (ObsSpendBeforeCreation, creation) \<Rightarrow> Some (Inr (NotFound birth ht), cl)
                     | (ObsSpent h spender, creation) \<Rightarrow> Some (Inr (Spent h ht spender), cl)))))"

definition verify_outpoint_unspent ::
  "sha256_fn \<Rightarrow> cbf_outpoint \<Rightarrow> u64 \<Rightarrow> bytes \<Rightarrow> nat \<Rightarrow> nat \<Rightarrow> cbf_client \<Rightarrow> ((cbf_error + outpoint_verdict) \<times> cbf_client) option" where
  "verify_outpoint_unspent sha outpoint val script birth max_blocks cl =
     (if birth = 0 then Some (Inl InvalidInput, cl)
      else case client_tip_height cl of
        None \<Rightarrow> None
      | Some tip \<Rightarrow>
          (if birth > tip then Some (Inl InvalidInput, cl)
           else if max_blocks = 0 \<or> tip - birth + 1 > max_blocks then Some (Inl InvalidInput, cl)
           else outpoint_loop sha [birth..<Suc tip] birth tip outpoint val script None 0 cl))"

end
