(* ===== verification/Cbf_Chain_Proofs.thy ===== *)
theory Cbf_Chain_Proofs
  imports Cbf_Chain
begin

text \<open>
  Proofs about the two chains: every header a chain holds was validated against the headers below it,
  whatever the peers sent; synchronisation always returns; it catches up with a peer that serves a valid
  branch; filter headers bind the filter hashes below them.
\<close>

section \<open>The invariant of the header chain\<close>

definition header_step :: "sha256_fn \<Rightarrow> params \<Rightarrow> block_header list \<Rightarrow> nat \<Rightarrow> u128 \<Rightarrow> bool" where
  "header_step sha pa headers i w \<longleftrightarrow>
     (if i = 0 then header_hash sha (headers ! 0) = pa_genesis_hash pa \<and>
        (\<exists>t. from_compact (bh_bits (headers ! 0)) = Some t \<and> w = work_from_target t)
      else validate_header sha pa (take i headers) i (headers ! i) = Some (Inr w))"

definition chain_ok :: "sha256_fn \<Rightarrow> header_chain \<Rightarrow> bool" where
  "chain_ok sha c \<longleftrightarrow>
     hc_hashes c = map (header_hash sha) (hc_headers c) \<and> length (hc_chainwork c) = length (hc_headers c) \<and>
     (\<forall>i < length (hc_headers c). \<exists>w. header_step sha (hc_params c) (hc_headers c) i w \<and>
        hc_chainwork c ! i = (if i = 0 then 0 else hc_chainwork c ! (i - 1)) + w)"

lemma chain_ok_new: "chain_ok sha (header_chain_new pa)"
  by (simp add: chain_ok_def header_chain_new_def)

lemma header_step_append: "i < length hs \<Longrightarrow> header_step sha pa (hs @ xs) i w \<longleftrightarrow> header_step sha pa hs i w"
  by (cases "hs = []") (simp_all add: header_step_def nth_append)

lemma header_step_take: "i < n \<Longrightarrow> header_step sha pa (take n hs) i w \<longleftrightarrow> header_step sha pa hs i w"
  by (simp add: header_step_def min_def)

lemma truncate_ok: "chain_ok sha c \<Longrightarrow> chain_ok sha (truncate_chain n c)"
  by (auto simp: chain_ok_def truncate_chain_def take_map header_step_take)

text \<open>What a successful append did.\<close>

lemma append_validated_step:
  assumes "append_validated sha h c = Some (Inr c')"
  obtains w where "header_step sha (hc_params c) (hc_headers c @ [h]) (length (hc_headers c)) w"
    and "c' = c\<lparr>hc_headers := hc_headers c @ [h], hc_hashes := hc_hashes c @ [header_hash sha h], hc_chainwork := hc_chainwork c @ [tip_work c + w]\<rparr>"
  using assms by (auto simp: append_validated_def Let_def and_then_Inr header_step_def split: if_splits)

lemma append_validated_fields:
  "append_validated sha h c = Some (Inr c') \<Longrightarrow>
     hc_headers c' = hc_headers c @ [h] \<and> hc_hashes c' = hc_hashes c @ [header_hash sha h] \<and> hc_params c' = hc_params c"
  by (erule append_validated_step) simp

lemma append_validated_ok:
  assumes "chain_ok sha c" "append_validated sha h c = Some (Inr c')"
  shows "chain_ok sha c'"
proof -
  obtain w where w: "header_step sha (hc_params c) (hc_headers c @ [h]) (length (hc_headers c)) w"
    and c': "c' = c\<lparr>hc_headers := hc_headers c @ [h], hc_hashes := hc_hashes c @ [header_hash sha h], hc_chainwork := hc_chainwork c @ [tip_work c + w]\<rparr>"
    using append_validated_step [OF assms(2)] by blast
  have len: "length (hc_chainwork c) = length (hc_headers c)" using assms(1) by (simp add: chain_ok_def)
  have "\<exists>w. header_step sha (hc_params c') (hc_headers c') i w \<and> hc_chainwork c' ! i = (if i = 0 then 0 else hc_chainwork c' ! (i - 1)) + w"
    if "i < length (hc_headers c')" for i
  proof (cases "i < length (hc_headers c)")
    case True
    then show ?thesis using assms(1) len by (auto simp: c' chain_ok_def header_step_append nth_append)
  next
    case False
    then have i: "i = length (hc_headers c)" using that c' by simp
    then show ?thesis using w len by (auto simp: c' nth_append tip_work_def last_conv_nth)
  qed
  moreover have "hc_hashes c' = map (header_hash sha) (hc_headers c')" "length (hc_chainwork c') = length (hc_headers c')"
    using assms(1) by (simp_all add: chain_ok_def c')
  ultimately show ?thesis unfolding chain_ok_def by blast
qed

lemma attach_headers_ok:
  "chain_ok sha c \<Longrightarrow> attach_headers sha hs c n = Some (r, c') \<Longrightarrow> chain_ok sha c' \<and> hc_params c' = hc_params c"
proof (induction hs arbitrary: c n)
  case (Cons h hs)
  have step: "chain_ok sha c' \<and> hc_params c' = hc_params d"
    if d: "chain_ok sha d" and a: "(case append_validated sha h d of None \<Rightarrow> None | Some (Inl e) \<Rightarrow> Some (Inl e, d) | Some (Inr c) \<Rightarrow> attach_headers sha hs c (n + 1)) = Some (r, c')" for d
  proof (cases "append_validated sha h d")
    case (Some res)
    show ?thesis
    proof (cases res)
      case (Inl e)
      then show ?thesis using a d Some by simp
    next
      case (Inr d')
      then have "chain_ok sha d'" "hc_params d' = hc_params d"
        using Some append_validated_ok [OF d] append_validated_fields [of sha h d d'] by simp_all
      then show ?thesis using a Some Inr Cons.IH [of d' "n + 1"] by simp
    qed
  qed (use a in simp)
  consider "hc_hashes c \<noteq> [] \<and> last (hc_hashes c) = bh_prev_block h"
    | fork where "\<not> (hc_hashes c \<noteq> [] \<and> last (hc_hashes c) = bh_prev_block h)" "iter_position (\<lambda>x. x = bh_prev_block h) (hc_hashes c) = Some fork"
    | "\<not> (hc_hashes c \<noteq> [] \<and> last (hc_hashes c) = bh_prev_block h)" "iter_position (\<lambda>x. x = bh_prev_block h) (hc_hashes c) = None"
    by (cases "iter_position (\<lambda>x. x = bh_prev_block h) (hc_hashes c)") auto
  then show ?case
  proof cases
    case 1
    then show ?thesis using step [OF Cons.prems(1)] Cons.prems(2) by simp
  next
    case (2 fork)
    let ?d = "truncate_chain (fork + 1) c"
    have "hc_params ?d = hc_params c" by (simp add: truncate_chain_def)
    moreover have "attach_headers sha (h # hs) c n = (case append_validated sha h ?d of None \<Rightarrow> None | Some (Inl e) \<Rightarrow> Some (Inl e, ?d) | Some (Inr c) \<Rightarrow> attach_headers sha hs c (n + 1))"
      unfolding attach_headers.simps if_not_P [OF 2(1)] 2(2) by (simp only: option.case Let_def)
    ultimately show ?thesis using step [OF truncate_ok [OF Cons.prems(1)], of "fork + 1"] Cons.prems(2) by simp
  next
    case 3
    then show ?thesis using Cons by (auto split: if_splits)
  qed
qed simp

lemma sync_loop_ok:
  "chain_ok sha c \<Longrightarrow> sync_loop sha c p n = Some (r, c', p') \<Longrightarrow> chain_ok sha c' \<and> hc_params c' = hc_params c"
proof (induction sha c p n rule: sync_loop.induct)
  case (1 sha c p n)
  obtain g q where g: "peer_get_headers sha (locator c) (replicate 32 0) p = (g, q)" by fastforce
  show ?case
  proof (cases "\<exists>hs. g = Inr hs \<and> hs \<noteq> []")
    case True
    then obtain hs where hs: "g = Inr hs" "hs \<noteq> []" by blast
    then obtain a d where a: "attach_headers sha hs c n = Some (a, d)"
      using "1.prems"(2) g by (auto simp: sync_loop.simps [of sha c p n] split: option.splits)
    then have d: "chain_ok sha d" "hc_params d = hc_params c" using attach_headers_ok [OF "1.prems"(1) a] by auto
    show ?thesis
    proof (cases a)
      case (Inl e)
      then show ?thesis using "1.prems"(2) g hs a d by (simp add: sync_loop.simps [of sha c p n])
    next
      case (Inr m)
      have "sync_loop sha d q m = Some (r, c', p')" using "1.prems"(2) g hs a Inr by (simp add: sync_loop.simps [of sha c p n])
      then show ?thesis using "1.IH" [OF g [symmetric] hs(1) hs(2) a refl Inr d(1)] d(2) by simp
    qed
  next
    case False
    then show ?thesis using "1.prems" g by (cases g) (auto simp: sync_loop.simps [of sha c p n])
  qed
qed

lemma load_loop_ok:
  "chain_ok sha c \<Longrightarrow> load_loop sha cs c = Some (Inr c') \<Longrightarrow> chain_ok sha c' \<and> hc_params c' = hc_params c"
proof (induction sha cs c rule: load_loop.induct)
  case (2 sha chunk rest c)
  then show ?case
    using append_validated_ok [OF "2.prems"(1)] append_validated_fields [of sha _ c]
    by (fastforce simp: header_chain_new_def chain_ok_new [unfolded header_chain_new_def] split: sum.splits option.splits)
qed simp

lemma header_chain_sync_ok:
  assumes "chain_ok sha c" "header_chain_sync sha c p = Some (r, c', p')"
  shows "chain_ok sha c' \<and> hc_params c' = hc_params c"
proof (cases "hc_headers c = []")
  case True
  obtain g q where g: "peer_get_headers sha [] (pa_genesis_hash (hc_params c)) p = (g, q)" by fastforce
  have same: ?thesis if "c' = c" using assms(1) that by simp
  have cont: ?thesis if "append_validated sha h c = Some (Inr d)" "sync_loop sha d q 1 = Some (r, c', p')" for h d
    using sync_loop_ok [OF append_validated_ok [OF assms(1) that(1)] that(2)] append_validated_fields [OF that(1)] by simp
  show ?thesis using assms(2) True g same cont
    by (auto simp: header_chain_sync_def split: if_splits sum.splits option.splits)
next
  case False
  then show ?thesis using assms sync_loop_ok [of sha c p 0 r c' p'] by (simp add: header_chain_sync_def)
qed

text \<open>
  Claim C14. The header chain only ever holds validated headers: a chain loaded from the
  cache file, whatever bytes the file holds, and a chain synchronised from a valid one, whatever the
  peer sends and whether the synchronisation succeeds or fails half way, starts at the network's
  genesis block, has every later header pass all consensus checks against exactly the headers below
  it, carries the hash of every header, and its chainwork is the running sum of their work.
\<close>

theorem header_chain_validated:
  "(header_chain_load sha pa file = Some (Inr c0) \<longrightarrow> chain_ok sha c0 \<and> hc_params c0 = pa) \<and>
   (chain_ok sha c \<and> header_chain_sync sha c p = Some (r, c', p') \<longrightarrow> chain_ok sha c' \<and> hc_params c' = hc_params c)"
proof -
  have "hc_params (header_chain_new pa) = pa" by (simp add: header_chain_new_def)
  then show ?thesis
    using header_chain_sync_ok [of sha c p r c' p'] load_loop_ok [OF chain_ok_new, of sha _ pa c0] chain_ok_new [of sha pa]
    by (auto simp: header_chain_load_def split: file_read.splits if_splits)
qed

text \<open>A connection on which the peer has sent batches of headers.\<close>

definition demo_peer :: "nat \<Rightarrow> block_header list list \<Rightarrow> peer" where
  "demo_peer writes batches =
     \<lparr>pe_in = concat (map (\<lambda>hs. map Some (frame demo_sha 0xdab5bffa ''headers'' (headers_payload hs))) batches),
      pe_writes = writes, pe_out = [], pe_magic = 0xdab5bffa, pe_services = 72, pe_start_height = 0,
      pe_filter_bytes_fetched = 0, pe_block_bytes_fetched = 0, pe_versions_sent = 1,
      pe_wire_bytes_sent = 0, pe_wire_bytes_received = 0\<rparr>"

theorem header_chain_validated_witness:
  "chain_ok demo_sha (header_chain_new (network_params Regtest)) \<and>
   header_chain_sync demo_sha (header_chain_new (network_params Regtest)) (demo_peer 0 []) = Some (Inl Io, header_chain_new (network_params Regtest), demo_peer 0 []) \<and>
   hc_params (header_chain_new (network_params Regtest)) = network_params Regtest"
proof -
  let ?c = "header_chain_new (network_params Regtest)"
  have load: "header_chain_load demo_sha (network_params Regtest) Absent = Some (Inr ?c)" by (simp add: header_chain_load_def)
  have sync: "header_chain_sync demo_sha ?c (demo_peer 0 []) = Some (Inl Io, ?c, demo_peer 0 [])"
    by (simp add: header_chain_sync_def header_chain_new_def peer_get_headers_def peer_request_def peer_write_message_def demo_peer_def Let_def)
  then show ?thesis
    using header_chain_validated [of demo_sha "network_params Regtest" Absent ?c ?c "demo_peer 0 []" "Inl Io" ?c "demo_peer 0 []"] load by simp
qed

section \<open>Synchronisation returns\<close>

lemma header_step_bits: "header_step sha pa hs i w \<Longrightarrow> from_compact (bh_bits (hs ! i)) \<noteq> None"
  by (auto simp: header_step_def validate_header_def and_then_Inr split: if_splits option.splits)

text \<open>The networks of the client never combine retargeting with the minimum-difficulty rule.\<close>

definition retarget_rules_ok :: "params \<Rightarrow> bool" where
  "retarget_rules_ok pa \<longleftrightarrow> pa_no_retargeting pa \<or> \<not> pa_allow_min_difficulty pa"

lemma params_retarget_ok: "retarget_rules_ok (network_params net)"
  by (cases net) (simp_all add: network_params_def retarget_rules_ok_def)

lemma append_validated_returns:
  assumes "chain_ok sha c" "retarget_rules_ok (hc_params c)"
  shows "append_validated sha h c \<noteq> None"
proof (cases "hc_headers c = []")
  case True
  then show ?thesis by (simp add: append_validated_def Let_def)
next
  case False
  let ?n = "length (hc_headers c)"
  obtain w where "header_step sha (hc_params c) (hc_headers c) (?n - 1) w"
    using assms(1) False unfolding chain_ok_def by (meson diff_less length_greater_0_conv zero_less_one)
  then have "from_compact (bh_bits (hc_headers c ! (?n - 1))) \<noteq> None" by (rule header_step_bits)
  then have "required_bits (hc_params c) (hc_headers c) ?n h \<noteq> None"
    using assms(2) by (auto simp: required_bits_def next_work_required_def Let_def retarget_rules_ok_def)
  then have "validate_header sha (hc_params c) (hc_headers c) ?n h \<noteq> None" by (auto simp: validate_header_def)
  then show ?thesis using False by (auto simp: append_validated_def)
qed

lemma attach_headers_returns:
  "chain_ok sha c \<Longrightarrow> retarget_rules_ok (hc_params c) \<Longrightarrow> attach_headers sha hs c n \<noteq> None"
proof (induction hs arbitrary: c n)
  case (Cons h hs)
  have step: "(case append_validated sha h d of None \<Rightarrow> None | Some (Inl e) \<Rightarrow> Some (Inl e, d) | Some (Inr c) \<Rightarrow> attach_headers sha hs c (n + 1)) \<noteq> None"
    if d: "chain_ok sha d" "retarget_rules_ok (hc_params d)" for d
  proof -
    have "attach_headers sha hs d' (n + 1) \<noteq> None" if "append_validated sha h d = Some (Inr d')" for d'
      using append_validated_ok [OF d(1) that] append_validated_fields [OF that] d(2) Cons.IH by simp
    then show ?thesis using append_validated_returns [OF d, of h] by (auto split: option.splits sum.splits)
  qed
  have d: "chain_ok sha (truncate_chain k c)" "retarget_rules_ok (hc_params (truncate_chain k c))" for k
    using truncate_ok [OF Cons.prems(1)] Cons.prems(2) by (simp_all add: truncate_chain_def)
  show ?case
  proof (cases "hc_hashes c \<noteq> [] \<and> last (hc_hashes c) = bh_prev_block h")
    case True
    show ?thesis unfolding attach_headers.simps if_P [OF True] by (rule step [OF Cons.prems])
  next
    case False
    show ?thesis unfolding attach_headers.simps if_not_P [OF False] Let_def using Cons.IH [OF Cons.prems] step [OF d]
      by (cases "iter_position (\<lambda>x. x = bh_prev_block h) (hc_hashes c)") (simp_all only: option.case not_False_eq_True)
  qed
qed simp

lemma sync_loop_returns:
  "chain_ok sha c \<Longrightarrow> retarget_rules_ok (hc_params c) \<Longrightarrow> sync_loop sha c p n \<noteq> None"
proof (induction sha c p n rule: sync_loop.induct)
  case (1 sha c p n)
  obtain g q where g: "peer_get_headers sha (locator c) (replicate 32 0) p = (g, q)" by fastforce
  have cont: "sync_loop sha d q m \<noteq> None" if "g = Inr hs" "hs \<noteq> []" "attach_headers sha hs c n = Some (Inr m, d)" for hs m d
    using "1.IH" [OF g [symmetric] that refl refl] attach_headers_ok [OF "1.prems"(1) that(3)] "1.prems"(2) by simp
  have "attach_headers sha hs c n \<noteq> None" for hs using attach_headers_returns [OF "1.prems"] .
  then show ?case using g cont
    by (auto simp: sync_loop.simps [of sha c p n] split: sum.splits option.splits) (metis option.distinct(1))
qed

lemma header_chain_sync_returns:
  assumes "chain_ok sha c" "retarget_rules_ok (hc_params c)"
  shows "header_chain_sync sha c p \<noteq> None"
proof -
  have "sync_loop sha d q 1 \<noteq> None" if "append_validated sha h c = Some (Inr d)" for h d q
    using sync_loop_returns [OF append_validated_ok [OF assms(1) that]] append_validated_fields [OF that] assms(2) by simp
  then show ?thesis using sync_loop_returns [OF assms] append_validated_returns [OF assms]
    by (auto simp: header_chain_sync_def split: prod.splits sum.splits option.splits) (metis option.distinct(1))
qed

text \<open>
  Claim C26. Header synchronisation returns: on every supported network, from every valid
  chain and for every finite input of the peer, the nested loops end (each round trip consumes a message)
  and no branch panics, in particular neither the unreachable branch of the retarget rule nor the
  unwrapping of an earlier header's target.
\<close>

theorem header_sync_terminates:
  assumes "chain_ok sha c" and "hc_params c = network_params net"
  shows "\<exists>r c' p'. header_chain_sync sha c p = Some (r, c', p')"
  using header_chain_sync_returns [OF assms(1), of p] assms(2) params_retarget_ok [of net] by fastforce

theorem header_sync_terminates_witness:
  "\<exists>r c' p'. header_chain_sync demo_sha (header_chain_new (network_params Regtest)) (demo_peer 2 [[demo_header]]) = Some (r, c', p')"
  by (rule header_sync_terminates [where net = Regtest]) (rule chain_ok_new, simp add: header_chain_new_def)

section \<open>Synchronisation catches up\<close>

fun append_all :: "sha256_fn \<Rightarrow> block_header list \<Rightarrow> header_chain \<Rightarrow> header_chain option" where
  "append_all sha [] c = Some c"
| "append_all sha (h # hs) c = (case append_validated sha h c of Some (Inr c') \<Rightarrow> append_all sha hs c' | _ \<Rightarrow> None)"

lemma append_all_Cons:
  "append_all sha (h # hs) c = Some c' \<longleftrightarrow> (\<exists>d. append_validated sha h c = Some (Inr d) \<and> append_all sha hs d = Some c')"
  by (auto split: option.splits sum.splits)

lemma append_all_append:
  "append_all sha (xs @ ys) c = Some c' \<longleftrightarrow> (\<exists>d. append_all sha xs c = Some d \<and> append_all sha ys d = Some c')"
  by (induction xs arbitrary: c) (auto simp: append_all_Cons simp del: append_all.simps(2))

lemma append_all_headers: "append_all sha hs c = Some c' \<Longrightarrow> hc_headers c' = hc_headers c @ hs"
  by (induction hs arbitrary: c)
    (auto simp: append_all_Cons simp del: append_all.simps(2) dest: append_validated_fields)

lemma append_validated_links:
  assumes "chain_ok sha c" "hc_headers c \<noteq> []" "append_validated sha h c = Some (Inr d)"
  shows "hc_hashes c \<noteq> [] \<and> last (hc_hashes c) = bh_prev_block h"
  using assms by (auto simp: append_validated_def Let_def and_then_Inr validate_header_def chain_ok_def last_map last_conv_nth
      split: if_splits option.splits)

lemma attach_headers_extends:
  "chain_ok sha c \<Longrightarrow> hc_headers c \<noteq> [] \<Longrightarrow> append_all sha hs c = Some c' \<Longrightarrow>
     attach_headers sha hs c n = Some (Inr (n + word_of_nat (length hs)), c') \<and> chain_ok sha c' \<and> hc_headers c' \<noteq> []"
proof (induction hs arbitrary: c n)
  case (Cons h hs)
  then obtain d where d: "append_validated sha h c = Some (Inr d)" "append_all sha hs d = Some c'"
    by (auto simp: append_all_Cons simp del: append_all.simps(2))
  have links: "hc_hashes c \<noteq> [] \<and> last (hc_hashes c) = bh_prev_block h" by (rule append_validated_links [OF Cons.prems(1,2) d(1)])
  have "chain_ok sha d" "hc_headers d \<noteq> []" using append_validated_ok [OF Cons.prems(1) d(1)] append_validated_fields [OF d(1)] by auto
  from Cons.IH [OF this d(2), of "n + 1"] show ?case
    unfolding attach_headers.simps if_P [OF links] by (simp add: d(1) algebra_simps)
qed simp

lemma last_take_Suc: "k < length xs \<Longrightarrow> last (take (Suc k) xs) = xs ! k"
  by (simp add: take_Suc_conv_app_nth)

lemma attach_headers_fork:
  assumes "chain_ok sha c" "distinct (hc_hashes c)" "k < length (hc_headers c)" "hc_hashes c ! k = bh_prev_block h"
  shows "attach_headers sha (h # hs) c n = attach_headers sha (h # hs) (truncate_chain (k + 1) c) n"
proof (cases "k + 1 = length (hc_headers c)")
  case True
  then have "truncate_chain (k + 1) c = c" using assms(1) by (simp add: truncate_chain_def chain_ok_def)
  then show ?thesis by simp
next
  case False
  let ?d = "truncate_chain (k + 1) c"
  have len: "length (hc_hashes c) = length (hc_headers c)" using assms(1) by (simp add: chain_ok_def)
  have last: "\<not> (hc_hashes c \<noteq> [] \<and> last (hc_hashes c) = bh_prev_block h)"
  proof
    assume "hc_hashes c \<noteq> [] \<and> last (hc_hashes c) = bh_prev_block h"
    then have "hc_hashes c ! (length (hc_hashes c) - 1) = hc_hashes c ! k"
      using assms(4) last_conv_nth [of "hc_hashes c"] by (simp del: One_nat_def)
    then show False using assms(2,3) len False by (auto simp: nth_eq_iff_index_eq)
  qed
  obtain j where j: "iter_position (\<lambda>x. x = bh_prev_block h) (hc_hashes c) = Some j"
    using assms(3,4) len iter_position_None [of "\<lambda>x. x = bh_prev_block h" "hc_hashes c"]
    by (metis not_None_eq nth_mem)
  then have "hc_hashes c ! j = hc_hashes c ! k" "j < length (hc_hashes c)"
    using iter_position_Some [of "\<lambda>x. x = bh_prev_block h" "hc_hashes c" j] assms(4) by simp_all
  then have "j = k" using assms(2,3) len by (simp add: nth_eq_iff_index_eq)
  have last': "hc_hashes ?d \<noteq> [] \<and> last (hc_hashes ?d) = bh_prev_block h"
    using assms(3,4) len by (auto simp: truncate_chain_def last_take_Suc)
  show ?thesis
    unfolding attach_headers.simps if_not_P [OF last] if_P [OF last'] j \<open>j = k\<close> by (simp only: option.case Let_def)
qed

lemma sync_loop_served:
  assumes "sha_ok sha"
  shows "chain_ok sha c \<Longrightarrow> hc_headers c \<noteq> [] \<Longrightarrow> append_all sha (concat batches) c = Some c' \<Longrightarrow>
    list_all (\<lambda>hs. hs \<noteq> [] \<and> length hs \<le> 2000 \<and> list_all header_ok hs) batches \<Longrightarrow>
    pe_in p = concat (map (\<lambda>hs. map Some (frame sha (pe_magic p) ''headers'' (headers_payload hs))) (batches @ [[]])) @ s \<Longrightarrow>
    length batches < pe_writes p \<Longrightarrow>
    \<exists>p'. sync_loop sha c p n = Some (Inr (n + word_of_nat (length (concat batches))), c', p') \<and> pe_in p' = s"
proof (induction batches arbitrary: c p n)
  case Nil
  then obtain q where "peer_get_headers sha (locator c) (replicate 32 0) p = (Inr [], q)" "pe_in q = s"
    using get_headers_served [OF assms, of "[]" p s "locator c" "replicate 32 0"] by auto
  with Nil.prems(3) show ?case by (auto simp: sync_loop.simps [of sha c' p n])
next
  case (Cons hs batches)
  obtain d where d: "append_all sha hs c = Some d" "append_all sha (concat batches) d = Some c'"
    using Cons.prems(3) by (auto simp: append_all_append)
  let ?rest = "concat (map (\<lambda>hs. map Some (frame sha (pe_magic p) ''headers'' (headers_payload hs))) (batches @ [[]])) @ s"
  obtain q where q: "peer_get_headers sha (locator c) (replicate 32 0) p = (Inr hs, q)" "pe_in q = ?rest"
      "pe_writes q = pe_writes p - 1" "pe_magic q = pe_magic p"
    using get_headers_served [OF assms, of hs p ?rest "locator c" "replicate 32 0"] Cons.prems(4-6) by auto
  have a: "attach_headers sha hs c n = Some (Inr (n + word_of_nat (length hs)), d)" "chain_ok sha d" "hc_headers d \<noteq> []"
    using attach_headers_extends [OF Cons.prems(1,2) d(1)] by auto
  have "pe_in q = concat (map (\<lambda>hs. map Some (frame sha (pe_magic q) ''headers'' (headers_payload hs))) (batches @ [[]])) @ s"
    "length batches < pe_writes q" using q Cons.prems(6) by simp_all
  from Cons.IH [OF a(2,3) d(2) _ this] obtain p'
    where "sync_loop sha d q (n + word_of_nat (length hs)) = Some (Inr (n + word_of_nat (length hs) + word_of_nat (length (concat batches))), c', p') \<and> pe_in p' = s"
    using Cons.prems(4) by auto
  then show ?case using q(1) a(1) Cons.prems(4) by (auto simp: sync_loop.simps [of sha c p n] algebra_simps)
qed


text \<open>
  Claim C25. Synchronisation makes progress and follows reorganisations: when a peer serves, in
  batches and closed by an empty batch, headers that form a valid branch on top of height \<open>k\<close> of our
  chain, be it our tip or a block below it, the synchronisation succeeds, reports how many headers it
  appended, and its chain is our chain up to height \<open>k\<close> followed by that branch.
\<close>

theorem sync_follows_branch:
  assumes "sha_ok sha" "chain_ok sha c" "distinct (hc_hashes c)" "k < length (hc_headers c)"
    and "append_all sha (concat batches) (truncate_chain (k + 1) c) = Some c'" "batches \<noteq> []"
    and "list_all (\<lambda>hs. hs \<noteq> [] \<and> length hs \<le> 2000 \<and> list_all header_ok hs) batches"
    and "pe_in p = concat (map (\<lambda>hs. map Some (frame sha (pe_magic p) ''headers'' (headers_payload hs))) (batches @ [[]])) @ s"
    and "length batches < pe_writes p"
  shows "\<exists>p'. header_chain_sync sha c p = Some (Inr (word_of_nat (length (concat batches))), c', p') \<and> pe_in p' = s \<and>
    hc_headers c' = take (k + 1) (hc_headers c) @ concat batches"
proof -
  let ?d = "truncate_chain (k + 1) c"
  have d: "chain_ok sha ?d" "hc_headers ?d \<noteq> []" using truncate_ok [OF assms(2)] assms(4) by (auto simp: truncate_chain_def)
  obtain h hs bs where b: "batches = (h # hs) # bs" using assms(6,7) by (cases batches; cases "hd batches") auto
  obtain d1 where d1: "append_all sha (h # hs) ?d = Some d1" "append_all sha (concat bs) d1 = Some c'"
    using assms(5) unfolding b concat.simps append_all_append by blast
  then obtain e where "append_validated sha h ?d = Some (Inr e)" unfolding append_all_Cons by blast
  then have "last (hc_hashes ?d) = bh_prev_block h" using append_validated_links [OF d] by blast
  then have "hc_hashes c ! k = bh_prev_block h"
    using assms(2,4) by (simp add: truncate_chain_def chain_ok_def last_take_Suc)
  from attach_headers_fork [OF assms(2-4) this] attach_headers_extends [OF d d1(1)]
  have a: "attach_headers sha (h # hs) c 0 = Some (Inr (0 + word_of_nat (length (h # hs))), d1)" "chain_ok sha d1" "hc_headers d1 \<noteq> []" by metis+
  let ?rest = "concat (map (\<lambda>hs. map Some (frame sha (pe_magic p) ''headers'' (headers_payload hs))) (bs @ [[]])) @ s"
  obtain q where q: "peer_get_headers sha (locator c) (replicate 32 0) p = (Inr (h # hs), q)" "pe_in q = ?rest"
      "pe_writes q = pe_writes p - 1" "pe_magic q = pe_magic p"
    using get_headers_served [OF assms(1), of "h # hs" p ?rest "locator c" "replicate 32 0"] assms(7-9) by (auto simp: b)
  have "pe_in q = concat (map (\<lambda>hs. map Some (frame sha (pe_magic q) ''headers'' (headers_payload hs))) (bs @ [[]])) @ s"
    "length bs < pe_writes q" "list_all (\<lambda>hs. hs \<noteq> [] \<and> length hs \<le> 2000 \<and> list_all header_ok hs) bs"
    using q assms(7,9) by (simp_all add: b)
  with sync_loop_served [OF assms(1) a(2,3) d1(2), of q s "word_of_nat (length (h # hs))"] obtain p'
    where p': "sync_loop sha d1 q (word_of_nat (length (h # hs))) = Some (Inr (word_of_nat (length (h # hs)) + word_of_nat (length (concat bs))), c', p')" "pe_in p' = s"
    by blast
  have "hc_headers c \<noteq> []" using assms(4) by auto
  then have "header_chain_sync sha c p = Some (Inr (word_of_nat (length (concat batches))), c', p')"
    using q(1) a(1) p'(1) by (simp add: header_chain_sync_def sync_loop.simps [of sha c p 0] b)
  moreover have "hc_headers c' = take (k + 1) (hc_headers c) @ concat batches"
    using append_all_headers [OF assms(5)] by (simp add: truncate_chain_def)
  ultimately show ?thesis using p'(2) by blast
qed

text \<open>A chain of one block and its successor under the demonstration hash.\<close>

definition demo_genesis :: block_header where
  "demo_genesis = \<lparr>bh_version = 1, bh_prev_block = replicate 32 0, bh_merkle_root = replicate 32 0, bh_time = 0, bh_bits = 0x207fffff, bh_nonce = 0\<rparr>"

definition demo_next :: block_header where
  "demo_next = \<lparr>bh_version = 2, bh_prev_block = [1, 0, 0, 0] @ replicate 28 0, bh_merkle_root = replicate 32 0, bh_time = 1, bh_bits = 0x207fffff, bh_nonce = 0\<rparr>"

definition demo_chain :: header_chain where
  "demo_chain = \<lparr>hc_params = (network_params Regtest)\<lparr>pa_genesis_hash := header_hash demo_sha demo_genesis\<rparr>,
     hc_headers = [demo_genesis], hc_hashes = [header_hash demo_sha demo_genesis], hc_chainwork = [work_from_target (the (from_compact 0x207fffff))]\<rparr>"

lemma four: "(4 :: nat) = Suc (Suc (Suc (Suc 0)))"
  by simp

lemma le_bytes_4: "le_bytes 4 x = [word_of_nat (x mod 256), word_of_nat (x div 256 mod 256), word_of_nat (x div 256 div 256 mod 256),
     word_of_nat (x div 256 div 256 div 256 mod 256)]"
  by (simp only: four le_bytes.simps)

lemma le_val_zeros: "le_val (replicate n 0) = 0"
  by (induction n) auto

lemma demo_hash:
  "length (bh_prev_block h) = 32 \<Longrightarrow> header_hash demo_sha h = to_le_bytes (bh_version h) @ take 28 (bh_prev_block h)"
  by (simp add: header_hash_def sha256d_def demo_sha_def header_serialize_def)

lemma demo_genesis_hash: "header_hash demo_sha demo_genesis = [1, 0, 0, 0] @ replicate 28 0"
  by (simp add: demo_hash demo_genesis_def to_le_bytes_def le_bytes_4)

lemma demo_next_hash: "header_hash demo_sha demo_next = [2, 0, 0, 0] @ [1, 0, 0, 0] @ replicate 24 0"
  by (simp add: demo_hash demo_next_def to_le_bytes_def le_bytes_4)

lemma demo_target: "from_compact 0x207fffff = Some [0, 0, 0, 0x7fffff0000000000]"
  by (simp add: from_compact_def Let_def place_byte_def)

lemma demo_chain_ok: "chain_ok demo_sha demo_chain"
  by (simp add: chain_ok_def demo_chain_def header_step_def demo_genesis_def demo_target)

lemma demo_append: "\<exists>c'. append_all demo_sha (concat [[demo_next]]) (truncate_chain (0 + 1) demo_chain) = Some c'"
proof -
  have "u256_from_hash ([2, 0, 0, 0] @ [1, 0, 0, 0] @ replicate 24 0) = [0x100000002, 0, 0, 0]"
    by (simp add: u256_from_hash_def slice_def from_le_bytes_def upt_rec le_val_zeros)
  then have "u256_ge [0, 0, 0, 0x7fffff0000000000] (u256_from_hash (header_hash demo_sha demo_next))"
    unfolding demo_next_hash unfolding u256_ge_def four by simp
  moreover have "truncate_chain (0 + 1) demo_chain = demo_chain" by (simp add: truncate_chain_def demo_chain_def)
  moreover have "bh_prev_block demo_next = header_hash demo_sha demo_genesis" unfolding demo_genesis_hash by (simp add: demo_next_def)
  moreover have "bh_bits demo_next = 0x207fffff" "bh_time demo_next = 1" "bh_bits demo_genesis = 0x207fffff" "bh_time demo_genesis = 0"
    by (simp_all add: demo_next_def demo_genesis_def)
  ultimately show ?thesis
    by (simp add: append_all_Cons append_validated_def demo_chain_def validate_header_def required_bits_def network_params_def demo_target
        u256_is_zero_def median_time_past_def slice_def)
qed

theorem sync_follows_branch_witness:
  "\<exists>c' p'. header_chain_sync demo_sha demo_chain (demo_peer 2 [[demo_next], []]) = Some (Inr (word_of_nat (length (concat [[demo_next]]))), c', p') \<and>
     pe_in p' = [] \<and> hc_headers c' = take (0 + 1) (hc_headers demo_chain) @ concat [[demo_next]]"
proof -
  obtain c' where c': "append_all demo_sha (concat [[demo_next]]) (truncate_chain (0 + 1) demo_chain) = Some c'"
    using demo_append by blast
  have "header_ok demo_next" by (simp add: header_ok_def demo_next_def)
  then have "\<exists>p'. header_chain_sync demo_sha demo_chain (demo_peer 2 [[demo_next], []]) = Some (Inr (word_of_nat (length (concat [[demo_next]]))), c', p') \<and>
     pe_in p' = [] \<and> hc_headers c' = take (0 + 1) (hc_headers demo_chain) @ concat [[demo_next]]"
    by (intro sync_follows_branch [OF demo_sha_ok demo_chain_ok _ _ c']) (simp_all add: demo_chain_def demo_peer_def)
  then show ?thesis by blast
qed

section \<open>Filter headers\<close>

lemma advance_append: "advance_filter_header sha z (xs @ ys) = advance_filter_header sha (advance_filter_header sha z xs) ys"
  by (induction xs arbitrary: z) simp_all

lemma filter_header_data: "length fh = 32 \<Longrightarrow> length prev = 32 \<Longrightarrow> filter_header sha fh prev = sha256d sha (fh @ prev)"
  by (simp add: filter_header_def copy_at_def)

lemma length_advance:
  "sha_ok sha \<Longrightarrow> length z = 32 \<Longrightarrow> list_all (\<lambda>h. length h = 32) hs \<Longrightarrow> length (advance_filter_header sha z hs) = 32"
  by (induction hs arbitrary: z) (simp_all add: filter_header_data)

text \<open>The filter header of a height binds every filter hash up to it.\<close>

lemma filter_header_binds:
  assumes "sha_ok sha" "length z = 32"
  shows "length hs = length gs \<Longrightarrow> list_all (\<lambda>h. length h = 32) hs \<Longrightarrow> list_all (\<lambda>h. length h = 32) gs \<Longrightarrow>
    advance_filter_header sha z hs = advance_filter_header sha z gs \<Longrightarrow> hs = gs \<or> sha256d_collision sha"
proof (induction hs arbitrary: gs rule: rev_induct)
  case (snoc h hs)
  obtain g gs' where gs: "gs = gs' @ [g]" using snoc.prems(1) by (cases gs rule: rev_cases) auto
  let ?a = "advance_filter_header sha z hs" and ?b = "advance_filter_header sha z gs'"
  have len: "length ?a = 32" "length ?b = 32" "length h = 32" "length g = 32"
    using snoc.prems(2,3) length_advance [OF assms] by (simp_all add: gs)
  have eq: "sha256d sha (h @ ?a) = sha256d sha (g @ ?b)" using snoc.prems(4) len by (simp add: gs advance_append filter_header_data)
  show ?case
  proof (cases "h @ ?a = g @ ?b")
    case True
    then have "h = g" "?a = ?b" using len by simp_all
    then show ?thesis using snoc.IH [of gs'] snoc.prems(1-3) by (auto simp: gs)
  next
    case False
    then show ?thesis using eq len unfolding sha256d_collision_def by (intro disjI2 exI [of _ "h @ ?a"] exI [of _ "g @ ?b"]) simp
  qed
qed simp

text \<open>What the page loop hands out: as many hashes as it was asked for, after what it had.\<close>

lemma fetch_loop_ok:
  "fetch_loop sha chain stop start prev out p = (Inr res, q) \<Longrightarrow>
     \<exists>new. res = out @ new \<and> length new = Suc stop - start \<and> list_all (\<lambda>h. length h = 32) new"
proof (induction sha chain stop start prev out p rule: fetch_loop.induct)
  case (1 sha chain stop start prev out p)
  show ?case
  proof (cases "start \<le> stop")
    case True
    let ?s = "min (start + 1999) stop"
    obtain sh where sh: "hash_at chain ?s = Some sh" using "1.prems" True
      by (auto simp: fetch_loop.simps [of sha chain stop start] Let_def split: option.splits)
    obtain r p' where r: "get_cfheaders sha (word_of_nat start) sh p = (Inr r, p')" using "1.prems" True sh
      by (auto simp: fetch_loop.simps [of sha chain stop start] Let_def split: prod.splits sum.splits)
    have c: "\<not> cfh_previous_filter_header r \<noteq> prev" "\<not> length (cfh_filter_hashes r) \<noteq> ?s - start + 1"
      and rec: "fetch_loop sha chain stop (?s + 1) (advance_filter_header sha prev (cfh_filter_hashes r)) (out @ cfh_filter_hashes r) p' = (Inr res, q)"
      using "1.prems" True sh r by (auto simp: fetch_loop.simps [of sha chain stop start] Let_def split: if_splits)
    obtain new where new: "res = (out @ cfh_filter_hashes r) @ new" "length new = Suc stop - (?s + 1)" "list_all (\<lambda>h. length h = 32) new"
      using "1.IH" [OF True refl sh r [symmetric] refl c rec] by blast
    then show ?thesis using c(2) True get_cfheaders_ok [OF r] by (intro exI [of _ "cfh_filter_hashes r @ new"]) auto
  qed (use "1.prems" in \<open>simp add: fetch_loop.simps [of sha chain stop start]\<close>)
qed

lemma fetch_range_ok:
  "fetch_range sha f chain stop p = (Inr res, q) \<Longrightarrow>
     length res = Suc stop - filter_chain_len f \<and> list_all (\<lambda>h. length h = 32) res"
  by (auto simp: fetch_range_def Let_def split: sum.splits dest!: fetch_loop_ok)

lemma fetch_range_first_page:
  assumes "fetch_range sha f chain stop p = (Inr res, q)" "filter_chain_len f \<le> stop" "stop < filter_chain_len f + 2000"
  shows "\<exists>sh r p'. hash_at chain stop = Some sh \<and> get_cfheaders sha (word_of_nat (filter_chain_len f)) sh p = (Inr r, p') \<and>
    cfh_previous_filter_header r = advance_filter_header sha (replicate 32 0) (fc_filter_hashes f) \<and> cfh_filter_hashes r = res"
proof -
  let ?n = "filter_chain_len f" and ?prev = "advance_filter_header sha (replicate 32 0) (fc_filter_hashes f)"
  have min: "min (?n + 1999) stop = stop" using assms(3) by simp
  have "(if ?n = 0 then Inr (replicate 32 0) else ok_or Filter (filter_header_at sha f (?n - 1))) = Inr ?prev"
    by (cases "fc_filter_hashes f") (auto simp: filter_header_at_def filter_chain_len_def)
  then have loop: "fetch_loop sha chain stop ?n ?prev [] p = (Inr res, q)" using assms(1) by (simp add: fetch_range_def Let_def)
  then obtain sh r p' where "hash_at chain stop = Some sh" "get_cfheaders sha (word_of_nat ?n) sh p = (Inr r, p')"
    using assms(2) min by (auto simp: fetch_loop.simps [of sha chain stop ?n] Let_def split: option.splits prod.splits sum.splits)
  with loop assms(2) min show ?thesis
    by (auto simp: fetch_loop.simps [of sha chain stop ?n] fetch_loop.simps [of sha chain stop "Suc stop"] Let_def split: if_splits)
qed

text \<open>
  One page of live filter headers re-attests the whole cached filter chain: when
  re-attestation of a non-empty cache with a window of at most one page succeeds, the peer answered one
  request for the window, and if that answer is the one derived from some chain of filter hashes as long
  as the cache, then the cache is that chain in every position, below the window too, or SHA-256d has a
  collision on 64-byte inputs.
\<close>

theorem reattestation_binds_cache:
  assumes "sha_ok sha" "list_all (\<lambda>h. length h = 32) (fc_filter_hashes f)" "fc_filter_hashes f \<noteq> []"
    and "0 < max_blocks" "max_blocks \<le> 2000" and "reattest_tail sha f chain max_blocks p = (Inr (), q)"
  defines "start \<equiv> filter_chain_len f - max_blocks"
  shows "\<exists>stop_hash r p'. hash_at chain (filter_chain_len f - 1) = Some stop_hash \<and>
    get_cfheaders sha (word_of_nat start) stop_hash p = (Inr r, p') \<and>
    (\<forall>truth. length truth = filter_chain_len f \<and> list_all (\<lambda>h. length h = 32) truth \<and>
       cfh_previous_filter_header r = advance_filter_header sha (replicate 32 0) (take start truth) \<and> cfh_filter_hashes r = drop start truth
       \<longrightarrow> fc_filter_hashes f = truth \<or> sha256d_collision sha)"
proof -
  let ?hs = "fc_filter_hashes f"
  let ?pre = "from_verified (take start ?hs)" and ?stop = "filter_chain_len f - 1"
  have n: "0 < length ?hs" using assms(3) by simp
  have start: "?stop + 1 - max_blocks = start" "filter_chain_len ?pre = start" "slice start (?stop + 1) ?hs = drop start ?hs"
    using n assms(4) by (auto simp: start_def filter_chain_len_def from_verified_def slice_def)
  have win: "filter_chain_len ?pre \<le> ?stop" "?stop < filter_chain_len ?pre + 2000"
    using n assms(4,5) unfolding start(2) by (simp_all add: start_def filter_chain_len_def)
  have pre: "fc_filter_hashes ?pre = take start ?hs" by (simp add: from_verified_def)
  obtain p1 where "fetch_range sha ?pre chain ?stop p = (Inr (drop start ?hs), p1)"
    using assms(3,4,6) start by (auto simp: reattest_tail_def Let_def split: prod.splits sum.splits if_splits)
  from fetch_range_first_page [OF this win, unfolded start(2) pre] obtain sh r p' where r: "hash_at chain ?stop = Some sh"
      "get_cfheaders sha (word_of_nat start) sh p = (Inr r, p')"
      "cfh_previous_filter_header r = advance_filter_header sha (replicate 32 0) (take start ?hs)" "cfh_filter_hashes r = drop start ?hs" by blast
  have "?hs = truth \<or> sha256d_collision sha" if t: "length truth = filter_chain_len f" "list_all (\<lambda>h. length h = 32) truth"
      "cfh_previous_filter_header r = advance_filter_header sha (replicate 32 0) (take start truth)" "cfh_filter_hashes r = drop start truth" for truth
  proof -
    have "take start ?hs = take start truth \<or> sha256d_collision sha"
      using assms(2) t r by (intro filter_header_binds [OF assms(1), of "replicate 32 0"]) (auto simp: list_all_iff filter_chain_len_def dest: in_set_takeD)
    moreover have "drop start ?hs = drop start truth" using r t by simp
    ultimately show ?thesis by (metis append_take_drop_id)
  qed
  with r(1,2) show ?thesis by blast
qed

definition demo_filter_response :: cf_headers where
  "demo_filter_response = \<lparr>cfh_stop_hash = header_hash demo_sha demo_genesis, cfh_previous_filter_header = replicate 32 0, cfh_filter_hashes = [replicate 32 7]\<rparr>"

definition demo_filter_peer :: peer where
  "demo_filter_peer = (demo_peer 2 [])\<lparr>pe_in := map Some (frame demo_sha 0xdab5bffa ''cfheaders'' (cfheaders_payload demo_filter_response))\<rparr>"

lemma demo_fetch: "\<exists>q. fetch_range demo_sha filter_chain_empty demo_chain 0 demo_filter_peer = (Inr [replicate 32 7], q)"
proof -
  have "cfheaders_ok demo_filter_response" by (simp add: cfheaders_ok_def demo_filter_response_def demo_genesis_hash)
  from get_cfheaders_served [OF demo_sha_ok this, of demo_filter_peer "[]" 0]
  obtain q where "get_cfheaders demo_sha 0 (header_hash demo_sha demo_genesis) demo_filter_peer = (Inr demo_filter_response, q)"
    by (auto simp: demo_filter_peer_def demo_peer_def demo_filter_response_def)
  moreover have "hash_at demo_chain 0 = Some (header_hash demo_sha demo_genesis)" by (simp add: hash_at_def demo_chain_def)
  ultimately show ?thesis
    by (simp add: fetch_range_def filter_chain_empty_def filter_chain_len_def Let_def fetch_loop.simps demo_filter_response_def)
qed

theorem reattestation_binds_cache_witness:
  "\<exists>q. reattest_tail demo_sha (from_verified [replicate 32 7]) demo_chain 144 demo_filter_peer = (Inr (), q) \<and>
   (\<exists>stop_hash r p'. hash_at demo_chain (filter_chain_len (from_verified [replicate 32 7]) - 1) = Some stop_hash \<and>
    get_cfheaders demo_sha (word_of_nat (filter_chain_len (from_verified [replicate 32 7]) - 144)) stop_hash demo_filter_peer = (Inr r, p') \<and>
    (\<forall>truth. length truth = filter_chain_len (from_verified [replicate 32 7]) \<and> list_all (\<lambda>h. length h = 32) truth \<and>
       cfh_previous_filter_header r = advance_filter_header demo_sha (replicate 32 0) (take (filter_chain_len (from_verified [replicate 32 7]) - 144) truth) \<and>
       cfh_filter_hashes r = drop (filter_chain_len (from_verified [replicate 32 7]) - 144) truth
       \<longrightarrow> fc_filter_hashes (from_verified [replicate 32 7]) = truth \<or> sha256d_collision demo_sha))"
proof -
  obtain q where "fetch_range demo_sha filter_chain_empty demo_chain 0 demo_filter_peer = (Inr [replicate 32 7], q)" using demo_fetch by blast
  then have ok: "reattest_tail demo_sha (from_verified [replicate 32 7]) demo_chain 144 demo_filter_peer = (Inr (), q)"
    by (simp add: reattest_tail_def from_verified_def filter_chain_len_def filter_chain_empty_def slice_def)
  then show ?thesis
    using reattestation_binds_cache [OF demo_sha_ok, of "from_verified [replicate 32 7]" 144 demo_chain demo_filter_peer q]
    by (intro exI [of _ q] conjI) (assumption, rule reattestation_binds_cache [OF demo_sha_ok _ _ _ _ ok], simp_all add: from_verified_def)
qed

section \<open>The header cache\<close>

lemma append_validated_next:
  assumes "chain_ok sha c" "i < length (hc_headers c)"
  shows "append_validated sha (hc_headers c ! i) (truncate_chain i c) = Some (Inr (truncate_chain (Suc i) c))"
proof -
  let ?hs = "hc_headers c"
  obtain w where w: "header_step sha (hc_params c) ?hs i w" "hc_chainwork c ! i = (if i = 0 then 0 else hc_chainwork c ! (i - 1)) + w"
    using assms unfolding chain_ok_def by blast
  have len: "length (hc_hashes c) = length ?hs" "length (hc_chainwork c) = length ?hs" "hc_hashes c ! i = header_hash sha (?hs ! i)"
    using assms by (auto simp: chain_ok_def)
  have work: "tip_work (truncate_chain i c) + w = hc_chainwork c ! i"
    using w(2) len assms(2) by (cases i) (auto simp: tip_work_def truncate_chain_def last_take_Suc)
  have next_eq: "truncate_chain (Suc i) c = (truncate_chain i c)\<lparr>hc_headers := take i ?hs @ [?hs ! i],
      hc_hashes := take i (hc_hashes c) @ [header_hash sha (?hs ! i)], hc_chainwork := take i (hc_chainwork c) @ [hc_chainwork c ! i]\<rparr>"
    using len assms(2) by (simp add: truncate_chain_def take_Suc_conv_app_nth)
  have lt: "length (hc_headers (truncate_chain i c)) = i" using assms(2) by (simp add: truncate_chain_def)
  show ?thesis
  proof (cases "i = 0")
    case True
    then show ?thesis using w(1) lt work unfolding next_eq append_validated_def
      by (auto simp: header_step_def truncate_chain_def)
  next
    case False
    then show ?thesis using w(1) lt work unfolding next_eq append_validated_def
      by (simp add: header_step_def truncate_chain_def)
  qed
qed

lemma load_loop_rest:
  assumes "chain_ok sha c" "list_all header_ok (hc_headers c)"
  shows "i + n = length (hc_headers c) \<Longrightarrow> load_loop sha (map header_serialize (drop i (hc_headers c))) (truncate_chain i c) = Some (Inr c)"
proof (induction n arbitrary: i)
  case 0
  then show ?case using assms(1) by (simp add: truncate_chain_def chain_ok_def)
next
  case (Suc n)
  then have i: "i < length (hc_headers c)" by simp
  then have "header_parse (header_serialize (hc_headers c ! i)) = Inr (hc_headers c ! i)"
    using assms(2) by (simp add: header_parse_iff list_all_length)
  then show ?case using Suc append_validated_next [OF assms(1) i] by (simp add: Cons_nth_drop_Suc [OF i, symmetric])
qed

lemma chunks_serialized: "list_all header_ok hs \<Longrightarrow> chunks 80 (concat (map header_serialize hs)) = map header_serialize hs"
proof (induction hs)
  case (Cons h hs)
  then have "length (header_serialize h) = 80" by (simp add: length_header_serialize)
  then show ?case using Cons by (subst chunks.simps) auto
qed simp

text \<open>
  The header cache round trips: a validated chain of well-formed headers that was
  persisted is loaded back, after full revalidation, as exactly the same chain with the same hashes and
  chainwork.
\<close>

theorem header_cache_roundtrip:
  assumes "chain_ok sha c" and "list_all header_ok (hc_headers c)"
  shows "header_chain_load sha (hc_params c) (Contents (header_chain_persist c)) = Some (Inr c)"
proof -
  have "length (concat (map header_serialize hs)) = 80 * length hs" if "list_all header_ok hs" for hs
    using that by (induction hs) (simp_all add: length_header_serialize)
  then have "length (header_chain_persist c) mod 80 = 0" using assms(2) by (simp add: header_chain_persist_def)
  moreover have "truncate_chain 0 c = header_chain_new (hc_params c)" by (simp add: truncate_chain_def header_chain_new_def)
  ultimately show ?thesis using load_loop_rest [OF assms, of 0 "length (hc_headers c)"]
    by (simp add: header_chain_load_def header_chain_persist_def chunks_serialized [OF assms(2)])
qed

theorem header_cache_roundtrip_witness:
  "header_chain_load demo_sha (hc_params demo_chain) (Contents (header_chain_persist demo_chain)) = Some (Inr demo_chain)"
  by (rule header_cache_roundtrip) (simp_all add: demo_chain_ok, simp add: demo_chain_def demo_genesis_def header_ok_def)
end
