(* ===== verification/Cbf_Gcs_Proofs.thy ===== *)
theory Cbf_Gcs_Proofs
  imports Cbf_Gcs
begin

text \<open>
  A Golomb-coded set answers membership exactly on the hashed values it was built from: no
  element of the set is ever missed.
\<close>

unbundle bit_operations_syntax

section \<open>Bit strings\<close>

text \<open>The bits of a byte string, most significant bit of each byte first.\<close>

definition byte_bits :: "byte \<Rightarrow> bool list" where
  "byte_bits b = map (\<lambda>i. bit b (7 - i)) [0..<8]"

definition bytes_bits :: "bytes \<Rightarrow> bool list" where
  "bytes_bits bs = concat (map byte_bits bs)"

fun low_bits :: "nat \<Rightarrow> u64 \<Rightarrow> bool list" where
  "low_bits 0 x = []"
| "low_bits (Suc i) x = bit x i # low_bits i x"

lemma length_byte_bits [simp]: "length (byte_bits b) = 8"
  by (simp add: byte_bits_def)

lemma bytes_bits_simps [simp]: "bytes_bits [] = []" "bytes_bits (b # bs) = byte_bits b @ bytes_bits bs"
  "bytes_bits (xs @ ys) = bytes_bits xs @ bytes_bits ys"
  by (simp_all add: bytes_bits_def)

lemma length_bytes_bits [simp]: "length (bytes_bits bs) = 8 * length bs"
  by (induction bs) auto

lemma length_low_bits [simp]: "length (low_bits n x) = n"
  by (induction n) auto

lemma nth_bytes_bits: "k < 8 * length bs \<Longrightarrow> bytes_bits bs ! k = bit (bs ! (k div 8)) (7 - k mod 8)"
proof (induction bs arbitrary: k)
  case (Cons b bs)
  show ?case
  proof (cases "k < 8")
    case True
    then show ?thesis by (simp add: nth_append byte_bits_def)
  next
    case False
    then obtain j where k: "k = j + 8" by (metis add.commute le_Suc_ex not_less)
    have "(j + 8) div 8 = Suc (j div 8)" by simp
    with k Cons show ?thesis by (simp only: k) (simp add: nth_append)
  qed
qed simp

lemma bit_test: "drop_bit n a AND 1 = 1 \<longleftrightarrow> bit a n" for a :: "'a::len word"
  by (simp add: bit_iff_and_drop_bit_eq_1)

lemma byte_bits_zero: "byte_bits 0 = replicate 8 False"
  by (intro nth_equalityI) (simp_all add: byte_bits_def)

lemma byte_bits_set:
  assumes "u < 8"
  shows "byte_bits (l OR push_bit (7 - u) 1) = (byte_bits l)[u := True]"
proof (rule nth_equalityI)
  fix i assume "i < length (byte_bits (l OR push_bit (7 - u) 1))"
  then have "i < 8" by simp
  then show "byte_bits (l OR push_bit (7 - u) 1) ! i = (byte_bits l)[u := True] ! i"
    using assms by (auto simp: byte_bits_def nth_list_update bit_simps)
qed simp

section \<open>Writing\<close>

lemma padding:
  fixes L B pad U :: nat
  assumes "8 * L = B + pad" "pad < 8" "U = B mod 8"
  shows "U = 0 \<Longrightarrow> pad = 0" "U \<noteq> 0 \<Longrightarrow> 0 < pad \<and> 0 < L \<and> B = 8 * (L - 1) + U"
proof -
  define q where "q = B div 8"
  have B: "B = 8 * q + U" "U < 8" using assms(3) by (simp_all add: q_def)
  then have "L = q \<or> L = Suc q" using assms(1,2) by linarith
  then show "U = 0 \<Longrightarrow> pad = 0" "U \<noteq> 0 \<Longrightarrow> 0 < pad \<and> 0 < L \<and> B = 8 * (L - 1) + U"
    using B assms(1,2) by (elim disjE; simp)+
qed

definition writer_holds :: "bit_writer \<Rightarrow> bool list \<Rightarrow> bool" where
  "writer_holds w bits \<longleftrightarrow> bw_used w = length bits mod 8 \<and>
     (\<exists>pad. pad < 8 \<and> bytes_bits (bw_bytes w) = bits @ replicate pad False)"

lemma writer_new: "writer_holds bit_writer_new []"
  by (simp add: writer_holds_def bit_writer_new_def)

lemma write_bit_holds:
  assumes "writer_holds w bits"
  shows "writer_holds (write_bit b w) (bits @ [b])"
proof -
  from assms obtain pad where used: "bw_used w = length bits mod 8" and pad: "pad < 8"
    and bits: "bytes_bits (bw_bytes w) = bits @ replicate pad False"
    by (auto simp: writer_holds_def)
  have len: "8 * length (bw_bytes w) = length bits + pad" using arg_cong [OF bits, of length] by simp
  define bs where "bs = (if bw_used w = 0 then bw_bytes w @ [0] else bw_bytes w)"
  obtain pad' where pad': "pad' < 8" and bs: "bytes_bits bs = bits @ replicate (Suc pad') False" and ne: "bs \<noteq> []"
    and pos: "length bits = 8 * (length bs - 1) + bw_used w"
  proof (cases "bw_used w = 0")
    case True
    then have "pad = 0" using padding(1) [OF len pad used] by simp
    then show thesis using that [of 7] True len bits used
      by (simp add: bs_def byte_bits_zero)
  next
    case False
    with padding(2) [OF len pad used] show thesis
      using that [of "pad - 1"] bits pad by (auto simp: bs_def)
  qed
  have u: "bw_used w < 8" using used by simp
  have split: "bytes_bits bs = bytes_bits (butlast bs) @ byte_bits (last bs)"
    using ne by (metis append_butlast_last_id bytes_bits_simps append_Nil2)
  have set: "bytes_bits (butlast bs @ [last bs OR push_bit (7 - bw_used w) 1]) = (bytes_bits bs)[length bits := True]"
    using pos u ne by (simp add: split byte_bits_set [simplified] list_update_append)
  have "bytes_bits (bw_bytes (write_bit b w)) = (bits @ [b]) @ replicate pad' False"
    using set bs by (simp add: write_bit_def Let_def list_update_append flip: bs_def)
  moreover have "bw_used (write_bit b w) = length (bits @ [b]) mod 8"
    using used by (simp add: write_bit_def Let_def mod_Suc_eq)
  ultimately show ?thesis using pad' by (auto simp: writer_holds_def)
qed

lemma write_bits_holds: "writer_holds w bits \<Longrightarrow> writer_holds (write_bits x n w) (bits @ low_bits n x)"
proof (induction n arbitrary: w bits)
  case (Suc n)
  have "writer_holds (write_bit (bit x n) w) (bits @ [bit x n])" using Suc.prems by (rule write_bit_holds)
  from Suc.IH [OF this] show ?case by (simp add: bit_test)
qed simp

definition golomb_bits :: "nat \<Rightarrow> u64 \<Rightarrow> bool list" where
  "golomb_bits p x = replicate (unat (drop_bit p x)) True @ False # low_bits p x"

lemma unary_holds: "writer_holds w bits \<Longrightarrow> writer_holds ((write_bits 1 1 ^^ k) w) (bits @ replicate k True)"
proof (induction k)
  case (Suc k)
  then have "writer_holds ((write_bits 1 1 ^^ k) w) (bits @ replicate k True)" by blast
  then have "writer_holds (write_bits 1 1 ((write_bits 1 1 ^^ k) w)) ((bits @ replicate k True) @ low_bits 1 1)"
    by (rule write_bits_holds)
  moreover have "low_bits 1 1 = [True]" by simp
  ultimately show ?case by (simp add: replicate_append_same del: One_nat_def)
qed simp

lemma golomb_rice_encode_holds:
  "writer_holds w bits \<Longrightarrow> writer_holds (golomb_rice_encode p x w) (bits @ golomb_bits p x)"
proof -
  assume "writer_holds w bits"
  then have "writer_holds (write_bits 0 1 ((write_bits 1 1 ^^ unat (drop_bit p x)) w)) ((bits @ replicate (unat (drop_bit p x)) True) @ low_bits 1 0)"
    by (intro write_bits_holds unary_holds)
  then have "writer_holds (golomb_rice_encode p x w) (((bits @ replicate (unat (drop_bit p x)) True) @ low_bits 1 0) @ low_bits p x)"
    unfolding golomb_rice_encode_def Let_def by (rule write_bits_holds)
  then show ?thesis by (simp add: golomb_bits_def)
qed

fun delta_bits :: "nat \<Rightarrow> u64 \<Rightarrow> u64 list \<Rightarrow> bool list" where
  "delta_bits p prev [] = []"
| "delta_bits p prev (x # xs) = golomb_bits p (x - prev) @ delta_bits p x xs"

lemma encode_deltas_holds:
  "writer_holds w bits \<Longrightarrow> writer_holds (encode_deltas p prev xs w) (bits @ delta_bits p prev xs)"
proof (induction xs arbitrary: prev w bits)
  case (Cons x xs)
  from Cons.IH [OF golomb_rice_encode_holds [OF Cons.prems]] show ?case by simp
qed simp


section \<open>Reading\<close>

definition reader_at :: "bit_reader \<Rightarrow> bool list \<Rightarrow> bool list \<Rightarrow> bool" where
  "reader_at r pre suf \<longleftrightarrow> bytes_bits (br_data r) = pre @ suf \<and> br_pos r = length pre"

lemma reader_new: "reader_at (bit_reader_new bs) [] (bytes_bits bs)"
  by (simp add: reader_at_def bit_reader_new_def)

lemma reader_pos: "reader_at r pre (b # suf) \<Longrightarrow> br_pos r < length (br_data r) * 8"
  using length_bytes_bits [of "br_data r"] by (simp add: reader_at_def del: length_bytes_bits)

lemma read_bit_at:
  assumes "reader_at r pre (b # suf)"
  shows "read_bit r = Inr (b, r\<lparr>br_pos := br_pos r + 1\<rparr>)" and "reader_at (r\<lparr>br_pos := br_pos r + 1\<rparr>) (pre @ [b]) suf"
proof -
  have pos: "br_pos r < length (br_data r) * 8" using assms by (rule reader_pos)
  then have "bytes_bits (br_data r) ! br_pos r = bit (br_data r ! (br_pos r div 8)) (7 - br_pos r mod 8)"
    by (intro nth_bytes_bits) simp
  moreover have "bytes_bits (br_data r) ! br_pos r = b" using assms by (simp add: reader_at_def)
  ultimately show "read_bit r = Inr (b, r\<lparr>br_pos := br_pos r + 1\<rparr>)" using pos by (simp add: read_bit_def bit_test)
  show "reader_at (r\<lparr>br_pos := br_pos r + 1\<rparr>) (pre @ [b]) suf" using assms by (simp add: reader_at_def)
qed

lemma push_low_bit: "push_bit n (push_bit 1 v OR (if bit x n then 1 else 0)) OR take_bit n x = push_bit (Suc n) v OR take_bit (Suc n) (x :: u64)"
  by (rule bit_eqI) (auto simp: bit_simps less_Suc_eq)

lemma read_bits_at:
  "reader_at r pre (low_bits n x @ suf) \<Longrightarrow>
     \<exists>r'. read_bits_loop n v r = Inr (push_bit n v OR take_bit n x, r') \<and> reader_at r' (pre @ low_bits n x) suf"
proof (induction n arbitrary: v r pre)
  case (Suc n)
  then have at: "reader_at r pre (bit x n # low_bits n x @ suf)" by simp
  note step = read_bit_at [OF at]
  from Suc.IH [OF step(2), of "push_bit 1 v OR (if bit x n then 1 else 0)"] obtain r' where
    "read_bits_loop n (push_bit 1 v OR (if bit x n then 1 else 0)) (r\<lparr>br_pos := br_pos r + 1\<rparr>) = Inr (push_bit (Suc n) v OR take_bit (Suc n) x, r')"
    "reader_at r' ((pre @ [bit x n]) @ low_bits n x) suf"
    unfolding push_low_bit by blast
  then show ?case using step(1) by auto
qed simp

lemma read_quotient_at:
  "reader_at r pre (replicate k True @ False # suf) \<Longrightarrow> unat q + k \<le> 2 ^ 32 \<Longrightarrow>
     \<exists>r'. read_quotient q r = Inr (q + word_of_nat k, r') \<and> reader_at r' (pre @ replicate k True @ [False]) suf"
proof (induction k arbitrary: q r pre)
  case 0
  then have at: "reader_at r pre (False # suf)" by simp
  from read_bit_at [OF at] reader_pos [OF at] show ?case
    by (subst read_quotient.simps) simp
next
  case (Suc k)
  then have at: "reader_at r pre (True # replicate k True @ False # suf)" by simp
  note step = read_bit_at [OF at]
  have uq: "unat (q + 1) = unat q + 1" using Suc.prems(2) by (simp add: unat_word_ariths)
  then have "unat (q + 1) + k \<le> 2 ^ 32" "\<not> q + 1 > 0x100000000" using Suc.prems(2) by (simp_all add: word_less_nat_alt)
  with Suc.IH [OF step(2) this(1)] step(1) reader_pos [OF at] show ?case
    by (subst read_quotient.simps) (auto simp: add.assoc)
qed

lemma golomb_rice_decode_at:
  assumes "reader_at r pre (golomb_bits p x @ suf)" and "unat (drop_bit p x) \<le> 2 ^ 32"
  shows "\<exists>r'. golomb_rice_decode p r = Inr (x, r') \<and> reader_at r' (pre @ golomb_bits p x) suf"
proof -
  let ?k = "unat (drop_bit p x)"
  have "reader_at r pre (replicate ?k True @ False # (low_bits p x @ suf))" using assms(1) by (simp add: golomb_bits_def)
  from read_quotient_at [OF this, of 0] assms(2) obtain r1 where
    r1: "read_quotient 0 r = Inr (drop_bit p x, r1)" "reader_at r1 (pre @ replicate ?k True @ [False]) (low_bits p x @ suf)"
    by auto
  from read_bits_at [OF r1(2), of 0] obtain r2 where
    "read_bits_loop p 0 r1 = Inr (take_bit p x, r2)" "reader_at r2 ((pre @ replicate ?k True @ [False]) @ low_bits p x) suf"
    by auto
  with r1(1) show ?thesis by (simp add: golomb_rice_decode_def read_bits_def golomb_bits_def bits_ident)
qed


section \<open>Membership\<close>

lemma checked_add_diff: "prev \<le> x \<Longrightarrow> checked_add prev (x - prev) = Some (x :: u64)"
  by (simp add: checked_add_Some unat_sub word_le_nat_alt)

lemma drop_bit_le: "y \<le> x \<Longrightarrow> unat (drop_bit p y) \<le> unat (drop_bit p (x :: u64))"
  unfolding unat_drop_bit word_le_nat_alt by (rule div_le_mono)

lemma matches_loop_at:
  "reader_at r pre (delta_bits p prev xs @ suf) \<Longrightarrow> sorted (prev # xs) \<Longrightarrow>
     \<forall>x\<in>set xs. unat (drop_bit p x) \<le> 2 ^ 32 \<Longrightarrow> matches_loop p (length xs) target prev r = Inr (target \<in> set xs)"
proof (induction xs arbitrary: prev r pre)
  case (Cons x xs)
  have le: "prev \<le> x" using Cons.prems(2) by simp
  have "x - prev \<le> x" using le by (simp add: word_le_nat_alt unat_sub)
  then have q: "unat (drop_bit p (x - prev)) \<le> 2 ^ 32"
    using drop_bit_le [of "x - prev" x p] Cons.prems(3) by (meson list.set_intros(1) order_trans)
  have at: "reader_at r pre (golomb_bits p (x - prev) @ (delta_bits p x xs @ suf))" using Cons.prems(1) by simp
  from golomb_rice_decode_at [OF at q] obtain r' where r': "golomb_rice_decode p r = Inr (x - prev, r')"
    and at': "reader_at r' (pre @ golomb_bits p (x - prev)) (delta_bits p x xs @ suf)" by blast
  have IH: "matches_loop p (length xs) target x r' = Inr (target \<in> set xs)"
    using Cons.IH [OF at'] Cons.prems(2,3) by simp
  have "target \<notin> set xs" if "x > target" using that Cons.prems(2) by (auto simp: not_le [symmetric])
  then show ?case using r' IH by (auto simp: checked_add_diff [OF le])
qed simp

lemma map_into_range_less: "0 < f \<Longrightarrow> map_into_range h f < f"
proof -
  assume f: "0 < f"
  have h: "unat h < 2 ^ 64" and fb: "unat f < 2 ^ 64" by (rule unat_bounds)+
  have "unat h * unat f < 2 ^ 64 * 2 ^ 64" using h fb by (intro mult_strict_mono) simp_all
  then have prod: "unat ((ucast h :: 128 word) * ucast f) = unat h * unat f"
    by (simp add: unat_word_ariths unat_ucast_up)
  have "unat h * unat f < 2 ^ 64 * unat f" using h f by (simp add: word_less_nat_alt)
  then have lt: "unat h * unat f div 2 ^ 64 < unat f" by (simp add: div_less_iff_less_mult mult.commute)
  then have "unat (map_into_range h f) = unat h * unat f div 2 ^ 64"
    using fb prod by (simp only: map_into_range_def unat_ucast unat_drop_bit) simp
  with lt show ?thesis by (simp add: word_less_nat_alt)
qed


lemma hash_to_range_bound:
  assumes "n \<noteq> 0" "unat n \<le> 2 ^ 31"
  shows "unat (drop_bit BASIC_FILTER_P (hash_to_range key item n BASIC_FILTER_M)) \<le> 2 ^ 32"
proof -
  have nm: "unat (n * BASIC_FILTER_M) = unat n * 784931"
    using assms(2) by (simp add: BASIC_FILTER_M_def unat_word_ariths)
  then have "0 < n * BASIC_FILTER_M" using assms(1) by (simp add: word_less_nat_alt word_unat_eq_iff)
  then have "hash_to_range key item n BASIC_FILTER_M < n * BASIC_FILTER_M"
    unfolding hash_to_range_def by (rule map_into_range_less)
  then have "unat (hash_to_range key item n BASIC_FILTER_M) < 2 ^ 31 * 784931"
    using nm assms(2) by (simp add: word_less_nat_alt)
  then have "unat (hash_to_range key item n BASIC_FILTER_M) div 2 ^ 19 \<le> 2 ^ 31 * 784931 div 2 ^ 19"
    by (intro div_le_mono) simp
  then show ?thesis by (simp only: unat_drop_bit BASIC_FILTER_P_def) simp
qed

text \<open>The number of distinct elements, and the sorted hashes of a filter.\<close>

definition gcs_count :: "bytes list \<Rightarrow> u64" where
  "gcs_count es = word_of_nat (length (remdups es))"

definition gcs_values :: "bytes list \<Rightarrow> bytes \<Rightarrow> u64 list" where
  "gcs_values es key = sort (map (\<lambda>e. hash_to_range key e (gcs_count es) BASIC_FILTER_M) (sort (remdups es)))"

lemma set_gcs_values: "set (gcs_values es key) = (\<lambda>e. hash_to_range key e (gcs_count es) BASIC_FILTER_M) ` set es"
  by (simp add: gcs_values_def)

lemma gcs_encode_parse:
  assumes "length (remdups es) \<le> 2 ^ 31"
  shows "\<exists>f. gcs_parse (gcs_encode es key BASIC_FILTER_P BASIC_FILTER_M) = Inr f \<and> gf_n f = gcs_count es \<and>
    (\<exists>pad. bytes_bits (gf_compressed f) = delta_bits BASIC_FILTER_P 0 (gcs_values es key) @ pad)"
proof -
  let ?n = "gcs_count es" and ?w = "encode_deltas BASIC_FILTER_P 0 (gcs_values es key) bit_writer_new"
  have un: "unat ?n = length (remdups es)" using assms by (simp add: gcs_count_def unat_of_nat)
  have small: "\<not> ?n \<ge> 0x100000000" using un assms by (simp add: word_le_nat_alt)
  have enc: "gcs_encode es key BASIC_FILTER_P BASIC_FILTER_M = write_varint ?n @ (if ?n = 0 then [] else bw_bytes ?w)"
    by (simp add: gcs_encode_def Let_def gcs_values_def gcs_count_def)
  have zero: "gcs_values es key = []" if "?n = 0"
    using that un by (simp add: gcs_values_def word_unat_eq_iff)
  have "writer_holds ?w ([] @ delta_bits BASIC_FILTER_P 0 (gcs_values es key))"
    by (rule encode_deltas_holds [OF writer_new])
  then obtain pad where "bytes_bits (bw_bytes ?w) = delta_bits BASIC_FILTER_P 0 (gcs_values es key) @ pad"
    by (auto simp: writer_holds_def)
  with zero show ?thesis
    using small by (cases "?n = 0") (auto simp: enc gcs_parse_def cursor_new_at w_varint.read_back w_varint.read_end)
qed

lemma gcs_answers:
  assumes "length (remdups es) \<le> 2 ^ 31"
  shows "\<exists>f. gcs_parse (gcs_encode es key BASIC_FILTER_P BASIC_FILTER_M) = Inr f \<and> gf_n f = gcs_count es \<and>
    (\<forall>item. gcs_matches f key item BASIC_FILTER_P BASIC_FILTER_M =
       Inr (\<exists>e\<in>set es. hash_to_range key item (gcs_count es) BASIC_FILTER_M = hash_to_range key e (gcs_count es) BASIC_FILTER_M))"
proof -
  obtain f pad where f: "gcs_parse (gcs_encode es key BASIC_FILTER_P BASIC_FILTER_M) = Inr f" "gf_n f = gcs_count es"
    and bits: "bytes_bits (gf_compressed f) = delta_bits BASIC_FILTER_P 0 (gcs_values es key) @ pad"
    using gcs_encode_parse [OF assms] by blast
  have un: "unat (gcs_count es) = length (remdups es)" using assms by (simp add: gcs_count_def unat_of_nat)
  have "gcs_matches f key item BASIC_FILTER_P BASIC_FILTER_M =
      Inr (\<exists>e\<in>set es. hash_to_range key item (gcs_count es) BASIC_FILTER_M = hash_to_range key e (gcs_count es) BASIC_FILTER_M)" for item
  proof (cases "gcs_count es = 0")
    case True
    then have "es = []" using un by (simp add: word_unat_eq_iff)
    with True f(2) show ?thesis by (simp add: gcs_matches_def)
  next
    case False
    let ?t = "hash_to_range key item (gcs_count es) BASIC_FILTER_M"
    have "reader_at (bit_reader_new (gf_compressed f)) [] (delta_bits BASIC_FILTER_P 0 (gcs_values es key) @ pad)"
      using reader_new [of "gf_compressed f"] bits by simp
    moreover have "sorted (0 # gcs_values es key)" by (simp add: gcs_values_def)
    moreover have "\<forall>x\<in>set (gcs_values es key). unat (drop_bit BASIC_FILTER_P x) \<le> 2 ^ 32"
      unfolding set_gcs_values using hash_to_range_bound [OF False, of key] un assms by simp
    ultimately have "matches_loop BASIC_FILTER_P (length (gcs_values es key)) ?t 0 (bit_reader_new (gf_compressed f)) = Inr (?t \<in> set (gcs_values es key))"
      by (rule matches_loop_at)
    moreover have "length (gcs_values es key) = unat (gcs_count es)" by (simp add: gcs_values_def un)
    ultimately show ?thesis using False f(2) by (auto simp: gcs_matches_def set_gcs_values)
  qed
  with f show ?thesis by blast
qed

section \<open>Properties\<close>

text \<open>
  Compact filters have no false negatives. A filter built from at most two to the
  31 distinct elements parses, records their number, and a membership query never fails: it answers
  yes exactly when the queried item hashes into the range as one of the elements does, so yes for
  every element the filter was built from.
\<close>
theorem gcs_matches_exact:
  assumes "length (remdups es) \<le> 2 ^ 31"
  shows "\<exists>f. gcs_parse (gcs_encode es key BASIC_FILTER_P BASIC_FILTER_M) = Inr f \<and> gf_n f = gcs_count es \<and>
    (\<forall>item. gcs_matches f key item BASIC_FILTER_P BASIC_FILTER_M =
       Inr (\<exists>e\<in>set es. hash_to_range key item (gcs_count es) BASIC_FILTER_M = hash_to_range key e (gcs_count es) BASIC_FILTER_M))"
  using assms by (rule gcs_answers)

theorem gcs_matches_exact_witness:
  "\<exists>f. gcs_parse (gcs_encode [[1, 2], [3]] (replicate 16 42) BASIC_FILTER_P BASIC_FILTER_M) = Inr f \<and>
    gcs_matches f (replicate 16 42) [3] BASIC_FILTER_P BASIC_FILTER_M = Inr True"
  using gcs_matches_exact [of "[[1, 2], [3]]" "replicate 16 42"] by auto

end
