(* ===== verification/Cbf_Client_Proofs.thy ===== *)
theory Cbf_Client_Proofs
  imports Cbf_Client Cbf_Chain_Proofs Cbf_Gcs_Proofs
begin

text \<open>
  What the client's answers mean: synchronisation means agreement of all participating peers, a
  negative filter answer excludes the script, a confirmed anchor sits in a committed block on the
  verified chain, and an unspent verdict accounts for every height of its window.
\<close>

section \<open>What operations keep\<close>

definition same_chains :: "cbf_client \<Rightarrow> cbf_client \<Rightarrow> bool" where
  "same_chains cl cl' \<longleftrightarrow> cc_chain cl' = cc_chain cl \<and> cc_filter_chain cl' = cc_filter_chain cl"

lemma same_chains_trans: "same_chains a b \<Longrightarrow> same_chains b c \<Longrightarrow> same_chains a c"
  by (simp add: same_chains_def)

lemma filter_at_same: "filter_at sha ht cl = (r, cl') \<Longrightarrow> same_chains cl cl'"
  by (auto simp: filter_at_def Let_def same_chains_def split: file_read.splits option.splits prod.splits sum.splits if_splits)

lemma filter_matches_same: "filter_matches sha ht item cl = Some (r, cl') \<Longrightarrow> same_chains cl cl'"
  by (auto simp: filter_matches_def split: prod.splits sum.splits option.splits dest!: filter_at_same)

lemma fetch_block_same: "fetch_block sha h cl = Some (r, cl') \<Longrightarrow> same_chains cl cl'"
  by (auto simp: fetch_block_def same_chains_def)

lemma fetch_checked_block_same: "fetch_checked_block sha h cl = Some (r, cl') \<Longrightarrow> same_chains cl cl'"
  by (auto simp: fetch_checked_block_def split: option.splits prod.splits sum.splits if_splits dest!: fetch_block_same)

section \<open>Blocks\<close>

text \<open>A block as the client accepts it for a header hash.\<close>

definition committed_block :: "sha256_fn \<Rightarrow> bytes \<Rightarrow> cbf_block \<Rightarrow> bool" where
  "committed_block sha h b \<longleftrightarrow> header_hash sha (cb_header b) = h \<and> compute_merkle_root sha b = Some (bh_merkle_root (cb_header b))"

lemma fetch_block_loop_ok: "fetch_block_loop sha h e ps = Some (Inr b, qs) \<Longrightarrow> header_hash sha (cb_header b) = h"
proof (induction sha h e ps arbitrary: qs rule: fetch_block_loop.induct)
  case (2 sha h e p ps)
  then show ?case by (fastforce split: prod.splits sum.splits dest: get_block_ok)
qed auto

lemma fetch_checked_block_ok: "fetch_checked_block sha h cl = Some (Inr b, cl') \<Longrightarrow> committed_block sha h b"
  by (auto simp: fetch_checked_block_def fetch_block_def committed_block_def split: option.splits prod.splits sum.splits if_splits
      dest: fetch_block_loop_ok)

section \<open>Filters\<close>

lemma verify_filter_ok: "verify_filter sha f ht bs = Inr u \<longleftrightarrow> filter_hash_at f ht = Some (filter_hash sha bs)"
  by (auto simp: verify_filter_def and_then_Inr)

lemma cfilter_loop_ok:
  "cfilter_loop sha f ht h e ps = (Inr bs, qs) \<Longrightarrow> filter_hash_at f ht = Some (filter_hash sha bs)"
proof (induction sha f ht h e ps arbitrary: qs rule: cfilter_loop.induct)
  case (2 sha f ht h e p ps)
  obtain r p' where r: "get_cfilter sha (word_of_nat ht) h p = (r, p')" by fastforce
  show ?case
  proof (cases r)
    case (Inl x)
    then show ?thesis using 2 r by (cases "cfilter_loop sha f ht h (Some x) ps") auto
  next
    case (Inr cf)
    show ?thesis
    proof (cases "verify_filter sha f ht (cfi_filter_bytes cf)")
      case (Inl x)
      then show ?thesis using 2 r Inr by (cases "cfilter_loop sha f ht h (Some x) ps") auto
    next
      case (Inr u)
      then show ?thesis using 2 r \<open>r = Inr cf\<close> verify_filter_ok [of sha f ht "cfi_filter_bytes cf" u] by simp
    qed
  qed
qed simp

lemma filter_at_ok: "filter_at sha ht cl = (Inr bs, cl') \<Longrightarrow> filter_hash_at (cc_filter_chain cl) ht = Some (filter_hash sha bs)"
  by (auto simp: filter_at_def Let_def split: file_read.splits option.splits prod.splits sum.splits if_splits
      dest: cfilter_loop_ok simp: verify_filter_ok)

definition hash_collision :: "sha256_fn \<Rightarrow> bool" where
  "hash_collision sha \<longleftrightarrow> (\<exists>u v. u \<noteq> v \<and> sha256d sha u = sha256d sha v)"

text \<open>A negative answer of a filter that commits to elements excludes all of them.\<close>

lemma filter_no_means_absent:
  assumes "filter_matches sha ht item cl = Some (Inr False, cl')" "hash_at (cc_chain cl) ht = Some h"
    and "filter_hash_at (cc_filter_chain cl) ht = Some (filter_hash sha (gcs_encode es (filter_key h) BASIC_FILTER_P BASIC_FILTER_M))"
    and "length (remdups es) \<le> 2 ^ 31"
  shows "item \<notin> set es \<or> hash_collision sha"
proof -
  obtain bs cl1 where bs: "filter_at sha ht cl = (Inr bs, cl1)"
    and m: "and_then (gcs_parse bs) (\<lambda>gf. gcs_matches gf (filter_key h) item BASIC_FILTER_P BASIC_FILTER_M) = Inr False"
    using assms(1,2) filter_at_same [of sha ht cl]
    by (cases "filter_at sha ht cl") (auto simp: filter_matches_def same_chains_def split: sum.splits option.splits)
  have eq: "sha256d sha bs = sha256d sha (gcs_encode es (filter_key h) BASIC_FILTER_P BASIC_FILTER_M)"
    using filter_at_ok [OF bs] assms(3) by (simp add: filter_hash_def)
  show ?thesis
  proof (cases "bs = gcs_encode es (filter_key h) BASIC_FILTER_P BASIC_FILTER_M")
    case True
    with gcs_answers [OF assms(4), of "filter_key h"] m show ?thesis by auto
  next
    case False
    with eq show ?thesis unfolding hash_collision_def by blast
  qed
qed

text \<open>
  Claim C17. A negative filter answer is conclusive: when the filter of a height is the one the
  agreed filter chain commits to and that filter was built from some elements with the block's key, the
  client's "no" for an item means that the item is none of these elements, whichever peer or cache file
  served the filter, unless SHA-256d has a collision.
\<close>

theorem negative_filter_sound:
  assumes "filter_matches sha ht item cl = Some (Inr False, cl')" and "hash_at (cc_chain cl) ht = Some h"
    and "filter_hash_at (cc_filter_chain cl) ht = Some (filter_hash sha (gcs_encode es (filter_key h) BASIC_FILTER_P BASIC_FILTER_M))"
    and "length (remdups es) \<le> 2 ^ 31"
  shows "item \<notin> set es \<or> hash_collision sha"
  using assms by (rule filter_no_means_absent)

section \<open>Agreement\<close>

lemma header_candidates_iff:
  "(q, c) \<in> set (header_candidates sha base ps) \<longleftrightarrow> (\<exists>p \<in> set ps. \<exists>n. header_chain_sync sha base p = Some (Inr n, c, q))"
  by (force simp: header_candidates_def List.map_filter_def split: option.splits sum.splits prod.splits)

lemma filter_join_ok:
  "filter_join rs ref fps = Inr (ref', fps') \<Longrightarrow>
     (\<exists>new_ps. fps' = fps @ new_ps \<and>
        (\<forall>q \<in> set new_ps. \<exists>hs. ref' = Some hs \<and> (Inr hs, q) \<in> set rs)) \<and> (ref \<noteq> None \<longrightarrow> ref' = ref)"
proof (induction rs ref fps rule: filter_join.induct)
  case (2 r p rest ref fps)
  show ?case
  proof (cases r)
    case (Inl e)
    then show ?thesis using 2 by fastforce
  next
    case (Inr hs)
    show ?thesis
    proof (cases ref)
      case None
      then have "filter_join rest (Some hs) (fps @ [p]) = Inr (ref', fps')" using 2(4) Inr by simp
      from 2(2) [OF Inr None this] obtain new_ps where "fps' = (fps @ [p]) @ new_ps" "ref' = Some hs"
        "\<forall>q \<in> set new_ps. \<exists>hs. ref' = Some hs \<and> (Inr hs, q) \<in> set rest" by auto
      then show ?thesis using None Inr by (intro conjI exI [of _ "p # new_ps"]) auto
    next
      case (Some x)
      then have x: "x = hs" "filter_join rest ref (fps @ [p]) = Inr (ref', fps')" using 2(4) Inr by (auto split: if_splits)
      have "\<not> x \<noteq> hs" using x by simp
      from 2(3) [OF Inr Some this x(2)] obtain new_ps where "fps' = (fps @ [p]) @ new_ps" "ref' = Some x"
        "\<forall>q \<in> set new_ps. \<exists>hs. ref' = Some hs \<and> (Inr hs, q) \<in> set rest" using Some by auto
      then show ?thesis using Some Inr x(1) by (intro conjI exI [of _ "p # new_ps"]) auto
    qed
  qed
qed simp

text \<open>The successful run of a synchronisation, step by step.\<close>

lemma sync_inner_run:
  assumes "sync_inner sha rv cl = Some (Inr (), cl')"
  obtains agreed filters stop hs
  where "\<forall>(q, c) \<in> set (header_candidates sha (cc_chain cl) (cc_peers cl)). chain_tip c = chain_tip agreed"
    and "agreed \<in> snd ` set (header_candidates sha (cc_chain cl) (cc_peers cl))"
    and "filters = filter_chain_truncate (common_prefix_len (cc_chain cl) agreed) (cc_filter_chain cl)"
    and "chain_tip_height agreed = Some stop" and "cc_chain cl' = agreed" and "cc_peers cl' \<noteq> []"
    and "cc_filter_chain cl' = filter_chain_extend hs filters"
    and "\<forall>q \<in> set (cc_peers cl'). \<exists>(q0, c) \<in> set (header_candidates sha (cc_chain cl) (cc_peers cl)).
        filter_task sha rv filters agreed stop q0 = (Inr hs, q)"
    and "cc_headers_file cl' = Contents (header_chain_persist agreed)"
proof -
  let ?cs = "header_candidates sha (cc_chain cl) (cc_peers cl)"
  let ?agreed = "snd (?cs ! 0)"
  let ?filters = "filter_chain_truncate (common_prefix_len (cc_chain cl) ?agreed) (cc_filter_chain cl)"
  have ne: "?cs \<noteq> []" and tips: "\<not> list_ex (\<lambda>(_, c). chain_tip c \<noteq> chain_tip ?agreed) ?cs"
    using assms by (auto simp: sync_inner_def Let_def split: if_splits)
  obtain stop where stop: "chain_tip_height ?agreed = Some stop"
    using assms ne tips by (auto simp: sync_inner_def Let_def split: option.splits)
  let ?rs = "map (\<lambda>(p, _). filter_task sha rv ?filters ?agreed stop p) ?cs"
  obtain ref fps where j: "filter_join ?rs None [] = Inr (ref, fps)"
    using assms ne tips stop by (auto simp: sync_inner_def Let_def split: sum.splits)
  have fps: "fps \<noteq> []" using assms ne tips stop j by (auto simp: sync_inner_def Let_def split: if_splits)
  from filter_join_ok [OF j] have members: "\<forall>q \<in> set fps. \<exists>hs. ref = Some hs \<and> (Inr hs, q) \<in> set ?rs" by auto
  then obtain hs where hs: "ref = Some hs" using fps by (metis hd_in_set)
  have cl': "cc_chain cl' = ?agreed" "cc_peers cl' = fps" "cc_filter_chain cl' = filter_chain_extend hs ?filters"
      "cc_headers_file cl' = Contents (header_chain_persist ?agreed)"
    using assms ne tips stop j fps hs by (auto simp: sync_inner_def Let_def split: if_splits)
  show thesis
  proof (rule that [of ?agreed ?filters stop hs])
    show "\<forall>(q, c) \<in> set ?cs. chain_tip c = chain_tip ?agreed" using tips by (auto simp: list_ex_iff)
    show "?agreed \<in> snd ` set ?cs" using ne by (metis image_eqI length_greater_0_conv nth_mem)
    show "\<forall>q \<in> set (cc_peers cl'). \<exists>(q0, c) \<in> set ?cs. filter_task sha rv ?filters ?agreed stop q0 = (Inr hs, q)"
      unfolding cl'(2)
    proof
      fix q assume "q \<in> set fps"
      then have "(Inr hs, q) \<in> set ?rs" using members hs by auto
      then show "\<exists>(q0, c) \<in> set ?cs. filter_task sha rv ?filters ?agreed stop q0 = (Inr hs, q)" by force
    qed
  qed (use cl' fps stop in simp_all)
qed

lemma filter_task_ok:
  "filter_task sha rv f chain stop p = (Inr hs, q) \<Longrightarrow> length hs = Suc stop - filter_chain_len f \<and> list_all (\<lambda>h. length h = 32) hs"
  by (auto simp: filter_task_def split: prod.splits sum.splits dest!: fetch_range_ok)

lemma common_prefix_le: "common_prefix_len c d \<le> length (hc_hashes d)"
  unfolding common_prefix_len_def by (rule le_trans [OF length_takeWhile_le]) simp

text \<open>
  Claim C13. A successful synchronisation means agreement. The client ends on a validated chain;
  every peer that completed header synchronisation ended on the same tip height, tip hash and work;
  at least one peer is kept; the filter chain holds exactly one hash per block, and every kept peer
  answered the filter phase with the same new hashes, so that one honest peer among them is enough.
\<close>

theorem sync_agreement:
  assumes "chain_ok sha (cc_chain cl)" and "sync_inner sha rv cl = Some (Inr (), cl')"
  shows "chain_ok sha (cc_chain cl') \<and> cc_peers cl' \<noteq> [] \<and>
    (\<forall>p \<in> set (cc_peers cl). \<forall>n c q. header_chain_sync sha (cc_chain cl) p = Some (Inr n, c, q) \<longrightarrow> chain_tip c = chain_tip (cc_chain cl')) \<and>
    filter_chain_len (cc_filter_chain cl') = length (hc_headers (cc_chain cl')) \<and>
    (\<exists>filters new stop. cc_filter_chain cl' = filter_chain_extend new filters \<and> chain_tip_height (cc_chain cl') = Some stop \<and>
       filters = filter_chain_truncate (common_prefix_len (cc_chain cl) (cc_chain cl')) (cc_filter_chain cl) \<and>
       (\<forall>q \<in> set (cc_peers cl'). \<exists>p \<in> set (cc_peers cl). \<exists>n c q0. header_chain_sync sha (cc_chain cl) p = Some (Inr n, c, q0) \<and>
          filter_task sha rv filters (cc_chain cl') stop q0 = (Inr new, q)))"
proof -
  let ?cs = "header_candidates sha (cc_chain cl) (cc_peers cl)"
  obtain agreed filters stop hs
    where r: "\<forall>(q, c) \<in> set ?cs. chain_tip c = chain_tip agreed" "agreed \<in> snd ` set ?cs"
      "filters = filter_chain_truncate (common_prefix_len (cc_chain cl) agreed) (cc_filter_chain cl)"
      "chain_tip_height agreed = Some stop" "cc_chain cl' = agreed" "cc_peers cl' \<noteq> []"
      "cc_filter_chain cl' = filter_chain_extend hs filters"
      "\<forall>q \<in> set (cc_peers cl'). \<exists>(q0, c) \<in> set ?cs. filter_task sha rv filters agreed stop q0 = (Inr hs, q)"
    using sync_inner_run [OF assms(2)] by metis
  obtain q where "(q, agreed) \<in> set ?cs" using r(2) by force
  then have ok: "chain_ok sha agreed" using header_chain_sync_ok [OF assms(1)] unfolding header_candidates_iff by blast
  have stop: "Suc stop = length (hc_headers agreed)" using r(4) by (auto simp: chain_tip_height_def split: if_splits)
  have "filter_chain_len filters \<le> Suc stop"
    using common_prefix_le [of "cc_chain cl" agreed] ok stop
    by (simp add: r(3) filter_chain_truncate_def filter_chain_len_def chain_ok_def min.coboundedI2 min_le_iff_disj)
  moreover obtain q1 where "q1 \<in> set (cc_peers cl')" using r(6) by (meson hd_in_set)
  then have "length hs = Suc stop - filter_chain_len filters" using r(8) filter_task_ok by fast
  ultimately have len: "filter_chain_len (cc_filter_chain cl') = length (hc_headers (cc_chain cl'))"
    using stop r(5) by (simp add: r(7) filter_chain_extend_def filter_chain_len_def)
  have members: "\<forall>q \<in> set (cc_peers cl'). \<exists>p \<in> set (cc_peers cl). \<exists>n c q0. header_chain_sync sha (cc_chain cl) p = Some (Inr n, c, q0) \<and>
      filter_task sha rv filters (cc_chain cl') stop q0 = (Inr hs, q)"
    using r(5,8) unfolding header_candidates_iff [symmetric] by (fastforce simp: header_candidates_iff)
  have tips: "\<forall>p \<in> set (cc_peers cl). \<forall>n c q. header_chain_sync sha (cc_chain cl) p = Some (Inr n, c, q) \<longrightarrow> chain_tip c = chain_tip (cc_chain cl')"
    using r(1,5) header_candidates_iff [of _ _ sha "cc_chain cl" "cc_peers cl"] by blast
  show ?thesis using ok r(3-7) len members tips by blast
qed

text \<open>
  Claim C28. A synchronisation that fails for lack of agreement or of usable peers strands
  the client: its peers were taken out and are not put back, so the next block fetch has nobody to ask
  and panics instead of reporting an error.
\<close>

theorem failed_sync_strands_client:
  assumes "sync_inner sha rv cl = Some (Inl e, cl')" and "e \<noteq> Io"
  shows "cc_peers cl' = [] \<and> fetch_block sha h cl' = None"
proof -
  have "cc_peers cl' = []"
    using assms by (auto simp: sync_inner_def Let_def split: if_splits option.splits sum.splits prod.splits)
  then show ?thesis by (simp add: fetch_block_def)
qed

section \<open>Anchors\<close>

text \<open>The transaction an anchor claim names, in a block.\<close>

definition carries_anchor :: "sha256_fn \<Rightarrow> cbf_block \<Rightarrow> u32 \<Rightarrow> bytes \<Rightarrow> bytes \<Rightarrow> bytes \<Rightarrow> bool" where
  "carries_anchor sha b pos txid record_bytes ctx \<longleftrightarrow>
     unat pos < length (cb_txs b) \<and>
     (let tx = cb_txs b ! unat pos in
      tx_txid sha tx = txid \<and> \<not> is_coinbase tx \<and>
      (\<exists>out \<in> set (ct_outputs tx). op_return_payload (cx_script_pubkey out) = Some record_bytes) \<and>
      (\<exists>i ins. ct_inputs tx = i # ins \<and> ctx = cbf_funding_ctx sha (co_txid (ci_prev i)) (co_vout (ci_prev i))))"

lemma anchor_in_block_Confirmed:
  "anchor_in_block sha b rec pos txid h conf req fm = Inr (Confirmed h' ctx conf' fm') \<longleftrightarrow>
     carries_anchor sha b pos txid rec ctx \<and> req \<le> conf \<and> h' = h \<and> conf' = conf \<and> fm' = fm"
proof (cases "ct_inputs (cb_txs b ! unat pos)")
  case Nil
  then show ?thesis by (auto simp: anchor_in_block_def carries_anchor_def Let_def)
next
  case (Cons i ins)
  then show ?thesis by (auto simp: anchor_in_block_def carries_anchor_def Let_def list_ex_iff)
qed

lemma anchor_in_block_Insufficient:
  "anchor_in_block sha b rec pos txid h conf req fm = Inr (InsufficientConfirmations have need) \<longleftrightarrow>
     (\<exists>ctx. carries_anchor sha b pos txid rec ctx) \<and> conf < req \<and> have = conf \<and> need = req"
proof (cases "ct_inputs (cb_txs b ! unat pos)")
  case Nil
  then show ?thesis by (auto simp: anchor_in_block_def carries_anchor_def Let_def)
next
  case (Cons i ins)
  then show ?thesis by (auto simp: anchor_in_block_def carries_anchor_def Let_def list_ex_iff)
qed

text \<open>The run of a verification that reached a block.\<close>

lemma verify_anchor_run:
  assumes "verify_anchor sha a ht pos txid req cl = Some (Inr v, cl')"
    and "\<nexists>h t. v = NotPresent (AboveTip h t)"
  obtains tip h b fm where "0 < ht" "client_tip_height cl = Some tip" "ht \<le> tip" "hash_at (cc_chain cl) ht = Some h"
    "committed_block sha h b" "anchor_in_block sha b (to_bytes a) pos txid h (tip - ht + 1) req fm = Inr v"
  using assms
  by (auto simp: verify_anchor_def Let_def and_then_Inr split: if_splits option.splits prod.splits sum.splits
      dest!: fetch_checked_block_ok)

text \<open>
  Claim C16. A confirmed anchor is one: it is at a mined height of the client's verified
  chain, in a block whose header hashes to that chain's hash and whose transactions hash to the
  header's merkle root, at the claimed position, with the claimed transaction id, in a transaction that is no
  coinbase, carries the exact record and whose first input gives the reported context; and it is
  as deep as reported and as required. The verdict that it is too young says the same with less depth.
\<close>

theorem confirmed_anchor_sound:
  assumes "verify_anchor sha a ht pos txid req cl = Some (Inr v, cl')"
  shows "(\<forall>h ctx conf fm. v = Confirmed h ctx conf fm \<longrightarrow>
      (\<exists>tip b. 0 < ht \<and> client_tip_height cl = Some tip \<and> ht \<le> tip \<and> hash_at (cc_chain cl) ht = Some h \<and> committed_block sha h b \<and>
        carries_anchor sha b pos txid (to_bytes a) ctx \<and> conf = tip - ht + 1 \<and> req \<le> conf)) \<and>
    (\<forall>have need. v = InsufficientConfirmations have need \<longrightarrow>
      (\<exists>tip h b ctx. 0 < ht \<and> client_tip_height cl = Some tip \<and> ht \<le> tip \<and> hash_at (cc_chain cl) ht = Some h \<and> committed_block sha h b \<and>
        carries_anchor sha b pos txid (to_bytes a) ctx \<and> have = tip - ht + 1 \<and> have < req \<and> need = req))"
proof (cases "\<exists>h t. v = NotPresent (AboveTip h t)")
  case False
  obtain tip h b fm where "0 < ht" "client_tip_height cl = Some tip" "ht \<le> tip" "hash_at (cc_chain cl) ht = Some h"
    "committed_block sha h b" "anchor_in_block sha b (to_bytes a) pos txid h (tip - ht + 1) req fm = Inr v"
    by (rule verify_anchor_run [OF assms False])
  then show ?thesis
    by (intro conjI allI impI) (simp add: anchor_in_block_Confirmed, blast, simp add: anchor_in_block_Insufficient, blast)
qed auto

section \<open>Outputs\<close>

definition creates_output :: "sha256_fn \<Rightarrow> cbf_tx \<Rightarrow> cbf_outpoint \<Rightarrow> u64 \<Rightarrow> bytes \<Rightarrow> bool" where
  "creates_output sha tx outpoint val script \<longleftrightarrow>
     tx_txid sha tx = co_txid outpoint \<and> unat (co_vout outpoint) < length (ct_outputs tx) \<and>
     cx_value (ct_outputs tx ! unat (co_vout outpoint)) = val \<and> cx_script_pubkey (ct_outputs tx ! unat (co_vout outpoint)) = script"

definition spends_outpoint :: "cbf_tx \<Rightarrow> cbf_outpoint \<Rightarrow> bool" where
  "spends_outpoint tx outpoint \<longleftrightarrow> (\<exists>i \<in> set (ct_inputs tx). ci_prev i = outpoint)"

lemma inspect_continue:
  "inspect_txs sha txs ht outpoint val script creation = (ObsContinue, creation') \<longleftrightarrow>
     (\<forall>tx \<in> set txs. \<not> spends_outpoint tx outpoint \<and> (tx_txid sha tx = co_txid outpoint \<longrightarrow> creates_output sha tx outpoint val script)) \<and>
     creation' = (if \<exists>tx \<in> set txs. tx_txid sha tx = co_txid outpoint then Some ht else creation)"
proof (induction txs arbitrary: creation)
  case (Cons tx txs)
  show ?case
  proof (cases "tx_txid sha tx = co_txid outpoint \<and> \<not> creates_output sha tx outpoint val script")
    case True
    then show ?thesis by (auto simp: creates_output_def Let_def)
  next
    case False
    then have ok: "\<not> (tx_txid sha tx = co_txid outpoint \<and> \<not> (unat (co_vout outpoint) < length (ct_outputs tx) \<and>
        cx_value (ct_outputs tx ! unat (co_vout outpoint)) = val \<and> cx_script_pubkey (ct_outputs tx ! unat (co_vout outpoint)) = script))"
      by (auto simp: creates_output_def)
    show ?thesis
    proof (cases "spends_outpoint tx outpoint")
      case True
      then have "list_ex (\<lambda>i. ci_prev i = outpoint) (ct_inputs tx)" by (auto simp: spends_outpoint_def list_ex_iff)
      then show ?thesis using True by (auto simp: Let_def split: option.splits)
    next
      case False
      then have "\<not> list_ex (\<lambda>i. ci_prev i = outpoint) (ct_inputs tx)" by (auto simp: spends_outpoint_def list_ex_iff)
      then have "inspect_txs sha (tx # txs) ht outpoint val script creation =
          inspect_txs sha txs ht outpoint val script (if tx_txid sha tx = co_txid outpoint then Some ht else creation)"
        using ok unfolding inspect_txs.simps Let_def by (simp only: if_False)
      then show ?thesis using Cons.IH False \<open>\<not> (tx_txid sha tx = co_txid outpoint \<and> \<not> creates_output sha tx outpoint val script)\<close> by auto
    qed
  qed
qed auto

text \<open>A height of the window is cleared by a negative filter or by a committed block that does not spend.\<close>

definition cleared :: "sha256_fn \<Rightarrow> cbf_client \<Rightarrow> cbf_outpoint \<Rightarrow> bytes \<Rightarrow> nat \<Rightarrow> bool" where
  "cleared sha cl outpoint script ht \<longleftrightarrow>
     (\<exists>cl1 cl2. same_chains cl cl1 \<and> filter_matches sha ht script cl1 = Some (Inr False, cl2)) \<or>
     (\<exists>h b. hash_at (cc_chain cl) ht = Some h \<and> committed_block sha h b \<and> (\<forall>tx \<in> set (cb_txs b). \<not> spends_outpoint tx outpoint))"

definition created_at :: "sha256_fn \<Rightarrow> cbf_client \<Rightarrow> cbf_outpoint \<Rightarrow> u64 \<Rightarrow> bytes \<Rightarrow> nat \<Rightarrow> bool" where
  "created_at sha cl outpoint val script ht \<longleftrightarrow>
     (\<exists>h b. hash_at (cc_chain cl) ht = Some h \<and> committed_block sha h b \<and> (\<exists>tx \<in> set (cb_txs b). creates_output sha tx outpoint val script))"

lemma outpoint_loop_unspent:
  "same_chains cl0 cl \<Longrightarrow> outpoint_loop sha hts birth tip outpoint val script creation m cl = Some (Inr (Unspent c t k), cl') \<Longrightarrow>
     (\<forall>ht \<in> set hts. cleared sha cl0 outpoint script ht) \<and> t = tip \<and>
     (creation = Some c \<or> c \<in> set hts \<and> created_at sha cl0 outpoint val script c)"
proof (induction hts arbitrary: creation m cl)
  case (Cons ht hts)
  obtain r cl1 where f: "filter_matches sha ht script cl = Some (r, cl1)"
    using Cons.prems(2) by (auto split: option.splits)
  have s1: "same_chains cl0 cl1" using same_chains_trans [OF Cons.prems(1) filter_matches_same [OF f]] .
  consider "r = Inr False" | "r = Inr True" using Cons.prems(2) f by (cases r) (auto split: bool.splits)
  then show ?case
  proof cases
    case 1
    have "cleared sha cl0 outpoint script ht" using f 1 Cons.prems(1) unfolding cleared_def by blast
    moreover have "outpoint_loop sha hts birth tip outpoint val script creation m cl1 = Some (Inr (Unspent c t k), cl')"
      using Cons.prems(2) f 1 by simp
    ultimately show ?thesis using Cons.IH [OF s1] by auto
  next
    case 2
    obtain h where h: "hash_at (cc_chain cl1) ht = Some h" using Cons.prems(2) f 2 by (auto split: option.splits)
    obtain b cl2 where b: "fetch_checked_block sha h cl1 = Some (Inr b, cl2)"
      using Cons.prems(2) f 2 h by (auto split: option.splits sum.splits prod.splits)
    obtain creation' where i: "inspect_txs sha (cb_txs b) ht outpoint val script creation = (ObsContinue, creation')"
      and rec: "outpoint_loop sha hts birth tip outpoint val script creation' (m + 1) cl2 = Some (Inr (Unspent c t k), cl')"
      using Cons.prems(2) f 2 h b by (auto simp: inspect_outpoint_block_def split: prod.splits outpoint_block_observation.splits)
    have s2: "same_chains cl0 cl2" using same_chains_trans [OF s1 fetch_checked_block_same [OF b]] .
    have h0: "hash_at (cc_chain cl0) ht = Some h" using h s1 by (simp add: same_chains_def)
    note cb = fetch_checked_block_ok [OF b] and ins = i [unfolded inspect_continue]
    have "cleared sha cl0 outpoint script ht" using h0 cb ins unfolding cleared_def by blast
    moreover have "creation' = Some c \<Longrightarrow> creation = Some c \<or> c = ht \<and> created_at sha cl0 outpoint val script ht"
      using h0 cb ins unfolding created_at_def by (auto split: if_splits)
    ultimately show ?thesis using Cons.IH [OF s2 rec] by auto
  qed
qed (auto split: option.splits)

lemma unspent_meaning:
  assumes "verify_outpoint_unspent sha outpoint val script birth max_blocks cl = Some (Inr (Unspent c t k), cl')"
  shows "client_tip_height cl = Some t \<and> 0 < birth \<and> birth \<le> c \<and> c \<le> t \<and> t - birth < max_blocks \<and>
    created_at sha cl outpoint val script c \<and> (\<forall>ht. birth \<le> ht \<and> ht \<le> t \<longrightarrow> cleared sha cl outpoint script ht)"
proof -
  obtain tip where tip: "0 < birth" "client_tip_height cl = Some tip" "birth \<le> tip" "tip - birth + 1 \<le> max_blocks"
    and loop: "outpoint_loop sha [birth..<Suc tip] birth tip outpoint val script None 0 cl = Some (Inr (Unspent c t k), cl')"
    using assms by (auto simp: verify_outpoint_unspent_def split: if_splits option.splits)
  have "same_chains cl cl" by (simp add: same_chains_def)
  from outpoint_loop_unspent [OF this loop] show ?thesis using tip by auto
qed

text \<open>
  Claim C15. An unspent verdict accounts for the whole window: the creation height lies in
  it and a committed block of the verified chain there creates the output with the expected value and
  script; every height from the birth height to the tip was cleared, either by a negative answer of a verified
  filter for the output's script or by a committed block none of whose transactions spends the output.
\<close>

theorem unspent_verdict_sound:
  assumes "verify_outpoint_unspent sha outpoint val script birth max_blocks cl = Some (Inr (Unspent c t k), cl')"
  shows "client_tip_height cl = Some t \<and> 0 < birth \<and> birth \<le> c \<and> c \<le> t \<and> t - birth < max_blocks \<and>
    created_at sha cl outpoint val script c \<and> (\<forall>ht. birth \<le> ht \<and> ht \<le> t \<longrightarrow> cleared sha cl outpoint script ht)"
  using assms by (rule unspent_meaning)

section \<open>Concrete runs\<close>

text \<open>A client on a two-block chain whose peer serves the block of an anchor.\<close>

definition demo_anchor :: anchor_record where "demo_anchor = Xfer (replicate 24 9) (replicate 24 0)"

definition demo_anchor_tx :: cbf_tx where
  "demo_anchor_tx = demo_tx\<lparr>ct_outputs := [\<lparr>cx_value = 0, cx_script_pubkey = anchor_script (to_bytes demo_anchor)\<rparr>, \<lparr>cx_value = 600, cx_script_pubkey = [0x51]\<rparr>]\<rparr>"

definition demo_block :: cbf_block where
  "demo_block = \<lparr>cb_header = demo_header\<lparr>bh_merkle_root := tx_txid demo_sha demo_anchor_tx\<rparr>, cb_txs = [demo_anchor_tx]\<rparr>"

definition demo_block_hash :: bytes where "demo_block_hash = header_hash demo_sha (cb_header demo_block)"

definition demo_filter :: bytes where
  "demo_filter = gcs_encode [[0x51]] (filter_key demo_block_hash) BASIC_FILTER_P BASIC_FILTER_M"

definition demo_client :: "in_stream \<Rightarrow> bytes \<Rightarrow> cbf_client" where
  "demo_client stream filter_bytes =
     \<lparr>cc_peers = [(demo_peer 5 [])\<lparr>pe_in := stream\<rparr>],
      cc_chain = \<lparr>hc_params = network_params Regtest, hc_headers = [demo_header, cb_header demo_block], hc_hashes = [replicate 32 0, demo_block_hash], hc_chainwork = [0, 0]\<rparr>,
      cc_filter_chain = from_verified [replicate 32 0, filter_hash demo_sha filter_bytes], cc_filter_files = (\<lambda>_. Contents filter_bytes),
      cc_headers_file = Absent, cc_filter_hashes_file = Absent, cc_disk_ok = True\<rparr>"

lemma demo_record: "length (to_bytes demo_anchor) = 64" "\<exists>a b data. to_bytes demo_anchor = a # b # data"
proof -
  show len: "length (to_bytes demo_anchor) = 64" by (simp add: demo_anchor_def ANCHOR_SIZE_def)
  then have "length (to_bytes demo_anchor) = Suc (Suc 62)" by simp
  then show "\<exists>a b data. to_bytes demo_anchor = a # b # data" by (auto simp only: length_Suc_conv)
qed

lemma demo_payload: "op_return_payload (anchor_script (to_bytes demo_anchor)) = Some (to_bytes demo_anchor)"
  using demo_record by (auto simp: anchor_script_def)

lemma demo_block_ok: "block_ok [False] demo_block" "length (block_bytes [False] demo_block) \<le> MAX_PAYLOAD"
proof -
  have tx: "tx_ok False demo_anchor_tx"
    using demo_record(1) by (simp add: tx_ok_def demo_anchor_tx_def demo_tx_def tx_in_ok_def tx_out_ok_def anchor_script_def)
  then show ok: "block_ok [False] demo_block"
    by (simp add: block_ok_def demo_block_def demo_header_def header_ok_def tx_txid_def demo_sha_ok)
  have "length (tx_bytes False demo_anchor_tx) \<le> 1000"
    using demo_record(1)
    by (simp add: tx_bytes_def demo_anchor_tx_def demo_tx_def input_count_bytes_def tx_in_bytes_def tx_out_bytes_def write_varbytes_def write_varint_def anchor_script_def)
  then show "length (block_bytes [False] demo_block) \<le> MAX_PAYLOAD"
    using ok by (simp add: block_bytes_def txs_bytes_def demo_block_def block_ok_def length_header_serialize write_varint_def MAX_PAYLOAD_def)
qed

lemma demo_root: "compute_merkle_root demo_sha demo_block = Some (bh_merkle_root (cb_header demo_block))"
  by (simp add: compute_merkle_root_def merkle_root_def merkle_loop.simps demo_block_def)

lemma demo_fetch_block:
  "\<exists>cl. fetch_checked_block demo_sha demo_block_hash (demo_client (map Some (frame demo_sha 0xdab5bffa ''block'' (block_bytes [False] demo_block))) f) = Some (Inr demo_block, cl)"
proof -
  let ?s = "map Some (frame demo_sha 0xdab5bffa ''block'' (block_bytes [False] demo_block))"
  obtain q where "get_block demo_sha demo_block_hash ((demo_peer 5 [])\<lparr>pe_in := ?s\<rparr>) = (Inr demo_block, q)"
    using get_block_served [OF demo_sha_ok demo_block_ok, of "(demo_peer 5 [])\<lparr>pe_in := ?s\<rparr>" "[]"]
    by (auto simp: demo_block_hash_def demo_peer_def)
  then show ?thesis by (simp add: fetch_checked_block_def fetch_block_def demo_client_def demo_root)
qed

lemma demo_client_tip: "client_tip_height (demo_client s f) = Some 1" "hash_at (cc_chain (demo_client s f)) 1 = Some demo_block_hash"
    "hash_at (cc_chain (demo_client s f)) (Suc 0) = Some demo_block_hash"
  by (simp_all add: client_tip_height_def chain_tip_height_def demo_client_def hash_at_def)

lemma demo_filter_answer:
  "filter_matches demo_sha 1 item (demo_client s (gcs_encode es (filter_key demo_block_hash) BASIC_FILTER_P BASIC_FILTER_M)) =
     Some (Inr (\<exists>e\<in>set es. hash_to_range (filter_key demo_block_hash) item (gcs_count es) BASIC_FILTER_M = hash_to_range (filter_key demo_block_hash) e (gcs_count es) BASIC_FILTER_M),
       demo_client s (gcs_encode es (filter_key demo_block_hash) BASIC_FILTER_P BASIC_FILTER_M))"
  if "length (remdups es) \<le> 2 ^ 31"
  using gcs_answers [OF that, of "filter_key demo_block_hash"]
  by (auto simp: filter_matches_def filter_at_def Let_def demo_client_def verify_filter_def filter_hash_at_def from_verified_def hash_at_def)


theorem negative_filter_sound_witness:
  "filter_matches demo_sha 1 [7] (demo_client [] (gcs_encode [] (filter_key demo_block_hash) BASIC_FILTER_P BASIC_FILTER_M)) =
     Some (Inr False, demo_client [] (gcs_encode [] (filter_key demo_block_hash) BASIC_FILTER_P BASIC_FILTER_M)) \<and>
   ({[7]} \<inter> set ([] :: bytes list) = {} \<or> hash_collision demo_sha)"
proof -
  let ?cl = "demo_client [] (gcs_encode [] (filter_key demo_block_hash) BASIC_FILTER_P BASIC_FILTER_M)"
  have m: "filter_matches demo_sha 1 [7] ?cl = Some (Inr False, ?cl)" using demo_filter_answer [of "[]" "[7]" "[]"] by simp
  have "[7] \<notin> set ([] :: bytes list) \<or> hash_collision demo_sha"
    by (rule negative_filter_sound [OF m, where h = demo_block_hash])
      (simp_all add: demo_client_def hash_at_def filter_hash_at_def from_verified_def)
  with m show ?thesis by blast
qed

theorem failed_sync_strands_client_witness:
  "sync_inner demo_sha True ((demo_client [] [])\<lparr>cc_peers := [demo_peer 0 []]\<rparr>) = Some (Inl NoPeers, (demo_client [] [])\<lparr>cc_peers := []\<rparr>) \<and>
   cc_peers ((demo_client [] [])\<lparr>cc_peers := []\<rparr>) = [] \<and> fetch_block demo_sha demo_block_hash ((demo_client [] [])\<lparr>cc_peers := []\<rparr>) = None"
proof -
  let ?cl = "(demo_client [] [])\<lparr>cc_peers := [demo_peer 0 []]\<rparr>"
  have "header_chain_sync demo_sha (cc_chain ?cl) (demo_peer 0 []) = Some (Inl Io, cc_chain ?cl, demo_peer 0 [])"
    by (simp add: header_chain_sync_def sync_loop.simps demo_client_def peer_get_headers_def peer_request_def peer_write_message_def Let_def demo_peer_def)
  then have "sync_inner demo_sha True ?cl = Some (Inl NoPeers, (demo_client [] [])\<lparr>cc_peers := []\<rparr>)"
    by (simp add: sync_inner_def header_candidates_def List.map_filter_def)
  with failed_sync_strands_client [OF this] show ?thesis by blast
qed

theorem confirmed_anchor_sound_witness:
  "\<exists>ctx fm cl'. verify_anchor demo_sha demo_anchor 1 0 (tx_txid demo_sha demo_anchor_tx) 1
       (demo_client (map Some (frame demo_sha 0xdab5bffa ''block'' (block_bytes [False] demo_block))) demo_filter) =
     Some (Inr (Confirmed demo_block_hash ctx 1 fm), cl') \<and>
   (\<exists>b. committed_block demo_sha demo_block_hash b \<and> carries_anchor demo_sha b 0 (tx_txid demo_sha demo_anchor_tx) (to_bytes demo_anchor) ctx)"
proof -
  let ?cl = "demo_client (map Some (frame demo_sha 0xdab5bffa ''block'' (block_bytes [False] demo_block))) demo_filter"
  obtain fm where fm: "filter_matches demo_sha 1 (anchor_script (to_bytes demo_anchor)) ?cl = Some (Inr fm, ?cl)"
    using demo_filter_answer [of "[[0x51]]"] by (simp add: demo_filter_def)
  obtain cl where cl: "fetch_checked_block demo_sha demo_block_hash ?cl = Some (Inr demo_block, cl)" using demo_fetch_block by blast
  let ?ctx = "cbf_funding_ctx demo_sha (replicate 32 9) 1"
  have carries: "carries_anchor demo_sha demo_block 0 (tx_txid demo_sha demo_anchor_tx) (to_bytes demo_anchor) ?ctx"
    by (simp add: carries_anchor_def demo_block_def is_coinbase_def) (simp add: demo_anchor_tx_def demo_tx_def demo_payload)
  have "anchor_in_block demo_sha demo_block (to_bytes demo_anchor) 0 (tx_txid demo_sha demo_anchor_tx) demo_block_hash 1 1 fm = Inr (Confirmed demo_block_hash ?ctx 1 fm)"
    unfolding anchor_in_block_Confirmed using carries by simp
  then have v: "verify_anchor demo_sha demo_anchor 1 0 (tx_txid demo_sha demo_anchor_tx) 1 ?cl = Some (Inr (Confirmed demo_block_hash ?ctx 1 fm), cl)"
    using fm cl demo_client_tip by (simp add: verify_anchor_def)
  from confirmed_anchor_sound [OF v, THEN conjunct1, rule_format, OF refl] obtain b
    where "committed_block demo_sha demo_block_hash b" "carries_anchor demo_sha b 0 (tx_txid demo_sha demo_anchor_tx) (to_bytes demo_anchor) ?ctx" by blast
  with v show ?thesis by (intro exI conjI)
qed


theorem unspent_verdict_sound_witness:
  "\<exists>k cl'. verify_outpoint_unspent demo_sha \<lparr>co_txid = tx_txid demo_sha demo_anchor_tx, co_vout = 1\<rparr> 600 [0x51] 1 10
       (demo_client (map Some (frame demo_sha 0xdab5bffa ''block'' (block_bytes [False] demo_block))) demo_filter) =
     Some (Inr (Unspent 1 1 k), cl') \<and>
   created_at demo_sha (demo_client (map Some (frame demo_sha 0xdab5bffa ''block'' (block_bytes [False] demo_block))) demo_filter)
     \<lparr>co_txid = tx_txid demo_sha demo_anchor_tx, co_vout = 1\<rparr> 600 [0x51] 1"
proof -
  let ?cl = "demo_client (map Some (frame demo_sha 0xdab5bffa ''block'' (block_bytes [False] demo_block))) demo_filter"
  let ?out = "\<lparr>co_txid = tx_txid demo_sha demo_anchor_tx, co_vout = 1\<rparr> :: cbf_outpoint"
  have fm: "filter_matches demo_sha 1 [0x51] ?cl = Some (Inr True, ?cl)"
    using demo_filter_answer [of "[[0x51]]" "[0x51]"] by (simp add: demo_filter_def)
  obtain cl where cl: "fetch_checked_block demo_sha demo_block_hash ?cl = Some (Inr demo_block, cl)" using demo_fetch_block by blast
  have outs: "ct_outputs demo_anchor_tx ! 1 = \<lparr>cx_value = 600, cx_script_pubkey = [0x51]\<rparr>" "length (ct_outputs demo_anchor_tx) = 2"
    by (simp_all add: demo_anchor_tx_def)
  have prev: "ct_inputs demo_anchor_tx = [\<lparr>ci_prev = \<lparr>co_txid = replicate 32 9, co_vout = 1\<rparr>, ci_script_sig = [], ci_sequence = 0xfffffffd\<rparr>]"
    by (simp add: demo_anchor_tx_def demo_tx_def)
  have "hd (tx_txid demo_sha demo_anchor_tx) = 2"
    by (simp add: tx_txid_def sha256d_def demo_sha_def serialize_legacy_def demo_anchor_tx_def demo_tx_def to_le_bytes_def le_bytes_4)
  then have "tx_txid demo_sha demo_anchor_tx \<noteq> replicate 32 9" by auto
  then have "inspect_txs demo_sha (cb_txs demo_block) 1 ?out 600 [0x51] None = (ObsContinue, Some 1)"
    unfolding inspect_continue using outs prev by (auto simp: demo_block_def spends_outpoint_def creates_output_def)
  then have v: "verify_outpoint_unspent demo_sha ?out 600 [0x51] 1 10 ?cl = Some (Inr (Unspent 1 1 1), cl)"
    using fm cl demo_client_tip by (simp add: verify_outpoint_unspent_def inspect_outpoint_block_def upt_rec)
  from unspent_verdict_sound [OF v] have "created_at demo_sha ?cl ?out 600 [0x51] 1" by (simp only:)
  with v show ?thesis by (intro exI conjI)
qed

definition demo_sync_client :: cbf_client where
  "demo_sync_client =
     \<lparr>cc_peers = [(demo_peer 5 [])\<lparr>pe_in := map Some (frame demo_sha 0xdab5bffa ''headers'' (headers_payload [])) @
        map Some (frame demo_sha 0xdab5bffa ''cfheaders'' (cfheaders_payload demo_filter_response))\<rparr>],
      cc_chain = demo_chain, cc_filter_chain = filter_chain_empty, cc_filter_files = (\<lambda>_. Absent),
      cc_headers_file = Absent, cc_filter_hashes_file = Absent, cc_disk_ok = True\<rparr>"

lemma demo_sync: "\<exists>cl'. sync_inner demo_sha True demo_sync_client = Some (Inr (), cl')"
proof -
  let ?p = "hd (cc_peers demo_sync_client)"
  obtain q where q: "peer_get_headers demo_sha (locator demo_chain) (replicate 32 0) ?p = (Inr [], q)"
    "pe_in q = map Some (frame demo_sha 0xdab5bffa ''cfheaders'' (cfheaders_payload demo_filter_response))" "pe_writes q = 4" "pe_magic q = 0xdab5bffa"
    using get_headers_served [OF demo_sha_ok, of "[]" ?p _ "locator demo_chain" "replicate 32 0"]
    by (auto simp: demo_sync_client_def demo_peer_def)
  then have sync: "header_chain_sync demo_sha demo_chain ?p = Some (Inr 0, demo_chain, q)"
    by (simp add: header_chain_sync_def sync_loop.simps) (simp add: demo_chain_def)
  have "cfheaders_ok demo_filter_response" by (simp add: cfheaders_ok_def demo_filter_response_def demo_genesis_hash)
  from get_cfheaders_served [OF demo_sha_ok this, of q "[]" 0] q
  obtain q' where "get_cfheaders demo_sha 0 (header_hash demo_sha demo_genesis) q = (Inr demo_filter_response, q')"
    by (auto simp: demo_filter_response_def)
  moreover have "hash_at demo_chain 0 = Some (header_hash demo_sha demo_genesis)" by (simp add: hash_at_def demo_chain_def)
  ultimately have task: "filter_task demo_sha True filter_chain_empty demo_chain 0 q = (Inr [replicate 32 7], q')"
    by (simp add: filter_task_def fetch_range_def filter_chain_empty_def filter_chain_len_def fetch_loop.simps demo_filter_response_def)
  have cands: "header_candidates demo_sha (cc_chain demo_sync_client) (cc_peers demo_sync_client) = [(q, demo_chain)]"
    using sync by (simp add: header_candidates_def List.map_filter_def) (simp add: demo_sync_client_def)
  have "filter_chain_truncate n (cc_filter_chain demo_sync_client) = filter_chain_empty" for n
    by (simp add: demo_sync_client_def filter_chain_truncate_def filter_chain_empty_def)
  moreover have "chain_tip_height demo_chain = Some 0" "cc_disk_ok demo_sync_client"
    by (simp_all add: chain_tip_height_def demo_chain_def demo_sync_client_def)
  ultimately show ?thesis using task by (simp add: sync_inner_def cands)
qed

theorem sync_agreement_witness:
  "\<exists>cl'. sync_inner demo_sha True demo_sync_client = Some (Inr (), cl') \<and> chain_ok demo_sha (cc_chain cl') \<and> cc_peers cl' \<noteq> [] \<and>
     filter_chain_len (cc_filter_chain cl') = length (hc_headers (cc_chain cl'))"
proof -
  obtain cl' where cl': "sync_inner demo_sha True demo_sync_client = Some (Inr (), cl')" using demo_sync by blast
  have "chain_ok demo_sha (cc_chain demo_sync_client)" using demo_chain_ok by (simp add: demo_sync_client_def)
  from sync_agreement [OF this cl'] cl' show ?thesis by (intro exI [of _ cl']) (simp only: simp_thms)
qed
end
