(* ===== verification/Cbf_Scan.thy ===== *)
theory Cbf_Scan
  imports Cbf_Client Chain
begin

text \<open>
  Scanning for occurrences of nullifiers: the bounded window scan of
  \<open>crates/opencsv-cbf/src/fullscan.rs\<close> and the persistent filter-driven index of \<open>scan.rs\<close>, without
  its file format (\<open>Cbf_Scan_File\<close>). Heights are natural numbers, saturating at the largest 64-bit one
  where the source does; \<open>None\<close> is a panic.
\<close>

section \<open>Candidates in a block\<close>

record batch_candidate =
  bc_version :: batch_version
  bc_index :: u32
  bc_envelope :: "truncated_digest list"

record scanned_anchor =
  sa_location :: anchor_location
  sa_txid :: bytes
  sa_record :: anchor_record
  sa_ctx :: ctx
  sa_batch :: "batch_candidate option"

definition candidate_payload :: "cbf_tx \<Rightarrow> bytes option" where
  "candidate_payload tx = find_map (\<lambda>out. op_return_payload (cx_script_pubkey out)) (ct_outputs tx)"

definition first_envelope :: "cbf_tx \<Rightarrow> (batch_version \<times> truncated_digest list) option" where
  "first_envelope tx = (case ct_witnesses tx of [] \<Rightarrow> None | w # _ \<Rightarrow> witness_envelope_decode w)"

definition tx_anchors :: "sha256_fn \<Rightarrow> nat \<Rightarrow> nat \<Rightarrow> cbf_tx \<Rightarrow> scanned_anchor list" where
  "tx_anchors sha ht pos tx =
     (if is_coinbase tx then []
      else case ct_inputs tx of
        [] \<Rightarrow> []
      | funding # _ \<Rightarrow>
          (let ctx = cbf_funding_ctx sha (co_txid (ci_prev funding)) (co_vout (ci_prev funding)) in
           case candidate_payload tx of
             None \<Rightarrow> []
           | Some payload \<Rightarrow>
               (let found = from_bytes payload;
                    entry = (\<lambda>batch. \<lparr>sa_location = \<lparr>al_height = word_of_nat ht, al_position = word_of_nat pos\<rparr>,
                       sa_txid = tx_txid sha tx, sa_record = found, sa_ctx = ctx, sa_batch = batch\<rparr>)
                in case found of
                     BatchHeader _ _ \<Rightarrow>
                       (case first_envelope tx of
                          Some (version, envelope) \<Rightarrow>
                            map (\<lambda>i. entry (Some \<lparr>bc_version = version, bc_index = word_of_nat i, bc_envelope = envelope\<rparr>))
                              [0..<length envelope]
                        | None \<Rightarrow> [entry None])
                   | _ \<Rightarrow> [entry None])))"

definition anchors_in_block :: "sha256_fn \<Rightarrow> cbf_block \<Rightarrow> nat \<Rightarrow> scanned_anchor list" where
  "anchors_in_block sha block ht =
     concat (map (\<lambda>(pos, tx). tx_anchors sha ht pos tx) (enumerate 0 (cb_txs block)))"

definition binds :: "sponge \<Rightarrow> scanned_anchor \<Rightarrow> digest \<Rightarrow> bool" where
  "binds sp e raw_nf =
     (case sa_batch e of
        None \<Rightarrow> well_formed sp (sa_record e) (sa_ctx e) raw_nf
      | Some batch \<Rightarrow>
          versioned_envelope_occurrence sp (bc_version batch) (sa_record e) (bc_envelope batch) (sa_ctx e) raw_nf =
            Some (bc_index batch))"

section \<open>Queries over scanned candidates\<close>

text \<open>The two implementations of \<open>AnchorChain\<close> differ only in the list they search and their tip.\<close>

definition mempool_location :: anchor_location where
  "mempool_location = \<lparr>al_height = 0, al_position = 0\<rparr>"

definition entry_matches :: "anchor_ref \<Rightarrow> scanned_anchor \<Rightarrow> bool" where
  "entry_matches ref e \<longleftrightarrow>
     sa_txid e = ar_txid ref \<and> (sa_location e = ar_location ref \<or> ar_location ref = mempool_location)"

definition find_entry :: "scanned_anchor list \<Rightarrow> anchor_ref \<Rightarrow> scanned_anchor option" where
  "find_entry es ref = find (entry_matches ref) es"

definition scanned_proof_record_at ::
  "sponge \<Rightarrow> scanned_anchor list \<Rightarrow> anchor_ref \<Rightarrow> digest list \<Rightarrow> anchor_record option" where
  "scanned_proof_record_at sp es ref raw_nullifiers =
     (case raw_nullifiers of
        [raw_nf] \<Rightarrow>
          (case find (\<lambda>e. entry_matches ref e \<and> binds sp e raw_nf) es of
             None \<Rightarrow> None
           | Some e \<Rightarrow>
               (case sa_record e of
                  BatchHeader _ _ \<Rightarrow> xfer sp raw_nullifiers (sa_ctx e)
                | found \<Rightarrow> Some found))
      | _ \<Rightarrow> (case find_entry es ref of
          None \<Rightarrow> None
        | Some e \<Rightarrow> (case sa_record e of BatchHeader _ _ \<Rightarrow> None | found \<Rightarrow> Some found)))"

definition min_by_location :: "(anchor_location \<times> 'a) list \<Rightarrow> (anchor_location \<times> 'a) option" where
  "min_by_location xs =
     (case xs of [] \<Rightarrow> None
      | y # ys \<Rightarrow> Some (fold (\<lambda>x best. if fst x < fst best then x else best) ys y))"

definition binding_locations :: "sponge \<Rightarrow> scanned_anchor list \<Rightarrow> digest \<Rightarrow> anchor_location list" where
  "binding_locations sp es raw_nf = map sa_location (filter (\<lambda>e. binds sp e raw_nf) es)"

definition scanned_view :: "sponge \<Rightarrow> nat \<Rightarrow> scanned_anchor list \<Rightarrow> anchor_chain" where
  "scanned_view sp tip es =
     \<lparr>tip_height = word_of_nat tip,
      anchor_at = (\<lambda>ref. map_option sa_record (find_entry es ref)),
      proof_record_at = scanned_proof_record_at sp es,
      ctx_at = (\<lambda>ref. map_option sa_ctx (find_entry es ref)),
      locate = (\<lambda>ref. map_option sa_location (find_entry es ref)),
      first_nullifier_occurrence = (\<lambda>raw_nf. map_option fst (min_by_location (map (\<lambda>l. (l, ())) (binding_locations sp es raw_nf)))),
      nullifier_occurrences = (\<lambda>raw_nf. sort (binding_locations sp es raw_nf)),
      anchors_up_to = (\<lambda>h. map (\<lambda>e. (sa_location e, sa_record e)) (filter (\<lambda>e. al_height (sa_location e) \<le> h) es)),
      confirmations_at = default_confirmations_at (word_of_nat tip)\<rparr>"

section \<open>The window scan\<close>

definition MAX_WINDOW_BLOCKS :: nat where "MAX_WINDOW_BLOCKS = 2016"

record full_scan_chain =
  fs_window_start :: nat
  fs_window_end :: nat
  fs_entries :: "scanned_anchor list"

fun full_scan_loop :: "sha256_fn \<Rightarrow> nat list \<Rightarrow> scanned_anchor list \<Rightarrow> cbf_client \<Rightarrow> ((cbf_error + scanned_anchor list) \<times> cbf_client) option" where
  "full_scan_loop sha [] es cl = Some (Inr es, cl)"
| "full_scan_loop sha (ht # heights) es cl =
     (case block_hash_at cl ht of
        None \<Rightarrow> Some (Inl Consensus, cl)
      | Some block_hash \<Rightarrow>
          (case fetch_checked_block sha block_hash cl of
             None \<Rightarrow> None
           | Some (Inl e, cl) \<Rightarrow> Some (Inl e, cl)
           | Some (Inr block, cl) \<Rightarrow> full_scan_loop sha heights (es @ anchors_in_block sha block ht) cl))"

definition full_scan :: "sha256_fn \<Rightarrow> u64 \<Rightarrow> u64 \<Rightarrow> cbf_client \<Rightarrow> ((cbf_error + full_scan_chain) \<times> cbf_client) option" where
  "full_scan sha birth spend cl =
     (if birth = 0 then Some (Inl InvalidInput, cl)
      else if spend < birth then Some (Inl InvalidInput, cl)
      else case client_tip_height cl of
        None \<Rightarrow> None
      | Some tip \<Rightarrow>
          (if unat spend > tip then Some (Inl InvalidInput, cl)
           else if unat spend - unat birth + 1 > MAX_WINDOW_BLOCKS then Some (Inl InvalidInput, cl)
           else map_option (apfst (map_sum id (\<lambda>es. \<lparr>fs_window_start = unat birth, fs_window_end = unat spend, fs_entries = es\<rparr>)))
             (full_scan_loop sha [unat birth..<Suc (unat spend)] [] cl)))"

definition first_occurrence_in_window ::
  "sha256_fn \<Rightarrow> sponge \<Rightarrow> digest \<Rightarrow> u64 \<Rightarrow> u64 \<Rightarrow> cbf_client \<Rightarrow> ((cbf_error + (anchor_location \<times> ctx) option) \<times> cbf_client) option" where
  "first_occurrence_in_window sha sp raw_nf birth spend cl =
     map_option (apfst (map_sum id (\<lambda>scan.
        min_by_location (map (\<lambda>e. (sa_location e, sa_ctx e)) (filter (\<lambda>e. binds sp e raw_nf) (fs_entries scan))))))
       (full_scan sha birth spend cl)"

definition full_scan_view :: "sponge \<Rightarrow> full_scan_chain \<Rightarrow> anchor_chain" where
  "full_scan_view sp c = scanned_view sp (fs_window_end c) (fs_entries c)"

section \<open>The scan index\<close>

datatype scan_load_status = Fresh | Loaded | RebuildRequired

record scan_index =
  si_network :: network
  si_from_height :: nat
  si_synced_tip :: nat
  si_chain_hashes :: "bytes list"
  si_occurrences :: "scanned_anchor list"
  si_filters_bytes :: u64
  si_blocks_bytes :: u64
  si_blocks_fetched :: u64
  si_load_status :: scan_load_status

definition fetched_bytes :: "cbf_client \<Rightarrow> u64 \<times> u64" where
  "fetched_bytes cl =
     fold (\<lambda>p (f, b). (f + pe_filter_bytes_fetched p, b + pe_block_bytes_fetched p)) (cc_peers cl) (0, 0)"

text \<open>
  Reconciliation walks the stored lineage down from the common tip; the list holds the heights still to
  look at, highest first. The result is the common ancestor.
\<close>

fun reconcile_walk :: "nat \<Rightarrow> bytes list \<Rightarrow> (nat \<Rightarrow> bytes option) \<Rightarrow> nat list \<Rightarrow> cbf_error + nat" where
  "reconcile_walk from hashes canonical_hash [] = Inr (from - 1)"
| "reconcile_walk from hashes canonical_hash (ht # heights) =
     (if ht - from \<ge> length hashes then Inl Consensus
      else case canonical_hash ht of
        None \<Rightarrow> Inl Consensus
      | Some canonical \<Rightarrow>
          (if hashes ! (ht - from) = canonical then Inr ht
           else reconcile_walk from hashes canonical_hash heights))"

definition reconcile_chain_view :: "nat \<Rightarrow> (nat \<Rightarrow> bytes option) \<Rightarrow> scan_index \<Rightarrow> (cbf_error + unit) \<times> scan_index" where
  "reconcile_chain_view tip canonical_hash idx =
     (if si_chain_hashes idx = [] then (Inr (), idx)
      else
        (let from = si_from_height idx; common_tip = min (si_synced_tip idx) tip in
         case (if common_tip \<ge> from
               then reconcile_walk from (si_chain_hashes idx) canonical_hash (rev [from..<Suc common_tip])
               else Inr (from - 1)) of
           Inl e \<Rightarrow> (Inl e, idx)
         | Inr ancestor \<Rightarrow>
             (if ancestor < si_synced_tip idx then
                (Inr (), idx\<lparr>si_occurrences := filter (\<lambda>e. unat (al_height (sa_location e)) \<le> ancestor) (si_occurrences idx),
                   si_chain_hashes := take (if ancestor < from then 0 else ancestor - from + 1) (si_chain_hashes idx),
                   si_synced_tip := ancestor\<rparr>)
              else (Inr (), idx))))"

text \<open>One height of the synchronisation loop, then the loop. An error keeps what was indexed before it.\<close>

definition scan_height :: "sha256_fn \<Rightarrow> nat \<Rightarrow> scan_index \<Rightarrow> cbf_client \<Rightarrow> ((cbf_error + scan_index) \<times> cbf_client) option" where
  "scan_height sha ht idx cl =
     (case block_hash_at cl ht of
        None \<Rightarrow> Some (Inl Consensus, cl)
      | Some block_hash \<Rightarrow>
          (let done_with = (\<lambda>idx. idx\<lparr>si_chain_hashes := si_chain_hashes idx @ [block_hash], si_synced_tip := ht\<rparr>) in
           case filter_matches sha ht MARKER_SPK cl of
             None \<Rightarrow> None
           | Some (Inl e, cl) \<Rightarrow> Some (Inl e, cl)
           | Some (Inr current_marker, cl) \<Rightarrow>
               (case filter_matches sha ht LEGACY_MARKER_SPK cl of
                  None \<Rightarrow> None
                | Some (Inl e, cl) \<Rightarrow> Some (Inl e, cl)
                | Some (Inr legacy_marker, cl) \<Rightarrow>
                    (if current_marker \<or> legacy_marker then
                       map_option (apfst (map_sum id (\<lambda>block. done_with
                           (idx\<lparr>si_blocks_fetched := si_blocks_fetched idx + 1,
                                si_occurrences := si_occurrences idx @ anchors_in_block sha block ht\<rparr>))))
                         (fetch_checked_block sha block_hash cl)
                     else Some (Inr (done_with idx), cl)))))"

fun scan_loop :: "sha256_fn \<Rightarrow> nat list \<Rightarrow> scan_index \<Rightarrow> cbf_client \<Rightarrow> ((cbf_error + unit) \<times> scan_index \<times> cbf_client) option" where
  "scan_loop sha [] idx cl = Some (Inr (), idx, cl)"
| "scan_loop sha (ht # heights) idx cl =
     (case scan_height sha ht idx cl of
        None \<Rightarrow> None
      | Some (Inl e, cl) \<Rightarrow> Some (Inl e, idx, cl)
      | Some (Inr idx, cl) \<Rightarrow> scan_loop sha heights idx cl)"

text \<open>
  The synchronisation up to the write of the index file, with the index to write. The caller's write may
  still fail, which changes neither the index nor the client.
\<close>

definition scan_start :: "u64 \<Rightarrow> scan_index \<Rightarrow> scan_index" where
  "scan_start from_height idx =
     (let from_height = max (unat from_height) 1 in
      if si_from_height idx = 0 then idx\<lparr>si_from_height := from_height, si_synced_tip := from_height - 1\<rparr> else idx)"

definition add_fetched :: "cbf_client \<Rightarrow> cbf_client \<Rightarrow> scan_index \<Rightarrow> scan_index" where
  "add_fetched before after idx =
     (let (filters_before, blocks_before) = fetched_bytes before; (filters_after, blocks_after) = fetched_bytes after
      in idx\<lparr>si_filters_bytes := si_filters_bytes idx + (filters_after - filters_before),
             si_blocks_bytes := si_blocks_bytes idx + (blocks_after - blocks_before)\<rparr>)"

definition scan_sync :: "sha256_fn \<Rightarrow> u64 \<Rightarrow> scan_index \<Rightarrow> cbf_client \<Rightarrow> ((cbf_error + unit) \<times> scan_index \<times> cbf_client) option" where
  "scan_sync sha from_height idx cl =
     (let idx = scan_start from_height idx in
      case client_tip_height cl of
        None \<Rightarrow> None
      | Some tip \<Rightarrow>
          (case reconcile_chain_view tip (block_hash_at cl) idx of
             (Inl e, idx) \<Rightarrow> Some (Inl e, idx, cl)
           | (Inr _, idx) \<Rightarrow>
               (let next_height = max (min (si_synced_tip idx + 1) U64_MAX) (si_from_height idx) in
                map_option (\<lambda>(r, idx, cl'). (r, if is_ok r then add_fetched cl cl' idx else idx, cl'))
                  (scan_loop sha [next_height..<Suc tip] idx cl))))"

definition scan_check :: "sponge \<Rightarrow> digest \<Rightarrow> nat \<Rightarrow> nat \<Rightarrow> scan_index \<Rightarrow> (anchor_location \<times> ctx) option" where
  "scan_check sp raw_nf birth spend idx =
     min_by_location (map (\<lambda>e. (sa_location e, sa_ctx e))
       (filter (\<lambda>e. unat (al_height (sa_location e)) \<ge> birth \<and> unat (al_height (sa_location e)) \<le> spend \<and> binds sp e raw_nf)
          (si_occurrences idx)))"

definition scan_index_view :: "sponge \<Rightarrow> scan_index \<Rightarrow> anchor_chain" where
  "scan_index_view sp idx = scanned_view sp (si_synced_tip idx) (si_occurrences idx)"

end
