(* ===== verification/Cbf_Scan_File.thy ===== *)
theory Cbf_Scan_File
  imports Cbf_Scan Index_Text
begin

text \<open>
  The file of the scan index, \<open>crates/opencsv-cbf/src/scan.rs\<close>: its text format with a checksum, loading
  and persisting. A file read as text is \<open>Unreadable\<close> when it is not UTF-8. In the parser an inner \<open>None\<close>
  is the source's \<open>None\<close> (rebuild the index), the outer one a panic, which \<open>from_hex\<close> can raise.
\<close>

section \<open>Ending a parse\<close>

text \<open>The two ways a line can end the parse.\<close>

definition or_rebuild :: "'a option \<Rightarrow> ('a \<Rightarrow> 'b option option) \<Rightarrow> 'b option option" where
  "or_rebuild x f = (case x of None \<Rightarrow> Some None | Some y \<Rightarrow> f y)"

definition hex_field :: "ustring \<Rightarrow> (bytes \<Rightarrow> 'b option option) \<Rightarrow> 'b option option" where
  "hex_field s f = (case from_hex s of None \<Rightarrow> None | Some (Inl _) \<Rightarrow> Some None | Some (Inr bs) \<Rightarrow> f bs)"

definition sized :: "nat \<Rightarrow> bytes \<Rightarrow> bytes option" where
  "sized n bs = (if length bs = n then Some bs else None)"

section \<open>Parsing\<close>

definition MAGIC :: ustring where "MAGIC = lit ''opencsv-cbf-scan-index-v3''"

definition verified_body :: "sha256_fn \<Rightarrow> ustring \<Rightarrow> ustring option option" where
  "verified_body sha text =
     (if text = [] \<or> last text \<noteq> 10 then Some None
      else or_rebuild (rsplit_newline (butlast text)) (\<lambda>(body_without_newline, checksum_line).
        or_rebuild (strip_prefix (lit ''checksum '') checksum_line) (\<lambda>checksum.
        hex_field checksum (\<lambda>expected.
          (let body = body_without_newline @ [10] in
           Some (if expected = sha (as_bytes body) then Some body else None))))))"

record index_parse =
  ip_saw_network :: bool
  ip_from_height :: "nat option"
  ip_synced_tip :: "nat option"
  ip_chain_hashes :: "(nat \<times> bytes) list"
  ip_occurrences :: "scanned_anchor list"

definition parse_batch :: "ustring list \<Rightarrow> batch_candidate option option option" where
  "parse_batch rest =
     (case rest of
        [] \<Rightarrow> Some (Some None)
      | [kind, index, envelope] \<Rightarrow>
          (if kind \<noteq> lit ''batch'' \<and> kind \<noteq> lit ''batch1'' \<and> kind \<noteq> lit ''batch2'' then Some None
           else hex_field envelope (\<lambda>envelope_bytes.
             if length envelope_bytes mod 24 \<noteq> 0 then Some None
             else or_rebuild (parse_uint U32_MAX index) (\<lambda>i.
               Some (Some (Some \<lparr>bc_version = (if kind = lit ''batch2'' then V2 else V1), bc_index = word_of_nat i,
                 bc_envelope = chunks 24 envelope_bytes\<rparr>)))))
      | _ \<Rightarrow> Some None)"

definition parse_occurrence :: "ustring \<Rightarrow> ustring \<Rightarrow> ustring \<Rightarrow> ustring \<Rightarrow> ustring \<Rightarrow> ustring list \<Rightarrow> scanned_anchor option option" where
  "parse_occurrence h p txid ctx found rest =
     hex_field txid (\<lambda>txid. or_rebuild (sized 32 txid) (\<lambda>txid.
     (case parse_batch rest of
        None \<Rightarrow> None
      | Some batch \<Rightarrow> or_rebuild batch (\<lambda>batch.
          or_rebuild (parse_uint U64_MAX h) (\<lambda>h.
          or_rebuild (parse_uint U32_MAX p) (\<lambda>p.
          hex_field found (\<lambda>found. or_rebuild (sized 64 found) (\<lambda>found.
          hex_field ctx (\<lambda>ctx. or_rebuild (sized 32 ctx) (\<lambda>ctx.
          Some (Some \<lparr>sa_location = \<lparr>al_height = word_of_nat h, al_position = word_of_nat p\<rparr>, sa_txid = rev txid,
            sa_record = from_bytes found, sa_ctx = ctx, sa_batch = batch\<rparr>)))))))))))"

definition parse_line :: "network \<Rightarrow> ustring list \<Rightarrow> index_parse \<Rightarrow> index_parse option option" where
  "parse_line network toks s =
     (case toks of
        [tag, a] \<Rightarrow>
          (if tag = lit ''network'' then
             Some (if ip_saw_network s \<or> network_parse a \<noteq> Some network then None else Some (s\<lparr>ip_saw_network := True\<rparr>))
           else if tag = lit ''from'' \<and> ip_from_height s = None then Some (Some (s\<lparr>ip_from_height := parse_uint U64_MAX a\<rparr>))
           else if tag = lit ''tip'' \<and> ip_synced_tip s = None then Some (Some (s\<lparr>ip_synced_tip := parse_uint U64_MAX a\<rparr>))
           else Some None)
      | [tag, h, hash] \<Rightarrow>
          (if tag = lit ''block'' then
             or_rebuild (parse_uint U64_MAX h) (\<lambda>h.
             hex_field hash (\<lambda>bs. or_rebuild (sized 32 bs) (\<lambda>bs.
             Some (Some (s\<lparr>ip_chain_hashes := ip_chain_hashes s @ [(h, rev bs)]\<rparr>)))))
           else Some None)
      | tag # h # p # txid # ctx # found # rest \<Rightarrow>
          (if tag = lit ''occurrence'' then
             (case parse_occurrence h p txid ctx found rest of
                None \<Rightarrow> None
              | Some e \<Rightarrow> or_rebuild e (\<lambda>e. Some (Some (s\<lparr>ip_occurrences := ip_occurrences s @ [e]\<rparr>))))
           else Some None)
      | _ \<Rightarrow> Some None)"

fun parse_lines :: "network \<Rightarrow> ustring list \<Rightarrow> index_parse \<Rightarrow> index_parse option option" where
  "parse_lines network [] s = Some (Some s)"
| "parse_lines network (l # ls) s =
     (case parse_line network (split_whitespace l) s of
        None \<Rightarrow> None
      | Some None \<Rightarrow> Some None
      | Some (Some s) \<Rightarrow> parse_lines network ls s)"

fun out_of_order :: "scanned_anchor list \<Rightarrow> bool" where
  "out_of_order (a # b # es) = (sa_location b < sa_location a \<or> out_of_order (b # es))"
| "out_of_order _ = False"

definition check_parse :: "index_parse \<Rightarrow> (nat \<times> nat \<times> bytes list \<times> scanned_anchor list) option" where
  "check_parse s =
     (case (ip_from_height s, ip_synced_tip s) of
        (Some from, Some tip) \<Rightarrow>
          (if tip < from - 1 then None
           else if \<not> ip_saw_network s \<or> tip > 0 \<and> from = 0 \<or>
               list_ex (\<lambda>e. unat (al_height (sa_location e)) < from \<or> unat (al_height (sa_location e)) > tip) (ip_occurrences s) \<or>
               out_of_order (ip_occurrences s) \<or> length (ip_chain_hashes s) \<noteq> tip - (from - 1) \<or>
               list_ex (\<lambda>(i, h, _). from + i > U64_MAX \<or> from + i \<noteq> h) (enumerate 0 (ip_chain_hashes s))
           then None
           else Some (from, tip, map snd (ip_chain_hashes s), ip_occurrences s))
      | _ \<Rightarrow> None)"

definition decode_body :: "ustring \<Rightarrow> network \<Rightarrow> (nat \<times> nat \<times> bytes list \<times> scanned_anchor list) option option" where
  "decode_body body network =
     (case str_lines body of
        [] \<Rightarrow> Some None
      | l # ls \<Rightarrow>
          (if trim l \<noteq> MAGIC then Some None
           else case parse_lines network ls \<lparr>ip_saw_network = False, ip_from_height = None, ip_synced_tip = None,
                  ip_chain_hashes = [], ip_occurrences = []\<rparr> of
             None \<Rightarrow> None
           | Some s \<Rightarrow> or_rebuild s (\<lambda>s. Some (check_parse s))))"

section \<open>Loading and persisting\<close>

definition scan_index_new :: "network \<Rightarrow> scan_index" where
  "scan_index_new network =
     \<lparr>si_network = network, si_from_height = 0, si_synced_tip = 0, si_chain_hashes = [], si_occurrences = [],
      si_filters_bytes = 0, si_blocks_bytes = 0, si_blocks_fetched = 0, si_load_status = Fresh\<rparr>"

definition scan_index_open :: "sha256_fn \<Rightarrow> network \<Rightarrow> ustring file_read \<Rightarrow> (cbf_error + scan_index) option" where
  "scan_index_open sha network file =
     (let idx = scan_index_new network; rebuild = Some (Inr (idx\<lparr>si_load_status := RebuildRequired\<rparr>)) in
      case file of
        Absent \<Rightarrow> Some (Inr idx)
      | Unreadable \<Rightarrow> Some (Inl Io)
      | Contents text \<Rightarrow>
          (case verified_body sha text of
             None \<Rightarrow> None
           | Some None \<Rightarrow> rebuild
           | Some (Some body) \<Rightarrow>
               (case decode_body body network of
                  None \<Rightarrow> None
                | Some None \<Rightarrow> rebuild
                | Some (Some (from, tip, hashes, es)) \<Rightarrow>
                    Some (Inr (idx\<lparr>si_from_height := from, si_synced_tip := tip, si_chain_hashes := hashes,
                      si_occurrences := es, si_load_status := Loaded\<rparr>)))))"

definition block_line :: "nat \<Rightarrow> bytes \<Rightarrow> ustring" where
  "block_line ht hash = lit ''block '' @ decimal ht @ [32] @ hash_to_display hash @ [10]"

definition batch_fields :: "batch_candidate option \<Rightarrow> ustring" where
  "batch_fields batch =
     (case batch of
        None \<Rightarrow> []
      | Some b \<Rightarrow> [32] @ (case bc_version b of V1 \<Rightarrow> lit ''batch1'' | V2 \<Rightarrow> lit ''batch2'') @ [32] @
          decimal (unat (bc_index b)) @ [32] @ to_hex (concat (bc_envelope b)))"

definition occurrence_line :: "scanned_anchor \<Rightarrow> ustring" where
  "occurrence_line e =
     lit ''occurrence '' @ decimal (unat (al_height (sa_location e))) @ [32] @ decimal (unat (al_position (sa_location e))) @ [32] @
     hash_to_display (sa_txid e) @ [32] @ to_hex (sa_ctx e) @ [32] @ to_hex (to_bytes (sa_record e)) @ batch_fields (sa_batch e) @ [10]"

definition index_body :: "scan_index \<Rightarrow> ustring" where
  "index_body idx =
     MAGIC @ [10] @ lit ''network '' @ network_name (si_network idx) @ [10] @ lit ''from '' @ decimal (si_from_height idx) @ [10] @
     lit ''tip '' @ decimal (si_synced_tip idx) @ [10] @
     concat (map (\<lambda>(i, hash). block_line (si_from_height idx + i) hash) (enumerate 0 (si_chain_hashes idx))) @
     concat (map occurrence_line (si_occurrences idx))"

text \<open>\<open>None\<close> is the panic when a height of the lineage leaves the 64-bit range.\<close>

definition scan_index_persist :: "sha256_fn \<Rightarrow> scan_index \<Rightarrow> ustring option" where
  "scan_index_persist sha idx =
     (if si_chain_hashes idx \<noteq> [] \<and> si_from_height idx + (length (si_chain_hashes idx) - 1) > U64_MAX then None
      else Some (index_body idx @ lit ''checksum '' @ to_hex (sha (as_bytes (index_body idx))) @ [10]))"

definition atomic_write :: "disk_write \<Rightarrow> ustring \<Rightarrow> ustring file_read \<Rightarrow> (cbf_error + unit) \<times> ustring file_read" where
  "atomic_write disk text file =
     (case disk of DiskOk \<Rightarrow> (Inr (), Contents text) | DiskFailed \<Rightarrow> (Inl Io, file) | DiskUnsynced \<Rightarrow> (Inl Io, Contents text))"

text \<open>The whole \<open>scan_sync\<close>: the scan, then the write of the index.\<close>

definition scan_sync_persist ::
  "sha256_fn \<Rightarrow> disk_write \<Rightarrow> u64 \<Rightarrow> scan_index \<Rightarrow> cbf_client \<Rightarrow> ustring file_read \<Rightarrow> ((cbf_error + unit) \<times> scan_index \<times> cbf_client \<times> ustring file_read) option" where
  "scan_sync_persist sha disk from_height idx cl file =
     (case scan_sync sha from_height idx cl of
        None \<Rightarrow> None
      | Some (Inl e, idx, cl) \<Rightarrow> Some (Inl e, idx, cl, file)
      | Some (Inr _, idx, cl) \<Rightarrow>
          map_option (\<lambda>text. let (r, file) = atomic_write disk text file in (r, idx, cl, file)) (scan_index_persist sha idx))"

end
