(* ===== verification/Cbf_Scan_Proofs.thy ===== *)
theory Cbf_Scan_Proofs
  imports Cbf_Scan Cbf_Client_Proofs
begin

text \<open>
  What the scans promise. Both are occurrence views of the candidates they hold; the window scan holds
  the candidates of one committed block per height of its window; the index follows the verified chain
  through reorganisations and accounts for every height it has checked.
\<close>

section \<open>Candidates are apart\<close>

text \<open>Two candidates lie at different locations or cannot bind the same nullifier.\<close>

definition apart :: "sponge \<Rightarrow> scanned_anchor \<Rightarrow> scanned_anchor \<Rightarrow> bool" where
  "apart sp a b \<longleftrightarrow> sa_location a < sa_location b \<or>
     sa_location a = sa_location b \<and> (\<forall>nf. \<not> (binds sp a nf \<and> binds sp b nf))"

definition entries_apart :: "sponge \<Rightarrow> scanned_anchor list \<Rightarrow> bool" where
  "entries_apart sp es \<longleftrightarrow> sorted_wrt (apart sp) es"

definition entries_occ :: "sponge \<Rightarrow> scanned_anchor list \<Rightarrow> digest \<Rightarrow> anchor_location set" where
  "entries_occ sp es nf = sa_location ` {e \<in> set es. binds sp e nf}"

lemma min_by_location_Min:
  "map_option fst (min_by_location xs) = (if xs = [] then None else Some (Min (fst ` set xs)))"
proof (cases xs)
  case (Cons y ys)
  have "fst (fold (\<lambda>x best. if fst x < fst best then x else best) ys y) = Min (insert (fst y) (fst ` set ys))"
  proof (induction ys arbitrary: y)
    case (Cons x ys)
    have "Min (insert (fst y) (insert (fst x) (fst ` set ys))) = Min (insert (if fst x < fst y then fst x else fst y) (fst ` set ys))"
      by (cases "ys = []") (auto simp: min_def insert_commute)
    then show ?case by (simp add: Cons.IH if_distrib)
  qed simp
  then show ?thesis by (simp add: Cons min_by_location_def)
qed (simp add: min_by_location_def)

lemma set_binding_locations: "set (binding_locations sp es nf) = entries_occ sp es nf"
  by (auto simp: binding_locations_def entries_occ_def)

lemma binding_locations_strict: "entries_apart sp es \<Longrightarrow> sorted_wrt (<) (binding_locations sp es nf)"
  unfolding entries_apart_def binding_locations_def
  by (induction es) (auto simp: apart_def)

lemma scanned_occurrences:
  assumes "entries_apart sp es"
  shows "nullifier_occurrences (scanned_view sp tip es) nf = sorted_list_of_set (entries_occ sp es nf)"
proof -
  have "sort (binding_locations sp es nf) = sorted_list_of_set (set (binding_locations sp es nf))"
    using binding_locations_strict [OF assms, of nf]
    by (simp add: strict_sorted_iff sorted_list_of_set_sort_remdups distinct_remdups_id)
  then show ?thesis by (simp add: scanned_view_def set_binding_locations)
qed

lemma scanned_first:
  "first_nullifier_occurrence (scanned_view sp tip es) nf =
     (if entries_occ sp es nf = {} then None else Some (Min (entries_occ sp es nf)))"
  using set_binding_locations [of sp es nf]
  by (auto simp: scanned_view_def min_by_location_Min image_image)

interpretation window: occurrence_view "full_scan_view sp" "\<lambda>c. entries_apart sp (fs_entries c)" "\<lambda>c. entries_occ sp (fs_entries c)" for sp
  by unfold_locales (auto simp: full_scan_view_def scanned_occurrences scanned_first, auto simp: entries_occ_def)

interpretation index: occurrence_view "scan_index_view sp" "\<lambda>c. entries_apart sp (si_occurrences c)" "\<lambda>c. entries_occ sp (si_occurrences c)" for sp
  by unfold_locales (auto simp: scan_index_view_def scanned_occurrences scanned_first, auto simp: entries_occ_def)

section \<open>Blocks give candidates that are apart\<close>

lemma tx_anchors_location:
  "e \<in> set (tx_anchors sha ht pos tx) \<Longrightarrow> sa_location e = \<lparr>al_height = word_of_nat ht, al_position = word_of_nat pos\<rparr>"
  by (auto simp: tx_anchors_def Let_def split: if_splits list.splits option.splits anchor_record.splits)

lemma batch_candidates_exclusive:
  assumes "i < j" "binds sp (e\<lparr>sa_batch := Some \<lparr>bc_version = v, bc_index = word_of_nat i, bc_envelope = env\<rparr>\<rparr>) nf"
    and "binds sp (e\<lparr>sa_batch := Some \<lparr>bc_version = v, bc_index = word_of_nat j, bc_envelope = env\<rparr>\<rparr>) nf" "j < length env"
  shows False
proof (cases "sa_record e")
  case (BatchHeader n c)
  with assms have "length env = unat n" "word_of_nat i = (word_of_nat j :: u32)"
    by (auto simp: binds_def split: if_splits)
  moreover have "unat n < 256" using unsigned_less [of n] by simp
  ultimately show False using assms(1,4) by (simp add: word_of_nat_eq_iff take_bit_eq_mod)
qed (use assms in \<open>simp_all add: binds_def\<close>)

lemma tx_anchors_apart: "sorted_wrt (apart sp) (tx_anchors sha ht pos tx)"
proof -
  have "sorted_wrt (apart sp) (map (\<lambda>i. e\<lparr>sa_batch := Some \<lparr>bc_version = v, bc_index = word_of_nat i, bc_envelope = env\<rparr>\<rparr>) [0..<length env])" for e v env
    by (auto simp: sorted_wrt_map sorted_wrt_iff_nth_less apart_def dest: batch_candidates_exclusive)
  from this [where e = "\<lparr>sa_location = l, sa_txid = t, sa_record = r, sa_ctx = c, sa_batch = b\<rparr>" for l t r c b]
  show ?thesis
    by (auto simp: tx_anchors_def Let_def split: list.splits option.splits anchor_record.splits)
qed

lemma anchors_in_block_mem:
  "e \<in> set (anchors_in_block sha b ht) \<longleftrightarrow> (\<exists>pos < length (cb_txs b). e \<in> set (tx_anchors sha ht pos (cb_txs b ! pos)))"
  by (force simp: anchors_in_block_def in_set_enumerate_eq)

lemma sorted_wrt_concat:
  "sorted_wrt R (concat xss) \<longleftrightarrow> list_all (sorted_wrt R) xss \<and> sorted_wrt (\<lambda>xs ys. \<forall>x \<in> set xs. \<forall>y \<in> set ys. R x y) xss"
  by (induction xss) (auto simp: sorted_wrt_append)

lemma anchors_in_block_apart:
  assumes "length (cb_txs b) \<le> 2 ^ 32"
  shows "sorted_wrt (apart sp) (anchors_in_block sha b ht)"
proof -
  have "apart sp x y" if "i < j" "j < length (cb_txs b)" "x \<in> set (tx_anchors sha ht i t)" "y \<in> set (tx_anchors sha ht j u)" for i j t u x y
    using that assms by (simp add: apart_def location_less_iff tx_anchors_location word_less_nat_alt unat_of_nat)
  then have "sorted_wrt (\<lambda>xs ys. \<forall>x \<in> set xs. \<forall>y \<in> set ys. apart sp x y) (map (\<lambda>(pos, tx). tx_anchors sha ht pos tx) (enumerate 0 (cb_txs b)))"
    unfolding sorted_wrt_iff_nth_less by (auto simp: nth_enumerate_eq)
  then show ?thesis by (auto simp: anchors_in_block_def sorted_wrt_concat list_all_iff tx_anchors_apart)
qed

section \<open>The window scan\<close>

lemma fetch_block_loop_size: "fetch_block_loop sha h e ps = Some (Inr b, qs) \<Longrightarrow> length (cb_txs b) \<le> 1000000"
proof (induction sha h e ps arbitrary: qs rule: fetch_block_loop.induct)
  case (2 sha h e p ps)
  then show ?case by (fastforce split: prod.splits sum.splits dest: get_block_ok simp: block_ok_def)
qed auto

lemma fetch_checked_block_size: "fetch_checked_block sha h cl = Some (Inr b, cl') \<Longrightarrow> length (cb_txs b) \<le> 1000000"
  by (auto simp: fetch_checked_block_def fetch_block_def split: option.splits prod.splits sum.splits if_splits
      dest: fetch_block_loop_size)

text \<open>A block the client may have read for a height of its verified chain.\<close>

definition read_at :: "sha256_fn \<Rightarrow> header_chain \<Rightarrow> nat \<Rightarrow> cbf_block \<Rightarrow> bool" where
  "read_at sha chain ht b \<longleftrightarrow>
     (\<exists>h. hash_at chain ht = Some h \<and> committed_block sha h b) \<and> length (cb_txs b) \<le> 1000000"

definition block_anchors :: "sha256_fn \<Rightarrow> (nat \<times> cbf_block) list \<Rightarrow> scanned_anchor list" where
  "block_anchors sha hbs = concat (map (\<lambda>(ht, b). anchors_in_block sha b ht) hbs)"

lemma fetch_checked_block_read:
  "fetch_checked_block sha h cl = Some (Inr b, cl') \<Longrightarrow> hash_at (cc_chain cl) ht = Some h \<Longrightarrow> read_at sha (cc_chain cl) ht b"
  by (auto simp: read_at_def dest: fetch_checked_block_ok fetch_checked_block_size)

lemma full_scan_loop_ok:
  "full_scan_loop sha hts es cl = Some (Inr r, cl') \<Longrightarrow>
     \<exists>bs. list_all2 (read_at sha (cc_chain cl)) hts bs \<and> r = es @ block_anchors sha (zip hts bs) \<and> same_chains cl cl'"
proof (induction hts arbitrary: es cl)
  case (Cons ht hts)
  from Cons.prems obtain h b cl1 where h: "hash_at (cc_chain cl) ht = Some h" and b: "fetch_checked_block sha h cl = Some (Inr b, cl1)"
    and r: "full_scan_loop sha hts (es @ anchors_in_block sha b ht) cl1 = Some (Inr r, cl')"
    by (auto simp: block_hash_at_def split: option.splits prod.splits sum.splits)
  have s: "same_chains cl cl1" using fetch_checked_block_same b by blast
  obtain bs where "list_all2 (read_at sha (cc_chain cl1)) hts bs" "r = (es @ anchors_in_block sha b ht) @ block_anchors sha (zip hts bs)"
    "same_chains cl1 cl'" using Cons.IH [OF r] by blast
  with s fetch_checked_block_read [OF b h] show ?case
    by (intro exI [of _ "b # bs"]) (auto simp: same_chains_def block_anchors_def)
qed (auto simp: same_chains_def block_anchors_def)

lemma location_of_anchor: "e \<in> set (anchors_in_block sha b ht) \<Longrightarrow> al_height (sa_location e) = word_of_nat ht"
  by (auto simp: anchors_in_block_mem tx_anchors_location)

lemma block_anchors_apart:
  assumes "sorted_wrt (<) (map fst hbs)" "\<forall>(ht, b) \<in> set hbs. ht < 2 ^ 64 \<and> length (cb_txs b) \<le> 2 ^ 32"
  shows "entries_apart sp (block_anchors sha hbs)"
proof -
  have "apart sp x y" if "ht < ht'" "ht' < 2 ^ 64" "x \<in> set (anchors_in_block sha b ht)" "y \<in> set (anchors_in_block sha b' ht')" for ht ht' b b' x y
    using that by (simp add: apart_def location_less_iff location_of_anchor word_less_nat_alt unat_of_nat)
  with assms show ?thesis unfolding entries_apart_def block_anchors_def
    by (induction hbs) (fastforce simp: sorted_wrt_append anchors_in_block_apart)+
qed

lemma map_sum_Inr_iff: "map_sum f g x = Inr y \<longleftrightarrow> (\<exists>z. x = Inr z \<and> y = g z)"
  by (cases x) auto

lemma full_scan_ok:
  assumes "full_scan sha birth spend cl = Some (Inr c, cl')"
  obtains bs where "list_all2 (read_at sha (cc_chain cl)) [unat birth..<Suc (unat spend)] bs"
    "fs_entries c = block_anchors sha (zip [unat birth..<Suc (unat spend)] bs)" "fs_window_end c = unat spend"
    "fs_window_start c = unat birth" "same_chains cl cl'" "0 < unat birth"
    "\<And>sp. entries_apart sp (fs_entries c)"
proof -
  let ?hts = "[unat birth..<Suc (unat spend)]"
  from assms obtain es where l: "full_scan_loop sha ?hts [] cl = Some (Inr es, cl')"
    and c: "c = \<lparr>fs_window_start = unat birth, fs_window_end = unat spend, fs_entries = es\<rparr>" and pos: "birth \<noteq> 0"
    by (auto simp: full_scan_def map_sum_Inr_iff split: if_splits option.splits)
  from full_scan_loop_ok [OF l] obtain bs where bs: "list_all2 (read_at sha (cc_chain cl)) ?hts bs"
    "es = block_anchors sha (zip ?hts bs)" "same_chains cl cl'" by auto
  have len: "length bs = length ?hts" using bs(1) by (auto dest: list_all2_lengthD)
  have "ht < 2 ^ 64 \<and> length (cb_txs b) \<le> 2 ^ 32" if "(ht, b) \<in> set (zip ?hts bs)" for ht b
  proof -
    have "read_at sha (cc_chain cl) ht b" using bs(1) that by (auto simp: list_all2_iff)
    moreover have "ht \<le> unat spend" using set_zip_leftD [OF that] by auto
    moreover have "unat spend < 2 ^ 64" using unsigned_less [of spend] by simp
    ultimately show ?thesis by (simp add: read_at_def)
  qed
  then have "entries_apart sp es" for sp unfolding bs(2)
    by (intro block_anchors_apart) (auto simp: len simp del: upt_Suc)
  with bs c pos that show thesis by (simp add: unat_gt_0)
qed

section \<open>The index: one synchronisation\<close>

text \<open>The client answered no to both markers at a height, with the chains it had at the start.\<close>

definition unmarked_in :: "sha256_fn \<Rightarrow> cbf_client \<Rightarrow> nat \<Rightarrow> bool" where
  "unmarked_in sha cl ht \<longleftrightarrow>
     (\<forall>spk \<in> {MARKER_SPK, LEGACY_MARKER_SPK}. \<exists>cl1 cl2. same_chains cl cl1 \<and> filter_matches sha ht spk cl1 = Some (Inr False, cl2))"

text \<open>What a scan of the heights from \<open>n\<close> below \<open>m\<close> read: blocks in order, and no marker elsewhere.\<close>

definition scan_log :: "sha256_fn \<Rightarrow> cbf_client \<Rightarrow> nat \<Rightarrow> nat \<Rightarrow> (nat \<times> cbf_block) list \<Rightarrow> bool" where
  "scan_log sha cl n m hbs \<longleftrightarrow>
     sorted_wrt (<) (map fst hbs) \<and> (\<forall>(ht, b) \<in> set hbs. n \<le> ht \<and> ht < m \<and> read_at sha (cc_chain cl) ht b) \<and>
     (\<forall>ht. n \<le> ht \<and> ht < m \<and> ht \<notin> fst ` set hbs \<longrightarrow> unmarked_in sha cl ht)"

definition scanned_range :: "sha256_fn \<Rightarrow> cbf_client \<Rightarrow> nat \<Rightarrow> nat \<Rightarrow> scan_index \<Rightarrow> scan_index \<Rightarrow> bool" where
  "scanned_range sha cl n m idx idx' \<longleftrightarrow>
     n \<le> m \<and> si_from_height idx' = si_from_height idx \<and>
     si_chain_hashes idx' = si_chain_hashes idx @ map (\<lambda>ht. hc_hashes (cc_chain cl) ! ht) [n..<m] \<and>
     (n < m \<longrightarrow> m \<le> length (hc_hashes (cc_chain cl))) \<and>
     si_synced_tip idx' = (if n = m then si_synced_tip idx else m - 1) \<and>
     (\<exists>hbs. si_occurrences idx' = si_occurrences idx @ block_anchors sha hbs \<and> scan_log sha cl n m hbs)"

lemma unmarked_in_same: "same_chains cl cl' \<Longrightarrow> unmarked_in sha cl' ht \<Longrightarrow> unmarked_in sha cl ht"
  unfolding unmarked_in_def by (meson same_chains_trans)

lemma scan_log_same: "same_chains cl cl' \<Longrightarrow> scan_log sha cl' n m hbs \<Longrightarrow> scan_log sha cl n m hbs"
  using unmarked_in_same [of cl cl' sha] by (auto simp: scan_log_def same_chains_def)

lemma scanned_range_same: "same_chains cl cl' \<Longrightarrow> scanned_range sha cl' n m idx idx' \<Longrightarrow> scanned_range sha cl n m idx idx'"
  using scan_log_same [of cl cl' sha] by (auto simp: scanned_range_def same_chains_def)

lemma scan_log_append:
  assumes "scan_log sha cl n m as" "scan_log sha cl m k bs" "n \<le> m" "m \<le> k"
  shows "scan_log sha cl n k (as @ bs)"
proof -
  have "fst x < fst y" if "x \<in> set as" "y \<in> set bs" for x y
    using assms that by (fastforce simp: scan_log_def)
  then have "sorted_wrt (<) (map fst (as @ bs))" using assms by (auto simp: scan_log_def sorted_wrt_append)
  moreover have "n \<le> ht \<and> ht < k \<and> read_at sha (cc_chain cl) ht b" if "(ht, b) \<in> set (as @ bs)" for ht b
    using assms that by (fastforce simp: scan_log_def)
  moreover have "unmarked_in sha cl ht" if "n \<le> ht" "ht < k" "ht \<notin> fst ` set (as @ bs)" for ht
    using assms that by (cases "ht < m") (auto simp: scan_log_def image_Un not_less)
  ultimately show ?thesis unfolding scan_log_def by blast
qed

lemma scanned_range_refl: "scanned_range sha cl n n idx idx"
  by (simp add: scanned_range_def) (intro exI [of _ "[]"], auto simp: scan_log_def block_anchors_def)

lemma scanned_range_trans:
  assumes "scanned_range sha cl n m idx a" "scanned_range sha cl m k a b"
  shows "scanned_range sha cl n k idx b"
proof -
  from assms obtain as bs where
    "si_occurrences a = si_occurrences idx @ block_anchors sha as" "scan_log sha cl n m as"
    "si_occurrences b = si_occurrences a @ block_anchors sha bs" "scan_log sha cl m k bs" and le: "n \<le> m" "m \<le> k"
    by (auto simp: scanned_range_def)
  then have "si_occurrences b = si_occurrences idx @ block_anchors sha (as @ bs) \<and> scan_log sha cl n k (as @ bs)"
    by (simp add: scan_log_append block_anchors_def)
  moreover have "[n..<k] = [n..<m] @ [m..<k]" using le upt_add_eq_append [of n m "k - m"] by simp
  ultimately show ?thesis using assms le by (auto simp: scanned_range_def)
qed

lemma scan_height_ok:
  assumes "scan_height sha ht idx cl = Some (r, cl')"
  shows "same_chains cl cl'" "r = Inr idx' \<Longrightarrow> scanned_range sha cl ht (Suc ht) idx idx'"
proof -
  note split = option.splits prod.splits sum.splits if_splits
  show "same_chains cl cl'" using assms
    by (auto simp: scan_height_def Let_def same_chains_def split: split
        dest!: filter_matches_same fetch_checked_block_same)
  assume r: "r = Inr idx'"
  with assms obtain h cl1 cl2 cm lm where h: "hash_at (cc_chain cl) ht = Some h"
    and cm: "filter_matches sha ht MARKER_SPK cl = Some (Inr cm, cl1)" and lm: "filter_matches sha ht LEGACY_MARKER_SPK cl1 = Some (Inr lm, cl2)"
    by (auto simp: scan_height_def Let_def block_hash_at_def split: option.splits prod.splits sum.splits)
  have s1: "same_chains cl cl1" using filter_matches_same [OF cm] .
  have s2: "same_chains cl cl2" using same_chains_trans [OF s1 filter_matches_same [OF lm]] .
  have hash: "hc_hashes (cc_chain cl) ! ht = h" "ht < length (hc_hashes (cc_chain cl))"
    using h by (auto simp: hash_at_def split: if_splits)
  show "scanned_range sha cl ht (Suc ht) idx idx'"
  proof (cases "cm \<or> lm")
    case True
    with assms r h cm lm obtain b where b: "fetch_checked_block sha h cl2 = Some (Inr b, cl')"
      and idx': "idx' = idx\<lparr>si_blocks_fetched := si_blocks_fetched idx + 1,
         si_occurrences := si_occurrences idx @ anchors_in_block sha b ht, si_chain_hashes := si_chain_hashes idx @ [h], si_synced_tip := ht\<rparr>"
      by (auto simp: scan_height_def Let_def block_hash_at_def map_sum_Inr_iff)
    have "read_at sha (cc_chain cl) ht b" using fetch_checked_block_read [OF b] h s2 by (simp add: same_chains_def)
    then show ?thesis unfolding scanned_range_def
      by (intro conjI exI [of _ "[(ht, b)]"]) (use hash in \<open>auto simp: idx' block_anchors_def scan_log_def\<close>)
  next
    case False
    then have "unmarked_in sha cl ht" using cm lm s1 by (auto simp: unmarked_in_def same_chains_def)
    moreover have "idx' = idx\<lparr>si_chain_hashes := si_chain_hashes idx @ [h], si_synced_tip := ht\<rparr>"
      using assms r h cm lm False by (auto simp: scan_height_def Let_def block_hash_at_def)
    ultimately show ?thesis unfolding scanned_range_def
      by (intro conjI exI [of _ "[]"]) (use hash in \<open>auto simp: block_anchors_def scan_log_def le_less_Suc_eq\<close>)
  qed
qed

lemma scan_loop_ok:
  "scan_loop sha [n..<k] idx cl = Some (r, idx', cl') \<Longrightarrow>
     same_chains cl cl' \<and> (\<exists>m. m \<le> max n k \<and> (r = Inr () \<longrightarrow> m = max n k) \<and> scanned_range sha cl n m idx idx')"
proof (induction "k - n" arbitrary: n idx cl)
  case 0
  then show ?case by (auto simp: same_chains_def max_def scanned_range_refl intro!: exI [of _ n])
next
  case (Suc d)
  then have n: "n < k" by simp
  obtain q cl1 where q: "scan_height sha n idx cl = Some (q, cl1)"
    using Suc.prems n by (cases "scan_height sha n idx cl") (auto simp: upt_rec)
  note s = scan_height_ok [OF q]
  show ?case
  proof (cases q)
    case (Inl e)
    then have "r = Inl e" "idx' = idx" "cl' = cl1" using Suc.prems n q by (auto simp: upt_rec)
    then show ?thesis using s(1) by (auto simp: scanned_range_refl intro!: exI [of _ n])
  next
    case (Inr a)
    then have l: "scan_loop sha [Suc n..<k] a cl1 = Some (r, idx', cl')" using Suc.prems n q by (simp add: upt_rec)
    then obtain m where "same_chains cl1 cl'" "m \<le> max (Suc n) k" "r = Inr () \<longrightarrow> m = max (Suc n) k" "scanned_range sha cl1 (Suc n) m a idx'"
      using Suc.hyps(1) [of "Suc n"] Suc.hyps(2) by fastforce
    moreover have "max (Suc n) k = max n k" using n by simp
    moreover have "scanned_range sha cl n m idx idx'"
      using scanned_range_trans [OF s(2) [OF Inr] scanned_range_same [OF s(1)]] calculation by blast
    ultimately show ?thesis using same_chains_trans [OF s(1)] by auto
  qed
qed

section \<open>Properties of the window scan\<close>

lemma min_by_location_sorted: "sorted_wrt (<) (map fst (x # xs)) \<Longrightarrow> min_by_location (x # xs) = Some x"
proof -
  assume "sorted_wrt (<) (map fst (x # xs))"
  then have "fold (\<lambda>y best. if fst y < fst best then y else best) xs x = x"
    by (induction xs) (auto simp: not_less_iff_gr_or_eq)
  then show ?thesis by (simp add: min_by_location_def)
qed

text \<open>
  The self-scan without an indexer is exact: when it returns, there is one block per height
  of the window, each committed to by the verified header at that height through its hash and merkle root,
  and the answer is the location and context of the first candidate of these blocks that binds the
  nullifier, in the order of the chain, or nothing exactly when none does. At most one candidate binds it at
  any location.
\<close>

theorem window_scan_exact:
  assumes "first_occurrence_in_window sha sp nf birth spend cl = Some (Inr r, cl')"
  shows "\<exists>bs. list_all2 (read_at sha (cc_chain cl)) [unat birth..<Suc (unat spend)] bs \<and>
    (let hits = filter (\<lambda>e. binds sp e nf) (block_anchors sha (zip [unat birth..<Suc (unat spend)] bs)) in
     sorted_wrt (<) (map sa_location hits) \<and> r = (case hits of [] \<Rightarrow> None | e # _ \<Rightarrow> Some (sa_location e, sa_ctx e)))"
proof -
  from assms obtain c where c: "full_scan sha birth spend cl = Some (Inr c, cl')"
    and r: "r = min_by_location (map (\<lambda>e. (sa_location e, sa_ctx e)) (filter (\<lambda>e. binds sp e nf) (fs_entries c)))"
    by (auto simp: first_occurrence_in_window_def map_sum_Inr_iff)
  from full_scan_ok [OF c] obtain bs where bs: "list_all2 (read_at sha (cc_chain cl)) [unat birth..<Suc (unat spend)] bs"
    "fs_entries c = block_anchors sha (zip [unat birth..<Suc (unat spend)] bs)" and apart: "\<And>sp. entries_apart sp (fs_entries c)" by metis
  let ?hits = "filter (\<lambda>e. binds sp e nf) (fs_entries c)"
  have s: "sorted_wrt (<) (map sa_location ?hits)"
    using binding_locations_strict [OF apart, where nf = nf] by (simp add: binding_locations_def)
  have "r = (case ?hits of [] \<Rightarrow> None | e # _ \<Rightarrow> Some (sa_location e, sa_ctx e))"
  proof (cases ?hits)
    case (Cons e es)
    with s min_by_location_sorted [of "(sa_location e, sa_ctx e)" "map (\<lambda>e. (sa_location e, sa_ctx e)) es"] show ?thesis
      by (simp add: r o_def)
  qed (simp add: r min_by_location_def)
  with bs s show ?thesis unfolding Let_def by (intro exI [of _ bs]) (simp only: simp_thms)
qed

lemma demo_window:
  "\<exists>r cl'. first_occurrence_in_window demo_sha sp nf 1 1
     (demo_client (map Some (frame demo_sha 0xdab5bffa ''block'' (block_bytes [False] demo_block))) f) = Some (Inr r, cl')"
proof -
  obtain cl where "fetch_checked_block demo_sha demo_block_hash
    (demo_client (map Some (frame demo_sha 0xdab5bffa ''block'' (block_bytes [False] demo_block))) f) = Some (Inr demo_block, cl)"
    using demo_fetch_block by blast
  then show ?thesis
    by (simp add: first_occurrence_in_window_def full_scan_def demo_client_tip block_hash_at_def MAX_WINDOW_BLOCKS_def)
qed

theorem window_scan_exact_witness:
  "\<exists>cl r cl' bs. first_occurrence_in_window demo_sha zero_sponge (replicate 32 0) 1 1 cl = Some (Inr r, cl') \<and>
     list_all2 (read_at demo_sha (cc_chain cl)) [1..<2] bs \<and>
     r = (case filter (\<lambda>e. binds zero_sponge e (replicate 32 0)) (block_anchors demo_sha (zip [1..<2] bs)) of
        [] \<Rightarrow> None | e # _ \<Rightarrow> Some (sa_location e, sa_ctx e))"
proof -
  let ?cl = "demo_client (map Some (frame demo_sha 0xdab5bffa ''block'' (block_bytes [False] demo_block))) []"
  obtain r cl' where f: "first_occurrence_in_window demo_sha zero_sponge (replicate 32 0) 1 1 ?cl = Some (Inr r, cl')" using demo_window by blast
  have two: "[unat (1 :: u64)..<Suc (unat (1 :: u64))] = [1..<2]" by (simp add: numeral_2_eq_2)
  from window_scan_exact [OF f, unfolded Let_def two] f show ?thesis by blast
qed

section \<open>Witness data is not committed\<close>

definition without_witnesses :: "cbf_block \<Rightarrow> cbf_block" where
  "without_witnesses b = b\<lparr>cb_txs := map (\<lambda>t. t\<lparr>ct_witnesses := []\<rparr>) (cb_txs b)\<rparr>"

lemma stripped_committed: "committed_block sha h (without_witnesses b) \<longleftrightarrow> committed_block sha h b"
  by (simp add: committed_block_def without_witnesses_def compute_merkle_root_def tx_txid_def [abs_def] serialize_legacy_def o_def)

lemma stripped_tx_binds_nothing:
  assumes "e \<in> set (tx_anchors sha ht pos tx)" "sa_batch e = Some batch" "e' \<in> set (tx_anchors sha ht pos (tx\<lparr>ct_witnesses := []\<rparr>))"
  shows "\<not> binds sp e' nf"
proof -
  obtain payload n c where p: "candidate_payload tx = Some payload" "from_bytes payload = BatchHeader n c"
    using assms(1,2) by (cases "candidate_payload tx"; cases "from_bytes (the (candidate_payload tx))")
      (auto simp: tx_anchors_def Let_def split: if_splits list.splits)
  then have "sa_record e' = BatchHeader n c \<and> sa_batch e' = None"
    using assms(3) by (auto simp: tx_anchors_def candidate_payload_def first_envelope_def Let_def split: if_splits list.splits)
  then show ?thesis by (simp add: binds_def well_formed_iff_slot)
qed

text \<open>
  Claim C21. The merkle check does not cover the witness data that batch envelopes live in. Whenever a
  committed block holds a batch candidate that binds a nullifier, the same block without its witnesses, as
  a peer answers a request for the plain block, passes for the same header hash, and scanning it finds
  no occurrence of the nullifier at that location. So a single peer can hide batched spends from the window
  scan and from the index, though the scan is documented as proof against omission.
\<close>

theorem stripped_witness_hides_batch:
  assumes "committed_block sha h b" "length (cb_txs b) \<le> 2 ^ 32"
    and "e \<in> set (anchors_in_block sha b ht)" "sa_batch e = Some batch" "binds sp e nf"
  shows "committed_block sha h (without_witnesses b) \<and>
    \<not> (\<exists>e' \<in> set (anchors_in_block sha (without_witnesses b) ht). sa_location e' = sa_location e \<and> binds sp e' nf')"
proof -
  obtain pos where pos: "pos < length (cb_txs b)" "e \<in> set (tx_anchors sha ht pos (cb_txs b ! pos))"
    using assms(3) by (auto simp: anchors_in_block_mem)
  have "\<not> binds sp e' nf'" if m: "e' \<in> set (anchors_in_block sha (without_witnesses b) ht)" and l: "sa_location e' = sa_location e" for e'
  proof -
    obtain q where q: "q < length (cb_txs b)" "e' \<in> set (tx_anchors sha ht q ((cb_txs b ! q)\<lparr>ct_witnesses := []\<rparr>))"
      using m by (auto simp: anchors_in_block_mem without_witnesses_def)
    have "word_of_nat q = (word_of_nat pos :: u32)" using l tx_anchors_location [OF pos(2)] tx_anchors_location [OF q(2)] by simp
    then have "q = pos" using pos(1) q(1) assms(2) by (simp add: word_of_nat_eq_iff take_bit_eq_mod)
    with stripped_tx_binds_nothing [OF pos(2) assms(4)] q(2) show ?thesis by blast
  qed
  with assms(1) show ?thesis by (auto simp: stripped_committed)
qed

text \<open>A batch of one payload, with the sponge that hashes everything to zero.\<close>

definition demo_batch_tx :: cbf_tx where
  "demo_batch_tx = demo_tx\<lparr>ct_outputs := [\<lparr>cx_value = 0, cx_script_pubkey = anchor_script (to_bytes (BatchHeader 1 zero24))\<rparr>],
     ct_witnesses := [[WITNESS_MAGIC_V2, zero24, [1], [2]]]\<rparr>"

definition demo_batch_block :: cbf_block where
  "demo_batch_block = \<lparr>cb_header = demo_header\<lparr>bh_merkle_root := tx_txid demo_sha demo_batch_tx\<rparr>, cb_txs = [demo_batch_tx]\<rparr>"

definition demo_batch_entry :: scanned_anchor where
  "demo_batch_entry =
     \<lparr>sa_location = \<lparr>al_height = 7, al_position = 0\<rparr>, sa_txid = tx_txid demo_sha demo_batch_tx, sa_record = BatchHeader 1 zero24,
      sa_ctx = cbf_funding_ctx demo_sha (replicate 32 9) 1, sa_batch = Some \<lparr>bc_version = V2, bc_index = 0, bc_envelope = [zero24]\<rparr>\<rparr>"

lemma zero_sponge_commit: "to_anchor (batch_commit_v2 zero_sponge ps ctx) = zero24"
  by (simp add: batch_commit_v2_def hash_felts_def zero_sponge_def from_elems_zero to_anchor_def TRUNCATED_DIGEST_BYTES_def zero24_def)

lemma demo_batch_record: "from_bytes (to_bytes (BatchHeader 1 zero24)) = BatchHeader 1 zero24" "length (to_bytes (BatchHeader 1 zero24)) = 64"
  by (rule from_to_bytes_tagged, simp add: zero24_def) (simp add: length_to_bytes zero24_def ANCHOR_SIZE_def del: to_bytes.simps)

lemma payload_of_script: "length bs = 64 \<Longrightarrow> op_return_payload (anchor_script bs) = Some bs"
proof -
  assume len: "length bs = 64"
  then have "length bs = Suc (Suc 62)" by simp
  then obtain a b data where "bs = a # b # data" by (auto simp only: length_Suc_conv)
  with len show ?thesis by (simp add: anchor_script_def)
qed

lemma demo_batch_binds: "binds zero_sponge demo_batch_entry (replicate 32 0)"
  by (simp add: binds_def demo_batch_entry_def zero_sponge_commit to_anchor_binding zero_sponge_binding)

lemma demo_batch_scanned: "anchors_in_block demo_sha demo_batch_block 7 = [demo_batch_entry]"
proof -
  have "candidate_payload demo_batch_tx = Some (to_bytes (BatchHeader 1 zero24))"
    by (simp add: candidate_payload_def demo_batch_tx_def payload_of_script [OF demo_batch_record(2)] del: to_bytes.simps op_return_payload.simps)
  moreover have "first_envelope demo_batch_tx = Some (V2, [zero24])"
    by (simp add: first_envelope_def demo_batch_tx_def WITNESS_MAGIC_V2_def WITNESS_MAGIC_def slice_def zero24_def MAX_BATCH_V2_PARTICIPANTS_def MAX_WITNESS_ITEM_def TRUNCATED_DIGEST_BYTES_def)
  moreover have "ct_inputs demo_batch_tx = ct_inputs demo_tx" by (simp add: demo_batch_tx_def)
  ultimately have "tx_anchors demo_sha 7 0 demo_batch_tx = [demo_batch_entry]"
    by (simp add: tx_anchors_def is_coinbase_def demo_tx_def demo_batch_record(1) demo_batch_entry_def Let_def del: to_bytes.simps)
  then show ?thesis by (simp add: anchors_in_block_def demo_batch_block_def)
qed

theorem stripped_witness_hides_batch_witness:
  "\<exists>h. committed_block demo_sha h demo_batch_block \<and> committed_block demo_sha h (without_witnesses demo_batch_block) \<and>
     binds zero_sponge demo_batch_entry (replicate 32 0) \<and>
     \<not> (\<exists>e' \<in> set (anchors_in_block demo_sha (without_witnesses demo_batch_block) 7).
        sa_location e' = sa_location demo_batch_entry \<and> binds zero_sponge e' (replicate 32 0))"
proof -
  let ?h = "header_hash demo_sha (cb_header demo_batch_block)"
  have c: "committed_block demo_sha ?h demo_batch_block"
    by (simp add: committed_block_def compute_merkle_root_def merkle_root_def merkle_loop.simps demo_batch_block_def)
  have "sa_batch demo_batch_entry = Some \<lparr>bc_version = V2, bc_index = 0, bc_envelope = [zero24]\<rparr>" by (simp add: demo_batch_entry_def)
  from stripped_witness_hides_batch [OF c _ _ this demo_batch_binds, of 7 "replicate 32 0"] c demo_batch_binds show ?thesis
    by (intro exI [of _ ?h] conjI) (simp_all add: demo_batch_scanned, simp_all add: demo_batch_block_def)
qed

end
