(* ===== verification/Cbf_Scan_Index.thy ===== *)
theory Cbf_Scan_Index
  imports Cbf_Scan_Proofs
begin

text \<open>
  The scan index across synchronisations: reconciliation keeps exactly the part of the stored lineage
  that is still canonical, and an index invariant that every synchronisation re-establishes, whatever
  the chain did in between.
\<close>

section \<open>Hashes commit to their ancestors\<close>

lemma chain_link: "chain_ok sha c \<Longrightarrow> Suc i < length (hc_headers c) \<Longrightarrow> bh_prev_block (hc_headers c ! Suc i) = hc_hashes c ! i"
proof -
  assume ok: "chain_ok sha c" and i: "Suc i < length (hc_headers c)"
  then obtain w where "header_step sha (hc_params c) (hc_headers c) (Suc i) w" unfolding chain_ok_def by blast
  with ok i show ?thesis by (simp add: header_step_def validate_header_def chain_ok_def split: if_splits)
qed

definition chain_sized :: "header_chain \<Rightarrow> bool" where
  "chain_sized c \<longleftrightarrow> list_all header_ok (hc_headers c)"

lemma header_hash_inj:
  assumes "header_hash sha a = header_hash sha b" "header_ok a" "header_ok b"
  shows "a = b \<or> hash_collision sha"
proof (cases "header_serialize a = header_serialize b")
  case True
  then have "header_parse (header_serialize a) = Inr a" "header_parse (header_serialize a) = Inr b"
    using assms by (simp_all add: header_parse_iff)
  then show ?thesis by simp
next
  case False
  with assms(1) show ?thesis unfolding hash_collision_def header_hash_def by blast
qed

lemma ancestors_agree:
  assumes ok: "chain_ok sha a" "chain_ok sha b" "chain_sized a" "chain_sized b"
    and k: "k < length (hc_hashes a)" "k < length (hc_hashes b)" "hc_hashes a ! k = hc_hashes b ! k" "i \<le> k"
  shows "hc_hashes a ! i = hc_hashes b ! i \<or> hash_collision sha"
  using k
proof (induction k)
  case (Suc k)
  have hashes: "hc_hashes a = map (header_hash sha) (hc_headers a)" "hc_hashes b = map (header_hash sha) (hc_headers b)"
    using ok by (simp_all add: chain_ok_def)
  have "hc_headers a ! Suc k = hc_headers b ! Suc k \<or> hash_collision sha"
    using Suc.prems ok(3,4) header_hash_inj [of sha "hc_headers a ! Suc k" "hc_headers b ! Suc k"]
    by (auto simp: hashes chain_sized_def list_all_length)
  then have "hc_hashes a ! k = hc_hashes b ! k \<or> hash_collision sha"
    using chain_link [OF ok(1), of k] chain_link [OF ok(2), of k] Suc.prems by (auto simp: hashes)
  with Suc show ?case by (cases "i = Suc k") auto
qed simp

section \<open>Reconciliation\<close>

text \<open>The stored lineage is the part of a chain from the first scanned height to the synced tip.\<close>

definition index_on :: "header_chain \<Rightarrow> scan_index \<Rightarrow> bool" where
  "index_on c idx \<longleftrightarrow>
     1 \<le> si_from_height idx \<and> si_from_height idx \<le> U64_MAX \<and> si_from_height idx \<le> Suc (si_synced_tip idx) \<and>
     length (si_chain_hashes idx) = Suc (si_synced_tip idx) - si_from_height idx \<and>
     (\<forall>i < length (si_chain_hashes idx). hash_at c (si_from_height idx + i) = Some (si_chain_hashes idx ! i))"

lemma reconcile_walk_ok:
  assumes "\<And>ht. ht < n \<Longrightarrow> canonical ht \<noteq> None" "n - Suc f \<le> length hashes"
  shows "\<exists>a. reconcile_walk (Suc f) hashes canonical (rev [Suc f..<n]) = Inr a \<and> f \<le> a \<and> a \<le> max f (n - 1) \<and>
     (Suc a < n \<longrightarrow> canonical (Suc a) \<noteq> Some (hashes ! (a - f))) \<and> (f < a \<longrightarrow> canonical a = Some (hashes ! (a - Suc f)))"
  using assms
proof (induction n)
  case (Suc n)
  show ?case
  proof (cases "f < n")
    case True
    obtain h where h: "canonical n = Some h" using Suc.prems(1) [of n] by auto
    have len: "n - Suc f < length hashes" using Suc.prems(2) True by simp
    obtain a where a: "reconcile_walk (Suc f) hashes canonical (rev [Suc f..<n]) = Inr a" "f \<le> a" "a \<le> max f (n - 1)"
      "Suc a < n \<longrightarrow> canonical (Suc a) \<noteq> Some (hashes ! (a - f))" "f < a \<longrightarrow> canonical a = Some (hashes ! (a - Suc f))"
      using Suc.IH Suc.prems by fastforce
    show ?thesis
    proof (cases "hashes ! (n - Suc f) = h")
      case eq: True
      show ?thesis by (intro exI [of _ n]) (use True h len eq in simp)
    next
      case False
      have "Suc a < Suc n \<longrightarrow> canonical (Suc a) \<noteq> Some (hashes ! (a - f))"
        using a(2,4) h False by (cases "Suc a = n") auto
      then show ?thesis using a True h len False by (intro exI [of _ a]) simp
    qed
  qed simp
qed simp

definition rolled_back :: "nat \<Rightarrow> scan_index \<Rightarrow> scan_index" where
  "rolled_back a idx =
     (if a < si_synced_tip idx then
        idx\<lparr>si_occurrences := filter (\<lambda>e. unat (al_height (sa_location e)) \<le> a) (si_occurrences idx),
            si_chain_hashes := take (Suc a - si_from_height idx) (si_chain_hashes idx), si_synced_tip := a\<rparr>
      else idx)"

text \<open>The highest height up to which two lineages agree, as far as the stored one goes.\<close>

definition common_ancestor :: "header_chain \<Rightarrow> header_chain \<Rightarrow> nat \<Rightarrow> scan_index \<Rightarrow> nat \<Rightarrow> bool" where
  "common_ancestor old new tip idx a \<longleftrightarrow>
     si_from_height idx \<le> Suc a \<and> a \<le> si_synced_tip idx \<and> a \<le> max tip (si_from_height idx - 1) \<and>
     (si_from_height idx \<le> a \<longrightarrow> hash_at new a = hash_at old a) \<and>
     (a < min tip (si_synced_tip idx) \<longrightarrow> hash_at new (Suc a) \<noteq> hash_at old (Suc a))"

lemma hash_at_below: "chain_tip_height c = Some tip \<Longrightarrow> chain_ok sha c \<Longrightarrow> ht \<le> tip \<longleftrightarrow> hash_at c ht \<noteq> None"
  by (cases "hc_headers c") (auto simp: chain_tip_height_def hash_at_def chain_ok_def)

lemma reconcile_ok:
  assumes old: "index_on old idx" and new: "chain_ok sha new" "chain_tip_height new = Some tip"
  shows "\<exists>a. reconcile_chain_view tip (hash_at new) idx = (Inr (), rolled_back a idx) \<and> common_ancestor old new tip idx a"
proof (cases "si_chain_hashes idx = [] \<or> min (si_synced_tip idx) tip < si_from_height idx")
  case True
  then show ?thesis using old
    by (intro exI [of _ "min (si_synced_tip idx) (si_from_height idx - 1)"])
      (auto simp: reconcile_chain_view_def rolled_back_def index_on_def common_ancestor_def Let_def)
next
  case False
  let ?f = "si_from_height idx" and ?c = "min (si_synced_tip idx) tip"
  have stored: "hash_at old ht = Some (si_chain_hashes idx ! (ht - ?f))" if "?f \<le> ht" "ht \<le> si_synced_tip idx" for ht
    using old that by (auto simp: index_on_def dest!: spec [of _ "ht - ?f"])
  have "hash_at new ht \<noteq> None" if "ht < Suc ?c" for ht 
    using that hash_at_below [OF new(2,1), of ht] by (metis less_Suc_eq_le min.bounded_iff)
  moreover have "1 \<le> ?f" "Suc ?c - ?f \<le> length (si_chain_hashes idx)" using old by (auto simp: index_on_def)
  ultimately have walk: "1 \<le> ?f" "\<And>ht. ht < Suc ?c \<Longrightarrow> hash_at new ht \<noteq> None" "Suc ?c - ?f \<le> length (si_chain_hashes idx)" by blast+
  obtain g where g: "?f = Suc g" using walk(1) by (cases ?f) auto
  from reconcile_walk_ok [of "Suc ?c" "hash_at new" g "si_chain_hashes idx", OF walk(2) walk(3) [unfolded g]] obtain a where
    "reconcile_walk ?f (si_chain_hashes idx) (hash_at new) (rev [?f..<Suc ?c]) = Inr a" "g \<le> a" "a \<le> max g ?c"
    "Suc a < Suc ?c \<longrightarrow> hash_at new (Suc a) \<noteq> Some (si_chain_hashes idx ! (a - g))" "g < a \<longrightarrow> hash_at new a = Some (si_chain_hashes idx ! (a - Suc g))"
    unfolding g by auto
  then have a: "reconcile_walk ?f (si_chain_hashes idx) (hash_at new) (rev [?f..<Suc ?c]) = Inr a"
    "?f \<le> Suc a" "Suc a < Suc ?c \<longrightarrow> hash_at new (Suc a) \<noteq> Some (si_chain_hashes idx ! (Suc a - ?f))"
    "Suc a \<le> max ?f (Suc ?c)" "?f \<le> a \<longrightarrow> hash_at new a = Some (si_chain_hashes idx ! (a - ?f))"
    using False by (auto simp: g)
  have keep: "(if a < ?f then 0 else a - ?f + 1) = Suc a - ?f" using a(2) by auto
  have r: "reconcile_chain_view tip (hash_at new) idx = (Inr (), rolled_back a idx)"
    unfolding reconcile_chain_view_def Let_def keep using False a(1) keep
    by (auto simp: rolled_back_def not_less simp del: upt_Suc)
  have "common_ancestor old new tip idx a"
    using a False stored [of a] stored [of "Suc a"] by (auto simp: common_ancestor_def)
  with r show ?thesis by blast
qed

lemma rolled_back_on:
  assumes "chain_ok sha old" "chain_sized old" "index_on old idx" "chain_ok sha new" "chain_sized new" "common_ancestor old new tip idx a"
  shows "index_on new (rolled_back a idx) \<or> hash_collision sha"
proof (cases "hash_collision sha")
  case False
  let ?f = "si_from_height idx"
  have "hash_at new (?f + i) = Some (si_chain_hashes idx ! i)" if i: "?f + i \<le> a" for i
  proof -
    have o: "hash_at old (?f + i) = Some (si_chain_hashes idx ! i)"
      using assms(3,6) i by (auto simp: index_on_def common_ancestor_def)
    have "hash_at old a \<noteq> None" using assms(3,6) i
      by (auto simp: index_on_def common_ancestor_def dest!: spec [of _ "a - ?f"])
    then have "a < length (hc_hashes old)" "a < length (hc_hashes new)" "hc_hashes old ! a = hc_hashes new ! a"
      using assms(6) i by (auto simp: common_ancestor_def hash_at_def split: if_splits)
    from ancestors_agree [OF assms(1,4,2,5) this i] False this i o show ?thesis
      by (auto simp: hash_at_def split: if_splits)
  qed
  then show ?thesis using assms(3,6)
    by (auto simp: index_on_def rolled_back_def common_ancestor_def)
qed simp

section \<open>The index invariant\<close>

text \<open>
  One of the clients \<open>S\<close> the index was synchronised with had the same block at a height and answered no to a marker, out of
  the filter chain it had agreed on.
\<close>

definition unmarked :: "sha256_fn \<Rightarrow> cbf_client set \<Rightarrow> header_chain \<Rightarrow> nat \<Rightarrow> bool" where
  "unmarked sha S c ht \<longleftrightarrow>
     (\<forall>spk \<in> {MARKER_SPK, LEGACY_MARKER_SPK}. \<exists>cl \<in> S. hash_at (cc_chain cl) ht = hash_at c ht \<and>
        (\<exists>cl1 cl2. same_chains cl cl1 \<and> filter_matches sha ht spk cl1 = Some (Inr False, cl2)))"

text \<open>Blocks and negative answers that account for the heights from \<open>n\<close> below \<open>m\<close>.\<close>

definition accounts_for :: "sha256_fn \<Rightarrow> cbf_client set \<Rightarrow> header_chain \<Rightarrow> nat \<Rightarrow> nat \<Rightarrow> (nat \<times> cbf_block) list \<Rightarrow> bool" where
  "accounts_for sha S c n m hbs \<longleftrightarrow>
     sorted_wrt (<) (map fst hbs) \<and> (\<forall>(ht, b) \<in> set hbs. n \<le> ht \<and> ht < m \<and> read_at sha c ht b) \<and>
     (\<forall>ht. n \<le> ht \<and> ht < m \<and> ht \<notin> fst ` set hbs \<longrightarrow> unmarked sha S c ht)"

definition index_inv :: "sha256_fn \<Rightarrow> cbf_client set \<Rightarrow> header_chain \<Rightarrow> scan_index \<Rightarrow> bool" where
  "index_inv sha S c idx \<longleftrightarrow>
     si_from_height idx = 0 \<and> si_chain_hashes idx = [] \<and> si_occurrences idx = [] \<or>
     index_on c idx \<and> (\<exists>hbs. si_occurrences idx = block_anchors sha hbs \<and> accounts_for sha S c (si_from_height idx) (Suc (si_synced_tip idx)) hbs)"

lemma unmarked_in_unmarked: "unmarked_in sha cl ht \<Longrightarrow> cl \<in> S \<Longrightarrow> unmarked sha S (cc_chain cl) ht"
  unfolding unmarked_in_def unmarked_def by blast

lemma scan_log_accounts: "scan_log sha cl n m hbs \<Longrightarrow> cl \<in> S \<Longrightarrow> accounts_for sha S (cc_chain cl) n m hbs"
  by (auto simp: scan_log_def accounts_for_def unmarked_in_unmarked)

lemma accounts_for_mono: "accounts_for sha S c n m hbs \<Longrightarrow> S \<subseteq> T \<Longrightarrow> accounts_for sha T c n m hbs"
  unfolding accounts_for_def unmarked_def by (blast dest: subsetD)

lemma index_inv_mono: "index_inv sha S c idx \<Longrightarrow> S \<subseteq> T \<Longrightarrow> index_inv sha T c idx"
  unfolding index_inv_def by (blast dest: accounts_for_mono)

lemma accounts_for_append:
  assumes "accounts_for sha S c n m as" "accounts_for sha S c m k bs" "n \<le> m" "m \<le> k"
  shows "accounts_for sha S c n k (as @ bs)"
proof -
  have "fst x < fst y" if "x \<in> set as" "y \<in> set bs" for x y
    using assms that by (fastforce simp: accounts_for_def)
  then have "sorted_wrt (<) (map fst (as @ bs))" using assms by (auto simp: accounts_for_def sorted_wrt_append)
  moreover have "n \<le> ht \<and> ht < k \<and> read_at sha c ht b" if "(ht, b) \<in> set (as @ bs)" for ht b
    using assms that by (fastforce simp: accounts_for_def)
  moreover have "unmarked sha S c ht" if "n \<le> ht" "ht < k" "ht \<notin> fst ` set (as @ bs)" for ht
    using assms that by (cases "ht < m") (auto simp: accounts_for_def image_Un not_less)
  ultimately show ?thesis unfolding accounts_for_def by blast
qed

lemma accounts_for_prefix:
  assumes "accounts_for sha S c n m hbs" "k \<le> m" "\<And>ht. n \<le> ht \<Longrightarrow> ht < k \<Longrightarrow> hash_at c' ht = hash_at c ht"
  shows "accounts_for sha S c' n k (filter (\<lambda>(ht, b). ht < k) hbs)"
proof -
  have "sorted_wrt (<) (map fst (filter (\<lambda>(ht, b). ht < k) hbs))"
    using assms(1) by (auto simp: accounts_for_def sorted_wrt_map intro: sorted_wrt_filter)
  moreover have "n \<le> ht \<and> ht < k \<and> read_at sha c' ht b" if "(ht, b) \<in> set (filter (\<lambda>(ht, b). ht < k) hbs)" for ht b
    using assms(1,3) that by (fastforce simp: accounts_for_def read_at_def)
  moreover have "unmarked sha S c' ht" if "n \<le> ht" "ht < k" "ht \<notin> fst ` set (filter (\<lambda>(ht, b). ht < k) hbs)" for ht
  proof -
    have "ht \<notin> fst ` set hbs" using that by force
    then have "unmarked sha S c ht" using assms(1,2) that by (auto simp: accounts_for_def)
    then show ?thesis using assms(3) [OF that(1,2)] by (simp add: unmarked_def)
  qed
  ultimately show ?thesis unfolding accounts_for_def by blast
qed

lemma block_anchors_filter:
  assumes "\<forall>(ht, b) \<in> set hbs. ht < 2 ^ 64"
  shows "filter (\<lambda>e. unat (al_height (sa_location e)) \<le> a) (block_anchors sha hbs) = block_anchors sha (filter (\<lambda>(ht, b). ht < Suc a) hbs)"
  using assms
proof (induction hbs)
  case (Cons x hbs)
  obtain ht b where x: "x = (ht, b)" by fastforce
  have "unat (al_height (sa_location e)) = ht" if "e \<in> set (anchors_in_block sha b ht)" for e
    using that Cons.prems by (simp add: x location_of_anchor unat_of_nat)
  then have "filter (\<lambda>e. unat (al_height (sa_location e)) \<le> a) (anchors_in_block sha b ht) = (if ht < Suc a then anchors_in_block sha b ht else [])"
    by (auto simp: filter_id_conv filter_empty_conv)
  with Cons show ?case by (auto simp: x block_anchors_def)
qed (simp add: block_anchors_def)

text \<open>The invariant of an index that has started.\<close>

definition index_started :: "sha256_fn \<Rightarrow> cbf_client set \<Rightarrow> header_chain \<Rightarrow> scan_index \<Rightarrow> bool" where
  "index_started sha S c idx \<longleftrightarrow> index_on c idx \<and>
     (\<exists>hbs. si_occurrences idx = block_anchors sha hbs \<and> accounts_for sha S c (si_from_height idx) (Suc (si_synced_tip idx)) hbs)"

lemma scan_start_started: "index_inv sha S c idx \<Longrightarrow> index_started sha S c (scan_start from_height idx)"
proof (cases "si_from_height idx = 0")
  case True
  assume "index_inv sha S c idx"
  with True have "si_chain_hashes idx = []" "si_occurrences idx = []" by (auto simp: index_inv_def index_on_def)
  moreover have "accounts_for sha S c n n []" for n by (auto simp: accounts_for_def)
  moreover have "unat from_height < 2 ^ 64" using unsigned_less [of from_height] by simp
  ultimately show ?thesis using True
    by (auto simp: index_started_def scan_start_def index_on_def block_anchors_def Let_def U64_MAX_def intro!: exI [of _ "[]"])
qed (auto simp: index_inv_def index_started_def scan_start_def Let_def)

lemma rolled_back_started:
  assumes old: "chain_ok sha old" "chain_sized old" "index_started sha S old idx" "length (hc_hashes old) < 2 ^ 64"
    and new: "chain_ok sha new" "chain_sized new" "common_ancestor old new tip idx a"
  shows "index_started sha S new (rolled_back a idx) \<or> hash_collision sha"
proof (cases "hash_collision sha")
  case False
  let ?f = "si_from_height idx"
  from old(3) obtain hbs where on: "index_on old idx" and hbs: "si_occurrences idx = block_anchors sha hbs" "accounts_for sha S old ?f (Suc (si_synced_tip idx)) hbs"
    by (auto simp: index_started_def)
  have new_on: "index_on new (rolled_back a idx)" using rolled_back_on [OF old(1,2) on new] False by simp
  have "hash_at new ht = hash_at old ht" if "?f \<le> ht" "ht < Suc a" for ht
  proof -
    have "ht - ?f < length (si_chain_hashes (rolled_back a idx))" "si_chain_hashes (rolled_back a idx) ! (ht - ?f) = si_chain_hashes idx ! (ht - ?f)"
      using on new(3) that by (auto simp: rolled_back_def index_on_def common_ancestor_def)
    then show ?thesis using new_on on that
      by (auto simp: index_on_def rolled_back_def split: if_splits dest!: spec [of _ "ht - ?f"])
  qed
  moreover have "Suc a \<le> Suc (si_synced_tip idx)" using new(3) by (simp add: common_ancestor_def)
  ultimately have acc: "accounts_for sha S new ?f (Suc a) (filter (\<lambda>(ht, b). ht < Suc a) hbs)"
    using accounts_for_prefix [OF hbs(2)] by blast
  have "\<forall>(ht, b) \<in> set hbs. ht < 2 ^ 64"
    using hbs(2) old(4) by (auto simp: accounts_for_def read_at_def hash_at_def split: if_splits)
  note filt = block_anchors_filter [OF this, of a sha]
  have same: "filter (\<lambda>(ht, b). ht < Suc a) hbs = hbs" if "\<not> a < si_synced_tip idx"
    using hbs(2) that by (auto simp: accounts_for_def filter_id_conv)
  show ?thesis
  proof (cases "a < si_synced_tip idx")
    case True
    with new_on acc filt show ?thesis by (auto simp: index_started_def rolled_back_def hbs)
  next
    case ge: False
    then have "a = si_synced_tip idx" using new(3) by (simp add: common_ancestor_def)
    with new_on acc same [OF ge] show ?thesis by (auto simp: index_started_def rolled_back_def hbs)
  qed
qed simp

lemma scanned_range_started:
  assumes "index_started sha S (cc_chain cl) idx" "cl \<in> S" "scanned_range sha cl (Suc (si_synced_tip idx)) m idx idx'"
  shows "index_started sha S (cc_chain cl) idx'" "Suc (si_synced_tip idx') = m"
proof -
  let ?n = "Suc (si_synced_tip idx)" and ?c = "cc_chain cl"
  from assms(1) obtain as where on: "index_on ?c idx" and as: "si_occurrences idx = block_anchors sha as" "accounts_for sha S ?c (si_from_height idx) ?n as"
    by (auto simp: index_started_def)
  from assms(3) obtain bs where r: "?n \<le> m" "si_from_height idx' = si_from_height idx"
    "si_chain_hashes idx' = si_chain_hashes idx @ map (\<lambda>ht. hc_hashes ?c ! ht) [?n..<m]" "?n < m \<longrightarrow> m \<le> length (hc_hashes ?c)"
    "si_synced_tip idx' = (if ?n = m then si_synced_tip idx else m - 1)" "si_occurrences idx' = si_occurrences idx @ block_anchors sha bs" "scan_log sha cl ?n m bs"
    by (auto simp: scanned_range_def)
  show tip: "Suc (si_synced_tip idx') = m" using r(1,5) by auto
  have "accounts_for sha S ?c (si_from_height idx) m (as @ bs)"
    using accounts_for_append [OF as(2) scan_log_accounts [OF r(7) assms(2)]] r(1) on by (simp add: index_on_def)
  moreover have "hash_at ?c (si_from_height idx + i) = Some (si_chain_hashes idx' ! i)" if "i < length (si_chain_hashes idx')" for i
  proof (cases "i < length (si_chain_hashes idx)")
    case True
    with on show ?thesis by (simp add: r(3) nth_append index_on_def)
  next
    case False
    with on that r(4) show ?thesis by (auto simp: r(3) nth_append index_on_def hash_at_def less_diff_conv2 add.commute)
  qed
  moreover have "length (si_chain_hashes idx') = m - si_from_height idx" using on r(1) by (simp add: r(3) index_on_def)
  ultimately show "index_started sha S ?c idx'" using on r(1,2,6) tip as(1)
    by (auto simp: index_started_def index_on_def block_anchors_def intro!: exI [of _ "as @ bs"])
qed

text \<open>Where the loop resumes: just above the synced tip.\<close>

lemma next_height:
  assumes "index_on c idx" "length (hc_hashes c) < 2 ^ 64"
  shows "max (min (si_synced_tip idx + 1) U64_MAX) (si_from_height idx) = Suc (si_synced_tip idx)"
proof (cases "si_chain_hashes idx = []")
  case True
  with assms(1) show ?thesis by (auto simp: index_on_def)
next
  case False
  then have "0 < Suc (si_synced_tip idx) - si_from_height idx" using assms(1) by (simp add: index_on_def flip: length_greater_0_conv)
  then have "si_from_height idx \<le> si_synced_tip idx" by simp
  then have "hash_at c (si_synced_tip idx) \<noteq> None" using assms(1)
    by (auto simp: index_on_def dest!: spec [of _ "si_synced_tip idx - si_from_height idx"])
  then have "si_synced_tip idx < length (hc_hashes c)" by (simp add: hash_at_def split: if_splits)
  then show ?thesis using assms by (auto simp: index_on_def U64_MAX_def)
qed

lemma add_fetched_fields:
  "si_from_height (add_fetched a b idx) = si_from_height idx" "si_chain_hashes (add_fetched a b idx) = si_chain_hashes idx"
  "si_occurrences (add_fetched a b idx) = si_occurrences idx" "si_synced_tip (add_fetched a b idx) = si_synced_tip idx"
  by (simp_all add: add_fetched_def Let_def split: prod.splits)

text \<open>An occurrence at a height whose block both chains share survives the reconciliation.\<close>

lemma kept_occurrence:
  assumes old: "chain_ok sha old" "chain_sized old" "index_started sha S old idx"
    and new: "chain_ok sha new" "chain_sized new" "chain_tip_height new = Some tip" "common_ancestor old new tip idx a"
    and e: "e \<in> set (si_occurrences idx)" "hash_at new (unat (al_height (sa_location e))) = hash_at old (unat (al_height (sa_location e)))"
  shows "e \<in> set (si_occurrences (rolled_back a idx)) \<or> hash_collision sha"
proof (rule ccontr)
  let ?h = "unat (al_height (sa_location e))"
  assume no: "\<not> ?thesis"
  obtain hbs where hbs: "si_occurrences idx = block_anchors sha hbs" "accounts_for sha S old (si_from_height idx) (Suc (si_synced_tip idx)) hbs"
    using old(3) by (auto simp: index_started_def)
  from e(1) obtain ht b where b: "(ht, b) \<in> set hbs" "e \<in> set (anchors_in_block sha b ht)" by (auto simp: hbs block_anchors_def)
  have low: "?h \<le> ht" using b(2) by (simp add: location_of_anchor unat_of_nat)
  have "ht < Suc (si_synced_tip idx)" using hbs(2) b(1) by (auto simp: accounts_for_def)
  with low no have a: "a < si_synced_tip idx" "a < ?h" "?h \<le> si_synced_tip idx" using e(1) by (auto simp: rolled_back_def split: if_splits)
  obtain x where x: "hash_at old ht = Some x" using hbs(2) b(1) by (auto simp: accounts_for_def read_at_def)
  then have "?h < length (hc_hashes old)" using low by (auto simp: hash_at_def split: if_splits)
  then have both: "?h < length (hc_hashes new)" "?h < length (hc_hashes old)" "hc_hashes new ! ?h = hc_hashes old ! ?h"
    using e(2) by (auto simp: hash_at_def split: if_splits)
  then have "?h \<le> tip" using hash_at_below [OF new(3,1), of ?h] by (simp add: hash_at_def)
  with a have "hash_at new (Suc a) \<noteq> hash_at old (Suc a)" using new(4) by (simp add: common_ancestor_def)
  moreover have "hc_hashes new ! Suc a = hc_hashes old ! Suc a"
    using ancestors_agree [OF new(1) old(1) new(2) old(2) both, of "Suc a"] a(2) no by simp
  ultimately show False using both a(2) by (simp add: hash_at_def)
qed

lemma scan_sync_ok:
  assumes old: "chain_ok sha old" "chain_sized old" "length (hc_hashes old) < 2 ^ 64" "index_inv sha S old idx"
    and new: "chain_ok sha (cc_chain cl)" "chain_sized (cc_chain cl)" "length (hc_hashes (cc_chain cl)) < 2 ^ 64"
    and sync: "scan_sync sha from_height idx cl = Some (r, idx', cl')" and nc: "\<not> hash_collision sha"
  shows "index_started sha (insert cl S) (cc_chain cl) idx'" "same_chains cl cl'"
    "e \<in> set (si_occurrences idx) \<Longrightarrow> hash_at (cc_chain cl) (unat (al_height (sa_location e))) = hash_at old (unat (al_height (sa_location e))) \<Longrightarrow>
       e \<in> set (si_occurrences idx')"
    "r = Inr () \<Longrightarrow> client_tip_height cl = Some tip \<Longrightarrow> si_synced_tip idx' = max tip (si_from_height idx' - 1)"
proof -
  let ?new = "cc_chain cl" and ?idx0 = "scan_start from_height idx"
  obtain t where t: "chain_tip_height ?new = Some t"
    using sync by (cases "chain_tip_height ?new") (simp_all add: scan_sync_def client_tip_height_def)
  let ?S = "insert cl S"
  have st: "index_started sha ?S old ?idx0" using scan_start_started index_inv_mono [OF old(4)] by blast
  then have on0: "index_on old ?idx0" by (simp add: index_started_def)
  from reconcile_ok [OF on0 new(1) t] obtain a where
    a: "reconcile_chain_view t (hash_at ?new) ?idx0 = (Inr (), rolled_back a ?idx0)" "common_ancestor old ?new t ?idx0 a" by blast
  let ?idx1 = "rolled_back a ?idx0"
  have st1: "index_started sha ?S ?new ?idx1" using rolled_back_started [OF old(1,2) st old(3) new(1,2) a(2)] nc by blast
  then have on1: "index_on ?new ?idx1" by (simp add: index_started_def)
  from sync t a(1) next_height [OF on1 new(3)] obtain idx2 where
    l: "scan_loop sha [Suc (si_synced_tip ?idx1)..<Suc t] ?idx1 cl = Some (r, idx2, cl')"
    and eq: "si_from_height idx' = si_from_height idx2" "si_chain_hashes idx' = si_chain_hashes idx2" "si_occurrences idx' = si_occurrences idx2" "si_synced_tip idx' = si_synced_tip idx2"
    by (auto simp: scan_sync_def client_tip_height_def block_hash_at_def [abs_def] Let_def add_fetched_fields simp del: upt_Suc)
  from scan_loop_ok [OF l] obtain m where s: "same_chains cl cl'" "m \<le> max (Suc (si_synced_tip ?idx1)) (Suc t)"
    "r = Inr () \<longrightarrow> m = max (Suc (si_synced_tip ?idx1)) (Suc t)" "scanned_range sha cl (Suc (si_synced_tip ?idx1)) m ?idx1 idx2" by blast
  note st2 = scanned_range_started [OF st1 insertI1 s(4)]
  show "same_chains cl cl'" by (rule s)
  show "index_started sha ?S (cc_chain cl) idx'" using st2(1) by (simp add: index_started_def index_on_def eq)
  show "e \<in> set (si_occurrences idx')" if e: "e \<in> set (si_occurrences idx)"
    and agree: "hash_at ?new (unat (al_height (sa_location e))) = hash_at old (unat (al_height (sa_location e)))"
  proof -
    have "e \<in> set (si_occurrences ?idx0)" using e by (simp add: scan_start_def Let_def)
    then have "e \<in> set (si_occurrences ?idx1)" using kept_occurrence [OF old(1,2) st new(1,2) t a(2) _ agree] nc by blast
    then show ?thesis using s(4) by (auto simp: eq scanned_range_def)
  qed
  assume "r = Inr ()" "client_tip_height cl = Some tip"
  then have "tip = t" "Suc (si_synced_tip idx2) = max (Suc (si_synced_tip ?idx1)) (Suc t)" using t s(3) st2(2) by (auto simp: client_tip_height_def)
  moreover have "si_from_height idx2 = si_from_height ?idx0" using s(4) by (simp add: scanned_range_def rolled_back_def)
  moreover have "si_synced_tip ?idx1 \<le> max t (si_from_height ?idx0 - 1)" "si_from_height ?idx0 \<le> Suc (si_synced_tip ?idx1)"
    using a(2) by (auto simp: common_ancestor_def rolled_back_def)
  ultimately show "si_synced_tip idx' = max tip (si_from_height idx' - 1)" by (simp add: eq max_def split: if_splits)
qed

lemma started_inv: "index_started sha S c idx \<Longrightarrow> index_inv sha S c idx"
  by (auto simp: index_started_def index_inv_def)

lemma started_apart:
  assumes "index_started sha S c idx" "length (hc_hashes c) < 2 ^ 64"
  shows "entries_apart sp (si_occurrences idx)"
proof -
  from assms(1) obtain hbs where hbs: "si_occurrences idx = block_anchors sha hbs" "accounts_for sha S c (si_from_height idx) (Suc (si_synced_tip idx)) hbs"
    by (auto simp: index_started_def)
  have "ht < 2 ^ 64 \<and> length (cb_txs b) \<le> 2 ^ 32" if "(ht, b) \<in> set hbs" for ht b
    using hbs(2) assms(2) that by (force simp: accounts_for_def read_at_def hash_at_def split: if_splits)
  then show ?thesis using hbs by (auto simp: accounts_for_def intro!: block_anchors_apart)
qed

section \<open>Properties\<close>

text \<open>
  Claim C19. The index follows the verified chain. Take an index that accounts for the heights it has checked on some earlier
  validated header chain: every checked height is either a committed block whose candidates it holds, or one of the clients
  it was synchronised with had the same block there and answered no to both markers out of the filter chain it had agreed
  on. After a synchronisation with a client on any other validated chain, successful or not, it accounts for its checked heights on
  that chain, with that client added. Every occurrence it holds is a candidate of a committed block of that chain, and every one it held at a height
  whose block is still on the chain is still there. A successful synchronisation has checked every height up to the client's tip. The
  exception is a collision of SHA-256d.
\<close>

theorem index_sync_invariant:
  assumes "chain_ok sha old" "chain_sized old" "length (hc_hashes old) < 2 ^ 64" "index_inv sha S old idx"
    and "chain_ok sha (cc_chain cl)" "chain_sized (cc_chain cl)" "length (hc_hashes (cc_chain cl)) < 2 ^ 64"
    and "scan_sync sha from_height idx cl = Some (r, idx', cl')" "client_tip_height cl = Some tip"
  shows "hash_collision sha \<or>
    index_inv sha (insert cl S) (cc_chain cl) idx' \<and> entries_apart sp (si_occurrences idx') \<and> same_chains cl cl' \<and>
    (\<forall>e \<in> set (si_occurrences idx'). \<exists>ht b. read_at sha (cc_chain cl) ht b \<and> e \<in> set (anchors_in_block sha b ht)) \<and>
    (\<forall>e \<in> set (si_occurrences idx).
       hash_at (cc_chain cl) (unat (al_height (sa_location e))) = hash_at old (unat (al_height (sa_location e))) \<longrightarrow> e \<in> set (si_occurrences idx')) \<and>
    (r = Inr () \<longrightarrow> si_synced_tip idx' = max tip (si_from_height idx' - 1))"
proof (cases "hash_collision sha")
  case False
  note ok = scan_sync_ok [OF assms(1-8) False]
  have "\<exists>ht b. read_at sha (cc_chain cl) ht b \<and> e \<in> set (anchors_in_block sha b ht)" if "e \<in> set (si_occurrences idx')" for e
    using ok(1) that by (auto simp: index_started_def accounts_for_def block_anchors_def) blast
  with ok assms(7,9) started_inv started_apart show ?thesis by blast
qed simp

lemma fresh_scan_log:
  assumes "si_from_height idx = 0" "si_chain_hashes idx = []" "si_occurrences idx = []"
    and "scan_sync sha from_height idx cl = Some (Inr (), idx', cl')" "client_tip_height cl = Some tip"
  shows "\<exists>hbs. si_occurrences idx' = block_anchors sha hbs \<and> scan_log sha cl (max (unat from_height) 1) (max (Suc tip) (max (unat from_height) 1)) hbs"
proof -
  let ?f = "max (unat from_height) 1" and ?idx = "scan_start from_height idx"
  have st: "si_from_height ?idx = ?f" "si_synced_tip ?idx = ?f - 1" "si_chain_hashes ?idx = []" "si_occurrences ?idx = []"
    using assms(1-3) by (simp_all add: scan_start_def Let_def)
  have "unat from_height < 2 ^ 64" using unsigned_less [of from_height] by simp
  then have n: "max (min (?f - 1 + 1) U64_MAX) ?f = ?f" by (simp add: U64_MAX_def)
  have "reconcile_chain_view t h ?idx = (Inr (), ?idx)" for t h by (simp add: reconcile_chain_view_def st)
  with assms(4,5) n obtain idx2 where l: "scan_loop sha [?f..<Suc tip] ?idx cl = Some (Inr (), idx2, cl')" and o: "si_occurrences idx' = si_occurrences idx2"
    unfolding scan_sync_def Let_def by (auto simp: add_fetched_fields st simp del: upt_Suc)
  from scan_loop_ok [OF l] show ?thesis by (auto simp: scanned_range_def st o max.commute)
qed

lemma fresh_scan_reads_marked:
  assumes fresh: "si_from_height idx = 0" "si_chain_hashes idx = []" "si_occurrences idx = []"
    and sync: "scan_sync sha from_height idx cl = Some (Inr (), idx', cl')" "client_tip_height cl = Some tip"
    and ht: "max (unat from_height) 1 \<le> ht" "ht \<le> tip" "hash_at (cc_chain cl) ht = Some h"
    and filt: "filter_hash_at (cc_filter_chain cl) ht = Some (filter_hash sha (gcs_encode es (filter_key h) BASIC_FILTER_P BASIC_FILTER_M))"
      "length (remdups es) \<le> 2 ^ 31" "MARKER_SPK \<in> set es \<or> LEGACY_MARKER_SPK \<in> set es"
  shows "hash_collision sha \<or> (\<exists>b. read_at sha (cc_chain cl) ht b \<and> set (anchors_in_block sha b ht) \<subseteq> set (si_occurrences idx'))"
proof -
  from fresh_scan_log [OF fresh sync] obtain hbs where o: "si_occurrences idx' = block_anchors sha hbs"
    and log: "scan_log sha cl (max (unat from_height) 1) (max (Suc tip) (max (unat from_height) 1)) hbs" by blast
  show ?thesis
  proof (cases "ht \<in> fst ` set hbs")
    case True
    then obtain b where b: "(ht, b) \<in> set hbs" by auto
    then have "read_at sha (cc_chain cl) ht b" using log by (auto simp: scan_log_def)
    moreover have "set (anchors_in_block sha b ht) \<subseteq> set (si_occurrences idx')" using b by (force simp: o block_anchors_def)
    ultimately show ?thesis by blast
  next
    case False
    with log ht have "unmarked_in sha cl ht" by (auto simp: scan_log_def)
    have "spk \<notin> set es \<or> hash_collision sha" if "spk \<in> {MARKER_SPK, LEGACY_MARKER_SPK}" for spk
    proof -
      from that \<open>unmarked_in sha cl ht\<close> obtain cl1 cl2 where "same_chains cl cl1" "filter_matches sha ht spk cl1 = Some (Inr False, cl2)"
        unfolding unmarked_in_def by blast
      then show ?thesis using ht(3) filt(1,2) by (intro filter_no_means_absent [of sha ht spk cl1 cl2 h es]) (auto simp: same_chains_def)
    qed
    with filt(3) show ?thesis by blast
  qed
qed

text \<open>
  Claim C20. Absence by filters is as good as absence by blocks: after a fresh index synchronised to the
  tip, take any height from the birth height to the tip whose committed filter was built from elements that
  include a marker script, as the filter of a block with a marked anchor is. Then a committed block of
  that height was read, and whenever the index reports no occurrence of a nullifier, no candidate of
  that block binds it (short of a collision of SHA-256d).
\<close>

theorem scan_absence_conclusive:
  assumes "si_from_height idx = 0" "si_chain_hashes idx = []" "si_occurrences idx = []"
    and "scan_sync sha from_height idx cl = Some (Inr (), idx', cl')" "client_tip_height cl = Some tip"
    and "max (unat from_height) 1 \<le> ht" "ht \<le> tip" "hash_at (cc_chain cl) ht = Some h"
    and "filter_hash_at (cc_filter_chain cl) ht = Some (filter_hash sha (gcs_encode es (filter_key h) BASIC_FILTER_P BASIC_FILTER_M))"
    and "length (remdups es) \<le> 2 ^ 31" "MARKER_SPK \<in> set es \<or> LEGACY_MARKER_SPK \<in> set es"
  shows "hash_collision sha \<or>
    (\<exists>b. read_at sha (cc_chain cl) ht b \<and> (\<forall>nf. first_nullifier_occurrence (scan_index_view sp idx') nf = None \<longrightarrow>
       (\<forall>e \<in> set (anchors_in_block sha b ht). \<not> binds sp e nf)))"
proof -
  have "\<not> binds sp e nf" if "first_nullifier_occurrence (scan_index_view sp idx') nf = None" "e \<in> set (si_occurrences idx')" for e nf
    using that by (auto simp: scan_index_view_def scanned_first entries_occ_def split: if_splits)
  with fresh_scan_reads_marked [OF assms] show ?thesis by blast
qed

text \<open>An index one block ahead of a client that has fallen back to the first block.\<close>

definition demo_index :: "nat \<Rightarrow> nat \<Rightarrow> bytes list \<Rightarrow> scan_index" where
  "demo_index from tip hashes =
     \<lparr>si_network = Regtest, si_from_height = from, si_synced_tip = tip, si_chain_hashes = hashes, si_occurrences = [],
      si_filters_bytes = 0, si_blocks_bytes = 0, si_blocks_fetched = 0, si_load_status = Fresh\<rparr>"

lemma cached_filter_answer:
  assumes "length (remdups es) \<le> 2 ^ 31" "hash_at (cc_chain cl) ht = Some h"
    and "cc_filter_files cl ht = Contents (gcs_encode es (filter_key h) BASIC_FILTER_P BASIC_FILTER_M)"
    and "filter_hash_at (cc_filter_chain cl) ht = Some (filter_hash sha (gcs_encode es (filter_key h) BASIC_FILTER_P BASIC_FILTER_M))"
  shows "\<exists>ans. filter_matches sha ht item cl = Some (Inr ans, cl) \<and> (item \<in> set es \<longrightarrow> ans) \<and> (es = [] \<longrightarrow> \<not> ans)"
  using gcs_answers [OF assms(1), of "filter_key h"] assms(2-)
  by (auto simp: filter_matches_def filter_at_def Let_def verify_filter_def)

lemma demo_ahead:
  obtains S old where "chain_ok demo_sha old" "chain_sized old" "length (hc_hashes old) < 2 ^ 64"
    "index_inv demo_sha S old (demo_index 1 1 [header_hash demo_sha demo_next])"
proof -
  obtain old where a: "append_validated demo_sha demo_next demo_chain = Some (Inr old)"
    using demo_append by (auto simp: append_all_Cons truncate_chain_def demo_chain_def simp del: append_all.simps(2))
  note f = append_validated_fields [OF a]
  let ?h = "header_hash demo_sha demo_next" and ?g = "\<lambda>h. gcs_encode [] (filter_key h) BASIC_FILTER_P BASIC_FILTER_M"
  let ?cl = "(demo_client [] [])\<lparr>cc_chain := old, cc_filter_chain := from_verified [[], filter_hash demo_sha (?g ?h)], cc_filter_files := (\<lambda>_. Contents (?g ?h))\<rparr>"
  have h: "hash_at old 1 = Some ?h" using f by (simp add: hash_at_def demo_chain_def)
  have "hash_at (cc_chain ?cl) 1 = hash_at old 1" by simp
  moreover have "same_chains ?cl ?cl \<and> (\<exists>cl'. filter_matches demo_sha 1 spk ?cl = Some (Inr False, cl'))" for spk
    using cached_filter_answer [of "[]" ?cl 1 ?h demo_sha spk] h by (auto simp: filter_hash_at_def from_verified_def same_chains_def)
  ultimately have "unmarked demo_sha {?cl} old 1" unfolding unmarked_def by blast
  then have "accounts_for demo_sha {?cl} old 1 (Suc 1) []" by (auto simp: accounts_for_def le_less_Suc_eq)
  then have "index_inv demo_sha {?cl} old (demo_index 1 1 [?h])"
    using h by (auto simp: index_inv_def index_on_def demo_index_def block_anchors_def U64_MAX_def intro!: exI [of _ "[]"])
  moreover have "chain_ok demo_sha old" by (rule append_validated_ok [OF demo_chain_ok a])
  moreover have "chain_sized old" "length (hc_hashes old) < 2 ^ 64"
    using f by (simp_all add: chain_sized_def demo_chain_def header_ok_def demo_genesis_def demo_next_def)
  ultimately show thesis by (rule that [rotated 3])
qed

theorem index_sync_invariant_witness:
  "\<exists>S old idx idx' cl'. index_inv demo_sha S old idx \<and> si_synced_tip idx = 1 \<and>
     scan_sync demo_sha 1 idx demo_sync_client = Some (Inr (), idx', cl') \<and>
     (hash_collision demo_sha \<or> index_inv demo_sha (insert demo_sync_client S) (cc_chain demo_sync_client) idx' \<and> si_synced_tip idx' = 0)"
proof -
  obtain S old where old: "chain_ok demo_sha old" "chain_sized old" "length (hc_hashes old) < 2 ^ 64"
    "index_inv demo_sha S old (demo_index 1 1 [header_hash demo_sha demo_next])" by (rule demo_ahead)
  have tip: "client_tip_height demo_sync_client = Some 0" by (simp add: client_tip_height_def chain_tip_height_def demo_sync_client_def demo_chain_def)
  have new: "chain_ok demo_sha (cc_chain demo_sync_client)" "chain_sized (cc_chain demo_sync_client)" "length (hc_hashes (cc_chain demo_sync_client)) < 2 ^ 64"
    using demo_chain_ok by (simp_all add: demo_sync_client_def chain_sized_def demo_chain_def header_ok_def demo_genesis_def)
  obtain idx' cl' where s: "scan_sync demo_sha 1 (demo_index 1 1 [header_hash demo_sha demo_next]) demo_sync_client = Some (Inr (), idx', cl')"
      "si_from_height idx' = 1"
    by (simp add: scan_sync_def scan_start_def tip demo_index_def reconcile_chain_view_def U64_MAX_def Let_def add_fetched_fields)
  from index_sync_invariant [OF old new s(1) tip] s old(4) show ?thesis
    by (intro exI [of _ S] exI [of _ old] exI [of _ "demo_index 1 1 [header_hash demo_sha demo_next]"] exI [of _ idx'] exI [of _ cl'])
      (auto simp: demo_index_def)
qed

theorem scan_absence_conclusive_witness:
  "\<exists>cl idx' cl' b. scan_sync demo_sha 1 (demo_index 0 0 []) cl = Some (Inr (), idx', cl') \<and>
     (hash_collision demo_sha \<or> read_at demo_sha (cc_chain cl) 1 b)"
proof -
  let ?f = "gcs_encode [MARKER_SPK] (filter_key demo_block_hash) BASIC_FILTER_P BASIC_FILTER_M"
  let ?cl = "demo_client (map Some (frame demo_sha 0xdab5bffa ''block'' (block_bytes [False] demo_block))) ?f"
  have c: "hash_at (cc_chain ?cl) 1 = Some demo_block_hash" "cc_filter_files ?cl 1 = Contents ?f" "filter_hash_at (cc_filter_chain ?cl) 1 = Some (filter_hash demo_sha ?f)"
    by (simp_all add: demo_client_def hash_at_def filter_hash_at_def from_verified_def)
  have one: "length (remdups [MARKER_SPK]) \<le> 2 ^ 31" by simp
  have m: "filter_matches demo_sha 1 MARKER_SPK ?cl = Some (Inr True, ?cl)" "\<exists>lm. filter_matches demo_sha 1 LEGACY_MARKER_SPK ?cl = Some (Inr lm, ?cl)"
    using cached_filter_answer [OF one c, of MARKER_SPK] cached_filter_answer [OF one c, of LEGACY_MARKER_SPK] by auto
  obtain cl1 where b: "fetch_checked_block demo_sha demo_block_hash ?cl = Some (Inr demo_block, cl1)" using demo_fetch_block by blast
  have "\<exists>idx2. scan_height demo_sha 1 idx ?cl = Some (Inr idx2, cl1)" for idx
    using m b demo_client_tip(3) by (auto simp: scan_height_def block_hash_at_def Let_def)
  then obtain idx2 where i: "scan_height demo_sha (Suc 0) (scan_start 1 (demo_index 0 0 [])) ?cl = Some (Inr idx2, cl1)" by fastforce
  have st: "si_chain_hashes (scan_start 1 (demo_index 0 0 [])) = []" "si_from_height (scan_start 1 (demo_index 0 0 [])) = 1" "si_synced_tip (scan_start 1 (demo_index 0 0 [])) = 0"
    by (simp_all add: scan_start_def demo_index_def)
  have "scan_sync demo_sha 1 (demo_index 0 0 []) ?cl = Some (Inr (), add_fetched ?cl cl1 idx2, cl1)"
    using i demo_client_tip(1) by (simp add: scan_sync_def st reconcile_chain_view_def U64_MAX_def Let_def)
  then obtain idx' where s: "scan_sync demo_sha 1 (demo_index 0 0 []) ?cl = Some (Inr (), idx', cl1)" by blast
  have "hash_collision demo_sha \<or> (\<exists>b. read_at demo_sha (cc_chain ?cl) 1 b \<and>
      (\<forall>nf. first_nullifier_occurrence (scan_index_view zero_sponge idx') nf = None \<longrightarrow> (\<forall>e \<in> set (anchors_in_block demo_sha b 1). \<not> binds zero_sponge e nf)))"
    by (rule scan_absence_conclusive [OF _ _ _ s demo_client_tip(1) _ _ c(1) c(3) one]) (simp_all add: demo_index_def)
  with s show ?thesis by blast
qed

end
