(* ===== verification/Cbf_Scan_File_Proofs.thy ===== *)
theory Cbf_Scan_File_Proofs
  imports Cbf_Scan_File Cbf_Scan_Index
begin

text \<open>
  Reloading the scan index: what a persisted index reads back as, and where that is not the index that
  was written.
\<close>

section \<open>The lines of an index\<close>

lemma token_tags [simp]:
  "token (lit ''network'')" "token (lit ''from'')" "token (lit ''tip'')" "token (lit ''block'')" "token (lit ''occurrence'')"
  "token (lit ''batch1'')" "token (lit ''batch2'')" "token MAGIC"
  by (simp_all add: token_lit MAGIC_def is_whitespace_def)

definition batch_toks :: "batch_candidate option \<Rightarrow> ustring list" where
  "batch_toks batch = (case batch of None \<Rightarrow> []
     | Some b \<Rightarrow> [case bc_version b of V1 \<Rightarrow> lit ''batch1'' | V2 \<Rightarrow> lit ''batch2'', decimal (unat (bc_index b)), to_hex (concat (bc_envelope b))])"

definition occurrence_toks :: "scanned_anchor \<Rightarrow> ustring list" where
  "occurrence_toks e = [lit ''occurrence'', decimal (unat (al_height (sa_location e))), decimal (unat (al_position (sa_location e))),
     hash_to_display (sa_txid e), to_hex (sa_ctx e), to_hex (to_bytes (sa_record e))] @ batch_toks (sa_batch e)"

definition block_toks :: "nat \<times> bytes \<Rightarrow> ustring list" where
  "block_toks = (\<lambda>(ht, h). [lit ''block'', decimal ht, hash_to_display h])"

definition index_toks :: "scan_index \<Rightarrow> ustring list list" where
  "index_toks idx = [[lit ''network'', network_name (si_network idx)], [lit ''from'', decimal (si_from_height idx)], [lit ''tip'', decimal (si_synced_tip idx)]] @
     map block_toks (enumerate (si_from_height idx) (si_chain_hashes idx)) @ map occurrence_toks (si_occurrences idx)"

lemma lit_space: "lit ''network '' = lit ''network'' @ [32]" "lit ''from '' = lit ''from'' @ [32]" "lit ''tip '' = lit ''tip'' @ [32]"
  "lit ''block '' = lit ''block'' @ [32]" "lit ''occurrence '' = lit ''occurrence'' @ [32]"
  by (simp_all add: lit_def)

lemma occurrence_line_toks: "occurrence_line = (\<lambda>e. join (occurrence_toks e) @ [10])"
  by (rule ext) (simp add: occurrence_line_def occurrence_toks_def batch_fields_def batch_toks_def lit_space split: option.split)

lemma block_lines_toks:
  "concat (map (\<lambda>(i, h). block_line (f + i) h) (enumerate n hs)) = unlines (map (\<lambda>p. join (block_toks p)) (enumerate (f + n) hs))"
  by (induction hs arbitrary: n) (simp_all add: unlines_def block_line_def block_toks_def lit_space)

lemma index_body_lines: "index_body idx = unlines (MAGIC # map join (index_toks idx))"
  by (simp add: index_body_def index_toks_def unlines_def lit_space block_lines_toks [of _ 0, simplified, unfolded unlines_def] occurrence_line_toks o_def)

text \<open>An index the file can hold: arrays at their sizes and heights within the 64-bit range.\<close>

definition entry_sized :: "scanned_anchor \<Rightarrow> bool" where
  "entry_sized e \<longleftrightarrow> length (sa_txid e) = 32 \<and> length (sa_ctx e) = 32 \<and> record_sized (sa_record e) \<and>
     (case sa_batch e of None \<Rightarrow> True | Some b \<Rightarrow> bc_envelope b \<noteq> [] \<and> list_all (\<lambda>p. length p = 24) (bc_envelope b))"

definition index_sized :: "scan_index \<Rightarrow> bool" where
  "index_sized idx \<longleftrightarrow> si_synced_tip idx \<le> U64_MAX \<and> 1 \<le> si_from_height idx \<and> si_from_height idx \<le> Suc (si_synced_tip idx) \<and> si_from_height idx \<le> U64_MAX \<and>
     length (si_chain_hashes idx) = Suc (si_synced_tip idx) - si_from_height idx \<and> list_all (\<lambda>h. length h = 32) (si_chain_hashes idx) \<and>
     list_all entry_sized (si_occurrences idx) \<and> sorted (map sa_location (si_occurrences idx)) \<and>
     list_all (\<lambda>e. si_from_height idx \<le> unat (al_height (sa_location e)) \<and> unat (al_height (sa_location e)) \<le> si_synced_tip idx) (si_occurrences idx)"

lemma occurrence_tokens: "entry_sized e \<Longrightarrow> list_all token (occurrence_toks e)"
proof -
  assume e: "entry_sized e"
  then have "to_bytes (sa_record e) \<noteq> []" using length_to_bytes [of "sa_record e"] by (auto simp: entry_sized_def ANCHOR_SIZE_def simp del: to_bytes.simps)
  moreover have "sa_ctx e \<noteq> []" using e by (auto simp: entry_sized_def)
  moreover have "concat (bc_envelope b) \<noteq> []" if "sa_batch e = Some b" for b
    using e that by (cases "bc_envelope b") (auto simp: entry_sized_def)
  ultimately show ?thesis using e
    by (auto simp: occurrence_toks_def batch_toks_def entry_sized_def split: option.split batch_version.split simp del: to_bytes.simps)
qed

section \<open>Reading the lines back\<close>

definition reloaded :: "scanned_anchor \<Rightarrow> scanned_anchor" where
  "reloaded e = e\<lparr>sa_record := from_bytes (to_bytes (sa_record e))\<rparr>"

lemma hex_field_to_hex [simp]: "hex_field (to_hex bs) f = f bs"
  by (simp add: hex_field_def from_to_hex)

lemma or_rebuild_Some [simp]: "or_rebuild (Some x) f = f x"
  by (simp add: or_rebuild_def)

lemma parse_batch_toks:
  assumes "case batch of None \<Rightarrow> True | Some b \<Rightarrow> list_all (\<lambda>p. length p = 24) (bc_envelope b)"
  shows "parse_batch (batch_toks batch) = Some (Some batch)"
proof (cases batch)
  case (Some b)
  with assms have p: "list_all (\<lambda>p. length p = 24) (bc_envelope b)" by simp
  have "length (concat (bc_envelope b)) = 24 * length (bc_envelope b)" "chunks 24 (concat (bc_envelope b)) = bc_envelope b"
    using chunks_concat [of 24, OF _ p] by simp_all
  then show ?thesis using Some by (cases b) (simp add: batch_toks_def parse_batch_def split: batch_version.split)
qed (simp add: batch_toks_def parse_batch_def)

lemma parse_occurrence_toks:
  assumes "entry_sized e"
  shows "parse_line net (occurrence_toks e) s = Some (Some (s\<lparr>ip_occurrences := ip_occurrences s @ [reloaded e]\<rparr>))"
proof -
  have len: "length (to_bytes (sa_record e)) = 64" using assms length_to_bytes by (auto simp: entry_sized_def ANCHOR_SIZE_def)
  have "parse_batch (batch_toks (sa_batch e)) = Some (Some (sa_batch e))"
    using assms by (intro parse_batch_toks) (auto simp: entry_sized_def split: option.splits)
  then have "parse_occurrence (decimal (unat (al_height (sa_location e)))) (decimal (unat (al_position (sa_location e))))
      (hash_to_display (sa_txid e)) (to_hex (sa_ctx e)) (to_hex (to_bytes (sa_record e))) (batch_toks (sa_batch e)) = Some (Some (reloaded e))"
    using assms len by (simp add: parse_occurrence_def hash_to_display_def sized_def entry_sized_def reloaded_def del: to_bytes.simps)
  then show ?thesis by (simp add: occurrence_toks_def parse_line_def del: to_bytes.simps)
qed

lemma parse_block_toks:
  "length h = 32 \<Longrightarrow> ht \<le> U64_MAX \<Longrightarrow> parse_line net (block_toks (ht, h)) s = Some (Some (s\<lparr>ip_chain_hashes := ip_chain_hashes s @ [(ht, h)]\<rparr>))"
  by (simp add: block_toks_def parse_line_def hash_to_display_def sized_def)

lemma parse_occurrence_lines:
  "list_all entry_sized es \<Longrightarrow> parse_lines net (map (\<lambda>e. join (occurrence_toks e)) es) s =
     Some (Some (s\<lparr>ip_occurrences := ip_occurrences s @ map reloaded es\<rparr>))"
  by (induction es arbitrary: s) (simp_all add: split_join occurrence_tokens parse_occurrence_toks)

lemma block_tokens: "length h = 32 \<Longrightarrow> list_all token (block_toks (ht, h))"
  by (simp add: block_toks_def)

lemma block_tokens_all: "list_all (\<lambda>h. length h = 32) hs \<Longrightarrow> list_all (list_all token) (map block_toks (enumerate n hs))"
  by (induction hs arbitrary: n) (simp_all add: block_tokens)

lemma parse_block_lines:
  "list_all (\<lambda>h. length h = 32) hs \<Longrightarrow> hs = [] \<or> f + length hs - 1 \<le> U64_MAX \<Longrightarrow>
     parse_lines net (map (\<lambda>p. join (block_toks p)) (enumerate f hs) @ rest) s =
     parse_lines net rest (s\<lparr>ip_chain_hashes := ip_chain_hashes s @ enumerate f hs\<rparr>)"
  by (induction hs arbitrary: f s) (auto simp: split_join block_tokens parse_block_toks)

lemma out_of_order_sorted: "out_of_order es \<longleftrightarrow> \<not> sorted (map sa_location es)"
  by (induction es rule: out_of_order.induct) (simp_all add: sorted1 sorted2 not_le del: sorted_wrt.simps(2))

lemma decode_index_body:
  assumes "index_sized idx"
  shows "decode_body (index_body idx) (si_network idx) =
    Some (Some (si_from_height idx, si_synced_tip idx, si_chain_hashes idx, map reloaded (si_occurrences idx)))"
proof -
  let ?s = "\<lparr>ip_saw_network = True, ip_from_height = Some (si_from_height idx), ip_synced_tip = Some (si_synced_tip idx),
      ip_chain_hashes = enumerate (si_from_height idx) (si_chain_hashes idx), ip_occurrences = map reloaded (si_occurrences idx)\<rparr>"
  let ?hs = "enumerate (si_from_height idx) (si_chain_hashes idx)"
  have bound: "si_chain_hashes idx = [] \<or> si_from_height idx + length (si_chain_hashes idx) - 1 \<le> U64_MAX"
    using assms by (auto simp: index_sized_def)
  have toks: "list_all (list_all token) (index_toks idx)"
    using assms by (simp add: index_toks_def index_sized_def block_tokens_all) (auto simp: list_all_iff occurrence_tokens [unfolded list_all_iff])
  have plain: "list_all plain_line (MAGIC # map join (index_toks idx))"
    using toks plain_join plain_join [of "[MAGIC]"] by (auto simp: list_all_iff)
  have "parse_lines (si_network idx) (map join (index_toks idx)) \<lparr>ip_saw_network = False, ip_from_height = None, ip_synced_tip = None,
      ip_chain_hashes = [], ip_occurrences = []\<rparr> = Some (Some ?s)"
    using assms bound
    by (simp add: index_toks_def o_def split_join [of "[_, _]", simplified] parse_line_def network_name_parse index_sized_def parse_block_lines parse_occurrence_lines)
  moreover have "check_parse ?s = Some (si_from_height idx, si_synced_tip idx, si_chain_hashes idx, map reloaded (si_occurrences idx))"
  proof -
    have "\<not> list_ex (\<lambda>(i, h, _). f + i > U64_MAX \<or> f + i \<noteq> h) (enumerate n (enumerate (f + n) hs))"
      if "hs = [] \<or> f + n + length hs - 1 \<le> U64_MAX" for f n and hs :: "bytes list"
      using that
    proof (induction hs arbitrary: n)
      case (Cons h hs)
      then show ?case using Cons.IH [of "Suc n"] by auto
    qed simp
    from this [of "si_chain_hashes idx" "si_from_height idx" 0] bound
    have "\<not> list_ex (\<lambda>(i, h, _). si_from_height idx + i > U64_MAX \<or> si_from_height idx + i \<noteq> h) (enumerate 0 ?hs)" by simp
    moreover have "map sa_location (map reloaded es) = map sa_location es" for es by (simp add: reloaded_def)
    ultimately show ?thesis using assms
      by (auto simp: check_parse_def index_sized_def out_of_order_sorted list_ex_iff list_all_iff reloaded_def simp flip: map_map)
  qed
  moreover have "trim MAGIC = MAGIC" by (rule trim_no_space) (use token_tags(8) in \<open>auto simp: token_def list_all_iff\<close>)
  ultimately show ?thesis unfolding decode_body_def index_body_lines lines_unlines [OF plain] by simp
qed

lemma as_bytes_of_body: "verified_body sha (index_body idx @ lit ''checksum '' @ to_hex (sha (as_bytes (index_body idx))) @ [10]) = Some (Some (index_body idx))"
proof -
  obtain pre where pre: "index_body idx = pre @ [10]" unfolding index_body_lines unlines_def by (cases "map join (index_toks idx)" rule: rev_cases) auto
  let ?tail = "lit ''checksum '' @ to_hex (sha (as_bytes (index_body idx)))"
  have "10 \<notin> set (to_hex bs)" for bs using to_hex_ascii [of bs] by (auto simp: list_all_iff)
  then have "10 \<notin> set ?tail" by (simp add: lit_def)
  then have "rsplit_newline (pre @ 10 # ?tail) = Some (pre, ?tail)" by (rule rsplit_line)
  moreover have "strip_prefix (lit ''checksum '') ?tail = Some (to_hex (sha (as_bytes (index_body idx))))"
    by (simp add: strip_prefix_def starts_with_def)
  ultimately show ?thesis unfolding verified_body_def by (simp add: pre butlast_append)
qed

lemma open_persisted:
  assumes "index_sized idx"
  obtains written where "scan_index_persist sha idx = Some written"
    "scan_index_open sha (si_network idx) (Contents written) =
       Some (Inr ((scan_index_new (si_network idx))\<lparr>si_from_height := si_from_height idx, si_synced_tip := si_synced_tip idx,
         si_chain_hashes := si_chain_hashes idx, si_occurrences := map reloaded (si_occurrences idx), si_load_status := Loaded\<rparr>))"
proof -
  have "\<not> (si_chain_hashes idx \<noteq> [] \<and> si_from_height idx + (length (si_chain_hashes idx) - 1) > U64_MAX)"
    using assms by (auto simp: index_sized_def)
  then have "scan_index_persist sha idx = Some (index_body idx @ lit ''checksum '' @ to_hex (sha (as_bytes (index_body idx))) @ [10])"
    by (simp add: scan_index_persist_def)
  then show thesis
    by (rule that) (simp add: scan_index_open_def as_bytes_of_body decode_index_body [OF assms] Let_def)
qed

lemma reopened_eq:
  "(scan_index_new (si_network idx))\<lparr>si_from_height := si_from_height idx, si_synced_tip := si_synced_tip idx,
     si_chain_hashes := si_chain_hashes idx, si_occurrences := si_occurrences idx, si_load_status := Loaded\<rparr> =
   idx\<lparr>si_filters_bytes := 0, si_blocks_bytes := 0, si_blocks_fetched := 0, si_load_status := Loaded\<rparr>"
  by (simp add: scan_index_new_def)

section \<open>What a scan stores fits the file\<close>

lemma envelope_sized: "witness_envelope_decode w = Some (v, ps) \<Longrightarrow> ps \<noteq> [] \<and> list_all (\<lambda>p. length p = 24) ps"
proof (cases w)
  case (Cons magic rest)
  assume d: "witness_envelope_decode w = Some (v, ps)"
  have v1: "envelope_decode xs = Some qs \<Longrightarrow> qs \<noteq> [] \<and> list_all (\<lambda>p. length p = 24) qs" for xs qs
    by (cases xs) (auto simp: list_all_iff TRUNCATED_DIGEST_BYTES_def split: if_splits)
  have "slice 1 (length w - 2) w \<noteq> []" if "4 \<le> length w" using that by (auto simp: slice_def)
  then show ?thesis using d v1 Cons
    by (auto simp: Let_def list_all_iff list_ex_iff TRUNCATED_DIGEST_BYTES_def WITNESS_MAGIC_def WITNESS_MAGIC_V2_def simp del: envelope_decode.simps split: if_splits)
qed simp

lemma payload_length: "op_return_payload s = Some p \<Longrightarrow> length p = 64"
  by (cases s) (auto split: if_splits option.splits)

lemma tx_anchors_entry:
  assumes "e \<in> set (tx_anchors sha ht pos tx)"
  obtains payload t v where "candidate_payload tx = Some payload" "sa_record e = from_bytes payload" "sa_txid e = tx_txid sha tx"
    "sa_ctx e = cbf_funding_ctx sha t v" "\<And>b. sa_batch e = Some b \<Longrightarrow> first_envelope tx = Some (bc_version b, bc_envelope b)"
proof (cases "candidate_payload tx")
  case None
  then show thesis using assms by (simp add: tx_anchors_def Let_def split: if_splits list.splits)
next
  case (Some payload)
  then show thesis using assms that [OF Some]
    by (cases "from_bytes payload") (auto simp: tx_anchors_def Let_def split: if_splits list.splits option.splits)
qed

lemma tx_anchors_sized:
  assumes "sha_ok sha" "e \<in> set (tx_anchors sha ht pos tx)"
  shows "entry_sized e"
proof -
  have "record_sized (from_bytes payload)" if "candidate_payload tx = Some payload" for payload
  proof -
    from find_map_Some [OF that [unfolded candidate_payload_def]] have "length payload = 64" using payload_length by blast
    then show ?thesis by (simp add: from_bytes_sized ANCHOR_SIZE_def)
  qed
  moreover have "ps \<noteq> [] \<and> list_all (\<lambda>p. length p = 24) ps" if "first_envelope tx = Some (v, ps)" for v ps
    using that envelope_sized by (auto simp: first_envelope_def split: list.splits)
  ultimately show ?thesis using assms(1)
    by (rule_tac tx_anchors_entry [OF assms(2)])
      (auto simp: entry_sized_def sha_ok_def tx_txid_def sha256d_def cbf_funding_ctx_def split: option.split)
qed

lemma started_sized:
  assumes "sha_ok sha" "chain_ok sha c" "length (hc_hashes c) < 2 ^ 64" "index_started sha S c idx"
  shows "index_sized idx"
proof -
  from assms(4) obtain hbs where on: "index_on c idx" and hbs: "si_occurrences idx = block_anchors sha hbs"
    "accounts_for sha S c (si_from_height idx) (Suc (si_synced_tip idx)) hbs" by (auto simp: index_started_def)
  have hash: "length h = 32" if "h \<in> set (hc_hashes c)" for h
    using that assms(1,2) by (auto simp: chain_ok_def header_hash_def sha256d_def sha_ok_def)
  then have "length h = 32" if "h \<in> set (si_chain_hashes idx)" for h
    using that on by (fastforce simp: index_on_def in_set_conv_nth hash_at_def split: if_splits)
  moreover have "entry_sized e \<and> si_from_height idx \<le> unat (al_height (sa_location e)) \<and> unat (al_height (sa_location e)) \<le> si_synced_tip idx"
    if e: "e \<in> set (si_occurrences idx)" for e
  proof -
    from e hbs(1) obtain ht b where b: "(ht, b) \<in> set hbs" "e \<in> set (anchors_in_block sha b ht)" by (auto simp: block_anchors_def)
    then have "si_from_height idx \<le> ht" "ht \<le> si_synced_tip idx" "ht < length (hc_hashes c)"
      using hbs(2) by (fastforce simp: accounts_for_def read_at_def hash_at_def split: if_splits)+
    moreover have "unat (al_height (sa_location e)) = ht" using location_of_anchor [OF b(2)] calculation assms(3) by (simp add: unat_of_nat)
    ultimately show ?thesis using b(2) tx_anchors_sized [OF assms(1)] by (auto simp: anchors_in_block_mem)
  qed
  moreover have "sorted (map sa_location (si_occurrences idx))"
    using started_apart [OF assms(4,3)] unfolding entries_apart_def sorted_map apart_def
    by (rule sorted_wrt_mono_rel [rotated]) auto
  moreover have "si_synced_tip idx \<le> U64_MAX" using next_height [OF on assms(3)] on by (auto simp: index_on_def)
  ultimately show ?thesis using on by (auto simp: index_sized_def index_on_def list_all_iff)
qed

section \<open>Properties\<close>



text \<open>
  Claim C23. Persisting and reopening an index gives it back: same start, tip, lineage and
  occurrences, loaded without complaint, when no stored transfer record starts like a tagged one (the
  bandwidth counters start again from zero).
\<close>

theorem index_file_roundtrip:
  assumes "index_sized idx"
    and "list_all (\<lambda>e. case sa_record e of Xfer p q \<Rightarrow> \<not> tag_collision p q | XferCompressed p \<Rightarrow> False | _ \<Rightarrow> True) (si_occurrences idx)"
  shows "\<exists>written. scan_index_persist sha idx = Some written \<and>
    scan_index_open sha (si_network idx) (Contents written) =
      Some (Inr (idx\<lparr>si_filters_bytes := 0, si_blocks_bytes := 0, si_blocks_fetched := 0, si_load_status := Loaded\<rparr>))"
proof -
  have "reloaded e = e" if "e \<in> set (si_occurrences idx)" for e
  proof -
    have sized: "record_sized (sa_record e)" and ok: "case sa_record e of Xfer p q \<Rightarrow> \<not> tag_collision p q | XferCompressed p \<Rightarrow> False | _ \<Rightarrow> True"
      using assms that by (auto simp: index_sized_def entry_sized_def list_all_iff)
    have "from_bytes (to_bytes (sa_record e)) = sa_record e"
    proof (cases "sa_record e")
      case (Xfer p q)
      then show ?thesis using sized ok from_bytes_untagged [of p q] by (simp add: to_bytes_layout del: to_bytes.simps)
    qed (use sized ok in \<open>simp_all add: from_to_bytes_tagged del: to_bytes.simps\<close>)
    then show ?thesis by (simp add: reloaded_def)
  qed
  then have eq: "map reloaded (si_occurrences idx) = si_occurrences idx" by (simp add: map_idI)
  from open_persisted [OF assms(1), of sha] obtain written where "scan_index_persist sha idx = Some written"
    "scan_index_open sha (si_network idx) (Contents written) =
       Some (Inr (idx\<lparr>si_filters_bytes := 0, si_blocks_bytes := 0, si_blocks_fetched := 0, si_load_status := Loaded\<rparr>))"
    unfolding eq reopened_eq by blast
  then show ?thesis by blast
qed

text \<open>
  Claim C22. An index forgets a spend when it is reopened. A record that is read as a transfer because its
  padding is not zero, though its first byte is the tag of a mint, is written back with zero padding and
  so read as a mint from the file. If it was the only record binding a nullifier, the index finds the
  occurrence before it is persisted and reports none after it is reopened, with the checksum intact and the
  file accepted as loaded.
\<close>

theorem reload_forgets_spend:
  assumes "index_sized idx" "e \<in> set (si_occurrences idx)" "sa_batch e = None" "sa_record e = Xfer p q" "p ! 0 = TAG_MINT" "binds sp e nf"
    and only: "\<forall>e' \<in> set (si_occurrences idx). binds sp e' nf \<or> binds sp (reloaded e') nf \<longrightarrow> e' = e"
  shows "first_nullifier_occurrence (scan_index_view sp idx) nf = Some (sa_location e) \<and>
    (\<exists>written idx'. scan_index_persist sha idx = Some written \<and> scan_index_open sha (si_network idx) (Contents written) = Some (Inr idx') \<and>
       si_load_status idx' = Loaded \<and> first_nullifier_occurrence (scan_index_view sp idx') nf = None)"
proof -
  have len: "length p = 24" "length q = 24" using assms(1,2,4) by (auto simp: index_sized_def entry_sized_def list_all_iff)
  have "payload_slots (from_bytes (to_bytes (Xfer p q))) = []"
    using len assms(5) by (simp add: to_bytes_layout from_bytes_def nth_append padded_def del: to_bytes.simps)
  then have "\<not> binds sp (reloaded e) nf" using assms(3,4) by (simp add: binds_def reloaded_def well_formed_iff_slot del: to_bytes.simps)
  then have gone: "entries_occ sp (map reloaded (si_occurrences idx)) nf = {}" using only by (auto simp: entries_occ_def)
  have here: "entries_occ sp (si_occurrences idx) nf = {sa_location e}" using only assms(2,6) unfolding entries_occ_def by blast
  from open_persisted [OF assms(1), of sha] obtain written where w: "scan_index_persist sha idx = Some written"
    "scan_index_open sha (si_network idx) (Contents written) =
       Some (Inr ((scan_index_new (si_network idx))\<lparr>si_from_height := si_from_height idx, si_synced_tip := si_synced_tip idx,
         si_chain_hashes := si_chain_hashes idx, si_occurrences := map reloaded (si_occurrences idx), si_load_status := Loaded\<rparr>))" by blast
  let ?idx = "(scan_index_new (si_network idx))\<lparr>si_from_height := si_from_height idx, si_synced_tip := si_synced_tip idx,
         si_chain_hashes := si_chain_hashes idx, si_occurrences := map reloaded (si_occurrences idx), si_load_status := Loaded\<rparr>"
  have "first_nullifier_occurrence (scan_index_view sp idx) nf = Some (sa_location e)" by (simp add: scan_index_view_def scanned_first here)
  moreover have "si_load_status ?idx = Loaded" by simp
  moreover have "first_nullifier_occurrence (scan_index_view sp ?idx) nf = None" by (simp add: scan_index_view_def scanned_first gone)
  ultimately show ?thesis using w by blast
qed

text \<open>Such a transfer, under a sponge whose digests start with the tag of a mint.\<close>

definition one_sponge :: sponge where "one_sponge xs = 1 # replicate 7 0"

definition demo_payload_one :: truncated_digest where "demo_payload_one = 1 # replicate 23 0"

definition demo_dirty_tx :: cbf_tx where
  "demo_dirty_tx = demo_tx\<lparr>ct_outputs := [\<lparr>cx_value = 0, cx_script_pubkey = anchor_script (demo_payload_one @ zero24 @ replicate 16 1)\<rparr>]\<rparr>"

definition demo_dirty_index :: scan_index where
  "demo_dirty_index = (demo_index 1 1 [replicate 32 5])\<lparr>si_occurrences := tx_anchors demo_sha 1 0 demo_dirty_tx\<rparr>"

lemma one_sponge_binding: "length nf = 32 \<Longrightarrow> k_binding one_sponge nf ctx = demo_payload_one"
proof -
  have "sponge_ok one_sponge" by (simp add: sponge_ok_def one_sponge_def DIGEST_ELEMS_def BABY_BEAR_P_def)
  moreover have "to_anchor (from_elems (1 # replicate 7 0)) = demo_payload_one" by code_simp
  moreover assume "length nf = 32"
  ultimately show ?thesis by (subst k_binding_input) (simp_all add: one_sponge_def)
qed

lemma demo_dirty_anchors:
  "tx_anchors demo_sha 1 0 demo_dirty_tx =
     [\<lparr>sa_location = \<lparr>al_height = 1, al_position = 0\<rparr>, sa_txid = tx_txid demo_sha demo_dirty_tx, sa_record = Xfer demo_payload_one zero24,
       sa_ctx = cbf_funding_ctx demo_sha (replicate 32 9) 1, sa_batch = None\<rparr>]"
proof -
  let ?bs = "demo_payload_one @ zero24 @ replicate 16 (1 :: byte)"
  have "length ?bs = 64" by (simp add: demo_payload_one_def zero24_def)
  then have "candidate_payload demo_dirty_tx = Some ?bs"
    by (simp add: candidate_payload_def demo_dirty_tx_def payload_of_script del: op_return_payload.simps)
  moreover have "from_bytes ?bs = Xfer demo_payload_one zero24" by code_simp
  moreover have "ct_inputs demo_dirty_tx = ct_inputs demo_tx" by (simp add: demo_dirty_tx_def)
  ultimately show ?thesis by (simp add: tx_anchors_def is_coinbase_def demo_tx_def Let_def)
qed

lemmas demo_dirty = demo_dirty_anchors demo_dirty_anchors [unfolded One_nat_def]

theorem reload_forgets_spend_witness:
  "\<exists>written idx'. first_nullifier_occurrence (scan_index_view one_sponge demo_dirty_index) (replicate 32 0) = Some \<lparr>al_height = 1, al_position = 0\<rparr> \<and>
     scan_index_persist demo_sha demo_dirty_index = Some written \<and> scan_index_open demo_sha Regtest (Contents written) = Some (Inr idx') \<and>
     first_nullifier_occurrence (scan_index_view one_sponge idx') (replicate 32 0) = None"
proof -
  let ?e = "hd (tx_anchors demo_sha 1 0 demo_dirty_tx)"
  have sized: "index_sized demo_dirty_index"
    using demo_sha_ok by (simp add: index_sized_def demo_dirty_index_def demo_index_def demo_dirty entry_sized_def U64_MAX_def
        tx_txid_def sha256d_def sha_ok_def cbf_funding_ctx_def demo_payload_one_def zero24_def)
  have b: "binds one_sponge ?e (replicate 32 0)" by (simp add: binds_def demo_dirty well_formed_iff_slot one_sponge_binding)
  have n: "si_network demo_dirty_index = Regtest" by (simp add: demo_dirty_index_def demo_index_def)
  have "first_nullifier_occurrence (scan_index_view one_sponge demo_dirty_index) (replicate 32 0) = Some (sa_location ?e) \<and>
    (\<exists>written idx'. scan_index_persist demo_sha demo_dirty_index = Some written \<and> scan_index_open demo_sha (si_network demo_dirty_index) (Contents written) = Some (Inr idx') \<and>
       si_load_status idx' = Loaded \<and> first_nullifier_occurrence (scan_index_view one_sponge idx') (replicate 32 0) = None)"
    by (rule reload_forgets_spend [OF sized, where p = demo_payload_one and q = zero24])
      (use b in \<open>simp_all add: demo_dirty_index_def demo_dirty demo_payload_one_def TAG_MINT_def\<close>)
  then show ?thesis unfolding n by (auto simp: demo_dirty)
qed

theorem index_file_roundtrip_witness:
  "\<exists>written. scan_index_persist demo_sha (demo_index 1 1 [replicate 32 5]) = Some written \<and>
     scan_index_open demo_sha Regtest (Contents written) = Some (Inr ((demo_index 1 1 [replicate 32 5])\<lparr>si_load_status := Loaded\<rparr>))"
proof -
  have "index_sized (demo_index 1 1 [replicate 32 5])" by (simp add: index_sized_def demo_index_def U64_MAX_def)
  from index_file_roundtrip [OF this, of demo_sha] show ?thesis by (simp add: demo_index_def)
qed

end
