(* ===== verification/Cbf_Batch.thy ===== *)
theory Cbf_Batch
  imports Cbf_Client Batch_V2
begin

text \<open>
  Verified inputs of a signed batch, \<open>crates/opencsv-cbf/src/batch.rs\<close>, and the signer material of a
  manifest (\<open>psbt\<close> of \<open>batch_v2.rs\<close>). The clock is an argument, \<open>None\<close> before the Unix epoch. Whether the
  PSBT library takes a transaction as unsigned is a parameter. An outer \<open>None\<close> is a panic of the client.
\<close>

section \<open>Signer material\<close>

record psbt_input =
  witness_utxo :: "tx_out option"
  witness_script :: "bytes option"
  psbt_sighash :: "u32 option"

record psbt =
  psbt_tx :: transaction
  psbt_inputs :: "psbt_input list"

definition manifest_psbt ::
  "(transaction \<Rightarrow> bool) \<Rightarrow> btc_env \<Rightarrow> sponge \<Rightarrow> manifest \<Rightarrow> proposal \<Rightarrow> rejection_reason + psbt" where
  "manifest_psbt from_unsigned_ok env sp m p =
     and_then (manifest_validate env sp m p) (\<lambda>_.
     if \<not> from_unsigned_ok (unsigned_tx m) then Inl InvalidSerialization
     else
       (let blank = replicate (length (tx_input (unsigned_tx m))) \<lparr>witness_utxo = None, witness_script = None, psbt_sighash = None\<rparr>;
            stock = \<lparr>witness_utxo = Some \<lparr>out_value = stock_value p, script_pubkey = stock_script_pubkey env p\<rparr>,
                     witness_script = Some (proposal_witness_script env p), psbt_sighash = Some SIGHASH_ALL\<rparr>;
            fees = map (\<lambda>(i, c). i\<lparr>witness_utxo := Some (fee_prevout c), psbt_sighash := Some SIGHASH_ALL\<rparr>) (zip (drop 1 blank) (mf_commitments m))
        in Inr \<lparr>psbt_tx = unsigned_tx m, psbt_inputs = stock # fees @ drop (length (mf_commitments m)) (drop 1 blank)\<rparr>))"

section \<open>Receipts\<close>

record verified_chain_tip =
  vt_chain_id :: bytes
  vt_height :: nat
  vt_hash :: bytes
  vt_verified_at :: u64

record verified_batch_outpoint =
  vo_outpoint :: outpoint
  vo_creation_height :: nat
  vo_checked_through :: nat
  vo_matched_blocks :: nat

record verified_batch_inputs =
  vb_batch_id :: bytes
  vb_manifest_id :: bytes
  vb_tip_height :: nat
  vb_tip_hash :: bytes
  vb_verified_at :: u64
  vb_stock :: verified_batch_outpoint
  vb_participants :: "verified_batch_outpoint list"

record verified_commitment_inputs =
  vc_batch_id :: bytes
  vc_commitment_id :: bytes
  vc_verified_at :: u64
  vc_stock :: verified_batch_outpoint
  vc_fee :: verified_batch_outpoint

record batch_input_birth_heights =
  bb_stock :: nat
  bb_participants :: "nat list"

record commitment_input_birth_heights =
  cb_stock :: nat
  cb_fee :: nat

text \<open>\<open>std::time::Duration\<close>: whole seconds and nanoseconds.\<close>

record duration =
  d_secs :: u64
  d_nanos :: u32

definition unix_time :: "u64 option \<Rightarrow> cbf_error + u64" where
  "unix_time clock = ok_or InvalidInput clock"

definition require_fresh_timestamp :: "u64 option \<Rightarrow> u64 \<Rightarrow> duration \<Rightarrow> cbf_error + unit" where
  "require_fresh_timestamp clock timestamp max_age =
     (if d_secs max_age = 0 \<and> d_nanos max_age = 0 then Inl InvalidInput
      else and_then (unix_time clock) (\<lambda>now.
        and_then (ok_or InvalidInput (checked_sub now timestamp)) (\<lambda>age.
        if age > d_secs max_age then Inl InvalidInput else Inr ())))"

definition tip_require_fresh :: "u64 option \<Rightarrow> verified_chain_tip \<Rightarrow> duration \<Rightarrow> cbf_error + unit" where
  "tip_require_fresh clock t max_age = require_fresh_timestamp clock (vt_verified_at t) max_age"

definition commitment_require_fresh_for ::
  "btc_env \<Rightarrow> u64 option \<Rightarrow> verified_commitment_inputs \<Rightarrow> proposal \<Rightarrow> participant_commitment \<Rightarrow> duration \<Rightarrow> cbf_error + unit" where
  "commitment_require_fresh_for env clock v p c max_age =
     (if vc_batch_id v \<noteq> batch_id env p \<or> vc_commitment_id v \<noteq> commitment_id env c then Inl InvalidInput
      else require_fresh_timestamp clock (vc_verified_at v) max_age)"

definition batch_require_fresh_for ::
  "btc_env \<Rightarrow> u64 option \<Rightarrow> verified_batch_inputs \<Rightarrow> proposal \<Rightarrow> manifest \<Rightarrow> duration \<Rightarrow> cbf_error + unit" where
  "batch_require_fresh_for env clock v p m max_age =
     (if vb_batch_id v \<noteq> batch_id env p \<or> vb_manifest_id v \<noteq> manifest_id env m then Inl InvalidInput
      else require_fresh_timestamp clock (vb_verified_at v) max_age)"

section \<open>Verification\<close>

definition verified_tip_receipt :: "u64 option \<Rightarrow> cbf_client \<Rightarrow> (cbf_error + verified_chain_tip) option" where
  "verified_tip_receipt clock cl =
     (case client_tip_height cl of
        None \<Rightarrow> None
      | Some ht \<Rightarrow> Some
          (and_then (ok_or Consensus (block_hash_at cl ht)) (\<lambda>h.
           and_then (unix_time clock) (\<lambda>now.
           Inr \<lparr>vt_chain_id = pa_genesis_hash (hc_params (cc_chain cl)), vt_height = ht, vt_hash = h, vt_verified_at = now\<rparr>))))"

definition verify_expected ::
  "sha256_fn \<Rightarrow> outpoint \<Rightarrow> u64 \<Rightarrow> bytes \<Rightarrow> nat \<Rightarrow> nat \<Rightarrow> cbf_client \<Rightarrow> ((cbf_error + verified_batch_outpoint) \<times> cbf_client) option" where
  "verify_expected sha outpoint expected_value expected_script birth max_blocks cl =
     map_option (\<lambda>(r, cl). (and_then r (\<lambda>verdict.
         case verdict of
           Unspent creation_height checked_through matched_blocks \<Rightarrow>
             Inr \<lparr>vo_outpoint = outpoint, vo_creation_height = creation_height, vo_checked_through = checked_through,
                  vo_matched_blocks = matched_blocks\<rparr>
         | Spent _ _ _ \<Rightarrow> Inl InvalidInput
         | NotFound _ _ \<Rightarrow> Inl InvalidInput
         | OutputMismatch _ \<Rightarrow> Inl InvalidInput), cl))
       (verify_outpoint_unspent sha \<lparr>co_txid = op_txid outpoint, co_vout = op_vout outpoint\<rparr> expected_value expected_script birth max_blocks cl)"

definition verify_stock :: "sha256_fn \<Rightarrow> btc_env \<Rightarrow> proposal \<Rightarrow> nat \<Rightarrow> nat \<Rightarrow> cbf_client \<Rightarrow> ((cbf_error + verified_batch_outpoint) \<times> cbf_client) option" where
  "verify_stock sha env p birth max_blocks cl =
     verify_expected sha (stock_outpoint p) (stock_value p) (stock_script_pubkey env p) birth max_blocks cl"

definition verify_fee :: "sha256_fn \<Rightarrow> participant_commitment \<Rightarrow> nat \<Rightarrow> nat \<Rightarrow> cbf_client \<Rightarrow> ((cbf_error + verified_batch_outpoint) \<times> cbf_client) option" where
  "verify_fee sha c birth max_blocks cl =
     verify_expected sha (fee_outpoint c) (out_value (fee_prevout c)) (script_pubkey (fee_prevout c)) birth max_blocks cl"

definition verify_commitment_inputs ::
  "sha256_fn \<Rightarrow> btc_env \<Rightarrow> u64 option \<Rightarrow> proposal \<Rightarrow> participant_commitment \<Rightarrow> commitment_input_birth_heights \<Rightarrow> nat \<Rightarrow> cbf_client \<Rightarrow>
   ((cbf_error + verified_commitment_inputs) \<times> cbf_client) option" where
  "verify_commitment_inputs sha env clock p c births max_blocks cl =
     (case verify_stock sha env p (cb_stock births) max_blocks cl of
        None \<Rightarrow> None
      | Some (Inl e, cl) \<Rightarrow> Some (Inl e, cl)
      | Some (Inr stock, cl) \<Rightarrow>
          map_option (\<lambda>(r, cl). (and_then r (\<lambda>fee.
              if vo_checked_through stock \<noteq> vo_checked_through fee then Inl DivergentPeers
              else and_then (unix_time clock) (\<lambda>now.
                Inr \<lparr>vc_batch_id = batch_id env p, vc_commitment_id = commitment_id env c, vc_verified_at = now, vc_stock = stock, vc_fee = fee\<rparr>)), cl))
            (verify_fee sha c (cb_fee births) max_blocks cl))"

fun verify_participants ::
  "sha256_fn \<Rightarrow> (participant_commitment \<times> nat) list \<Rightarrow> nat \<Rightarrow> verified_batch_outpoint list \<Rightarrow> cbf_client \<Rightarrow>
   ((cbf_error + verified_batch_outpoint list) \<times> cbf_client) option" where
  "verify_participants sha [] max_blocks acc cl = Some (Inr acc, cl)"
| "verify_participants sha ((c, birth) # rest) max_blocks acc cl =
     (case verify_fee sha c birth max_blocks cl of
        None \<Rightarrow> None
      | Some (Inl e, cl) \<Rightarrow> Some (Inl e, cl)
      | Some (Inr receipt, cl) \<Rightarrow> verify_participants sha rest max_blocks (acc @ [receipt]) cl)"

definition verify_batch_inputs ::
  "sha256_fn \<Rightarrow> (transaction \<Rightarrow> bool) \<Rightarrow> btc_env \<Rightarrow> sponge \<Rightarrow> u64 option \<Rightarrow> proposal \<Rightarrow> manifest \<Rightarrow> batch_input_birth_heights \<Rightarrow> nat \<Rightarrow> cbf_client \<Rightarrow>
   ((cbf_error + verified_batch_inputs) \<times> cbf_client) option" where
  "verify_batch_inputs sha from_unsigned_ok env sp clock p m births max_blocks cl =
     (case manifest_psbt from_unsigned_ok env sp m p of
        Inl _ \<Rightarrow> Some (Inl InvalidInput, cl)
      | Inr _ \<Rightarrow>
          (if length (bb_participants births) \<noteq> length (mf_commitments m) then Some (Inl InvalidInput, cl)
           else case verify_stock sha env p (bb_stock births) max_blocks cl of
             None \<Rightarrow> None
           | Some (Inl e, cl) \<Rightarrow> Some (Inl e, cl)
           | Some (Inr stock, cl) \<Rightarrow>
               (case verify_participants sha (zip (mf_commitments m) (bb_participants births)) max_blocks [] cl of
                  None \<Rightarrow> None
                | Some (Inl e, cl) \<Rightarrow> Some (Inl e, cl)
                | Some (Inr participants, cl) \<Rightarrow>
                    (case client_tip_height cl of
                       None \<Rightarrow> None
                     | Some tip \<Rightarrow> Some
                         (if vo_checked_through stock \<noteq> tip \<or> list_ex (\<lambda>r. vo_checked_through r \<noteq> tip) participants then Inl DivergentPeers
                          else and_then (ok_or Consensus (block_hash_at cl tip)) (\<lambda>h.
                            and_then (unix_time clock) (\<lambda>now.
                            Inr \<lparr>vb_batch_id = batch_id env p, vb_manifest_id = manifest_id env m, vb_tip_height = tip, vb_tip_hash = h,
                                 vb_verified_at = now, vb_stock = stock, vb_participants = participants\<rparr>)), cl)))))"

end
