(* ===== verification/Cbf_Batch_Proofs.thy ===== *)
theory Cbf_Batch_Proofs
  imports Cbf_Batch Cbf_Scan_Index Batch_Safety
begin

text \<open>
  The capability a signer needs: what a verified set of batch inputs guarantees about the transaction
  that is about to be signed, and when it may be used.
\<close>

section \<open>Verification keeps the chains\<close>

lemma outpoint_loop_same:
  "outpoint_loop sha hts birth tip outpoint val script creation m cl = Some (r, cl') \<Longrightarrow> same_chains cl cl'"
proof (induction hts arbitrary: creation m cl)
  case (Cons ht hts)
  show ?case
  proof (cases "filter_matches sha ht script cl")
    case (Some x)
    obtain a cl1 where x: "x = (a, cl1)" by fastforce
    have s: "same_chains cl cl1" using filter_matches_same Some x by blast
    show ?thesis
    proof (cases a)
      case (Inr b)
      show ?thesis
      proof (cases b)
        case True
        obtain h y cl2 where h: "hash_at (cc_chain cl1) ht = Some h" "fetch_checked_block sha h cl1 = Some (y, cl2)"
          using Cons.prems Some x Inr True by (auto split: option.splits)
        have "same_chains cl cl2" using s fetch_checked_block_same [OF h(2)] same_chains_trans by blast
        moreover have "same_chains cl2 cl'"
          using Cons.prems Some x Inr True h Cons.IH
          by (cases y) (auto simp: same_chains_def split: prod.splits outpoint_block_observation.splits)
        ultimately show ?thesis by (rule same_chains_trans)
      next
        case False
        then show ?thesis using Cons Some x Inr s same_chains_trans by fastforce
      qed
    qed (use Cons.prems Some x s in auto)
  qed (use Cons.prems in simp)
qed (simp add: same_chains_def)

lemma verify_expected_ok:
  assumes "verify_expected sha out val script birth max_blocks cl = Some (Inr r, cl')"
  shows "same_chains cl cl'" "vo_outpoint r = out" "client_tip_height cl = Some (vo_checked_through r)"
    "created_at sha cl \<lparr>co_txid = op_txid out, co_vout = op_vout out\<rparr> val script (vo_creation_height r)"
    "\<And>ht. vo_creation_height r \<le> ht \<Longrightarrow> ht \<le> vo_checked_through r \<Longrightarrow> cleared sha cl \<lparr>co_txid = op_txid out, co_vout = op_vout out\<rparr> script ht"
proof -
  from assms obtain vd where vd: "verify_outpoint_unspent sha \<lparr>co_txid = op_txid out, co_vout = op_vout out\<rparr> val script birth max_blocks cl = Some (Inr vd, cl')"
    "(case vd of Unspent a b c \<Rightarrow> Inr \<lparr>vo_outpoint = out, vo_creation_height = a, vo_checked_through = b, vo_matched_blocks = c\<rparr>
       | Spent _ _ _ \<Rightarrow> Inl InvalidInput | NotFound _ _ \<Rightarrow> Inl InvalidInput | OutputMismatch _ \<Rightarrow> Inl InvalidInput) = Inr r"
    by (auto simp: verify_expected_def and_then_Inr)
  then have v: "verify_outpoint_unspent sha \<lparr>co_txid = op_txid out, co_vout = op_vout out\<rparr> val script birth max_blocks cl =
      Some (Inr (Unspent (vo_creation_height r) (vo_checked_through r) (vo_matched_blocks r)), cl')" and o: "vo_outpoint r = out"
    by (cases vd; auto)+
  note u = unspent_meaning [OF v]
  show "vo_outpoint r = out" by (rule o)
  show "client_tip_height cl = Some (vo_checked_through r)"
    "created_at sha cl \<lparr>co_txid = op_txid out, co_vout = op_vout out\<rparr> val script (vo_creation_height r)" using u by simp_all
  show "\<And>ht. vo_creation_height r \<le> ht \<Longrightarrow> ht \<le> vo_checked_through r \<Longrightarrow> cleared sha cl \<lparr>co_txid = op_txid out, co_vout = op_vout out\<rparr> script ht"
    using u by simp
  show "same_chains cl cl'" using v
    by (auto simp: verify_outpoint_unspent_def same_chains_def split: if_splits option.splits dest!: outpoint_loop_same)
qed

section \<open>The capability\<close>

text \<open>The outputs that the transaction of a manifest spends, in the order of its inputs.\<close>

definition batch_prevouts :: "btc_env \<Rightarrow> proposal \<Rightarrow> manifest \<Rightarrow> tx_out list" where
  "batch_prevouts env p m = \<lparr>out_value = stock_value p, script_pubkey = stock_script_pubkey env p\<rparr> # map fee_prevout (mf_commitments m)"

text \<open>A receipt for an input: the output exists as expected and nothing spends it up to the tip.\<close>

definition input_live :: "sha256_fn \<Rightarrow> cbf_client \<Rightarrow> nat \<Rightarrow> verified_batch_outpoint \<Rightarrow> tx_in \<Rightarrow> tx_out \<Rightarrow> bool" where
  "input_live sha cl tip r i prevout \<longleftrightarrow>
     vo_outpoint r = previous_output i \<and> vo_checked_through r = tip \<and>
     created_at sha cl \<lparr>co_txid = op_txid (previous_output i), co_vout = op_vout (previous_output i)\<rparr> (out_value prevout) (script_pubkey prevout) (vo_creation_height r) \<and>
     (\<forall>ht. vo_creation_height r \<le> ht \<and> ht \<le> tip \<longrightarrow>
        cleared sha cl \<lparr>co_txid = op_txid (previous_output i), co_vout = op_vout (previous_output i)\<rparr> (script_pubkey prevout) ht)"

lemma cleared_same: "same_chains cl cl' \<Longrightarrow> cleared sha cl' out script ht \<Longrightarrow> cleared sha cl out script ht"
  by (simp add: cleared_def same_chains_def)

lemma created_same: "same_chains cl cl' \<Longrightarrow> created_at sha cl' out val script ht \<Longrightarrow> created_at sha cl out val script ht"
  by (simp add: created_at_def same_chains_def)

lemma verify_participants_ok:
  "verify_participants sha cbs max_blocks acc cl = Some (Inr rs, cl') \<Longrightarrow> same_chains cl cl' \<and>
     (\<exists>new. rs = acc @ new \<and> list_all2 (\<lambda>r (c, _). vo_outpoint r = fee_outpoint c \<and> client_tip_height cl = Some (vo_checked_through r) \<and>
        input_live sha cl (vo_checked_through r) r (unsigned_input (fee_outpoint c)) (fee_prevout c)) new cbs)"
proof (induction cbs arbitrary: acc cl)
  case (Cons x cbs)
  obtain c birth where x: "x = (c, birth)" by fastforce
  from Cons.prems obtain r cl1 where r: "verify_fee sha c birth max_blocks cl = Some (Inr r, cl1)"
    and rec: "verify_participants sha cbs max_blocks (acc @ [r]) cl1 = Some (Inr rs, cl')"
    by (auto simp: x split: option.splits prod.splits sum.splits)
  note v = verify_expected_ok [OF r [unfolded verify_fee_def]]
  from Cons.IH [OF rec] obtain new where n: "same_chains cl1 cl'" "rs = (acc @ [r]) @ new"
    "list_all2 (\<lambda>r (c, _). vo_outpoint r = fee_outpoint c \<and> client_tip_height cl1 = Some (vo_checked_through r) \<and>
        input_live sha cl1 (vo_checked_through r) r (unsigned_input (fee_outpoint c)) (fee_prevout c)) new cbs" by blast
  have live: "input_live sha cl1 t s i out \<Longrightarrow> input_live sha cl t s i out" for t s i out
    using cleared_same [OF v(1)] created_same [OF v(1)] by (auto simp: input_live_def)
  have tip: "client_tip_height cl1 = client_tip_height cl" using v(1) by (simp add: client_tip_height_def same_chains_def)
  have "list_all2 (\<lambda>r (c, _). vo_outpoint r = fee_outpoint c \<and> client_tip_height cl = Some (vo_checked_through r) \<and>
        input_live sha cl (vo_checked_through r) r (unsigned_input (fee_outpoint c)) (fee_prevout c)) new cbs"
    using n(3) by (rule list_all2_mono) (auto simp: tip live)
  moreover have "input_live sha cl (vo_checked_through r) r (unsigned_input (fee_outpoint c)) (fee_prevout c)"
    using v(2,4,5) by (simp add: input_live_def unsigned_input_def)
  ultimately show ?case using v(2,3) n(2) same_chains_trans [OF v(1) n(1)]
    by (intro conjI exI [of _ "r # new"]) (auto simp: x)
qed (simp add: same_chains_def)

text \<open>
  Claim C18. The capability that releases a signature covers the exact transaction: when the
  verification of a batch succeeds, the manifest is the canonical one of the proposal, the receipt carries
  the identifiers of both and the tip of the verified chain, and there is one receipt per input of the
  unsigned transaction, in order. Each names the input's outpoint, a committed block creates it with the value and
  script the signature will commit to, and every height from there to that tip was cleared of spends.
\<close>

theorem batch_capability_sound:
  assumes "verify_batch_inputs sha from_unsigned_ok env sp clock p m births max_blocks cl = Some (Inr v, cl')"
  shows "manifest_validate env sp m p = Inr () \<and> vb_batch_id v = batch_id env p \<and> vb_manifest_id v = manifest_id env m \<and>
    client_tip_height cl = Some (vb_tip_height v) \<and> hash_at (cc_chain cl) (vb_tip_height v) = Some (vb_tip_hash v) \<and> clock = Some (vb_verified_at v) \<and>
    length (vb_participants v) + 1 = length (tx_input (unsigned_tx m)) \<and>
    (\<forall>i < length (tx_input (unsigned_tx m)).
       input_live sha cl (vb_tip_height v) ((vb_stock v # vb_participants v) ! i) (tx_input (unsigned_tx m) ! i) (batch_prevouts env p m ! i))"
proof -
  from assms obtain stock parts cl1 tip h now where
    valid: "manifest_validate env sp m p = Inr ()" and len: "length (bb_participants births) = length (mf_commitments m)"
    and st: "verify_stock sha env p (bb_stock births) max_blocks cl = Some (Inr stock, cl1)"
    and pa: "verify_participants sha (zip (mf_commitments m) (bb_participants births)) max_blocks [] cl1 = Some (Inr parts, cl')"
    and tip: "client_tip_height cl' = Some tip" "vo_checked_through stock = tip" and h: "hash_at (cc_chain cl') tip = Some h"
    and now: "clock = Some now" and v: "v = \<lparr>vb_batch_id = batch_id env p, vb_manifest_id = manifest_id env m, vb_tip_height = tip, vb_tip_hash = h,
                                 vb_verified_at = now, vb_stock = stock, vb_participants = parts\<rparr>"
    by (auto simp: verify_batch_inputs_def manifest_psbt_def unix_time_def block_hash_at_def and_then_Inr Let_def split: sum.splits option.splits prod.splits if_splits)
  note s = verify_expected_ok [OF st [unfolded verify_stock_def]]
  from verify_participants_ok [OF pa] have s2: "same_chains cl1 cl'"
    and ps: "list_all2 (\<lambda>r (c, _). vo_outpoint r = fee_outpoint c \<and> client_tip_height cl1 = Some (vo_checked_through r) \<and>
        input_live sha cl1 (vo_checked_through r) r (unsigned_input (fee_outpoint c)) (fee_prevout c)) parts (zip (mf_commitments m) (bb_participants births))" by auto
  have same: "client_tip_height cl = Some tip" "client_tip_height cl1 = Some tip" "hash_at (cc_chain cl) tip = Some h"
    using s(1) s2 tip h by (simp_all add: same_chains_def client_tip_height_def)
  have inputs: "tx_input (unsigned_tx m) = unsigned_input (stock_outpoint p) # map (\<lambda>c. unsigned_input (fee_outpoint c)) (mf_commitments m)"
    using valid build_inputs by (simp add: manifest_validate_iff)
  have n: "length parts = length (mf_commitments m)" using ps len by (auto dest: list_all2_lengthD)
  have "input_live sha cl tip (parts ! j) (unsigned_input (fee_outpoint (mf_commitments m ! j))) (fee_prevout (mf_commitments m ! j))" if "j < length (mf_commitments m)" for j
    using list_all2_nthD [OF ps, of j] that n len same(2) cleared_same [OF s(1)] created_same [OF s(1)] by (auto simp: input_live_def)
  moreover have "input_live sha cl tip stock (unsigned_input (stock_outpoint p)) \<lparr>out_value = stock_value p, script_pubkey = stock_script_pubkey env p\<rparr>"
    using s tip(2) by (simp add: input_live_def unsigned_input_def)
  ultimately have "input_live sha cl tip ((stock # parts) ! i) (tx_input (unsigned_tx m) ! i) (batch_prevouts env p m ! i)" if "i < length (tx_input (unsigned_tx m))" for i
    using that by (cases i) (simp_all add: inputs batch_prevouts_def)
  then show ?thesis using valid same now n by (simp add: v inputs)
qed

section \<open>A concrete batch\<close>

text \<open>A block that creates the stock and the fee output, served twice by one peer.\<close>

definition demo_stock_tx :: cbf_tx where
  "demo_stock_tx = \<lparr>ct_version = 0x01010101, ct_inputs = [\<lparr>ci_prev = \<lparr>co_txid = replicate 32 1, co_vout = 5\<rparr>, ci_script_sig = [], ci_sequence = 0\<rparr>],
     ct_outputs = [\<lparr>cx_value = 1000, cx_script_pubkey = [0x00, 0x20]\<rparr>], ct_lock_time = 0, ct_witnesses = []\<rparr>"

definition demo_fee_in :: cbf_tx_in where
  "demo_fee_in = \<lparr>ci_prev = \<lparr>co_txid = replicate 32 7, co_vout = 9\<rparr>, ci_script_sig = [], ci_sequence = 0\<rparr>"

definition demo_fee_tx :: cbf_tx where
  "demo_fee_tx = \<lparr>ct_version = 0x07070707, ct_inputs = [demo_fee_in, demo_fee_in, demo_fee_in, demo_fee_in, demo_fee_in, demo_fee_in, demo_fee_in],
     ct_outputs = [\<lparr>cx_value = 0, cx_script_pubkey = []\<rparr>, \<lparr>cx_value = 5000, cx_script_pubkey = [0x00, 0x14] @ replicate 20 8\<rparr>], ct_lock_time = 0, ct_witnesses = []\<rparr>"

definition demo_inputs_block :: cbf_block where
  "demo_inputs_block = \<lparr>cb_header = demo_header\<lparr>bh_merkle_root := the (merkle_root demo_sha [replicate 32 1, replicate 32 7])\<rparr>, cb_txs = [demo_stock_tx, demo_fee_tx]\<rparr>"

definition demo_inputs_hash :: bytes where "demo_inputs_hash = header_hash demo_sha (cb_header demo_inputs_block)"

definition demo_inputs_filter :: bytes where
  "demo_inputs_filter = gcs_encode [[0x00, 0x20], [0x00, 0x14] @ replicate 20 8] (filter_key demo_inputs_hash) BASIC_FILTER_P BASIC_FILTER_M"

definition demo_inputs_client :: "peer \<Rightarrow> cbf_client" where
  "demo_inputs_client p = (demo_client [] demo_inputs_filter)\<lparr>cc_peers := [p],
     cc_chain := \<lparr>hc_params = network_params Regtest, hc_headers = [demo_header, cb_header demo_inputs_block], hc_hashes = [replicate 32 0, demo_inputs_hash], hc_chainwork = [0, 0]\<rparr>\<rparr>"

definition demo_inputs_frame :: in_stream where
  "demo_inputs_frame = map Some (frame demo_sha 0xdab5bffa ''block'' (block_bytes [False, False] demo_inputs_block))"

lemma demo_input_txids: "tx_txid demo_sha demo_stock_tx = replicate 32 1" "tx_txid demo_sha demo_fee_tx = replicate 32 7"
proof -
  have five: "replicate 32 x = [x, x, x, x, x] @ replicate 27 x" for x :: byte
    using replicate_add [of 5 27 x] by (simp add: numeral_eq_Suc)
  show "tx_txid demo_sha demo_stock_tx = replicate 32 1" unfolding five
    by (simp add: tx_txid_def sha256d_def demo_sha_def serialize_legacy_def demo_stock_tx_def to_le_bytes_def le_bytes_4 write_varint_def tx_in_bytes_def)
  show "tx_txid demo_sha demo_fee_tx = replicate 32 7" unfolding five
    by (simp add: tx_txid_def sha256d_def demo_sha_def serialize_legacy_def demo_fee_tx_def to_le_bytes_def le_bytes_4 write_varint_def tx_in_bytes_def demo_fee_in_def)
qed

lemma demo_inputs_root: "compute_merkle_root demo_sha demo_inputs_block = Some (bh_merkle_root (cb_header demo_inputs_block))"
  by (simp add: compute_merkle_root_def demo_inputs_block_def demo_input_txids merkle_root_def)

lemma demo_inputs_block_ok: "block_ok [False, False] demo_inputs_block" "length (block_bytes [False, False] demo_inputs_block) \<le> MAX_PAYLOAD"
proof -
  have tx: "tx_ok False demo_stock_tx" "tx_ok False demo_fee_tx"
    by (simp_all add: tx_ok_def demo_stock_tx_def demo_fee_tx_def demo_fee_in_def tx_in_ok_def tx_out_ok_def)
  have "length (the (merkle_root demo_sha [replicate 32 1, replicate 32 7])) = 32"
    by (simp add: merkle_root_def merkle_loop.simps chunks_step merkle_pair_def sha256d_def demo_sha_ok [unfolded sha_ok_def])
  then show ok: "block_ok [False, False] demo_inputs_block"
    using tx by (simp add: block_ok_def demo_inputs_block_def demo_header_def header_ok_def)
  have "length (tx_bytes False demo_stock_tx) \<le> 1000" "length (tx_bytes False demo_fee_tx) \<le> 1000"
    by (simp_all add: tx_bytes_def demo_stock_tx_def demo_fee_tx_def demo_fee_in_def input_count_bytes_def tx_in_bytes_def tx_out_bytes_def write_varbytes_def write_varint_def)
  then show "length (block_bytes [False, False] demo_inputs_block) \<le> MAX_PAYLOAD"
    using ok by (simp add: block_bytes_def txs_bytes_def demo_inputs_block_def block_ok_def length_header_serialize write_varint_def MAX_PAYLOAD_def)
qed

lemma demo_inputs_fetch:
  assumes "pe_in p = demo_inputs_frame @ s" "0 < pe_writes p" "pe_magic p = 0xdab5bffa"
  shows "\<exists>q. fetch_checked_block demo_sha demo_inputs_hash (demo_inputs_client p) = Some (Inr demo_inputs_block, demo_inputs_client q) \<and>
    pe_in q = s \<and> pe_writes q = pe_writes p - 1 \<and> pe_magic q = 0xdab5bffa"
proof -
  from get_block_served [OF demo_sha_ok demo_inputs_block_ok assms(2), of s] assms obtain q where
    "get_block demo_sha demo_inputs_hash p = (Inr demo_inputs_block, q)" "pe_in q = s" "pe_writes q = pe_writes p - 1" "pe_magic q = 0xdab5bffa"
    by (auto simp: demo_inputs_frame_def demo_inputs_hash_def)
  then show ?thesis
    by (intro exI [of _ q]) (simp add: fetch_checked_block_def fetch_block_def demo_inputs_client_def demo_inputs_root)
qed

lemma demo_inputs_client_fields:
  "client_tip_height (demo_inputs_client p) = Some 1" "hash_at (cc_chain (demo_inputs_client p)) 1 = Some demo_inputs_hash"
  "cc_filter_files (demo_inputs_client p) 1 = Contents demo_inputs_filter"
  "filter_hash_at (cc_filter_chain (demo_inputs_client p)) 1 = Some (filter_hash demo_sha demo_inputs_filter)"
  by (simp_all add: demo_inputs_client_def demo_client_def client_tip_height_def chain_tip_height_def hash_at_def filter_hash_at_def from_verified_def)

lemma demo_input_fields:
  "ct_outputs demo_stock_tx = [\<lparr>cx_value = 1000, cx_script_pubkey = [0x00, 0x20]\<rparr>]" "length (ct_outputs demo_fee_tx) = 2"
  "ct_outputs demo_fee_tx ! Suc 0 = \<lparr>cx_value = 5000, cx_script_pubkey = [0x00, 0x14] @ replicate 20 8\<rparr>"
  "i \<in> set (ct_inputs demo_stock_tx) \<longleftrightarrow> i = \<lparr>ci_prev = \<lparr>co_txid = replicate 32 1, co_vout = 5\<rparr>, ci_script_sig = [], ci_sequence = 0\<rparr>"
  "i \<in> set (ct_inputs demo_fee_tx) \<longleftrightarrow> i = \<lparr>ci_prev = \<lparr>co_txid = replicate 32 7, co_vout = 9\<rparr>, ci_script_sig = [], ci_sequence = 0\<rparr>"
  by (simp_all add: demo_stock_tx_def demo_fee_tx_def demo_fee_in_def)

lemma demo_inputs_unspent:
  assumes p: "pe_in p = demo_inputs_frame @ s" "0 < pe_writes p" "pe_magic p = 0xdab5bffa"
    and out: "(txid, vout, val, script) \<in> {(replicate 32 1, 0, 1000, [0x00, 0x20]), (replicate 32 7, 1, 5000, [0x00, 0x14] @ replicate 20 8)}"
  shows "\<exists>q. verify_outpoint_unspent demo_sha \<lparr>co_txid = txid, co_vout = vout\<rparr> val script 1 10 (demo_inputs_client p) =
      Some (Inr (Unspent 1 1 1), demo_inputs_client q) \<and> pe_in q = s \<and> pe_writes q = pe_writes p - 1 \<and> pe_magic q = 0xdab5bffa"
proof -
  from demo_inputs_fetch [OF p] obtain q where q: "fetch_checked_block demo_sha demo_inputs_hash (demo_inputs_client p) = Some (Inr demo_inputs_block, demo_inputs_client q)"
    "pe_in q = s" "pe_writes q = pe_writes p - 1" "pe_magic q = 0xdab5bffa" by blast
  have two: "length (remdups [[0x00, 0x20], [0x00, 0x14] @ replicate 20 (8 :: byte)]) \<le> 2 ^ 31" by simp
  have m: "filter_matches demo_sha 1 script (demo_inputs_client p) = Some (Inr True, demo_inputs_client p)"
    using cached_filter_answer [OF two demo_inputs_client_fields(2) demo_inputs_client_fields(3,4) [unfolded demo_inputs_filter_def], of script p] out by auto
  have "replicate 32 (1 :: byte) \<noteq> replicate 32 7" by (auto dest: arg_cong [where f = hd])
  then have "inspect_txs demo_sha (cb_txs demo_inputs_block) 1 \<lparr>co_txid = txid, co_vout = vout\<rparr> val script None = (ObsContinue, Some 1)"
    using out unfolding inspect_continue
    by (auto simp: demo_inputs_block_def demo_input_txids spends_outpoint_def creates_output_def demo_input_fields)
  then show ?thesis using m q demo_inputs_client_fields
    by (intro exI [of _ q]) (simp add: verify_outpoint_unspent_def inspect_outpoint_block_def upt_rec)
qed

theorem batch_capability_sound_witness:
  "\<exists>cl v cl'. verify_batch_inputs demo_sha (\<lambda>_. True) demo_env zero_sponge (Some 100) demo_proposal (demo_manifest 0 1 348)
       \<lparr>bb_stock = 1, bb_participants = [1]\<rparr> 10 cl = Some (Inr v, cl') \<and> vb_tip_height v = 1 \<and>
     input_live demo_sha cl 1 (vb_stock v) (tx_input (unsigned_tx (demo_manifest 0 1 348)) ! 0) (batch_prevouts demo_env demo_proposal (demo_manifest 0 1 348) ! 0)"
proof -
  let ?p = "(demo_peer 5 [])\<lparr>pe_in := demo_inputs_frame @ demo_inputs_frame\<rparr>" and ?m = "demo_manifest 0 1 348"
  have p: "pe_in ?p = demo_inputs_frame @ demo_inputs_frame" "0 < pe_writes ?p" "pe_magic ?p = 0xdab5bffa" by (simp_all add: demo_peer_def)
  have st: "stock_outpoint demo_proposal = \<lparr>op_txid = replicate 32 1, op_vout = 0\<rparr>" "stock_value demo_proposal = 1000" "stock_script_pubkey demo_env demo_proposal = [0x00, 0x20]"
    by (simp_all add: demo_proposal_def stock_script_pubkey_def demo_env_def)
  have cm: "mf_commitments ?m = [demo_commitment]" "fee_outpoint demo_commitment = \<lparr>op_txid = replicate 32 7, op_vout = 1\<rparr>"
    "fee_prevout demo_commitment = \<lparr>out_value = 5000, script_pubkey = [0x00, 0x14] @ replicate 20 8\<rparr>"
    by (simp_all add: demo_manifest_def demo_commitment_def)
  from demo_inputs_unspent [OF p, of "replicate 32 1" 0 1000 "[0x00, 0x20]"] obtain q where
    q: "verify_outpoint_unspent demo_sha \<lparr>co_txid = replicate 32 1, co_vout = 0\<rparr> 1000 [0x00, 0x20] 1 10 (demo_inputs_client ?p) = Some (Inr (Unspent 1 1 1), demo_inputs_client q)"
    "pe_in q = demo_inputs_frame" "pe_writes q = pe_writes ?p - 1" "pe_magic q = 0xdab5bffa" by auto
  have w: "0 < pe_writes q" using q(3) by (simp add: demo_peer_def)
  from demo_inputs_unspent [OF _ w q(4), of "[]" "replicate 32 7" 1 5000 "[0x00, 0x14] @ replicate 20 8"] q(2) obtain q2 where
    q2: "verify_outpoint_unspent demo_sha \<lparr>co_txid = replicate 32 7, co_vout = 1\<rparr> 5000 ([0x00, 0x14] @ replicate 20 8) 1 10 (demo_inputs_client q) = Some (Inr (Unspent 1 1 1), demo_inputs_client q2)"
    by auto
  have "\<exists>v. verify_batch_inputs demo_sha (\<lambda>_. True) demo_env zero_sponge (Some 100) demo_proposal ?m \<lparr>bb_stock = 1, bb_participants = [1]\<rparr> 10
      (demo_inputs_client ?p) = Some (Inr v, demo_inputs_client q2) \<and> vb_tip_height v = 1"
    using q(1) q2 demo_inputs_client_fields(1,2)
    by (simp add: verify_batch_inputs_def manifest_psbt_def demo_valid Let_def verify_stock_def verify_fee_def verify_expected_def st cm unix_time_def block_hash_at_def)
  then obtain v where v: "verify_batch_inputs demo_sha (\<lambda>_. True) demo_env zero_sponge (Some 100) demo_proposal ?m \<lparr>bb_stock = 1, bb_participants = [1]\<rparr> 10
      (demo_inputs_client ?p) = Some (Inr v, demo_inputs_client q2)" "vb_tip_height v = 1" by blast
  from batch_capability_sound [OF v(1)] have "0 < length (tx_input (unsigned_tx ?m)) \<and> (\<forall>i < length (tx_input (unsigned_tx ?m)).
       input_live demo_sha (demo_inputs_client ?p) (vb_tip_height v) ((vb_stock v # vb_participants v) ! i) (tx_input (unsigned_tx ?m) ! i) (batch_prevouts demo_env demo_proposal ?m ! i))"
    by auto
  then have "input_live demo_sha (demo_inputs_client ?p) 1 (vb_stock v) (tx_input (unsigned_tx ?m) ! 0) (batch_prevouts demo_env demo_proposal ?m ! 0)"
    using v(2) by fastforce
  with v show ?thesis by blast
qed

text \<open>When a receipt may be used: for its own batch, and while it is neither stale nor from the future.\<close>

lemma batch_freshness_exact:
  "batch_require_fresh_for env clock v p m age = Inr () \<longleftrightarrow>
     vb_batch_id v = batch_id env p \<and> vb_manifest_id v = manifest_id env m \<and> \<not> (d_secs age = 0 \<and> d_nanos age = 0) \<and>
     (\<exists>now. clock = Some now \<and> vb_verified_at v \<le> now \<and> now - vb_verified_at v \<le> d_secs age)"
  by (auto simp: batch_require_fresh_for_def require_fresh_timestamp_def unix_time_def and_then_Inr checked_sub_def not_less split: if_splits)

end
