(* ===== verification/Snapshot_Chain.thy ===== *)
theory Snapshot_Chain
  imports Accept Crosscheck Cbf_Scan Cbf_Hash
begin

text \<open>
  The anchor chain over a snapshot, \<open>ffi/src/snapshot.rs\<close> and the hexadecimal helpers of \<open>ffi/src/hex.rs\<close>. Decoding the
  JSON text into a \<open>Snapshot\<close> is the business of \<open>serde_json\<close>; the model starts from the decoded value. An outer \<open>None\<close> is the
  panic of the hex decoder inside a multi-byte character, an error message is left out.
\<close>

section \<open>Hexadecimal\<close>

definition ffi_from_hex :: "ustring \<Rightarrow> (unit + bytes) option" where
  "ffi_from_hex s =
     (let bs = as_bytes s in if length bs mod 2 \<noteq> 0 then Some (Inl ()) else map_option (map_err (\<lambda>_. ())) (hex_loop bs))"

definition from_hex_array :: "nat \<Rightarrow> ustring \<Rightarrow> (unit + bytes) option" where
  "from_hex_array n s = map_option (\<lambda>r. and_then r (\<lambda>bs. if length bs = n then Inr bs else Inl ())) (ffi_from_hex s)"

section \<open>Snapshots\<close>

record snapshot_batch_envelope =
  sbe_version :: u8
  sbe_payloads :: "ustring list"

record snapshot_entry =
  se_height :: u64
  se_position :: u32
  se_txid :: ustring
  se_ctx :: ustring
  se_record :: ustring
  se_batch :: "snapshot_batch_envelope option"

record snapshot =
  sn_tip_height :: u64
  sn_entries :: "snapshot_entry list"

record snap_entry =
  sx_txid :: bytes
  sx_location :: anchor_location
  sx_record :: anchor_record
  sx_ctx :: ctx
  sx_batch :: "(batch_version \<times> truncated_digest list) option"

record snapshot_chain =
  sc_tip_height :: u64
  sc_entries :: "snap_entry list"

text \<open>The question-mark operator on a result that may panic.\<close>

definition then_ok :: "('e + 'a) option \<Rightarrow> ('a \<Rightarrow> ('e + 'b) option) \<Rightarrow> ('e + 'b) option" where
  "then_ok m f = (case m of None \<Rightarrow> None | Some (Inl e) \<Rightarrow> Some (Inl e) | Some (Inr x) \<Rightarrow> f x)"

fun collect_ok :: "('a \<Rightarrow> ('e + 'b) option) \<Rightarrow> 'a list \<Rightarrow> ('e + 'b list) option" where
  "collect_ok f [] = Some (Inr [])"
| "collect_ok f (x # xs) = then_ok (f x) (\<lambda>y. then_ok (collect_ok f xs) (\<lambda>ys. Some (Inr (y # ys))))"

definition decode_envelope :: "sponge \<Rightarrow> anchor_record \<Rightarrow> ctx \<Rightarrow> snapshot_batch_envelope \<Rightarrow> (unit + (batch_version \<times> truncated_digest list)) option" where
  "decode_envelope sp found ctx batch =
     then_ok (Some (if sbe_version batch = 1 then Inr V1 else if sbe_version batch = 2 then Inr V2 else Inl ())) (\<lambda>version.
     then_ok (collect_ok (from_hex_array 24) (sbe_payloads batch)) (\<lambda>payloads.
     Some (case found of
        BatchHeader n committed \<Rightarrow>
          (if length payloads \<noteq> unat n \<or> to_anchor (versioned_batch_commit sp version payloads ctx) \<noteq> committed then Inl ()
           else Inr (version, payloads))
      | _ \<Rightarrow> Inl ())))"

definition decode_entry :: "sponge \<Rightarrow> snapshot_entry \<Rightarrow> (unit + snap_entry) option" where
  "decode_entry sp e =
     then_ok (from_hex_array 32 (se_txid e)) (\<lambda>txid.
     then_ok (from_hex_array 32 (se_ctx e)) (\<lambda>ctx.
     then_ok (from_hex_array ANCHOR_SIZE (se_record e)) (\<lambda>record_bytes.
     let found = from_bytes record_bytes in
     then_ok (case se_batch e of None \<Rightarrow> Some (Inr None) | Some batch \<Rightarrow> then_ok (decode_envelope sp found ctx batch) (\<lambda>b. Some (Inr (Some b)))) (\<lambda>batch.
     Some (Inr \<lparr>sx_txid = txid, sx_location = \<lparr>al_height = se_height e, al_position = se_position e\<rparr>, sx_record = found, sx_ctx = ctx,
       sx_batch = batch\<rparr>)))))"

definition from_snapshot :: "sponge \<Rightarrow> snapshot \<Rightarrow> (unit + snapshot_chain) option" where
  "from_snapshot sp s =
     then_ok (collect_ok (decode_entry sp) (sn_entries s)) (\<lambda>es.
       Some (Inr \<lparr>sc_tip_height = sn_tip_height s, sc_entries = sort_key sx_location es\<rparr>))"

definition entry_json :: "anchor_location \<Rightarrow> bytes \<Rightarrow> anchor_record \<Rightarrow> ctx \<Rightarrow> snapshot_entry" where
  "entry_json loc txid found ctx =
     \<lparr>se_height = al_height loc, se_position = al_position loc, se_txid = to_hex txid, se_ctx = to_hex ctx,
      se_record = to_hex (to_bytes found), se_batch = None\<rparr>"

section \<open>Queries\<close>

definition snap_find :: "snapshot_chain \<Rightarrow> anchor_ref \<Rightarrow> snap_entry option" where
  "snap_find c ref =
     find (\<lambda>e. sx_txid e = ar_txid ref \<and> (sx_location e = ar_location ref \<or> ar_location ref = mempool_location)) (sc_entries c)"

definition entry_matches_nullifier :: "sponge \<Rightarrow> snap_entry \<Rightarrow> digest \<Rightarrow> bool" where
  "entry_matches_nullifier sp e raw_nf =
     (case sx_batch e of
        Some (version, payloads) \<Rightarrow> versioned_envelope_occurrence sp version (sx_record e) payloads (sx_ctx e) raw_nf \<noteq> None
      | None \<Rightarrow> well_formed sp (sx_record e) (sx_ctx e) raw_nf)"

definition snap_proof_record_at :: "sponge \<Rightarrow> snapshot_chain \<Rightarrow> anchor_ref \<Rightarrow> digest list \<Rightarrow> anchor_record option" where
  "snap_proof_record_at sp c ref raw_nullifiers =
     (case snap_find c ref of
        None \<Rightarrow> None
      | Some e \<Rightarrow>
          (case sx_record e of
             BatchHeader _ _ \<Rightarrow>
               (case raw_nullifiers of
                  [raw_nf] \<Rightarrow>
                    (case sx_batch e of
                       None \<Rightarrow> None
                     | Some (version, payloads) \<Rightarrow>
                         (case versioned_envelope_occurrence sp version (sx_record e) payloads (sx_ctx e) raw_nf of
                            None \<Rightarrow> None
                          | Some _ \<Rightarrow> xfer sp raw_nullifiers (sx_ctx e)))
                | _ \<Rightarrow> None)
           | found \<Rightarrow> Some found))"

definition snap_occurrences :: "sponge \<Rightarrow> snapshot_chain \<Rightarrow> digest \<Rightarrow> anchor_location list" where
  "snap_occurrences sp c raw_nf =
     map sx_location (filter (\<lambda>e. entry_matches_nullifier sp e raw_nf) (filter (\<lambda>e. sx_location e \<noteq> mempool_location) (sc_entries c)))"

definition snap_first_occurrence :: "sponge \<Rightarrow> snapshot_chain \<Rightarrow> digest \<Rightarrow> anchor_location option" where
  "snap_first_occurrence sp c raw_nf =
     (case snap_occurrences sp c raw_nf of
        l # _ \<Rightarrow> Some l
      | [] \<Rightarrow> map_option sx_location
          (find (\<lambda>e. sx_location e = mempool_location \<and> entry_matches_nullifier sp e raw_nf) (sc_entries c)))"

definition snap_confirmations_at :: "u64 \<Rightarrow> u64 \<Rightarrow> u64" where
  "snap_confirmations_at tip h = (if h = al_height mempool_location \<or> h > tip then 0 else tip - h + 1)"

definition snapshot_view :: "sponge \<Rightarrow> snapshot_chain \<Rightarrow> anchor_chain" where
  "snapshot_view sp c =
     \<lparr>tip_height = sc_tip_height c,
      anchor_at = (\<lambda>ref. map_option sx_record (snap_find c ref)),
      proof_record_at = snap_proof_record_at sp c,
      ctx_at = (\<lambda>ref. map_option sx_ctx (snap_find c ref)),
      locate = (\<lambda>ref. map_option sx_location (snap_find c ref)),
      first_nullifier_occurrence = snap_first_occurrence sp c,
      nullifier_occurrences = snap_occurrences sp c,
      anchors_up_to = (\<lambda>h. map (\<lambda>e. (sx_location e, sx_record e))
        (filter (\<lambda>e. sx_location e \<noteq> mempool_location \<and> al_height (sx_location e) \<le> h) (sc_entries c))),
      confirmations_at = snap_confirmations_at (sc_tip_height c)\<rparr>"

section \<open>Settled and provisional occurrences\<close>

definition settled :: "sponge \<Rightarrow> snapshot_chain \<Rightarrow> digest \<Rightarrow> anchor_location set" where
  "settled sp c raw_nf = {sx_location e | e. e \<in> set (sc_entries c) \<and> sx_location e \<noteq> mempool_location \<and> entry_matches_nullifier sp e raw_nf}"

text \<open>Entries in canonical order, one settled location per binding, as decoding leaves them.\<close>

definition snapshot_ordered :: "sponge \<Rightarrow> snapshot_chain \<Rightarrow> bool" where
  "snapshot_ordered sp c \<longleftrightarrow> sorted (map sx_location (sc_entries c)) \<and> (\<forall>raw_nf. distinct (snap_occurrences sp c raw_nf))"

lemma set_snap_occurrences: "set (snap_occurrences sp c raw_nf) = settled sp c raw_nf"
  by (auto simp: snap_occurrences_def settled_def)

lemma sorted_snap_occurrences: "sorted (map sx_location (sc_entries c)) \<Longrightarrow> sorted (snap_occurrences sp c raw_nf)"
  unfolding snap_occurrences_def by (simp add: sorted_filter)

lemma snap_occurrences_eq: "snapshot_ordered sp c \<Longrightarrow> snap_occurrences sp c raw_nf = sorted_list_of_set (settled sp c raw_nf)"
  unfolding set_snap_occurrences [symmetric]
  by (simp add: snapshot_ordered_def sorted_snap_occurrences sorted_list_of_set.idem_if_sorted_distinct)

definition no_provisional :: "snapshot_chain \<Rightarrow> bool" where
  "no_provisional c \<longleftrightarrow> list_all (\<lambda>e. sx_location e \<noteq> mempool_location) (sc_entries c)"

lemma snap_first_settled:
  assumes "snapshot_ordered sp c" "settled sp c raw_nf \<noteq> {}"
  shows "snap_first_occurrence sp c raw_nf = Some (Min (settled sp c raw_nf))"
proof -
  have fin: "finite (settled sp c raw_nf)" unfolding set_snap_occurrences [symmetric] by simp
  show ?thesis using assms fin by (simp add: snap_first_occurrence_def snap_occurrences_eq sorted_list_of_set_nonempty)
qed

interpretation snapshot: occurrence_view "snapshot_view sp" "\<lambda>c. snapshot_ordered sp c \<and> no_provisional c" "settled sp" for sp
proof
  fix c nf
  assume inv: "snapshot_ordered sp c \<and> no_provisional c"
  show "finite (settled sp c nf)" unfolding set_snap_occurrences [symmetric] by simp
  show "nullifier_occurrences (snapshot_view sp c) nf = sorted_list_of_set (settled sp c nf)"
    using inv by (simp add: snapshot_view_def snap_occurrences_eq)
  have "snap_first_occurrence sp c nf = None" if "settled sp c nf = {}"
  proof -
    have "snap_occurrences sp c nf = []" using that set_snap_occurrences [of sp c nf] by simp
    then show ?thesis using inv by (auto simp: snap_first_occurrence_def find_None_iff no_provisional_def list_all_iff)
  qed
  then show "first_nullifier_occurrence (snapshot_view sp c) nf =
     (if settled sp c nf = {} then None else Some (Min (settled sp c nf)))"
    using inv by (simp add: snapshot_view_def snap_first_settled)
qed

section \<open>A cross-checked snapshot\<close>

lemma cross_single:
  assumes "cross_new [m] = Inr x"
  shows "anchor_at (cross_view x) = anchor_at m" "ctx_at (cross_view x) = ctx_at m" "locate (cross_view x) = locate m"
    "proof_record_at (cross_view x) = proof_record_at m" "first_nullifier_occurrence (cross_view x) = first_nullifier_occurrence m"
    "confirmations_at (cross_view x) = default_confirmations_at (tip_height m)"
  using assms by (auto simp: cross_new_def check_tips_def and_then_Inr cross_view_def cross_first_nullifier_occurrence_def
      List.map_filter_def fun_eq_iff split: option.split if_splits)

text \<open>
  Claim C33. An unconfirmed anchor of a snapshot has no depth on its own and full depth behind the cross-checked
  chain. Where a snapshot holds a consignment's anchor at the mempool placeholder and everything but the depth is in order, and
  the required confirmations are between one and the tip height plus one, the driver refuses it over the snapshot, as the snapshot
  chain overrides the depth of the placeholder height; over the cross-checked chain made of that very snapshot the driver accepts it,
  because the wrapper falls back to the default depth of height zero.
\<close>

theorem crosscheck_confirms_mempool_anchor:
  assumes ok: "accept_for_public_owners sp cons (snapshot_view sp c) verify (params\<lparr>pp_required_confirmations := 0\<rparr>) = Inr out"
    and mempool: "ac_anchor out = mempool_location" and x: "cross_new [snapshot_view sp c] = Inr x"
    and k: "0 < k" "k \<le> sc_tip_height c + 1"
  shows "(\<nexists>out'. accept_for_public_owners sp cons (snapshot_view sp c) verify (params\<lparr>pp_required_confirmations := k\<rparr>) = Inr out') \<and>
    accept_for_public_owners sp cons (cross_view x) verify (params\<lparr>pp_required_confirmations := k\<rparr>) = Inr out"
proof -
  have c0: "confirmations_at (snapshot_view sp c) (al_height mempool_location) = 0"
    by (simp add: snapshot_view_def snap_confirmations_at_def)
  have cx: "confirmations_at (cross_view x) (al_height mempool_location) = sc_tip_height c + 1"
    by (simp add: cross_single [OF x] default_confirmations_at_def mempool_location_def snapshot_view_def)
  have loc: "locate (snapshot_view sp c) (cons_anchor_ref cons) = Some mempool_location" using ok mempool by (auto simp: accept_Inr)
  have "\<nexists>out'. accept_for_public_owners sp cons (snapshot_view sp c) verify (params\<lparr>pp_required_confirmations := k\<rparr>) = Inr out'"
    using k(1) loc c0 by (auto simp: accept_Inr)
  moreover have "accept_for_public_owners sp cons (cross_view x) verify (params\<lparr>pp_required_confirmations := k\<rparr>) = Inr out"
    using ok mempool k(2) cx unfolding accept_Inr by (simp add: cross_single [OF x])
  ultimately show ?thesis by blast
qed

definition demo_snapshot :: snapshot_chain where
  "demo_snapshot = \<lparr>sc_tip_height = 100,
     sc_entries = [\<lparr>sx_txid = ar_txid demo_ref_a, sx_location = mempool_location, sx_record = Xfer slot_a zero24, sx_ctx = ctx_a, sx_batch = None\<rparr>]\<rparr>"

theorem crosscheck_confirms_mempool_anchor_witness:
  "\<exists>x. cross_new [snapshot_view sum_sponge demo_snapshot] = Inr x \<and>
    accept_for_public_owners sum_sponge (demo_consignment 1 demo_ref_a (Xfer slot_a zero24) ctx_a) (cross_view x) mock_verify
      (demo_params\<lparr>pp_required_confirmations := 6\<rparr>) = Inr \<lparr>ac_coins = [to_coin (demo_opening 1)], ac_anchor = mempool_location\<rparr>"
proof -
  let ?c = "demo_consignment 1 demo_ref_a (Xfer slot_a zero24) ctx_a"
  have m: "ar_location demo_ref_a = mempool_location" by (simp add: demo_locations mempool_location_def)
  have f: "snap_find demo_snapshot demo_ref_a = Some (hd (sc_entries demo_snapshot))"
    by (simp add: snap_find_def demo_snapshot_def m)
  have wf: "well_formed sum_sponge (Xfer slot_a zero24) ctx_a (tag_digest 5)"
    using demo_apart by (simp add: well_formed_iff_slot demo_slots)
  have first: "snap_first_occurrence sum_sponge demo_snapshot (tag_digest 5) = Some mempool_location"
    by (simp add: snap_first_occurrence_def snap_occurrences_def demo_snapshot_def entry_matches_nullifier_def wf)
  have verify: "mock_verify vk y (mock_prove vk y)" for vk y by (simp add: mock_verify_def mock_prove_def)
  have v: "anchor_at (snapshot_view sum_sponge demo_snapshot) demo_ref_a = Some (Xfer slot_a zero24)"
    "ctx_at (snapshot_view sum_sponge demo_snapshot) demo_ref_a = Some ctx_a"
    "locate (snapshot_view sum_sponge demo_snapshot) demo_ref_a = Some mempool_location"
    "proof_record_at (snapshot_view sum_sponge demo_snapshot) demo_ref_a nfs = Some (Xfer slot_a zero24)"
    "first_nullifier_occurrence (snapshot_view sum_sponge demo_snapshot) (tag_digest 5) = Some mempool_location" for nfs
    by (simp_all add: snapshot_view_def f snap_proof_record_at_def first) (simp_all add: demo_snapshot_def)
  have ok: "accept_for_public_owners sum_sponge ?c (snapshot_view sum_sponge demo_snapshot) mock_verify (demo_params\<lparr>pp_required_confirmations := 0\<rparr>) =
      Inr \<lparr>ac_coins = [to_coin (demo_opening 1)], ac_anchor = mempool_location\<rparr>"
    by (simp add: accept_Inr demo_consignment_def demo_params_def observe_asset_def demo_opening_def owned_coins_def demo_distinct verify demo_binds
        occurrence_keys_def v)
  obtain x where x: "cross_new [snapshot_view sum_sponge demo_snapshot] = Inr x" by (simp add: cross_new_def check_tips_def)
  show ?thesis using crosscheck_confirms_mempool_anchor [OF ok _ x, of 6] x by (simp add: demo_snapshot_def)
qed

text \<open>A snapshot entry reads back as the anchor it was written from, for every record that survives its own encoding.\<close>

lemma ffi_from_to_hex: "ffi_from_hex (to_hex bs) = Some (Inr bs)"
proof -
  have "list_all (\<lambda>c. c < 128) (to_hex bs)" using to_hex_ascii [of bs] by (auto simp: list_all_iff)
  then have "as_bytes (to_hex bs) = map word_of_nat (to_hex bs)" by (simp add: as_bytes_ascii)
  then show ?thesis by (simp add: ffi_from_hex_def hex_loop_to_hex length_to_hex)
qed

lemma decode_entry_json:
  assumes "length txid = 32" "length ctx = 32" "record_sized found" "from_bytes (to_bytes found) = found"
  shows "decode_entry sp (entry_json loc txid found ctx) =
    Some (Inr \<lparr>sx_txid = txid, sx_location = loc, sx_record = found, sx_ctx = ctx, sx_batch = None\<rparr>)"
proof -
  have "length (to_bytes found) = ANCHOR_SIZE" using assms(3) by (rule length_to_bytes)
  then show ?thesis using assms(1,2,4)
    by (simp add: decode_entry_def entry_json_def from_hex_array_def ffi_from_to_hex then_ok_def del: to_bytes.simps)
qed

end
