(* ===== verification/Bitcoin_Rpc.thy ===== *)
theory Bitcoin_Rpc
  imports Index_Text
begin

text \<open>
  JSON values and the JSON-RPC client, \<open>crates/opencsv-bitcoin/src/rpc.rs\<close> and \<open>error.rs\<close>. Numbers keep their literal text
  (\<open>serde_json\<close> is built with \<open>arbitrary_precision\<close>). The transport with the JSON text codec around it is a parameter: a
  function of the request, which carries a fresh identifier, so that the node may answer differently every time. \<open>None\<close> in its answer
  is a body that is not JSON.
\<close>

section \<open>JSON values\<close>

datatype json = JNull | JBool bool | JNum ustring | JStr ustring | JArr "json list" | JObj "(ustring \<times> json) list"

fun json_get :: "string \<Rightarrow> json \<Rightarrow> json option" where
  "json_get k (JObj kvs) = map_of kvs (lit k)"
| "json_get k _ = None"

fun as_str :: "json \<Rightarrow> ustring option" where
  "as_str (JStr s) = Some s"
| "as_str _ = None"

fun as_bool :: "json \<Rightarrow> bool option" where
  "as_bool (JBool b) = Some b"
| "as_bool _ = None"

fun as_array :: "json \<Rightarrow> json list option" where
  "as_array (JArr xs) = Some xs"
| "as_array _ = None"

fun as_u64 :: "json \<Rightarrow> nat option" where
  "as_u64 (JNum s) = parse_uint U64_MAX s"
| "as_u64 _ = None"

definition parse_i64 :: "ustring \<Rightarrow> int option" where
  "parse_i64 s =
     (case s of
        c # cs \<Rightarrow> if c = 45 then (if cs = [] then None else map_option (\<lambda>n. - int n) (parse_digits (2 ^ 63) 0 cs))
          else map_option int (parse_uint (2 ^ 63 - 1) s)
      | [] \<Rightarrow> None)"

fun as_i64 :: "json \<Rightarrow> int option" where
  "as_i64 (JNum s) = parse_i64 s"
| "as_i64 _ = None"

definition get_str :: "string \<Rightarrow> json \<Rightarrow> ustring option" where "get_str k v = Option.bind (json_get k v) as_str"
definition get_u64 :: "string \<Rightarrow> json \<Rightarrow> nat option" where "get_u64 k v = Option.bind (json_get k v) as_u64"
definition get_bool :: "string \<Rightarrow> json \<Rightarrow> bool option" where "get_bool k v = Option.bind (json_get k v) as_bool"
definition get_array :: "string \<Rightarrow> json \<Rightarrow> json list option" where "get_array k v = Option.bind (json_get k v) as_array"

section \<open>Errors\<close>

datatype btc_error =
    BtcIo | BtcHttp | BtcRpc int | BtcDecode | BtcMalformed | BtcConfig | BtcWrongNetwork network ustring
  | BtcSigningFailed | BtcNoFundingInputs | BtcTagCollision | BtcNotRegtest

section \<open>The client\<close>

type_synonym rpc_transport = "json \<Rightarrow> btc_error + json option"

definition rpc_request :: "nat \<Rightarrow> string \<Rightarrow> json \<Rightarrow> json" where
  "rpc_request ident method params =
     JObj [(lit ''id'', JNum (decimal ident)), (lit ''jsonrpc'', JStr (lit ''1.0'')), (lit ''method'', JStr (lit method)), (lit ''params'', params)]"

definition rpc_reply :: "rpc_transport \<Rightarrow> nat \<Rightarrow> string \<Rightarrow> json \<Rightarrow> btc_error + json" where
  "rpc_reply post ident method params =
     and_then (post (rpc_request ident method params)) (\<lambda>body.
     and_then (ok_or BtcMalformed body) (\<lambda>reply.
       let result = ok_or BtcMalformed (json_get ''result'' reply) in
       case json_get ''error'' reply of
         None \<Rightarrow> result
       | Some e \<Rightarrow>
           (if e = JNull then result
            else Inl (BtcRpc (case Option.bind (json_get ''code'' e) as_i64 of None \<Rightarrow> 0 | Some code \<Rightarrow> code)))))"

definition rpc_reply_str :: "rpc_transport \<Rightarrow> nat \<Rightarrow> string \<Rightarrow> json \<Rightarrow> btc_error + ustring" where
  "rpc_reply_str post ident method params = and_then (rpc_reply post ident method params) (\<lambda>v. ok_or BtcMalformed (as_str v))"

section \<open>Hexadecimal hashes of the node\<close>

definition rpc_from_hex :: "ustring \<Rightarrow> (btc_error + bytes) option" where
  "rpc_from_hex s =
     (let bs = as_bytes (trim s) in
      if length bs mod 2 \<noteq> 0 then Some (Inl BtcMalformed) else map_option (map_err (\<lambda>_. BtcMalformed)) (hex_loop bs))"

definition hash_from_rpc :: "ustring \<Rightarrow> (btc_error + bytes) option" where
  "hash_from_rpc hex =
     map_option (\<lambda>r. and_then r (\<lambda>bs. if length bs \<noteq> 32 then Inl BtcMalformed else Inr (rev bs))) (rpc_from_hex hex)"

definition hash_to_rpc :: "bytes \<Rightarrow> ustring" where
  "hash_to_rpc bs = to_hex (rev bs)"

definition rpc_op_return_payload :: "ustring \<Rightarrow> bytes option option" where
  "rpc_op_return_payload script_hex =
     map_option (\<lambda>r. case r of
        Inl _ \<Rightarrow> None
      | Inr script \<Rightarrow>
          (case (if take 1 script = [0x6a] then Some (drop 1 script) else None) of
             None \<Rightarrow> None
           | Some rest \<Rightarrow>
               (case (if take 1 rest = [0x40] then Some (drop 1 rest)
                      else if take 2 rest = [0x4c, 0x40] then Some (drop 2 rest)
                      else if take 3 rest = [0x4d, 0x40, 0x00] then Some (drop 3 rest) else None) of
                  None \<Rightarrow> None
                | Some data \<Rightarrow> if length data = 64 then Some data else None)))
       (rpc_from_hex script_hex)"

section \<open>Lemmas\<close>

lemma rpc_from_to_hex: "rpc_from_hex (to_hex bs) = Some (Inr bs)"
  using from_to_hex [of bs] by (simp add: rpc_from_hex_def from_hex_def Let_def split: if_splits)

lemma hash_rpc_roundtrip: "length h = 32 \<Longrightarrow> hash_from_rpc (hash_to_rpc h) = Some (Inr h)"
  by (simp add: hash_from_rpc_def hash_to_rpc_def rpc_from_to_hex)

text \<open>The two scanners take the same scripts as anchors.\<close>

lemma rpc_payload_agrees: "rpc_op_return_payload (to_hex script) = Some (op_return_payload script)"
proof (cases script)
  case (Cons a rest)
  show ?thesis
  proof (cases "a = 0x6a")
    case True
    consider "rest = []" | b where "rest = [b]" | b c where "rest = [b, c]" | b c d ds where "rest = b # c # d # ds"
      by (metis list.exhaust)
    then show ?thesis
      by cases (auto simp: rpc_op_return_payload_def rpc_from_to_hex Cons True)
  qed (simp add: rpc_op_return_payload_def rpc_from_to_hex Cons)
qed (simp add: rpc_op_return_payload_def rpc_from_to_hex)

end
