(* ===== verification/Bitcoin_Chain.thy ===== *)
theory Bitcoin_Chain
  imports Bitcoin_Rpc Bech32 Cbf_Scan
begin

text \<open>
  The bitcoind anchor chain, \<open>crates/opencsv-bitcoin/src/chain.rs\<close>: scanning blocks over RPC, the persistent index file,
  anchoring in two passes, and the \<open>AnchorChain\<close> queries. An operation is a function of the chain it mutates, with an outer \<open>None\<close> for a
  panic (slicing a string inside a character). Heights are natural numbers. Writing the index file is a parameter,
  as is the record builder a caller hands to \<open>anchor\<close>.
\<close>

section \<open>State\<close>

record btc_entry =
  be_txid :: bytes
  be_location :: anchor_location
  be_record :: anchor_record
  be_ctx :: ctx

record bitcoin_chain =
  bx_next_id :: nat
  bx_network :: network
  bx_start_height :: nat
  bx_tip :: nat
  bx_scanned :: "(nat \<times> bytes) option"
  bx_entries :: "btc_entry list"
  bx_mempool :: "btc_entry list"
  bx_markers :: "(nat \<times> bool) list"
  bx_funding_utxos :: "(u8 \<times> bytes \<times> u32) list"
  bx_file :: "ustring file_read"

record node_env =
  ne_post :: rpc_transport
  ne_sha :: sha256_fn
  ne_write :: "ustring \<Rightarrow> ustring file_read \<Rightarrow> (btc_error + unit) \<times> ustring file_read"

type_synonym 'a btc = "bitcoin_chain \<Rightarrow> ((btc_error + 'a) \<times> bitcoin_chain) option"

definition ok :: "'a \<Rightarrow> 'a btc" where "ok x c = Some (Inr x, c)"
definition lift :: "btc_error + 'a \<Rightarrow> 'a btc" where "lift r c = Some (r, c)"
definition may_panic :: "(btc_error + 'a) option \<Rightarrow> 'a btc" where "may_panic m c = map_option (\<lambda>r. (r, c)) m"
definition modify :: "(bitcoin_chain \<Rightarrow> bitcoin_chain) \<Rightarrow> unit btc" where "modify f c = Some (Inr (), f c)"
definition reading :: "(bitcoin_chain \<Rightarrow> 'a) \<Rightarrow> 'a btc" where "reading f c = Some (Inr (f c), c)"

definition bind_btc :: "'a btc \<Rightarrow> ('a \<Rightarrow> 'b btc) \<Rightarrow> 'b btc" where
  "bind_btc m f c = (case m c of None \<Rightarrow> None | Some (Inl e, c) \<Rightarrow> Some (Inl e, c) | Some (Inr x, c) \<Rightarrow> f x c)"

definition call :: "node_env \<Rightarrow> string \<Rightarrow> json list \<Rightarrow> json btc" where
  "call env method params c = Some (rpc_reply (ne_post env) (bx_next_id c) method (JArr params), c\<lparr>bx_next_id := bx_next_id c + 1\<rparr>)"

definition call_str :: "node_env \<Rightarrow> string \<Rightarrow> json list \<Rightarrow> ustring btc" where
  "call_str env method params c = Some (rpc_reply_str (ne_post env) (bx_next_id c) method (JArr params), c\<lparr>bx_next_id := bx_next_id c + 1\<rparr>)"

definition rpc_chain_name :: "network \<Rightarrow> ustring" where
  "rpc_chain_name n = (case n of Mainnet \<Rightarrow> lit ''main'' | Signet \<Rightarrow> lit ''signet'' | Regtest \<Rightarrow> lit ''regtest'')"

definition default_rpc_port :: "network \<Rightarrow> nat" where
  "default_rpc_port n = (case n of Mainnet \<Rightarrow> 8332 | Signet \<Rightarrow> 38332 | Regtest \<Rightarrow> 18443)"

section \<open>Scanning\<close>

text \<open>The first null-data output with a 64-byte payload.\<close>

fun first_payload :: "json list \<Rightarrow> bytes option option" where
  "first_payload [] = Some None"
| "first_payload (out # outs) =
     (if Option.bind (json_get ''scriptPubKey'' out) (get_str ''type'') \<noteq> Some (lit ''nulldata'') then first_payload outs
      else case Option.bind (json_get ''scriptPubKey'' out) (get_str ''hex'') of
        None \<Rightarrow> first_payload outs
      | Some hex \<Rightarrow>
          (case rpc_op_return_payload hex of
             None \<Rightarrow> None
           | Some None \<Rightarrow> first_payload outs
           | Some (Some payload) \<Rightarrow> Some (Some payload)))"

definition scan_tx :: "sha256_fn \<Rightarrow> json \<Rightarrow> nat \<Rightarrow> u32 \<Rightarrow> (btc_error + btc_entry option) option" where
  "scan_tx sha tx ht pos =
     (case get_str ''txid'' tx of
        None \<Rightarrow> Some (Inl BtcMalformed)
      | Some txid_hex \<Rightarrow>
          (case get_array ''vin'' tx of
             Some (vin0 # _) \<Rightarrow>
               (case (get_str ''txid'' vin0, get_u64 ''vout'' vin0) of
                  (Some prev_txid, Some prev_vout) \<Rightarrow>
                    (if prev_vout > U32_MAX then Some (Inl BtcMalformed)
                     else case hash_from_rpc prev_txid of
                       None \<Rightarrow> None
                     | Some (Inl e) \<Rightarrow> Some (Inl e)
                     | Some (Inr prev) \<Rightarrow>
                         (let ctx = cbf_funding_ctx sha prev (word_of_nat prev_vout) in
                          case get_array ''vout'' tx of
                            None \<Rightarrow> Some (Inr None)
                          | Some outs \<Rightarrow>
                              (case first_payload outs of
                                 None \<Rightarrow> None
                               | Some None \<Rightarrow> Some (Inr None)
                               | Some (Some payload) \<Rightarrow>
                                   map_option (\<lambda>r. and_then r (\<lambda>txid.
                                     Inr (Some \<lparr>be_txid = txid, be_location = \<lparr>al_height = word_of_nat ht, al_position = pos\<rparr>,
                                       be_record = from_bytes payload, be_ctx = ctx\<rparr>))) (hash_from_rpc txid_hex))))
                | _ \<Rightarrow> Some (Inr None))
           | _ \<Rightarrow> Some (Inr None)))"

definition tx_has_marker :: "json \<Rightarrow> bool" where
  "tx_has_marker tx =
     (case get_array ''vout'' tx of
        None \<Rightarrow> False
      | Some outs \<Rightarrow> list_ex (\<lambda>out. case Option.bind (json_get ''scriptPubKey'' out) (get_str ''hex'') of
            None \<Rightarrow> False
          | Some script \<Rightarrow> script = to_hex MARKER_SPK \<or> script = to_hex LEGACY_MARKER_SPK) outs)"

text \<open>An error on a transaction leaves the entries of the ones before it in the index.\<close>

fun scan_txs :: "sha256_fn \<Rightarrow> nat \<Rightarrow> (nat \<times> json) list \<Rightarrow> bool \<Rightarrow> bool btc" where
  "scan_txs sha ht [] has_marker = ok has_marker"
| "scan_txs sha ht ((pos, tx) # txs) has_marker =
     bind_btc (may_panic (scan_tx sha tx ht (word_of_nat pos))) (\<lambda>entry.
     bind_btc (case entry of None \<Rightarrow> ok () | Some e \<Rightarrow> modify (\<lambda>c. c\<lparr>bx_entries := bx_entries c @ [e]\<rparr>)) (\<lambda>_.
     scan_txs sha ht txs (has_marker \<or> tx_has_marker tx)))"

definition scan_block :: "sha256_fn \<Rightarrow> json \<Rightarrow> nat \<Rightarrow> unit btc" where
  "scan_block sha block ht =
     bind_btc (lift (ok_or BtcMalformed (get_array ''tx'' block))) (\<lambda>txs.
     bind_btc (scan_txs sha ht (enumerate 0 txs) False) (\<lambda>has_marker.
     modify (\<lambda>c. c\<lparr>bx_markers := btree_insert ht has_marker (bx_markers c)\<rparr>)))"

section \<open>The index file\<close>

definition BTC_MAGIC :: ustring where "BTC_MAGIC = lit ''opencsv-bitcoin-index-v2''"
definition BTC_MAGIC_V1 :: ustring where "BTC_MAGIC_V1 = lit ''opencsv-bitcoin-index-v1''"

text \<open>The lines of the file; each is its words with single blanks.\<close>

definition marker_words :: "nat \<times> bool \<Rightarrow> ustring list" where
  "marker_words = (\<lambda>(ht, has_marker). [lit ''marker'', decimal ht, lit (if has_marker then ''1'' else ''0'')])"

definition funding_words :: "u8 \<times> bytes \<times> u32 \<Rightarrow> ustring list" where
  "funding_words = (\<lambda>(n, txid, vout). [lit ''fundingutxo'', decimal (unat n), hash_to_rpc txid, decimal (unat vout)])"

definition entry_words :: "btc_entry \<Rightarrow> ustring list" where
  "entry_words e =
     [lit ''entry'', decimal (unat (al_height (be_location e))), decimal (unat (al_position (be_location e))), hash_to_rpc (be_txid e),
      to_hex (be_ctx e), to_hex (to_bytes (be_record e))]"

definition btc_index_words :: "bitcoin_chain \<Rightarrow> ustring list list" where
  "btc_index_words c =
     [[lit ''network'', network_name (bx_network c)], [lit ''start'', decimal (bx_start_height c)]] @
     (case bx_scanned c of None \<Rightarrow> [] | Some (ht, hash) \<Rightarrow> [[lit ''scanned'', decimal ht, hash_to_rpc hash]]) @
     map marker_words (bx_markers c) @ map funding_words (bx_funding_utxos c) @ map entry_words (bx_entries c)"

definition btc_index_text :: "bitcoin_chain \<Rightarrow> ustring" where
  "btc_index_text c = unlines (BTC_MAGIC # map join (btc_index_words c))"

definition persist :: "node_env \<Rightarrow> unit btc" where
  "persist env c = (let (r, file) = ne_write env (btc_index_text c) (bx_file c) in Some (r, c\<lparr>bx_file := file\<rparr>))"

record persisted_index =
  pi_start :: "nat option"
  pi_scanned :: "(nat \<times> bytes) option"
  pi_entries :: "btc_entry list"
  pi_markers :: "(nat \<times> bool) list"
  pi_funding_utxos :: "(u8 \<times> bytes \<times> u32) list"

definition or_bad :: "'a option \<Rightarrow> ('a \<Rightarrow> (btc_error + 'b) option) \<Rightarrow> (btc_error + 'b) option" where
  "or_bad x f = (case x of None \<Rightarrow> Some (Inl BtcDecode) | Some y \<Rightarrow> f y)"

definition bad_if_err :: "(btc_error + 'a) option \<Rightarrow> ('a \<Rightarrow> (btc_error + 'b) option) \<Rightarrow> (btc_error + 'b) option" where
  "bad_if_err m f = (case m of None \<Rightarrow> None | Some (Inl _) \<Rightarrow> Some (Inl BtcDecode) | Some (Inr x) \<Rightarrow> f x)"

definition exactly :: "nat \<Rightarrow> bytes \<Rightarrow> bytes option" where
  "exactly n bs = (if length bs = n then Some bs else None)"

definition parse_index_line :: "network \<Rightarrow> ustring list \<Rightarrow> persisted_index \<Rightarrow> (btc_error + persisted_index) option" where
  "parse_index_line network ws s =
     (case ws of
        [tag, a] \<Rightarrow>
          (if tag = lit ''network'' then Some (if network_parse a \<noteq> Some network then Inl BtcDecode else Inr s)
           else if tag = lit ''start'' then or_bad (parse_uint U64_MAX a) (\<lambda>h. Some (Inr (s\<lparr>pi_start := Some h\<rparr>)))
           else Some (Inl BtcDecode))
      | [tag, a, b] \<Rightarrow>
          (if tag = lit ''marker'' then
             or_bad (parse_uint U64_MAX a) (\<lambda>h.
             or_bad (if b = lit ''0'' then Some False else if b = lit ''1'' then Some True else None) (\<lambda>has_marker.
             Some (Inr (s\<lparr>pi_markers := btree_insert h has_marker (pi_markers s)\<rparr>))))
           else if tag = lit ''scanned'' then
             or_bad (parse_uint U64_MAX a) (\<lambda>h. bad_if_err (hash_from_rpc b) (\<lambda>hash. Some (Inr (s\<lparr>pi_scanned := Some (h, hash)\<rparr>))))
           else Some (Inl BtcDecode))
      | [tag, n, txid, vout] \<Rightarrow>
          (if tag = lit ''fundingutxo'' then
             or_bad (parse_uint 255 n) (\<lambda>n. bad_if_err (hash_from_rpc txid) (\<lambda>txid. or_bad (parse_uint U32_MAX vout) (\<lambda>vout.
             Some (Inr (s\<lparr>pi_funding_utxos := btree_insert (word_of_nat n) (txid, word_of_nat vout) (pi_funding_utxos s)\<rparr>)))))
           else Some (Inl BtcDecode))
      | [tag, h, p, txid, ctx, found] \<Rightarrow>
          (if tag = lit ''entry'' then
             bad_if_err (rpc_from_hex found) (\<lambda>found. or_bad (exactly ANCHOR_SIZE found) (\<lambda>found.
             bad_if_err (hash_from_rpc txid) (\<lambda>txid. or_bad (parse_uint U64_MAX h) (\<lambda>h. or_bad (parse_uint U32_MAX p) (\<lambda>p.
             bad_if_err (rpc_from_hex ctx) (\<lambda>ctx. or_bad (exactly 32 ctx) (\<lambda>ctx.
             Some (Inr (s\<lparr>pi_entries := pi_entries s @ [\<lparr>be_txid = txid, be_location = \<lparr>al_height = word_of_nat h, al_position = word_of_nat p\<rparr>,
               be_record = from_bytes found, be_ctx = ctx\<rparr>]\<rparr>)))))))))
           else Some (Inl BtcDecode))
      | _ \<Rightarrow> Some (Inl BtcDecode))"

fun parse_index_lines :: "network \<Rightarrow> ustring list \<Rightarrow> persisted_index \<Rightarrow> (btc_error + persisted_index) option" where
  "parse_index_lines network [] s = Some (Inr s)"
| "parse_index_lines network (l # ls) s =
     (if trim l = [] then parse_index_lines network ls s
      else case parse_index_line network (split_whitespace (trim l)) s of
        None \<Rightarrow> None
      | Some (Inl e) \<Rightarrow> Some (Inl e)
      | Some (Inr s) \<Rightarrow> parse_index_lines network ls s)"

definition load_index :: "network \<Rightarrow> ustring file_read \<Rightarrow> (btc_error + persisted_index option) option" where
  "load_index network file =
     (case file of
        Absent \<Rightarrow> Some (Inr None)
      | Unreadable \<Rightarrow> Some (Inl BtcIo)
      | Contents text \<Rightarrow>
          (case str_lines text of
             [] \<Rightarrow> Some (Inl BtcDecode)
           | l # ls \<Rightarrow>
               (if trim l = BTC_MAGIC_V1 then Some (Inr None)
                else if trim l \<noteq> BTC_MAGIC then Some (Inl BtcDecode)
                else map_option (\<lambda>r. and_then r (\<lambda>s. if pi_start s = None then Inl BtcDecode else Inr (Some s)))
                  (parse_index_lines network ls \<lparr>pi_start = None, pi_scanned = None, pi_entries = [], pi_markers = [], pi_funding_utxos = []\<rparr>))))"

definition load_or_init :: "nat option \<Rightarrow> unit btc" where
  "load_or_init scan_from =
     bind_btc (reading id) (\<lambda>c.
     bind_btc (may_panic (load_index (bx_network c) (bx_file c))) (\<lambda>loaded.
     let rebuild = modify (\<lambda>c. c\<lparr>bx_start_height := (case scan_from of None \<Rightarrow> bx_tip c | Some h \<Rightarrow> h), bx_scanned := None, bx_entries := [], bx_markers := []\<rparr>)
     in case loaded of
          None \<Rightarrow> rebuild
        | Some s \<Rightarrow>
            (if scan_from = None \<or> scan_from = pi_start s then
               modify (\<lambda>c. c\<lparr>bx_start_height := the (pi_start s), bx_scanned := pi_scanned s, bx_entries := pi_entries s, bx_markers := pi_markers s,
                 bx_funding_utxos := pi_funding_utxos s\<rparr>)
             else rebuild)))"

section \<open>Refreshing\<close>

text \<open>The loop over the heights that are still to scan.\<close>

fun refresh_loop :: "node_env \<Rightarrow> nat list \<Rightarrow> unit btc" where
  "refresh_loop env [] = ok ()"
| "refresh_loop env (ht # heights) =
     bind_btc (call_str env ''getblockhash'' [JNum (decimal ht)]) (\<lambda>hash.
     bind_btc (call env ''getblock'' [JStr hash, JNum (lit ''2'')]) (\<lambda>block.
     bind_btc (scan_block (ne_sha env) block ht) (\<lambda>_.
     bind_btc (may_panic (hash_from_rpc hash)) (\<lambda>h.
     bind_btc (modify (\<lambda>c. c\<lparr>bx_scanned := Some (ht, h)\<rparr>)) (\<lambda>_.
     refresh_loop env heights)))))"

definition check_reorg :: "node_env \<Rightarrow> unit btc" where
  "check_reorg env =
     bind_btc (reading bx_scanned) (\<lambda>scanned. case scanned of
        None \<Rightarrow> ok ()
      | Some (h, hash) \<Rightarrow>
          bind_btc (call_str env ''getblockhash'' [JNum (decimal h)]) (\<lambda>actual.
          bind_btc (may_panic (hash_from_rpc actual)) (\<lambda>actual_hash.
          if actual_hash \<noteq> hash then modify (\<lambda>c. c\<lparr>bx_scanned := None, bx_entries := [], bx_markers := []\<rparr>) else ok ())))"

definition heights_to_scan :: "bitcoin_chain \<Rightarrow> nat list" where
  "heights_to_scan c = [(case bx_scanned c of None \<Rightarrow> bx_start_height c | Some (h, _) \<Rightarrow> h + 1)..<Suc (bx_tip c)]"

definition prune_mempool :: "bitcoin_chain \<Rightarrow> bitcoin_chain" where
  "prune_mempool c = c\<lparr>bx_mempool := filter (\<lambda>m. \<not> list_ex (\<lambda>e. be_txid e = be_txid m) (bx_entries c)) (bx_mempool c)\<rparr>"

definition btc_refresh :: "node_env \<Rightarrow> unit btc" where
  "btc_refresh env =
     bind_btc (call env ''getblockcount'' []) (\<lambda>n.
     bind_btc (lift (ok_or BtcMalformed (as_u64 n))) (\<lambda>tip.
     bind_btc (modify (\<lambda>c. c\<lparr>bx_tip := tip\<rparr>)) (\<lambda>_.
     bind_btc (check_reorg env) (\<lambda>_.
     bind_btc (reading heights_to_scan) (\<lambda>heights.
     bind_btc (refresh_loop env heights) (\<lambda>_.
     bind_btc (modify prune_mempool) (\<lambda>_.
     if heights \<noteq> [] then persist env else ok ())))))))"

definition with_transport :: "node_env \<Rightarrow> network \<Rightarrow> nat option \<Rightarrow> ustring file_read \<Rightarrow> (btc_error + bitcoin_chain) option" where
  "with_transport env network scan_from file =
     (let start = \<lparr>bx_next_id = 1, bx_network = network, bx_start_height = 0, bx_tip = 0, bx_scanned = None, bx_entries = [], bx_mempool = [],
            bx_markers = [], bx_funding_utxos = [], bx_file = file\<rparr>
      in map_option (\<lambda>(r, c). and_then r (\<lambda>_. Inr c))
        (bind_btc (call env ''getblockchaininfo'' []) (\<lambda>info.
         bind_btc (lift (ok_or BtcMalformed (get_str ''chain'' info))) (\<lambda>actual.
         if actual \<noteq> rpc_chain_name network then lift (Inl (BtcWrongNetwork network actual))
         else bind_btc (lift (ok_or BtcMalformed (get_u64 ''blocks'' info))) (\<lambda>tip.
           bind_btc (modify (\<lambda>c. c\<lparr>bx_tip := tip\<rparr>)) (\<lambda>_.
           bind_btc (load_or_init scan_from) (\<lambda>_. btc_refresh env))))) start))"

definition generate_blocks :: "node_env \<Rightarrow> nat \<Rightarrow> unit btc" where
  "generate_blocks env n =
     bind_btc (reading bx_network) (\<lambda>network.
     if network \<noteq> Regtest then lift (Inl BtcNotRegtest)
     else bind_btc (call_str env ''getnewaddress'' []) (\<lambda>address.
       bind_btc (call env ''generatetoaddress'' [JNum (decimal n), JStr address]) (\<lambda>_. btc_refresh env)))"

section \<open>Anchoring\<close>

definition note_mempool :: "bytes \<Rightarrow> anchor_record \<Rightarrow> ctx \<Rightarrow> unit btc" where
  "note_mempool txid found ctx =
     modify (\<lambda>c. c\<lparr>bx_mempool := bx_mempool c @ [\<lparr>be_txid = txid, be_location = mempool_location, be_record = found, be_ctx = ctx\<rparr>]\<rparr>)"

text \<open>The tracked batch-funding outpoint of a payload count.\<close>

definition funding_utxo :: "bitcoin_chain \<Rightarrow> u8 \<Rightarrow> (bytes \<times> u32) option" where
  "funding_utxo c payload_count = map_of (bx_funding_utxos c) payload_count"

definition set_funding_utxo :: "node_env \<Rightarrow> u8 \<Rightarrow> bytes \<times> u32 \<Rightarrow> unit btc" where
  "set_funding_utxo env payload_count outpoint =
     bind_btc (modify (\<lambda>c. c\<lparr>bx_funding_utxos := btree_insert payload_count outpoint (bx_funding_utxos c)\<rparr>)) (\<lambda>_. persist env)"

definition funding_candidate :: "json \<Rightarrow> btc_error + (ustring \<times> u32)" where
  "funding_candidate inp =
     and_then (ok_or BtcMalformed (get_str ''txid'' inp)) (\<lambda>txid.
     and_then (ok_or BtcMalformed (get_u64 ''vout'' inp)) (\<lambda>n.
     if n > U32_MAX then Inl BtcMalformed else Inr (txid, word_of_nat n)))"

text \<open>The first candidate whose record parses cleanly, with its index.\<close>

fun choose_funding :: "sha256_fn \<Rightarrow> (ctx \<Rightarrow> anchor_record) \<Rightarrow> nat \<Rightarrow> (ustring \<times> u32) list \<Rightarrow> (btc_error + (nat \<times> ctx \<times> anchor_record)) option" where
  "choose_funding sha build i [] = Some (Inl BtcTagCollision)"
| "choose_funding sha build i ((txid, n) # rest) =
     (case hash_from_rpc txid of
        None \<Rightarrow> None
      | Some (Inl e) \<Rightarrow> Some (Inl e)
      | Some (Inr h) \<Rightarrow>
          (let ctx = cbf_funding_ctx sha h n; found = build ctx in
           if parses_cleanly found then Some (Inr (i, ctx, found)) else choose_funding sha build (Suc i) rest))"

definition input_json :: "ustring \<times> u32 \<Rightarrow> json" where
  "input_json = (\<lambda>(txid, n). JObj [(lit ''txid'', JStr txid), (lit ''vout'', JNum (decimal (unat n)))])"

definition chosen_first :: "nat \<Rightarrow> (ustring \<times> u32) list \<Rightarrow> (ustring \<times> u32) list" where
  "chosen_first i cands = cands ! i # map snd (filter (\<lambda>(j, _). j \<noteq> i) (enumerate 0 cands))"

definition output_json :: "ustring \<Rightarrow> json \<Rightarrow> btc_error + json" where
  "output_json record_hex out =
     and_then (ok_or BtcMalformed (json_get ''scriptPubKey'' out)) (\<lambda>script.
     if get_str ''type'' script = Some (lit ''nulldata'') then Inr (JObj [(lit ''data'', JStr record_hex)])
     else and_then (ok_or BtcMalformed (get_str ''address'' script)) (\<lambda>address.
       Inr (JObj [(address, (case json_get ''value'' out of None \<Rightarrow> JNull | Some v \<Rightarrow> v))])))"

definition sign_and_send :: "node_env \<Rightarrow> ustring \<Rightarrow> bytes btc" where
  "sign_and_send env raw2 =
     bind_btc (call env ''signrawtransactionwithwallet'' [JStr raw2]) (\<lambda>signed.
     if get_bool ''complete'' signed \<noteq> Some True then lift (Inl BtcSigningFailed)
     else bind_btc (lift (ok_or BtcMalformed (get_str ''hex'' signed))) (\<lambda>signed_hex.
       bind_btc (call_str env ''sendrawtransaction'' [JStr signed_hex]) (\<lambda>txid_hex. may_panic (hash_from_rpc txid_hex))))"

text \<open>The constant of \<open>MARKER_DUST_BTC\<close> as \<open>serde_json\<close> prints a double: shortest digits, with an exponent below 1e-5.\<close>

definition MARKER_DUST_BTC :: json where "MARKER_DUST_BTC = JNum (lit ''5.46e-6'')"

definition anchor_tx :: "node_env \<Rightarrow> (ctx \<Rightarrow> anchor_record) \<Rightarrow> anchor_ref btc" where
  "anchor_tx env build =
     bind_btc (reading bx_network) (\<lambda>network.
     bind_btc (\<lambda>c. map_option (\<lambda>address. (Inr address, c)) (marker_address network)) (\<lambda>marker.
     bind_btc (call_str env ''createrawtransaction'' [JArr [], JArr [JObj [(lit ''data'', JStr (to_hex (replicate ANCHOR_SIZE 0)))],
        JObj [(marker, MARKER_DUST_BTC)]]]) (\<lambda>raw1.
     bind_btc (call env ''fundrawtransaction'' [JStr raw1, JObj [(lit ''change_position'', JNum (lit ''2''))]]) (\<lambda>funded.
     bind_btc (lift (ok_or BtcMalformed (get_str ''hex'' funded))) (\<lambda>funded_hex.
     bind_btc (call env ''decoderawtransaction'' [JStr funded_hex]) (\<lambda>tx.
     bind_btc (lift (ok_or BtcMalformed (get_array ''vin'' tx))) (\<lambda>vin.
     bind_btc (lift (ok_or BtcMalformed (get_array ''vout'' tx))) (\<lambda>outs.
     bind_btc (lift (try_map funding_candidate vin)) (\<lambda>candidates.
     if candidates = [] then lift (Inl BtcNoFundingInputs)
     else
       bind_btc (may_panic (choose_funding (ne_sha env) build 0 candidates)) (\<lambda>(i, ctx, found).
       bind_btc (lift (try_map (output_json (to_hex (to_bytes found))) outs)) (\<lambda>outputs.
       bind_btc (call_str env ''createrawtransaction'' [JArr (map input_json (chosen_first i candidates)), JArr outputs]) (\<lambda>raw2.
       bind_btc (sign_and_send env raw2) (\<lambda>txid.
       bind_btc (note_mempool txid found ctx) (\<lambda>_.
       ok \<lparr>ar_txid = txid, ar_location = mempool_location\<rparr>))))))))))))))"

definition broadcast_transaction :: "node_env \<Rightarrow> ustring \<Rightarrow> bytes \<Rightarrow> ustring btc" where
  "broadcast_transaction env expected raw c =
     (case call env ''getmempoolentry'' [JStr expected] c of
        None \<Rightarrow> None
      | Some (Inr _, c) \<Rightarrow> Some (Inr expected, c)
      | Some (Inl e, c) \<Rightarrow>
          (if e \<noteq> BtcRpc (- 5) then Some (Inl e, c)
           else case call_str env ''sendrawtransaction'' [JStr (to_hex raw)] c of
             None \<Rightarrow> None
           | Some (Inl e, c) \<Rightarrow> if e = BtcRpc (- 27) then Some (Inr expected, c) else Some (Inl e, c)
           | Some (Inr txid, c) \<Rightarrow> if txid \<noteq> expected then Some (Inl BtcMalformed, c) else Some (Inr txid, c)))"

section \<open>Queries\<close>

definition btc_find :: "bitcoin_chain \<Rightarrow> anchor_ref \<Rightarrow> btc_entry option" where
  "btc_find c ref =
     (let matches = (\<lambda>e. be_txid e = ar_txid ref \<and> (be_location e = ar_location ref \<or> ar_location ref = mempool_location)) in
      case find matches (bx_entries c) of Some e \<Rightarrow> Some e | None \<Rightarrow> find matches (bx_mempool c))"

definition btc_nullifier_occurrences :: "sponge \<Rightarrow> bitcoin_chain \<Rightarrow> digest \<Rightarrow> anchor_location list" where
  "btc_nullifier_occurrences sp c raw_nf = sort (map be_location (filter (\<lambda>e. well_formed sp (be_record e) (be_ctx e) raw_nf) (bx_entries c)))"

definition btc_confirmations_at :: "u64 \<Rightarrow> u64 \<Rightarrow> u64" where
  "btc_confirmations_at tip h = (if h = 0 \<or> h > tip then 0 else tip - h + 1)"

definition block_has_marker :: "bitcoin_chain \<Rightarrow> nat \<Rightarrow> bool option" where
  "block_has_marker c ht = map_of (bx_markers c) ht"

definition bitcoin_view :: "sponge \<Rightarrow> bitcoin_chain \<Rightarrow> anchor_chain" where
  "bitcoin_view sp c =
     \<lparr>tip_height = word_of_nat (bx_tip c),
      anchor_at = (\<lambda>ref. map_option be_record (btc_find c ref)),
      proof_record_at = default_proof_record_at (\<lambda>ref. map_option be_record (btc_find c ref)),
      ctx_at = (\<lambda>ref. map_option be_ctx (btc_find c ref)),
      locate = (\<lambda>ref. map_option be_location (btc_find c ref)),
      first_nullifier_occurrence = (\<lambda>raw_nf. case btc_nullifier_occurrences sp c raw_nf of [] \<Rightarrow> None | l # _ \<Rightarrow> Some l),
      nullifier_occurrences = btc_nullifier_occurrences sp c,
      anchors_up_to = (\<lambda>h. sort_key fst (map (\<lambda>e. (be_location e, be_record e)) (filter (\<lambda>e. al_height (be_location e) \<le> h) (bx_entries c)))),
      confirmations_at = btc_confirmations_at (word_of_nat (bx_tip c))\<rparr>"

end
