(* ===== verification/Bitcoin_Chain_Proofs.thy ===== *)
theory Bitcoin_Chain_Proofs
  imports Bitcoin_Chain Cbf_Scan_Proofs
begin

text \<open>
  Refreshing the bitcoind index against a node that serves one chain, and what a reload of the index file gives back.
\<close>

section \<open>Stepping\<close>

lemma bind_ok [simp]: "m c = Some (Inr x, c') \<Longrightarrow> bind_btc m f c = f x c'"
  by (simp add: bind_btc_def)

lemma bind_Inr: "bind_btc m f c = Some (Inr y, c'') \<longleftrightarrow> (\<exists>x c'. m c = Some (Inr x, c') \<and> f x c' = Some (Inr y, c''))"
  by (auto simp: bind_btc_def split: option.splits prod.splits sum.splits)

lemmas step_defs = ok_def lift_def may_panic_def modify_def reading_def call_def call_str_def

section \<open>What a block holds\<close>

definition tx_entry :: "sha256_fn \<Rightarrow> nat \<Rightarrow> nat \<times> json \<Rightarrow> btc_entry option" where
  "tx_entry sha ht = (\<lambda>(pos, tx). case scan_tx sha tx ht (word_of_nat pos) of Some (Inr r) \<Rightarrow> r | _ \<Rightarrow> None)"

definition tx_clean :: "sha256_fn \<Rightarrow> nat \<Rightarrow> nat \<times> json \<Rightarrow> bool" where
  "tx_clean sha ht = (\<lambda>(pos, tx). case scan_tx sha tx ht (word_of_nat pos) of Some (Inr r) \<Rightarrow> True | _ \<Rightarrow> False)"

definition block_txs :: "json \<Rightarrow> (nat \<times> json) list" where
  "block_txs block = enumerate 0 (case get_array ''tx'' block of None \<Rightarrow> [] | Some txs \<Rightarrow> txs)"

definition block_entries :: "sha256_fn \<Rightarrow> nat \<Rightarrow> json \<Rightarrow> btc_entry list" where
  "block_entries sha ht block = List.map_filter (tx_entry sha ht) (block_txs block)"

definition block_marked :: "json \<Rightarrow> bool" where
  "block_marked block = list_ex (\<lambda>(pos, tx). tx_has_marker tx) (block_txs block)"

definition block_clean :: "sha256_fn \<Rightarrow> nat \<Rightarrow> json \<Rightarrow> bool" where
  "block_clean sha ht block \<longleftrightarrow> get_array ''tx'' block \<noteq> None \<and> list_all (tx_clean sha ht) (block_txs block)"

lemma scan_txs_clean:
  "list_all (tx_clean sha ht) txs \<Longrightarrow> scan_txs sha ht txs mk c =
     Some (Inr (mk \<or> list_ex (\<lambda>(pos, tx). tx_has_marker tx) txs), c\<lparr>bx_entries := bx_entries c @ List.map_filter (tx_entry sha ht) txs\<rparr>)"
proof (induction txs arbitrary: mk c)
  case (Cons p txs)
  obtain pos tx where p: "p = (pos, tx)" by (cases p)
  from Cons.prems obtain r where r: "scan_tx sha tx ht (word_of_nat pos) = Some (Inr r)"
    by (auto simp: p tx_clean_def split: option.splits sum.splits)
  show ?case using Cons by (cases r) (simp_all add: p r step_defs tx_entry_def List.map_filter_def)
qed (simp add: ok_def List.map_filter_def)

lemma scan_block_clean:
  assumes "block_clean sha ht block" "list_all (\<lambda>(k, _). k < ht) (bx_markers c)"
  shows "scan_block sha block ht c = Some (Inr (), c\<lparr>bx_entries := bx_entries c @ block_entries sha ht block,
    bx_markers := bx_markers c @ [(ht, block_marked block)]\<rparr>)"
proof -
  from assms obtain txs where txs: "get_array ''tx'' block = Some txs" by (auto simp: block_clean_def)
  then show ?thesis using assms
    by (simp add: scan_block_def step_defs scan_txs_clean block_clean_def block_txs_def block_entries_def block_marked_def btree_insert_last)
qed

section \<open>A node that serves one chain\<close>

record node_view =
  nv_tip :: nat
  nv_hash :: "nat \<Rightarrow> bytes"
  nv_block :: "nat \<Rightarrow> json"

definition serves :: "node_env \<Rightarrow> node_view \<Rightarrow> bool" where
  "serves env v \<longleftrightarrow> nv_tip v \<le> U64_MAX \<and>
     (\<forall>ident. rpc_reply (ne_post env) ident ''getblockcount'' (JArr []) = Inr (JNum (decimal (nv_tip v)))) \<and>
     (\<forall>ident h. h \<le> nv_tip v \<longrightarrow> length (nv_hash v h) = 32 \<and>
        rpc_reply_str (ne_post env) ident ''getblockhash'' (JArr [JNum (decimal h)]) = Inr (hash_to_rpc (nv_hash v h)) \<and>
        rpc_reply (ne_post env) ident ''getblock'' (JArr [JStr (hash_to_rpc (nv_hash v h)), JNum (lit ''2'')]) = Inr (nv_block v h))"

definition range_entries :: "sha256_fn \<Rightarrow> node_view \<Rightarrow> nat list \<Rightarrow> btc_entry list" where
  "range_entries sha v hs = concat (map (\<lambda>h. block_entries sha h (nv_block v h)) hs)"

definition range_markers :: "node_view \<Rightarrow> nat list \<Rightarrow> (nat \<times> bool) list" where
  "range_markers v hs = map (\<lambda>h. (h, block_marked (nv_block v h))) hs"

lemma range_Nil [simp]: "range_entries sha v [] = []" "range_markers v [] = []"
  by (simp_all add: range_entries_def range_markers_def)

text \<open>The index holds exactly what the chain has from the start height to the last scanned one.\<close>

definition index_exact :: "sha256_fn \<Rightarrow> node_view \<Rightarrow> bitcoin_chain \<Rightarrow> bool" where
  "index_exact sha v c \<longleftrightarrow>
     (case bx_scanned c of
        None \<Rightarrow> bx_entries c = [] \<and> bx_markers c = []
      | Some (h, hash) \<Rightarrow> bx_start_height c \<le> h \<and> hash = nv_hash v h \<and> bx_entries c = range_entries sha v [bx_start_height c..<Suc h] \<and>
          bx_markers c = range_markers v [bx_start_height c..<Suc h])"

lemma refresh_loop_serves:
  assumes "serves env v" "\<forall>h \<in> set hs. h \<le> nv_tip v \<and> block_clean (ne_sha env) h (nv_block v h)"
    and "sorted_wrt (<) hs" "\<forall>h \<in> set hs. list_all (\<lambda>(k, _). k < h) (bx_markers c)"
  shows "\<exists>n. refresh_loop env hs c = Some (Inr (), c\<lparr>bx_next_id := n,
    bx_entries := bx_entries c @ range_entries (ne_sha env) v hs, bx_markers := bx_markers c @ range_markers v hs,
    bx_scanned := (if hs = [] then bx_scanned c else Some (last hs, nv_hash v (last hs)))\<rparr>)"
  using assms
proof (induction hs arbitrary: c)
  case (Cons h hs)
  let ?c = "c\<lparr>bx_next_id := bx_next_id c + 1 + 1, bx_entries := bx_entries c @ block_entries (ne_sha env) h (nv_block v h),
      bx_markers := bx_markers c @ [(h, block_marked (nv_block v h))], bx_scanned := Some (h, nv_hash v h)\<rparr>"
  have h: "h \<le> nv_tip v" "block_clean (ne_sha env) h (nv_block v h)" using Cons.prems(2) by auto
  have s: "rpc_reply_str (ne_post env) i ''getblockhash'' (JArr [JNum (decimal h)]) = Inr (hash_to_rpc (nv_hash v h))"
    "rpc_reply (ne_post env) i ''getblock'' (JArr [JStr (hash_to_rpc (nv_hash v h)), JNum (lit ''2'')]) = Inr (nv_block v h)"
    "length (nv_hash v h) = 32" for i
    using Cons.prems(1) h(1) by (auto simp: serves_def)
  have sc: "scan_block (ne_sha env) (nv_block v h) h (c\<lparr>bx_next_id := k\<rparr>) = Some (Inr (), c\<lparr>bx_next_id := k,
      bx_entries := bx_entries c @ block_entries (ne_sha env) h (nv_block v h), bx_markers := bx_markers c @ [(h, block_marked (nv_block v h))]\<rparr>)" for k
    using scan_block_clean [OF h(2), of "c\<lparr>bx_next_id := k\<rparr>"] Cons.prems(4) by simp
  have step: "refresh_loop env (h # hs) c = refresh_loop env hs ?c"
    by (simp add: step_defs s sc hash_rpc_roundtrip)
  have "\<exists>n. refresh_loop env hs ?c = Some (Inr (), ?c\<lparr>bx_next_id := n,
    bx_entries := bx_entries ?c @ range_entries (ne_sha env) v hs, bx_markers := bx_markers ?c @ range_markers v hs,
    bx_scanned := (if hs = [] then bx_scanned ?c else Some (last hs, nv_hash v (last hs)))\<rparr>)"
    by (rule Cons.IH) (use Cons.prems in auto)
  then show ?case unfolding step by (auto simp: range_entries_def range_markers_def)
qed (simp add: ok_def range_entries_def range_markers_def, metis bitcoin_chain.surjective bitcoin_chain.update_convs(1))

lemma upt_join: "a \<le> Suc b \<Longrightarrow> b \<le> c \<Longrightarrow> [a..<Suc b] @ [Suc b..<Suc c] = [a..<Suc c]"
  using upt_add_eq_append [of a "Suc b" "c - b"] by (simp del: upt_Suc)

text \<open>The last block hash commits to the whole lineage: a node that still serves it serves the same blocks below.\<close>

definition same_lineage :: "node_view \<Rightarrow> node_view \<Rightarrow> nat \<Rightarrow> nat \<Rightarrow> bool" where
  "same_lineage old v from h \<longleftrightarrow> (nv_hash v h = nv_hash old h \<longrightarrow> (\<forall>k. from \<le> k \<and> k \<le> h \<longrightarrow> nv_block v k = nv_block old k))"

lemma check_reorg_serves:
  assumes "serves env v" "index_exact (ne_sha env) old c"
    and "\<And>h hash. bx_scanned c = Some (h, hash) \<Longrightarrow> h \<le> nv_tip v \<and> same_lineage old v (bx_start_height c) h"
  obtains c1 where "check_reorg env c = Some (Inr (), c1)" "index_exact (ne_sha env) v c1" "bx_start_height c1 = bx_start_height c"
    "bx_tip c1 = bx_tip c" "bx_mempool c1 = bx_mempool c" "bx_network c1 = bx_network c" "bx_funding_utxos c1 = bx_funding_utxos c"
    "\<And>h hash. bx_scanned c1 = Some (h, hash) \<Longrightarrow> h \<le> nv_tip v"
proof (cases "bx_scanned c")
  case None
  then show thesis using assms(2) by (intro that [of c]) (simp_all add: check_reorg_def step_defs index_exact_def)
next
  case (Some p)
  obtain h hash where p: "p = (h, hash)" by (cases p)
  have h: "h \<le> nv_tip v" "same_lineage old v (bx_start_height c) h" "hash = nv_hash old h" "bx_start_height c \<le> h"
    using assms(2,3) Some p by (auto simp: index_exact_def)
  let ?c = "c\<lparr>bx_next_id := bx_next_id c + 1\<rparr>"
  let ?cl = "?c\<lparr>bx_scanned := None, bx_entries := [], bx_markers := []\<rparr>"
  have s: "rpc_reply_str (ne_post env) i ''getblockhash'' (JArr [JNum (decimal h)]) = Inr (hash_to_rpc (nv_hash v h))" "length (nv_hash v h) = 32" for i
    using assms(1) h(1) by (auto simp: serves_def)
  show thesis
  proof (cases "nv_hash v h = hash")
    case True
    have eq: "range_entries (ne_sha env) v [bx_start_height c..<Suc h] = range_entries (ne_sha env) old [bx_start_height c..<Suc h]"
      "range_markers v [bx_start_height c..<Suc h] = range_markers old [bx_start_height c..<Suc h]"
      using h True by (auto simp: same_lineage_def range_entries_def range_markers_def intro!: arg_cong [of _ _ concat] map_cong)
    show thesis
    proof (rule that [of ?c])
      have "length hash = 32" using s(2) True by simp
      then show "check_reorg env c = Some (Inr (), ?c)" using True by (simp add: check_reorg_def step_defs Some p s hash_rpc_roundtrip)
      show "index_exact (ne_sha env) v ?c" using assms(2) eq True by (simp add: index_exact_def Some p)
    qed (use Some p h in auto)
  next
    case False
    then have "check_reorg env c = Some (Inr (), ?cl)" by (simp add: check_reorg_def step_defs Some p s hash_rpc_roundtrip)
    then show thesis by (rule that) (simp_all add: index_exact_def)
  qed
qed

section \<open>The refreshed index\<close>

lemma last_upt_Suc: "a \<le> b \<Longrightarrow> last [a..<Suc b] = b"
  by simp

lemma refresh_serves:
  assumes v: "serves env v" and clean: "\<And>h. bx_start_height c \<le> h \<Longrightarrow> h \<le> nv_tip v \<Longrightarrow> block_clean (ne_sha env) h (nv_block v h)"
    and exact: "index_exact (ne_sha env) old c"
    and lineage: "\<And>h hash. bx_scanned c = Some (h, hash) \<Longrightarrow> h \<le> nv_tip v \<and> same_lineage old v (bx_start_height c) h"
    and disk: "\<And>t f. fst (ne_write env t f) = Inr ()"
  obtains c' where "btc_refresh env c = Some (Inr (), c')" "index_exact (ne_sha env) v c'" "bx_tip c' = nv_tip v"
    "bx_start_height c' = bx_start_height c" "bx_start_height c \<le> nv_tip v \<longrightarrow> bx_scanned c' = Some (nv_tip v, nv_hash v (nv_tip v))"
    "bx_mempool c' = filter (\<lambda>m. \<not> list_ex (\<lambda>e. be_txid e = be_txid m) (bx_entries c')) (bx_mempool c)"
    "\<And>h hash. bx_scanned c' = Some (h, hash) \<Longrightarrow> h \<le> nv_tip v"
proof -
  let ?cl = "c\<lparr>bx_next_id := bx_next_id c + 1, bx_tip := nv_tip v\<rparr>"
  obtain c1 where c1: "check_reorg env ?cl = Some (Inr (), c1)" "index_exact (ne_sha env) v c1" "bx_start_height c1 = bx_start_height c"
    "bx_tip c1 = nv_tip v" "bx_mempool c1 = bx_mempool c" "\<And>h hash. bx_scanned c1 = Some (h, hash) \<Longrightarrow> h \<le> nv_tip v"
  proof (rule check_reorg_serves [OF v, of old ?cl])
    show "index_exact (ne_sha env) old ?cl" using exact by (auto simp: index_exact_def split: option.splits)
    show "h \<le> nv_tip v \<and> same_lineage old v (bx_start_height ?cl) h" if "bx_scanned ?cl = Some (h, hash)" for h hash
      using lineage [of h hash] that by simp
  qed auto
  let ?hs = "heights_to_scan c1"
  define lo where "lo = (case bx_scanned c1 of None \<Rightarrow> bx_start_height c | Some (h, _) \<Rightarrow> h + 1)"
  have hs: "?hs = [lo..<Suc (nv_tip v)]" by (simp only: heights_to_scan_def lo_def c1(3,4))
  have lo: "bx_start_height c \<le> lo" using c1(2,3) by (auto simp: lo_def index_exact_def split: option.splits)
  have mk: "list_all (\<lambda>(k, _). k < h) (bx_markers c1)" if "lo \<le> h" for h
    using c1(2,3) that by (auto simp: lo_def index_exact_def range_markers_def list_all_iff split: option.splits)
  have "\<exists>n. refresh_loop env ?hs c1 = Some (Inr (), c1\<lparr>bx_next_id := n,
    bx_entries := bx_entries c1 @ range_entries (ne_sha env) v ?hs, bx_markers := bx_markers c1 @ range_markers v ?hs,
    bx_scanned := (if ?hs = [] then bx_scanned c1 else Some (last ?hs, nv_hash v (last ?hs)))\<rparr>)"
    by (rule refresh_loop_serves [OF v]) (use lo clean mk in \<open>auto simp: hs simp del: upt_Suc\<close>)
  then obtain n where loop: "refresh_loop env ?hs c1 = Some (Inr (), c1\<lparr>bx_next_id := n,
    bx_entries := bx_entries c1 @ range_entries (ne_sha env) v ?hs, bx_markers := bx_markers c1 @ range_markers v ?hs,
    bx_scanned := (if ?hs = [] then bx_scanned c1 else Some (last ?hs, nv_hash v (last ?hs)))\<rparr>)" (is "_ = Some (_, ?cm)") by blast
  have cnt: "rpc_reply (ne_post env) i ''getblockcount'' (JArr []) = Inr (JNum (decimal (nv_tip v)))" "nv_tip v \<le> U64_MAX" for i
    using v by (auto simp: serves_def)
  have run: "btc_refresh env c = (if ?hs \<noteq> [] then persist env else ok ()) (prune_mempool ?cm)"
    using cnt c1(1) loop by (simp add: btc_refresh_def step_defs)
  have exact2: "index_exact (ne_sha env) v ?cm"
  proof (cases "?hs = []")
    case True
    then show ?thesis using c1(2) by (auto simp: index_exact_def split: option.splits simp del: upt_Suc)
  next
    case False
    then have le: "lo \<le> nv_tip v" by (simp add: hs del: upt_Suc)
    have scanned: "bx_scanned ?cm = Some (nv_tip v, nv_hash v (nv_tip v))" using False le by (simp add: hs last_upt_Suc del: upt_Suc)
    show ?thesis
    proof (cases "bx_scanned c1")
      case None
      then have "lo = bx_start_height c" by (simp add: lo_def)
      then show ?thesis using None c1(2,3) scanned le by (simp add: index_exact_def hs del: upt_Suc)
    next
      case (Some p)
      obtain h hash where p: "p = (h, hash)" by (cases p)
      then have l: "lo = Suc h" "bx_start_height c \<le> h" using Some c1(2,3) by (simp_all add: lo_def index_exact_def)
      have "[bx_start_height c..<Suc h] @ [lo..<Suc (nv_tip v)] = [bx_start_height c..<Suc (nv_tip v)]"
        using l le by (simp add: upt_join del: upt_Suc)
      then show ?thesis using Some p c1(2,3) scanned le l
        by (simp add: index_exact_def hs range_entries_def range_markers_def flip: concat_append map_append del: upt_Suc)
    qed
  qed
  define cp where "cp = prune_mempool ?cm"
  obtain written where p: "ne_write env (btc_index_text cp) (bx_file cp) = (Inr (), written)" using disk by (metis prod.collapse)
  let ?c' = "if ?hs \<noteq> [] then cp\<lparr>bx_file := written\<rparr> else cp"
  have fields: "bx_scanned ?c' = bx_scanned ?cm" "bx_entries ?c' = bx_entries ?cm" "bx_markers ?c' = bx_markers ?cm" "bx_start_height ?c' = bx_start_height ?cm"
    "bx_tip ?c' = bx_tip ?cm" "bx_mempool ?c' = bx_mempool cp" by (simp_all add: cp_def prune_mempool_def)
  show thesis
  proof (rule that [of ?c'])
    show "btc_refresh env c = Some (Inr (), ?c')" unfolding run cp_def [symmetric] using p by (simp add: persist_def ok_def)
    show "index_exact (ne_sha env) v ?c'" using exact2 unfolding index_exact_def fields .
    show "bx_tip ?c' = nv_tip v" "bx_start_height ?c' = bx_start_height c" unfolding fields by (simp_all add: c1)
    show "bx_mempool ?c' = filter (\<lambda>m. \<not> list_ex (\<lambda>e. be_txid e = be_txid m) (bx_entries ?c')) (bx_mempool c)"
      unfolding fields by (simp add: cp_def prune_mempool_def c1)
    show "h \<le> nv_tip v" if "bx_scanned ?c' = Some (h, hash)" for h hash
      using that c1(6) [of h hash] unfolding fields by (auto simp: hs split: if_splits)
    show "bx_start_height c \<le> nv_tip v \<longrightarrow> bx_scanned ?c' = Some (nv_tip v, nv_hash v (nv_tip v))"
    proof (unfold fields, intro impI)
      assume le: "bx_start_height c \<le> nv_tip v"
      show "bx_scanned ?cm = Some (nv_tip v, nv_hash v (nv_tip v))"
      proof (cases "?hs = []")
        case True
        then have "nv_tip v < lo" by (simp add: hs split: if_splits)
        then obtain h hash where "bx_scanned c1 = Some (h, hash)" "nv_tip v \<le> h" using le by (auto simp: lo_def split: option.splits)
        then show ?thesis using c1(2) c1(6) [of h hash] True by (auto simp: index_exact_def)
      next
        case False
        then show ?thesis by (simp add: hs last_upt_Suc del: upt_Suc)
      qed
    qed
  qed
qed

section \<open>Occurrences\<close>

definition btc_occ :: "sponge \<Rightarrow> bitcoin_chain \<Rightarrow> digest \<Rightarrow> anchor_location set" where
  "btc_occ sp c raw_nf = {be_location e | e. e \<in> set (bx_entries c) \<and> well_formed sp (be_record e) (be_ctx e) raw_nf}"

lemma set_btc_occurrences: "set (btc_nullifier_occurrences sp c raw_nf) = btc_occ sp c raw_nf"
  by (auto simp: btc_nullifier_occurrences_def btc_occ_def)

lemma btc_first: "first_nullifier_occurrence (bitcoin_view sp c) raw_nf = (if btc_occ sp c raw_nf = {} then None else Some (Min (btc_occ sp c raw_nf)))"
proof (cases "btc_nullifier_occurrences sp c raw_nf")
  case Nil
  then show ?thesis using set_btc_occurrences [of sp c raw_nf] by (simp add: bitcoin_view_def)
next
  case (Cons l ls)
  have "sorted (l # ls)" unfolding Cons [symmetric] btc_nullifier_occurrences_def by simp
  then have "Min (set (l # ls)) = l" by (intro Min_eqI) auto
  then show ?thesis using set_btc_occurrences [of sp c raw_nf] Cons by (auto simp: bitcoin_view_def)
qed

definition entries_distinct :: "sponge \<Rightarrow> bitcoin_chain \<Rightarrow> bool" where
  "entries_distinct sp c \<longleftrightarrow> (\<forall>raw_nf. distinct (btc_nullifier_occurrences sp c raw_nf))"

interpretation bitcoin: occurrence_view "bitcoin_view sp" "entries_distinct sp" "btc_occ sp" for sp
proof
  fix c nf
  assume inv: "entries_distinct sp c"
  show "finite (btc_occ sp c nf)" unfolding set_btc_occurrences [symmetric] by simp
  have "sorted (btc_nullifier_occurrences sp c nf)" by (simp add: btc_nullifier_occurrences_def)
  then show "nullifier_occurrences (bitcoin_view sp c) nf = sorted_list_of_set (btc_occ sp c nf)"
    using inv unfolding set_btc_occurrences [symmetric]
    by (simp add: entries_distinct_def bitcoin_view_def sorted_list_of_set.idem_if_sorted_distinct)
qed (rule btc_first)

definition chain_occ :: "sha256_fn \<Rightarrow> sponge \<Rightarrow> node_view \<Rightarrow> nat \<Rightarrow> digest \<Rightarrow> anchor_location set" where
  "chain_occ sha sp v from raw_nf =
     {be_location e | e h. from \<le> h \<and> h \<le> nv_tip v \<and> e \<in> set (block_entries sha h (nv_block v h)) \<and> well_formed sp (be_record e) (be_ctx e) raw_nf}"

lemma exact_occ:
  assumes "index_exact sha v c" "bx_start_height c \<le> nv_tip v \<longrightarrow> bx_scanned c = Some (nv_tip v, nv_hash v (nv_tip v))"
    and "\<And>h hash. bx_scanned c = Some (h, hash) \<Longrightarrow> h \<le> nv_tip v"
  shows "btc_occ sp c raw_nf = chain_occ sha sp v (bx_start_height c) raw_nf"
proof (cases "bx_start_height c \<le> nv_tip v")
  case True
  then have "bx_entries c = range_entries sha v [bx_start_height c..<Suc (nv_tip v)]" using assms(1,2) by (simp add: index_exact_def)
  then have "e \<in> set (bx_entries c) \<longleftrightarrow> (\<exists>h. bx_start_height c \<le> h \<and> h \<le> nv_tip v \<and> e \<in> set (block_entries sha h (nv_block v h)))" for e
    by (auto simp: range_entries_def less_Suc_eq_le simp del: upt_Suc)
  then show ?thesis unfolding btc_occ_def chain_occ_def by blast
next
  case False
  then have "bx_scanned c = None" using assms(1,3) by (cases "bx_scanned c") (auto simp: index_exact_def)
  then show ?thesis using assms(1) False by (auto simp: btc_occ_def chain_occ_def index_exact_def)
qed

text \<open>The node reaches the last scanned height, with hashes that commit to what is below.\<close>

definition lineage_kept :: "node_view \<Rightarrow> node_view \<Rightarrow> bitcoin_chain \<Rightarrow> bool" where
  "lineage_kept old v c =
     (case bx_scanned c of None \<Rightarrow> True | Some (h, _) \<Rightarrow> h \<le> nv_tip v \<and> same_lineage old v (bx_start_height c) h)"

text \<open>
  Claim C29. A refresh tracks the chain of the node, across reorganisations: whatever chain the index was built
  from, when the node serves a chain that reaches the last scanned height, whose block hashes commit to the blocks below them,
  with blocks the scanner can read, the refresh succeeds, the index holds exactly the records and marker flags of the blocks from the start height to
  the tip, and the first occurrence of a raw nullifier is the least location in that range whose record binds it. Broadcast
  anchors leave the mempool view exactly when their transaction has been seen mined.
\<close>

theorem refresh_tracks_best_chain:
  assumes "serves env v" "\<And>h. bx_start_height c \<le> h \<Longrightarrow> h \<le> nv_tip v \<Longrightarrow> block_clean (ne_sha env) h (nv_block v h)"
    and "index_exact (ne_sha env) old c"
    and "lineage_kept old v c"
    and "\<And>t f. fst (ne_write env t f) = Inr ()"
  shows "\<exists>c'. btc_refresh env c = Some (Inr (), c') \<and> index_exact (ne_sha env) v c' \<and> bx_tip c' = nv_tip v \<and>
    (\<forall>raw_nf. first_nullifier_occurrence (bitcoin_view sp c') raw_nf =
      (if chain_occ (ne_sha env) sp v (bx_start_height c) raw_nf = {} then None
       else Some (Min (chain_occ (ne_sha env) sp v (bx_start_height c) raw_nf)))) \<and>
    bx_mempool c' = filter (\<lambda>m. \<not> list_ex (\<lambda>e. be_txid e = be_txid m) (bx_entries c')) (bx_mempool c)"
proof (rule refresh_serves [OF assms(1,2,3) _ assms(5)])
  show "h \<le> nv_tip v \<and> same_lineage old v (bx_start_height c) h" if "bx_scanned c = Some (h, hash)" for h hash
    using assms(4) that by (simp add: lineage_kept_def)
next
  fix c'
  assume r: "btc_refresh env c = Some (Inr (), c')" "index_exact (ne_sha env) v c'" "bx_tip c' = nv_tip v"
    "bx_start_height c' = bx_start_height c" "bx_start_height c \<le> nv_tip v \<longrightarrow> bx_scanned c' = Some (nv_tip v, nv_hash v (nv_tip v))"
    "bx_mempool c' = filter (\<lambda>m. \<not> list_ex (\<lambda>e. be_txid e = be_txid m) (bx_entries c')) (bx_mempool c)"
    and below: "\<And>h hash. bx_scanned c' = Some (h, hash) \<Longrightarrow> h \<le> nv_tip v"
  show ?thesis
  proof (intro exI [of _ c'] conjI allI)
    have "btc_occ sp c' nf = chain_occ (ne_sha env) sp v (bx_start_height c) nf" for nf
      using exact_occ [where sp = sp and raw_nf = nf, OF r(2) _ below] r(4,5) by simp
    then show "first_nullifier_occurrence (bitcoin_view sp c') nf =
      (if chain_occ (ne_sha env) sp v (bx_start_height c) nf = {} then None
       else Some (Min (chain_occ (ne_sha env) sp v (bx_start_height c) nf)))" for nf
      by (simp add: btc_first)
  qed (use r in simp_all)
qed

text \<open>A node that answers from a chain of its own.\<close>

definition honest_post :: "node_view \<Rightarrow> rpc_transport" where
  "honest_post v req =
     (let result = (\<lambda>r. Inr (Some (JObj [(lit ''result'', r), (lit ''error'', JNull)])));
          failed = Inr (Some (JObj [(lit ''result'', JNull), (lit ''error'', JObj [(lit ''code'', JNum (lit ''-8''))])]))
      in case (get_str ''method'' req, json_get ''params'' req) of
           (Some m, Some (JArr ps)) \<Rightarrow>
             (if m = lit ''getblockcount'' then result (JNum (decimal (nv_tip v)))
              else if m = lit ''getblockhash'' then
                (case ps of [JNum n] \<Rightarrow> (case parse_uint U64_MAX n of Some h \<Rightarrow> if h \<le> nv_tip v then result (JStr (hash_to_rpc (nv_hash v h))) else failed | None \<Rightarrow> failed)
                 | _ \<Rightarrow> failed)
              else if m = lit ''getblock'' then
                (case ps of JStr x # _ \<Rightarrow> (case find (\<lambda>h. hash_to_rpc (nv_hash v h) = x) [0..<Suc (nv_tip v)] of Some h \<Rightarrow> result (nv_block v h) | None \<Rightarrow> failed)
                 | _ \<Rightarrow> failed)
              else failed)
         | _ \<Rightarrow> failed)"

definition honest_env :: "sha256_fn \<Rightarrow> node_view \<Rightarrow> node_env" where
  "honest_env sha v = \<lparr>ne_post = honest_post v, ne_sha = sha, ne_write = (\<lambda>t f. (Inr (), Contents t))\<rparr>"

lemma hash_to_rpc_inj: "length a = 32 \<Longrightarrow> length b = 32 \<Longrightarrow> hash_to_rpc a = hash_to_rpc b \<longleftrightarrow> a = b"
  by (metis hash_rpc_roundtrip option.inject sum.inject(2))

lemma honest_serves:
  assumes "nv_tip v \<le> U64_MAX" "\<And>h. h \<le> nv_tip v \<Longrightarrow> length (nv_hash v h) = 32" "inj_on (nv_hash v) {..nv_tip v}"
  shows "serves (honest_env sha v) v"
proof -
  have b: "find (\<lambda>k. hash_to_rpc (nv_hash v k) = hash_to_rpc (nv_hash v h)) [0..<Suc (nv_tip v)] = Some h" if "h \<le> nv_tip v" for h
  proof -
    have "hash_to_rpc (nv_hash v k) = hash_to_rpc (nv_hash v h) \<longleftrightarrow> k = h" if "k \<le> nv_tip v" for k
      using assms(2,3) that \<open>h \<le> nv_tip v\<close> by (auto simp: hash_to_rpc_inj inj_on_def)
    then show ?thesis using that by (auto simp: find_Some_iff less_Suc_eq_le simp del: upt_Suc intro!: exI [of _ h])
  qed
  have m: "get_str ''method'' (rpc_request i m ps) = Some (lit m)" "json_get ''params'' (rpc_request i m ps) = Some ps" for i m ps
    by (simp_all add: rpc_request_def get_str_def)
  show ?thesis using assms(1,2)
    by (auto simp: serves_def honest_env_def rpc_reply_def rpc_reply_str_def honest_post_def m b simp del: upt_Suc)
qed

definition demo_node :: node_view where
  "demo_node = \<lparr>nv_tip = 1, nv_hash = (\<lambda>h. replicate 32 (word_of_nat (h mod 256))), nv_block = (\<lambda>h. JObj [(lit ''tx'', JArr [])])\<rparr>"

definition demo_bitcoin :: bitcoin_chain where
  "demo_bitcoin = \<lparr>bx_next_id = 1, bx_network = Regtest, bx_start_height = 0, bx_tip = 0, bx_scanned = Some (0, replicate 32 9), bx_entries = [],
     bx_mempool = [], bx_markers = [(0, False)], bx_funding_utxos = [], bx_file = Absent\<rparr>"

text \<open>The index of the demonstration was built on a block that the node has since replaced.\<close>

theorem refresh_tracks_best_chain_witness:
  "\<exists>c'. btc_refresh (honest_env demo_sha demo_node) demo_bitcoin = Some (Inr (), c') \<and> index_exact demo_sha demo_node c' \<and> bx_tip c' = 1"
proof -
  have s: "serves (honest_env demo_sha demo_node) demo_node"
  proof (rule honest_serves)
    have "{..nv_tip demo_node} = {0, 1}" by (auto simp: demo_node_def)
    then show "inj_on (nv_hash demo_node) {..nv_tip demo_node}" by (simp add: demo_node_def)
  qed (simp_all add: demo_node_def U64_MAX_def)
  let ?old = "demo_node\<lparr>nv_hash := (\<lambda>h. replicate 32 9)\<rparr>"
  have cl: "block_clean sha h (nv_block demo_node h)" for sha h
    by (simp add: block_clean_def demo_node_def get_array_def block_txs_def)
  have ex: "index_exact (ne_sha (honest_env demo_sha demo_node)) ?old demo_bitcoin"
    by (simp add: index_exact_def demo_bitcoin_def range_entries_def range_markers_def demo_node_def block_entries_def block_txs_def
        block_marked_def get_array_def List.map_filter_def)
  have li: "lineage_kept ?old demo_node demo_bitcoin"
    by (simp add: lineage_kept_def demo_bitcoin_def demo_node_def same_lineage_def)
  have w: "fst (ne_write (honest_env demo_sha demo_node) t f) = Inr ()" for t f by (simp add: honest_env_def)
  have "ne_sha (honest_env demo_sha demo_node) = demo_sha" "nv_tip demo_node = 1" by (simp_all add: honest_env_def demo_node_def)
  then show ?thesis using refresh_tracks_best_chain [OF s cl ex li w] by auto
qed

section \<open>The two scanners\<close>

text \<open>
  What the verbose rendering of a block by the node (\<open>getblock\<close> with verbosity 2) says of its transactions: the identifiers
  in display order, no previous output for a coinbase, the hexadecimal output scripts, and the type \<open>nulldata\<close> for the scripts that carry a payload.
\<close>

definition renders_output :: "json \<Rightarrow> cbf_tx_out \<Rightarrow> bool" where
  "renders_output j out \<longleftrightarrow>
     Option.bind (json_get ''scriptPubKey'' j) (get_str ''hex'') = Some (to_hex (cx_script_pubkey out)) \<and>
     (op_return_payload (cx_script_pubkey out) \<noteq> None \<longrightarrow> Option.bind (json_get ''scriptPubKey'' j) (get_str ''type'') = Some (lit ''nulldata''))"

definition renders_input :: "json \<Rightarrow> cbf_tx_in \<Rightarrow> bool" where
  "renders_input j i \<longleftrightarrow> length (co_txid (ci_prev i)) = 32 \<and> get_str ''txid'' j = Some (hash_to_rpc (co_txid (ci_prev i))) \<and>
     get_u64 ''vout'' j = Some (unat (co_vout (ci_prev i)))"

definition renders_tx :: "sha256_fn \<Rightarrow> json \<Rightarrow> cbf_tx \<Rightarrow> bool" where
  "renders_tx sha j tx \<longleftrightarrow> length (tx_txid sha tx) = 32 \<and> get_str ''txid'' j = Some (hash_to_rpc (tx_txid sha tx)) \<and>
     (\<exists>vin outs. get_array ''vin'' j = Some vin \<and> get_array ''vout'' j = Some outs \<and> list_all2 renders_output outs (ct_outputs tx) \<and>
        (if is_coinbase tx then \<exists>v. vin = [v] \<and> get_str ''txid'' v = None else list_all2 renders_input vin (ct_inputs tx)))"

definition renders_block :: "sha256_fn \<Rightarrow> json \<Rightarrow> cbf_block \<Rightarrow> bool" where
  "renders_block sha j block \<longleftrightarrow> (\<exists>txs. get_array ''tx'' j = Some txs \<and> list_all2 (renders_tx sha) txs (cb_txs block))"

lemma first_payload_renders:
  "list_all2 renders_output outs os \<Longrightarrow> first_payload outs = Some (find_map (\<lambda>out. op_return_payload (cx_script_pubkey out)) os)"
  by (induction rule: list_all2_induct) (auto simp: renders_output_def rpc_payload_agrees split: option.splits)

text \<open>The record a transaction carries, without the payloads of a batch.\<close>

definition tx_record :: "sha256_fn \<Rightarrow> nat \<Rightarrow> nat \<Rightarrow> cbf_tx \<Rightarrow> btc_entry option" where
  "tx_record sha ht pos tx =
     (if is_coinbase tx then None
      else case ct_inputs tx of
        [] \<Rightarrow> None
      | funding # _ \<Rightarrow> map_option (\<lambda>payload. \<lparr>be_txid = tx_txid sha tx, be_location = \<lparr>al_height = word_of_nat ht, al_position = word_of_nat pos\<rparr>,
            be_record = from_bytes payload, be_ctx = cbf_funding_ctx sha (co_txid (ci_prev funding)) (co_vout (ci_prev funding))\<rparr>) (candidate_payload tx))"

lemma scan_tx_renders:
  assumes "renders_tx sha j tx"
  shows "scan_tx sha j ht (word_of_nat pos) = Some (Inr (tx_record sha ht pos tx))"
proof -
  from assms obtain vin outs where j: "get_array ''vin'' j = Some vin" "get_array ''vout'' j = Some outs"
    and outs: "list_all2 renders_output outs (ct_outputs tx)" and id: "length (tx_txid sha tx) = 32" "get_str ''txid'' j = Some (hash_to_rpc (tx_txid sha tx))"
    and vin: "if is_coinbase tx then \<exists>v. vin = [v] \<and> get_str ''txid'' v = None else list_all2 renders_input vin (ct_inputs tx)"
    by (auto simp: renders_tx_def)
  show ?thesis
  proof (cases "is_coinbase tx")
    case True
    then show ?thesis using vin id j by (auto simp: scan_tx_def tx_record_def)
  next
    case False
    show ?thesis
    proof (cases "ct_inputs tx")
      case Nil
      then show ?thesis using vin id j False by (auto simp: scan_tx_def tx_record_def)
    next
      case (Cons i is')
      then obtain v vs where v: "vin = v # vs" "renders_input v i" using vin False by (auto simp: list_all2_Cons2)
      have fp: "first_payload outs = Some (candidate_payload tx)" unfolding candidate_payload_def by (rule first_payload_renders [OF outs])
      have "\<not> U32_MAX < unat (co_vout (ci_prev i))" by (simp add: not_less)
      then show ?thesis using v id j False Cons fp
        by (cases "candidate_payload tx") (simp_all add: scan_tx_def tx_record_def renders_input_def hash_rpc_roundtrip)
    qed
  qed
qed

lemma tx_anchors_record:
  "tx_anchors sha ht pos tx = (case tx_record sha ht pos tx of None \<Rightarrow> []
     | Some r \<Rightarrow>
         (let entry = (\<lambda>batch. \<lparr>sa_location = be_location r, sa_txid = be_txid r, sa_record = be_record r, sa_ctx = be_ctx r, sa_batch = batch\<rparr>)
          in case (be_record r, first_envelope tx) of
               (BatchHeader _ _, Some (version, envelope)) \<Rightarrow> map (\<lambda>i. entry (Some \<lparr>bc_version = version, bc_index = word_of_nat i, bc_envelope = envelope\<rparr>)) [0..<length envelope]
             | _ \<Rightarrow> [entry None]))"
  by (auto simp: tx_anchors_def tx_record_def Let_def split: list.splits option.splits anchor_record.splits)

lemma solo_of_tx:
  "{be_location e | e. tx_record sha ht pos tx = Some e \<and> well_formed sp (be_record e) (be_ctx e) raw_nf} =
   {sa_location e | e. e \<in> set (tx_anchors sha ht pos tx) \<and> sa_batch e = None \<and> binds sp e raw_nf}"
  unfolding tx_anchors_record
  by (cases "tx_record sha ht pos tx")
    (auto simp: binds_def Let_def well_formed_iff_slot split: anchor_record.splits option.splits)

lemma block_scan_renders:
  assumes "list_all2 (renders_tx sha) js txs"
  shows "list_all (tx_clean sha ht) (enumerate n js) \<and>
    List.map_filter (tx_entry sha ht) (enumerate n js) = List.map_filter (\<lambda>(pos, tx). tx_record sha ht pos tx) (enumerate n txs)"
  using assms
proof (induction arbitrary: n rule: list_all2_induct)
  case (Cons j js tx txs)
  have "tx_clean sha ht (n, j)" "tx_entry sha ht (n, j) = tx_record sha ht n tx"
    by (simp_all add: tx_clean_def tx_entry_def scan_tx_renders [OF Cons(1)])
  then show ?case using Cons(3) [of "Suc n"] by (simp add: List.map_filter_simps split: option.split)
qed (simp add: List.map_filter_simps)

lemma map_filter_mem: "e \<in> set (List.map_filter f xs) \<longleftrightarrow> (\<exists>x \<in> set xs. f x = Some e)"
  by (induction xs) (auto simp: List.map_filter_simps split: option.splits)

lemma rendered_block:
  assumes "renders_block sha j block"
  shows "block_clean sha ht j"
    and "{be_location e | e. e \<in> set (block_entries sha ht j) \<and> well_formed sp (be_record e) (be_ctx e) raw_nf} =
      {sa_location e | e. e \<in> set (anchors_in_block sha block ht) \<and> sa_batch e = None \<and> binds sp e raw_nf}"
proof -
  from assms obtain js where js: "get_array ''tx'' j = Some js" "list_all2 (renders_tx sha) js (cb_txs block)" by (auto simp: renders_block_def)
  note b = block_scan_renders [OF js(2), of ht 0]
  show "block_clean sha ht j" using b js(1) by (simp add: block_clean_def block_txs_def)
  have "{be_location e | e. e \<in> set (block_entries sha ht j) \<and> well_formed sp (be_record e) (be_ctx e) raw_nf} =
      (\<Union>(pos, tx) \<in> set (enumerate 0 (cb_txs block)). {be_location e | e. tx_record sha ht pos tx = Some e \<and> well_formed sp (be_record e) (be_ctx e) raw_nf})"
  proof -
    have "e \<in> set (block_entries sha ht j) \<longleftrightarrow> (\<exists>(pos, tx) \<in> set (enumerate 0 (cb_txs block)). tx_record sha ht pos tx = Some e)" for e
      using b js(1) by (simp add: block_entries_def block_txs_def map_filter_mem case_prod_beta)
    then show ?thesis by blast
  qed
  also have "\<dots> = {sa_location e | e. e \<in> set (anchors_in_block sha block ht) \<and> sa_batch e = None \<and> binds sp e raw_nf}"
    unfolding solo_of_tx anchors_in_block_def by auto
  finally show "{be_location e | e. e \<in> set (block_entries sha ht j) \<and> well_formed sp (be_record e) (be_ctx e) raw_nf} =
      {sa_location e | e. e \<in> set (anchors_in_block sha block ht) \<and> sa_batch e = None \<and> binds sp e raw_nf}" .
qed

text \<open>
  Claim C31. The bitcoind scanner and the light client read the same solo anchors out of the same blocks, and the
  bitcoind scanner reads nothing else: over a chain whose blocks the node renders as documented, every block scans without error and the
  occurrences of a nullifier it can report are exactly the locations at which the light client finds a binding record outside
  a batch. A spend that is published in a batch is therefore no occurrence for this backend.
\<close>

theorem bitcoind_sees_only_solo_records:
  assumes "\<And>h. from \<le> h \<Longrightarrow> h \<le> nv_tip v \<Longrightarrow> renders_block sha (nv_block v h) (blocks h)"
  shows "(\<forall>h. from \<le> h \<and> h \<le> nv_tip v \<longrightarrow> block_clean sha h (nv_block v h)) \<and>
    chain_occ sha sp v from raw_nf =
      {sa_location e | e h. from \<le> h \<and> h \<le> nv_tip v \<and> e \<in> set (anchors_in_block sha (blocks h) h) \<and> sa_batch e = None \<and> binds sp e raw_nf}"
proof -
  have "chain_occ sha sp v from raw_nf =
    (\<Union>h \<in> {from..nv_tip v}. {be_location e | e. e \<in> set (block_entries sha h (nv_block v h)) \<and> well_formed sp (be_record e) (be_ctx e) raw_nf})"
    by (rule set_eqI, simp only: chain_occ_def mem_Collect_eq UN_iff atLeastAtMost_iff Bex_def) blast
  also have "\<dots> = (\<Union>h \<in> {from..nv_tip v}. {sa_location e | e. e \<in> set (anchors_in_block sha (blocks h) h) \<and> sa_batch e = None \<and> binds sp e raw_nf})"
    using rendered_block(2) [OF assms] by auto
  also have "\<dots> = {sa_location e | e h. from \<le> h \<and> h \<le> nv_tip v \<and> e \<in> set (anchors_in_block sha (blocks h) h) \<and> sa_batch e = None \<and> binds sp e raw_nf}"
    by (rule set_eqI, simp only: mem_Collect_eq UN_iff atLeastAtMost_iff Bex_def) blast
  finally show ?thesis using rendered_block(1) [OF assms] by blast
qed

definition json_of_output :: "cbf_tx_out \<Rightarrow> json" where
  "json_of_output out =
     JObj [(lit ''scriptPubKey'', JObj [(lit ''hex'', JStr (to_hex (cx_script_pubkey out))),
        (lit ''type'', JStr (lit (if op_return_payload (cx_script_pubkey out) = None then ''nonstandard'' else ''nulldata'')))])]"

definition json_of_tx :: "sha256_fn \<Rightarrow> cbf_tx \<Rightarrow> json" where
  "json_of_tx sha tx =
     JObj [(lit ''txid'', JStr (hash_to_rpc (tx_txid sha tx))),
       (lit ''vin'', JArr (if is_coinbase tx then [JObj []]
          else map (\<lambda>i. JObj [(lit ''txid'', JStr (hash_to_rpc (co_txid (ci_prev i)))), (lit ''vout'', JNum (decimal (unat (co_vout (ci_prev i)))))]) (ct_inputs tx))),
       (lit ''vout'', JArr (map json_of_output (ct_outputs tx)))]"

lemma renders_json_of_tx:
  assumes "length (tx_txid sha tx) = 32" "list_all (\<lambda>i. length (co_txid (ci_prev i)) = 32) (ct_inputs tx)"
  shows "renders_tx sha (json_of_tx sha tx) tx"
proof -
  have "unat w \<le> U64_MAX" for w :: u32 using unat_bounds(3) [of w] by (simp add: U64_MAX_def)
  then show ?thesis using assms
  by (auto simp: renders_tx_def json_of_tx_def get_str_def get_array_def get_u64_def renders_input_def renders_output_def json_of_output_def
      list_all2_map1 list_all2_same list_all_iff)
qed

definition demo_batch_node :: node_view where
  "demo_batch_node = \<lparr>nv_tip = 7, nv_hash = (\<lambda>h. replicate 32 (word_of_nat h)), nv_block = (\<lambda>h. JObj [(lit ''tx'', JArr (map (json_of_tx demo_sha) (cb_txs demo_batch_block)))])\<rparr>"

theorem bitcoind_sees_only_solo_records_witness:
  "demo_batch_entry \<in> set (anchors_in_block demo_sha demo_batch_block 7) \<and> binds zero_sponge demo_batch_entry (replicate 32 0) \<and>
   chain_occ demo_sha zero_sponge demo_batch_node 7 (replicate 32 0) = {}"
proof -
  have "renders_tx demo_sha (json_of_tx demo_sha demo_batch_tx) demo_batch_tx"
    using demo_sha_ok by (intro renders_json_of_tx) (simp_all add: tx_txid_def sha256d_def sha_ok_def demo_batch_tx_def demo_tx_def)
  then have "renders_block demo_sha (nv_block demo_batch_node h) demo_batch_block" for h
    by (simp add: renders_block_def demo_batch_node_def demo_batch_block_def get_array_def)
  from bitcoind_sees_only_solo_records [of 7 demo_batch_node demo_sha "\<lambda>_. demo_batch_block" zero_sponge "replicate 32 0", OF this]
  have "chain_occ demo_sha zero_sponge demo_batch_node 7 (replicate 32 0) =
     {sa_location e | e h. 7 \<le> h \<and> h \<le> nv_tip demo_batch_node \<and> e \<in> set (anchors_in_block demo_sha demo_batch_block h) \<and> sa_batch e = None \<and> binds zero_sponge e (replicate 32 0)}"
    by blast
  also have "\<dots> = {}"
  proof -
    have "h = 7" if "7 \<le> h" "h \<le> nv_tip demo_batch_node" for h using that by (simp add: demo_batch_node_def)
    moreover have "sa_batch e \<noteq> None" if "e \<in> set (anchors_in_block demo_sha demo_batch_block 7)" for e
      using that by (simp add: demo_batch_scanned demo_batch_entry_def)
    ultimately show ?thesis by blast
  qed
  finally show ?thesis using demo_batch_binds by (simp add: demo_batch_scanned)
qed

end
