(* ===== verification/Bitcoin_Anchor_Proofs.thy ===== *)
theory Bitcoin_Anchor_Proofs
  imports Bitcoin_Chain_Proofs "HOL-Library.Multiset"
begin

text \<open>
  Anchoring over the node's wallet: what the two passes guarantee of the transaction that is sent, and the round trip of the index file.
\<close>

section \<open>The two passes\<close>

lemma choose_funding_Inr:
  "choose_funding sha build n cands = Some (Inr (i, ctx, found)) \<Longrightarrow>
     n \<le> i \<and> i < n + length cands \<and> found = build ctx \<and> parses_cleanly found \<and>
     (\<exists>h. hash_from_rpc (fst (cands ! (i - n))) = Some (Inr h) \<and> ctx = cbf_funding_ctx sha h (snd (cands ! (i - n))))"
proof (induction cands arbitrary: n)
  case (Cons p cands)
  obtain txid vout where p: "p = (txid, vout)" by (cases p)
  from Cons.prems obtain h where h: "hash_from_rpc txid = Some (Inr h)" by (auto simp: p split: option.splits sum.splits)
  show ?case
  proof (cases "parses_cleanly (build (cbf_funding_ctx sha h vout))")
    case True
    then show ?thesis using Cons.prems h by (auto simp: p Let_def)
  next
    case False
    then have c: "choose_funding sha build (Suc n) cands = Some (Inr (i, ctx, found))" using Cons.prems h by (simp add: p Let_def)
    from Cons.IH [OF this] obtain k where "i = Suc n + k" by (auto simp: le_iff_add)
    with Cons.IH [OF c] show ?thesis by (auto simp: p)
  qed
qed simp

lemma filter_other_enumerate: "i < n \<or> n + length xs \<le> i \<Longrightarrow> map snd (filter (\<lambda>(j, _). j \<noteq> i) (enumerate n xs)) = xs"
  by (induction xs arbitrary: n) auto

lemma mset_without: "i < length xs \<Longrightarrow> mset (xs ! i # map snd (filter (\<lambda>(j, _). j \<noteq> n + i) (enumerate n xs))) = mset xs"
proof (induction xs arbitrary: n i)
  case (Cons x xs)
  show ?case
  proof (cases i)
    case 0
    then show ?thesis by (simp add: filter_other_enumerate)
  next
    case (Suc k)
    then show ?thesis using Cons.IH [of k "Suc n"] Cons.prems by (simp add: add_mset_commute)
  qed
qed simp

lemma chosen_first_perm: "i < length cands \<Longrightarrow> mset (chosen_first i cands) = mset cands"
  using mset_without [of i cands 0] by (simp add: chosen_first_def)

text \<open>An output of the second pass against the one the wallet funded: the payload is replaced, everything else stays.\<close>

definition output_kept :: "anchor_record \<Rightarrow> json \<Rightarrow> json \<Rightarrow> bool" where
  "output_kept found funded out \<longleftrightarrow>
     (\<exists>script. json_get ''scriptPubKey'' funded = Some script \<and>
        (if get_str ''type'' script = Some (lit ''nulldata'') then out = JObj [(lit ''data'', JStr (to_hex (to_bytes found)))]
         else \<exists>address. get_str ''address'' script = Some address \<and>
           out = JObj [(address, (case json_get ''value'' funded of None \<Rightarrow> JNull | Some v \<Rightarrow> v))]))"

lemma output_json_Inr: "output_json (to_hex (to_bytes found)) funded = Inr out \<longleftrightarrow> output_kept found funded out"
  by (auto simp: output_json_def output_kept_def and_then_Inr)

lemma sign_and_send_Inr:
  assumes "sign_and_send env raw2 c = Some (Inr txid, c')"
  obtains signed signed_hex txid_hex where "rpc_reply (ne_post env) (bx_next_id c) ''signrawtransactionwithwallet'' (JArr [JStr raw2]) = Inr signed"
    "get_bool ''complete'' signed = Some True" "get_str ''hex'' signed = Some signed_hex"
    "rpc_reply_str (ne_post env) (Suc (bx_next_id c)) ''sendrawtransaction'' (JArr [JStr signed_hex]) = Inr txid_hex"
    "hash_from_rpc txid_hex = Some (Inr txid)" "c' = c\<lparr>bx_next_id := bx_next_id c + 2\<rparr>"
  using assms unfolding sign_and_send_def by (auto simp: bind_Inr step_defs split: if_splits)

text \<open>The transaction a wallet funded: the draft with the dummy payload and the marker, as the wallet completed it, and its decoded form.\<close>

definition wallet_funded :: "node_env \<Rightarrow> bitcoin_chain \<Rightarrow> json \<Rightarrow> bool" where
  "wallet_funded env c tx \<longleftrightarrow>
     (\<exists>marker draft funded funded_hex. marker_address (bx_network c) = Some marker \<and>
        rpc_reply_str (ne_post env) (bx_next_id c) ''createrawtransaction''
          (JArr [JArr [], JArr [JObj [(lit ''data'', JStr (to_hex (replicate 64 0)))], JObj [(marker, MARKER_DUST_BTC)]]]) = Inr draft \<and>
        rpc_reply (ne_post env) (bx_next_id c + 1) ''fundrawtransaction''
          (JArr [JStr draft, JObj [(lit ''change_position'', JNum (lit ''2''))]]) = Inr funded \<and>
        get_str ''hex'' funded = Some funded_hex \<and>
        rpc_reply (ne_post env) (bx_next_id c + 2) ''decoderawtransaction'' (JArr [JStr funded_hex]) = Inr tx)"

text \<open>A created transaction that the wallet signed completely and that the node took under the transaction id.\<close>

definition signed_and_sent :: "node_env \<Rightarrow> nat \<Rightarrow> ustring \<Rightarrow> bytes \<Rightarrow> bool" where
  "signed_and_sent env ident raw txid \<longleftrightarrow>
     (\<exists>signed signed_hex txid_hex. rpc_reply (ne_post env) ident ''signrawtransactionwithwallet'' (JArr [JStr raw]) = Inr signed \<and>
        get_bool ''complete'' signed = Some True \<and> get_str ''hex'' signed = Some signed_hex \<and>
        rpc_reply_str (ne_post env) (ident + 1) ''sendrawtransaction'' (JArr [JStr signed_hex]) = Inr txid_hex \<and>
        hash_from_rpc txid_hex = Some (Inr txid))"

text \<open>
  Claim C30. An anchor that was broadcast says what its caller built for it. When anchoring succeeds, the node was asked in
  turn to create a draft with the dummy payload and the marker, to fund that draft with change in the third place, and to decode the funded
  transaction. The transaction the wallet then signed and sent was created from exactly the inputs of the funded transaction, in another order, and from
  its outputs with the dummy payload replaced; its record is what the builder made of the context of the first of those inputs, the
  input every scanner derives the context from, and that record parses cleanly. The returned reference names the transaction that was
  sent, and the chain remembers it in its mempool view. Each of these is the one request of its kind at its place in the
  sequence of request identifiers.
\<close>

theorem anchored_record_is_bound:
  assumes "anchor_tx env build c = Some (Inr ref, c')"
  shows "\<exists>tx vin cands outs inputs outputs raw h ctx.
    wallet_funded env c tx \<and> get_array ''vin'' tx = Some vin \<and> list_all2 (\<lambda>j p. funding_candidate j = Inr p) vin cands \<and>
    get_array ''vout'' tx = Some outs \<and>
    mset inputs = mset cands \<and> inputs \<noteq> [] \<and> hash_from_rpc (fst (hd inputs)) = Some (Inr h) \<and> ctx = cbf_funding_ctx (ne_sha env) h (snd (hd inputs)) \<and>
    parses_cleanly (build ctx) \<and> list_all2 (output_kept (build ctx)) outs outputs \<and>
    rpc_reply_str (ne_post env) (bx_next_id c + 3) ''createrawtransaction'' (JArr [JArr (map input_json inputs), JArr outputs]) = Inr raw \<and>
    signed_and_sent env (bx_next_id c + 4) raw (ar_txid ref) \<and> ar_location ref = mempool_location \<and>
    bx_mempool c' = bx_mempool c @ [\<lparr>be_txid = ar_txid ref, be_location = mempool_location, be_record = build ctx, be_ctx = ctx\<rparr>] \<and>
    bx_entries c' = bx_entries c \<and> bx_next_id c' = bx_next_id c + 6"
proof -
  from assms obtain marker raw1 funded funded_hex tx vin outs cands i ctx found outputs raw2 txid c2 where
    marker: "marker_address (bx_network c) = Some marker"
    and draft: "rpc_reply_str (ne_post env) (bx_next_id c) ''createrawtransaction''
       (JArr [JArr [], JArr [JObj [(lit ''data'', JStr (to_hex (replicate ANCHOR_SIZE 0)))], JObj [(marker, MARKER_DUST_BTC)]]]) = Inr raw1"
    and fund: "rpc_reply (ne_post env) (Suc (bx_next_id c)) ''fundrawtransaction'' (JArr [JStr raw1, JObj [(lit ''change_position'', JNum (lit ''2''))]]) = Inr funded"
    and hex: "get_str ''hex'' funded = Some funded_hex"
    and dec: "rpc_reply (ne_post env) (Suc (Suc (bx_next_id c))) ''decoderawtransaction'' (JArr [JStr funded_hex]) = Inr tx"
    and vin: "get_array ''vin'' tx = Some vin" and outs: "get_array ''vout'' tx = Some outs" and cands: "try_map funding_candidate vin = Inr cands"
    and ch: "choose_funding (ne_sha env) build 0 cands = Some (Inr (i, ctx, found))"
    and out: "try_map (output_json (to_hex (to_bytes found))) outs = Inr outputs"
    and cr: "rpc_reply_str (ne_post env) (Suc (Suc (Suc (bx_next_id c)))) ''createrawtransaction'' (JArr [JArr (map input_json (chosen_first i cands)), JArr outputs]) = Inr raw2"
    and ss: "sign_and_send env raw2 (c\<lparr>bx_next_id := Suc (Suc (Suc (Suc (bx_next_id c))))\<rparr>) = Some (Inr txid, c2)"
    and ref: "ref = \<lparr>ar_txid = txid, ar_location = mempool_location\<rparr>"
    and c': "c' = c2\<lparr>bx_mempool := bx_mempool c2 @ [\<lparr>be_txid = txid, be_location = mempool_location, be_record = found, be_ctx = ctx\<rparr>]\<rparr>"
    unfolding anchor_tx_def
    by (auto simp: bind_Inr step_defs note_mempool_def split: if_splits option.splits)
  note f = choose_funding_Inr [OF ch]
  have sent: "signed_and_sent env (bx_next_id c + 4) raw2 (ar_txid ref)"
    and c2: "bx_mempool c2 = bx_mempool c" "bx_entries c2 = bx_entries c" "bx_next_id c2 = bx_next_id c + 6"
    by (rule sign_and_send_Inr [OF ss]; auto simp: signed_and_sent_def ref numeral_eq_Suc)+
  have "wallet_funded env c tx" using marker draft fund hex dec
    by (auto simp: wallet_funded_def ANCHOR_SIZE_def intro!: exI [of _ marker])
  moreover from f obtain h where "hash_from_rpc (fst (hd (chosen_first i cands))) = Some (Inr h)"
      "ctx = cbf_funding_ctx (ne_sha env) h (snd (hd (chosen_first i cands)))"
    by (auto simp: chosen_first_def)
  moreover have found: "found = build ctx" "parses_cleanly (build ctx)" using f by auto
  moreover have "list_all2 (output_kept (build ctx)) outs outputs"
    using out unfolding found(1) try_map_Inr by (simp add: output_json_Inr)
  moreover have "mset (chosen_first i cands) = mset cands" "chosen_first i cands \<noteq> []"
    using f chosen_first_perm [of i cands] by (auto simp: chosen_first_def)
  moreover have "list_all2 (\<lambda>j p. funding_candidate j = Inr p) vin cands" using cands by (simp add: try_map_Inr)
  moreover have "rpc_reply_str (ne_post env) (bx_next_id c + 3) ''createrawtransaction'' (JArr [JArr (map input_json (chosen_first i cands)), JArr outputs]) = Inr raw2"
    using cr by (simp add: numeral_3_eq_3)
  moreover have "ar_location ref = mempool_location" "bx_entries c' = bx_entries c" "bx_next_id c' = bx_next_id c + 6"
      "bx_mempool c' = bx_mempool c @ [\<lparr>be_txid = ar_txid ref, be_location = mempool_location, be_record = build ctx, be_ctx = ctx\<rparr>]"
    using c2 by (simp_all add: ref c' found)
  ultimately show ?thesis using vin outs sent by blast
qed

text \<open>A wallet with two inputs to offer.\<close>

definition wallet_post :: "rpc_transport" where
  "wallet_post req =
     (let result = (\<lambda>r. Inr (Some (JObj [(lit ''result'', r), (lit ''error'', JNull)])));
          coin = (\<lambda>x n. JObj [(lit ''txid'', JStr (hash_to_rpc (replicate 32 x))), (lit ''vout'', JNum (decimal n))])
      in case get_str ''method'' req of
           None \<Rightarrow> Inl BtcHttp
         | Some m \<Rightarrow>
             (if m = lit ''createrawtransaction'' then result (JStr (lit ''02''))
              else if m = lit ''fundrawtransaction'' then result (JObj [(lit ''hex'', JStr (lit ''0200''))])
              else if m = lit ''decoderawtransaction'' then
                result (JObj [(lit ''vin'', JArr [coin 7 1, coin 8 0]), (lit ''vout'', JArr [JObj [(lit ''scriptPubKey'', JObj [(lit ''type'', JStr (lit ''nulldata''))])]])])
              else if m = lit ''signrawtransactionwithwallet'' then result (JObj [(lit ''complete'', JBool True), (lit ''hex'', JStr (lit ''0201''))])
              else if m = lit ''sendrawtransaction'' then result (JStr (hash_to_rpc (replicate 32 9)))
              else Inl BtcHttp))"

definition wallet_env :: node_env where
  "wallet_env = \<lparr>ne_post = wallet_post, ne_sha = demo_sha, ne_write = (\<lambda>t f. (Inr (), Contents t))\<rparr>"

definition demo_builder :: "ctx \<Rightarrow> anchor_record" where
  "demo_builder ctx = Mint (replicate 24 0) 5 (replicate 24 1)"

lemma wallet_replies:
  "rpc_reply wallet_post i ''createrawtransaction'' ps = Inr (JStr (lit ''02''))"
  "rpc_reply wallet_post i ''fundrawtransaction'' ps = Inr (JObj [(lit ''hex'', JStr (lit ''0200''))])"
  "rpc_reply wallet_post i ''decoderawtransaction'' ps =
     Inr (JObj [(lit ''vin'', JArr [JObj [(lit ''txid'', JStr (hash_to_rpc (replicate 32 7))), (lit ''vout'', JNum (decimal 1))],
        JObj [(lit ''txid'', JStr (hash_to_rpc (replicate 32 8))), (lit ''vout'', JNum (decimal 0))]]),
        (lit ''vout'', JArr [JObj [(lit ''scriptPubKey'', JObj [(lit ''type'', JStr (lit ''nulldata''))])]])])"
  "rpc_reply wallet_post i ''signrawtransactionwithwallet'' ps = Inr (JObj [(lit ''complete'', JBool True), (lit ''hex'', JStr (lit ''0201''))])"
  "rpc_reply wallet_post i ''sendrawtransaction'' ps = Inr (JStr (hash_to_rpc (replicate 32 9)))"
  by (simp_all add: rpc_reply_def wallet_post_def rpc_request_def get_str_def)

lemma demo_builder_clean [simp]: "parses_cleanly (demo_builder ctx)"
  by (simp add: demo_builder_def parses_cleanly_simps)

lemma wallet_anchors: "\<exists>c'. anchor_tx wallet_env demo_builder demo_bitcoin = Some (Inr \<lparr>ar_txid = replicate 32 9, ar_location = mempool_location\<rparr>, c')"
proof -
  obtain addr where a: "marker_address Regtest = Some addr" by (auto simp: marker_address_def network_hrp_def encode_v0_def MARKER_SPK_def Let_def)
  have h: "hash_from_rpc (hash_to_rpc (replicate 32 x)) = Some (Inr (replicate 32 x))" for x by (rule hash_rpc_roundtrip) simp
  have c: "funding_candidate (JObj [(lit ''txid'', JStr t), (lit ''vout'', JNum (decimal n))]) = Inr (t, word_of_nat n)" if "n \<le> 1" for t n
    using that by (simp add: funding_candidate_def get_str_def get_u64_def U32_MAX_def U64_MAX_def)
  show ?thesis
    unfolding anchor_tx_def sign_and_send_def
    by (simp add: if_distribR wallet_env_def bind_btc_def step_defs wallet_replies rpc_reply_str_def demo_bitcoin_def a get_str_def get_bool_def get_array_def c h
        output_json_def note_mempool_def Let_def)
qed

theorem anchored_record_is_bound_witness:
  "\<exists>c'. anchor_tx wallet_env demo_builder demo_bitcoin = Some (Inr \<lparr>ar_txid = replicate 32 9, ar_location = mempool_location\<rparr>, c') \<and>
     map be_record (bx_mempool c') = [Mint (replicate 24 0) 5 (replicate 24 1)]"
proof -
  obtain c' where c: "anchor_tx wallet_env demo_builder demo_bitcoin = Some (Inr \<lparr>ar_txid = replicate 32 9, ar_location = mempool_location\<rparr>, c')"
    using wallet_anchors by blast
  have "map be_record (bx_mempool c') = [Mint (replicate 24 0) 5 (replicate 24 1)]"
    using anchored_record_is_bound [OF c]
    by (elim exE conjE) (simp (no_asm_simp) add: demo_bitcoin_def demo_builder_def)
  with c show ?thesis by (intro exI [of _ c'] conjI)
qed

end
