(* ===== verification/Gossip_Frame.thy ===== *)
theory Gossip_Frame
  imports Batch_V2 Cbf_Batch Index_Text
begin

text \<open>
  The authenticated frames of the batching relay, \<open>crates/opencsv-cli/src/batch_gossip.rs\<close>: message kinds, the signed
  frame with its codec and its two signatures, the relay and session policies, the phases of a session and the durable
  reservation of an input, each with its encoding. A compressed public key is its 33 bytes, a secret key its 32 bytes,
  and an ECDSA signature its compact form; DER encoding and the curve are parameters. An error is the message of the
  source without its formatted details.
\<close>

section \<open>Errors and constants\<close>

text \<open>
  \<open>protocol_error\<close>, \<open>batch_error\<close> and the errors of the light client are all \<open>Error::Transport\<close>; \<open>CliIo\<close> and
  \<open>CliDecode\<close> are the two kinds that stop a relay.
\<close>

datatype cli_error = CliIo | CliDecode | CliTransport string | CliBatch rejection_reason | CliLight cbf_error

definition batch_error :: "rejection_reason + 'a \<Rightarrow> cli_error + 'a" where
  "batch_error r = map_err CliBatch r"

definition FRAME_MAGIC :: bytes where "FRAME_MAGIC = [0x4F, 0x43, 0x53, 0x56, 0x47, 0x32, 0, 0]"
definition POLICY_MAGIC :: bytes where "POLICY_MAGIC = [0x4F, 0x43, 0x53, 0x56, 0x50, 0x32, 0, 0]"
definition RELAY_POLICY_MAGIC :: bytes where "RELAY_POLICY_MAGIC = [0x4F, 0x43, 0x53, 0x56, 0x52, 0x50, 0x33, 0]"
definition RESERVATION_MAGIC :: bytes where "RESERVATION_MAGIC = [0x4F, 0x43, 0x53, 0x56, 0x52, 0x53, 0x56, 0x32]"
definition FRAME_VERSION :: u16 where "FRAME_VERSION = 3"
definition MAX_PAYLOAD_BYTES :: nat where "MAX_PAYLOAD_BYTES = 4 * 1024 * 1024"
definition MAX_FRAME_BYTES :: nat where "MAX_FRAME_BYTES = MAX_PAYLOAD_BYTES + 256"

text \<open>
  The libraries: the environment of the batch protocol, the sponge of the anchor records, the strict DER codec of
  signatures and the validity of a secret key.
\<close>

record frame_env =
  fe_btc :: btc_env
  fe_sponge :: sponge
  ser_der :: "bytes \<Rightarrow> bytes"
  from_der :: "bytes \<Rightarrow> bytes option"
  secret_key_ok :: "bytes \<Rightarrow> bool"

section \<open>Relay policy\<close>

record relay_policy =
  max_commitments :: u32
  max_replacement_epochs :: u32
  max_session_bytes :: u64
  max_event_bytes :: u64

definition default_relay_policy :: relay_policy where
  "default_relay_policy = \<lparr>max_commitments = 64, max_replacement_epochs = 16, max_session_bytes = 32 * 1024 * 1024, max_event_bytes = 1024 * 1024\<rparr>"

definition relay_policy_validate :: "relay_policy \<Rightarrow> cli_error + relay_policy" where
  "relay_policy_validate p =
     (if \<not> (1 \<le> max_commitments p \<and> max_commitments p \<le> 64) \<or> max_replacement_epochs p = 0 \<or>
         max_session_bytes p < 4096 \<or> max_event_bytes p < 4096
      then Inl (CliTransport ''invalid local relay policy'') else Inr p)"

section \<open>Message kinds\<close>

datatype message_kind = KProposal | KCommitment | KManifest | KSignature

fun kind_to_byte :: "message_kind \<Rightarrow> u8" where
  "kind_to_byte KProposal = 1"
| "kind_to_byte KCommitment = 2"
| "kind_to_byte KManifest = 3"
| "kind_to_byte KSignature = 4"

definition kind_from_byte :: "u8 \<Rightarrow> cli_error + message_kind" where
  "kind_from_byte b =
     (if b = 1 then Inr KProposal else if b = 2 then Inr KCommitment else if b = 3 then Inr KManifest
      else if b = 4 then Inr KSignature else Inl (CliTransport ''unknown gossip kind''))"

fun kind_name :: "message_kind \<Rightarrow> ustring" where
  "kind_name KProposal = lit ''proposal''"
| "kind_name KCommitment = lit ''commitment''"
| "kind_name KManifest = lit ''manifest''"
| "kind_name KSignature = lit ''signature''"

section \<open>Frames\<close>

record signed_frame =
  fr_kind :: message_kind
  fr_sender :: bytes
  fr_payload :: bytes
  fr_origin :: "bytes option"
  fr_signature :: bytes

definition origin_part :: "frame_env \<Rightarrow> bytes option \<Rightarrow> bytes" where
  "origin_part env origin =
     (case origin of
        None \<Rightarrow> to_le_bytes (0 :: u16)
      | Some s \<Rightarrow> to_le_bytes (word_of_nat (length (ser_der env s)) :: u16) @ ser_der env s)"

definition frame_digest :: "frame_env \<Rightarrow> message_kind \<Rightarrow> bytes \<Rightarrow> bytes \<Rightarrow> bytes option \<Rightarrow> bytes" where
  "frame_digest env kind sender payload origin =
     sha256 (fe_btc env)
       (str_bytes ''OpenCSV/batch-v2/gossip-v3'' @ [0] @ FRAME_MAGIC @ to_le_bytes FRAME_VERSION @ [kind_to_byte kind] @ sender @
        to_le_bytes (word_of_nat (length payload) :: u32) @ payload @ origin_part env origin)"

definition origin_digest :: "frame_env \<Rightarrow> message_kind \<Rightarrow> bytes \<Rightarrow> bytes \<Rightarrow> bytes" where
  "origin_digest env kind sender payload =
     sha256 (fe_btc env)
       (str_bytes ''OpenCSV/batch-v2/origin-authorization-v1'' @ [0] @ [kind_to_byte kind] @ sender @ sha256 (fe_btc env) payload)"

definition semantic_frame_id :: "frame_env \<Rightarrow> signed_frame \<Rightarrow> bytes" where
  "semantic_frame_id env f =
     sha256 (fe_btc env)
       (str_bytes ''OpenCSV/batch-v2/gossip-body'' @ [0] @ [kind_to_byte (fr_kind f)] @
        to_le_bytes (word_of_nat (length (fr_payload f)) :: u32) @ fr_payload f)"

definition parse_low_s_signature :: "frame_env \<Rightarrow> bytes \<Rightarrow> cli_error + bytes" where
  "parse_low_s_signature env bs =
     and_then (ok_or (CliTransport ''signature'') (from_der env bs)) (\<lambda>s.
       if normalize_s (fe_btc env) s \<noteq> s then Inl (CliTransport ''signature is not low-S'') else Inr s)"

definition frame_to_wire :: "frame_env \<Rightarrow> signed_frame \<Rightarrow> bytes" where
  "frame_to_wire env f =
     (let sig = ser_der env (fr_signature f) in
      FRAME_MAGIC @ to_le_bytes FRAME_VERSION @ [kind_to_byte (fr_kind f)] @ fr_sender f @
      to_le_bytes (word_of_nat (length (fr_payload f)) :: u32) @ fr_payload f @ origin_part env (fr_origin f) @
      to_le_bytes (word_of_nat (length sig) :: u16) @ sig)"

definition frame_id :: "frame_env \<Rightarrow> signed_frame \<Rightarrow> bytes" where
  "frame_id env f = sha256 (fe_btc env) (frame_to_wire env f)"

text \<open>
  The offsets stay below five megabytes, so that the checked additions of the source never fail.
\<close>

definition frame_from_wire :: "frame_env \<Rightarrow> bytes \<Rightarrow> cli_error + signed_frame" where
  "frame_from_wire env wire =
     (if length wire > MAX_FRAME_BYTES \<or> length wire < 60 then Inl (CliTransport ''gossip frame length is outside policy'')
      else if take 8 wire \<noteq> FRAME_MAGIC then Inl (CliTransport ''gossip frame magic mismatch'')
      else if from_le_bytes (slice 8 10 wire) \<noteq> FRAME_VERSION then Inl (CliTransport ''unsupported gossip frame version'')
      else
        and_then (kind_from_byte (wire ! 10)) (\<lambda>kind.
        and_then (ok_or (CliTransport ''relay public key'') (pubkey_from_slice (fe_btc env) (slice 11 44 wire))) (\<lambda>sender.
        let payload_len = unat (from_le_bytes (slice 44 48 wire) :: u32) in
        if payload_len > MAX_PAYLOAD_BYTES then Inl (CliTransport ''gossip payload exceeds 4 MiB'')
        else
          let payload_end = 48 + payload_len; origin_len_end = payload_end + 2 in
          if origin_len_end > length wire then Inl (CliTransport ''truncated gossip payload'')
          else
            let origin_len = unat (from_le_bytes (slice payload_end origin_len_end wire) :: u16) in
            if origin_len \<noteq> 0 \<and> \<not> (8 \<le> origin_len \<and> origin_len \<le> 72) then Inl (CliTransport ''invalid origin signature length'')
            else
              let origin_end = origin_len_end + origin_len; signature_len_end = origin_end + 2 in
              if signature_len_end > length wire then Inl (CliTransport ''truncated origin authorization'')
              else
                and_then (if origin_len = 0 then Inr None
                          else map_sum id Some (parse_low_s_signature env (slice origin_len_end origin_end wire))) (\<lambda>origin.
                let signature_len = unat (from_le_bytes (slice origin_end signature_len_end wire) :: u16) in
                if \<not> (8 \<le> signature_len \<and> signature_len \<le> 72) \<or> signature_len_end + signature_len \<noteq> length wire then
                  Inl (CliTransport ''invalid gossip signature length/trailing bytes'')
                else
                  and_then (parse_low_s_signature env (drop signature_len_end wire)) (\<lambda>sig.
                  let payload = slice 48 payload_end wire in
                  if \<not> verify_ecdsa (fe_btc env) (frame_digest env kind sender payload origin) sig sender then
                    Inl (CliTransport ''relay authentication'')
                  else
                    let f = \<lparr>fr_kind = kind, fr_sender = sender, fr_payload = payload, fr_origin = origin, fr_signature = sig\<rparr> in
                    if frame_to_wire env f \<noteq> wire then Inl (CliTransport ''non-canonical gossip frame'') else Inr f)))))"

definition sign_parts :: "frame_env \<Rightarrow> message_kind \<Rightarrow> bytes \<Rightarrow> bytes \<Rightarrow> bytes option \<Rightarrow> cli_error + signed_frame" where
  "sign_parts env kind payload identity origin_key =
     (if length payload > MAX_PAYLOAD_BYTES then Inl (CliTransport ''gossip payload exceeds 4 MiB'')
      else
        let sender = pubkey_of (fe_btc env) identity;
            origin = map_option (\<lambda>key. sign_ecdsa (fe_btc env) key (origin_digest env kind sender payload)) origin_key;
            sig = sign_ecdsa (fe_btc env) identity (frame_digest env kind sender payload origin)
        in Inr \<lparr>fr_kind = kind, fr_sender = sender, fr_payload = payload, fr_origin = origin, fr_signature = sig\<rparr>)"

definition require_origin_key :: "frame_env \<Rightarrow> bytes \<Rightarrow> bytes \<Rightarrow> cli_error + unit" where
  "require_origin_key env secret_key expected =
     (if pubkey_of (fe_btc env) secret_key \<noteq> expected then Inl (CliTransport ''origin key does not match the C1 body'') else Inr ())"

definition require_live_proposal :: "proposal \<Rightarrow> cli_error + unit" where
  "require_live_proposal p =
     (if pr_version p \<noteq> VERSION then Inl (CliTransport ''historical C1 version-2 proposal is read-only'') else Inr ())"

definition frame_sign :: "frame_env \<Rightarrow> message_kind \<Rightarrow> bytes \<Rightarrow> bytes \<Rightarrow> cli_error + signed_frame" where
  "frame_sign env kind payload identity =
     (if kind = KProposal \<or> kind = KCommitment then Inl (CliTransport ''frames require Bitcoin-key origin authorization'')
      else sign_parts env kind payload identity None)"

definition sign_proposal :: "frame_env \<Rightarrow> bytes \<Rightarrow> bytes \<Rightarrow> bytes \<Rightarrow> cli_error + signed_frame" where
  "sign_proposal env payload identity stock_key =
     and_then (batch_error (proposal_from_wire (fe_btc env) payload)) (\<lambda>p.
     and_then (require_live_proposal p) (\<lambda>_.
     and_then (require_origin_key env stock_key (stock_owner_pubkey p)) (\<lambda>_.
     sign_parts env KProposal payload identity (Some stock_key))))"

definition sign_commitment :: "frame_env \<Rightarrow> proposal \<Rightarrow> bytes \<Rightarrow> bytes \<Rightarrow> bytes \<Rightarrow> cli_error + signed_frame" where
  "sign_commitment env p payload identity fee_key =
     and_then (batch_error (commitment_from_wire (fe_btc env) p payload)) (\<lambda>c.
     and_then (require_origin_key env fee_key (fee_pubkey c)) (\<lambda>_.
     sign_parts env KCommitment payload identity (Some fee_key)))"

definition verify_origin_signature :: "frame_env \<Rightarrow> signed_frame \<Rightarrow> bytes \<Rightarrow> cli_error + unit" where
  "verify_origin_signature env f expected_key =
     and_then (ok_or (CliTransport ''frame lacks Bitcoin-key origin authorization'') (fr_origin f)) (\<lambda>s.
       if verify_ecdsa (fe_btc env) (origin_digest env (fr_kind f) (fr_sender f) (fr_payload f)) s expected_key then Inr ()
       else Inl (CliTransport ''origin authorization''))"

section \<open>Phases\<close>

datatype protocol_phase =
    Ready | Proposed | Committed | ManifestReady | SignedPersisted | Broadcast | Mempool | PhaseConfirmed
  | PayloadDelivered | AbortedBeforeSignature | PhaseInvalidated | ExpiredUnsigned

fun phase_name :: "protocol_phase \<Rightarrow> ustring" where
  "phase_name Ready = lit ''ready''"
| "phase_name Proposed = lit ''proposed''"
| "phase_name Committed = lit ''committed''"
| "phase_name ManifestReady = lit ''manifest_ready''"
| "phase_name SignedPersisted = lit ''signed_persisted''"
| "phase_name Broadcast = lit ''broadcast''"
| "phase_name Mempool = lit ''mempool''"
| "phase_name PhaseConfirmed = lit ''confirmed''"
| "phase_name PayloadDelivered = lit ''payload_delivered''"
| "phase_name AbortedBeforeSignature = lit ''aborted_before_signature''"
| "phase_name PhaseInvalidated = lit ''invalidated_on_chain''"
| "phase_name ExpiredUnsigned = lit ''expired_unsigned''"

definition phase_parse :: "ustring \<Rightarrow> cli_error + protocol_phase" where
  "phase_parse s =
     (if s = lit ''ready'' then Inr Ready else if s = lit ''proposed'' then Inr Proposed
      else if s = lit ''committed'' then Inr Committed else if s = lit ''manifest_ready'' then Inr ManifestReady
      else if s = lit ''signed_persisted'' then Inr SignedPersisted else if s = lit ''broadcast'' then Inr Broadcast
      else if s = lit ''mempool'' then Inr Mempool else if s = lit ''confirmed'' then Inr PhaseConfirmed
      else if s = lit ''payload_delivered'' then Inr PayloadDelivered
      else if s = lit ''aborted_before_signature'' then Inr AbortedBeforeSignature
      else if s = lit ''invalidated_on_chain'' then Inr PhaseInvalidated
      else if s = lit ''expired_unsigned'' then Inr ExpiredUnsigned else Inl (CliTransport ''unknown batch phase''))"

definition rejects_new_protocol_messages :: "protocol_phase \<Rightarrow> bool" where
  "rejects_new_protocol_messages p \<longleftrightarrow>
     p \<in> {PhaseConfirmed, PayloadDelivered, AbortedBeforeSignature, PhaseInvalidated, ExpiredUnsigned}"

section \<open>Policies and reservations on disk\<close>

record session_policy =
  sp_chain_id :: bytes
  current_height :: u32

definition encode_policy :: "session_policy \<Rightarrow> bytes" where
  "encode_policy p = POLICY_MAGIC @ sp_chain_id p @ to_le_bytes (current_height p)"

definition decode_policy :: "bytes \<Rightarrow> cli_error + session_policy" where
  "decode_policy bs =
     (if length bs \<noteq> 44 \<or> take 8 bs \<noteq> POLICY_MAGIC then Inl (CliTransport ''invalid session policy'')
      else Inr \<lparr>sp_chain_id = slice 8 40 bs, current_height = from_le_bytes (slice 40 44 bs)\<rparr>)"

definition encode_relay_policy :: "relay_policy \<Rightarrow> bytes" where
  "encode_relay_policy p =
     RELAY_POLICY_MAGIC @ to_le_bytes (max_commitments p) @ to_le_bytes (max_replacement_epochs p) @
     to_le_bytes (max_session_bytes p) @ to_le_bytes (max_event_bytes p)"

definition decode_relay_policy :: "bytes \<Rightarrow> cli_error + relay_policy" where
  "decode_relay_policy bs =
     (if length bs \<noteq> 32 \<or> take 8 bs \<noteq> RELAY_POLICY_MAGIC then Inl (CliTransport ''invalid local relay policy encoding'')
      else relay_policy_validate
        \<lparr>max_commitments = from_le_bytes (slice 8 12 bs), max_replacement_epochs = from_le_bytes (slice 12 16 bs),
         max_session_bytes = from_le_bytes (slice 16 24 bs), max_event_bytes = from_le_bytes (slice 24 32 bs)\<rparr>)"

record local_reservation =
  lr_operation_id :: bytes
  lr_outpoint :: outpoint
  lr_phase :: reservation_phase

definition encode_reservation :: "frame_env \<Rightarrow> local_reservation \<Rightarrow> bytes" where
  "encode_reservation env r =
     RESERVATION_MAGIC @ lr_operation_id r @ ser_outpoint (fe_btc env) (lr_outpoint r) @ [phase_to_byte (lr_phase r)]"

definition decode_reservation :: "frame_env \<Rightarrow> bytes \<Rightarrow> cli_error + local_reservation" where
  "decode_reservation env bs =
     (if length bs \<noteq> 77 \<or> take 8 bs \<noteq> RESERVATION_MAGIC then Inl (CliTransport ''invalid local reservation encoding'')
      else
        and_then (ok_or (CliTransport ''local reservation outpoint'') (de_outpoint (fe_btc env) (slice 40 76 bs))) (\<lambda>op.
        and_then (batch_error (phase_from_byte (bs ! 76))) (\<lambda>phase.
        let r = \<lparr>lr_operation_id = slice 8 40 bs, lr_outpoint = op, lr_phase = phase\<rparr> in
        if encode_reservation env r \<noteq> bs then Inl (CliTransport ''non-canonical local reservation encoding'') else Inr r)))"

end
