(* ===== verification/Gossip_Session.thy ===== *)
theory Gossip_Session
  imports Gossip_Frame
begin

text \<open>
  The durable relay session, \<open>Session\<close> of \<open>crates/opencsv-cli/src/batch_gossip.rs\<close>: the session directory, ingestion of
  frames, publication, signing, finalization, phases, reservations, reconstruction of the index from disk and the relay
  loop. A directory is its list of file names and contents, sorted by name; a write takes the next outcome of a list, so
  that a failure or a crash can strike at any write. Reads of present files succeed.
\<close>

section \<open>The session directory\<close>

type_synonym directory = "(ustring \<times> bytes) list"

record session_dir =
  sd_private :: bool
  sd_identity_private :: bool
  sd_policy :: "bytes option"
  sd_relay_policy :: "bytes option"
  sd_identity :: "bytes option"
  sd_proposal :: "bytes option"
  sd_phase :: "bytes option"
  sd_events :: "bytes option"
  sd_events_1 :: "bytes option"
  sd_frames :: directory
  sd_commitments :: directory
  sd_manifests :: directory
  sd_signatures :: directory
  sd_signed :: directory
  sd_reservations :: directory
  sd_faults :: "disk_write list"

record session =
  se_dir :: session_dir
  se_policy :: session_policy
  se_relay_policy :: relay_policy
  se_identity :: bytes
  se_commitments :: "participant_commitment list"
  se_senders :: "bytes set"
  se_stored :: u64

type_synonym 'a sess = "(session, cli_error, 'a) stateful"
type_synonym 'a on_disk = "(session_dir, cli_error, 'a) stateful"

definition atomic_put :: "(session_dir \<Rightarrow> session_dir) \<Rightarrow> unit on_disk" where
  "atomic_put upd d =
     (case sd_faults d of
        [] \<Rightarrow> (Inr (), upd d)
      | w # ws \<Rightarrow>
          (let d' = d\<lparr>sd_faults := ws\<rparr> in
           case w of DiskOk \<Rightarrow> (Inr (), upd d') | DiskFailed \<Rightarrow> (Inl CliIo, d') | DiskUnsynced \<Rightarrow> (Inl CliIo, upd d')))"

definition disk :: "'a on_disk \<Rightarrow> 'a sess" where
  "disk m s = (case m (se_dir s) of (r, d) \<Rightarrow> (r, s\<lparr>se_dir := d\<rparr>))"

definition read_limited :: "nat \<Rightarrow> bytes option \<Rightarrow> cli_error + bytes" where
  "read_limited limit content =
     and_then (ok_or CliIo content) (\<lambda>bs. if length bs > limit then Inl (CliTransport ''exceeds size policy'') else Inr bs)"

text \<open>\<open>Path::extension\<close> for an extension without dots.\<close>

definition has_extension :: "string \<Rightarrow> ustring \<Rightarrow> bool" where
  "has_extension ext name \<longleftrightarrow>
     length name > length ext + 1 \<and> drop (length name - (length ext + 1)) name = lit (CHR ''.'' # ext)"

definition read_paths_with_extension :: "string \<Rightarrow> directory \<Rightarrow> directory" where
  "read_paths_with_extension ext dir = filter (\<lambda>(name, _). has_extension ext name) dir"

definition semantic_write :: "(session_dir \<Rightarrow> bytes option) \<Rightarrow> (session_dir \<Rightarrow> session_dir) \<Rightarrow> bytes \<Rightarrow> unit sess" where
  "semantic_write look upd bs s =
     (case look (se_dir s) of
        Some existing \<Rightarrow>
          (and_then (read_limited MAX_PAYLOAD_BYTES (Some existing)) (\<lambda>existing.
             if existing = bs then Inr () else Inl (CliTransport ''semantic equivocation'')), s)
      | None \<Rightarrow> disk (atomic_put upd) s)"

section \<open>Names\<close>

definition zero_pad :: "nat \<Rightarrow> ustring \<Rightarrow> ustring" where
  "zero_pad n s = replicate (n - length s) 48 @ s"

definition frame_name :: "frame_env \<Rightarrow> signed_frame \<Rightarrow> ustring" where
  "frame_name env f = to_hex (semantic_frame_id env f) @ lit ''.frame''"

definition commitment_name :: "frame_env \<Rightarrow> participant_commitment \<Rightarrow> ustring" where
  "commitment_name env c = to_hex (commitment_id (fe_btc env) c) @ lit ''.bin''"

definition manifest_name :: "frame_env \<Rightarrow> manifest \<Rightarrow> ustring" where
  "manifest_name env m =
     zero_pad 10 (decimal (unat (replacement_epoch m))) @ lit ''-'' @ to_hex (manifest_id (fe_btc env) m) @ lit ''.bin''"

definition share_name :: "signature_share \<Rightarrow> ustring" where
  "share_name sh = to_hex (ss_manifest_id sh) @ lit ''-'' @ zero_pad 5 (decimal (unat (input_index sh))) @ lit ''.bin''"

definition signed_path :: "bytes \<Rightarrow> ustring" where
  "signed_path mid = to_hex mid @ lit ''.tx''"

definition reservation_path :: "bytes \<Rightarrow> ustring" where
  "reservation_path oid = to_hex oid @ lit ''.bin''"

section \<open>Events and phases\<close>

definition append_event :: "ustring \<Rightarrow> unit sess" where
  "append_event event =
     (\<lambda>s. if length (as_bytes event) > 1024 \<or> 10 \<in> set event \<or> 13 \<in> set event then
        (Inl (CliTransport ''event receipt exceeds one-line bound''), s)
      else
        bind_st
          (\<lambda>s. case sd_events (se_dir s) of
             Some log \<Rightarrow>
               if length log \<ge> unat (max_event_bytes (se_relay_policy s)) then
                 disk (atomic_put (\<lambda>d. d\<lparr>sd_events := None, sd_events_1 := Some log\<rparr>)) s
               else (Inr (), s)
           | None \<Rightarrow> (Inr (), s))
          (\<lambda>_. disk (atomic_put (\<lambda>d. d\<lparr>sd_events :=
             Some ((case sd_events d of None \<Rightarrow> [] | Some log \<Rightarrow> log) @ as_bytes event @ [10])\<rparr>))) s)"

definition persist_phase :: "protocol_phase \<Rightarrow> ustring \<Rightarrow> unit sess" where
  "persist_phase phase evidence =
     (let body = as_bytes (phase_name phase @ [10] @ evidence @ [10]) in
      bind_st (disk (atomic_put (\<lambda>d. d\<lparr>sd_phase := Some body\<rparr>))) (\<lambda>_.
      append_event (lit ''phase '' @ phase_name phase @ lit '' '' @ evidence)))"

definition load_phase :: "session_dir \<Rightarrow> cli_error + protocol_phase option" where
  "load_phase d =
     (case sd_phase d of
        None \<Rightarrow> Inr None
      | Some content \<Rightarrow>
          and_then (read_limited 4096 (Some content)) (\<lambda>bs.
          and_then (ok_or (CliTransport ''phase utf8'') (from_utf8 bs)) (\<lambda>body.
          case str_lines body of
            [] \<Rightarrow> Inl (CliTransport ''empty phase file'')
          | name # _ \<Rightarrow> map_sum id Some (phase_parse name))))"

section \<open>Loading\<close>

definition load_proposal :: "frame_env \<Rightarrow> session \<Rightarrow> cli_error + proposal option" where
  "load_proposal env s =
     (case sd_proposal (se_dir s) of
        None \<Rightarrow> Inr None
      | Some content \<Rightarrow>
          and_then (read_limited MAX_PAYLOAD_BYTES (Some content)) (\<lambda>wire.
          and_then (batch_error (proposal_from_wire (fe_btc env) wire)) (\<lambda>p.
          and_then (require_live_proposal p) (\<lambda>_.
          and_then (batch_error (validate_at (fe_btc env) p (sp_chain_id (se_policy s)) (current_height (se_policy s)))) (\<lambda>_.
          Inr (Some p))))))"

text \<open>\<open>ok_or_else\<close> on the loaded proposal, with the message of the caller.\<close>

definition need_proposal :: "frame_env \<Rightarrow> string \<Rightarrow> session \<Rightarrow> cli_error + proposal" where
  "need_proposal env msg s = and_then (load_proposal env s) (ok_or (CliTransport msg))"

definition load_commitments :: "proposal option \<Rightarrow> session \<Rightarrow> participant_commitment list" where
  "load_commitments p s = (case p of None \<Rightarrow> [] | Some _ \<Rightarrow> se_commitments s)"

fun check_epochs :: "frame_env \<Rightarrow> proposal \<Rightarrow> manifest list \<Rightarrow> cli_error + unit" where
  "check_epochs env p (a # b # ms) =
     (if replacement_epoch a + 1 \<noteq> replacement_epoch b then Inl (CliTransport ''persisted manifests skip/repeat an epoch'')
      else
        and_then (batch_error (replacement (fe_btc env) (fe_sponge env) a p (feerate_sat_vb b))) (\<lambda>expected.
        if expected \<noteq> b then Inl (CliTransport ''persisted replacement violates C1 invariants'')
        else check_epochs env p (b # ms)))"
| "check_epochs env p _ = Inr ()"

definition load_manifests :: "frame_env \<Rightarrow> proposal option \<Rightarrow> participant_commitment list \<Rightarrow> session_dir \<Rightarrow> cli_error + manifest list" where
  "load_manifests env prop cs d =
     (case prop of
        None \<Rightarrow> Inr []
      | Some p \<Rightarrow>
          and_then (try_map (\<lambda>(_, content).
              and_then (read_limited MAX_PAYLOAD_BYTES (Some content)) (\<lambda>wire.
              batch_error (manifest_from_wire_pool (fe_btc env) (fe_sponge env) p cs wire)))
            (read_paths_with_extension ''bin'' (sd_manifests d))) (\<lambda>ms0.
          let ms = sort_key replacement_epoch ms0 in
          and_then (check_epochs env p ms) (\<lambda>_. Inr ms)))"

definition load_signatures :: "frame_env \<Rightarrow> manifest \<Rightarrow> proposal \<Rightarrow> session_dir \<Rightarrow> cli_error + signature_share list" where
  "load_signatures env m p d =
     and_then (try_map (\<lambda>(_, content).
         and_then (read_limited MAX_PAYLOAD_BYTES (Some content)) (\<lambda>wire.
         and_then (batch_error (share_from_wire (fe_btc env) wire)) (\<lambda>sh.
         and_then (batch_error (verify_signature_share (fe_btc env) (fe_sponge env) m p sh)) (\<lambda>_. Inr sh))))
       (filter (\<lambda>(name, _). starts_with (to_hex (manifest_id (fe_btc env) m) @ lit ''-'') name)
          (read_paths_with_extension ''bin'' (sd_signatures d)))) (\<lambda>shares.
     Inr (sort_key input_index shares))"

text \<open>The proposal, the manifests and the one with the given identifier, as five methods load them.\<close>

definition session_manifests :: "frame_env \<Rightarrow> proposal \<Rightarrow> session \<Rightarrow> cli_error + manifest list" where
  "session_manifests env p s = load_manifests env (Some p) (load_commitments (Some p) s) (se_dir s)"

definition find_manifest :: "frame_env \<Rightarrow> string \<Rightarrow> bytes \<Rightarrow> manifest list \<Rightarrow> cli_error + manifest" where
  "find_manifest env msg mid ms = ok_or (CliTransport msg) (find (\<lambda>m. manifest_id (fe_btc env) m = mid) ms)"

definition latest_manifest :: "frame_env \<Rightarrow> session \<Rightarrow> cli_error + manifest" where
  "latest_manifest env s =
     and_then (need_proposal env ''session has no proposal'' s) (\<lambda>p.
     and_then (session_manifests env p s) (\<lambda>ms.
     if ms = [] then Inl (CliTransport ''session has no manifest'') else Inr (last ms)))"

definition session_manifest :: "frame_env \<Rightarrow> bytes \<Rightarrow> session \<Rightarrow> cli_error + manifest" where
  "session_manifest env mid s =
     and_then (need_proposal env ''session has no proposal'' s) (\<lambda>p.
     and_then (session_manifests env p s) (\<lambda>ms. find_manifest env ''session has no named manifest'' mid ms))"

section \<open>Ingestion\<close>

datatype ingest_outcome = Accepted | Duplicate

definition verify_origin_authorization :: "frame_env \<Rightarrow> signed_frame \<Rightarrow> session \<Rightarrow> cli_error + unit" where
  "verify_origin_authorization env f s =
     (case fr_kind f of
        KProposal \<Rightarrow>
          and_then (batch_error (proposal_from_wire (fe_btc env) (fr_payload f))) (\<lambda>p.
          and_then (require_live_proposal p) (\<lambda>_. verify_origin_signature env f (stock_owner_pubkey p)))
      | KCommitment \<Rightarrow>
          and_then (need_proposal env ''commitment arrived before proposal'' s) (\<lambda>p.
          and_then (batch_error (commitment_from_wire (fe_btc env) p (fr_payload f))) (\<lambda>c. verify_origin_signature env f (fee_pubkey c)))
      | _ \<Rightarrow> if fr_origin f \<noteq> None then Inl (CliTransport ''frames must not carry origin authorization'') else Inr ())"

definition conflicts :: "participant_commitment \<Rightarrow> participant_commitment \<Rightarrow> bool" where
  "conflicts a b \<longleftrightarrow>
     fee_pubkey a = fee_pubkey b \<or> fee_outpoint a = fee_outpoint b \<or> operation_id a = operation_id b \<or> pc_payload a = pc_payload b"

definition commitment_cap :: "relay_policy \<Rightarrow> proposal \<Rightarrow> nat" where
  "commitment_cap rp p = min (unat (max_commitments rp)) (unat (participant_count p))"

definition enforce_frame_policy :: "frame_env \<Rightarrow> signed_frame \<Rightarrow> nat \<Rightarrow> session \<Rightarrow> cli_error + unit" where
  "enforce_frame_policy env f wire_len s =
     and_then (ok_or (CliTransport ''stored frame-byte counter overflow'') (checked_add (se_stored s) (word_of_nat wire_len))) (\<lambda>projected.
     if projected > max_session_bytes (se_relay_policy s) then Inl (CliTransport ''session frame-byte quota exceeded'')
     else
       case fr_kind f of
         KProposal \<Rightarrow>
           and_then (load_proposal env s) (\<lambda>existing.
           case existing of
             None \<Rightarrow> Inr ()
           | Some p \<Rightarrow>
               if proposal_wire_bytes (fe_btc env) p \<noteq> fr_payload f then
                 Inl (CliTransport ''different proposal body in an initialized session'') else Inr ())
       | KCommitment \<Rightarrow>
           and_then (need_proposal env ''commitment arrived before proposal'' s) (\<lambda>p.
           and_then (batch_error (commitment_from_wire (fe_btc env) p (fr_payload f))) (\<lambda>c.
           if list_ex (\<lambda>e. commitment_id (fe_btc env) e = commitment_id (fe_btc env) c) (se_commitments s) then Inr ()
           else if length (se_commitments s) \<ge> commitment_cap (se_relay_policy s) p then Inl (CliTransport ''authorized commitment quota exceeded'')
           else if fr_sender f \<in> se_senders s then Inl (CliTransport ''relay identity already authorized another commitment'')
           else if list_ex (\<lambda>e. conflicts e c) (se_commitments s) then
             Inl (CliTransport ''authorized commitment identity/outpoint/operation/payload quota exceeded'')
           else Inr ()))
       | KManifest \<Rightarrow>
           and_then (need_proposal env ''manifest arrived before proposal'' s) (\<lambda>p.
           and_then (batch_error (manifest_from_wire_pool (fe_btc env) (fe_sponge env) p (se_commitments s) (fr_payload f))) (\<lambda>m.
           if replacement_epoch m \<ge> max_replacement_epochs (se_relay_policy s) then Inl (CliTransport ''local replacement-epoch quota exceeded'')
           else Inr ()))
       | KSignature \<Rightarrow> Inr ())"

definition persist_proposal :: "frame_env \<Rightarrow> bytes \<Rightarrow> unit sess" where
  "persist_proposal env payload =
     bind_st (result_st (batch_error (proposal_from_wire (fe_btc env) payload))) (\<lambda>p.
     bind_st (query_st (\<lambda>s. batch_error (validate_at (fe_btc env) p (sp_chain_id (se_policy s)) (current_height (se_policy s))))) (\<lambda>_.
     semantic_write sd_proposal (\<lambda>d. d\<lparr>sd_proposal := Some payload\<rparr>) payload))"

definition persist_commitment :: "frame_env \<Rightarrow> bytes \<Rightarrow> bytes \<Rightarrow> unit sess" where
  "persist_commitment env sender payload =
     bind_st (query_st (need_proposal env ''commitment arrived before proposal'')) (\<lambda>p.
     bind_st (result_st (batch_error (commitment_from_wire (fe_btc env) p payload))) (\<lambda>c.
     let name = commitment_name env c in
     bind_st (semantic_write (\<lambda>d. map_of (sd_commitments d) name)
       (\<lambda>d. d\<lparr>sd_commitments := btree_insert name payload (sd_commitments d)\<rparr>) payload) (\<lambda>_.
     modify_st (\<lambda>s.
       if list_ex (\<lambda>e. commitment_id (fe_btc env) e = commitment_id (fe_btc env) c) (se_commitments s) then s
       else s\<lparr>se_commitments := se_commitments s @ [c], se_senders := insert sender (se_senders s)\<rparr>))))"

definition manifest_follows :: "frame_env \<Rightarrow> proposal \<Rightarrow> manifest list \<Rightarrow> manifest \<Rightarrow> cli_error + unit" where
  "manifest_follows env p existing m =
     (case find (\<lambda>e. replacement_epoch e = replacement_epoch m) existing of
        Some same_epoch \<Rightarrow> if same_epoch \<noteq> m then Inl (CliTransport ''manifest equivocation at one epoch'') else Inr ()
      | None \<Rightarrow>
          if replacement_epoch m = 0 then (if existing \<noteq> [] then Inl (CliTransport ''late epoch-zero manifest'') else Inr ())
          else
            and_then (ok_or (CliTransport ''replacement manifest skipped an epoch'')
              (find (\<lambda>e. replacement_epoch e + 1 = replacement_epoch m) existing)) (\<lambda>previous.
            and_then (batch_error (replacement (fe_btc env) (fe_sponge env) previous p (feerate_sat_vb m))) (\<lambda>expected.
            if expected \<noteq> m then Inl (CliTransport ''replacement manifest violates C1 invariants'') else Inr ())))"

definition persist_manifest :: "frame_env \<Rightarrow> bytes \<Rightarrow> unit sess" where
  "persist_manifest env payload =
     bind_st (query_st (need_proposal env ''manifest arrived before proposal'')) (\<lambda>p.
     bind_st (query_st (\<lambda>s. batch_error (manifest_from_wire_pool (fe_btc env) (fe_sponge env) p (load_commitments (Some p) s) payload))) (\<lambda>m.
     bind_st (query_st (session_manifests env p)) (\<lambda>existing.
     bind_st (result_st (manifest_follows env p existing m)) (\<lambda>_.
     let name = manifest_name env m in
     semantic_write (\<lambda>d. map_of (sd_manifests d) name)
       (\<lambda>d. d\<lparr>sd_manifests := btree_insert name payload (sd_manifests d)\<rparr>) payload))))"

definition persist_signature :: "frame_env \<Rightarrow> bytes \<Rightarrow> unit sess" where
  "persist_signature env payload =
     bind_st (query_st (need_proposal env ''signature arrived before proposal'')) (\<lambda>p.
     bind_st (query_st (session_manifests env p)) (\<lambda>ms.
     bind_st (result_st (batch_error (share_from_wire (fe_btc env) payload))) (\<lambda>sh.
     bind_st (result_st (find_manifest env ''signature names an unavailable manifest'' (ss_manifest_id sh) ms)) (\<lambda>m.
     bind_st (result_st (batch_error (verify_signature_share (fe_btc env) (fe_sponge env) m p sh))) (\<lambda>_.
     let name = share_name sh in
     semantic_write (\<lambda>d. map_of (sd_signatures d) name)
       (\<lambda>d. d\<lparr>sd_signatures := btree_insert name payload (sd_signatures d)\<rparr>) payload)))))"

definition persist_semantic :: "frame_env \<Rightarrow> signed_frame \<Rightarrow> unit sess" where
  "persist_semantic env f =
     (case fr_kind f of
        KProposal \<Rightarrow> persist_proposal env (fr_payload f)
      | KCommitment \<Rightarrow> persist_commitment env (fr_sender f) (fr_payload f)
      | KManifest \<Rightarrow> persist_manifest env (fr_payload f)
      | KSignature \<Rightarrow> persist_signature env (fr_payload f))"

definition count_stored :: "nat \<Rightarrow> unit sess" where
  "count_stored n s =
     (case checked_add (se_stored s) (word_of_nat n) of
        None \<Rightarrow> (Inl (CliTransport ''stored frame-byte counter overflow''), s)
      | Some v \<Rightarrow> (Inr (), s\<lparr>se_stored := v\<rparr>))"

text \<open>A frame that is stored already: the same body makes it a duplicate.\<close>

definition stored_frame :: "frame_env \<Rightarrow> signed_frame \<Rightarrow> session \<Rightarrow> cli_error + bool" where
  "stored_frame env f s =
     (case map_of (sd_frames (se_dir s)) (frame_name env f) of
        None \<Rightarrow> Inr False
      | Some content \<Rightarrow>
          and_then (read_limited MAX_FRAME_BYTES (Some content)) (\<lambda>wire.
          and_then (frame_from_wire env wire) (\<lambda>existing.
          if fr_kind existing \<noteq> fr_kind f \<or> fr_payload existing \<noteq> fr_payload f then Inl (CliTransport ''semantic frame-id collision'')
          else Inr True)))"

definition ingest_new :: "frame_env \<Rightarrow> signed_frame \<Rightarrow> bytes \<Rightarrow> ingest_outcome sess" where
  "ingest_new env f wire =
     bind_st (query_st (\<lambda>s. load_phase (se_dir s))) (\<lambda>phase.
     bind_st (result_st (case phase of
         Some p \<Rightarrow> if rejects_new_protocol_messages p then Inl (CliTransport ''terminal/confirmed session rejects new protocol messages'') else Inr ()
       | None \<Rightarrow> Inr ())) (\<lambda>_.
     bind_st (query_st (enforce_frame_policy env f (length wire))) (\<lambda>_.
     bind_st (persist_semantic env f) (\<lambda>_.
     bind_st (disk (atomic_put (\<lambda>d. d\<lparr>sd_frames := btree_insert (frame_name env f) wire (sd_frames d)\<rparr>))) (\<lambda>_.
     bind_st (count_stored (length wire)) (\<lambda>_.
     bind_st (append_event (lit ''accepted '' @ kind_name (fr_kind f) @ lit '' '' @ to_hex (frame_id env f) @ lit '' '' @ to_hex (fr_sender f))) (\<lambda>_.
     return_st Accepted)))))))"

definition ingest :: "frame_env \<Rightarrow> bytes \<Rightarrow> ingest_outcome sess" where
  "ingest env wire =
     bind_st (result_st (frame_from_wire env wire)) (\<lambda>f.
     bind_st (query_st (verify_origin_authorization env f)) (\<lambda>_.
     bind_st (query_st (stored_frame env f)) (\<lambda>stored.
     if stored then return_st Duplicate else ingest_new env f wire)))"

end
