(* ===== verification/Gossip_Ops.thy ===== *)
theory Gossip_Ops
  imports Gossip_Session
begin

text \<open>
  The remaining operations of \<open>Session\<close> in \<open>crates/opencsv-cli/src/batch_gossip.rs\<close>: publication, reservations, signing,
  status, finalization, phase transitions, creation and reopening of a session with the reconstruction of its index, and
  the relay loop. The wall clock, the drawn identity, the peers that accept a frame and the text of an error are
  arguments.
\<close>

section \<open>Publication\<close>

definition publish_frame :: "frame_env \<Rightarrow> signed_frame \<Rightarrow> bytes sess" where
  "publish_frame env f =
     (let wire = frame_to_wire env f in bind_st (ingest env wire) (\<lambda>_. return_st wire))"

definition publish :: "frame_env \<Rightarrow> message_kind \<Rightarrow> bytes \<Rightarrow> bytes sess" where
  "publish env kind payload =
     bind_st (query_st (\<lambda>s. frame_sign env kind payload (se_identity s))) (publish_frame env)"

definition publish_proposal :: "frame_env \<Rightarrow> bytes \<Rightarrow> bytes \<Rightarrow> bytes sess" where
  "publish_proposal env payload stock_key =
     bind_st (query_st (\<lambda>s. sign_proposal env payload (se_identity s) stock_key)) (publish_frame env)"

definition publish_commitment :: "frame_env \<Rightarrow> bytes \<Rightarrow> bytes \<Rightarrow> bytes sess" where
  "publish_commitment env payload fee_key =
     bind_st (query_st (need_proposal env ''commitment arrived before proposal'')) (\<lambda>p.
     bind_st (query_st (\<lambda>s. sign_commitment env p payload (se_identity s) fee_key)) (publish_frame env))"

definition author_manifest :: "frame_env \<Rightarrow> bytes sess" where
  "author_manifest env =
     bind_st (query_st (need_proposal env ''session has no proposal'')) (\<lambda>p.
     bind_st (query_st (\<lambda>s. batch_error (build (fe_btc env) (fe_sponge env) p (se_commitments s)))) (\<lambda>m.
     publish env KManifest (manifest_wire_bytes (fe_btc env) m)))"

definition author_replacement :: "frame_env \<Rightarrow> u32 \<Rightarrow> bytes sess" where
  "author_replacement env feerate =
     bind_st (query_st (need_proposal env ''session has no proposal'')) (\<lambda>p.
     bind_st (query_st (latest_manifest env)) (\<lambda>previous.
     bind_st (result_st (batch_error (replacement (fe_btc env) (fe_sponge env) previous p feerate))) (\<lambda>m.
     publish env KManifest (manifest_wire_bytes (fe_btc env) m))))"

section \<open>Reservations\<close>

definition persist_reservation :: "frame_env \<Rightarrow> local_reservation \<Rightarrow> unit sess" where
  "persist_reservation env r =
     disk (atomic_put (\<lambda>d. d\<lparr>sd_reservations :=
       btree_insert (reservation_path (lr_operation_id r)) (encode_reservation env r) (sd_reservations d)\<rparr>))"

definition local_reservation_of :: "frame_env \<Rightarrow> bytes \<Rightarrow> session \<Rightarrow> cli_error + local_reservation" where
  "local_reservation_of env oid s =
     and_then (read_limited 128 (map_of (sd_reservations (se_dir s)) (reservation_path oid))) (decode_reservation env)"

text \<open>The scan over the stored reservations: the one of this operation, or none that stands in the way.\<close>

fun find_reservation :: "frame_env \<Rightarrow> bytes \<Rightarrow> outpoint \<Rightarrow> directory \<Rightarrow> cli_error + local_reservation option" where
  "find_reservation env oid op [] = Inr None"
| "find_reservation env oid op ((_, content) # rest) =
     and_then (read_limited 128 (Some content)) (\<lambda>bs.
     and_then (decode_reservation env bs) (\<lambda>existing.
     if lr_operation_id existing = oid then
       (if lr_outpoint existing = op then Inr (Some existing)
        else Inl (CliTransport ''operation already reserves another Bitcoin input''))
     else if lr_outpoint existing = op \<and> \<not> is_releasable (lr_phase existing) then
       Inl (CliTransport ''Bitcoin input is reserved by another local operation'')
     else find_reservation env oid op rest))"

definition reserve_local_input :: "frame_env \<Rightarrow> bytes \<Rightarrow> outpoint \<Rightarrow> local_reservation sess" where
  "reserve_local_input env oid op =
     bind_st (query_st (\<lambda>s. find_reservation env oid op (read_paths_with_extension ''bin'' (sd_reservations (se_dir s))))) (\<lambda>found.
     case found of
       Some r \<Rightarrow> return_st r
     | None \<Rightarrow>
         let r = \<lparr>lr_operation_id = oid, lr_outpoint = op, lr_phase = CommittedUnsigned\<rparr> in
         bind_st (persist_reservation env r) (\<lambda>_. return_st r))"

definition require_reservation :: "frame_env \<Rightarrow> local_reservation \<Rightarrow> bytes \<Rightarrow> outpoint \<Rightarrow> session \<Rightarrow> cli_error + unit" where
  "require_reservation env supplied oid op s =
     (if lr_operation_id supplied \<noteq> oid \<or> lr_outpoint supplied \<noteq> op then
        Inl (CliTransport ''local reservation does not match this operation and input'')
      else
        and_then (local_reservation_of env oid s) (\<lambda>persisted.
        if persisted \<noteq> supplied then Inl (CliTransport ''local reservation capability is stale'')
        else if is_releasable (lr_phase persisted) then Inl (CliTransport ''local reservation is no longer signable'')
        else Inr ()))"

definition publish_verified_commitment ::
  "frame_env \<Rightarrow> u64 option \<Rightarrow> bytes \<Rightarrow> bytes \<Rightarrow> verified_commitment_inputs \<Rightarrow> local_reservation \<Rightarrow> duration \<Rightarrow> bytes sess" where
  "publish_verified_commitment env clock payload fee_key verified reservation max_age =
     bind_st (query_st (need_proposal env ''session has no proposal'')) (\<lambda>p.
     bind_st (result_st (batch_error (commitment_from_wire (fe_btc env) p payload))) (\<lambda>c.
     bind_st (result_st (map_err CliLight (commitment_require_fresh_for (fe_btc env) clock verified p c max_age))) (\<lambda>_.
     bind_st (query_st (require_reservation env reservation (operation_id c) (fee_outpoint c))) (\<lambda>_.
     publish_commitment env payload fee_key))))"

text \<open>The input a signature is for: its operation, its outpoint, its key and the signature.\<close>

definition sign_input ::
  "frame_env \<Rightarrow> proposal \<Rightarrow> manifest \<Rightarrow> u16 \<Rightarrow> bytes \<Rightarrow> cli_error + (bytes \<times> outpoint \<times> bytes \<times> ecdsa_signature)" where
  "sign_input env p m index key =
     (if index = 0 then
        and_then (batch_error (sign_stock (fe_btc env) (fe_sponge env) m p key)) (\<lambda>sig.
        Inr (batch_id (fe_btc env) p, stock_outpoint p, stock_owner_pubkey p, sig))
      else
        let i = unat index - 1 in
        if \<not> i < length (mf_commitments m) then Inl (CliTransport ''signature input index is outside the manifest'')
        else
          let c = mf_commitments m ! i in
          and_then (batch_error (sign_participant (fe_btc env) (fe_sponge env) m p i key)) (\<lambda>sig.
          Inr (operation_id c, fee_outpoint c, fee_pubkey c, sig)))"

definition sign_and_publish ::
  "frame_env \<Rightarrow> u64 option \<Rightarrow> bytes \<Rightarrow> u16 \<Rightarrow> bytes \<Rightarrow> verified_batch_inputs \<Rightarrow> local_reservation \<Rightarrow> duration \<Rightarrow> bytes sess" where
  "sign_and_publish env clock mid index key verified reservation max_age =
     bind_st (query_st (need_proposal env ''session has no proposal'')) (\<lambda>p.
     bind_st (query_st (session_manifests env p)) (\<lambda>ms.
     bind_st (result_st (find_manifest env ''cannot sign an unavailable manifest'' mid ms)) (\<lambda>m.
     bind_st (result_st (map_err CliLight (batch_require_fresh_for (fe_btc env) clock verified p m max_age))) (\<lambda>_.
     bind_st (result_st (sign_input env p m index key)) (\<lambda>(oid, op, signer, sig).
     bind_st (query_st (require_reservation env reservation oid op)) (\<lambda>_.
     bind_st (result_st (batch_error (signature_released (lr_phase reservation)))) (\<lambda>phase.
     bind_st (persist_reservation env \<lparr>lr_operation_id = oid, lr_outpoint = op, lr_phase = phase\<rparr>) (\<lambda>_.
     bind_st (result_st (batch_error (share_new (fe_btc env) mid index signer sig))) (\<lambda>share.
     publish env KSignature (share_wire_bytes (fe_btc env) share))))))))))"

section \<open>Status and phase transitions\<close>

record session_status =
  st_phase :: protocol_phase
  st_batch_id :: "bytes option"
  st_commitments :: nat
  st_manifests :: nat
  st_latest_manifest_id :: "bytes option"
  st_signature_shares :: nat
  st_required_signatures :: nat

definition status :: "frame_env \<Rightarrow> session \<Rightarrow> cli_error + session_status" where
  "status env s =
     and_then (load_proposal env s) (\<lambda>prop.
     let cs = load_commitments prop s in
     and_then (load_manifests env prop cs (se_dir s)) (\<lambda>ms.
     let latest = (if ms = [] then None else Some (last ms)) in
     and_then (case (latest, prop) of (Some m, Some p) \<Rightarrow> map_sum id length (load_signatures env m p (se_dir s)) | _ \<Rightarrow> Inr 0) (\<lambda>shares.
     let derived =
       (case prop of
          None \<Rightarrow> Ready
        | Some _ \<Rightarrow>
            (case latest of
               Some m \<Rightarrow>
                 if map_of (sd_signed (se_dir s)) (signed_path (manifest_id (fe_btc env) m)) \<noteq> None then SignedPersisted else ManifestReady
             | None \<Rightarrow> if cs = [] then Proposed else Committed))
     in and_then (load_phase (se_dir s)) (\<lambda>stored.
     Inr \<lparr>st_phase = (case stored of Some p \<Rightarrow> p | None \<Rightarrow> derived), st_batch_id = map_option (batch_id (fe_btc env)) prop,
          st_commitments = length cs, st_manifests = length ms, st_latest_manifest_id = map_option (manifest_id (fe_btc env)) latest,
          st_signature_shares = shares,
          st_required_signatures = (case latest of None \<Rightarrow> 0 | Some m \<Rightarrow> length (mf_commitments m) + 1)\<rparr>))))"

fun any_shares :: "frame_env \<Rightarrow> proposal \<Rightarrow> session_dir \<Rightarrow> manifest list \<Rightarrow> cli_error + bool" where
  "any_shares env p d [] = Inr False"
| "any_shares env p d (m # ms) =
     and_then (load_signatures env m p d) (\<lambda>shares. if shares \<noteq> [] then Inr True else any_shares env p d ms)"

definition has_any_signature_share :: "frame_env \<Rightarrow> session \<Rightarrow> cli_error + bool" where
  "has_any_signature_share env s =
     and_then (load_proposal env s) (\<lambda>prop.
     case prop of
       None \<Rightarrow> Inr False
     | Some p \<Rightarrow> and_then (session_manifests env p s) (any_shares env p (se_dir s)))"

definition transition_allowed :: "frame_env \<Rightarrow> session_status \<Rightarrow> protocol_phase \<Rightarrow> session \<Rightarrow> cli_error + bool" where
  "transition_allowed env st nxt s =
     (let current = st_phase st in
      case nxt of
        Broadcast \<Rightarrow> Inr (current = SignedPersisted)
      | Mempool \<Rightarrow> Inr (current \<in> {Broadcast, Mempool})
      | PhaseConfirmed \<Rightarrow> Inr (current \<in> {Broadcast, Mempool, PhaseConfirmed})
      | PayloadDelivered \<Rightarrow> Inr (current \<in> {PhaseConfirmed, PayloadDelivered})
      | AbortedBeforeSignature \<Rightarrow> map_sum id (\<lambda>b. \<not> b \<and> current \<in> {Proposed, Committed, ManifestReady}) (has_any_signature_share env s)
      | ExpiredUnsigned \<Rightarrow> map_sum id (\<lambda>b. \<not> b \<and> current \<in> {Proposed, Committed, ManifestReady}) (has_any_signature_share env s)
      | PhaseInvalidated \<Rightarrow> Inr (st_manifests st > 0)
      | _ \<Rightarrow> Inr False)"

definition mark_phase :: "frame_env \<Rightarrow> protocol_phase \<Rightarrow> ustring \<Rightarrow> unit sess" where
  "mark_phase env nxt evidence =
     (if 10 \<in> set evidence \<or> 13 \<in> set evidence then result_st (Inl (CliTransport ''phase evidence must be one line''))
      else
        bind_st (query_st (status env)) (\<lambda>st.
        bind_st (query_st (transition_allowed env st nxt)) (\<lambda>allowed.
        if \<not> allowed then result_st (Inl (CliTransport ''illegal batch phase transition'')) else persist_phase nxt evidence)))"

section \<open>Finalization\<close>

definition signed_transaction :: "frame_env \<Rightarrow> bytes \<Rightarrow> session \<Rightarrow> cli_error + transaction" where
  "signed_transaction env mid s =
     and_then (need_proposal env ''session has no proposal'' s) (\<lambda>p.
     and_then (session_manifests env p s) (\<lambda>ms.
     and_then (find_manifest env ''session has no named manifest'' mid ms) (\<lambda>m.
     and_then (read_limited MAX_PAYLOAD_BYTES (map_of (sd_signed (se_dir s)) (signed_path mid))) (\<lambda>bs.
     and_then (ok_or (CliTransport ''signed transaction'') (de_tx (fe_btc env) bs)) (\<lambda>tx.
     if ser_tx (fe_btc env) tx \<noteq> bs then Inl (CliTransport ''non-canonical signed transaction encoding'')
     else
       and_then (load_signatures env m p (se_dir s)) (\<lambda>shares.
       and_then (batch_error (finalize_shares (fe_btc env) (fe_sponge env) m p shares)) (\<lambda>expected.
       if expected \<noteq> tx then Inl (CliTransport ''persisted transaction differs from verified shares'') else Inr tx)))))))"

definition latest_signed_transaction :: "frame_env \<Rightarrow> session \<Rightarrow> cli_error + transaction" where
  "latest_signed_transaction env s =
     and_then (latest_manifest env s) (\<lambda>m. signed_transaction env (manifest_id (fe_btc env) m) s)"

definition note_signed :: "frame_env \<Rightarrow> bytes \<Rightarrow> unit sess" where
  "note_signed env mid =
     bind_st (query_st (status env)) (\<lambda>st.
     if st_phase st \<in> {Ready, Proposed, Committed, ManifestReady, SignedPersisted} then persist_phase SignedPersisted (to_hex mid)
     else append_event (lit ''signed_persisted '' @ to_hex mid))"

definition finalize_manifest :: "frame_env \<Rightarrow> bytes \<Rightarrow> transaction sess" where
  "finalize_manifest env mid =
     bind_st (query_st (need_proposal env ''cannot finalize without a proposal'')) (\<lambda>p.
     bind_st (query_st (session_manifests env p)) (\<lambda>ms.
     bind_st (result_st (find_manifest env ''cannot finalize an unavailable manifest'' mid ms)) (\<lambda>m.
     \<lambda>s. if map_of (sd_signed (se_dir s)) (signed_path mid) \<noteq> None then (signed_transaction env mid s, s)
       else
         bind_st (query_st (status env)) (\<lambda>st.
         if rejects_new_protocol_messages (st_phase st) then
           result_st (Inl (CliTransport ''terminal/confirmed session cannot finalize a new manifest''))
         else
           bind_st (query_st (\<lambda>s. load_signatures env m p (se_dir s))) (\<lambda>shares.
           bind_st (result_st (batch_error (finalize_shares (fe_btc env) (fe_sponge env) m p shares))) (\<lambda>tx.
           bind_st (disk (atomic_put (\<lambda>d. d\<lparr>sd_signed := btree_insert (signed_path mid) (ser_tx (fe_btc env) tx) (sd_signed d)\<rparr>))) (\<lambda>_.
           bind_st (note_signed env mid) (\<lambda>_. return_st tx))))) s)))"

definition finalize_latest :: "frame_env \<Rightarrow> transaction sess" where
  "finalize_latest env =
     bind_st (query_st (need_proposal env ''cannot finalize without a proposal'')) (\<lambda>p.
     bind_st (query_st (session_manifests env p)) (\<lambda>ms.
     if ms = [] then result_st (Inl (CliTransport ''cannot finalize without a manifest''))
     else finalize_manifest env (manifest_id (fe_btc env) (last ms))))"

fun hex_pairs :: "bytes \<Rightarrow> cli_error + bytes" where
  "hex_pairs (a # b # rest) =
     and_then (ok_or (CliTransport ''hex utf8'') (from_utf8 [a, b])) (\<lambda>_.
     and_then (ok_or (CliTransport ''invalid hex value'') (from_str_radix_16 a b)) (\<lambda>v.
     and_then (hex_pairs rest) (\<lambda>vs. Inr (v # vs))))"
| "hex_pairs _ = Inr []"

definition parse_hex_32 :: "ustring \<Rightarrow> cli_error + bytes" where
  "parse_hex_32 s =
     (let bs = as_bytes s in
      if length bs \<noteq> 64 then Inl (CliTransport ''32-byte hex value has wrong length'') else hex_pairs bs)"

definition signed_manifest_ids :: "session \<Rightarrow> cli_error + bytes list" where
  "signed_manifest_ids s =
     try_map (\<lambda>(name, _). parse_hex_32 (take (length name - 3) name)) (read_paths_with_extension ''tx'' (sd_signed (se_dir s)))"

section \<open>Reconstruction\<close>

definition stored_proposal :: "frame_env \<Rightarrow> session_dir \<Rightarrow> cli_error + proposal option" where
  "stored_proposal env d =
     (case sd_proposal d of
        None \<Rightarrow> Inr None
      | Some content \<Rightarrow>
          and_then (read_limited MAX_PAYLOAD_BYTES (Some content)) (\<lambda>wire.
          and_then (batch_error (proposal_from_wire (fe_btc env) wire)) (\<lambda>p.
          and_then (require_live_proposal p) (\<lambda>_. Inr (Some p)))))"

fun rebuild_commitments :: "frame_env \<Rightarrow> proposal option \<Rightarrow> participant_commitment list \<Rightarrow> directory \<Rightarrow> cli_error + participant_commitment list" where
  "rebuild_commitments env prop acc [] = Inr acc"
| "rebuild_commitments env prop acc ((_, content) # rest) =
     and_then (ok_or (CliTransport ''stored commitment has no proposal'') prop) (\<lambda>p.
     and_then (read_limited MAX_PAYLOAD_BYTES (Some content)) (\<lambda>wire.
     and_then (batch_error (commitment_from_wire (fe_btc env) p wire)) (\<lambda>c.
     if list_ex (\<lambda>e. conflicts e c) acc then Inl (CliTransport ''stored commitment pool violates authorized identity quotas'')
     else rebuild_commitments env prop (acc @ [c]) rest)))"

record frame_index =
  fx_bytes :: u64
  fx_senders :: "bytes set"
  fx_authorized :: "bytes set"

definition index_frame :: "frame_env \<Rightarrow> proposal option \<Rightarrow> signed_frame \<Rightarrow> frame_index \<Rightarrow> cli_error + frame_index" where
  "index_frame env prop f x =
     (case fr_kind f of
        KProposal \<Rightarrow>
          and_then (batch_error (proposal_from_wire (fe_btc env) (fr_payload f))) (\<lambda>p.
          and_then (verify_origin_signature env f (stock_owner_pubkey p)) (\<lambda>_. Inr x))
      | KCommitment \<Rightarrow>
          and_then (ok_or (CliTransport ''commitment frame has no proposal'') prop) (\<lambda>p.
          and_then (batch_error (commitment_from_wire (fe_btc env) p (fr_payload f))) (\<lambda>c.
          and_then (verify_origin_signature env f (fee_pubkey c)) (\<lambda>_.
          if fr_sender f \<in> fx_senders x then Inl (CliTransport ''stored relay identity authorized multiple commitments'')
          else Inr (x\<lparr>fx_senders := insert (fr_sender f) (fx_senders x),
                      fx_authorized := insert (commitment_id (fe_btc env) c) (fx_authorized x)\<rparr>))))
      | _ \<Rightarrow> if fr_origin f \<noteq> None then Inl (CliTransport ''stored manifest/signature has unexpected origin authorization'') else Inr x)"

fun rebuild_frames :: "frame_env \<Rightarrow> proposal option \<Rightarrow> relay_policy \<Rightarrow> frame_index \<Rightarrow> directory \<Rightarrow> cli_error + frame_index" where
  "rebuild_frames env prop rp x [] = Inr x"
| "rebuild_frames env prop rp x ((_, content) # rest) =
     and_then (ok_or (CliTransport ''stored frame-byte counter overflow'') (checked_add (fx_bytes x) (word_of_nat (length content)))) (\<lambda>total.
     if total > max_session_bytes rp then Inl (CliTransport ''stored frames exceed local byte quota'')
     else
       and_then (read_limited MAX_FRAME_BYTES (Some content)) (\<lambda>wire.
       and_then (frame_from_wire env wire) (\<lambda>f.
       and_then (index_frame env prop f (x\<lparr>fx_bytes := total\<rparr>)) (\<lambda>x.
       rebuild_frames env prop rp x rest))))"

definition rebuild_session_index ::
  "frame_env \<Rightarrow> session_dir \<Rightarrow> relay_policy \<Rightarrow> cli_error + (participant_commitment list \<times> bytes set \<times> u64)" where
  "rebuild_session_index env d rp =
     and_then (stored_proposal env d) (\<lambda>prop.
     and_then (rebuild_commitments env prop [] (read_paths_with_extension ''bin'' (sd_commitments d))) (\<lambda>cs.
     if length cs > (case prop of None \<Rightarrow> 0 | Some p \<Rightarrow> commitment_cap rp p) then Inl (CliTransport ''stored commitment pool exceeds local quota'')
     else
       and_then (rebuild_frames env prop rp \<lparr>fx_bytes = 0, fx_senders = {}, fx_authorized = {}\<rparr>
         (read_paths_with_extension ''frame'' (sd_frames d))) (\<lambda>x.
       if list_ex (\<lambda>c. commitment_id (fe_btc env) c \<notin> fx_authorized x) cs then
         Inl (CliTransport ''stored commitment lacks its authorized relay frame'')
       else Inr (cs, fx_senders x, fx_bytes x))))"

definition load_identity :: "frame_env \<Rightarrow> session_dir \<Rightarrow> cli_error + bytes" where
  "load_identity env d =
     (if sd_identity d = None then Inl CliIo
      else if \<not> sd_identity_private d then Inl (CliTransport ''relay identity must be mode 0600 or stricter'')
      else
        and_then (read_limited 32 (sd_identity d)) (\<lambda>bs.
        if length bs \<noteq> 32 then Inl (CliTransport ''relay identity is not 32 bytes'')
        else if \<not> secret_key_ok env bs then Inl (CliTransport ''relay identity'') else Inr bs))"

text \<open>\<open>drawn\<close> is the first valid candidate of the random generator.\<close>

definition load_or_create_identity :: "frame_env \<Rightarrow> bytes \<Rightarrow> bytes on_disk" where
  "load_or_create_identity env drawn d =
     (if sd_identity d \<noteq> None then (load_identity env d, d)
      else bind_st (atomic_put (\<lambda>d. d\<lparr>sd_identity := Some drawn, sd_identity_private := True\<rparr>)) (\<lambda>_. return_st drawn) d)"

definition load_session :: "frame_env \<Rightarrow> session_policy \<Rightarrow> relay_policy \<Rightarrow> bytes \<Rightarrow> session on_disk" where
  "load_session env policy rp identity d =
     (map_sum id (\<lambda>(cs, senders, stored).
        \<lparr>se_dir = d, se_policy = policy, se_relay_policy = rp, se_identity = identity, se_commitments = cs, se_senders = senders, se_stored = stored\<rparr>)
        (rebuild_session_index env d rp), d)"

text \<open>A file of the session that must hold the given bytes, and is created with them.\<close>

definition pin_file :: "string \<Rightarrow> (session_dir \<Rightarrow> bytes option) \<Rightarrow> (session_dir \<Rightarrow> session_dir) \<Rightarrow> bytes \<Rightarrow> unit on_disk" where
  "pin_file msg look upd bs d =
     (case look d of
        Some existing \<Rightarrow> (and_then (read_limited 64 (Some existing)) (\<lambda>existing. if existing \<noteq> bs then Inl (CliTransport msg) else Inr ()), d)
      | None \<Rightarrow> atomic_put upd d)"

definition init_with_relay_policy :: "frame_env \<Rightarrow> bytes \<Rightarrow> session_policy \<Rightarrow> relay_policy \<Rightarrow> session on_disk" where
  "init_with_relay_policy env drawn policy rp =
     bind_st (result_st (relay_policy_validate rp)) (\<lambda>rp.
     bind_st (modify_st (\<lambda>d. d\<lparr>sd_private := True\<rparr>)) (\<lambda>_.
     bind_st (pin_file ''session chain policy mismatch'' sd_policy (\<lambda>d. d\<lparr>sd_policy := Some (encode_policy policy)\<rparr>) (encode_policy policy)) (\<lambda>_.
     bind_st (pin_file ''session relay policy mismatch'' sd_relay_policy (\<lambda>d. d\<lparr>sd_relay_policy := Some (encode_relay_policy rp)\<rparr>)
       (encode_relay_policy rp)) (\<lambda>_.
     bind_st (load_or_create_identity env drawn) (\<lambda>identity.
     load_session env policy rp identity)))))"

definition session_init :: "frame_env \<Rightarrow> bytes \<Rightarrow> session_policy \<Rightarrow> session on_disk" where
  "session_init env drawn policy = init_with_relay_policy env drawn policy default_relay_policy"

definition open_relay_policy :: "relay_policy on_disk" where
  "open_relay_policy d =
     (case sd_relay_policy d of
        Some content \<Rightarrow> (and_then (read_limited 64 (Some content)) decode_relay_policy, d)
      | None \<Rightarrow>
          bind_st (atomic_put (\<lambda>d. d\<lparr>sd_relay_policy := Some (encode_relay_policy default_relay_policy)\<rparr>))
            (\<lambda>_. return_st default_relay_policy) d)"

definition session_open :: "frame_env \<Rightarrow> session on_disk" where
  "session_open env =
     bind_st (query_st (\<lambda>d. if \<not> sd_private d then Inl (CliTransport ''session directory must not be group/world accessible'') else Inr ())) (\<lambda>_.
     bind_st (query_st (\<lambda>d. and_then (read_limited 64 (sd_policy d)) decode_policy)) (\<lambda>policy.
     bind_st open_relay_policy (\<lambda>rp.
     bind_st (query_st (load_identity env)) (\<lambda>identity.
     load_session env policy rp identity))))"

definition refresh_verified_tip :: "u64 option \<Rightarrow> verified_chain_tip \<Rightarrow> duration \<Rightarrow> unit sess" where
  "refresh_verified_tip clock tip max_age =
     bind_st (result_st (map_err CliLight (tip_require_fresh clock tip max_age))) (\<lambda>_.
     bind_st (query_st (\<lambda>s. if vt_chain_id tip \<noteq> sp_chain_id (se_policy s) then Inl (CliTransport ''verified tip belongs to another chain'')
       else if vt_height tip > U32_MAX then Inl (CliTransport ''verified tip height exceeds u32'') else Inr ())) (\<lambda>_.
     bind_st (modify_st (\<lambda>s. s\<lparr>se_policy := (se_policy s)\<lparr>current_height := word_of_nat (vt_height tip)\<rparr>\<rparr>)) (\<lambda>_.
     bind_st (\<lambda>s. disk (atomic_put (\<lambda>d. d\<lparr>sd_policy := Some (encode_policy (se_policy s))\<rparr>)) s) (\<lambda>_.
     append_event (lit ''verified_tip '' @ decimal (vt_height tip) @ lit '' '' @ to_hex (vt_hash tip))))))"

section \<open>The relay\<close>

record relay_report =
  rr_outcome :: ingest_outcome
  rr_forwarded :: nat
  rr_failed :: "ustring list"

datatype relay_attempt = Processed relay_report | Rejected ustring ustring

definition read_exact_before :: "nat \<Rightarrow> bytes \<Rightarrow> cli_error + (bytes \<times> bytes)" where
  "read_exact_before n stream =
     (if length stream < n then Inl (CliTransport ''incoming frame ended early or exceeded its deadline'')
      else Inr (take n stream, drop n stream))"

text \<open>The stream is what the peer delivered before the deadline; \<open>sent\<close> tells which peers take a frame.\<close>

definition process_stream :: "frame_env \<Rightarrow> (ustring \<Rightarrow> bytes \<Rightarrow> bool) \<Rightarrow> ustring list \<Rightarrow> bytes \<Rightarrow> relay_report sess" where
  "process_stream env sent peers stream =
     bind_st (result_st (read_exact_before 4 stream)) (\<lambda>(prefix, rest).
     let len = unat (from_le_bytes prefix :: u32) in
     if len > MAX_FRAME_BYTES then result_st (Inl (CliTransport ''incoming frame exceeds relay bound''))
     else
       bind_st (result_st (read_exact_before len rest)) (\<lambda>(wire, _).
       bind_st (ingest env wire) (\<lambda>outcome.
       let tried = (if outcome = Accepted then peers else []) in
       return_st \<lparr>rr_outcome = outcome, rr_forwarded = length (filter (\<lambda>p. sent p wire) tried), rr_failed = filter (\<lambda>p. \<not> sent p wire) tried\<rparr>)))"

fun one_line_loop :: "nat \<Rightarrow> nat \<Rightarrow> ustring \<Rightarrow> ustring" where
  "one_line_loop limit used [] = []"
| "one_line_loop limit used (c # cs) =
     (if used \<ge> limit then []
      else let d = (if c = 10 \<or> c = 13 then 32 else c) in d # one_line_loop limit (used + length (utf8_char d)) cs)"

definition bounded_one_line :: "ustring \<Rightarrow> nat \<Rightarrow> ustring" where
  "bounded_one_line message limit = one_line_loop limit 0 message"

definition relay_next_with_refresh ::
  "frame_env \<Rightarrow> (cli_error \<Rightarrow> ustring) \<Rightarrow> (ustring \<Rightarrow> bytes \<Rightarrow> bool) \<Rightarrow> ustring list \<Rightarrow> unit sess \<Rightarrow> ustring \<Rightarrow> bytes \<Rightarrow> relay_attempt sess" where
  "relay_next_with_refresh env shown sent peers refresh remote stream =
     bind_st refresh (\<lambda>_ s.
       case process_stream env sent peers stream s of
         (Inr report, t) \<Rightarrow> (Inr (Processed report), t)
       | (Inl e, t) \<Rightarrow>
           if e = CliIo \<or> e = CliDecode then (Inl e, t)
           else
             let reason = bounded_one_line (shown e) 512 in
             bind_st (append_event (lit ''rejected '' @ remote @ lit '' '' @ reason)) (\<lambda>_. return_st (Rejected remote reason)) t)"

end
