(* ===== verification/Gossip_Frame_Proofs.thy ===== *)
theory Gossip_Frame_Proofs
  imports Gossip_Frame Batch_Gossip
begin

text \<open>
  What the frame codec of the relay guarantees: parsing is exact, signing produces parseable frames, and the digests pin
  their contents.
\<close>

section \<open>The layout of a frame\<close>

definition sig_ok :: "frame_env \<Rightarrow> bytes \<Rightarrow> bool" where
  "sig_ok env s \<longleftrightarrow>
     from_der env (ser_der env s) = Some s \<and> 8 \<le> length (ser_der env s) \<and> length (ser_der env s) \<le> 72 \<and> normalize_s (fe_btc env) s = s"

definition frame_ok :: "frame_env \<Rightarrow> signed_frame \<Rightarrow> bool" where
  "frame_ok env f \<longleftrightarrow>
     length (fr_payload f) \<le> MAX_PAYLOAD_BYTES \<and> length (fr_sender f) = 33 \<and>
     pubkey_from_slice (fe_btc env) (fr_sender f) = Some (fr_sender f) \<and> sig_ok env (fr_signature f) \<and>
     (case fr_origin f of None \<Rightarrow> True | Some s \<Rightarrow> sig_ok env s) \<and>
     verify_ecdsa (fe_btc env) (frame_digest env (fr_kind f) (fr_sender f) (fr_payload f) (fr_origin f)) (fr_signature f) (fr_sender f)"

definition frame_head :: "signed_frame \<Rightarrow> bytes" where
  "frame_head f =
     FRAME_MAGIC @ to_le_bytes FRAME_VERSION @ [kind_to_byte (fr_kind f)] @ fr_sender f @
     to_le_bytes (word_of_nat (length (fr_payload f)) :: u32)"

definition origin_bytes :: "frame_env \<Rightarrow> signed_frame \<Rightarrow> bytes" where
  "origin_bytes env f = (case fr_origin f of None \<Rightarrow> [] | Some s \<Rightarrow> ser_der env s)"

lemma origin_part_eq: "origin_part env (fr_origin f) = to_le_bytes (word_of_nat (length (origin_bytes env f)) :: u16) @ origin_bytes env f"
  by (simp add: origin_part_def origin_bytes_def split: option.splits)

lemma frame_to_wire_layout:
  "frame_to_wire env f =
     frame_head f @ fr_payload f @ to_le_bytes (word_of_nat (length (origin_bytes env f)) :: u16) @ origin_bytes env f @
     to_le_bytes (word_of_nat (length (ser_der env (fr_signature f))) :: u16) @ ser_der env (fr_signature f)"
  by (simp add: frame_to_wire_def frame_head_def origin_part_eq Let_def)

lemma length_frame_magic [simp]: "length FRAME_MAGIC = 8" by (simp add: FRAME_MAGIC_def)

lemma length_frame_head: "length (fr_sender f) = 33 \<Longrightarrow> length (frame_head f) = 48"
  by (simp add: frame_head_def)

lemma slice_mid: "n = length a \<Longrightarrow> m = n + length b \<Longrightarrow> slice n m (a @ b @ c) = b"
  by (simp add: slice_def)

lemma frame_head_parts:
  assumes "length (fr_sender f) = 33"
  shows "take 8 (frame_head f @ xs) = FRAME_MAGIC" "slice 8 10 (frame_head f @ xs) = to_le_bytes FRAME_VERSION"
    "(frame_head f @ xs) ! 10 = kind_to_byte (fr_kind f)" "slice 11 44 (frame_head f @ xs) = fr_sender f"
    "slice 44 48 (frame_head f @ xs) = to_le_bytes (word_of_nat (length (fr_payload f)) :: u32)"
proof -
  show "take 8 (frame_head f @ xs) = FRAME_MAGIC" by (simp add: frame_head_def)
  show "slice 8 10 (frame_head f @ xs) = to_le_bytes FRAME_VERSION"
    unfolding frame_head_def append_assoc by (rule slice_mid) simp_all
  show "(frame_head f @ xs) ! 10 = kind_to_byte (fr_kind f)" by (simp add: frame_head_def nth_append)
  show "slice 11 44 (frame_head f @ xs) = fr_sender f"
    using slice_mid [of 11 "FRAME_MAGIC @ to_le_bytes FRAME_VERSION @ [kind_to_byte (fr_kind f)]" 44 "fr_sender f"] assms
    by (simp add: frame_head_def)
  show "slice 44 48 (frame_head f @ xs) = to_le_bytes (word_of_nat (length (fr_payload f)) :: u32)"
    using slice_mid [of 44 "FRAME_MAGIC @ to_le_bytes FRAME_VERSION @ [kind_to_byte (fr_kind f)] @ fr_sender f" 48
        "to_le_bytes (word_of_nat (length (fr_payload f)) :: u32)"] assms
    by (simp add: frame_head_def)
qed

lemma length_u32_back: "n \<le> MAX_PAYLOAD_BYTES \<Longrightarrow> unat (word_of_nat n :: u32) = n"
  by (simp add: MAX_PAYLOAD_BYTES_def unat_of_nat)

lemma length_u16_back: "n \<le> 144 \<Longrightarrow> unat (word_of_nat n :: u16) = n"
  by (simp add: unat_of_nat)

lemma kind_byte_back [simp]: "kind_from_byte (kind_to_byte k) = Inr k"
  by (cases k) (simp_all add: kind_from_byte_def)

lemma kind_to_byte_inj [simp]: "kind_to_byte a = kind_to_byte b \<longleftrightarrow> a = b"
  by (cases a; cases b) simp_all

lemma sig_ok_parse: "sig_ok env s \<Longrightarrow> parse_low_s_signature env (ser_der env s) = Inr s"
  by (simp add: sig_ok_def parse_low_s_signature_def)

text \<open>The slices of an encoded frame, for any lengths.\<close>

lemma frame_slices:
  fixes f env
  defines "n \<equiv> length (fr_payload f)" and "m \<equiv> length (origin_bytes env f)"
  assumes "length (fr_sender f) = 33"
  shows "slice 48 (48 + n) (frame_to_wire env f) = fr_payload f"
    "slice (48 + n) (48 + n + 2) (frame_to_wire env f) = to_le_bytes (word_of_nat m :: u16)"
    "slice (48 + n + 2) (48 + n + 2 + m) (frame_to_wire env f) = origin_bytes env f"
    "slice (48 + n + 2 + m) (48 + n + 2 + m + 2) (frame_to_wire env f) = to_le_bytes (word_of_nat (length (ser_der env (fr_signature f))) :: u16)"
    "drop (48 + n + 2 + m + 2) (frame_to_wire env f) = ser_der env (fr_signature f)"
    "length (frame_to_wire env f) = 48 + n + 2 + m + 2 + length (ser_der env (fr_signature f))"
proof -
  let ?O = "origin_bytes env f" and ?S = "ser_der env (fr_signature f)"
  let ?lo = "to_le_bytes (word_of_nat m :: u16)" and ?ls = "to_le_bytes (word_of_nat (length ?S) :: u16)"
  have hd: "length (frame_head f) = 48" by (rule length_frame_head [OF assms(3)])
  have lay: "frame_to_wire env f = frame_head f @ fr_payload f @ ?lo @ ?O @ ?ls @ ?S" unfolding m_def by (rule frame_to_wire_layout)
  show "slice 48 (48 + n) (frame_to_wire env f) = fr_payload f" unfolding lay using hd by (intro slice_mid) (simp_all add: n_def)
  show "slice (48 + n) (48 + n + 2) (frame_to_wire env f) = ?lo"
    unfolding lay using slice_mid [of "48 + n" "frame_head f @ fr_payload f" "48 + n + 2" ?lo] hd by (simp add: n_def)
  show "slice (48 + n + 2) (48 + n + 2 + m) (frame_to_wire env f) = ?O"
    unfolding lay using slice_mid [of "48 + n + 2" "frame_head f @ fr_payload f @ ?lo" "48 + n + 2 + m" ?O] hd by (simp add: n_def m_def)
  show "slice (48 + n + 2 + m) (48 + n + 2 + m + 2) (frame_to_wire env f) = ?ls"
    unfolding lay using slice_mid [of "48 + n + 2 + m" "frame_head f @ fr_payload f @ ?lo @ ?O" "48 + n + 2 + m + 2" ?ls] hd by (simp add: n_def m_def)
  show "drop (48 + n + 2 + m + 2) (frame_to_wire env f) = ?S" unfolding lay using hd by (simp add: n_def m_def)
  show "length (frame_to_wire env f) = 48 + n + 2 + m + 2 + length ?S" by (simp add: lay hd n_def m_def)
qed

section \<open>Exactness\<close>

lemma frame_read_back:
  assumes ok: "frame_ok env f"
  shows "frame_from_wire env (frame_to_wire env f) = Inr f"
proof -
  let ?O = "origin_bytes env f" and ?S = "ser_der env (fr_signature f)" and ?n = "length (fr_payload f)" and ?w = "frame_to_wire env f"
  have snd: "length (fr_sender f) = 33" and n: "?n \<le> MAX_PAYLOAD_BYTES" using ok by (simp_all add: frame_ok_def)
  have S: "8 \<le> length ?S" "length ?S \<le> 72" using ok by (simp_all add: frame_ok_def sig_ok_def)
  have O: "length ?O \<le> 72" "length ?O = 0 \<or> 8 \<le> length ?O"
    using ok by (auto simp: frame_ok_def sig_ok_def origin_bytes_def split: option.splits)
  note sli = frame_slices [OF snd, of env]
  have origin: "(if length ?O = 0 then Inr None else map_sum id Some (parse_low_s_signature env ?O)) = Inr (fr_origin f)"
    using ok by (auto simp: frame_ok_def origin_bytes_def sig_ok_parse sig_ok_def split: option.splits)
  have h: "take 8 ?w = FRAME_MAGIC" "slice 8 10 ?w = to_le_bytes FRAME_VERSION" "?w ! 10 = kind_to_byte (fr_kind f)"
    "slice 11 44 ?w = fr_sender f" "slice 44 48 ?w = to_le_bytes (word_of_nat ?n :: u32)"
    unfolding frame_to_wire_layout by (rule frame_head_parts [OF snd])+
  have v: "verify_ecdsa (fe_btc env) (frame_digest env (fr_kind f) (fr_sender f) (fr_payload f) (fr_origin f)) (fr_signature f) (fr_sender f)"
    and pk: "pubkey_from_slice (fe_btc env) (fr_sender f) = Some (fr_sender f)" and sg: "parse_low_s_signature env ?S = Inr (fr_signature f)"
    using ok by (simp_all add: frame_ok_def sig_ok_parse)
  have f: "\<lparr>fr_kind = fr_kind f, fr_sender = fr_sender f, fr_payload = fr_payload f, fr_origin = fr_origin f, fr_signature = fr_signature f\<rparr> = f" by simp
  have u: "unat (word_of_nat (length ?O) :: u16) = length ?O" "unat (word_of_nat (length ?S) :: u16) = length ?S" "unat (word_of_nat ?n :: u32) = ?n"
    using O S n by (simp_all add: length_u16_back length_u32_back)
  show ?thesis
    unfolding frame_from_wire_def h from_to_le_bytes_sizes kind_byte_back and_then.simps pk ok_or_simps Let_def u(3)
      sli(2) u(1) sli(3) origin sli(4) u(2) sli(5) sg sli(1) f
    using n O S v sli(6) by (simp add: MAX_FRAME_BYTES_def)
qed

lemma frame_from_wire_Inr:
  assumes env: "env_ok (fe_btc env)" and p: "frame_from_wire env wire = Inr f"
  shows "wire = frame_to_wire env f \<and> frame_ok env f"
proof -
  define plen where "plen = unat (from_le_bytes (slice 44 48 wire) :: u32)"
  define olen where "olen = unat (from_le_bytes (slice (48 + plen) (48 + plen + 2) wire) :: u16)"
  define slen where "slen = unat (from_le_bytes (slice (48 + plen + 2 + olen) (48 + plen + 2 + olen + 2) wire) :: u16)"
  note parsed = p [unfolded frame_from_wire_def Let_def, folded plen_def, folded olen_def, folded slen_def]
  have pk: "k = bs" if "pubkey_from_slice (fe_btc env) bs = Some k" for k bs using env that by (simp add: env_ok_def)
  have len: "60 \<le> length wire" and pl: "plen \<le> MAX_PAYLOAD_BYTES" "48 + plen + 2 \<le> length wire"
    and ol: "olen = 0 \<or> 8 \<le> olen" "olen \<le> 72" and sl: "8 \<le> slen" "slen \<le> 72" "48 + plen + 2 + olen + 2 + slen = length wire"
    and payload: "fr_payload f = slice 48 (48 + plen) wire" and key: "pubkey_from_slice (fe_btc env) (slice 11 44 wire) = Some (fr_sender f)"
    and origin: "(if olen = 0 then Inr None else map_sum id Some (parse_low_s_signature env (slice (48 + plen + 2) (48 + plen + 2 + olen) wire))) = Inr (fr_origin f)"
    and sig: "parse_low_s_signature env (drop (48 + plen + 2 + olen + 2) wire) = Inr (fr_signature f)"
    and v: "verify_ecdsa (fe_btc env) (frame_digest env (fr_kind f) (fr_sender f) (fr_payload f) (fr_origin f)) (fr_signature f) (fr_sender f)"
    and w: "frame_to_wire env f = wire"
    using parsed by (auto simp: and_then_Inr not_less not_le split: if_splits)
  have sender: "fr_sender f = slice 11 44 wire" using pk [OF key] .
  have snd: "length (fr_sender f) = 33" unfolding sender using len by simp
  have n: "length (fr_payload f) = plen" unfolding payload using pl by simp
  let ?O = "origin_bytes env f" and ?S = "ser_der env (fr_signature f)"
  note sli = frame_slices [OF snd, of env, unfolded w n]
  have sum: "length ?O + length ?S = olen + slen" using sli(6) sl(3) by simp
  then have m: "length ?O = olen" using sli(2) ol sl by (simp add: olen_def length_u16_back)
  with sum have k: "length ?S = slen" by simp
  have O: "slice (48 + plen + 2) (48 + plen + 2 + olen) wire = ?O" and S: "drop (48 + plen + 2 + olen + 2) wire = ?S"
    using sli(3,5) unfolding m by simp_all
  have so: "sig_ok env (fr_signature f)" using sig k sl unfolding S by (auto simp: sig_ok_def parse_low_s_signature_def and_then_Inr split: if_splits)
  have oo: "case fr_origin f of None \<Rightarrow> True | Some s \<Rightarrow> sig_ok env s"
  proof (cases "fr_origin f")
    case (Some t)
    then have "parse_low_s_signature env (ser_der env t) = Inr t" "length (ser_der env t) = olen" "olen \<noteq> 0"
      using origin m unfolding O by (auto simp: origin_bytes_def map_sum_def split: if_splits sum.splits)
    then show ?thesis using ol Some by (auto simp: sig_ok_def parse_low_s_signature_def and_then_Inr split: if_splits)
  qed simp
  show ?thesis using w snd n pl key so oo v sender by (simp add: frame_ok_def)
qed

section \<open>Signing\<close>

text \<open>Documented behaviour of the curve library for valid secret keys.\<close>

definition signer_ok :: "frame_env \<Rightarrow> bool" where
  "signer_ok env \<longleftrightarrow>
     (\<forall>k. secret_key_ok env k \<longrightarrow>
        length (pubkey_of (fe_btc env) k) = 33 \<and> pubkey_from_slice (fe_btc env) (pubkey_of (fe_btc env) k) = Some (pubkey_of (fe_btc env) k) \<and>
        (\<forall>dg. sig_ok env (sign_ecdsa (fe_btc env) k dg) \<and> verify_ecdsa (fe_btc env) dg (sign_ecdsa (fe_btc env) k dg) (pubkey_of (fe_btc env) k)))"

lemma sign_parts_ok:
  assumes "signer_ok env" "secret_key_ok env identity" "case origin_key of None \<Rightarrow> True | Some k \<Rightarrow> secret_key_ok env k"
    and "sign_parts env kind payload identity origin_key = Inr f"
  shows "frame_ok env f \<and> fr_kind f = kind \<and> fr_payload f = payload \<and> fr_sender f = pubkey_of (fe_btc env) identity \<and>
    (case origin_key of None \<Rightarrow> fr_origin f = None | Some k \<Rightarrow> verify_origin_signature env f (pubkey_of (fe_btc env) k) = Inr ())"
  using assms
  by (auto simp: sign_parts_def signer_ok_def frame_ok_def verify_origin_signature_def Let_def split: if_splits option.splits)

section \<open>A concrete relay environment\<close>

definition demo_relay :: frame_env where
  "demo_relay = \<lparr>fe_btc = demo_env, fe_sponge = zero_sponge, ser_der = (\<lambda>s. replicate 8 0 @ take 64 s), from_der = (\<lambda>bs. Some (drop 8 bs)),
     secret_key_ok = (\<lambda>k. 32 \<le> length k)\<rparr>"

lemma demo_relay_signs: "signer_ok demo_relay" "env_ok (fe_btc demo_relay)"
proof -
  show "signer_ok demo_relay" by (auto simp: signer_ok_def demo_relay_def sig_ok_def demo_env_def)
  show "env_ok (fe_btc demo_relay)" using demo_env_ok by (simp add: demo_relay_def)
qed

definition demo_frame :: "message_kind \<Rightarrow> bytes \<Rightarrow> signed_frame" where
  "demo_frame kind payload =
     \<lparr>fr_kind = kind, fr_sender = replicate 33 2, fr_payload = payload,
      fr_origin = (if kind = KProposal \<or> kind = KCommitment then Some [] else None), fr_signature = []\<rparr>"

lemma demo_frame_ok: "length payload \<le> MAX_PAYLOAD_BYTES \<Longrightarrow> frame_ok demo_relay (demo_frame kind payload)"
  by (simp add: frame_ok_def demo_frame_def demo_relay_def sig_ok_def demo_env_def)

section \<open>Properties\<close>

text \<open>
  Claim C38. The frame codec of the relay is exact. The parser returns a frame for some bytes if and only if the bytes are
  the canonical encoding of that frame and the frame is well formed: the payload is within its bound, the sender is a
  valid key, the signatures are low-S and have canonical encodings, and the relay signature of the sender covers the
  kind, the payload and the origin authorization.
\<close>

theorem frame_wire_iff:
  assumes "env_ok (fe_btc env)"
  shows "frame_from_wire env wire = Inr f \<longleftrightarrow> frame_ok env f \<and> wire = frame_to_wire env f"
  using frame_from_wire_Inr [OF assms] frame_read_back by blast

theorem frame_wire_iff_witness:
  "frame_from_wire demo_relay (frame_to_wire demo_relay (demo_frame KCommitment [1, 2, 3])) = Inr (demo_frame KCommitment [1, 2, 3])"
  using frame_wire_iff [OF demo_relay_signs(2)] demo_frame_ok [of "[1, 2, 3]" KCommitment] by (simp add: MAX_PAYLOAD_BYTES_def)

end
