(* ===== verification/Gossip_Session_Proofs.thy ===== *)
theory Gossip_Session_Proofs
  imports Gossip_Ops Gossip_Frame_Proofs "HOL-Library.Multiset"
begin

text \<open>
  The durable session: what is on disk determines the session. An invariant ties the index in memory to the files, every
  operation without write faults preserves it, and reopening a directory gives the session back.
\<close>

section \<open>Relations kept by a computation\<close>

definition keeps :: "('s \<Rightarrow> 's \<Rightarrow> bool) \<Rightarrow> ('s, 'e, 'a) stateful \<Rightarrow> bool" where
  "keeps R m \<longleftrightarrow> (\<forall>s r t. m s = (r, t) \<longrightarrow> R s t)"

definition preorder_rel :: "('s \<Rightarrow> 's \<Rightarrow> bool) \<Rightarrow> bool" where
  "preorder_rel R \<longleftrightarrow> reflp R \<and> transp R"

lemma keeps_pure: "preorder_rel R \<Longrightarrow> keeps R (query_st f)" "preorder_rel R \<Longrightarrow> keeps R (result_st r)" "preorder_rel R \<Longrightarrow> keeps R (return_st x)"
  by (auto simp: keeps_def preorder_rel_def stateful_defs reflp_def)

lemma keeps_bind:
  assumes "preorder_rel R" "keeps R m" "\<And>x. keeps R (f x)"
  shows "keeps R (bind_st m f)"
  unfolding keeps_def
proof (intro allI impI)
  fix s r u
  assume "bind_st m f s = (r, u)"
  then show "R s u" using assms unfolding bind_st_eq keeps_def preorder_rel_def by (metis transpE)
qed

lemma preorder_invariant: "preorder_rel (\<lambda>s t. I s \<longrightarrow> I t)"
  by (auto simp: preorder_rel_def reflp_def transp_def)

lemma preorder_eq: "preorder_rel (\<lambda>s t. g s = g t)"
  by (auto simp: preorder_rel_def reflp_def transp_def)

section \<open>Writes\<close>

lemma atomic_put_cases:
  assumes "atomic_put upd d = (r, d')"
  obtains fs where "r = Inr ()" "d' = upd (d\<lparr>sd_faults := fs\<rparr>)"
  | fs e where "r = Inl e" "d' = d\<lparr>sd_faults := fs\<rparr>"
  | fs e where "r = Inl e" "d' = upd (d\<lparr>sd_faults := fs\<rparr>)"
proof (cases "sd_faults d")
  case Nil
  then have "upd (d\<lparr>sd_faults := []\<rparr>) = upd d" by (intro arg_cong [of _ _ upd]) simp
  moreover have "r = Inr ()" "d' = upd d" using assms Nil by (simp_all add: atomic_put_def)
  ultimately show ?thesis using that(1) by metis
next
  case (Cons w ws)
  then show ?thesis using assms that by (cases w) (auto simp: atomic_put_def Let_def)
qed

lemma disk_eq: "disk m s = (r, t) \<longleftrightarrow> (\<exists>d. m (se_dir s) = (r, d) \<and> t = s\<lparr>se_dir := d\<rparr>)"
  by (auto simp: disk_def split: prod.splits)

lemma disk_put_ok [simp]: "sd_faults (se_dir s) = [] \<Longrightarrow> disk (atomic_put upd) s = (Inr (), s\<lparr>se_dir := upd (se_dir s)\<rparr>)"
  by (simp add: disk_def atomic_put_def)

text \<open>A write touches the directory by its update only, and a failed one not at all.\<close>

lemma keeps_put:
  assumes "\<And>s fs. R s (s\<lparr>se_dir := (se_dir s)\<lparr>sd_faults := fs\<rparr>\<rparr>)" "\<And>s fs. R s (s\<lparr>se_dir := upd ((se_dir s)\<lparr>sd_faults := fs\<rparr>)\<rparr>)"
  shows "keeps R (disk (atomic_put upd))"
  unfolding keeps_def disk_eq
proof (intro allI impI, elim exE conjE)
  fix s t :: session and r d
  assume p: "atomic_put upd (se_dir s) = (r, d)" and t: "t = s\<lparr>se_dir := d\<rparr>"
  show "R s t" unfolding t using p by (rule atomic_put_cases) (simp_all add: assms)
qed

lemma keeps_semantic_write:
  assumes "preorder_rel R" "keeps R (disk (atomic_put upd))"
  shows "keeps R (semantic_write look upd bs)"
  using assms by (auto simp: keeps_def semantic_write_def preorder_rel_def reflp_def split: option.splits)

lemma keeps_append_event:
  assumes R: "preorder_rel R" and "\<And>g. keeps R (disk (atomic_put (\<lambda>d. d\<lparr>sd_events := g d\<rparr>)))"
    "\<And>log. keeps R (disk (atomic_put (\<lambda>d. d\<lparr>sd_events := None, sd_events_1 := Some log\<rparr>)))"
  shows "keeps R (append_event ev)"
proof -
  have "keeps R (\<lambda>s. case sd_events (se_dir s) of
       Some log \<Rightarrow> if length log \<ge> unat (max_event_bytes (se_relay_policy s)) then disk (atomic_put (\<lambda>d. d\<lparr>sd_events := None, sd_events_1 := Some log\<rparr>)) s
         else (Inr (), s) | None \<Rightarrow> (Inr (), s))" (is "keeps R ?rotate")
    using assms(3) R by (auto simp: keeps_def preorder_rel_def reflp_def split: option.splits)
  then have "keeps R (bind_st ?rotate (\<lambda>_. disk (atomic_put (\<lambda>d. d\<lparr>sd_events :=
             Some ((case sd_events d of None \<Rightarrow> [] | Some log \<Rightarrow> log) @ as_bytes ev @ [10])\<rparr>))))"
    by (intro keeps_bind R assms(2))
  then show ?thesis using R by (auto simp: keeps_def append_event_def preorder_rel_def reflp_def)
qed

section \<open>Directories of encoded values\<close>

lemma btree_insert_map:
  assumes "g y \<notin> g ` set xs"
  obtains ys where "btree_insert (g y) (h y) (map (\<lambda>x. (g x, h x)) xs) = map (\<lambda>x. (g x, h x)) ys" "mset ys = add_mset y (mset xs)"
proof -
  have "\<exists>ys. btree_insert (g y) (h y) (map (\<lambda>x. (g x, h x)) xs) = map (\<lambda>x. (g x, h x)) ys \<and> mset ys = add_mset y (mset xs)"
    using assms
  proof (induction xs)
    case Nil
    show ?case by (intro exI [of _ "[y]"]) simp
  next
    case (Cons x xs)
    show ?case
    proof (cases "g y < g x")
      case True
      then show ?thesis by (intro exI [of _ "y # x # xs"]) simp
    next
      case False
      from Cons obtain ys where "btree_insert (g y) (h y) (map (\<lambda>x. (g x, h x)) xs) = map (\<lambda>x. (g x, h x)) ys" "mset ys = add_mset y (mset xs)"
        by auto
      with False Cons.prems show ?thesis by (intro exI [of _ "x # ys"]) auto
    qed
  qed
  with that show ?thesis by blast
qed

lemma map_of_encoded: "map_of (map (\<lambda>x. (g x, h x)) xs) k = None \<longleftrightarrow> k \<notin> g ` set xs"
  by (induction xs) auto

lemma has_extension_append: "x \<noteq> [] \<Longrightarrow> has_extension ext (x @ lit (CHR ''.'' # ext))"
  by (simp add: has_extension_def lit_def)

lemma to_hex_nonempty: "bs \<noteq> [] \<Longrightarrow> to_hex bs \<noteq> []"
  by (cases bs) (simp_all add: to_hex_def)

definition commitment_file :: "frame_env \<Rightarrow> participant_commitment \<Rightarrow> ustring \<times> bytes" where
  "commitment_file env c = (commitment_name env c, commitment_wire_bytes (fe_btc env) c)"

definition frame_file :: "frame_env \<Rightarrow> signed_frame \<Rightarrow> ustring \<times> bytes" where
  "frame_file env f = (frame_name env f, frame_to_wire env f)"

lemma file_names:
  "map_of (map (frame_file env) fs) k = None \<longleftrightarrow> k \<notin> frame_name env ` set fs"
  "map_of (map (commitment_file env) cs) k = None \<longleftrightarrow> k \<notin> commitment_name env ` set cs"
  by (simp_all add: frame_file_def [abs_def] commitment_file_def [abs_def] map_of_encoded)

lemma sha_nonempty: "env_ok env \<Longrightarrow> sha256 env m \<noteq> []"
  by (auto simp: env_ok_def dest: spec [of _ m])

lemma listed_files:
  assumes "env_ok (fe_btc env)"
  shows "read_paths_with_extension ''bin'' (map (commitment_file env) cs) = map (commitment_file env) cs"
    "read_paths_with_extension ''frame'' (map (frame_file env) fs) = map (frame_file env) fs"
proof -
  have "has_extension ''bin'' (commitment_name env c)" for c
    unfolding commitment_name_def
    using has_extension_append [OF to_hex_nonempty, of "commitment_id (fe_btc env) c" "''bin''"] sha_nonempty [OF assms] by (simp add: commitment_id_def domain_hash_def)
  then show "read_paths_with_extension ''bin'' (map (commitment_file env) cs) = map (commitment_file env) cs"
    by (simp add: read_paths_with_extension_def commitment_file_def filter_map comp_def)
  have "has_extension ''frame'' (frame_name env f)" for f
    unfolding frame_name_def
    using has_extension_append [OF to_hex_nonempty, of "semantic_frame_id env f" "''frame''"] sha_nonempty [OF assms] by (simp add: semantic_frame_id_def)
  then show "read_paths_with_extension ''frame'' (map (frame_file env) fs) = map (frame_file env) fs"
    by (simp add: read_paths_with_extension_def frame_file_def filter_map comp_def)
qed

section \<open>The invariant\<close>

text \<open>A stored commitment parses back and has its frame; a stored frame is authentic and authorized by the key it names.\<close>

definition commitment_stored :: "frame_env \<Rightarrow> proposal option \<Rightarrow> signed_frame list \<Rightarrow> participant_commitment \<Rightarrow> bool" where
  "commitment_stored env prop fs c \<longleftrightarrow>
     (\<exists>p. prop = Some p \<and> commitment_from_wire (fe_btc env) p (commitment_wire_bytes (fe_btc env) c) = Inr c) \<and>
     (\<exists>f \<in> set fs. fr_kind f = KCommitment \<and> fr_payload f = commitment_wire_bytes (fe_btc env) c)"

definition frame_stored :: "frame_env \<Rightarrow> participant_commitment list \<Rightarrow> signed_frame \<Rightarrow> bool" where
  "frame_stored env cs f \<longleftrightarrow> frame_ok env f \<and>
     (case fr_kind f of
        KProposal \<Rightarrow> \<exists>p. proposal_from_wire (fe_btc env) (fr_payload f) = Inr p \<and> verify_origin_signature env f (stock_owner_pubkey p) = Inr ()
      | KCommitment \<Rightarrow> \<exists>c \<in> set cs. fr_payload f = commitment_wire_bytes (fe_btc env) c \<and> verify_origin_signature env f (fee_pubkey c) = Inr ()
      | _ \<Rightarrow> fr_origin f = None)"

definition apart :: "participant_commitment list \<Rightarrow> bool" where
  "apart cs \<longleftrightarrow> distinct cs \<and> (\<forall>a \<in> set cs. \<forall>b \<in> set cs. a \<noteq> b \<longrightarrow> \<not> conflicts a b)"

definition commitment_frames :: "signed_frame list \<Rightarrow> signed_frame list" where
  "commitment_frames fs = filter (\<lambda>f. fr_kind f = KCommitment) fs"

definition frame_bytes :: "frame_env \<Rightarrow> signed_frame list \<Rightarrow> nat" where
  "frame_bytes env fs = sum_list (map (\<lambda>f. length (frame_to_wire env f)) fs)"

definition proposal_cap :: "relay_policy \<Rightarrow> proposal option \<Rightarrow> nat" where
  "proposal_cap rp prop = (case prop of None \<Rightarrow> 0 | Some p \<Rightarrow> commitment_cap rp p)"

definition indexed :: "frame_env \<Rightarrow> session \<Rightarrow> proposal option \<Rightarrow> participant_commitment list \<Rightarrow> signed_frame list \<Rightarrow> bool" where
  "indexed env s prop cs fs \<longleftrightarrow>
     stored_proposal env (se_dir s) = Inr prop \<and>
     sd_commitments (se_dir s) = map (commitment_file env) cs \<and> mset cs = mset (se_commitments s) \<and>
     sd_frames (se_dir s) = map (frame_file env) fs \<and>
     list_all (commitment_stored env prop fs) cs \<and> apart cs \<and> length cs \<le> proposal_cap (se_relay_policy s) prop \<and>
     list_all (frame_stored env cs) fs \<and> distinct (map fr_sender (commitment_frames fs)) \<and>
     se_senders s = fr_sender ` set (commitment_frames fs) \<and>
     unat (se_stored s) = frame_bytes env fs \<and> se_stored s \<le> max_session_bytes (se_relay_policy s)"

definition session_inv :: "frame_env \<Rightarrow> session \<Rightarrow> bool" where
  "session_inv env s \<longleftrightarrow> (\<exists>prop cs fs. indexed env s prop cs fs)"

section \<open>Reconstruction\<close>

lemma frame_ok_length: "frame_ok env f \<Longrightarrow> length (frame_to_wire env f) \<le> MAX_FRAME_BYTES"
  by (auto simp: frame_to_wire_layout length_frame_head frame_ok_def sig_ok_def origin_bytes_def MAX_FRAME_BYTES_def split: option.splits)

lemma conflicts_sym: "conflicts a b \<longleftrightarrow> conflicts b a"
  by (auto simp: conflicts_def)

lemma conflicts_refl [simp]: "conflicts a a"
  by (simp add: conflicts_def)

lemma rebuild_commitments_ok:
  assumes "list_all (\<lambda>c. length (commitment_wire_bytes (fe_btc env) c) \<le> MAX_PAYLOAD_BYTES \<and>
      (\<exists>p. prop = Some p \<and> commitment_from_wire (fe_btc env) p (commitment_wire_bytes (fe_btc env) c) = Inr c)) cs"
    and "apart (acc @ cs)"
  shows "rebuild_commitments env prop acc (map (commitment_file env) cs) = Inr (acc @ cs)"
  using assms
proof (induction cs arbitrary: acc)
  case (Cons c cs)
  have no: "\<not> list_ex (\<lambda>e. conflicts e c) acc" using Cons.prems(2) by (auto simp: apart_def list_ex_iff)
  have "rebuild_commitments env prop (acc @ [c]) (map (commitment_file env) cs) = Inr ((acc @ [c]) @ cs)"
    using Cons.prems by (intro Cons.IH) simp_all
  with Cons.prems(1) no show ?case by (auto simp: commitment_file_def [of env c] read_limited_def batch_error_def)
qed simp

text \<open>The identifiers a frame authorizes.\<close>

definition frame_ids :: "frame_env \<Rightarrow> proposal option \<Rightarrow> signed_frame \<Rightarrow> bytes set" where
  "frame_ids env prop f =
     {commitment_id (fe_btc env) c | p c. prop = Some p \<and> commitment_from_wire (fe_btc env) p (fr_payload f) = Inr c}"

lemma index_frame_ok:
  assumes "frame_stored env cs f" "list_all (commitment_stored env prop fs) cs"
    and "fr_kind f = KCommitment \<longrightarrow> fr_sender f \<notin> fx_senders x"
  shows "index_frame env prop f x =
     Inr (if fr_kind f = KCommitment then x\<lparr>fx_senders := insert (fr_sender f) (fx_senders x), fx_authorized := frame_ids env prop f \<union> fx_authorized x\<rparr> else x)"
proof (cases "fr_kind f")
  case KCommitment
  with assms(1) obtain c where c: "c \<in> set cs" "fr_payload f = commitment_wire_bytes (fe_btc env) c" "verify_origin_signature env f (fee_pubkey c) = Inr ()"
    by (auto simp: frame_stored_def)
  with assms(2) obtain p where p: "prop = Some p" "commitment_from_wire (fe_btc env) p (commitment_wire_bytes (fe_btc env) c) = Inr c"
    by (auto simp: commitment_stored_def list_all_iff)
  then have "frame_ids env prop f = {commitment_id (fe_btc env) c}" by (auto simp: frame_ids_def c)
  with KCommitment c p assms(3) show ?thesis by (simp add: index_frame_def batch_error_def)
qed (use assms(1) in \<open>auto simp: index_frame_def frame_stored_def batch_error_def\<close>)

lemma rebuild_frames_ok:
  assumes "env_ok (fe_btc env)" "list_all (frame_stored env cs) fs" "list_all (commitment_stored env prop gs) cs"
    and "distinct (map fr_sender (commitment_frames fs))" "fx_senders x \<inter> fr_sender ` set (commitment_frames fs) = {}"
    and "unat (fx_bytes x) + frame_bytes env fs \<le> unat (max_session_bytes rp)"
  shows "\<exists>b. unat b = unat (fx_bytes x) + frame_bytes env fs \<and> rebuild_frames env prop rp x (map (frame_file env) fs) =
     Inr \<lparr>fx_bytes = b, fx_senders = fx_senders x \<union> fr_sender ` set (commitment_frames fs),
          fx_authorized = fx_authorized x \<union> (\<Union>f \<in> set (commitment_frames fs). frame_ids env prop f)\<rparr>"
  using assms
proof (induction fs arbitrary: x)
  case Nil
  show ?case by (intro exI [of _ "fx_bytes x"]) (simp add: frame_bytes_def commitment_frames_def)
next
  case (Cons f fs)
  let ?n = "length (frame_to_wire env f)"
  have f: "frame_stored env cs f" "frame_ok env f" using Cons.prems(2) by (simp_all add: frame_stored_def)
  have fit: "unat (fx_bytes x) + ?n \<le> unat (max_session_bytes rp)" using Cons.prems(6) by (simp add: frame_bytes_def)
  then have lt: "unat (fx_bytes x) + ?n < 2 ^ 64" using unat_bounds(4) [of "max_session_bytes rp"] by linarith
  let ?b = "fx_bytes x + word_of_nat ?n"
  have ub: "unat ?b = unat (fx_bytes x) + ?n" using lt by (simp add: unat_word_ariths unat_of_nat)
  have add: "checked_add (fx_bytes x) (word_of_nat ?n) = Some ?b"
    using lt by (simp add: checked_add_def unat_of_nat)
  let ?x = "x\<lparr>fx_bytes := ?b\<rparr>"
  let ?y = "if fr_kind f = KCommitment then ?x\<lparr>fx_senders := insert (fr_sender f) (fx_senders ?x), fx_authorized := frame_ids env prop f \<union> fx_authorized ?x\<rparr> else ?x"
  have idx: "index_frame env prop f ?x = Inr ?y"
    using Cons.prems(5) by (intro index_frame_ok [OF f(1) Cons.prems(3)]) (auto simp: commitment_frames_def)
  have step: "rebuild_frames env prop rp x (map (frame_file env) (f # fs)) = rebuild_frames env prop rp ?y (map (frame_file env) fs)"
    using add ub fit frame_read_back [OF f(2)] frame_ok_length [OF f(2)] idx
    by (simp add: frame_file_def read_limited_def word_less_nat_alt)
  have yb: "fx_bytes ?y = ?b" by simp
  have "\<exists>b. unat b = unat (fx_bytes ?y) + frame_bytes env fs \<and> rebuild_frames env prop rp ?y (map (frame_file env) fs) =
     Inr \<lparr>fx_bytes = b, fx_senders = fx_senders ?y \<union> fr_sender ` set (commitment_frames fs),
          fx_authorized = fx_authorized ?y \<union> (\<Union>f \<in> set (commitment_frames fs). frame_ids env prop f)\<rparr>"
    using Cons.prems yb ub by (intro Cons.IH) (auto simp: commitment_frames_def frame_bytes_def split: if_splits)
  then show ?case unfolding step yb ub by (auto simp: commitment_frames_def frame_bytes_def Un_assoc split: if_splits)
qed

lemma rebuild_ok:
  assumes env: "env_ok (fe_btc env)" and ix: "indexed env s prop cs fs"
  shows "rebuild_session_index env (se_dir s) (se_relay_policy s) = Inr (cs, se_senders s, se_stored s)"
proof -
  note i = ix [unfolded indexed_def]
  have sized: "length (commitment_wire_bytes (fe_btc env) c) \<le> MAX_PAYLOAD_BYTES" if c: "c \<in> set cs" for c
  proof -
    from i c obtain f where "f \<in> set fs" "fr_payload f = commitment_wire_bytes (fe_btc env) c"
      by (auto simp: list_all_iff commitment_stored_def)
    with i show ?thesis by (auto simp: list_all_iff frame_stored_def frame_ok_def)
  qed
  have "rebuild_commitments env prop [] (map (commitment_file env) cs) = Inr ([] @ cs)"
    using i sized by (intro rebuild_commitments_ok) (auto simp: list_all_iff commitment_stored_def)
  moreover have "\<exists>b. unat b = 0 + frame_bytes env fs \<and> rebuild_frames env prop (se_relay_policy s) \<lparr>fx_bytes = 0, fx_senders = {}, fx_authorized = {}\<rparr> (map (frame_file env) fs) =
     Inr \<lparr>fx_bytes = b, fx_senders = {} \<union> fr_sender ` set (commitment_frames fs),
          fx_authorized = {} \<union> (\<Union>f \<in> set (commitment_frames fs). frame_ids env prop f)\<rparr>"
    using rebuild_frames_ok [OF env, of cs fs "prop" fs "\<lparr>fx_bytes = 0, fx_senders = {}, fx_authorized = {}\<rparr>" "se_relay_policy s"] i
    by (simp add: word_le_nat_alt)
  then have "rebuild_frames env prop (se_relay_policy s) \<lparr>fx_bytes = 0, fx_senders = {}, fx_authorized = {}\<rparr> (map (frame_file env) fs) =
     Inr \<lparr>fx_bytes = se_stored s, fx_senders = se_senders s, fx_authorized = (\<Union>f \<in> set (commitment_frames fs). frame_ids env prop f)\<rparr>"
    using i by (auto simp: word_unat_eq_iff)
  moreover have "commitment_id (fe_btc env) c \<in> (\<Union>f \<in> set (commitment_frames fs). frame_ids env prop f)" if "c \<in> set cs" for c
    using i that by (fastforce simp: list_all_iff commitment_stored_def commitment_frames_def frame_ids_def)
  ultimately show ?thesis using i
    by (auto simp: rebuild_session_index_def listed_files [OF env] proposal_cap_def list_ex_iff simp del: rebuild_commitments.simps rebuild_frames.simps)
qed

section \<open>Reopening\<close>

definition files_ok :: "frame_env \<Rightarrow> session \<Rightarrow> bool" where
  "files_ok env s \<longleftrightarrow>
     sd_private (se_dir s) \<and> sd_identity_private (se_dir s) \<and> length (sp_chain_id (se_policy s)) = 32 \<and>
     sd_policy (se_dir s) = Some (encode_policy (se_policy s)) \<and>
     relay_policy_validate (se_relay_policy s) = Inr (se_relay_policy s) \<and>
     sd_relay_policy (se_dir s) = Some (encode_relay_policy (se_relay_policy s)) \<and>
     sd_identity (se_dir s) = Some (se_identity s) \<and> length (se_identity s) = 32 \<and> secret_key_ok env (se_identity s)"

lemma decode_encode_policy: "length (sp_chain_id p) = 32 \<Longrightarrow> decode_policy (encode_policy p) = Inr p"
proof -
  assume l: "length (sp_chain_id p) = 32"
  have "slice 8 40 (encode_policy p) = sp_chain_id p" "slice 40 44 (encode_policy p) = to_le_bytes (current_height p)"
    unfolding encode_policy_def using l slice_mid [of 40 "POLICY_MAGIC @ sp_chain_id p" 44 "to_le_bytes (current_height p)" "[]"]
      slice_mid [of 8 POLICY_MAGIC 40 "sp_chain_id p"] by (simp_all add: POLICY_MAGIC_def)
  with l show ?thesis by (simp add: decode_policy_def) (simp add: encode_policy_def POLICY_MAGIC_def)
qed

lemma decode_encode_relay_policy: "decode_relay_policy (encode_relay_policy p) = relay_policy_validate p"
proof -
  have m: "length RELAY_POLICY_MAGIC = 8" by (simp add: RELAY_POLICY_MAGIC_def)
  let ?a = "to_le_bytes (max_commitments p)" and ?b = "to_le_bytes (max_replacement_epochs p)" and ?c = "to_le_bytes (max_session_bytes p)" and ?d = "to_le_bytes (max_event_bytes p)"
  have "slice 8 12 (encode_relay_policy p) = ?a" unfolding encode_relay_policy_def by (rule slice_mid) (simp_all add: m)
  moreover have "slice 12 16 ((RELAY_POLICY_MAGIC @ ?a) @ ?b @ ?c @ ?d) = ?b" by (rule slice_mid) (simp_all add: m)
  moreover have "slice 16 24 ((RELAY_POLICY_MAGIC @ ?a @ ?b) @ ?c @ ?d) = ?c" by (rule slice_mid) (simp_all add: m)
  moreover have "slice 24 32 ((RELAY_POLICY_MAGIC @ ?a @ ?b @ ?c) @ ?d @ []) = ?d" by (rule slice_mid) (simp_all add: m)
  ultimately have "slice 8 12 (encode_relay_policy p) = ?a" "slice 12 16 (encode_relay_policy p) = ?b" "slice 16 24 (encode_relay_policy p) = ?c"
    "slice 24 32 (encode_relay_policy p) = ?d"
    by (simp_all only: encode_relay_policy_def append_assoc append_Nil2)
  then show ?thesis by (cases p) (simp add: decode_relay_policy_def encode_relay_policy_def m)
qed

lemma open_reads:
  assumes "files_ok env s" "se_dir s = d"
  shows "session_open env d = load_session env (se_policy s) (se_relay_policy s) (se_identity s) d"
proof -
  have l: "length (encode_policy (se_policy s)) = 44" "length (encode_relay_policy (se_relay_policy s)) = 32"
    using assms(1) by (simp_all add: files_ok_def encode_policy_def POLICY_MAGIC_def encode_relay_policy_def RELAY_POLICY_MAGIC_def)
  show ?thesis using assms l
    by (simp add: session_open_def files_ok_def read_limited_def decode_encode_policy decode_encode_relay_policy open_relay_policy_def load_identity_def bind_st_step)
qed

lemma reopen_ok:
  assumes "env_ok (fe_btc env)" "indexed env s prop cs fs" "files_ok env s"
  shows "session_open env (se_dir s) = (Inr (s\<lparr>se_commitments := cs\<rparr>), se_dir s)"
  using open_reads [OF assms(3) refl] rebuild_ok [OF assms(1,2)] by (simp add: load_session_def)

section \<open>Ingestion keeps the invariant\<close>

definition calm :: "session \<Rightarrow> bool" where
  "calm s \<longleftrightarrow> sd_faults (se_dir s) = []"

lemma semantic_write_calm:
  assumes "calm s" "semantic_write look upd bs s = (r, u)"
  shows "(\<exists>e. r = Inl e \<and> u = s) \<or> r = Inr () \<and> (look (se_dir s) = None \<and> u = s\<lparr>se_dir := upd (se_dir s)\<rparr> \<or> look (se_dir s) = Some bs \<and> u = s)"
  using assms by (cases "look (se_dir s)") (auto simp: semantic_write_def calm_def read_limited_def split: if_splits)

text \<open>What the invariant reads of a session.\<close>

definition index_part :: "session \<Rightarrow> bytes option \<times> directory \<times> directory \<times> participant_commitment list \<times> bytes set \<times> u64 \<times> relay_policy" where
  "index_part s = (sd_proposal (se_dir s), sd_commitments (se_dir s), sd_frames (se_dir s), se_commitments s, se_senders s, se_stored s, se_relay_policy s)"

lemma indexed_cong: "index_part s = index_part t \<Longrightarrow> indexed env s prop cs fs = indexed env t prop cs fs"
  by (simp add: index_part_def indexed_def stored_proposal_def)

lemma load_stored_proposal:
  assumes "load_proposal env s = Inr q"
  shows "stored_proposal env (se_dir s) = Inr q"
  using assms unfolding load_proposal_def stored_proposal_def by (auto simp: and_then_Inr split: option.splits)

lemma need_stored_proposal: "need_proposal env msg s = Inr p \<Longrightarrow> stored_proposal env (se_dir s) = Inr (Some p)"
  by (auto simp: need_proposal_def and_then_Inr dest: load_stored_proposal)

lemma persist_proposal_calm:
  assumes "calm s" "persist_proposal env payload s = (Inr (), u)"
  shows "(\<exists>p. proposal_from_wire (fe_btc env) payload = Inr p) \<and>
    (sd_proposal (se_dir s) = None \<and> u = s\<lparr>se_dir := (se_dir s)\<lparr>sd_proposal := Some payload\<rparr>\<rparr> \<or> sd_proposal (se_dir s) = Some payload \<and> u = s)"
  using assms(2) unfolding persist_proposal_def
  by (auto simp: batch_error_def split: sum.splits dest!: semantic_write_calm [OF assms(1)])

lemma persist_commitment_calm:
  assumes "calm s" "persist_commitment env sender payload s = (Inr (), u)"
  obtains p c t where "stored_proposal env (se_dir s) = Inr (Some p)" "commitment_from_wire (fe_btc env) p payload = Inr c"
    "map_of (sd_commitments (se_dir s)) (commitment_name env c) = None \<and>
       t = s\<lparr>se_dir := (se_dir s)\<lparr>sd_commitments := btree_insert (commitment_name env c) payload (sd_commitments (se_dir s))\<rparr>\<rparr> \<or>
     map_of (sd_commitments (se_dir s)) (commitment_name env c) = Some payload \<and> t = s"
    "u = (if list_ex (\<lambda>e. commitment_id (fe_btc env) e = commitment_id (fe_btc env) c) (se_commitments t) then t
        else t\<lparr>se_commitments := se_commitments t @ [c], se_senders := insert sender (se_senders t)\<rparr>)"
proof -
  obtain p c where pc: "need_proposal env ''commitment arrived before proposal'' s = Inr p" "commitment_from_wire (fe_btc env) p payload = Inr c"
    using assms(2) unfolding persist_commitment_def by (auto simp: batch_error_def split: sum.splits)
  obtain t where w: "semantic_write (\<lambda>d. map_of (sd_commitments d) (commitment_name env c))
       (\<lambda>d. d\<lparr>sd_commitments := btree_insert (commitment_name env c) payload (sd_commitments d)\<rparr>) payload s = (Inr (), t)"
    and u: "u = (if list_ex (\<lambda>e. commitment_id (fe_btc env) e = commitment_id (fe_btc env) c) (se_commitments t) then t
        else t\<lparr>se_commitments := se_commitments t @ [c], se_senders := insert sender (se_senders t)\<rparr>)"
    using assms(2) pc unfolding persist_commitment_def by (auto simp: batch_error_def bind_st_Inr modify_st_def Let_def)
  from semantic_write_calm [OF assms(1) w] that [OF need_stored_proposal [OF pc(1)] pc(2) _ u] show ?thesis by auto
qed

lemma persist_other_calm:
  assumes "calm s" "persist_manifest env payload s = (Inr (), u) \<or> persist_signature env payload s = (Inr (), u)"
  shows "index_part u = index_part s \<and> calm u"
  using assms unfolding persist_manifest_def persist_signature_def
  by (auto simp: index_part_def calm_def Let_def split: sum.splits dest!: semantic_write_calm [OF assms(1)])

lemma apart_add:
  assumes "apart cs" "mset cs' = add_mset c (mset cs)" "\<not> list_ex (\<lambda>e. conflicts e c) cs"
  shows "apart cs'"
proof -
  have s: "set cs' = insert c (set cs)" using arg_cong [OF assms(2), of set_mset] by simp
  have n: "c \<notin> set cs" using assms(3) by (auto simp: list_ex_iff)
  have "distinct cs'" using assms(1,2) n by (metis apart_def distinct.simps(2) mset.simps(2) mset_eq_imp_distinct_iff)
  then show ?thesis using assms(1,3) s by (auto simp: apart_def list_ex_iff conflicts_sym)
qed

lemma stored_mono:
  "frame_stored env cs f \<Longrightarrow> set cs \<subseteq> set cs' \<Longrightarrow> frame_stored env cs' f"
  "commitment_stored env prop fs c \<Longrightarrow> set fs \<subseteq> set fs' \<Longrightarrow> commitment_stored env prop fs' c"
  by (auto simp: frame_stored_def commitment_stored_def split: message_kind.splits)

text \<open>The state after the body of a new frame is stored: the frame joins its directory and the counter.\<close>

definition with_frame :: "frame_env \<Rightarrow> signed_frame \<Rightarrow> session \<Rightarrow> session" where
  "with_frame env f u = u\<lparr>se_dir := (se_dir u)\<lparr>sd_frames := btree_insert (frame_name env f) (frame_to_wire env f) (sd_frames (se_dir u))\<rparr>,
     se_stored := se_stored u + word_of_nat (length (frame_to_wire env f))\<rparr>"

lemma indexed_with_frame:
  assumes ix: "indexed env s prop cs fs" and new: "map_of (sd_frames (se_dir s)) (frame_name env f) = None"
    and quota: "checked_add (se_stored s) (word_of_nat (length (frame_to_wire env f))) = Some b" "b \<le> max_session_bytes (se_relay_policy s)"
    and len: "length (frame_to_wire env f) \<le> MAX_FRAME_BYTES"
    and body: "stored_proposal env (se_dir u) = Inr prop'" "sd_commitments (se_dir u) = map (commitment_file env) cs'" "mset cs' = mset (se_commitments u)"
      "list_all (commitment_stored env prop' (f # fs)) cs'" "apart cs'" "length cs' \<le> proposal_cap (se_relay_policy u) prop'" "set cs \<subseteq> set cs'"
      "frame_stored env cs' f"
    and sender: "se_senders u = (if fr_kind f = KCommitment then insert (fr_sender f) (se_senders s) else se_senders s)"
      "fr_kind f = KCommitment \<Longrightarrow> fr_sender f \<notin> se_senders s"
    and same: "sd_frames (se_dir u) = sd_frames (se_dir s)" "se_stored u = se_stored s" "se_relay_policy u = se_relay_policy s"
  shows "session_inv env (with_frame env f u)"
proof -
  note i = ix [unfolded indexed_def]
  have fn: "frame_name env f \<notin> frame_name env ` set fs" using new i by (simp add: file_names)
  then obtain fs' where fs': "btree_insert (frame_name env f) (frame_to_wire env f) (map (frame_file env) fs) = map (frame_file env) fs'" "mset fs' = add_mset f (mset fs)"
    by (rule btree_insert_map [where h = "frame_to_wire env"]) (auto simp: frame_file_def [abs_def])
  have set: "set fs' = insert f (set fs)" using arg_cong [OF fs'(2), of set_mset] by simp
  have cf: "mset (map fr_sender (commitment_frames fs')) =
      (if fr_kind f = KCommitment then add_mset (fr_sender f) (mset (map fr_sender (commitment_frames fs))) else mset (map fr_sender (commitment_frames fs)))"
    using fs'(2) by (simp add: commitment_frames_def)
  have bytes: "frame_bytes env fs' = frame_bytes env fs + length (frame_to_wire env f)"
  proof -
    have "sum_mset (image_mset (\<lambda>f. length (frame_to_wire env f)) (mset fs')) = sum_mset (image_mset (\<lambda>f. length (frame_to_wire env f)) (add_mset f (mset fs)))"
      by (simp only: fs'(2))
    then show ?thesis by (simp add: frame_bytes_def sum_mset_sum_list flip: mset_map)
  qed
  have small: "unat (word_of_nat (length (frame_to_wire env f)) :: u64) = length (frame_to_wire env f)"
    using len by (simp add: unat_of_nat MAX_FRAME_BYTES_def MAX_PAYLOAD_BYTES_def)
  have "b = se_stored s + word_of_nat (length (frame_to_wire env f))" using quota(1) unfolding checked_add_def by (simp split: if_splits)
  moreover have "unat b = unat (se_stored s) + length (frame_to_wire env f)" using quota(1) small by (simp add: checked_add_Some)
  ultimately have b: "b = se_stored s + word_of_nat (length (frame_to_wire env f))" "unat b = unat (se_stored s) + length (frame_to_wire env f)" .
  have dist: "distinct (map fr_sender (commitment_frames fs'))"
  proof -
    have "distinct (map fr_sender (commitment_frames fs')) \<longleftrightarrow>
        distinct (if fr_kind f = KCommitment then fr_sender f # map fr_sender (commitment_frames fs) else map fr_sender (commitment_frames fs))"
      using cf by (intro mset_eq_imp_distinct_iff) simp
    then show ?thesis using i sender(2) by auto
  qed
  have snd: "fr_sender ` set (commitment_frames fs') = se_senders u" using i sender(1) set by (auto simp: commitment_frames_def)
  have "list_all (frame_stored env cs') fs'" using i body(7,8) stored_mono(1) by (auto simp: set list_all_iff)
  moreover have "list_all (commitment_stored env prop' fs') cs'"
    using body(4) stored_mono(2) [of env prop' "f # fs" _ fs'] set by (auto simp: list_all_iff)
  ultimately have "indexed env (with_frame env f u) prop' cs' fs'"
    using i body fs'(1) dist snd bytes b quota(2) same
    by (simp add: indexed_def with_frame_def stored_proposal_def)
  then show ?thesis by (auto simp: session_inv_def)
qed

lemma indexed_prop_Some: "indexed env s prop cs fs \<Longrightarrow> cs \<noteq> [] \<Longrightarrow> prop \<noteq> None"
  by (cases cs) (auto simp: indexed_def commitment_stored_def)

lemma stored_body:
  assumes env: "env_ok (fe_btc env)" and ix: "indexed env s prop cs fs" and c: "c \<in> set cs" and k: "fr_kind f = KCommitment"
    and p: "fr_payload f = commitment_wire_bytes (fe_btc env) c"
  shows "map_of (sd_frames (se_dir s)) (frame_name env f) \<noteq> None"
proof -
  note i = ix [unfolded indexed_def]
  from i c obtain g where g: "g \<in> set fs" "fr_kind g = KCommitment" "fr_payload g = commitment_wire_bytes (fe_btc env) c"
    by (auto simp: list_all_iff commitment_stored_def)
  then have "frame_name env f = frame_name env g" using k p by (simp add: frame_name_def semantic_frame_id_def)
  with g(1) i show ?thesis using file_names(1) [of env fs "frame_name env f"] by auto
qed

lemma ingest_commitment_inv:
  assumes env: "env_ok (fe_btc env)" and ix: "indexed env s prop cs fs" and calm: "calm s" and ok: "frame_ok env f" and k: "fr_kind f = KCommitment"
    and auth: "verify_origin_authorization env f s = Inr ()" and new: "map_of (sd_frames (se_dir s)) (frame_name env f) = None"
    and policy: "enforce_frame_policy env f (length (frame_to_wire env f)) s = Inr ()"
    and body: "persist_commitment env (fr_sender f) (fr_payload f) s = (Inr (), u)"
  shows "session_inv env (with_frame env f u)"
proof -
  note i = ix [unfolded indexed_def]
  obtain p c t where p: "stored_proposal env (se_dir s) = Inr (Some p)" and c: "commitment_from_wire (fe_btc env) p (fr_payload f) = Inr c"
    and t: "map_of (sd_commitments (se_dir s)) (commitment_name env c) = None \<and>
       t = s\<lparr>se_dir := (se_dir s)\<lparr>sd_commitments := btree_insert (commitment_name env c) (fr_payload f) (sd_commitments (se_dir s))\<rparr>\<rparr> \<or>
     map_of (sd_commitments (se_dir s)) (commitment_name env c) = Some (fr_payload f) \<and> t = s"
    and u: "u = (if list_ex (\<lambda>e. commitment_id (fe_btc env) e = commitment_id (fe_btc env) c) (se_commitments t) then t
        else t\<lparr>se_commitments := se_commitments t @ [c], se_senders := insert (fr_sender f) (se_senders t)\<rparr>)"
    by (rule persist_commitment_calm [OF calm body])
  have pr: "prop = Some p" using i p by simp
  have pay: "fr_payload f = commitment_wire_bytes (fe_btc env) c" using commitment_from_wire_Inr [OF env c] by simp
  have notin: "e \<notin> set cs" if "commitment_wire_bytes (fe_btc env) e = fr_payload f" for e
    using stored_body [OF env ix _ k, of e] that new by auto
  have fresh: "map_of (sd_commitments (se_dir s)) (commitment_name env c) = None"
  proof (rule ccontr)
    assume "\<not> ?thesis"
    with t i have "map_of (map (commitment_file env) cs) (commitment_name env c) = Some (fr_payload f)" by auto
    then obtain e where "e \<in> set cs" "commitment_wire_bytes (fe_btc env) e = fr_payload f"
      by (auto dest!: map_of_SomeD simp: commitment_file_def)
    with notin show False by blast
  qed
  then have names: "commitment_name env c \<notin> commitment_name env ` set cs" using i by (simp add: file_names)
  then have ids: "\<not> list_ex (\<lambda>e. commitment_id (fe_btc env) e = commitment_id (fe_btc env) c) (se_commitments s)"
    using mset_eq_setD [of cs "se_commitments s"] i by (auto simp: list_ex_iff commitment_name_def image_iff)
  have t': "t = s\<lparr>se_dir := (se_dir s)\<lparr>sd_commitments := btree_insert (commitment_name env c) (fr_payload f) (sd_commitments (se_dir s))\<rparr>\<rparr>"
    using t fresh by auto
  have u': "u = t\<lparr>se_commitments := se_commitments s @ [c], se_senders := insert (fr_sender f) (se_senders s)\<rparr>"
    unfolding u using ids by (simp add: t')
  obtain cs' where cs': "btree_insert (commitment_name env c) (commitment_wire_bytes (fe_btc env) c) (map (commitment_file env) cs) = map (commitment_file env) cs'" "mset cs' = add_mset c (mset cs)"
    using btree_insert_map [of "commitment_name env" c cs "commitment_wire_bytes (fe_btc env)"] names by (auto simp: commitment_file_def [abs_def])
  have set: "set cs' = insert c (set cs)" using arg_cong [OF cs'(2), of set_mset] by simp
  have need: "need_proposal env ''commitment arrived before proposal'' s = Inr p"
  proof -
    from policy k obtain q where "need_proposal env ''commitment arrived before proposal'' s = Inr q"
      by (auto simp: enforce_frame_policy_def and_then_Inr split: if_splits)
    then show ?thesis using need_stored_proposal p by fastforce
  qed
  obtain b where b: "checked_add (se_stored s) (word_of_nat (length (frame_to_wire env f))) = Some b" "b \<le> max_session_bytes (se_relay_policy s)"
    and cap: "length (se_commitments s) < commitment_cap (se_relay_policy s) p" and snd: "fr_sender f \<notin> se_senders s"
    and apart: "\<not> list_ex (\<lambda>e. conflicts e c) (se_commitments s)"
    using policy ids k c need by (auto simp: enforce_frame_policy_def and_then_Inr batch_error_def split: if_splits)
  have sig: "verify_origin_signature env f (fee_pubkey c) = Inr ()"
    using auth k need c by (simp add: verify_origin_authorization_def batch_error_def)
  show ?thesis
  proof (rule indexed_with_frame [OF ix new b frame_ok_length [OF ok], where prop' = "prop" and cs' = cs'])
    show "stored_proposal env (se_dir u) = Inr prop" using i by (simp add: u' t' stored_proposal_def)
    show "sd_commitments (se_dir u) = map (commitment_file env) cs'" using i cs'(1) pay by (simp add: u' t')
    show "mset cs' = mset (se_commitments u)" using i cs'(2) by (simp add: u')
    show "list_all (commitment_stored env prop (f # fs)) cs'"
      using i stored_mono(2) [of env "prop" fs _ "f # fs"] c pr k pay by (auto simp: set list_all_iff commitment_stored_def)
    have "set cs = set (se_commitments s)" using i by (intro mset_eq_setD) simp
    then show "apart cs'" using i apart by (intro apart_add [OF _ cs'(2)]) (simp_all add: list_ex_iff)
    show "length cs' \<le> proposal_cap (se_relay_policy u) prop"
      using cap arg_cong [OF cs'(2), of size] mset_eq_length [of cs "se_commitments s"] i by (simp add: pr proposal_cap_def u' t')
    show "frame_stored env cs' f" using ok k sig pay by (auto simp: frame_stored_def set)
  qed (use k snd set in \<open>auto simp: u' t'\<close>)
qed

lemma enforce_quota:
  "enforce_frame_policy env f n s = Inr () \<Longrightarrow> \<exists>b. checked_add (se_stored s) (word_of_nat n) = Some b \<and> b \<le> max_session_bytes (se_relay_policy s)"
  by (auto simp: enforce_frame_policy_def and_then_Inr split: if_splits)

lemma ingest_proposal_inv:
  assumes env: "env_ok (fe_btc env)" and ix: "indexed env s prop cs fs" and calm: "calm s" and ok: "frame_ok env f" and k: "fr_kind f = KProposal"
    and auth: "verify_origin_authorization env f s = Inr ()" and new: "map_of (sd_frames (se_dir s)) (frame_name env f) = None"
    and policy: "enforce_frame_policy env f (length (frame_to_wire env f)) s = Inr ()"
    and body: "persist_proposal env (fr_payload f) s = (Inr (), u)"
  shows "session_inv env (with_frame env f u)"
proof -
  note i = ix [unfolded indexed_def]
  obtain b where b: "checked_add (se_stored s) (word_of_nat (length (frame_to_wire env f))) = Some b" "b \<le> max_session_bytes (se_relay_policy s)"
    using enforce_quota [OF policy] by blast
  from auth k obtain p where p: "proposal_from_wire (fe_btc env) (fr_payload f) = Inr p" "require_live_proposal p = Inr ()"
      "verify_origin_signature env f (stock_owner_pubkey p) = Inr ()"
    by (auto simp: verify_origin_authorization_def and_then_Inr batch_error_def)
  have u: "sd_proposal (se_dir s) = None \<and> u = s\<lparr>se_dir := (se_dir s)\<lparr>sd_proposal := Some (fr_payload f)\<rparr>\<rparr> \<or> sd_proposal (se_dir s) = Some (fr_payload f) \<and> u = s"
    using persist_proposal_calm [OF calm body] by simp
  have st: "stored_proposal env (se_dir u) = Inr (Some p)"
    using u p ok by (auto simp: stored_proposal_def read_limited_def batch_error_def frame_ok_def)
  have none: "cs = []" if "sd_proposal (se_dir s) = None"
    using that i indexed_prop_Some [OF ix] by (auto simp: stored_proposal_def)
  have "prop = Some p" if "sd_proposal (se_dir s) \<noteq> None" using that i st u by auto
  then have cs: "cs = [] \<or> prop = Some p" using none by blast
  show ?thesis
  proof (rule indexed_with_frame [OF ix new b frame_ok_length [OF ok] st, where cs' = cs])
    show "list_all (commitment_stored env (Some p) (f # fs)) cs"
      using cs i stored_mono(2) [of env "Some p" fs _ "f # fs"] by (auto simp: list_all_iff)
    show "length cs \<le> proposal_cap (se_relay_policy u) (Some p)" using cs i u by auto
    show "frame_stored env cs f" using ok k p by (auto simp: frame_stored_def)
  qed (use u i k in auto)
qed

lemma ingest_other_inv:
  assumes ix: "indexed env s prop cs fs" and calm: "calm s" and ok: "frame_ok env f" and k: "fr_kind f = KManifest \<or> fr_kind f = KSignature"
    and auth: "verify_origin_authorization env f s = Inr ()" and new: "map_of (sd_frames (se_dir s)) (frame_name env f) = None"
    and policy: "enforce_frame_policy env f (length (frame_to_wire env f)) s = Inr ()"
    and body: "index_part u = index_part s"
  shows "session_inv env (with_frame env f u)"
proof -
  note i = ix [unfolded indexed_def]
  obtain b where b: "checked_add (se_stored s) (word_of_nat (length (frame_to_wire env f))) = Some b" "b \<le> max_session_bytes (se_relay_policy s)"
    using enforce_quota [OF policy] by blast
  have "fr_origin f = None" using auth k by (auto simp: verify_origin_authorization_def split: if_splits)
  then have fst: "frame_stored env cs f" using ok k by (auto simp: frame_stored_def)
  have st: "stored_proposal env (se_dir u) = Inr prop" using i body by (simp add: stored_proposal_def index_part_def)
  show ?thesis
  proof (rule indexed_with_frame [OF ix new b frame_ok_length [OF ok] st, where cs' = cs])
    show "list_all (commitment_stored env prop (f # fs)) cs"
      using i stored_mono(2) [of env "prop" fs _ "f # fs"] by (auto simp: list_all_iff)
  qed (use body i k fst in \<open>auto simp: index_part_def\<close>)
qed

text \<open>A fault-free session stays so, and an operation that writes elsewhere keeps what the invariant reads.\<close>

definition fixed_part :: "session_dir \<Rightarrow> session_dir" where
  "fixed_part d = d\<lparr>sd_phase := None, sd_events := None, sd_events_1 := None, sd_manifests := [], sd_signatures := [], sd_signed := [], sd_reservations := []\<rparr>"

definition sound :: "frame_env \<Rightarrow> session \<Rightarrow> bool" where
  "sound env s \<longleftrightarrow> calm s \<and> session_inv env s \<and> files_ok env s"

abbreviation keeps_sound :: "frame_env \<Rightarrow> 'a sess \<Rightarrow> bool" where
  "keeps_sound env \<equiv> keeps (\<lambda>s t. sound env s \<longrightarrow> sound env t)"

lemma fixed_part_eqD:
  assumes "fixed_part d = fixed_part e"
  shows "sd_private d = sd_private e" "sd_identity_private d = sd_identity_private e" "sd_policy d = sd_policy e" "sd_relay_policy d = sd_relay_policy e"
    "sd_identity d = sd_identity e" "sd_proposal d = sd_proposal e" "sd_frames d = sd_frames e" "sd_commitments d = sd_commitments e" "sd_faults d = sd_faults e"
proof -
  have "sd_private (fixed_part d) = sd_private (fixed_part e)" "sd_identity_private (fixed_part d) = sd_identity_private (fixed_part e)"
    "sd_policy (fixed_part d) = sd_policy (fixed_part e)" "sd_relay_policy (fixed_part d) = sd_relay_policy (fixed_part e)"
    "sd_identity (fixed_part d) = sd_identity (fixed_part e)" "sd_proposal (fixed_part d) = sd_proposal (fixed_part e)"
    "sd_frames (fixed_part d) = sd_frames (fixed_part e)" "sd_commitments (fixed_part d) = sd_commitments (fixed_part e)" "sd_faults (fixed_part d) = sd_faults (fixed_part e)"
    using assms by simp_all
  then show "sd_private d = sd_private e" "sd_identity_private d = sd_identity_private e" "sd_policy d = sd_policy e" "sd_relay_policy d = sd_relay_policy e"
    "sd_identity d = sd_identity e" "sd_proposal d = sd_proposal e" "sd_frames d = sd_frames e" "sd_commitments d = sd_commitments e" "sd_faults d = sd_faults e"
    by (simp_all add: fixed_part_def)
qed

lemma sound_dir:
  assumes "sound env s" "fixed_part d = fixed_part (se_dir s)"
  shows "sound env (s\<lparr>se_dir := d\<rparr>)"
proof -
  note same = fixed_part_eqD [OF assms(2)]
  have "index_part (s\<lparr>se_dir := d\<rparr>) = index_part s" using same by (simp add: index_part_def)
  then have "indexed env (s\<lparr>se_dir := d\<rparr>) = indexed env s" by (intro ext indexed_cong)
  then have "session_inv env (s\<lparr>se_dir := d\<rparr>) = session_inv env s" by (simp add: session_inv_def)
  then show ?thesis using assms(1) same by (simp add: sound_def calm_def files_ok_def)
qed

lemma keeps_sound_put:
  assumes "\<And>d. fixed_part (upd d) = fixed_part d"
  shows "keeps_sound env (disk (atomic_put upd))"
  unfolding keeps_def
proof (intro allI impI)
  fix s t :: session and r
  assume m: "disk (atomic_put upd) s = (r, t)" and s: "sound env s"
  then have "t = s\<lparr>se_dir := upd (se_dir s)\<rparr>" by (simp add: sound_def calm_def)
  then show "sound env t" using sound_dir [OF s assms] by simp
qed

lemmas sound_pure = keeps_pure [OF preorder_invariant]
lemmas sound_bind = keeps_bind [OF preorder_invariant]

lemma keeps_sound_event: "keeps_sound env (append_event ev)"
  by (intro keeps_append_event preorder_invariant keeps_sound_put) (simp_all add: fixed_part_def)

lemma keeps_sound_phase: "keeps_sound env (persist_phase phase evidence)"
  unfolding persist_phase_def Let_def by (intro sound_bind keeps_sound_event keeps_sound_put) (simp add: fixed_part_def)

lemma keeps_sound_manifest: "keeps_sound env (persist_manifest env payload)"
  unfolding persist_manifest_def Let_def
  by (intro sound_bind sound_pure keeps_semantic_write preorder_invariant keeps_sound_put) (simp add: fixed_part_def)

lemma keeps_sound_signature: "keeps_sound env (persist_signature env payload)"
  unfolding persist_signature_def Let_def
  by (intro sound_bind sound_pure keeps_semantic_write preorder_invariant keeps_sound_put) (simp add: fixed_part_def)

definition base_part :: "session \<Rightarrow> session" where
  "base_part s = s\<lparr>se_dir := fixed_part ((se_dir s)\<lparr>sd_proposal := None, sd_commitments := []\<rparr>), se_commitments := [], se_senders := {}\<rparr>"

lemma base_part_eqD:
  assumes "base_part u = base_part s"
  shows "calm u = calm s" "se_stored u = se_stored s" "files_ok env u = files_ok env s"
proof -
  have "fixed_part ((se_dir u)\<lparr>sd_proposal := None, sd_commitments := []\<rparr>) = fixed_part ((se_dir s)\<lparr>sd_proposal := None, sd_commitments := []\<rparr>)"
    using arg_cong [OF assms, of se_dir] by (simp add: base_part_def)
  note d = fixed_part_eqD [OF this]
  have m: "se_policy u = se_policy s" "se_relay_policy u = se_relay_policy s" "se_identity u = se_identity s" "se_stored u = se_stored s"
    using arg_cong [OF assms, of se_policy] arg_cong [OF assms, of se_relay_policy] arg_cong [OF assms, of se_identity] arg_cong [OF assms, of se_stored]
    by (simp_all add: base_part_def)
  show "calm u = calm s" "se_stored u = se_stored s" "files_ok env u = files_ok env s" using d m by (simp_all add: calm_def files_ok_def)
qed

abbreviation keeps_base :: "'a sess \<Rightarrow> bool" where
  "keeps_base \<equiv> keeps (\<lambda>s t. calm s \<longrightarrow> base_part t = base_part s)"

lemma preorder_base: "preorder_rel (\<lambda>s t. calm s \<longrightarrow> base_part t = base_part s)"
  unfolding preorder_rel_def reflp_def transp_def using base_part_eqD(1) by metis

lemma keeps_base_put: "(\<And>s. base_part (s\<lparr>se_dir := upd (se_dir s)\<rparr>) = base_part s) \<Longrightarrow> keeps_base (disk (atomic_put upd))"
  by (auto simp: keeps_def calm_def)

lemma keeps_base_semantic: "keeps_base (persist_semantic env f)"
proof -
  have "keeps_base (persist_proposal env payload)" for payload
    unfolding persist_proposal_def Let_def
    by (intro keeps_bind keeps_pure keeps_semantic_write preorder_base keeps_base_put) (simp add: base_part_def fixed_part_def)
  moreover have "keeps_base (modify_st g)" if "\<And>s. base_part (g s) = base_part s" for g
    using that by (simp add: keeps_def modify_st_def)
  then have "keeps_base (persist_commitment env sender payload)" for sender payload
    unfolding persist_commitment_def Let_def
    by (intro keeps_bind keeps_pure keeps_semantic_write preorder_base keeps_base_put) (simp_all add: base_part_def fixed_part_def)
  moreover have "keeps_base (persist_manifest env payload)" "keeps_base (persist_signature env payload)" for payload
    unfolding persist_manifest_def persist_signature_def Let_def
    by (intro keeps_bind keeps_pure keeps_semantic_write preorder_base keeps_base_put; simp add: base_part_def fixed_part_def)+
  ultimately show ?thesis unfolding persist_semantic_def by (cases "fr_kind f") simp_all
qed

lemma persist_failed:
  assumes "calm s" "persist_semantic env f s = (Inl e, u)"
  shows "u = s"
proof (cases "fr_kind f")
  case KProposal
  then show ?thesis using assms(2) unfolding persist_semantic_def persist_proposal_def
    by (auto split: sum.splits dest!: semantic_write_calm [OF assms(1)])
next
  case KCommitment
  then show ?thesis using assms(2) unfolding persist_semantic_def persist_commitment_def Let_def
    by (auto simp: bind_st_eq modify_st_def split: sum.splits dest!: semantic_write_calm [OF assms(1)])
next
  case KManifest
  then show ?thesis using assms(2) unfolding persist_semantic_def persist_manifest_def Let_def
    by (auto split: sum.splits dest!: semantic_write_calm [OF assms(1)])
next
  case KSignature
  then show ?thesis using assms(2) unfolding persist_semantic_def persist_signature_def Let_def
    by (auto split: sum.splits dest!: semantic_write_calm [OF assms(1)])
qed

text \<open>After the body: the frame file, the counter and the event.\<close>

lemma ingest_new_cases:
  assumes "calm s" "ingest_new env f (frame_to_wire env f) s = (r, t)"
    and "\<And>u. persist_semantic env f s = (Inr (), u) \<Longrightarrow> calm u \<and> se_stored u = se_stored s"
    and "\<And>e u. persist_semantic env f s = (Inl e, u) \<Longrightarrow> u = s"
  shows "t = s \<or> (\<exists>u ev. enforce_frame_policy env f (length (frame_to_wire env f)) s = Inr () \<and> persist_semantic env f s = (Inr (), u) \<and>
     t = snd (append_event ev (with_frame env f u)))"
proof (cases "enforce_frame_policy env f (length (frame_to_wire env f)) s = Inr () \<and> (\<exists>u. persist_semantic env f s = (Inr (), u))")
  case False
  then show ?thesis using assms(2,4) unfolding ingest_new_def by (auto simp: bind_st_eq query_st_def result_st_def split: sum.splits)
next
  case True
  then obtain u where u: "persist_semantic env f s = (Inr (), u)" by blast
  from True enforce_quota obtain b where "checked_add (se_stored s) (word_of_nat (length (frame_to_wire env f))) = Some b" by blast
  then have b: "checked_add (se_stored u) (word_of_nat (length (frame_to_wire env f))) = Some (se_stored u + word_of_nat (length (frame_to_wire env f)))"
    using assms(3) [OF u] by (auto simp: checked_add_def split: if_splits)
  let ?g = "\<lambda>_. bind_st (append_event (lit ''accepted '' @ kind_name (fr_kind f) @ lit '' '' @ to_hex (frame_id env f) @ lit '' '' @ to_hex (fr_sender f))) (\<lambda>_. return_st Accepted)"
  have tail: "bind_st (disk (atomic_put (\<lambda>d. d\<lparr>sd_frames := btree_insert (frame_name env f) (frame_to_wire env f) (sd_frames d)\<rparr>)))
     (\<lambda>_. bind_st (count_stored (length (frame_to_wire env f))) ?g) u = ?g () (with_frame env f u)"
    using assms(3) [OF u] b by (simp add: bind_st_step count_stored_def calm_def with_frame_def)
  have "snd (?g () v) = snd (append_event (lit ''accepted '' @ kind_name (fr_kind f) @ lit '' '' @ to_hex (frame_id env f) @ lit '' '' @ to_hex (fr_sender f)) v)" for v
    by (auto simp: bind_st_def return_st_def split: prod.splits sum.splits)
  then have "t = s \<or> (\<exists>ev. t = snd (append_event ev (with_frame env f u)))"
    using assms(2) True unfolding ingest_new_def by (auto simp: bind_st_step [of "persist_semantic env f" s "()" u, OF u] tail split: sum.splits option.splits if_splits) (metis snd_conv)+
  with True u show ?thesis by blast
qed

lemma ingest_inv: "env_ok (fe_btc env) \<Longrightarrow> keeps_sound env (ingest env wire)"
  unfolding keeps_def
proof (intro allI impI)
  fix s t :: session and r
  assume env: "env_ok (fe_btc env)" and run: "ingest env wire s = (r, t)" and s: "sound env s"
  then have calm: "calm s" and files: "files_ok env s" by (auto simp: sound_def)
  from s obtain q cs fs where ix: "indexed env s q cs fs" by (auto simp: sound_def session_inv_def)
  show "sound env t"
  proof (cases "\<exists>f. frame_from_wire env wire = Inr f \<and> verify_origin_authorization env f s = Inr () \<and> stored_frame env f s = Inr False")
    case False
    then have "t = s" using run unfolding ingest_def
      by (auto simp: return_st_def split: sum.splits if_splits)
    then show ?thesis using s by simp
  next
    case True
    then obtain f where f: "frame_from_wire env wire = Inr f" "verify_origin_authorization env f s = Inr ()" "stored_frame env f s = Inr False" by blast
    from f(3) have new: "map_of (sd_frames (se_dir s)) (frame_name env f) = None"
      by (auto simp: stored_frame_def and_then_Inr split: option.splits if_splits)
    have ok: "frame_ok env f" and w: "wire = frame_to_wire env f" using frame_from_wire_Inr [OF env f(1)] by auto
    have run': "ingest_new env f (frame_to_wire env f) s = (r, t)" using run f w by (simp add: ingest_def)
    have base: "base_part u = base_part s" if "persist_semantic env f s = (x, u)" for x u
      using keeps_base_semantic [of env f] that calm by (auto simp: keeps_def)
    have "t = s \<or> (\<exists>u ev. enforce_frame_policy env f (length (frame_to_wire env f)) s = Inr () \<and> persist_semantic env f s = (Inr (), u) \<and>
        t = snd (append_event ev (with_frame env f u)))"
      using base base_part_eqD calm persist_failed [OF calm] by (intro ingest_new_cases [OF calm run']) blast+
    then show ?thesis
    proof (elim disjE exE conjE)
      fix u ev
      assume policy: "enforce_frame_policy env f (length (frame_to_wire env f)) s = Inr ()" and body: "persist_semantic env f s = (Inr (), u)"
        and t: "t = snd (append_event ev (with_frame env f u))"
      have "session_inv env (with_frame env f u)"
      proof (cases "fr_kind f = KProposal \<or> fr_kind f = KCommitment")
        case True
        then show ?thesis using body ingest_proposal_inv [OF env ix calm ok _ f(2) new policy] ingest_commitment_inv [OF env ix calm ok _ f(2) new policy]
          by (auto simp: persist_semantic_def)
      next
        case False
        then have k: "fr_kind f = KManifest \<or> fr_kind f = KSignature" by (cases "fr_kind f") auto
        then have "index_part u = index_part s" using body persist_other_calm [OF calm, of env "fr_payload f" u] by (auto simp: persist_semantic_def)
        then show ?thesis by (rule ingest_other_inv [OF ix calm ok k f(2) new policy])
      qed
      moreover have "files_ok env (with_frame env f u)" "calm (with_frame env f u)"
        using base_part_eqD [OF base [OF body]] files calm by (auto simp: files_ok_def with_frame_def calm_def)
      ultimately have "sound env (with_frame env f u)" by (simp add: sound_def)
      then show ?thesis using keeps_sound_event [of env ev] t by (metis keeps_def surjective_pairing)
    qed (use s in simp)
  qed
qed

end
