(* ===== verification/Gossip_Ops_Proofs.thy ===== *)
theory Gossip_Ops_Proofs
  imports Gossip_Session_Proofs
begin

text \<open>
  The life of a session: a step is one call of an operation, whatever it returns and whichever of its writes fail. A
  relation on sessions that the primitive operations keep is kept by every step; it is instantiated with the invariant
  behind reopening, with the finality of a closed session and with the durability of what was stored.
\<close>

section \<open>Steps\<close>

inductive session_step :: "frame_env \<Rightarrow> session \<Rightarrow> session \<Rightarrow> bool" for env where
  ingests: "ingest env wire s = (r, t) \<Longrightarrow> session_step env s t"
| publishes: "publish env kind payload s = (r, t) \<Longrightarrow> session_step env s t"
| publishes_proposal: "publish_proposal env payload stock_key s = (r, t) \<Longrightarrow> session_step env s t"
| publishes_commitment: "publish_commitment env payload fee_key s = (r, t) \<Longrightarrow> session_step env s t"
| publishes_verified: "publish_verified_commitment env clock payload fee_key verified reservation max_age s = (r, t) \<Longrightarrow> session_step env s t"
| authors: "author_manifest env s = (r, t) \<Longrightarrow> session_step env s t"
| replaces: "author_replacement env feerate s = (r, t) \<Longrightarrow> session_step env s t"
| reserves: "reserve_local_input env oid op s = (r, t) \<Longrightarrow> session_step env s t"
| signs: "sign_and_publish env clock mid index key inputs reservation max_age s = (r, t) \<Longrightarrow> session_step env s t"
| marks: "mark_phase env nxt evidence s = (r, t) \<Longrightarrow> list_all is_scalar evidence \<Longrightarrow> session_step env s t"
| finalizes: "finalize_manifest env mid s = (r, t) \<Longrightarrow> session_step env s t"
| finalizes_latest: "finalize_latest env s = (r, t) \<Longrightarrow> session_step env s t"
| refreshes: "refresh_verified_tip clock tip max_age s = (r, t) \<Longrightarrow> session_step env s t"
| relays: "relay_next_with_refresh env shown sent peers (return_st ()) remote stream s = (r, t) \<Longrightarrow> session_step env s t"
| relays_refreshed:
    "relay_next_with_refresh env shown sent peers (refresh_verified_tip clock tip max_age) remote stream s = (r, t) \<Longrightarrow> session_step env s t"

inductive_cases session_stepE: "session_step env s t"

lemma keepsD: "keeps R m \<Longrightarrow> m s = (r, t) \<Longrightarrow> R s t"
  by (auto simp: keeps_def)

locale session_relation =
  fixes env :: frame_env and R :: "session \<Rightarrow> session \<Rightarrow> bool"
  assumes preorder: "preorder_rel R"
    and ingest_keeps: "keeps R (ingest env wire)"
    and event_keeps: "keeps R (append_event ev)"
    and reservation_keeps: "keeps R (persist_reservation env res)"
    and phase_keeps: "list_all is_scalar evidence \<Longrightarrow> keeps R (mark_phase env nxt evidence)"
    and finalize_keeps: "keeps R (finalize_manifest env mid)"
    and refresh_keeps: "keeps R (refresh_verified_tip clock tip max_age)"
begin

lemmas binds = keeps_bind [OF preorder] keeps_pure [OF preorder]

lemma publish_frame_keeps: "keeps R (publish_frame env f)"
  unfolding publish_frame_def Let_def by (intro binds ingest_keeps)

lemma publish_keeps: "keeps R (publish env kind payload)" "keeps R (publish_proposal env payload key)" "keeps R (publish_commitment env payload key)"
  unfolding publish_def publish_proposal_def publish_commitment_def by (intro binds publish_frame_keeps)+

lemma author_keeps: "keeps R (author_manifest env)" "keeps R (author_replacement env feerate)"
  unfolding author_manifest_def author_replacement_def by (intro binds publish_keeps)+

lemma verified_keeps: "keeps R (publish_verified_commitment env clock payload key verified res max_age)"
  unfolding publish_verified_commitment_def by (intro binds publish_keeps)

lemma reserve_keeps: "keeps R (reserve_local_input env oid op)"
proof -
  have "keeps R (case x of Some r \<Rightarrow> return_st r | None \<Rightarrow>
      let r = \<lparr>lr_operation_id = oid, lr_outpoint = op, lr_phase = CommittedUnsigned\<rparr> in bind_st (persist_reservation env r) (\<lambda>_. return_st r))" for x
    by (cases x) (simp_all add: Let_def binds reservation_keeps)
  then show ?thesis unfolding reserve_local_input_def by (intro binds)
qed

lemma sign_keeps: "keeps R (sign_and_publish env clock mid index key inputs res max_age)"
proof -
  have *: "keeps R (case x of (a, b, c, d) \<Rightarrow> f a b c d)" if "\<And>a b c d. keeps R (f a b c d)" for f x
    using that by (cases x) simp
  show ?thesis unfolding sign_and_publish_def by (intro binds publish_keeps reservation_keeps *)
qed

lemma latest_keeps: "keeps R (finalize_latest env)"
proof -
  have "keeps R (if c then result_st (Inl e) else finalize_manifest env mid)" for c e mid by (simp add: binds finalize_keeps)
  then show ?thesis unfolding finalize_latest_def by (intro binds)
qed

lemma stream_keeps: "keeps R (process_stream env sent peers stream)"
proof -
  have *: "keeps R (case x of (a, b) \<Rightarrow> f a b)" if "\<And>a b. keeps R (f a b)" for f x using that by (cases x) simp
  have **: "keeps R (if c then result_st (Inl e) else m)" if "keeps R m" for c e m using that by (simp add: binds)
  show ?thesis unfolding process_stream_def Let_def by (intro binds ingest_keeps * **)
qed

lemma relay_keeps: "keeps R refresh \<Longrightarrow> keeps R (relay_next_with_refresh env shown sent peers refresh remote stream)"
proof -
  assume refresh: "keeps R refresh"
  let ?reject = "\<lambda>e. let reason = bounded_one_line (shown e) 512 in
             bind_st (append_event (lit ''rejected '' @ remote @ lit '' '' @ reason)) (\<lambda>_. return_st (Rejected remote reason))"
  have reject: "keeps R (?reject e)" for e unfolding Let_def by (intro binds event_keeps)
  have trans: "R a b \<Longrightarrow> R b c \<Longrightarrow> R a c" for a b c using preorder by (auto simp: preorder_rel_def dest: transpD)
  have "keeps R (\<lambda>s. case process_stream env sent peers stream s of
         (Inr report, t) \<Rightarrow> (Inr (Processed report), t)
       | (Inl e, t) \<Rightarrow> if e = CliIo \<or> e = CliDecode then (Inl e, t) else ?reject e t)"
    using stream_keeps [of sent peers stream] reject trans unfolding keeps_def
    by (fastforce split: prod.splits sum.splits if_splits)
  then show ?thesis unfolding relay_next_with_refresh_def Let_def by (intro binds refresh) simp
qed

theorem step_keeps: "session_step env s t \<Longrightarrow> R s t"
  by (erule session_stepE)
    (erule keepsD [OF ingest_keeps] keepsD [OF publish_keeps(1)] keepsD [OF publish_keeps(2)] keepsD [OF publish_keeps(3)] keepsD [OF verified_keeps]
      keepsD [OF author_keeps(1)] keepsD [OF author_keeps(2)] keepsD [OF reserve_keeps] keepsD [OF sign_keeps] keepsD [OF phase_keeps, rotated]
      keepsD [OF finalize_keeps] keepsD [OF latest_keeps] keepsD [OF refresh_keeps] keepsD [OF relay_keeps [OF binds(4)]]
      keepsD [OF relay_keeps [OF refresh_keeps]], assumption?)+

theorem run_keeps: "(session_step env)\<^sup>*\<^sup>* s t \<Longrightarrow> R s t"
proof (induction rule: rtranclp_induct)
  case base
  show ?case using preorder by (auto simp: preorder_rel_def dest: reflpD)
next
  case (step t u)
  then show ?case using step_keeps [of t u] preorder by (auto simp: preorder_rel_def dest: transpD)
qed

end

text \<open>What a finalization and a phase change write, for a relation kept by the single writes.\<close>

lemma keeps_if: "keeps R m \<Longrightarrow> keeps R n \<Longrightarrow> keeps R (if c then m else n)"
  by simp

lemma keeps_finalize:
  assumes R: "preorder_rel R" and w: "\<And>k v. keeps R (disk (atomic_put (\<lambda>d. d\<lparr>sd_signed := btree_insert k v (sd_signed d)\<rparr>)))"
    and note_signed: "keeps R (note_signed env mid)"
  shows "keeps R (finalize_manifest env mid)"
proof -
  let ?new = "\<lambda>p m. bind_st (query_st (status env)) (\<lambda>st.
         if rejects_new_protocol_messages (st_phase st) then
           result_st (Inl (CliTransport ''terminal/confirmed session cannot finalize a new manifest''))
         else
           bind_st (query_st (\<lambda>s. load_signatures env m p (se_dir s))) (\<lambda>shares.
           bind_st (result_st (batch_error (finalize_shares (fe_btc env) (fe_sponge env) m p shares))) (\<lambda>tx.
           bind_st (disk (atomic_put (\<lambda>d. d\<lparr>sd_signed := btree_insert (signed_path mid) (ser_tx (fe_btc env) tx) (sd_signed d)\<rparr>))) (\<lambda>_.
           bind_st (note_signed env mid) (\<lambda>_. return_st tx)))))"
  have new: "keeps R (?new p m)" for p m by (intro keeps_bind keeps_pure R keeps_if w note_signed)
  have "keeps R (\<lambda>s. if map_of (sd_signed (se_dir s)) (signed_path mid) \<noteq> None then (signed_transaction env mid s, s) else ?new p m s)" for p m
    using new [where p = p and m = m] R by (auto simp: keeps_def preorder_rel_def reflp_def)
  then show ?thesis unfolding finalize_manifest_def by (intro keeps_bind keeps_pure R)
qed

section \<open>The invariant behind reopening\<close>

lemma keeps_sound_reservation: "keeps_sound env (persist_reservation env res)"
  unfolding persist_reservation_def by (rule keeps_sound_put) (simp add: fixed_part_def)

lemma keeps_sound_mark: "keeps_sound env (mark_phase env nxt evidence)"
  unfolding mark_phase_def by (intro keeps_if sound_bind sound_pure keeps_sound_phase)

lemma keeps_sound_finalize: "keeps_sound env (finalize_manifest env mid)"
proof (rule keeps_finalize [OF preorder_invariant])
  show "keeps_sound env (disk (atomic_put (\<lambda>d. d\<lparr>sd_signed := btree_insert k v (sd_signed d)\<rparr>)))" for k v
    by (rule keeps_sound_put) (simp add: fixed_part_def)
  show "keeps_sound env (note_signed env mid)"
    unfolding note_signed_def by (intro keeps_if sound_bind sound_pure keeps_sound_phase keeps_sound_event)
qed

lemma keeps_sound_refresh: "keeps_sound env (refresh_verified_tip clock tip max_age)"
proof -
  let ?set = "\<lambda>s. s\<lparr>se_policy := (se_policy s)\<lparr>current_height := word_of_nat (vt_height tip)\<rparr>\<rparr>"
  let ?put = "\<lambda>s. disk (atomic_put (\<lambda>d. d\<lparr>sd_policy := Some (encode_policy (se_policy s))\<rparr>)) s"
  have "keeps_sound env (bind_st (modify_st ?set) (\<lambda>_. ?put))"
    unfolding keeps_def
  proof (intro allI impI)
    fix s t :: session and r
    assume run: "bind_st (modify_st ?set) (\<lambda>_. ?put) s = (r, t)" and s: "sound env s"
    let ?t = "s\<lparr>se_policy := (se_policy s)\<lparr>current_height := word_of_nat (vt_height tip)\<rparr>,
        se_dir := (se_dir s)\<lparr>sd_policy := Some (encode_policy ((se_policy s)\<lparr>current_height := word_of_nat (vt_height tip)\<rparr>))\<rparr>\<rparr>"
    have t: "t = ?t" using run s by (simp add: sound_def calm_def)
    have "indexed env ?t = indexed env s" by (intro ext indexed_cong) (simp add: index_part_def)
    then show "sound env t" using s unfolding t by (simp add: sound_def calm_def session_inv_def files_ok_def)
  qed
  then have whole: "keeps_sound env (bind_st (bind_st (modify_st ?set) (\<lambda>_. ?put)) (\<lambda>_. append_event ev))" for ev
    by (rule sound_bind [OF _ keeps_sound_event])
  have eq: "bind_st (modify_st ?set) (\<lambda>_. bind_st ?put g) = bind_st (bind_st (modify_st ?set) (\<lambda>_. ?put)) g" for g
    by (rule ext) (simp add: bind_st_def modify_st_def)
  show ?thesis unfolding refresh_verified_tip_def
    by (rule sound_bind [OF sound_pure(2)], rule sound_bind [OF sound_pure(1)], subst eq, rule whole)
qed

text \<open>In an environment that behaves as documented, every step keeps the invariant.\<close>

abbreviation sound_if :: "frame_env \<Rightarrow> session \<Rightarrow> bool" where
  "sound_if env s \<equiv> env_ok (fe_btc env) \<longrightarrow> sound env s"

lemma keeps_sound_if: "(env_ok (fe_btc env) \<Longrightarrow> keeps_sound env m) \<Longrightarrow> keeps (\<lambda>s t. sound_if env s \<longrightarrow> sound_if env t) m"
  by (auto simp: keeps_def)

interpretation sound_session: session_relation env "\<lambda>s t. sound_if env s \<longrightarrow> sound_if env t" for env
  by unfold_locales
    (intro preorder_invariant keeps_sound_if ingest_inv keeps_sound_event keeps_sound_reservation keeps_sound_mark keeps_sound_finalize
      keeps_sound_refresh; assumption)+

text \<open>A directory that does not exist yet.\<close>

definition empty_dir :: session_dir where
  "empty_dir = \<lparr>sd_private = False, sd_identity_private = False, sd_policy = None, sd_relay_policy = None, sd_identity = None, sd_proposal = None,
     sd_phase = None, sd_events = None, sd_events_1 = None, sd_frames = [], sd_commitments = [], sd_manifests = [], sd_signatures = [],
     sd_signed = [], sd_reservations = [], sd_faults = []\<rparr>"

lemma init_sound:
  assumes "init_with_relay_policy env drawn policy rp empty_dir = (Inr s, d)" "length (sp_chain_id policy) = 32" "length drawn = 32" "secret_key_ok env drawn"
  shows "sound env s \<and> se_dir s = d"
proof -
  have rp: "relay_policy_validate rp = Inr rp"
    using assms(1) by (auto simp: init_with_relay_policy_def relay_policy_validate_def split: sum.splits if_splits)
  let ?d = "empty_dir\<lparr>sd_private := True, sd_policy := Some (encode_policy policy), sd_relay_policy := Some (encode_relay_policy rp),
      sd_identity := Some drawn, sd_identity_private := True\<rparr>"
  let ?s = "\<lparr>se_dir = ?d, se_policy = policy, se_relay_policy = rp, se_identity = drawn, se_commitments = [], se_senders = {}, se_stored = 0\<rparr>"
  have "init_with_relay_policy env drawn policy rp empty_dir = load_session env policy rp drawn ?d"
    using rp by (simp add: init_with_relay_policy_def bind_st_step pin_file_def atomic_put_def load_or_create_identity_def return_st_def empty_dir_def)
  also have "\<dots> = (Inr ?s, ?d)"
    by (simp add: load_session_def rebuild_session_index_def stored_proposal_def empty_dir_def read_paths_with_extension_def)
  finally have s: "s = ?s" "d = ?d" using assms(1) by simp_all
  have "indexed env ?s None [] []"
    by (simp add: indexed_def empty_dir_def stored_proposal_def apart_def commitment_frames_def frame_bytes_def)
  then show ?thesis unfolding s using rp assms by (auto simp: sound_def calm_def session_inv_def files_ok_def empty_dir_def)
qed

section \<open>A concrete session\<close>

definition demo_policy :: session_policy where
  "demo_policy = \<lparr>sp_chain_id = replicate 32 1, current_height = 10\<rparr>"

definition demo_start :: session where
  "demo_start =
     \<lparr>se_dir = empty_dir\<lparr>sd_private := True, sd_policy := Some (encode_policy demo_policy), sd_relay_policy := Some (encode_relay_policy default_relay_policy),
        sd_identity := Some (replicate 32 2), sd_identity_private := True\<rparr>,
      se_policy = demo_policy, se_relay_policy = default_relay_policy, se_identity = replicate 32 2, se_commitments = [], se_senders = {}, se_stored = 0\<rparr>"

lemma demo_init: "session_init demo_relay (replicate 32 2) demo_policy empty_dir = (Inr demo_start, se_dir demo_start)"
  by (simp add: session_init_def init_with_relay_policy_def bind_st_step pin_file_def atomic_put_def load_or_create_identity_def return_st_def empty_dir_def
      load_session_def rebuild_session_index_def stored_proposal_def read_paths_with_extension_def demo_start_def relay_policy_validate_def default_relay_policy_def)

definition demo_wire :: bytes where
  "demo_wire = proposal_wire_bytes demo_env demo_proposal"

lemma demo_wire_ok: "proposal_from_wire demo_env demo_wire = Inr demo_proposal" "length demo_wire \<le> 1000"
proof -
  show "proposal_from_wire demo_env demo_wire = Inr demo_proposal"
    unfolding demo_wire_def using demo_proposal_ok by (intro proposal_read_back demo_env_ok)
  show "length demo_wire \<le> 1000"
    by (simp add: demo_wire_def proposal_wire_bytes_def wire_message_def proposal_body_def demo_proposal_def) (simp add: demo_env_def)
qed

definition demo_proposed :: session where
  "demo_proposed = with_frame demo_relay (demo_frame KProposal demo_wire) (demo_start\<lparr>se_dir := (se_dir demo_start)\<lparr>sd_proposal := Some demo_wire\<rparr>\<rparr>)"

lemma demo_frame_length: "length (frame_to_wire demo_relay (demo_frame KProposal demo_wire)) \<le> 2000"
  using demo_wire_ok(2) by (simp add: frame_to_wire_layout length_frame_head demo_frame_def origin_bytes_def demo_relay_def)

lemma append_event_ok:
  assumes "calm s" "list_all (\<lambda>c. c < 128) ev" "10 \<notin> set ev" "13 \<notin> set ev" "length ev \<le> 1024"
  shows "fst (append_event ev s) = Inr ()"
proof -
  have "length (as_bytes ev) \<le> 1024" using assms(2,5) by (simp add: as_bytes_ascii)
  with assms show ?thesis by (auto simp: append_event_def calm_def bind_st_def split: option.splits)
qed

text \<open>The receipt of an accepted frame is one bounded ASCII line.\<close>

lemma accepted_event_ok:
  assumes "env_ok (fe_btc env)" "calm s" "length (fr_sender f) = 33"
  shows "fst (append_event (lit ''accepted '' @ kind_name (fr_kind f) @ lit '' '' @ to_hex (frame_id env f) @ lit '' '' @ to_hex (fr_sender f)) s) = Inr ()"
proof (rule append_event_ok [OF assms(2)])
  let ?ev = "lit ''accepted '' @ kind_name (fr_kind f) @ lit '' '' @ to_hex (frame_id env f) @ lit '' '' @ to_hex (fr_sender f)"
  have "length (frame_id env f) = 32" using assms(1) by (simp add: frame_id_def env_ok_def)
  moreover have kind: "length (kind_name (fr_kind f)) \<le> 10" "list_all (\<lambda>c. c < 128 \<and> c \<noteq> 10 \<and> c \<noteq> 13) (kind_name (fr_kind f))"
    by (cases "fr_kind f"; simp add: lit_def)+
  ultimately show "length ?ev \<le> 1024" using assms(3) by (simp add: length_to_hex lit_def)
  have hex: "c < 128 \<and> c \<noteq> 10 \<and> c \<noteq> 13" if "c \<in> set (to_hex bs)" for c bs
  proof -
    have "c < 128" "\<not> is_whitespace c" using to_hex_ascii [of bs] that by (auto simp: list_all_iff)
    moreover have "is_whitespace 10" "is_whitespace 13" by (simp_all add: is_whitespace_def)
    ultimately show ?thesis by auto
  qed
  have "c < 128 \<and> c \<noteq> 10 \<and> c \<noteq> 13" if "c \<in> set ?ev" for c
    using that hex kind(2) by (auto simp: lit_def list_all_iff)
  then show "list_all (\<lambda>c. c < 128) ?ev" "10 \<notin> set ?ev" "13 \<notin> set ?ev" by (auto simp only: list_all_iff)
qed

definition demo_event :: ustring where
  "demo_event = lit ''accepted '' @ kind_name (fr_kind (demo_frame KProposal demo_wire)) @ lit '' '' @
     to_hex (frame_id demo_relay (demo_frame KProposal demo_wire)) @ lit '' '' @ to_hex (fr_sender (demo_frame KProposal demo_wire))"

lemma demo_event_ok: "fst (append_event demo_event demo_proposed) = Inr ()"
  unfolding demo_event_def
  by (intro accepted_event_ok demo_relay_signs) (simp_all add: calm_def demo_proposed_def with_frame_def demo_start_def empty_dir_def demo_frame_def)

lemma demo_publish:
  "publish_proposal demo_relay demo_wire (replicate 32 2) demo_start =
     (Inr (frame_to_wire demo_relay (demo_frame KProposal demo_wire)), snd (append_event demo_event demo_proposed))"
  "ingest demo_relay (frame_to_wire demo_relay (demo_frame KProposal demo_wire)) demo_start = (Inr Accepted, snd (append_event demo_event demo_proposed))"
proof -
  let ?f = "demo_frame KProposal demo_wire"
  have sign: "sign_proposal demo_relay demo_wire (se_identity demo_start) (replicate 32 2) = Inr ?f"
    using demo_wire_ok by (simp add: sign_proposal_def demo_relay_def batch_error_def require_live_proposal_def require_origin_key_def sign_parts_def
      demo_frame_def demo_start_def MAX_PAYLOAD_BYTES_def) (simp add: demo_proposal_def demo_env_def VERSION_def eval_nat_numeral)
  have parse: "frame_from_wire demo_relay (frame_to_wire demo_relay ?f) = Inr ?f"
    using demo_wire_ok(2) by (intro frame_read_back demo_frame_ok) (simp add: MAX_PAYLOAD_BYTES_def)
  have auth: "verify_origin_authorization demo_relay ?f demo_start = Inr ()"
    using demo_wire_ok by (simp add: verify_origin_authorization_def demo_frame_def demo_relay_def batch_error_def require_live_proposal_def verify_origin_signature_def)
      (simp add: demo_proposal_def demo_env_def)
  have new: "stored_frame demo_relay ?f demo_start = Inr False" by (simp add: stored_frame_def demo_start_def empty_dir_def)
  have policy: "enforce_frame_policy demo_relay ?f (length (frame_to_wire demo_relay ?f)) demo_start = Inr ()"
    using demo_frame_length by (simp add: enforce_frame_policy_def demo_start_def checked_add_def load_proposal_def empty_dir_def demo_frame_def
      default_relay_policy_def unat_of_nat word_less_nat_alt)
  have body: "persist_semantic demo_relay ?f demo_start = (Inr (), demo_start\<lparr>se_dir := (se_dir demo_start)\<lparr>sd_proposal := Some demo_wire\<rparr>\<rparr>)"
    using demo_wire_ok demo_proposal_ok by (simp add: persist_semantic_def persist_proposal_def demo_frame_def batch_error_def validate_at_def demo_start_def demo_relay_def
      demo_policy_def semantic_write_def empty_dir_def) (simp add: demo_proposal_def)
  let ?u = "demo_start\<lparr>se_dir := (se_dir demo_start)\<lparr>sd_proposal := Some demo_wire\<rparr>\<rparr>"
  have count: "count_stored (length (frame_to_wire demo_relay ?f)) (?u\<lparr>se_dir := (se_dir ?u)\<lparr>sd_frames := btree_insert (frame_name demo_relay ?f) (frame_to_wire demo_relay ?f)
      (sd_frames (se_dir ?u))\<rparr>\<rparr>) = (Inr (), demo_proposed)"
    using demo_frame_length by (simp add: count_stored_def demo_proposed_def with_frame_def checked_add_def demo_start_def unat_of_nat)
  have start: "load_phase (se_dir demo_start) = Inr None" "sd_faults (se_dir demo_start) = []"
    by (simp_all add: load_phase_def demo_start_def empty_dir_def)
  have "ingest_new demo_relay ?f (frame_to_wire demo_relay ?f) demo_start = bind_st (append_event demo_event) (\<lambda>_. return_st Accepted) demo_proposed"
    using policy body count unfolding ingest_new_def demo_event_def by (simp add: start bind_st_step)
  then have "ingest demo_relay (frame_to_wire demo_relay ?f) demo_start = bind_st (append_event demo_event) (\<lambda>_. return_st Accepted) demo_proposed"
    using parse auth new by (simp add: ingest_def)
  also have "\<dots> = (Inr Accepted, snd (append_event demo_event demo_proposed))"
    using demo_event_ok by (cases "append_event demo_event demo_proposed") (simp add: bind_st_def return_st_def)
  finally show ingest: "ingest demo_relay (frame_to_wire demo_relay ?f) demo_start = (Inr Accepted, snd (append_event demo_event demo_proposed))" .
  show "publish_proposal demo_relay demo_wire (replicate 32 2) demo_start = (Inr (frame_to_wire demo_relay ?f), snd (append_event demo_event demo_proposed))"
    using sign ingest by (simp add: publish_proposal_def publish_frame_def Let_def bind_st_step return_st_def)
qed

section \<open>Properties\<close>

text \<open>
  Claim C34. The session directory is the session. Start a session in a fresh directory and call any operations in any
  order: ingestion of arbitrary bytes, publication of proposals, commitments, manifests and replacements, reservations,
  signing, phase changes, finalization, tip refreshes and relaying, whatever they return. As long as no write fails,
  opening the directory again succeeds and gives the same session: the same policies, identity, relay senders and byte
  counter, and the same commitments up to their order.
\<close>

theorem session_reopens:
  assumes "env_ok (fe_btc env)" "length (sp_chain_id policy) = 32" "length drawn = 32" "secret_key_ok env drawn"
    and "init_with_relay_policy env drawn policy rp empty_dir = (Inr s, d)" "(session_step env)\<^sup>*\<^sup>* s t"
  shows "\<exists>cs. mset cs = mset (se_commitments t) \<and> session_open env (se_dir t) = (Inr (t\<lparr>se_commitments := cs\<rparr>), se_dir t)"
proof -
  have "sound env s" using init_sound [OF assms(5,2,3,4)] by simp
  then have t: "sound env t" using sound_session.run_keeps [OF assms(6)] assms(1) by simp
  then obtain p cs fs where ix: "indexed env t p cs fs" by (auto simp: sound_def session_inv_def)
  from ix have "mset cs = mset (se_commitments t)" by (simp add: indexed_def)
  with reopen_ok [OF assms(1) ix] t show ?thesis by (auto simp: sound_def)
qed

theorem session_reopens_witness:
  "sd_proposal (se_dir (snd (append_event demo_event demo_proposed))) = Some demo_wire \<and>
     (\<exists>cs. session_open demo_relay (se_dir (snd (append_event demo_event demo_proposed))) =
        (Inr ((snd (append_event demo_event demo_proposed))\<lparr>se_commitments := cs\<rparr>), se_dir (snd (append_event demo_event demo_proposed))))"
proof -
  have "keeps (\<lambda>s t. sd_proposal (se_dir t) = sd_proposal (se_dir s)) (append_event demo_event)"
    by (intro keeps_append_event keeps_put) (simp_all add: preorder_rel_def reflp_def transp_def)
  from keepsD [OF this surjective_pairing, of demo_proposed] have "sd_proposal (se_dir (snd (append_event demo_event demo_proposed))) = Some demo_wire"
    by (simp add: demo_proposed_def with_frame_def)
  moreover have "init_with_relay_policy demo_relay (replicate 32 2) demo_policy default_relay_policy empty_dir = (Inr demo_start, se_dir demo_start)"
    using demo_init by (simp add: session_init_def)
  ultimately show ?thesis
    using session_reopens [OF demo_relay_signs(2) _ _ _ _ r_into_rtranclp [of "session_step demo_relay", OF publishes_proposal [OF demo_publish(1)]],
      of demo_policy "replicate 32 2" default_relay_policy "se_dir demo_start"]
    by (auto simp: demo_policy_def demo_relay_def)
qed

end
