(* ===== verification/Gossip_Safety.thy ===== *)
theory Gossip_Safety
  imports Gossip_Ops_Proofs
begin

text \<open>
  Safety of the session under failing writes: a closed session stays closed and is not written to, a signature never
  leaves before its reservation is marked on disk, and what an expired proposal and a lost frame file do to a session.
\<close>

section \<open>Phases on disk\<close>

lemma phase_parse_name: "phase_parse (phase_name p) = Inr p"
  by (cases p) (simp_all add: phase_parse_def lit_def)

lemma phase_name_plain: "plain_line (phase_name p)" "list_all is_scalar (phase_name p)"
  by (cases p; simp add: lit_def plain_line_def is_scalar_def)+

lemma load_written_phase:
  assumes "sd_phase d = Some (as_bytes (phase_name p @ [10] @ evidence @ [10]))" "list_all is_scalar evidence" "10 \<notin> set evidence" "13 \<notin> set evidence"
  shows "load_phase d = Inr (Some p) \<or> (\<exists>e. load_phase d = Inl e)"
proof -
  have "list_all is_scalar (phase_name p @ [10] @ evidence @ [10])" using assms(2) phase_name_plain(2) [of p] by (simp add: is_scalar_def)
  from from_utf8_as_bytes [OF this]
  have utf8: "from_utf8 (as_bytes (phase_name p @ [10] @ evidence @ [10])) = Some (phase_name p @ [10] @ evidence @ [10])" .
  have "phase_name p @ [10] @ evidence @ [10] = unlines [phase_name p, evidence]" by (simp add: unlines_def)
  moreover have "str_lines (unlines [phase_name p, evidence]) = [phase_name p, evidence]"
    using assms(3,4) phase_name_plain(1) [of p] by (intro lines_unlines) (auto simp: plain_line_def)
  ultimately have "str_lines (phase_name p @ [10] @ evidence @ [10]) = [phase_name p, evidence]" by metis
  with utf8 assms(1) show ?thesis by (simp add: load_phase_def read_limited_def phase_parse_name del: append_Cons append_Nil)
qed

section \<open>Closed sessions\<close>

definition sealed :: "session \<Rightarrow> bool" where
  "sealed s \<longleftrightarrow> (case load_phase (se_dir s) of Inl _ \<Rightarrow> True | Inr None \<Rightarrow> False | Inr (Some p) \<Rightarrow> rejects_new_protocol_messages p)"

definition protocol_part ::
  "session \<Rightarrow> bytes option \<times> directory \<times> directory \<times> directory \<times> directory \<times> directory \<times> participant_commitment list \<times> bytes set \<times> u64" where
  "protocol_part s = (sd_proposal (se_dir s), sd_frames (se_dir s), sd_commitments (se_dir s), sd_manifests (se_dir s), sd_signatures (se_dir s),
     sd_signed (se_dir s), se_commitments s, se_senders s, se_stored s)"

abbreviation final_rel :: "session \<Rightarrow> session \<Rightarrow> bool" where
  "final_rel s t \<equiv> sealed s \<longrightarrow> sealed t \<and> protocol_part t = protocol_part s"

lemma preorder_final: "preorder_rel final_rel"
  by (auto simp: preorder_rel_def reflp_def transp_def)

lemmas final_binds = keeps_bind [OF preorder_final] keeps_pure [OF preorder_final]

lemma keeps_final_put:
  assumes "\<And>d. sd_phase (upd d) = sd_phase d" "\<And>s fs. protocol_part (s\<lparr>se_dir := upd ((se_dir s)\<lparr>sd_faults := fs\<rparr>)\<rparr>) = protocol_part s"
  shows "keeps final_rel (disk (atomic_put upd))"
  by (rule keeps_put) (use assms in \<open>simp_all add: sealed_def load_phase_def protocol_part_def\<close>)

lemma keeps_final_event: "keeps final_rel (append_event ev)"
  by (intro keeps_append_event preorder_final keeps_final_put) (simp_all add: protocol_part_def)

lemma keeps_final_phase:
  assumes "rejects_new_protocol_messages p" "list_all is_scalar evidence" "10 \<notin> set evidence" "13 \<notin> set evidence"
  shows "keeps final_rel (persist_phase p evidence)"
proof -
  let ?upd = "\<lambda>d. d\<lparr>sd_phase := Some (as_bytes (phase_name p @ [10] @ evidence @ [10]))\<rparr>"
  have "sealed (s\<lparr>se_dir := ?upd d\<rparr>)" for s d
    using load_written_phase [of "?upd d" p evidence] assms by (auto simp: sealed_def)
  then have "keeps final_rel (disk (atomic_put ?upd))"
    by (intro keeps_put) (simp_all add: sealed_def load_phase_def protocol_part_def)
  then show ?thesis unfolding persist_phase_def Let_def by (intro final_binds keeps_final_event)
qed

lemma status_phase:
  assumes "status env s = Inr st" "sealed s"
  shows "load_phase (se_dir s) = Inr (Some (st_phase st)) \<and> rejects_new_protocol_messages (st_phase st)"
proof -
  obtain stored derived where "load_phase (se_dir s) = Inr stored" "st_phase st = (case stored of Some p \<Rightarrow> p | None \<Rightarrow> derived)"
    using assms(1) unfolding status_def Let_def and_then_Inr by (elim exE conjE) (metis session_status.select_convs(1) sum.inject(2))
  with assms(2) show ?thesis by (cases stored) (simp_all add: sealed_def)
qed

lemma keeps_final_ingest: "keeps final_rel (ingest env wire)"
proof -
  have new: "snd (ingest_new env f w s) = s" if "sealed s" for f w s
    using that by (auto simp: ingest_new_def sealed_def split: sum.splits option.splits)
  show ?thesis unfolding keeps_def
  proof (intro allI impI)
    fix s t r
    assume run: "ingest env wire s = (r, t)" and s: "sealed s"
    have "t = s" using run new [OF s] unfolding ingest_def
      by (auto simp: return_st_def split: sum.splits if_splits dest: arg_cong [of _ _ snd])
    with s show "sealed t \<and> protocol_part t = protocol_part s" by simp
  qed
qed

lemma keeps_final_mark:
  assumes "list_all is_scalar evidence"
  shows "keeps final_rel (mark_phase env nxt evidence)"
  unfolding keeps_def
proof (intro allI impI)
  fix s t r
  assume run: "mark_phase env nxt evidence s = (r, t)" and s: "sealed s"
  show "sealed t \<and> protocol_part t = protocol_part s"
  proof (cases "\<exists>st. status env s = Inr st \<and> transition_allowed env st nxt s = Inr True \<and> 10 \<notin> set evidence \<and> 13 \<notin> set evidence")
    case False
    then have "t = s" using run by (auto simp: mark_phase_def result_st_def split: sum.splits if_splits)
    with s show ?thesis by simp
  next
    case True
    then obtain st where st: "status env s = Inr st" "transition_allowed env st nxt s = Inr True" and ev: "10 \<notin> set evidence" "13 \<notin> set evidence" by blast
    have "rejects_new_protocol_messages nxt"
      using st(2) status_phase [OF st(1) s] by (cases nxt) (auto simp: transition_allowed_def rejects_new_protocol_messages_def)
    from keepsD [OF keeps_final_phase [OF this assms ev], of s r t] show ?thesis using run st ev s by (simp add: mark_phase_def)
  qed
qed

lemma keeps_final_finalize: "keeps final_rel (finalize_manifest env mid)"
  unfolding keeps_def
proof (intro allI impI)
  fix s t r
  assume run: "finalize_manifest env mid s = (r, t)" and s: "sealed s"
  have "t = s" using run status_phase [OF _ s] unfolding finalize_manifest_def
    by (auto simp: result_st_def split: sum.splits if_splits)
  with s show "sealed t \<and> protocol_part t = protocol_part s" by simp
qed

lemma keeps_final_refresh: "keeps final_rel (refresh_verified_tip clock tip max_age)"
proof -
  have "keeps final_rel (modify_st (\<lambda>s. s\<lparr>se_policy := g s\<rparr>))" for g
    by (simp add: keeps_def modify_st_def sealed_def protocol_part_def)
  moreover have "keeps final_rel (\<lambda>s. disk (atomic_put (\<lambda>d. d\<lparr>sd_policy := Some (encode_policy (se_policy s))\<rparr>)) s)"
    unfolding keeps_def
  proof (intro allI impI)
    fix s t r
    assume "disk (atomic_put (\<lambda>d. d\<lparr>sd_policy := Some (encode_policy (se_policy s))\<rparr>)) s = (r, t)" and s: "sealed s"
    from keepsD [OF keeps_final_put this(1)] s show "sealed t \<and> protocol_part t = protocol_part s" by (simp add: protocol_part_def)
  qed
  ultimately show ?thesis unfolding refresh_verified_tip_def by (intro final_binds keeps_final_event)
qed

interpretation final_session: session_relation env final_rel for env
proof
  show "keeps final_rel (persist_reservation env res)" for res
    unfolding persist_reservation_def by (rule keeps_final_put) (simp_all add: protocol_part_def)
qed (intro preorder_final keeps_final_ingest keeps_final_event keeps_final_mark keeps_final_finalize keeps_final_refresh; assumption)+

section \<open>What ingestion leaves alone\<close>

lemma keeps_ingest:
  assumes R: "preorder_rel R"
    and puts: "\<And>v. keeps R (disk (atomic_put (\<lambda>d. d\<lparr>sd_proposal := v\<rparr>)))" "\<And>g. keeps R (disk (atomic_put (\<lambda>d. d\<lparr>sd_commitments := g d\<rparr>)))"
      "\<And>g. keeps R (disk (atomic_put (\<lambda>d. d\<lparr>sd_manifests := g d\<rparr>)))" "\<And>g. keeps R (disk (atomic_put (\<lambda>d. d\<lparr>sd_signatures := g d\<rparr>)))"
      "\<And>g. keeps R (disk (atomic_put (\<lambda>d. d\<lparr>sd_frames := g d\<rparr>)))"
    and event: "\<And>ev. keeps R (append_event ev)"
    and mem: "\<And>s a b. R s (s\<lparr>se_commitments := a, se_senders := b\<rparr>)" "\<And>s n. R s (s\<lparr>se_stored := n\<rparr>)"
  shows "keeps R (ingest env wire)"
proof -
  have pool: "keeps R (modify_st (\<lambda>s. if c s then s else s\<lparr>se_commitments := a s, se_senders := b s\<rparr>))" for c a b
    using mem(1) R by (auto simp: keeps_def modify_st_def preorder_rel_def reflp_def)
  have bodies: "keeps R (persist_proposal env payload)" "keeps R (persist_commitment env sender payload)" "keeps R (persist_manifest env payload)"
      "keeps R (persist_signature env payload)" for sender payload
    unfolding persist_proposal_def persist_commitment_def persist_manifest_def persist_signature_def Let_def
    by (intro keeps_bind keeps_pure keeps_semantic_write R puts pool)+
  then have body: "keeps R (persist_semantic env f)" for f unfolding persist_semantic_def by (cases "fr_kind f") simp_all
  have stored: "keeps R (count_stored n)" for n
    using mem(2) R by (auto simp: keeps_def count_stored_def preorder_rel_def reflp_def split: option.splits)
  have new: "keeps R (ingest_new env f w)" for f w unfolding ingest_new_def by (intro keeps_bind keeps_pure R body puts stored event)
  show ?thesis unfolding ingest_def by (intro keeps_bind keeps_pure R keeps_if new)
qed

lemma keeps_same_put:
  assumes "\<And>s fs. g (s\<lparr>se_dir := (se_dir s)\<lparr>sd_faults := fs\<rparr>\<rparr>) = g s" "\<And>s fs. g (s\<lparr>se_dir := upd ((se_dir s)\<lparr>sd_faults := fs\<rparr>)\<rparr>) = g s"
  shows "keeps (\<lambda>s t. g s = g t) (disk (atomic_put upd))"
  by (rule keeps_put) (simp_all add: assms)

lemma keeps_reservations: "keeps (\<lambda>s t. sd_reservations (se_dir s) = sd_reservations (se_dir t)) (publish env kind payload)"
proof -
  have "keeps (\<lambda>s t. sd_reservations (se_dir s) = sd_reservations (se_dir t)) (ingest env wire)" for wire
    by (intro keeps_ingest keeps_append_event preorder_eq keeps_same_put) simp_all
  then show ?thesis unfolding publish_def publish_frame_def Let_def by (intro keeps_bind keeps_pure preorder_eq)
qed

section \<open>Reservations and signatures\<close>

lemma slice_app: "length a = n \<Longrightarrow> length b = m - n \<Longrightarrow> n \<le> m \<Longrightarrow> slice n m (a @ b @ c) = b"
  by (simp add: slice_def)

lemma reservation_moves:
  assumes "decode_reservation env bs = Inr r"
  shows "decode_reservation env (encode_reservation env (r\<lparr>lr_phase := p\<rparr>)) = Inr (r\<lparr>lr_phase := p\<rparr>) \<and> length (encode_reservation env (r\<lparr>lr_phase := p\<rparr>)) = 77"
proof -
  let ?X = "ser_outpoint (fe_btc env) (lr_outpoint r)"
  have d: "length bs = 77" "de_outpoint (fe_btc env) (slice 40 76 bs) = Some (lr_outpoint r)" "lr_operation_id r = slice 8 40 bs" "encode_reservation env r = bs"
    using assms by (auto simp: decode_reservation_def and_then_Inr Let_def split: if_splits)
  have m: "length RESERVATION_MAGIC = 8" by (simp add: RESERVATION_MAGIC_def)
  have o: "length (lr_operation_id r) = 32" using d(1) by (simp add: d(3) slice_def)
  have x: "length ?X = 36" using arg_cong [OF d(4), of length] d(1) o m by (simp add: encode_reservation_def)
  have enc: "encode_reservation env (r\<lparr>lr_phase := q\<rparr>) = (RESERVATION_MAGIC @ lr_operation_id r) @ ?X @ [phase_to_byte q]" for q
    by (simp add: encode_reservation_def)
  have "bs = (RESERVATION_MAGIC @ lr_operation_id r) @ ?X @ [phase_to_byte (lr_phase r)]" using d(4) by (simp add: encode_reservation_def)
  then have "slice 40 76 bs = ?X" using slice_app [of "RESERVATION_MAGIC @ lr_operation_id r" 40 ?X 76] m o x by simp
  moreover have "slice 40 76 (encode_reservation env (r\<lparr>lr_phase := p\<rparr>)) = ?X"
    unfolding enc using slice_app [of "RESERVATION_MAGIC @ lr_operation_id r" 40 ?X 76] m o x by simp
  moreover have "slice 8 40 (encode_reservation env (r\<lparr>lr_phase := p\<rparr>)) = lr_operation_id r"
    unfolding enc append_assoc using slice_app [of RESERVATION_MAGIC 8 "lr_operation_id r" 40] m o by simp
  moreover have "encode_reservation env (r\<lparr>lr_phase := p\<rparr>) ! 76 = phase_to_byte p"
    unfolding enc append_assoc [symmetric] using m o x by (simp add: nth_append)
  moreover have "take 8 (encode_reservation env (r\<lparr>lr_phase := p\<rparr>)) = RESERVATION_MAGIC" unfolding enc using m by simp
  moreover have "length (encode_reservation env (r\<lparr>lr_phase := p\<rparr>)) = 77" unfolding enc using m o x by simp
  moreover have "phase_from_byte (phase_to_byte p) = Inr p" by (cases p) (simp_all add: phase_from_byte_def)
  ultimately show ?thesis using d(2) by (cases r) (simp add: decode_reservation_def batch_error_def Let_def)
qed

lemma signature_released_Inr: "signature_released p = Inr q \<Longrightarrow> q = SignatureReleased"
  by (cases p) simp_all

definition released :: "frame_env \<Rightarrow> local_reservation \<Rightarrow> session \<Rightarrow> bool" where
  "released env res t \<longleftrightarrow> local_reservation_of env (lr_operation_id res) t = Inr (res\<lparr>lr_phase := SignatureReleased\<rparr>)"

lemma released_publish:
  assumes "released env res s" "publish env kind payload s = (r, t)"
  shows "released env res t"
  using assms(1) keepsD [OF keeps_reservations assms(2)] by (simp add: released_def local_reservation_of_def)

lemma persist_released:
  assumes "require_reservation env res oid op s = Inr ()" "persist_reservation env \<lparr>lr_operation_id = oid, lr_outpoint = op, lr_phase = SignatureReleased\<rparr> s = (Inr (), t)"
  shows "released env res t"
proof -
  have id: "lr_operation_id res = oid" "lr_outpoint res = op" and old: "local_reservation_of env oid s = Inr res"
    using assms(1) by (auto simp: require_reservation_def and_then_Inr split: if_splits)
  have new: "\<lparr>lr_operation_id = oid, lr_outpoint = op, lr_phase = SignatureReleased\<rparr> = res\<lparr>lr_phase := SignatureReleased\<rparr>" using id by (cases res) simp
  obtain bs where "decode_reservation env bs = Inr res" using old by (auto simp: local_reservation_of_def and_then_Inr)
  note enc = reservation_moves [OF this, of SignatureReleased]
  let ?upd = "\<lambda>d. d\<lparr>sd_reservations := btree_insert (reservation_path oid) (encode_reservation env (res\<lparr>lr_phase := SignatureReleased\<rparr>)) (sd_reservations d)\<rparr>"
  have "disk (atomic_put ?upd) s = (Inr (), t)" using assms(2) id unfolding persist_reservation_def new by simp
  then obtain fs where "t = s\<lparr>se_dir := ?upd ((se_dir s)\<lparr>sd_faults := fs\<rparr>)\<rparr>"
    unfolding disk_eq by (auto elim!: atomic_put_cases)
  with enc id show ?thesis by (simp add: released_def local_reservation_of_def read_limited_def)
qed

text \<open>The operation an input of a manifest belongs to, and the signature of a key over the digest of that input.\<close>

definition input_operation :: "frame_env \<Rightarrow> proposal \<Rightarrow> manifest \<Rightarrow> u16 \<Rightarrow> bytes" where
  "input_operation env p m index = (if index = 0 then batch_id (fe_btc env) p else operation_id (mf_commitments m ! (unat index - 1)))"

definition input_sighash :: "frame_env \<Rightarrow> proposal \<Rightarrow> manifest \<Rightarrow> u16 \<Rightarrow> bytes option" where
  "input_sighash env p m index =
     (if index = 0 then p2wsh_sighash (fe_btc env) (unsigned_tx m) 0 (proposal_witness_script (fe_btc env) p) (stock_value p)
      else let prevout = fee_prevout (mf_commitments m ! (unat index - 1)) in
        p2wpkh_sighash (fe_btc env) (unsigned_tx m) (unat index) (script_pubkey prevout) (out_value prevout))"

text \<open>What is signed for an input: the outpoint is the one the transaction spends at that index, and the operation is its owner's.\<close>

definition input_signed :: "frame_env \<Rightarrow> proposal \<Rightarrow> manifest \<Rightarrow> u16 \<Rightarrow> bytes \<Rightarrow> bytes \<Rightarrow> outpoint \<Rightarrow> ecdsa_signature \<Rightarrow> bool" where
  "input_signed env p m index key oid op sig \<longleftrightarrow>
     unat index < length (tx_input (unsigned_tx m)) \<and> previous_output (tx_input (unsigned_tx m) ! unat index) = op \<and>
     oid = input_operation env p m index \<and>
     (\<exists>sighash. input_sighash env p m index = Some sighash \<and> sig = sign_digest (fe_btc env) key sighash)"

lemma build_at_tx:
  assumes "build_at env sp p cs epoch rate = Inr m"
  obtains marker chs where "mf_commitments m = sort_commitments env cs" "unsigned_tx m = manifest_tx env sp p marker (mf_commitments m) chs"
  by (rule build_at_Inr [OF assms]) (rule that; simp)

lemma valid_manifest_inputs:
  assumes "manifest_validate env sp m p = Inr ()"
  shows "map previous_output (tx_input (unsigned_tx m)) = stock_outpoint p # map fee_outpoint (mf_commitments m)"
proof -
  from assms have "build_at env sp p (mf_commitments m) (replacement_epoch m) (feerate_sat_vb m) = Inr m" by (simp add: manifest_validate_iff)
  then obtain marker chs where tx: "unsigned_tx m = manifest_tx env sp p marker (mf_commitments m) chs" by (rule build_at_tx)
  show ?thesis unfolding tx by (simp add: manifest_tx_def Let_def unsigned_input_def)
qed

lemma sign_input_Inr:
  assumes "sign_input env p m index key = Inr (oid, op, pk, sig)"
  shows "input_signed env p m index key oid op sig \<and> pk = pubkey_of (fe_btc env) key"
proof -
  from assms have valid: "manifest_validate (fe_btc env) (fe_sponge env) m p = Inr ()"
    by (auto simp: sign_input_def Let_def and_then_Inr batch_error_def sign_stock_def sign_participant_def split: if_splits)
  note prev = valid_manifest_inputs [OF valid]
  have len: "length (tx_input (unsigned_tx m)) = Suc (length (mf_commitments m))" using arg_cong [OF prev, of length] by simp
  have at: "previous_output (tx_input (unsigned_tx m) ! i) = (stock_outpoint p # map fee_outpoint (mf_commitments m)) ! i" if "i \<le> length (mf_commitments m)" for i
    using that prev len by (metis less_Suc_eq_le nth_map)
  show ?thesis
  proof (cases "index = 0")
    case True
    then show ?thesis using assms at [of 0] len
      by (auto simp: sign_input_def and_then_Inr batch_error_def sign_stock_def require_key_def input_signed_def input_operation_def input_sighash_def split: if_splits)
  next
    case False
    then obtain k where k: "unat index = Suc k" by (metis not0_implies_Suc unat_eq_zero)
    with False show ?thesis using assms at [of "unat index"] len
      by (auto simp: sign_input_def Let_def and_then_Inr batch_error_def sign_participant_def require_key_def input_signed_def input_operation_def input_sighash_def split: if_splits)
  qed
qed

text \<open>A published wire is the frame around the share.\<close>

lemma publish_wire:
  assumes "publish env kind payload s = (Inr wire, t)"
  shows "\<exists>f. frame_sign env kind payload (se_identity s) = Inr f \<and> wire = frame_to_wire env f"
  using assms by (auto simp: publish_def publish_frame_def Let_def bind_st_Inr return_st_def split: sum.splits)

lemma frame_sign_payload: "frame_sign env kind payload key = Inr f \<Longrightarrow> fr_kind f = kind \<and> fr_payload f = payload"
  by (auto simp: frame_sign_def sign_parts_def Let_def and_then_Inr split: if_splits)

text \<open>What holds once the reservation was advanced: the manifest, the input, the reservation before and after, and the share that was published.\<close>

definition released_signing ::
  "frame_env \<Rightarrow> bytes \<Rightarrow> u16 \<Rightarrow> bytes \<Rightarrow> local_reservation \<Rightarrow> session \<Rightarrow> cli_error + bytes \<Rightarrow> session \<Rightarrow> bool" where
  "released_signing env mid index key res s r t \<longleftrightarrow>
     (\<exists>p ms m sig. need_proposal env ''session has no proposal'' s = Inr p \<and> session_manifests env p s = Inr ms \<and> m \<in> set ms \<and>
        manifest_id (fe_btc env) m = mid \<and> input_signed env p m index key (lr_operation_id res) (lr_outpoint res) sig \<and>
        local_reservation_of env (lr_operation_id res) s = Inr res \<and> \<not> is_releasable (lr_phase res) \<and>
        local_reservation_of env (lr_operation_id res) t = Inr (res\<lparr>lr_phase := SignatureReleased\<rparr>) \<and>
        (\<forall>wire. r = Inr wire \<longrightarrow> (\<exists>f share. wire = frame_to_wire env f \<and> fr_kind f = KSignature \<and>
           fr_payload f = share_wire_bytes (fe_btc env) share \<and> ss_manifest_id share = mid \<and> input_index share = index \<and> signer_pubkey share = pubkey_of (fe_btc env) key \<and> ss_signature share = sig)))"

lemma sign_and_publish_cases:
  assumes "sign_and_publish env clock mid index key inputs res max_age s = (r, t)"
  shows "(\<exists>e. r = Inl e) \<and> sd_signatures (se_dir t) = sd_signatures (se_dir s) \<and> sd_frames (se_dir t) = sd_frames (se_dir s) \<or>
    released_signing env mid index key res s r t"
proof -
  let ?tail = "\<lambda>oid op signer sig. bind_st (persist_reservation env \<lparr>lr_operation_id = oid, lr_outpoint = op, lr_phase = SignatureReleased\<rparr>) (\<lambda>_.
     bind_st (result_st (batch_error (share_new (fe_btc env) mid index signer sig))) (\<lambda>share. publish env KSignature (share_wire_bytes (fe_btc env) share)))"
  from assms consider (early) e where "r = Inl e" "t = s"
    | (late) p ms m oid op signer sig where "need_proposal env ''session has no proposal'' s = Inr p" "session_manifests env p s = Inr ms"
        "find_manifest env ''cannot sign an unavailable manifest'' mid ms = Inr m" "sign_input env p m index key = Inr (oid, op, signer, sig)"
        "require_reservation env res oid op s = Inr ()" "?tail oid op signer sig s = (r, t)"
    unfolding sign_and_publish_def
    by (auto simp: batch_error_def [of "signature_released _"] split: sum.splits prod.splits dest!: signature_released_Inr)
  then show ?thesis
  proof cases
    case (late p ms m oid op signer sig)
    have m: "m \<in> set ms" "manifest_id (fe_btc env) m = mid" using late(3) by (auto simp: find_manifest_def find_Some_iff)
    have res: "lr_operation_id res = oid" "lr_outpoint res = op" "local_reservation_of env oid s = Inr res" "\<not> is_releasable (lr_phase res)"
      using late(5) by (auto simp: require_reservation_def and_then_Inr split: if_splits)
    note signed = sign_input_Inr [OF late(4)]
    from late(6) consider (failed) e where "persist_reservation env \<lparr>lr_operation_id = oid, lr_outpoint = op, lr_phase = SignatureReleased\<rparr> s = (Inl e, t)" "r = Inl e"
      | (stored) u where "persist_reservation env \<lparr>lr_operation_id = oid, lr_outpoint = op, lr_phase = SignatureReleased\<rparr> s = (Inr (), u)"
          "bind_st (result_st (batch_error (share_new (fe_btc env) mid index signer sig))) (\<lambda>share. publish env KSignature (share_wire_bytes (fe_btc env) share)) u = (r, t)"
      unfolding bind_st_eq [of "persist_reservation _ _"] by auto
    then show ?thesis
    proof cases
      case (failed e)
      then show ?thesis unfolding persist_reservation_def disk_eq by (auto elim!: atomic_put_cases)
    next
      case (stored u)
      have rel: "released env res t" using persist_released [OF late(5) stored(1)] released_publish stored(2)
        by (cases "batch_error (share_new (fe_btc env) mid index signer sig)") auto
      have "\<exists>f share. wire = frame_to_wire env f \<and> fr_kind f = KSignature \<and> fr_payload f = share_wire_bytes (fe_btc env) share \<and>
          ss_manifest_id share = mid \<and> input_index share = index \<and> signer_pubkey share = pubkey_of (fe_btc env) key \<and> ss_signature share = sig" if "r = Inr wire" for wire
      proof -
        from stored(2) that obtain share where "share_new (fe_btc env) mid index signer sig = Inr share"
          and run: "publish env KSignature (share_wire_bytes (fe_btc env) share) u = (Inr wire, t)"
          by (auto simp: batch_error_def split: sum.splits)
        then have "ss_manifest_id share = mid" "input_index share = index" "signer_pubkey share = signer" "ss_signature share = sig" by (auto simp: share_new_def and_then_Inr)
        with publish_wire [OF run] frame_sign_payload signed show ?thesis by blast
      qed
      then have "released_signing env mid index key res s r t"
        unfolding released_signing_def using late(1,2) m signed res rel by (auto simp: released_def)
      then show ?thesis ..
    qed
  qed simp
qed

section \<open>Duplicates\<close>

lemma keeps_count: "keeps R (count_stored n)" if "preorder_rel R" "\<And>s n. R s (s\<lparr>se_stored := n\<rparr>)"
  using that by (auto simp: keeps_def count_stored_def preorder_rel_def reflp_def split: option.splits)

lemma ingest_new_Accepted:
  assumes "ingest_new env f wire s = (Inr Accepted, t)"
  shows "map_of (sd_frames (se_dir t)) (frame_name env f) = Some wire"
    "fr_kind f \<noteq> KProposal \<Longrightarrow> sd_proposal (se_dir t) = sd_proposal (se_dir s) \<and> se_policy t = se_policy s"
proof -
  obtain u v w ev where body: "persist_semantic env f s = (Inr (), u)"
    and put: "disk (atomic_put (\<lambda>d. d\<lparr>sd_frames := btree_insert (frame_name env f) wire (sd_frames d)\<rparr>)) u = (Inr (), v)"
    and cnt: "count_stored (length wire) v = (Inr (), w)" and ev: "append_event ev w = (Inr (), t)"
    using assms unfolding ingest_new_def by (auto simp: bind_st_Inr return_st_def split: sum.splits)
  have "keeps (\<lambda>s t. sd_frames (se_dir s) = sd_frames (se_dir t)) (append_event ev)"
    by (intro keeps_append_event keeps_same_put preorder_eq) simp_all
  from keepsD [OF this ev] have "sd_frames (se_dir w) = sd_frames (se_dir t)" .
  moreover have "sd_frames (se_dir w) = sd_frames (se_dir v)" using cnt by (auto simp: count_stored_def split: option.splits)
  moreover have "map_of (sd_frames (se_dir v)) (frame_name env f) = Some wire"
    using put unfolding disk_eq by (auto elim!: atomic_put_cases)
  ultimately show "map_of (sd_frames (se_dir t)) (frame_name env f) = Some wire" by simp
  let ?g = "\<lambda>s. (sd_proposal (se_dir s), se_policy s)"
  have pool: "keeps (\<lambda>s t. ?g s = ?g t) (modify_st (\<lambda>s. if c s then s else s\<lparr>se_commitments := a s, se_senders := b s\<rparr>))" for c a b
    by (auto simp: keeps_def modify_st_def)
  assume k: "fr_kind f \<noteq> KProposal"
  have "keeps (\<lambda>s t. ?g s = ?g t) (persist_commitment env sender payload)" "keeps (\<lambda>s t. ?g s = ?g t) (persist_manifest env payload)"
      "keeps (\<lambda>s t. ?g s = ?g t) (persist_signature env payload)" for sender payload
    unfolding persist_commitment_def persist_manifest_def persist_signature_def Let_def
    by (intro keeps_bind keeps_pure keeps_semantic_write preorder_eq pool keeps_same_put; simp)+
  then have "keeps (\<lambda>s t. ?g s = ?g t) (persist_semantic env f)" using k unfolding persist_semantic_def by (cases "fr_kind f") simp_all
  from keepsD [OF this body] have "?g s = ?g u" .
  moreover have "?g u = ?g v" by (rule keepsD [OF keeps_same_put put]) simp_all
  moreover have "?g v = ?g w" using cnt by (auto simp: count_stored_def split: option.splits)
  moreover have "keeps (\<lambda>s t. ?g s = ?g t) (append_event ev)" by (intro keeps_append_event keeps_same_put preorder_eq) simp_all
  from keepsD [OF this ev] have "?g w = ?g t" .
  ultimately show "sd_proposal (se_dir t) = sd_proposal (se_dir s) \<and> se_policy t = se_policy s" by simp
qed

lemma load_proposal_cong:
  assumes "sd_proposal (se_dir t) = sd_proposal (se_dir s)" "se_policy t = se_policy s"
  shows "load_proposal env t = load_proposal env s" "need_proposal env msg t = need_proposal env msg s"
  unfolding need_proposal_def load_proposal_def assms by (rule refl)+

lemma authorization_cong:
  assumes "fr_kind f = KProposal \<or> sd_proposal (se_dir t) = sd_proposal (se_dir s) \<and> se_policy t = se_policy s"
  shows "verify_origin_authorization env f t = verify_origin_authorization env f s"
  using assms load_proposal_cong(2) [of t s env "''commitment arrived before proposal''"]
  by (cases "fr_kind f") (simp_all add: verify_origin_authorization_def)

lemma ingest_again:
  assumes "ingest env wire s = (Inr Accepted, t)"
  shows "ingest env wire t = (Inr Duplicate, t)"
proof -
  obtain f where f: "frame_from_wire env wire = Inr f" "verify_origin_authorization env f s = Inr ()" and run: "ingest_new env f wire s = (Inr Accepted, t)"
    using assms unfolding ingest_def by (auto simp: return_st_def split: sum.splits if_splits)
  note acc = ingest_new_Accepted [OF run]
  have "verify_origin_authorization env f t = Inr ()" using f(2) acc(2) authorization_cong [of f t s env] by auto
  moreover have "length wire \<le> MAX_FRAME_BYTES" using f(1) by (simp add: frame_from_wire_def split: if_splits)
  then have "stored_frame env f t = Inr True" using f(1) acc(1) by (simp add: stored_frame_def read_limited_def)
  ultimately show ?thesis using f(1) by (simp add: ingest_def return_st_def)
qed

section \<open>Expiry\<close>

lemma expired_load:
  assumes "env_ok (fe_btc env)" "stored_proposal env (se_dir s) = Inr (Some p)" "pr_chain_id p = sp_chain_id (se_policy s)" "expiry_height p \<le> current_height (se_policy s)"
  shows "load_proposal env s = Inl (CliBatch ExpiredProposal)"
proof -
  obtain wire where w: "sd_proposal (se_dir s) = Some wire" "length wire \<le> MAX_PAYLOAD_BYTES" "proposal_from_wire (fe_btc env) wire = Inr p" "require_live_proposal p = Inr ()"
    using assms(2) by (auto simp: stored_proposal_def read_limited_def and_then_Inr batch_error_def split: option.splits if_splits)
  have "proposal_validate (fe_btc env) p = Inr ()" using proposal_from_wire_Inr [OF assms(1) w(3)] by simp
  with w assms(3,4) show ?thesis by (simp add: load_proposal_def read_limited_def batch_error_def validate_at_def)
qed

lemma refresh_sets:
  assumes "refresh_verified_tip clock tip max_age s = (Inr (), t)"
  shows "sd_proposal (se_dir t) = sd_proposal (se_dir s) \<and> se_policy t = (se_policy s)\<lparr>current_height := word_of_nat (vt_height tip)\<rparr> \<and> vt_height tip \<le> U32_MAX"
proof -
  let ?s = "s\<lparr>se_policy := (se_policy s)\<lparr>current_height := word_of_nat (vt_height tip)\<rparr>\<rparr>"
  obtain u ev where le: "vt_height tip \<le> U32_MAX" and put: "disk (atomic_put (\<lambda>d. d\<lparr>sd_policy := Some (encode_policy (se_policy ?s))\<rparr>)) ?s = (Inr (), u)" and ev: "append_event ev u = (Inr (), t)"
    using assms unfolding refresh_verified_tip_def by (auto simp: bind_st_Inr split: sum.splits if_splits)
  let ?g = "\<lambda>s. (sd_proposal (se_dir s), se_policy s)"
  have "?g ?s = ?g u" by (rule keepsD [OF keeps_same_put put]) simp_all
  moreover have "keeps (\<lambda>s t. ?g s = ?g t) (append_event ev)" by (intro keeps_append_event keeps_same_put preorder_eq) simp_all
  from keepsD [OF this ev] have "?g u = ?g t" .
  ultimately show ?thesis using le by simp
qed

section \<open>A commitment without its frame\<close>

abbreviation undisturbed :: "session \<Rightarrow> session" where
  "undisturbed s \<equiv> s\<lparr>se_dir := (se_dir s)\<lparr>sd_faults := []\<rparr>\<rparr>"

lemma enforce_undisturbed: "enforce_frame_policy env f n (undisturbed s) = enforce_frame_policy env f n s"
proof -
  have load: "load_proposal env (undisturbed s) = load_proposal env s" "need_proposal env msg (undisturbed s) = need_proposal env msg s" for msg
    by (intro load_proposal_cong; simp)+
  have fields: "se_commitments (undisturbed s) = se_commitments s" "se_senders (undisturbed s) = se_senders s" "se_stored (undisturbed s) = se_stored s"
    "se_relay_policy (undisturbed s) = se_relay_policy s" by simp_all
  show ?thesis unfolding enforce_frame_policy_def load fields ..
qed

lemma torn_persist:
  assumes "sd_faults (se_dir s) = [DiskOk, DiskFailed]" "persist_commitment env sender payload s = (r, u)" "sd_commitments (se_dir u) \<noteq> sd_commitments (se_dir s)"
  obtains name where "r = Inr ()" "sd_faults (se_dir u) = [DiskFailed]" "persist_commitment env sender payload (undisturbed s) = (Inr (), undisturbed u)"
    "map_of (sd_commitments (se_dir s)) name = None" "sd_commitments (se_dir u) = btree_insert name payload (sd_commitments (se_dir s))"
proof -
  have same: "need_proposal env msg (undisturbed s) = need_proposal env msg s" for msg by (intro load_proposal_cong) simp_all
  obtain p c where pc: "need_proposal env ''commitment arrived before proposal'' s = Inr p" "commitment_from_wire (fe_btc env) p payload = Inr c"
    using assms(2,3) unfolding persist_commitment_def by (auto simp: batch_error_def split: sum.splits)
  let ?name = "commitment_name env c"
  let ?ins = "btree_insert ?name payload (sd_commitments (se_dir s))"
  have new: "map_of (sd_commitments (se_dir s)) ?name = None"
    using assms(2,3) pc unfolding persist_commitment_def
    by (auto simp: batch_error_def Let_def semantic_write_def bind_st_eq modify_st_def split: option.splits if_splits)
  have "semantic_write (\<lambda>d. map_of (sd_commitments d) ?name) (\<lambda>d. d\<lparr>sd_commitments := btree_insert ?name payload (sd_commitments d)\<rparr>) payload s =
      (Inr (), s\<lparr>se_dir := (se_dir s)\<lparr>sd_faults := [DiskFailed], sd_commitments := ?ins\<rparr>\<rparr>)"
    using new assms(1) by (simp add: semantic_write_def disk_def atomic_put_def)
  moreover have "semantic_write (\<lambda>d. map_of (sd_commitments d) ?name) (\<lambda>d. d\<lparr>sd_commitments := btree_insert ?name payload (sd_commitments d)\<rparr>) payload (undisturbed s) =
      (Inr (), s\<lparr>se_dir := (se_dir s)\<lparr>sd_faults := [], sd_commitments := ?ins\<rparr>\<rparr>)"
    using new by (simp add: semantic_write_def disk_def atomic_put_def)
  ultimately show ?thesis using that [of ?name] assms(2) pc new same unfolding persist_commitment_def
    by (auto simp: batch_error_def Let_def bind_st_step modify_st_def split: if_splits)
qed

lemma torn_ingest:
  assumes env: "env_ok (fe_btc env)" and ix: "indexed env s q cs fs" and faults: "sd_faults (se_dir s) = [DiskOk, DiskFailed]"
    and f: "frame_from_wire env wire = Inr f" "fr_kind f = KCommitment" and run: "ingest env wire s = (r, t)"
    and changed: "sd_commitments (se_dir t) \<noteq> sd_commitments (se_dir s)"
  obtains name q' cs' fs' u where "indexed env (with_frame env f u) q' cs' fs'" "se_dir t = se_dir u"
    "map_of (sd_commitments (se_dir s)) name = None" "sd_commitments (se_dir t) = btree_insert name (fr_payload f) (sd_commitments (se_dir s))"
    "sd_frames (se_dir t) = sd_frames (se_dir s)" "sd_proposal (se_dir t) = sd_proposal (se_dir s)" "files_ok env s \<Longrightarrow> files_ok env (s\<lparr>se_dir := se_dir t\<rparr>)" "se_relay_policy u = se_relay_policy s"
proof -
  have auth: "verify_origin_authorization env f s = Inr ()" and st: "stored_frame env f s = Inr False"
    using run changed f unfolding ingest_def by (auto simp: return_st_def split: sum.splits if_splits)
  then have new: "map_of (sd_frames (se_dir s)) (frame_name env f) = None" by (auto simp: stored_frame_def and_then_Inr split: option.splits if_splits)
  have wire: "wire = frame_to_wire env f" and ok: "frame_ok env f" using frame_from_wire_Inr [OF env f(1)] by auto
  let ?tail = "bind_st (disk (atomic_put (\<lambda>d. d\<lparr>sd_frames := btree_insert (frame_name env f) wire (sd_frames d)\<rparr>))) (\<lambda>_.
     bind_st (count_stored (length wire)) (\<lambda>_.
     bind_st (append_event (lit ''accepted '' @ kind_name (fr_kind f) @ lit '' '' @ to_hex (frame_id env f) @ lit '' '' @ to_hex (fr_sender f))) (\<lambda>_.
     return_st Accepted)))"
  have run': "ingest_new env f wire s = (r, t)" using run f auth st by (simp add: ingest_def)
  then have policy: "enforce_frame_policy env f (length wire) s = Inr ()" and bind: "bind_st (persist_commitment env (fr_sender f) (fr_payload f)) (\<lambda>_. ?tail) s = (r, t)"
    using changed f(2) unfolding ingest_new_def persist_semantic_def by (auto split: sum.splits)
  obtain x u where body: "persist_commitment env (fr_sender f) (fr_payload f) s = (x, u)" by fastforce
  have "keeps (\<lambda>s t. sd_commitments (se_dir s) = sd_commitments (se_dir t)) ?tail"
    by (intro keeps_bind keeps_pure keeps_append_event preorder_eq keeps_same_put keeps_count) simp_all
  from keepsD [OF this, of u r t] have "sd_commitments (se_dir t) = sd_commitments (se_dir u)"
    using bind body unfolding bind_st_eq [of "persist_commitment _ _ _"] by auto
  with changed have "sd_commitments (se_dir u) \<noteq> sd_commitments (se_dir s)" by simp
  from torn_persist [OF faults body this] obtain name where x: "x = Inr ()" and u: "sd_faults (se_dir u) = [DiskFailed]"
    "persist_commitment env (fr_sender f) (fr_payload f) (undisturbed s) = (Inr (), undisturbed u)"
    "map_of (sd_commitments (se_dir s)) name = None" "sd_commitments (se_dir u) = btree_insert name (fr_payload f) (sd_commitments (se_dir s))" by blast
  have t: "t = undisturbed u" using bind body x u(1) by (simp add: bind_st_def disk_def atomic_put_def)
  let ?g = "\<lambda>s. (sd_private (se_dir s), sd_identity_private (se_dir s), sd_policy (se_dir s), sd_relay_policy (se_dir s), sd_identity (se_dir s), sd_frames (se_dir s), sd_proposal (se_dir s), se_relay_policy s)"
  have pool: "keeps (\<lambda>s t. ?g s = ?g t) (modify_st (\<lambda>s. if c s then s else s\<lparr>se_commitments := a s, se_senders := b s\<rparr>))" for c a b
    by (auto simp: keeps_def modify_st_def)
  have "keeps (\<lambda>s t. ?g s = ?g t) (persist_commitment env (fr_sender f) (fr_payload f))"
    unfolding persist_commitment_def Let_def by (intro keeps_bind keeps_pure keeps_semantic_write preorder_eq pool keeps_same_put; simp)
  from keepsD [OF this body] have g: "?g s = ?g u" .
  have "session_inv env (with_frame env f (undisturbed u))"
  proof (rule ingest_commitment_inv [OF env _ _ ok f(2) _ _ _ u(2)])
    show "indexed env (undisturbed s) q cs fs" using ix by (simp add: indexed_def stored_proposal_def)
    show "verify_origin_authorization env f (undisturbed s) = Inr ()" using auth authorization_cong [of f "undisturbed s" s env] by simp
    show "enforce_frame_policy env f (length (frame_to_wire env f)) (undisturbed s) = Inr ()" using policy wire by (simp only: enforce_undisturbed)
  qed (use new in \<open>simp_all add: calm_def\<close>)
  then obtain q' cs' fs' where "indexed env (with_frame env f (undisturbed u)) q' cs' fs'" by (auto simp: session_inv_def)
  then show ?thesis
  proof (rule that)
    show "se_dir t = se_dir (undisturbed u)" by (simp add: t)
    show "map_of (sd_commitments (se_dir s)) name = None" by (rule u(3))
    show "sd_commitments (se_dir t) = btree_insert name (fr_payload f) (sd_commitments (se_dir s))" using u(4) by (simp add: t)
    show "sd_frames (se_dir t) = sd_frames (se_dir s)" "sd_proposal (se_dir t) = sd_proposal (se_dir s)" "se_relay_policy (undisturbed u) = se_relay_policy s"
      using g by (simp_all add: t)
    show "files_ok env (s\<lparr>se_dir := se_dir t\<rparr>)" if "files_ok env s" using g that by (simp add: t files_ok_def)
  qed
qed

lemma torn_rebuild:
  assumes env: "env_ok (fe_btc env)" and ix: "indexed env s q cs fs" and ix': "indexed env (with_frame env f u) q' cs' fs'" and dir: "se_dir t = se_dir u"
    and new: "map_of (sd_commitments (se_dir s)) name = None" and ins: "sd_commitments (se_dir t) = btree_insert name payload (sd_commitments (se_dir s))"
    and frames: "sd_frames (se_dir t) = sd_frames (se_dir s)" and rp: "se_relay_policy u = se_relay_policy s" and same: "sd_proposal (se_dir t) = sd_proposal (se_dir s)"
  shows "rebuild_session_index env (se_dir t) (se_relay_policy s) = Inl (CliTransport ''stored commitment lacks its authorized relay frame'')"
proof -
  note i = ix [unfolded indexed_def] and i' = ix' [unfolded indexed_def]
  have sp: "stored_proposal env (se_dir t) = Inr q" using i same by (simp add: stored_proposal_def)
  then have q: "q' = q" using i' dir by (simp add: with_frame_def stored_proposal_def)
  have cs': "sd_commitments (se_dir t) = map (commitment_file env) cs'" using i' dir by (simp add: with_frame_def)
  have sized: "length (commitment_wire_bytes (fe_btc env) c) \<le> MAX_PAYLOAD_BYTES" if c: "c \<in> set cs'" for c
  proof -
    from i' c obtain g where "g \<in> set fs'" "fr_payload g = commitment_wire_bytes (fe_btc env) c" by (auto simp: list_all_iff commitment_stored_def)
    with i' show ?thesis by (auto simp: list_all_iff frame_stored_def frame_ok_def)
  qed
  have "rebuild_commitments env q [] (map (commitment_file env) cs') = Inr ([] @ cs')"
    using i' sized q by (intro rebuild_commitments_ok) (auto simp: list_all_iff commitment_stored_def)
  moreover obtain x where x: "rebuild_frames env q (se_relay_policy s) \<lparr>fx_bytes = 0, fx_senders = {}, fx_authorized = {}\<rparr> (map (frame_file env) fs) = Inr x"
      "fx_authorized x = (\<Union>f \<in> set (commitment_frames fs). frame_ids env q f)"
    using rebuild_frames_ok [OF env, of cs fs q fs "\<lparr>fx_bytes = 0, fx_senders = {}, fx_authorized = {}\<rparr>" "se_relay_policy s"] i
    by (fastforce simp: word_le_nat_alt)
  moreover have "list_ex (\<lambda>c. commitment_id (fe_btc env) c \<notin> fx_authorized x) cs'"
  proof -
    have "map_of (map (commitment_file env) cs') name \<noteq> None" unfolding cs' [symmetric] ins by simp
    then obtain c where c: "c \<in> set cs'" "commitment_name env c = name" by (auto simp: file_names)
    have "commitment_id (fe_btc env) c \<notin> frame_ids env q g" if g: "g \<in> set (commitment_frames fs)" for g
    proof
      assume a: "commitment_id (fe_btc env) c \<in> frame_ids env q g"
      have "fr_kind g = KCommitment" "frame_stored env cs g" using g i by (auto simp: commitment_frames_def list_all_iff)
      then obtain e where e: "e \<in> set cs" "fr_payload g = commitment_wire_bytes (fe_btc env) e" by (auto simp: frame_stored_def)
      with i have "\<exists>p. q = Some p \<and> commitment_from_wire (fe_btc env) p (fr_payload g) = Inr e" by (auto simp: list_all_iff commitment_stored_def)
      with a have "commitment_id (fe_btc env) c = commitment_id (fe_btc env) e" by (auto simp: frame_ids_def)
      then have "commitment_name env e = name" using c(2) by (simp add: commitment_name_def)
      with e(1) new i show False by (auto simp: file_names)
    qed
    with c(1) x(2) show ?thesis by (auto simp: list_ex_iff)
  qed
  ultimately show ?thesis using i i' sp cs' frames rp q
    by (simp add: rebuild_session_index_def listed_files [OF env] proposal_cap_def with_frame_def del: rebuild_commitments.simps rebuild_frames.simps)
qed

section \<open>A commitment frame for the concrete session\<close>

definition demo_pledge :: bytes where
  "demo_pledge = commitment_wire_bytes demo_env demo_commitment"

lemma demo_pledge_ok: "commitment_from_wire demo_env demo_proposal demo_pledge = Inr demo_commitment" "length demo_pledge \<le> 1000"
proof -
  show "commitment_from_wire demo_env demo_proposal demo_pledge = Inr demo_commitment"
    unfolding demo_pledge_def using demo_commitment_ok by (intro commitment_read_back demo_env_ok)
  show "length demo_pledge \<le> 1000"
    using length_batch_id [OF demo_env_ok, of demo_proposal]
    by (simp add: demo_pledge_def commitment_wire_bytes_def wire_message_def commitment_body_def demo_commitment_def length_encode_script) (simp add: demo_env_def)
qed

definition demo_failing :: session where
  "demo_failing = demo_proposed\<lparr>se_dir := (se_dir demo_proposed)\<lparr>sd_faults := [DiskOk, DiskFailed]\<rparr>\<rparr>"

lemma demo_stored: "stored_proposal demo_relay (se_dir demo_proposed) = Inr (Some demo_proposal)"
  using demo_wire_ok by (simp add: stored_proposal_def demo_proposed_def with_frame_def read_limited_def MAX_PAYLOAD_BYTES_def demo_relay_def batch_error_def
    require_live_proposal_def) (simp add: demo_proposal_def)

lemma demo_proposed_sound: "sound demo_relay demo_proposed"
proof -
  let ?f = "demo_frame KProposal demo_wire"
  have ok: "frame_ok demo_relay ?f" using demo_wire_ok(2) by (intro demo_frame_ok) (simp add: MAX_PAYLOAD_BYTES_def)
  have "verify_origin_signature demo_relay ?f k = Inr ()" for k
    by (simp add: verify_origin_signature_def demo_frame_def demo_relay_def) (simp add: demo_env_def)
  then have "frame_stored demo_relay [] ?f"
    using ok demo_wire_ok(1) by (simp add: frame_stored_def) (simp add: demo_frame_def demo_relay_def)
  moreover note demo_stored
  moreover have "unat (word_of_nat (length (frame_to_wire demo_relay ?f)) :: u64) = length (frame_to_wire demo_relay ?f)"
    using demo_frame_length by (simp add: unat_of_nat)
  moreover have "fr_kind ?f = KProposal" by (simp add: demo_frame_def)
  ultimately have "indexed demo_relay demo_proposed (Some demo_proposal) [] [?f]"
    using demo_frame_length unfolding indexed_def
    by (simp add: apart_def commitment_frames_def frame_bytes_def)
      (simp add: demo_proposed_def with_frame_def demo_start_def empty_dir_def frame_file_def word_le_nat_alt default_relay_policy_def)
  moreover have "files_ok demo_relay demo_proposed"
    by (simp add: files_ok_def demo_proposed_def with_frame_def demo_start_def demo_policy_def relay_policy_validate_def default_relay_policy_def) (simp add: demo_relay_def)
  moreover have "calm demo_proposed" by (simp add: calm_def demo_proposed_def with_frame_def demo_start_def empty_dir_def)
  ultimately show ?thesis by (auto simp: sound_def session_inv_def)
qed

lemma demo_tear:
  "sd_commitments (se_dir (snd (ingest demo_relay (frame_to_wire demo_relay (demo_frame KCommitment demo_pledge)) demo_failing))) =
     [(commitment_name demo_relay demo_commitment, demo_pledge)]"
proof -
  let ?f = "demo_frame KCommitment demo_pledge"
  have k: "fr_kind ?f = KCommitment" "fr_payload ?f = demo_pledge" by (simp_all add: demo_frame_def)
  have base: "sd_proposal (se_dir demo_failing) = Some demo_wire" "se_policy demo_failing = demo_policy" "se_commitments demo_failing = []" "se_senders demo_failing = {}"
    "sd_commitments (se_dir demo_failing) = []" "sd_phase (se_dir demo_failing) = None" "se_relay_policy demo_failing = default_relay_policy"
    "se_stored demo_failing = word_of_nat (length (frame_to_wire demo_relay (demo_frame KProposal demo_wire)))" "sd_faults (se_dir demo_failing) = [DiskOk, DiskFailed]"
    "sd_frames (se_dir demo_failing) = [(frame_name demo_relay (demo_frame KProposal demo_wire), frame_to_wire demo_relay (demo_frame KProposal demo_wire))]"
    by (simp_all add: demo_failing_def demo_proposed_def with_frame_def demo_start_def empty_dir_def)
  have need: "need_proposal demo_relay msg demo_failing = Inr demo_proposal" for msg
    using demo_wire_ok demo_proposal_ok by (simp add: need_proposal_def load_proposal_def base read_limited_def MAX_PAYLOAD_BYTES_def demo_relay_def batch_error_def
      require_live_proposal_def validate_at_def demo_policy_def) (simp add: demo_proposal_def)
  have parse: "frame_from_wire demo_relay (frame_to_wire demo_relay ?f) = Inr ?f"
    using demo_pledge_ok(2) by (intro frame_read_back demo_frame_ok) (simp add: MAX_PAYLOAD_BYTES_def)
  have dec: "commitment_from_wire (fe_btc demo_relay) demo_proposal demo_pledge = Inr demo_commitment" using demo_pledge_ok(1) by (simp add: demo_relay_def)
  have auth: "verify_origin_authorization demo_relay ?f demo_failing = Inr ()"
    by (simp add: verify_origin_authorization_def k need dec batch_error_def verify_origin_signature_def) (simp add: demo_frame_def demo_relay_def demo_env_def)
  have "frame_name demo_relay (demo_frame KProposal demo_wire) \<noteq> frame_name demo_relay ?f"
  proof
    assume "frame_name demo_relay (demo_frame KProposal demo_wire) = frame_name demo_relay ?f"
    then have "semantic_frame_id demo_relay (demo_frame KProposal demo_wire) = semantic_frame_id demo_relay ?f"
      by (auto simp: frame_name_def dest: arg_cong [of _ _ from_hex] simp: from_to_hex)
    then show False by (simp add: semantic_frame_id_def demo_relay_def demo_frame_def str_bytes_def) (simp add: demo_env_def)
  qed
  then have new: "stored_frame demo_relay ?f demo_failing = Inr False" by (simp add: stored_frame_def base)
  have len: "length (frame_to_wire demo_relay ?f) \<le> 2000"
    using demo_pledge_ok(2) by (simp add: frame_to_wire_layout length_frame_head demo_frame_def origin_bytes_def demo_relay_def)
  have policy: "enforce_frame_policy demo_relay ?f (length (frame_to_wire demo_relay ?f)) demo_failing = Inr ()"
    using len demo_frame_length by (simp add: enforce_frame_policy_def base k need dec batch_error_def checked_add_def default_relay_policy_def commitment_cap_def
      unat_of_nat word_less_nat_alt unat_word_ariths) (simp add: demo_proposal_def)
  have phase: "load_phase (se_dir demo_failing) = Inr None" by (simp add: load_phase_def base)
  have "ingest demo_relay (frame_to_wire demo_relay ?f) demo_failing = ingest_new demo_relay ?f (frame_to_wire demo_relay ?f) demo_failing"
    by (simp add: ingest_def parse auth new)
  moreover obtain u where "persist_semantic demo_relay ?f demo_failing = (Inr (), u)" "sd_faults (se_dir u) = [DiskFailed]"
      "sd_commitments (se_dir u) = [(commitment_name demo_relay demo_commitment, demo_pledge)]"
  proof (rule that)
    show "persist_semantic demo_relay ?f demo_failing = (Inr (), demo_failing\<lparr>se_dir := (se_dir demo_failing)\<lparr>sd_faults := [DiskFailed],
        sd_commitments := [(commitment_name demo_relay demo_commitment, demo_pledge)]\<rparr>, se_commitments := [demo_commitment], se_senders := {fr_sender ?f}\<rparr>)"
      by (simp add: persist_semantic_def k persist_commitment_def need dec batch_error_def Let_def bind_st_def [of "semantic_write _ _ _"] semantic_write_def base disk_def
        atomic_put_def modify_st_def)
  qed simp_all
  ultimately show ?thesis
    by (simp add: ingest_new_def phase policy bind_st_step) (simp add: bind_st_def disk_def atomic_put_def)
qed

section \<open>A signing session\<close>

definition signing_relay :: frame_env where
  "signing_relay = demo_relay\<lparr>fe_btc := gossip_env\<rparr>"

abbreviation demo_built :: manifest where
  "demo_built \<equiv> demo_manifest 0 1 348"

definition demo_reserved :: local_reservation where
  "demo_reserved = \<lparr>lr_operation_id = operation_id demo_commitment, lr_outpoint = fee_outpoint demo_commitment, lr_phase = CommittedUnsigned\<rparr>"

definition demo_signing :: session where
  "demo_signing = demo_start\<lparr>se_dir := (se_dir demo_start)\<lparr>sd_proposal := Some demo_wire,
       sd_manifests := [(manifest_name signing_relay demo_built, manifest_wire_bytes gossip_env demo_built)],
       sd_reservations := [(reservation_path (operation_id demo_commitment), encode_reservation signing_relay demo_reserved)]\<rparr>,
     se_commitments := [demo_commitment]\<rparr>"

lemma signing_env:
  "env_ok gossip_env" "manifest_typed gossip_env demo_built" "manifest_validate gossip_env zero_sponge demo_built demo_proposal = Inr ()"
  "fe_btc signing_relay = gossip_env" "fe_sponge signing_relay = zero_sponge"
proof -
  show "env_ok gossip_env" using demo_env_ok by (simp add: gossip_env_def decoder_irrelevant)
  show "manifest_typed gossip_env demo_built" by (simp add: manifest_typed_def gossip_env_def) (simp add: demo_env_def)
  show "manifest_validate gossip_env zero_sponge demo_built demo_proposal = Inr ()" using demo_valid by (simp add: manifest_validate_iff gossip_env_def build_decoder)
qed (simp_all add: signing_relay_def demo_relay_def)

lemma demo_built_fields:
  "mf_commitments demo_built = [demo_commitment]" "replacement_epoch demo_built = 0" "mf_batch_id demo_built = batch_id gossip_env demo_proposal"
  "participant_count demo_proposal = 1"
  by (simp_all add: demo_manifest_def gossip_env_def decoder_irrelevant) (simp add: demo_proposal_def)

lemma demo_read_manifest:
  "manifest_from_wire gossip_env zero_sponge demo_proposal [demo_commitment] (manifest_wire_bytes gossip_env demo_built) = Inr demo_built"
  by (rule manifest_read_back [OF signing_env(1-3)]) (simp add: demo_built_fields sort_commitments_def)

lemma demo_body_length: "length (manifest_body gossip_env demo_built) \<le> 1000"
proof -
  have "length (batch_id gossip_env demo_proposal) = 32" "length (commitment_id gossip_env demo_commitment) = 32"
    using length_batch_id length_commitment_id signing_env(1) by auto
  moreover have "ser_tx gossip_env tx = []" for tx by (simp add: gossip_env_def) (simp add: demo_env_def)
  moreover have "length (charges demo_built) = 1" by (simp add: demo_manifest_def)
  ultimately show ?thesis by (simp add: manifest_body_def Let_def demo_built_fields length_concat) (cases "charges demo_built"; simp)
qed

lemma demo_pool: "manifest_from_wire_pool gossip_env zero_sponge demo_proposal [demo_commitment] (manifest_wire_bytes gossip_env demo_built) = Inr demo_built"
proof -
  have body: "wire_body (manifest_wire_bytes gossip_env demo_built) MANIFEST_KIND = Inr (manifest_body gossip_env demo_built)"
    using demo_body_length by (simp add: manifest_wire_bytes_def wire_body_message)
  have fits: "fits (manifest_body gossip_env demo_built)" using demo_body_length by (simp add: fits_def)
  show ?thesis
    unfolding manifest_from_wire_pool_def body
    using fits length_batch_id [OF signing_env(1), of demo_proposal] length_commitment_id [OF signing_env(1), of demo_commitment]
    by (simp add: manifest_body_def reader_new_cursor codec_reads Let_def demo_built_fields demo_read_manifest)
qed


lemma demo_signing_fields:
  "sd_proposal (se_dir demo_signing) = Some demo_wire" "se_policy demo_signing = demo_policy" "se_commitments demo_signing = [demo_commitment]"
  "sd_manifests (se_dir demo_signing) = [(manifest_name signing_relay demo_built, manifest_wire_bytes gossip_env demo_built)]"
  "sd_phase (se_dir demo_signing) = None" "sd_faults (se_dir demo_signing) = []" "sd_frames (se_dir demo_signing) = []" "sd_signatures (se_dir demo_signing) = []"
  "se_relay_policy demo_signing = default_relay_policy" "se_stored demo_signing = 0" "se_identity demo_signing = replicate 32 2"
  "map_of (sd_reservations (se_dir demo_signing)) (reservation_path (operation_id demo_commitment)) = Some (encode_reservation signing_relay demo_reserved)"
  by (simp_all add: demo_signing_def demo_start_def empty_dir_def)

lemma demo_signing_need:
  assumes "sd_proposal (se_dir s) = Some demo_wire" "se_policy s = demo_policy"
  shows "need_proposal signing_relay msg s = Inr demo_proposal"
proof -
  have "proposal_wire_bytes gossip_env demo_proposal = demo_wire" by (simp add: demo_wire_def proposal_wire_bytes_def proposal_body_def gossip_env_def)
  moreover have "proposal_typed gossip_env demo_proposal" "proposal_validate gossip_env demo_proposal = Inr ()"
    using demo_proposal_ok by (simp_all add: gossip_env_def decoder_irrelevant proposal_typed_def pubkey_ok_def)
  ultimately have wire: "proposal_from_wire gossip_env demo_wire = Inr demo_proposal" and valid: "proposal_validate gossip_env demo_proposal = Inr ()"
    using proposal_read_back [OF signing_env(1)] by metis+
  then show ?thesis using demo_wire_ok(2)
    by (simp add: need_proposal_def load_proposal_def assms signing_env read_limited_def MAX_PAYLOAD_BYTES_def batch_error_def require_live_proposal_def validate_at_def
      demo_policy_def) (simp add: demo_proposal_def)
qed

lemma demo_signing_manifests:
  assumes "sd_manifests (se_dir s) = sd_manifests (se_dir demo_signing)" "se_commitments s = [demo_commitment]"
  shows "session_manifests signing_relay demo_proposal s = Inr [demo_built]"
proof -
  have "has_extension ''bin'' (manifest_name signing_relay demo_built)"
    using has_extension_append [of "zero_pad 10 (decimal (unat (replacement_epoch demo_built))) @ lit ''-'' @ to_hex (manifest_id gossip_env demo_built)" "''bin''"]
    by (simp add: manifest_name_def signing_env lit_def)
  moreover have "length (manifest_wire_bytes gossip_env demo_built) \<le> MAX_PAYLOAD_BYTES"
    using demo_body_length by (simp add: manifest_wire_bytes_def wire_message_def MAX_PAYLOAD_BYTES_def)
  ultimately show ?thesis
    by (simp add: session_manifests_def load_manifests_def load_commitments_def assms demo_signing_fields read_paths_with_extension_def read_limited_def signing_env
      demo_pool batch_error_def)
qed

definition demo_signed :: ecdsa_signature where
  "demo_signed = \<lparr>sig_core = [], sighash_type = 1\<rparr>"

lemma demo_sign_input:
  "sign_input signing_relay demo_proposal demo_built 1 (replicate 33 8) =
     Inr (operation_id demo_commitment, fee_outpoint demo_commitment, fee_pubkey demo_commitment, demo_signed)"
proof -
  have key: "require_key gossip_env (replicate 33 8) (fee_pubkey demo_commitment) = Inr ()"
    by (simp add: require_key_def gossip_env_def demo_commitment_def) (simp add: demo_env_def)
  have hash: "p2wpkh_sighash gossip_env a b c d = Some []" "sign_ecdsa gossip_env k e = []" for a b c d k e
    by (simp_all add: gossip_env_def) (simp_all add: demo_env_def)
  show ?thesis by (simp add: sign_input_def signing_env sign_participant_def demo_built_fields key hash sign_digest_def SIGHASH_ALL_def demo_signed_def batch_error_def)
qed

lemma demo_reservation: "require_reservation signing_relay demo_reserved (operation_id demo_commitment) (fee_outpoint demo_commitment) demo_signing = Inr ()"
proof -
  have "de_outpoint gossip_env (ser_outpoint gossip_env (fee_outpoint demo_commitment)) = Some (fee_outpoint demo_commitment)"
       "length (ser_outpoint gossip_env (fee_outpoint demo_commitment)) = 36"
    using signing_env(1) by (simp_all add: env_ok_def demo_commitment_def outpoint_ok_def)
  moreover have "length (operation_id demo_commitment) = 32" by (simp add: demo_commitment_def)
  ultimately have "decode_reservation signing_relay (encode_reservation signing_relay demo_reserved) = Inr demo_reserved"
    "length (encode_reservation signing_relay demo_reserved) = 77"
    by (simp_all add: decode_reservation_def encode_reservation_def demo_reserved_def signing_env RESERVATION_MAGIC_def slice_def batch_error_def phase_from_byte_def Let_def nth_append)
  then show ?thesis
    by (simp add: require_reservation_def local_reservation_of_def demo_signing_fields read_limited_def) (simp add: demo_reserved_def)
qed


definition demo_input_share :: signature_share where
  "demo_input_share = \<lparr>ss_manifest_id = manifest_id gossip_env demo_built, input_index = 1, signer_pubkey = fee_pubkey demo_commitment, ss_signature = demo_signed\<rparr>"

definition demo_share_frame :: signed_frame where
  "demo_share_frame = \<lparr>fr_kind = KSignature, fr_sender = replicate 33 2, fr_payload = share_wire_bytes gossip_env demo_input_share, fr_origin = None, fr_signature = []\<rparr>"

lemma demo_share_read:
  "share_new gossip_env (manifest_id gossip_env demo_built) 1 (fee_pubkey demo_commitment) demo_signed = Inr demo_input_share"
  "share_from_wire gossip_env (share_wire_bytes gossip_env demo_input_share) = Inr demo_input_share"
  "verify_signature_share gossip_env zero_sponge demo_built demo_proposal demo_input_share = Inr ()"
  "length (share_wire_bytes gossip_env demo_input_share) \<le> 1000"
proof -
  have all: "require_all gossip_env demo_signed = Inr ()" by (simp add: require_all_def demo_signed_def SIGHASH_ALL_def gossip_env_def) (simp add: demo_env_def)
  then show "share_new gossip_env (manifest_id gossip_env demo_built) 1 (fee_pubkey demo_commitment) demo_signed = Inr demo_input_share"
    by (simp add: share_new_def demo_input_share_def)
  have id: "length (manifest_id gossip_env demo_built) = 32" using signing_env(1) by (simp add: manifest_id_def domain_hash_def env_ok_def)
  have ser: "ser_sig gossip_env demo_signed = [0x30]" "sig_from_slice gossip_env [0x30] = Some demo_signed" "length (fee_pubkey demo_commitment) = 33"
    "pubkey_from_slice gossip_env (fee_pubkey demo_commitment) = Some (fee_pubkey demo_commitment)"
    by (simp_all add: gossip_env_def demo_signed_def demo_commitment_def) (simp_all add: demo_env_def)
  then have "share_typed gossip_env demo_input_share" using id by (simp add: share_typed_def demo_input_share_def pubkey_ok_def)
  with all show "share_from_wire gossip_env (share_wire_bytes gossip_env demo_input_share) = Inr demo_input_share"
    by (intro share_read_back signing_env) (simp_all add: demo_input_share_def)
  have "verify_participant_signature gossip_env demo_built 0 demo_signed = Inr ()"
    by (simp add: verify_participant_signature_def all Let_def) (simp add: gossip_env_def verify_digest_def demo_env_def)
  then show "verify_signature_share gossip_env zero_sponge demo_built demo_proposal demo_input_share = Inr ()"
    by (simp add: verify_signature_share_def signing_env demo_input_share_def demo_built_fields Let_def)
  show "length (share_wire_bytes gossip_env demo_input_share) \<le> 1000"
    using id ser by (simp add: share_wire_bytes_def wire_message_def share_body_def Let_def demo_input_share_def)
qed

lemma demo_share_frame_ok:
  "frame_ok signing_relay demo_share_frame" "length (frame_to_wire signing_relay demo_share_frame) \<le> 2000"
  "frame_sign signing_relay KSignature (share_wire_bytes gossip_env demo_input_share) (replicate 32 2) = Inr demo_share_frame"
proof -
  have rel: "from_der signing_relay bs = Some (drop 8 bs)" "ser_der signing_relay sg = replicate 8 0 @ take 64 sg" "normalize_s gossip_env sg = sg"
    "pubkey_from_slice gossip_env (replicate 33 2) = Some (replicate 33 2)" "verify_ecdsa gossip_env x y z" "pubkey_of gossip_env (replicate 32 2) = replicate 33 2"
    "sign_ecdsa gossip_env k e = []" for bs sg x y z k e
    by (simp_all add: signing_relay_def demo_relay_def gossip_env_def) (simp_all add: demo_env_def eval_nat_numeral)
  show "frame_ok signing_relay demo_share_frame"
    using demo_share_read(4) by (simp add: frame_ok_def demo_share_frame_def sig_ok_def signing_env rel MAX_PAYLOAD_BYTES_def)
  show "length (frame_to_wire signing_relay demo_share_frame) \<le> 2000"
    using demo_share_read(4) by (simp add: frame_to_wire_layout length_frame_head demo_share_frame_def origin_bytes_def rel)
  show "frame_sign signing_relay KSignature (share_wire_bytes gossip_env demo_input_share) (replicate 32 2) = Inr demo_share_frame"
    using demo_share_read(4) by (simp add: frame_sign_def sign_parts_def MAX_PAYLOAD_BYTES_def signing_env rel demo_share_frame_def Let_def)
qed


definition demo_marked :: session where
  "demo_marked = demo_signing\<lparr>se_dir := (se_dir demo_signing)\<lparr>sd_reservations :=
     btree_insert (reservation_path (operation_id demo_commitment)) (encode_reservation signing_relay (demo_reserved\<lparr>lr_phase := SignatureReleased\<rparr>))
       (sd_reservations (se_dir demo_signing))\<rparr>\<rparr>"

lemma demo_ingest_share: "fst (ingest signing_relay (frame_to_wire signing_relay demo_share_frame) demo_marked) = Inr Accepted"
proof -
  let ?f = demo_share_frame and ?s = demo_marked
  let ?w = "frame_to_wire signing_relay ?f"
  have k: "fr_kind ?f = KSignature" "fr_payload ?f = share_wire_bytes gossip_env demo_input_share" "fr_origin ?f = None" "length (fr_sender ?f) = 33"
    by (simp_all add: demo_share_frame_def)
  have base: "sd_proposal (se_dir ?s) = Some demo_wire" "se_policy ?s = demo_policy" "se_commitments ?s = [demo_commitment]"
    "sd_manifests (se_dir ?s) = sd_manifests (se_dir demo_signing)" "sd_phase (se_dir ?s) = None" "sd_faults (se_dir ?s) = []" "sd_frames (se_dir ?s) = []"
    "sd_signatures (se_dir ?s) = []" "se_relay_policy ?s = default_relay_policy" "se_stored ?s = 0"
    by (simp_all add: demo_marked_def demo_signing_fields)
  have id: "ss_manifest_id demo_input_share = manifest_id gossip_env demo_built" by (simp add: demo_input_share_def)
  let ?u = "?s\<lparr>se_dir := (se_dir ?s)\<lparr>sd_signatures := btree_insert (share_name demo_input_share) (fr_payload ?f) []\<rparr>\<rparr>"
  have "persist_semantic signing_relay ?f ?s = (Inr (), ?u)"
    using demo_share_read(2,3)
    by (simp add: persist_semantic_def k persist_signature_def demo_signing_need base demo_signing_manifests signing_env batch_error_def find_manifest_def bind_st_step
      Let_def semantic_write_def disk_def atomic_put_def id)
  moreover have "enforce_frame_policy signing_relay ?f (length ?w) ?s = Inr ()"
    using demo_share_frame_ok(2) by (simp add: enforce_frame_policy_def base k checked_add_def default_relay_policy_def unat_of_nat word_less_nat_alt)
  moreover have "load_phase (se_dir ?s) = Inr None" by (simp add: load_phase_def base)
  moreover have "verify_origin_authorization signing_relay ?f ?s = Inr ()" by (simp add: verify_origin_authorization_def k)
  moreover have "stored_frame signing_relay ?f ?s = Inr False" by (simp add: stored_frame_def base)
  moreover note frame_read_back [OF demo_share_frame_ok(1)]
  moreover let ?v = "?u\<lparr>se_dir := (se_dir ?u)\<lparr>sd_frames := btree_insert (frame_name signing_relay ?f) ?w []\<rparr>, se_stored := word_of_nat (length ?w)\<rparr>"
  have "count_stored (length ?w) (?u\<lparr>se_dir := (se_dir ?u)\<lparr>sd_frames := btree_insert (frame_name signing_relay ?f) ?w []\<rparr>\<rparr>) = (Inr (), ?v)"
    using demo_share_frame_ok(2) by (simp add: count_stored_def base checked_add_def unat_of_nat)
  moreover let ?ev = "lit ''accepted '' @ kind_name (fr_kind ?f) @ lit '' '' @ to_hex (frame_id signing_relay ?f) @ lit '' '' @ to_hex (fr_sender ?f)"
  have "calm ?v" by (simp add: calm_def base)
  then have "fst (append_event ?ev ?v) = Inr ()" using signing_env(1,4) k(4) by (intro accepted_event_ok) simp_all
  then have "append_event ?ev ?v = (Inr (), snd (append_event ?ev ?v))" by (simp add: prod_eq_iff)
  ultimately show ?thesis
    by (simp add: ingest_def ingest_new_def base bind_st_step disk_def atomic_put_def return_st_def)
qed

definition demo_inputs :: verified_batch_inputs where
  "demo_inputs = \<lparr>vb_batch_id = batch_id gossip_env demo_proposal, vb_manifest_id = manifest_id gossip_env demo_built, vb_tip_height = 10, vb_tip_hash = [],
     vb_verified_at = 100, vb_stock = \<lparr>vo_outpoint = stock_outpoint demo_proposal, vo_creation_height = 5, vo_checked_through = 10, vo_matched_blocks = 1\<rparr>, vb_participants = []\<rparr>"

lemma demo_sign_run:
  "\<exists>t. sign_and_publish signing_relay (Some 100) (manifest_id gossip_env demo_built) 1 (replicate 33 8) demo_inputs demo_reserved \<lparr>d_secs = 60, d_nanos = 0\<rparr> demo_signing =
     (Inr (frame_to_wire signing_relay demo_share_frame), t)"
proof -
  have fresh: "batch_require_fresh_for gossip_env (Some 100) demo_inputs demo_proposal demo_built \<lparr>d_secs = 60, d_nanos = 0\<rparr> = Inr ()"
    by (simp add: batch_require_fresh_for_def demo_inputs_def require_fresh_timestamp_def unix_time_def checked_sub_def)
  have put: "persist_reservation signing_relay \<lparr>lr_operation_id = operation_id demo_commitment, lr_outpoint = fee_outpoint demo_commitment, lr_phase = SignatureReleased\<rparr> demo_signing =
      (Inr (), demo_marked)"
    by (simp add: persist_reservation_def disk_def atomic_put_def demo_signing_fields(6) demo_marked_def demo_reserved_def)
  have phase: "signature_released (lr_phase demo_reserved) = Inr SignatureReleased" by (simp add: demo_reserved_def)
  have ingested: "ingest signing_relay (frame_to_wire signing_relay demo_share_frame) demo_marked =
      (Inr Accepted, snd (ingest signing_relay (frame_to_wire signing_relay demo_share_frame) demo_marked))"
    using demo_ingest_share by (simp add: prod_eq_iff)
  have key: "se_identity demo_marked = replicate 32 2" by (simp add: demo_marked_def demo_signing_fields)
  show ?thesis
    using demo_share_frame_ok(3) demo_share_read(1) ingested
    by (simp add: sign_and_publish_def demo_signing_need demo_signing_manifests demo_signing_fields signing_env find_manifest_def fresh demo_sign_input demo_reservation
      phase put batch_error_def bind_st_step publish_def publish_frame_def key Let_def return_st_def)
qed

section \<open>Properties\<close>

text \<open>
  Claim C35. A closed session is final. Once the phase on disk is confirmed, payload delivered, aborted, expired or
  invalidated on chain, or the phase file is unreadable, no operation reopens the session: whatever is called, with
  whatever input and whichever writes fail, the session stays closed and its proposal, frames, commitments, manifests,
  signature shares, signed transactions and index are never touched again.
\<close>

theorem sealed_session_is_final:
  assumes "(session_step env)\<^sup>*\<^sup>* s t" "sealed s"
  shows "sealed t \<and> protocol_part t = protocol_part s"
  using final_session.run_keeps [OF assms(1)] assms(2) by blast

definition demo_aborted :: session where
  "demo_aborted = demo_proposed\<lparr>se_dir := (se_dir demo_proposed)\<lparr>sd_phase := Some (as_bytes (phase_name AbortedBeforeSignature @ [10] @ [] @ [10]))\<rparr>\<rparr>"

theorem sealed_session_is_final_witness:
  "protocol_part (snd (ingest demo_relay (frame_to_wire demo_relay (demo_frame KCommitment demo_pledge)) demo_aborted)) = protocol_part demo_aborted"
proof -
  have "sealed demo_aborted"
    using load_written_phase [of "se_dir demo_aborted" AbortedBeforeSignature "[]"]
    by (auto simp: sealed_def demo_aborted_def rejects_new_protocol_messages_def)
  then show ?thesis using sealed_session_is_final [OF r_into_rtranclp [of "session_step demo_relay", OF ingests [OF surjective_pairing]]] by blast
qed

text \<open>
  Claim C36. No signature leaves before its reservation is marked. However signing and publishing ends, and whichever writes fail, either it returned
  an error and neither the signature shares nor the frames of the session changed, or all of the following hold. The input belongs to a manifest of the session
  with the given identifier; the reservation names the outpoint that the transaction of that manifest spends at the signed index, and the operation that
  owns that input; it was on disk in a phase that is still signable, and it is on disk with the phase \<open>SignatureReleased\<close> afterwards. A frame that is
  returned carries a share for that manifest and that index, under the public key of the given secret key, and its signature is the one of that key over the
  digest of that input.
\<close>

theorem signature_follows_reservation:
  assumes "sign_and_publish env clock mid index key inputs res max_age s = (r, t)"
  shows "(\<exists>e. r = Inl e) \<and> sd_signatures (se_dir t) = sd_signatures (se_dir s) \<and> sd_frames (se_dir t) = sd_frames (se_dir s) \<or>
    (\<exists>p ms m sig. need_proposal env ''session has no proposal'' s = Inr p \<and> session_manifests env p s = Inr ms \<and> m \<in> set ms \<and>
       manifest_id (fe_btc env) m = mid \<and> input_signed env p m index key (lr_operation_id res) (lr_outpoint res) sig \<and>
       local_reservation_of env (lr_operation_id res) s = Inr res \<and> \<not> is_releasable (lr_phase res) \<and>
       local_reservation_of env (lr_operation_id res) t = Inr (res\<lparr>lr_phase := SignatureReleased\<rparr>) \<and>
       (\<forall>wire. r = Inr wire \<longrightarrow> (\<exists>f share. wire = frame_to_wire env f \<and> fr_kind f = KSignature \<and>
          fr_payload f = share_wire_bytes (fe_btc env) share \<and> ss_manifest_id share = mid \<and> input_index share = index \<and> signer_pubkey share = pubkey_of (fe_btc env) key \<and> ss_signature share = sig)))"
  using sign_and_publish_cases [OF assms] unfolding released_signing_def .

theorem signature_follows_reservation_witness:
  "\<exists>t. sign_and_publish signing_relay (Some 100) (manifest_id gossip_env demo_built) 1 (replicate 33 8) demo_inputs demo_reserved \<lparr>d_secs = 60, d_nanos = 0\<rparr> demo_signing =
       (Inr (frame_to_wire signing_relay demo_share_frame), t) \<and>
     local_reservation_of signing_relay (operation_id demo_commitment) t = Inr (demo_reserved\<lparr>lr_phase := SignatureReleased\<rparr>) \<and>
     input_signed signing_relay demo_proposal demo_built 1 (replicate 33 8) (operation_id demo_commitment) (fee_outpoint demo_commitment) demo_signed"
proof -
  obtain t where run: "sign_and_publish signing_relay (Some 100) (manifest_id gossip_env demo_built) 1 (replicate 33 8) demo_inputs demo_reserved
      \<lparr>d_secs = 60, d_nanos = 0\<rparr> demo_signing = (Inr (frame_to_wire signing_relay demo_share_frame), t)"
    using demo_sign_run by blast
  have "lr_operation_id demo_reserved = operation_id demo_commitment" by (simp add: demo_reserved_def)
  with signature_follows_reservation [OF run] sign_input_Inr [OF demo_sign_input] run show ?thesis by auto
qed

text \<open>
  Claim C37. Ingestion is idempotent: bytes that were accepted once are reported as a duplicate when they arrive again,
  and the session is exactly the one after the first acceptance.
\<close>

theorem ingest_idempotent:
  assumes "ingest env wire s = (Inr Accepted, t)"
  shows "ingest env wire t = (Inr Duplicate, t)"
  by (rule ingest_again [OF assms])

theorem ingest_idempotent_witness:
  "fst (ingest demo_relay (frame_to_wire demo_relay (demo_frame KProposal demo_wire)) demo_start) = Inr Accepted \<and>
   ingest demo_relay (frame_to_wire demo_relay (demo_frame KProposal demo_wire)) (snd (append_event demo_event demo_proposed)) =
     (Inr Duplicate, snd (append_event demo_event demo_proposed))"
  using ingest_idempotent [OF demo_publish(2)] demo_publish(2) by simp

text \<open>
  Claim C40. Reaching the expiry height locks the session. After a tip refresh at or above the expiry height of the stored
  proposal, the status, the signed transactions already on disk and finalization all fail with \<open>ExpiredProposal\<close>, and no
  phase can be recorded any more, neither \<open>Broadcast\<close> or \<open>Confirmed\<close> for a transaction that was signed in time nor
  \<open>ExpiredUnsigned\<close>.
\<close>

theorem expiry_locks_session:
  assumes "env_ok (fe_btc env)" "refresh_verified_tip clock tip max_age s = (Inr (), t)" "stored_proposal env (se_dir s) = Inr (Some p)"
    and "pr_chain_id p = sp_chain_id (se_policy s)" "unat (expiry_height p) \<le> vt_height tip"
  shows "status env t = Inl (CliBatch ExpiredProposal) \<and> signed_transaction env mid t = Inl (CliBatch ExpiredProposal) \<and>
    finalize_manifest env mid t = (Inl (CliBatch ExpiredProposal), t) \<and> (\<exists>e. mark_phase env nxt evidence t = (Inl e, t))"
proof -
  have t: "sd_proposal (se_dir t) = sd_proposal (se_dir s)" "se_policy t = (se_policy s)\<lparr>current_height := word_of_nat (vt_height tip)\<rparr>" "vt_height tip \<le> U32_MAX"
    using refresh_sets [OF assms(2)] by simp_all
  have "unat (word_of_nat (vt_height tip) :: u32) = vt_height tip" using t(3) by (simp add: unat_of_nat U32_MAX_def)
  then have "load_proposal env t = Inl (CliBatch ExpiredProposal)"
    using assms t by (intro expired_load) (simp_all add: stored_proposal_def word_le_nat_alt)
  then show ?thesis
    by (simp add: status_def signed_transaction_def finalize_manifest_def mark_phase_def need_proposal_def result_st_def)
qed

definition demo_tip :: verified_chain_tip where
  "demo_tip = \<lparr>vt_chain_id = replicate 32 1, vt_height = 20, vt_hash = [], vt_verified_at = 100\<rparr>"

theorem expiry_locks_session_witness:
  "status demo_relay (snd (refresh_verified_tip (Some 100) demo_tip \<lparr>d_secs = 60, d_nanos = 0\<rparr> demo_proposed)) = Inl (CliBatch ExpiredProposal)"
proof -
  let ?t = "refresh_verified_tip (Some 100) demo_tip \<lparr>d_secs = 60, d_nanos = 0\<rparr> demo_proposed"
  let ?u = "demo_proposed\<lparr>se_policy := (se_policy demo_proposed)\<lparr>current_height := 20\<rparr>\<rparr>"
  have fresh: "tip_require_fresh (Some 100) demo_tip \<lparr>d_secs = 60, d_nanos = 0\<rparr> = Inr ()"
    by (simp add: tip_require_fresh_def require_fresh_timestamp_def demo_tip_def unix_time_def checked_sub_def)
  have tip: "vt_height demo_tip = 20" "vt_chain_id demo_tip = replicate 32 1" "vt_hash demo_tip = []" by (simp_all add: demo_tip_def)
  have base: "sp_chain_id (se_policy demo_proposed) = replicate 32 1" "sd_faults (se_dir demo_proposed) = []"
    by (simp_all add: demo_proposed_def with_frame_def demo_start_def demo_policy_def empty_dir_def)
  have digits: "decimal 20 = [50, 48]" by (simp add: decimal_rec)
  have "?t = append_event (lit ''verified_tip '' @ [50, 48] @ lit '' '') (?u\<lparr>se_dir := (se_dir ?u)\<lparr>sd_policy := Some (encode_policy (se_policy ?u))\<rparr>\<rparr>)"
    unfolding refresh_verified_tip_def by (simp add: fresh tip base digits bind_st_step U32_MAX_def to_hex_def)
  moreover have "fst (append_event (lit ''verified_tip '' @ [50, 48] @ lit '' '') (?u\<lparr>se_dir := (se_dir ?u)\<lparr>sd_policy := Some (encode_policy (se_policy ?u))\<rparr>\<rparr>)) = Inr ()"
    by (rule append_event_ok) (simp_all add: calm_def base lit_def)
  ultimately have run: "?t = (Inr (), snd ?t)" by (metis prod.collapse)
  from expiry_locks_session [OF demo_relay_signs(2) run demo_stored] show ?thesis using base(1) tip(1) by (simp add: demo_proposal_def)
qed

text \<open>
  Claim C39. A commitment whose file is written but whose frame file is not makes the session directory unusable. Ingestion
  stores the body of a commitment before its frame. When the process stops, or the second write fails, between the two,
  the directory can no longer be opened: reconstruction refuses the commitment because it has no authorized frame.
\<close>

theorem torn_commitment_blocks_reopening:
  assumes "env_ok (fe_btc env)" "session_inv env s" "files_ok env s" "sd_faults (se_dir s) = [DiskOk, DiskFailed]"
    and "frame_from_wire env wire = Inr f" "fr_kind f = KCommitment" "ingest env wire s = (r, t)" "sd_commitments (se_dir t) \<noteq> sd_commitments (se_dir s)"
  shows "session_open env (se_dir t) = (Inl (CliTransport ''stored commitment lacks its authorized relay frame''), se_dir t)"
proof -
  from assms(2) obtain q cs fs where ix: "indexed env s q cs fs" by (auto simp: session_inv_def)
  show ?thesis
  proof (rule torn_ingest [OF assms(1) ix assms(4-8)])
    fix name q' cs' fs' u
    assume torn: "indexed env (with_frame env f u) q' cs' fs'" "se_dir t = se_dir u"
      "map_of (sd_commitments (se_dir s)) name = None" "sd_commitments (se_dir t) = btree_insert name (fr_payload f) (sd_commitments (se_dir s))"
      "sd_frames (se_dir t) = sd_frames (se_dir s)" "sd_proposal (se_dir t) = sd_proposal (se_dir s)" "files_ok env s \<Longrightarrow> files_ok env (s\<lparr>se_dir := se_dir t\<rparr>)"
      "se_relay_policy u = se_relay_policy s"
    have "rebuild_session_index env (se_dir t) (se_relay_policy s) = Inl (CliTransport ''stored commitment lacks its authorized relay frame'')"
      by (rule torn_rebuild [OF assms(1) ix torn(1-5,8,6)])
    with open_reads [OF torn(7) [OF assms(3)], of "se_dir t"] show ?thesis by (simp add: load_session_def)
  qed
qed

theorem torn_commitment_blocks_reopening_witness:
  "fst (session_open demo_relay (se_dir (snd (ingest demo_relay (frame_to_wire demo_relay (demo_frame KCommitment demo_pledge)) demo_failing)))) =
     Inl (CliTransport ''stored commitment lacks its authorized relay frame'')"
proof -
  let ?f = "demo_frame KCommitment demo_pledge"
  have parse: "frame_from_wire demo_relay (frame_to_wire demo_relay ?f) = Inr ?f"
    using demo_pledge_ok(2) by (intro frame_read_back demo_frame_ok) (simp add: MAX_PAYLOAD_BYTES_def)
  have "indexed demo_relay demo_failing = indexed demo_relay demo_proposed" by (intro ext indexed_cong) (simp add: index_part_def demo_failing_def)
  then have inv: "session_inv demo_relay demo_failing" using demo_proposed_sound by (simp add: sound_def session_inv_def)
  have files: "files_ok demo_relay demo_failing" using demo_proposed_sound by (simp add: sound_def files_ok_def demo_failing_def)
  have faults: "sd_faults (se_dir demo_failing) = [DiskOk, DiskFailed]" "sd_commitments (se_dir demo_failing) = []"
    by (simp_all add: demo_failing_def demo_proposed_def with_frame_def demo_start_def empty_dir_def)
  show ?thesis
    using torn_commitment_blocks_reopening [OF demo_relay_signs(2) inv files faults(1) parse _ surjective_pairing] demo_tear faults(2)
    by (simp add: demo_frame_def)
qed

end
