(* ===== verification/Spec2Isabelle.thy ===== *)
theory Spec2Isabelle
  imports Hash_Roles Accept Batch_Gossip Solo_Anchor Bech32 Cbf_Work Cbf_Client_Proofs Cbf_Scan_File_Proofs Cbf_Batch_Proofs
    Snapshot_Chain Bitcoin_Anchor_Proofs Gossip_Safety
begin

text \<open>
  OpenCSV: client-side validated digital cash anchored in Bitcoin.

  \<^bold>\<open>The program.\<close> A coin is a private opening of a commitment. Moving a coin publishes one 64-byte record in an
  \<open>OP_RETURN\<close> output; the record binds nullifiers of the coins that are spent, and the first record of the chain that binds
  a nullifier is the spend that counts. A receiver is handed a consignment (openings, a proof, a reference to the
  anchor) and decides by itself, from a view of the anchor chain, whether to accept it. Several senders can share one Bitcoin
  transaction: they agree on a manifest over a gossip relay, sign it, and the nullifiers travel in a witness envelope. The
  view of the chain comes from a bitcoind node, from a snapshot, or from a light client over compact block filters.

  \<^bold>\<open>Parts, theories and sources.\<close> Definitions keep the names of the sources; a record is a struct, a datatype an enum.

  \<^item> \<open>Prelude\<close>, \<open>Utf8\<close>, \<open>Index_Text\<close>: machine integers, byte strings, \<open>Result\<close> as a sum, integer codecs, checked arithmetic,
    UTF-8, and the string functions of the standard library that the index parsers call.
  \<^item> \<open>Field_Hash\<close> (\<open>opencsv-core\<close>: \<open>field.rs\<close>, \<open>digest.rs\<close>; \<open>opencsv-kernel\<close>: \<open>hash.rs\<close>, \<open>binding.rs\<close>), \<open>Coin\<close> (\<open>asset.rs\<close>, \<open>coin.rs\<close>,
    \<open>issuer.rs\<close>), \<open>Instrument\<close> (\<open>instrument.rs\<close>) and \<open>Hash_Roles\<close>: the encodings that are hashed. \<open>Hash_Roles\<close> shows that no two
    statements of the protocol ever give the sponge the same input.
  \<^item> \<open>Kernel\<close> (\<open>opencsv-kernel\<close>): the pure decision kernel with its index loops, refined to the circulating amount and to the list
    of checks it stands for.
  \<^item> \<open>Anchor\<close> (\<open>anchor.rs\<close>, \<open>batch.rs\<close>, \<open>kernel.rs\<close>), \<open>Chain\<close> (\<open>chain.rs\<close>, \<open>audit.rs\<close>), \<open>Crosscheck\<close> (\<open>crosscheck.rs\<close>), \<open>Accept\<close> (\<open>accept.rs\<close>,
    \<open>consignment.rs\<close>): the record codec, the \<open>AnchorChain\<close> trait as a record of queries, the mock chain as a step relation, the
    N-of-M chain, and the accept driver, which refines the kernel.
  \<^item> \<open>Batch_Wire\<close>, \<open>Batch_V2\<close> (\<open>opencsv-bitcoin\<close>: \<open>batch_v2.rs\<close>) with \<open>Batch_Manifest\<close>, \<open>Batch_Safety\<close>, \<open>Batch_Roundtrip\<close>, \<open>Batch_Gossip\<close>:
    proposals, commitments, the canonical manifest, signatures, finalization, fee replacement, and the wire codecs. Value
    conservation, canonicity, verifiability and exact codecs.
  \<^item> \<open>Solo_Anchor\<close> (\<open>replacement.rs\<close>, \<open>fee_model.rs\<close>) and \<open>Bech32\<close> (\<open>bech32.rs\<close>): fee bumps of a solo anchor, the cost comparison, addresses.
  \<^item> \<open>Bitcoin_Rpc\<close> (\<open>rpc.rs\<close>, \<open>error.rs\<close>), \<open>Bitcoin_Chain\<close> (\<open>chain.rs\<close>), \<open>Bitcoin_Chain_Proofs\<close>, \<open>Bitcoin_Anchor_Proofs\<close>: the bitcoind
    backend. A refresh tracks the best chain; an anchor that was sent binds what its caller built.
  \<^item> \<open>Cbf_Wire\<close>, \<open>Cbf_Hash\<close>, \<open>Cbf_Block\<close>, \<open>Cbf_Gcs\<close>, \<open>Cbf_Network\<close>, \<open>Cbf_Peer\<close>, \<open>Cbf_Chain\<close>, \<open>Cbf_Client\<close>, \<open>Cbf_Scan\<close>, \<open>Cbf_Scan_File\<close>, \<open>Cbf_Batch\<close>
    (\<open>opencsv-cbf\<close>, file for file), with \<open>Cbf_Codec\<close>, \<open>Cbf_Merkle\<close>, \<open>Cbf_Gcs_Proofs\<close>, \<open>Cbf_Work\<close> and the other \<open>Proofs\<close> theories: the light
    client. Whatever the peers send, the header chain holds validated headers only; agreement, unspent verdicts,
    confirmed anchors and negative filter answers mean what they say, and the scan index follows the chain across
    synchronisations with different peers.
  \<^item> \<open>Snapshot_Chain\<close> (\<open>ffi/src/snapshot.rs\<close>, \<open>hex.rs\<close>): the chain over a snapshot, and its behaviour behind the cross-check.
  \<^item> \<open>Gossip_Frame\<close>, \<open>Gossip_Session\<close>, \<open>Gossip_Ops\<close> (\<open>opencsv-cli\<close>: \<open>batch_gossip.rs\<close>) with their \<open>Proofs\<close> theories and \<open>Gossip_Safety\<close>: the
    authenticated frames and the durable session of the relay. The session in memory is the one its directory
    reopens to, a closed session is final, and no signature leaves before the reservation of the input it signs is marked on disk.

  \<^bold>\<open>Interfaces.\<close> \<open>occurrence_view\<close> (\<open>Chain\<close>) is the promise of an \<open>AnchorChain\<close> that the driver relies on: first occurrences
  are the least of all occurrences. It is interpreted on the mock chain, the cross-checked chain, the window scan, the
  scan index, the snapshot and the bitcoind chain. \<open>field_codec\<close> (\<open>Batch_Wire\<close>) and \<open>wire_codec\<close> (\<open>Cbf_Wire\<close>) are the laws of
  the two families of codecs, interpreted on each field type. \<open>session_relation\<close> (\<open>Gossip_Ops_Proofs\<close>) lifts a relation that
  the writes of a session keep to all its operations, interpreted on soundness and on finality.

  \<^bold>\<open>Parameters.\<close> Code outside the repository is an argument: the Poseidon2 sponge, SHA-256, the proof verifier and the
  bincode codec of a consignment, the \<open>bitcoin\<close> and \<open>secp256k1\<close> crates (\<open>btc_env\<close>, with the documented laws in \<open>env_ok\<close>), DER and
  secret keys (\<open>frame_env\<close>), the RPC transport (a function of the request with its fresh id), the JSON text codec. No
  hypothesis says that a hash has no collisions: binding statements conclude with an explicit collision.

  \<^bold>\<open>Panics, errors and bounds.\<close> Machine integers are words at their width and wrap or are checked as the source does.
  \<open>Err\<close> is \<open>Inl\<close>; where the code can panic the result is an option and \<open>None\<close> is the panic. Heights of the light client are
  natural numbers (\<open>usize\<close> indices into a chain held in memory). A connection is a finite input stream with read faults and a
  write budget, so the request loops are structural on what is left of it; synchronisation is shown to return on every such
  stream. The candidates of a rejection sampler are a finite list, whose exhaustion is \<open>None\<close>. A write to disk takes the next
  outcome of a list (done, failed, torn), so that a failure can strike anywhere. Two coarser points: the cache files of a
  light client synchronisation share one write outcome, and the rotation of the event log (a removal and a rename) is one write.

  \<^bold>\<open>Not modelled.\<close> The recursive proof circuits (\<open>opencsv-pcd\<close>) are constraint systems over a third-party proof library,
  and the driver takes their verifier as a parameter. The account layer of \<open>ffi\<close> (\<open>account.rs\<close>, \<open>wallet.rs\<close> and the C entry points) is
  SQL over SQLite and a foreign function boundary. The first batch format (\<open>batch.rs\<close>, \<open>relay.rs\<close> of \<open>opencsv-bitcoin\<close>) is superseded
  by the second one. The commands of \<open>opencsv-cli\<close>, the anchor server and the messenger bridge are glue over the parts above,
  HTTP and files. Error texts, accessors and logging are left out throughout.
\<close>

end
